(* ===== verification/Sdk_Prelude.thy ===== *)
theory Sdk_Prelude
  imports Complex_Main "HOL-Library.Word" "HOL-Library.Char_ord" "HOL-Library.List_Lexorder"
begin

text \<open>
  Shared vocabulary of the development: the machine integer types of the C++ code, the result
  type of operations that may throw, sequencing and mapping in that type, ordered insertion into
  association lists (the \<open>std::map\<close> inside a JSON object), and lemmas on list suffixes that the
  queue proofs share.

  A C++ function that may throw is a function into \<open>'e + 'a\<close>: \<open>Inl e\<close> is the exception, \<open>Inr a\<close>
  the returned value.  The collection \<open>codec_simps\<close> gathers the equations by which the JSON codec
  proofs evaluate a parameter class.
\<close>

named_theorems codec_simps "equations that evaluate JSON encoders and decoders"

type_synonym u8 = "8 word"
type_synonym u16 = "16 word"
type_synonym u32 = "32 word"
type_synonym u64 = "64 word"
type_synonym i8 = "8 word"
type_synonym i16 = "16 word"
type_synonym i32 = "32 word"
type_synonym i64 = "64 word"

subsection \<open>Results that may be an exception\<close>

definition sbind :: "'e + 'a \<Rightarrow> ('a \<Rightarrow> 'e + 'b) \<Rightarrow> 'e + 'b" where
  "sbind m f = (case m of Inl e \<Rightarrow> Inl e | Inr a \<Rightarrow> f a)"

lemma sbind_simps [simp, codec_simps]:
  "sbind (Inl e) f = Inl e"
  "sbind (Inr a) f = f a"
  by (simp_all add: sbind_def)

lemma sbind_Inr_iff: "sbind m f = Inr b \<longleftrightarrow> (\<exists>a. m = Inr a \<and> f a = Inr b)"
  by (cases m) auto

lemma sbind_Inl_iff: "sbind m f = Inl e \<longleftrightarrow> m = Inl e \<or> (\<exists>a. m = Inr a \<and> f a = Inl e)"
  by (cases m) auto

lemma sbind_cong [fundef_cong]:
  "m = m' \<Longrightarrow> (\<And>a. m' = Inr a \<Longrightarrow> f a = f' a) \<Longrightarrow> sbind m f = sbind m' f'"
  by (cases m') auto

text \<open>A loop that converts every element and stops at the first exception.\<close>

fun smap :: "('a \<Rightarrow> 'e + 'b) \<Rightarrow> 'a list \<Rightarrow> 'e + 'b list" where
  "smap f [] = Inr []"
| "smap f (x # xs) = sbind (f x) (\<lambda>y. sbind (smap f xs) (\<lambda>ys. Inr (y # ys)))"

lemma smap_cong [fundef_cong]:
  "xs = ys \<Longrightarrow> (\<And>x. x \<in> set ys \<Longrightarrow> f x = g x) \<Longrightarrow> smap f xs = smap g ys"
  by (induction xs arbitrary: ys) (auto intro!: sbind_cong)

lemma smap_map: "smap f (map g xs) = smap (\<lambda>x. f (g x)) xs"
  by (induction xs) auto

lemma smap_all_Inr: "(\<And>x. x \<in> set xs \<Longrightarrow> f x = Inr (h x)) \<Longrightarrow> smap f xs = Inr (map h xs)"
  by (induction xs) auto

lemma smap_Inr_length: "smap f xs = Inr ys \<Longrightarrow> length ys = length xs"
  by (induction xs arbitrary: ys) (auto simp: sbind_Inr_iff)

lemma smap_Inr_nth: "smap f xs = Inr ys \<Longrightarrow> i < length xs \<Longrightarrow> f (xs ! i) = Inr (ys ! i)"
  by (induction xs arbitrary: ys i) (auto simp: sbind_Inr_iff nth_Cons split: nat.splits)

subsection \<open>Ordered association lists\<close>

text \<open>Insertion into a \<open>std::map\<close>: keys ascending, an existing key is overwritten.\<close>

fun ins_sorted :: "'k::linorder \<Rightarrow> 'v \<Rightarrow> ('k \<times> 'v) list \<Rightarrow> ('k \<times> 'v) list" where
  "ins_sorted k v [] = [(k, v)]"
| "ins_sorted k v ((k', v') # m) =
     (if k = k' then (k, v) # m
      else if k < k' then (k, v) # (k', v') # m
      else (k', v') # ins_sorted k v m)"

lemma map_of_ins_sorted: "map_of (ins_sorted k v m) = (map_of m)(k \<mapsto> v)"
  by (induction k v m rule: ins_sorted.induct) (auto simp: fun_eq_iff)

lemma set_keys_ins_sorted: "fst ` set (ins_sorted k v m) = insert k (fst ` set m)"
  by (induction k v m rule: ins_sorted.induct) auto

lemma sorted_ins_sorted:
  "sorted_wrt (<) (map fst m) \<Longrightarrow> sorted_wrt (<) (map fst (ins_sorted k v m))"
proof (induction k v m rule: ins_sorted.induct)
  case (2 k v k' v' m)
  show ?case
  proof (cases "k' < k")
    case True
    have "\<forall>x \<in> fst ` set (ins_sorted k v m). k' < x"
      unfolding set_keys_ins_sorted using 2(2) True by auto
    with True 2 show ?thesis by auto
  next
    case False
    then show ?thesis using 2 by auto
  qed
qed simp

lemma ins_sorted_map_snd:
  "ins_sorted k (f v) (map (\<lambda>(k, v). (k, f v)) m) = map (\<lambda>(k, v). (k, f v)) (ins_sorted k v m)"
  by (induction k v m rule: ins_sorted.induct) auto

subsection \<open>The last elements of a list\<close>

definition takelast :: "nat \<Rightarrow> 'a list \<Rightarrow> 'a list" where
  "takelast n xs = drop (length xs - n) xs"

lemma length_takelast [simp]: "length (takelast n xs) = min n (length xs)"
  by (auto simp: takelast_def)

lemma takelast_all [simp]: "length xs \<le> n \<Longrightarrow> takelast n xs = xs"
  by (simp add: takelast_def)

lemma takelast_snoc: "0 < n \<Longrightarrow> takelast n (xs @ [x]) = takelast (n - 1) xs @ [x]"
  by (cases n) (auto simp: takelast_def Suc_diff_le)

lemma takelast_append_takelast: "takelast n (takelast n xs @ ys) = takelast n (xs @ ys)"
proof (cases "length xs \<le> n")
  case False
  then have "length ys + (length xs - n) = length xs + length ys - n" by simp
  with False show ?thesis by (simp add: takelast_def)
qed simp

end
