(* ===== verification/Dds_Executor.thy ===== *)
theory Dds_Executor
  imports Sdk_Prelude
begin

text \<open>
  The callback executors of \<open>common/dds/dds_entity.hpp\<close>: the process-wide thread pool
  \<open>DdsCallbackExecutor\<close>, the one-thread \<open>DdsDedicatedCallbackExecutor\<close> and the thread
  configuration \<open>TryConfigureThread\<close>.

  The deque, the stop flag and the state of every thread of an executor form \<open>Executor\<close>; each step
  of the relation \<open>ex_step\<close> is one critical section of the code (\<open>Submit\<close>, the destructor's stop
  request, one round of \<open>Run\<close>) or the end of a task.  \<open>ex_submitted\<close> and \<open>ex_started\<close> are history
  variables.  The locale \<open>fifo_executor\<close> is what the reader listener relies on: a waiting task is
  started exactly once, in submission order.
\<close>

subsection \<open>Options and metrics\<close>

datatype DdsExecutorOverflowPolicy = kDropNewest | kDropOldest | kLatestOnly

datatype DdsExecutorDispatchMode = kShared | kDedicated

record DdsReaderExecutorOptions =
  queue_capacity :: nat
  overflow_policy :: DdsExecutorOverflowPolicy
  enable_metrics :: bool
  dispatch_mode :: DdsExecutorDispatchMode
  enable_realtime_listener :: bool
  realtime_listener_priority :: i32
  realtime_listener_cpu_affinity_mask :: u64
  enable_realtime_dedicated_executor :: bool
  realtime_dedicated_executor_priority :: i32
  realtime_dedicated_executor_cpu_affinity_mask :: u64

definition DdsReaderExecutorOptions_default :: DdsReaderExecutorOptions where
  "DdsReaderExecutorOptions_default =
     \<lparr>queue_capacity = 64, overflow_policy = kDropOldest, enable_metrics = False,
      dispatch_mode = kShared, enable_realtime_listener = False, realtime_listener_priority = 80,
      realtime_listener_cpu_affinity_mask = 0, enable_realtime_dedicated_executor = False,
      realtime_dedicated_executor_priority = 70,
      realtime_dedicated_executor_cpu_affinity_mask = 0\<rparr>"

record DdsReaderExecutorMetrics =
  samples_received :: u64
  samples_dropped :: u64
  callbacks_executed :: u64
  current_queue_size :: nat
  queue_high_watermark :: nat
  max_queue_latency_us :: u64
  max_callback_duration_us :: u64

definition DdsReaderExecutorMetrics_default :: DdsReaderExecutorMetrics where
  "DdsReaderExecutorMetrics_default =
     \<lparr>samples_received = 0, samples_dropped = 0, callbacks_executed = 0, current_queue_size = 0,
      queue_high_watermark = 0, max_queue_latency_us = 0, max_callback_duration_us = 0\<rparr>"

subsection \<open>Thread configuration\<close>

text \<open>The system calls of \<open>TryConfigureThread\<close>, in order; their failure is only logged.\<close>

datatype ThreadCall = SetAffinity "nat list" | SetSchedFifo i32

definition TryConfigureThread :: "i32 \<Rightarrow> u64 \<Rightarrow> ThreadCall list" where
  "TryConfigureThread priority cpu_affinity_mask =
     (if cpu_affinity_mask \<noteq> 0
      then [SetAffinity (filter (\<lambda>cpu_index. bit cpu_affinity_mask cpu_index) [0..<64])] else [])
     @ (if 0 < sint priority then [SetSchedFifo priority] else [])"

lemma TryConfigureThread_affinity:
  "SetAffinity cpus \<in> set (TryConfigureThread priority m) \<Longrightarrow>
   cpus \<noteq> [] \<and> distinct cpus \<and> set cpus = {i. bit m i}"
proof -
  assume "SetAffinity cpus \<in> set (TryConfigureThread priority m)"
  then have cpus: "cpus = filter (\<lambda>i. bit m i) [0..<64]" and nz: "m \<noteq> 0"
    by (auto simp: TryConfigureThread_def split: if_splits)
  have small: "bit m i \<Longrightarrow> i < 64" for i
    using bit_imp_le_length [of m i] by simp
  have "set cpus = {i. bit m i}" using small cpus by auto
  moreover from nz obtain i where "bit m i" by (auto simp: bit_eq_iff)
  ultimately show ?thesis using cpus by (metis distinct_filter distinct_upt empty_iff list.set(1) mem_Collect_eq)
qed

subsection \<open>The executor as a transition system\<close>

datatype 't ThreadState = AtWait | RunningTask 't | Returned

record 't Executor =
  ex_tasks :: "'t list"
  ex_stop_requested :: bool
  ex_threads :: "'t ThreadState list"
  ex_submitted :: "'t list"
  ex_started :: "'t list"

text \<open>The pool size of \<open>DdsCallbackExecutor\<close>; the dedicated executor has one thread.\<close>

definition executor_thread_count :: "nat \<Rightarrow> nat" where
  "executor_thread_count hardware_concurrency = min 4 (max 1 hardware_concurrency)"

definition Executor_init :: "nat \<Rightarrow> 't Executor" where
  "Executor_init n =
     \<lparr>ex_tasks = [], ex_stop_requested = False, ex_threads = replicate n AtWait,
      ex_submitted = [], ex_started = []\<rparr>"

definition DdsCallbackExecutor_init :: "nat \<Rightarrow> 't Executor" where
  "DdsCallbackExecutor_init hardware_concurrency =
     Executor_init (executor_thread_count hardware_concurrency)"

definition DdsDedicatedCallbackExecutor_init :: "'t Executor" where
  "DdsDedicatedCallbackExecutor_init = Executor_init 1"

definition Submit :: "'t \<Rightarrow> 't Executor \<Rightarrow> 't Executor" where
  "Submit task e =
     e\<lparr>ex_tasks := ex_tasks e @ [task], ex_submitted := ex_submitted e @ [task]\<rparr>"

definition RequestStop :: "'t Executor \<Rightarrow> 't Executor" where
  "RequestStop e = e\<lparr>ex_stop_requested := True\<rparr>"

text \<open>
  One round of \<open>Run\<close> under the lock: the wait predicate, then return on an empty stopped queue,
  else pop the front task.  \<open>None\<close> means that the thread keeps waiting.
\<close>

definition RunRound :: "'t Executor \<Rightarrow> ('t Executor \<times> 't ThreadState) option" where
  "RunRound e =
     (if \<not> (ex_stop_requested e \<or> ex_tasks e \<noteq> []) then None
      else case ex_tasks e of
          [] \<Rightarrow> Some (e, Returned)
        | t # ts \<Rightarrow> Some (e\<lparr>ex_tasks := ts, ex_started := ex_started e @ [t]\<rparr>, RunningTask t))"

inductive ex_step :: "'t Executor \<Rightarrow> 't Executor \<Rightarrow> bool" where
  ex_submit: "ex_step e (Submit t e)"
| ex_stop: "ex_step e (RequestStop e)"
| ex_round: "i < length (ex_threads e) \<Longrightarrow> ex_threads e ! i = AtWait \<Longrightarrow> RunRound e = Some (e', st) \<Longrightarrow>
    ex_step e (e'\<lparr>ex_threads := (ex_threads e)[i := st]\<rparr>)"
| ex_task_end: "i < length (ex_threads e) \<Longrightarrow> ex_threads e ! i = RunningTask t \<Longrightarrow>
    ex_step e (e\<lparr>ex_threads := (ex_threads e)[i := AtWait]\<rparr>)"

inductive ex_reach :: "nat \<Rightarrow> 't Executor \<Rightarrow> bool" where
  ex_init: "ex_reach n (Executor_init n)"
| ex_next: "ex_reach n e \<Longrightarrow> ex_step e e' \<Longrightarrow> ex_reach n e'"

definition ex_inv :: "nat \<Rightarrow> 't Executor \<Rightarrow> bool" where
  "ex_inv n e \<longleftrightarrow> ex_submitted e = ex_started e @ ex_tasks e \<and> length (ex_threads e) = n
     \<and> (Returned \<in> set (ex_threads e) \<longrightarrow> ex_stop_requested e)"

lemma ex_inv_init: "ex_inv n (Executor_init n)"
  by (auto simp: ex_inv_def Executor_init_def)

lemma ex_inv_step: "ex_step e e' \<Longrightarrow> ex_inv n e \<Longrightarrow> ex_inv n e'"
proof (induction rule: ex_step.induct)
  case (ex_round i e e' st)
  then show ?case
    by (auto simp: ex_inv_def RunRound_def split: if_splits list.splits dest!: set_update_subset_insert [THEN subsetD])
next
  case (ex_task_end i e t)
  then show ?case
    by (auto simp: ex_inv_def dest!: set_update_subset_insert [THEN subsetD])
qed (auto simp: ex_inv_def Submit_def RequestStop_def)

lemma ex_reach_inv: "ex_reach n e \<Longrightarrow> ex_inv n e"
  by (induction rule: ex_reach.induct) (auto intro: ex_inv_init ex_inv_step)

text \<open>
  A thread that returns leaves an empty queue behind: with the stop flag set and tasks waiting, a
  round always takes a task.  This is what makes the joining destructor run every task.
\<close>

lemma RunRound_Returned: "RunRound e = Some (e', Returned) \<Longrightarrow> ex_stop_requested e \<and> ex_tasks e = [] \<and> e' = e"
  by (auto simp: RunRound_def split: if_splits list.splits)

lemma RunRound_progress: "ex_tasks e \<noteq> [] \<or> ex_stop_requested e \<Longrightarrow> RunRound e \<noteq> None"
  by (auto simp: RunRound_def split: list.split)

subsection \<open>What a client of an executor relies on\<close>

fun take_tasks :: "('e \<Rightarrow> ('e \<times> 't) option) \<Rightarrow> nat \<Rightarrow> 'e \<Rightarrow> 't list \<times> 'e" where
  "take_tasks nx 0 e = ([], e)"
| "take_tasks nx (Suc n) e =
     (case nx e of None \<Rightarrow> ([], e)
      | Some (e', t) \<Rightarrow> (case take_tasks nx n e' of (ts, e'') \<Rightarrow> (t # ts, e'')))"

locale fifo_executor =
  fixes submit :: "'t \<Rightarrow> 'e \<Rightarrow> 'e"
    and next_task :: "'e \<Rightarrow> ('e \<times> 't) option"
    and waiting :: "'e \<Rightarrow> 't list"
  assumes waiting_submit: "waiting (submit t e) = waiting e @ [t]"
    and next_None: "next_task e = None \<longleftrightarrow> waiting e = []"
    and next_Some: "next_task e = Some (e', t) \<Longrightarrow> waiting e = t # waiting e'"
begin

lemma waiting_submits: "waiting (fold submit ts e) = waiting e @ ts"
  by (induction ts arbitrary: e) (simp_all add: waiting_submit)

lemma next_defined: "waiting e \<noteq> [] \<Longrightarrow> \<exists>e' t. next_task e = Some (e', t)"
  using next_None by (metis not_None_eq prod.exhaust)

text \<open>Taking tasks while nothing is submitted returns exactly the waiting ones, in order.\<close>

lemma take_tasks_eq:
  "fst (take_tasks next_task n e) = take n (waiting e)
   \<and> waiting (snd (take_tasks next_task n e)) = drop n (waiting e)"
proof (induction n arbitrary: e)
  case (Suc n)
  show ?case
  proof (cases "next_task e")
    case None
    then have "waiting e = []" by (simp only: next_None)
    with None show ?thesis by simp
  next
    case (Some p)
    obtain e' t where p: "p = (e', t)" by (cases p)
    show ?thesis using Suc [of e'] Some next_Some [of e e' t] by (simp add: p case_prod_beta)
  qed
qed simp

end

definition next_task :: "'t Executor \<Rightarrow> ('t Executor \<times> 't) option" where
  "next_task e = (case RunRound e of Some (e', RunningTask t) \<Rightarrow> Some (e', t) | _ \<Rightarrow> None)"

interpretation pool: fifo_executor Submit next_task ex_tasks
proof
  show "ex_tasks (Submit t e) = ex_tasks e @ [t]" for t and e :: "'a Executor"
    by (simp add: Submit_def)
  show "next_task e = None \<longleftrightarrow> ex_tasks e = []" for e :: "'a Executor"
    by (auto simp: next_task_def RunRound_def split: list.split)
  show "next_task e = Some (e', t) \<Longrightarrow> ex_tasks e = t # ex_tasks e'" for e e' :: "'a Executor" and t
    by (auto simp: next_task_def RunRound_def split: if_splits list.splits option.splits)
qed

end
