(* ===== verification/Dds_Listener.thy ===== *)
theory Dds_Listener
  imports Dds_Executor "HOL-Library.Sublist"
begin

text \<open>
  \<open>DdsReaderListener<MSG>\<close> of \<open>common/dds/dds_entity.hpp\<close> and the message context of
  \<open>dds_callback.hpp\<close>: the queue between the DDS receive thread and the user callback, its overflow
  policies and metrics, and the hand-over to an executor.

  Each function here is one critical section or one straight-line part of a member function.  The
  type \<open>'m\<close> is the message type, \<open>'h\<close> names the user handler.  Points in time are nanoseconds.
  \<open>to_ns\<close>, the conversion of an RTPS time stamp that only the binary library defines, is a parameter.
\<close>

subsection \<open>Samples, pending messages, message context\<close>

record RtpsTime =
  rt_seconds :: i32
  rt_fraction :: u32

record SampleInfo =
  valid_data :: bool
  source_timestamp :: RtpsTime
  reception_timestamp :: RtpsTime

record 'm PendingMessage =
  pm_message :: 'm
  pm_sample_info :: SampleInfo
  pm_listener_enter_steady_time :: int
  pm_listener_enter_system_time :: int
  pm_enqueued_at :: int
  pm_enqueued_system_time :: int

record DdsMessageContext =
  cx_listener_enter_steady_time :: int
  cx_listener_enter_system_time :: int
  cx_dds_rx_steady_time :: int
  cx_dds_rx_system_time :: int
  cx_callback_start_steady_time :: int
  cx_callback_start_system_time :: int
  cx_listener_enter_to_dds_rx_delay :: int
  cx_dds_rx_to_callback_delay :: int
  cx_queue_size_before_callback :: nat
  cx_queue_size_after_pop :: nat
  cx_has_source_timestamp :: bool
  cx_source_timestamp_system_time :: int
  cx_has_reception_timestamp :: bool
  cx_reception_timestamp_system_time :: int

definition IsValidRtpsSystemTime :: "RtpsTime \<Rightarrow> bool" where
  "IsValidRtpsSystemTime t = (0 \<le> sint (rt_seconds t))"

subsection \<open>The listener\<close>

record ('m, 'h) DdsReaderListener =
  pending_messages :: "'m PendingMessage list"
  stop_requested :: bool
  callback_scheduled :: bool
  listener_thread_configured :: bool
  executor_options :: DdsReaderExecutorOptions
  metrics :: DdsReaderExecutorMetrics
  cb :: "'h option"
  dedicated_executor :: "DdsReaderExecutorOptions option"

definition DdsReaderListener_init :: "('m, 'h) DdsReaderListener" where
  "DdsReaderListener_init =
     \<lparr>pending_messages = [], stop_requested = False, callback_scheduled = False,
      listener_thread_configured = False, executor_options = DdsReaderExecutorOptions_default,
      metrics = DdsReaderExecutorMetrics_default, cb = None, dedicated_executor = None\<rparr>"

text \<open>\<open>SetCallback\<close>: \<open>None\<close> is a callback object without message handler, which is refused.\<close>

definition SetCallback :: "'h option \<Rightarrow> ('m, 'h) DdsReaderListener \<Rightarrow> ('m, 'h) DdsReaderListener" where
  "SetCallback h l = (case h of None \<Rightarrow> l | Some _ \<Rightarrow> l\<lparr>cb := h\<rparr>)"

definition SetExecutorOptions ::
    "DdsReaderExecutorOptions \<Rightarrow> ('m, 'h) DdsReaderListener \<Rightarrow> ('m, 'h) DdsReaderListener" where
  "SetExecutorOptions options l =
     (let l = l\<lparr>executor_options := options\<rparr> in
      if dispatch_mode options = kDedicated
      then (if dedicated_executor l = None then l\<lparr>dedicated_executor := Some options\<rparr> else l)
      else l\<lparr>dedicated_executor := None\<rparr>)"

definition GetExecutorMetrics :: "('m, 'h) DdsReaderListener \<Rightarrow> DdsReaderExecutorMetrics" where
  "GetExecutorMetrics l = (metrics l)\<lparr>current_queue_size := length (pending_messages l)\<rparr>"

definition ApplyRealtimeListenerThreadConfigOnce ::
    "('m, 'h) DdsReaderListener \<Rightarrow> ('m, 'h) DdsReaderListener \<times> ThreadCall list" where
  "ApplyRealtimeListenerThreadConfigOnce l =
     (if listener_thread_configured l \<or> \<not> enable_realtime_listener (executor_options l) then (l, [])
      else (l\<lparr>listener_thread_configured := True\<rparr>,
            TryConfigureThread (realtime_listener_priority (executor_options l))
              (realtime_listener_cpu_affinity_mask (executor_options l))))"

definition RecordDropLocked :: "nat \<Rightarrow> ('m, 'h) DdsReaderListener \<Rightarrow> ('m, 'h) DdsReaderListener" where
  "RecordDropLocked drop_count l =
     (if enable_metrics (executor_options l)
      then l\<lparr>metrics := (metrics l)\<lparr>samples_dropped := samples_dropped (metrics l) + of_nat drop_count\<rparr>\<rparr>
      else l)"

definition CountReceivedLocked :: "('m, 'h) DdsReaderListener \<Rightarrow> ('m, 'h) DdsReaderListener" where
  "CountReceivedLocked l =
     (if enable_metrics (executor_options l)
      then l\<lparr>metrics := (metrics l)\<lparr>samples_received := samples_received (metrics l) + 1\<rparr>\<rparr> else l)"

definition RecordWatermarkLocked :: "('m, 'h) DdsReaderListener \<Rightarrow> ('m, 'h) DdsReaderListener" where
  "RecordWatermarkLocked l =
     (if enable_metrics (executor_options l)
      then l\<lparr>metrics := (metrics l)\<lparr>queue_high_watermark :=
              max (queue_high_watermark (metrics l)) (length (pending_messages l))\<rparr>\<rparr> else l)"

definition PushBack :: "'m PendingMessage \<Rightarrow> ('m, 'h) DdsReaderListener \<Rightarrow> ('m, 'h) DdsReaderListener" where
  "PushBack m l = l\<lparr>pending_messages := pending_messages l @ [m]\<rparr>"

definition QueueFull :: "('m, 'h) DdsReaderListener \<Rightarrow> bool" where
  "QueueFull l = (0 < queue_capacity (executor_options l)
     \<and> queue_capacity (executor_options l) \<le> length (pending_messages l))"

definition EnqueuePendingMessageLocked ::
    "'m PendingMessage \<Rightarrow> ('m, 'h) DdsReaderListener \<Rightarrow> ('m, 'h) DdsReaderListener" where
  "EnqueuePendingMessageLocked m l0 =
     (let l = CountReceivedLocked l0 in
      case overflow_policy (executor_options l) of
        kDropNewest \<Rightarrow>
          (if QueueFull l then RecordDropLocked 1 l
           else RecordWatermarkLocked (PushBack m l))
      | kDropOldest \<Rightarrow>
          (let l = (if QueueFull l
                    then RecordDropLocked 1 (l\<lparr>pending_messages := tl (pending_messages l)\<rparr>) else l)
           in RecordWatermarkLocked (PushBack m l))
      | kLatestOnly \<Rightarrow>
          (let l = (if pending_messages l \<noteq> []
                    then (RecordDropLocked (length (pending_messages l)) l)\<lparr>pending_messages := []\<rparr> else l)
           in RecordWatermarkLocked (PushBack m l)))"

text \<open>
  The take loop of \<open>on_data_available\<close>: the samples the reader hands out before it first fails, each
  with the clock readings at that moment; only samples with valid data become pending messages.
\<close>

definition TakeReady :: "int \<Rightarrow> int \<Rightarrow> ('m \<times> SampleInfo \<times> int \<times> int) list \<Rightarrow> 'm PendingMessage list" where
  "TakeReady enter_steady enter_system samples =
     map (\<lambda>(st, info, now_steady, now_system).
            \<lparr>pm_message = st, pm_sample_info = info, pm_listener_enter_steady_time = enter_steady,
             pm_listener_enter_system_time = enter_system, pm_enqueued_at = now_steady,
             pm_enqueued_system_time = now_system\<rparr>)
         (filter (\<lambda>(st, info, _). valid_data info) samples)"

text \<open>The locked part of \<open>on_data_available\<close>; the flag says that the caller must schedule.\<close>

definition EnqueueReady ::
    "'m PendingMessage list \<Rightarrow> ('m, 'h) DdsReaderListener \<Rightarrow> ('m, 'h) DdsReaderListener \<times> bool" where
  "EnqueueReady ready l =
     (if ready = [] then (l, False)
      else if stop_requested l then (l, False)
      else let l = fold EnqueuePendingMessageLocked ready l in
           if \<not> callback_scheduled l \<and> pending_messages l \<noteq> []
           then (l\<lparr>callback_scheduled := True\<rparr>, True) else (l, False))"

text \<open>\<open>ScheduleExecution\<close> chooses the executor the task goes to.\<close>

datatype TaskTarget = SharedPool | DedicatedThread

definition ScheduleExecution :: "('m, 'h) DdsReaderListener \<Rightarrow> TaskTarget" where
  "ScheduleExecution l =
     (if dispatch_mode (executor_options l) = kDedicated \<and> dedicated_executor l \<noteq> None
      then DedicatedThread else SharedPool)"

text \<open>One round of \<open>ExecutePendingCallbacks\<close>: the locked pop, the call, the metrics update.\<close>

record ('m, 'h) Popped =
  pp_message :: "'m PendingMessage"
  pp_cb :: "'h option"
  pp_metrics_enabled :: bool
  pp_size_before :: nat
  pp_size_after :: nat

definition PopPending ::
    "('m, 'h) DdsReaderListener \<Rightarrow> ('m, 'h) DdsReaderListener \<times> ('m, 'h) Popped option" where
  "PopPending l =
     (if stop_requested l then (l\<lparr>callback_scheduled := False\<rparr>, None)
      else case pending_messages l of
          [] \<Rightarrow> (l\<lparr>callback_scheduled := False\<rparr>, None)
        | m # ms \<Rightarrow> (l\<lparr>pending_messages := ms\<rparr>,
            Some \<lparr>pp_message = m, pp_cb = cb l, pp_metrics_enabled = enable_metrics (executor_options l),
                  pp_size_before = length (pending_messages l), pp_size_after = length ms\<rparr>))"

definition MessageContext ::
    "(RtpsTime \<Rightarrow> int) \<Rightarrow> ('m, 'h) Popped \<Rightarrow> int \<Rightarrow> int \<Rightarrow> DdsMessageContext" where
  "MessageContext to_ns p start_steady start_system =
     (let m = pp_message p; src = source_timestamp (pm_sample_info m);
          rcv = reception_timestamp (pm_sample_info m) in
      \<lparr>cx_listener_enter_steady_time = pm_listener_enter_steady_time m,
       cx_listener_enter_system_time = pm_listener_enter_system_time m,
       cx_dds_rx_steady_time = pm_enqueued_at m,
       cx_dds_rx_system_time = pm_enqueued_system_time m,
       cx_callback_start_steady_time = start_steady,
       cx_callback_start_system_time = start_system,
       cx_listener_enter_to_dds_rx_delay = pm_enqueued_at m - pm_listener_enter_steady_time m,
       cx_dds_rx_to_callback_delay = start_steady - pm_enqueued_at m,
       cx_queue_size_before_callback = pp_size_before p,
       cx_queue_size_after_pop = pp_size_after p,
       cx_has_source_timestamp = IsValidRtpsSystemTime src,
       cx_source_timestamp_system_time = (if IsValidRtpsSystemTime src then to_ns src else 0),
       cx_has_reception_timestamp = IsValidRtpsSystemTime rcv,
       cx_reception_timestamp_system_time = (if IsValidRtpsSystemTime rcv then to_ns rcv else 0)\<rparr>)"

text \<open>\<open>duration_cast<microseconds>\<close> truncates towards zero; the count is then made unsigned.\<close>

definition micros :: "int \<Rightarrow> u64" where
  "micros d = word_of_int (if 0 \<le> d then d div 1000 else - ((- d) div 1000))"

definition RecordExecuted ::
    "('m, 'h) Popped \<Rightarrow> int \<Rightarrow> int \<Rightarrow> ('m, 'h) DdsReaderListener \<Rightarrow> ('m, 'h) DdsReaderListener" where
  "RecordExecuted p start_steady callback_end l =
     (let queue_latency_us = micros (start_steady - pm_enqueued_at (pp_message p));
          callback_duration_us = micros (callback_end - start_steady); mt = metrics l in
      l\<lparr>metrics := mt\<lparr>callbacks_executed := callbacks_executed mt + 1,
          current_queue_size := pp_size_after p,
          max_queue_latency_us := max (max_queue_latency_us mt) queue_latency_us,
          max_callback_duration_us := max (max_callback_duration_us mt) callback_duration_us\<rparr>\<rparr>)"

text \<open>The destructor.\<close>

definition DestroyListener :: "('m, 'h) DdsReaderListener \<Rightarrow> ('m, 'h) DdsReaderListener" where
  "DestroyListener l = l\<lparr>stop_requested := True, pending_messages := [], callback_scheduled := False\<rparr>"

subsection \<open>What one enqueue does to each field\<close>

text \<open>The queue an enqueue leaves, written per policy without the bookkeeping.\<close>

definition overflow_queue_after ::
    "DdsReaderExecutorOptions \<Rightarrow> 'm PendingMessage list \<Rightarrow> 'm PendingMessage \<Rightarrow> 'm PendingMessage list" where
  "overflow_queue_after opts q m =
     (let full = (0 < queue_capacity opts \<and> queue_capacity opts \<le> length q) in
      case overflow_policy opts of
        kDropNewest \<Rightarrow> if full then q else q @ [m]
      | kDropOldest \<Rightarrow> if full then tl q @ [m] else q @ [m]
      | kLatestOnly \<Rightarrow> [m])"

lemmas enqueue_defs =
  EnqueuePendingMessageLocked_def CountReceivedLocked_def RecordDropLocked_def
  RecordWatermarkLocked_def PushBack_def QueueFull_def Let_def

lemma Enqueue_frame [simp]:
  "executor_options (EnqueuePendingMessageLocked m l) = executor_options l"
  "stop_requested (EnqueuePendingMessageLocked m l) = stop_requested l"
  "callback_scheduled (EnqueuePendingMessageLocked m l) = callback_scheduled l"
  "listener_thread_configured (EnqueuePendingMessageLocked m l) = listener_thread_configured l"
  "cb (EnqueuePendingMessageLocked m l) = cb l"
  "dedicated_executor (EnqueuePendingMessageLocked m l) = dedicated_executor l"
  by (auto simp: enqueue_defs split: DdsExecutorOverflowPolicy.split)

lemma Enqueue_pending:
  "pending_messages (EnqueuePendingMessageLocked m l)
     = overflow_queue_after (executor_options l) (pending_messages l) m"
  by (auto simp: enqueue_defs overflow_queue_after_def split: DdsExecutorOverflowPolicy.split)

lemma fold_Enqueue_frame [simp]:
  "executor_options (fold EnqueuePendingMessageLocked ms l) = executor_options l"
  "stop_requested (fold EnqueuePendingMessageLocked ms l) = stop_requested l"
  "callback_scheduled (fold EnqueuePendingMessageLocked ms l) = callback_scheduled l"
  "cb (fold EnqueuePendingMessageLocked ms l) = cb l"
  "dedicated_executor (fold EnqueuePendingMessageLocked ms l) = dedicated_executor l"
  by (induction ms arbitrary: l) auto

lemma Enqueue_nonempty: "pending_messages (EnqueuePendingMessageLocked m l) \<noteq> []"
  by (auto simp: Enqueue_pending overflow_queue_after_def Let_def split: DdsExecutorOverflowPolicy.split)

lemma fold_Enqueue_nonempty: "ms \<noteq> [] \<Longrightarrow> pending_messages (fold EnqueuePendingMessageLocked ms l) \<noteq> []"
  by (induction ms rule: rev_induct) (simp_all add: Enqueue_nonempty)

subsection \<open>The queue as an overflow queue\<close>

text \<open>
  The contract of a queue that may drop: what it holds after an enqueue is a subsequence of its old
  contents followed by the new element, and a bound, once respected, stays respected.
\<close>

locale overflow_queue =
  fixes enq :: "'m \<Rightarrow> 'q \<Rightarrow> 'q"
    and contents :: "'q \<Rightarrow> 'm list"
    and bound :: "'q \<Rightarrow> nat option"
  assumes enq_subseq: "subseq (contents (enq m q)) (contents q @ [m])"
    and enq_bound: "bound (enq m q) = bound q"
    and enq_within: "bound q = Some b \<Longrightarrow> length (contents q) \<le> b \<Longrightarrow> length (contents (enq m q)) \<le> b"
    and enq_unbounded: "bound q = None \<Longrightarrow> contents (enq m q) = contents q @ [m]"
begin

lemma fold_bound: "bound (fold enq ms q) = bound q"
  by (induction ms arbitrary: q) (simp_all add: enq_bound)

lemma fold_subseq: "subseq (contents (fold enq ms q)) (contents q @ ms)"
proof (induction ms arbitrary: q)
  case (Cons m ms)
  have "subseq (contents (fold enq ms (enq m q))) (contents (enq m q) @ ms)" by (rule Cons)
  also have "subseq (contents (enq m q) @ ms) ((contents q @ [m]) @ ms)"
    by (rule list_emb_append_mono [OF enq_subseq]) simp
  finally show ?case by simp
qed simp

lemma fold_within:
  "bound q = Some b \<Longrightarrow> length (contents q) \<le> b \<Longrightarrow> length (contents (fold enq ms q)) \<le> b"
  by (induction ms arbitrary: q) (simp_all add: enq_bound enq_within)

lemma fold_unbounded: "bound q = None \<Longrightarrow> contents (fold enq ms q) = contents q @ ms"
  by (induction ms arbitrary: q) (simp_all add: enq_bound enq_unbounded)

end

definition queue_bound :: "DdsReaderExecutorOptions \<Rightarrow> nat option" where
  "queue_bound opts =
     (case overflow_policy opts of kLatestOnly \<Rightarrow> Some 1
      | _ \<Rightarrow> if queue_capacity opts = 0 then None else Some (queue_capacity opts))"

lemma subseq_tl: "subseq (tl xs) xs"
  by (cases xs) auto

interpretation lq: overflow_queue EnqueuePendingMessageLocked pending_messages
  "\<lambda>l. queue_bound (executor_options l)"
proof
  fix m :: "'a PendingMessage" and l :: "('a, 'b) DdsReaderListener"
  have tl_snoc: "subseq (tl q @ [m]) (q @ [m])" for q
    by (rule list_emb_append_mono [OF subseq_tl]) simp
  show "subseq (pending_messages (EnqueuePendingMessageLocked m l)) (pending_messages l @ [m])"
    by (auto simp: Enqueue_pending overflow_queue_after_def Let_def tl_snoc
        split: DdsExecutorOverflowPolicy.split)
  show "queue_bound (executor_options (EnqueuePendingMessageLocked m l)) = queue_bound (executor_options l)"
    by simp
  show "queue_bound (executor_options l) = Some b \<Longrightarrow> length (pending_messages l) \<le> b \<Longrightarrow>
      length (pending_messages (EnqueuePendingMessageLocked m l)) \<le> b" for b
    by (auto simp: Enqueue_pending overflow_queue_after_def queue_bound_def Let_def
        split: DdsExecutorOverflowPolicy.splits if_splits)
  show "queue_bound (executor_options l) = None \<Longrightarrow>
      pending_messages (EnqueuePendingMessageLocked m l) = pending_messages l @ [m]"
    by (auto simp: Enqueue_pending overflow_queue_after_def queue_bound_def Let_def
        split: DdsExecutorOverflowPolicy.splits if_splits)
qed

subsection \<open>A whole batch per policy\<close>

lemma fold_drop_oldest:
  assumes "overflow_policy (executor_options l) = kDropOldest" "0 < queue_capacity (executor_options l)"
    "length (pending_messages l) \<le> queue_capacity (executor_options l)"
  shows "pending_messages (fold EnqueuePendingMessageLocked ms l)
    = takelast (queue_capacity (executor_options l)) (pending_messages l @ ms)"
  using assms
proof (induction ms arbitrary: l)
  case (Cons m ms)
  let ?c = "queue_capacity (executor_options l)"
  let ?l = "EnqueuePendingMessageLocked m l"
  have p: "pending_messages ?l = takelast ?c (pending_messages l @ [m])"
    using Cons.prems
    by (cases "pending_messages l")
      (auto simp: Enqueue_pending overflow_queue_after_def takelast_def Let_def Suc_diff_le)
  have "pending_messages (fold EnqueuePendingMessageLocked ms ?l) = takelast ?c (pending_messages ?l @ ms)"
    using Cons.IH [of ?l] Cons.prems by (simp add: p)
  then show ?case by (simp add: p takelast_append_takelast)
qed simp

lemma fold_drop_newest:
  assumes "overflow_policy (executor_options l) = kDropNewest" "0 < queue_capacity (executor_options l)"
    "length (pending_messages l) \<le> queue_capacity (executor_options l)"
  shows "pending_messages (fold EnqueuePendingMessageLocked ms l)
    = take (queue_capacity (executor_options l)) (pending_messages l @ ms)"
  using assms
proof (induction ms arbitrary: l)
  case (Cons m ms)
  let ?c = "queue_capacity (executor_options l)"
  let ?l = "EnqueuePendingMessageLocked m l"
  have p: "pending_messages ?l = take ?c (pending_messages l @ [m])"
    using Cons.prems by (auto simp: Enqueue_pending overflow_queue_after_def Let_def)
  have "pending_messages (fold EnqueuePendingMessageLocked ms ?l) = take ?c (pending_messages ?l @ ms)"
    using Cons.IH [of ?l] Cons.prems by (simp add: p)
  also have "\<dots> = take ?c (pending_messages l @ m # ms)"
    using Cons.prems(3) by (cases "length (pending_messages l) = ?c") (auto simp: p)
  finally show ?case by simp
qed simp

lemma fold_latest_only:
  "overflow_policy (executor_options l) = kLatestOnly \<Longrightarrow> ms \<noteq> [] \<Longrightarrow>
   pending_messages (fold EnqueuePendingMessageLocked ms l) = [last ms]"
  by (induction ms rule: rev_induct) (simp_all add: Enqueue_pending overflow_queue_after_def Let_def)

subsection \<open>Metrics of a batch\<close>

lemma Enqueue_received:
  "enable_metrics (executor_options l) \<Longrightarrow>
   samples_received (metrics (EnqueuePendingMessageLocked m l)) = samples_received (metrics l) + 1"
  by (auto simp: enqueue_defs split: DdsExecutorOverflowPolicy.split)

lemma Enqueue_dropped:
  "enable_metrics (executor_options l) \<Longrightarrow>
   samples_dropped (metrics (EnqueuePendingMessageLocked m l))
     + of_nat (length (pending_messages (EnqueuePendingMessageLocked m l)))
   = samples_dropped (metrics l) + of_nat (length (pending_messages l)) + 1"
  by (cases "pending_messages l") (auto simp: enqueue_defs split: DdsExecutorOverflowPolicy.split)

lemma Enqueue_metrics_frame:
  "callbacks_executed (metrics (EnqueuePendingMessageLocked m l)) = callbacks_executed (metrics l)"
  by (auto simp: enqueue_defs split: DdsExecutorOverflowPolicy.split)

lemma fold_Enqueue_metrics:
  assumes "enable_metrics (executor_options l)"
  shows "samples_received (metrics (fold EnqueuePendingMessageLocked ms l))
      = samples_received (metrics l) + of_nat (length ms)"
    and "samples_dropped (metrics (fold EnqueuePendingMessageLocked ms l))
      + of_nat (length (pending_messages (fold EnqueuePendingMessageLocked ms l)))
      = samples_dropped (metrics l) + of_nat (length (pending_messages l)) + of_nat (length ms)"
    and "callbacks_executed (metrics (fold EnqueuePendingMessageLocked ms l)) = callbacks_executed (metrics l)"
  using assms
  by (induction ms arbitrary: l)
    (simp_all add: Enqueue_received Enqueue_dropped Enqueue_metrics_frame)

lemma Enqueue_watermark:
  "enable_metrics (executor_options l) \<Longrightarrow>
   length (pending_messages l) \<le> queue_high_watermark (metrics l) \<Longrightarrow>
   length (pending_messages (EnqueuePendingMessageLocked m l))
     \<le> queue_high_watermark (metrics (EnqueuePendingMessageLocked m l))"
  by (auto simp: enqueue_defs split: DdsExecutorOverflowPolicy.split)

end
