(* ===== verification/Dds_Callbacks.thy ===== *)
theory Dds_Callbacks
  imports Dds_Listener
begin

text \<open>
  One reader listener among its threads: the DDS receive thread that calls \<open>on_data_available\<close>, the
  tasks it hands to an executor, the executor threads that run \<open>ExecutePendingCallbacks\<close>, and the
  channel that owns the listener and lets go of it in \<open>CloseReader\<close>.

  \<open>cs_internal\<close> are the steps of the SDK's own threads, \<open>cs_external\<close> those of the environment (new
  data, closing); each step is one critical section of \<open>dds_entity.hpp\<close>, and they interleave freely.
  A task counts in \<open>sy_to_submit\<close> while \<open>ScheduleExecution\<close> runs, in \<open>sy_queued\<close> while it waits in an
  executor, and in \<open>sy_workers\<close> while it executes.  \<open>sy_received\<close> and \<open>sy_delivered\<close> are history
  variables.  Fast DDS is assumed to let \<open>delete_datareader\<close> return only when no listener call is in
  progress, so the owner lets go only with \<open>sy_to_submit = 0\<close>.
\<close>

datatype ('m, 'h) WorkerState =
    LoopHead
  | Dispatching "('m, 'h) Popped" int
  | Recording "('m, 'h) Popped" int int

record ('m, 'h) CallbackSystem =
  sy_listener :: "('m, 'h) DdsReaderListener"
  sy_owned :: bool
  sy_alive :: bool
  sy_to_submit :: nat
  sy_queued :: nat
  sy_workers :: "('m, 'h) WorkerState list"
  sy_received :: "'m PendingMessage list"
  sy_delivered :: "'m PendingMessage list"
  sy_destroyed_by_worker :: bool

text \<open>\<open>DdsTopicChannel::SetReader\<close>: options, then the callback, then the reader is created.\<close>

definition CallbackSystem_init :: "DdsReaderExecutorOptions \<Rightarrow> 'h \<Rightarrow> ('m, 'h) CallbackSystem" where
  "CallbackSystem_init opts h =
     \<lparr>sy_listener = SetCallback (Some h) (SetExecutorOptions opts DdsReaderListener_init),
      sy_owned = True, sy_alive = True, sy_to_submit = 0, sy_queued = 0, sy_workers = [],
      sy_received = [], sy_delivered = [], sy_destroyed_by_worker = False\<rparr>"

definition remove_at :: "nat \<Rightarrow> 'a list \<Rightarrow> 'a list" where
  "remove_at i xs = take i xs @ drop (Suc i) xs"

text \<open>
  The end of a task drops its \<open>shared_ptr\<close>; if the channel has let go already, this was the last one
  and the destructor runs here, on the executor thread.
\<close>

definition EndTask :: "nat \<Rightarrow> ('m, 'h) CallbackSystem \<Rightarrow> ('m, 'h) CallbackSystem" where
  "EndTask i s =
     (let rest = remove_at i (sy_workers s) in
      if \<not> sy_owned s \<and> rest = []
      then s\<lparr>sy_workers := rest, sy_listener := DestroyListener (sy_listener s), sy_alive := False,
             sy_destroyed_by_worker := True\<rparr>
      else s\<lparr>sy_workers := rest\<rparr>)"

definition ReleaseOwner :: "('m, 'h) CallbackSystem \<Rightarrow> ('m, 'h) CallbackSystem" where
  "ReleaseOwner s =
     (if sy_workers s = []
      then s\<lparr>sy_owned := False, sy_alive := False, sy_listener := DestroyListener (sy_listener s)\<rparr>
      else s\<lparr>sy_owned := False\<rparr>)"

inductive cs_internal :: "('m, 'h) CallbackSystem \<Rightarrow> ('m, 'h) CallbackSystem \<Rightarrow> bool" where
  cs_submit: "sy_to_submit s = Suc n \<Longrightarrow>
    cs_internal s (s\<lparr>sy_to_submit := n, sy_queued := Suc (sy_queued s)\<rparr>)"
| cs_start: "sy_queued s = Suc n \<Longrightarrow> sy_alive s \<Longrightarrow>
    cs_internal s (s\<lparr>sy_queued := n, sy_workers := sy_workers s @ [LoopHead]\<rparr>)"
| cs_start_dead: "sy_queued s = Suc n \<Longrightarrow> \<not> sy_alive s \<Longrightarrow> cs_internal s (s\<lparr>sy_queued := n\<rparr>)"
| cs_pop: "i < length (sy_workers s) \<Longrightarrow> sy_workers s ! i = LoopHead \<Longrightarrow>
    PopPending (sy_listener s) = (l, Some p) \<Longrightarrow>
    cs_internal s (s\<lparr>sy_listener := l, sy_workers := (sy_workers s)[i := Dispatching p start],
      sy_delivered := sy_delivered s @ (if pp_cb p = None then [] else [pp_message p])\<rparr>)"
| cs_exit: "i < length (sy_workers s) \<Longrightarrow> sy_workers s ! i = LoopHead \<Longrightarrow>
    PopPending (sy_listener s) = (l, None) \<Longrightarrow> cs_internal s (EndTask i (s\<lparr>sy_listener := l\<rparr>))"
| cs_return: "i < length (sy_workers s) \<Longrightarrow> sy_workers s ! i = Dispatching p start \<Longrightarrow>
    cs_internal s (s\<lparr>sy_workers := (sy_workers s)
      [i := (if pp_metrics_enabled p then Recording p start finish else LoopHead)]\<rparr>)"
| cs_record: "i < length (sy_workers s) \<Longrightarrow> sy_workers s ! i = Recording p start finish \<Longrightarrow>
    cs_internal s (s\<lparr>sy_listener := RecordExecuted p start finish (sy_listener s),
      sy_workers := (sy_workers s)[i := LoopHead]\<rparr>)"

inductive cs_external :: "('m, 'h) CallbackSystem \<Rightarrow> ('m, 'h) CallbackSystem \<Rightarrow> bool" where
  cs_configure: "sy_owned s \<Longrightarrow>
    cs_external s (s\<lparr>sy_listener := fst (ApplyRealtimeListenerThreadConfigOnce (sy_listener s))\<rparr>)"
| cs_data: "sy_owned s \<Longrightarrow> cb (sy_listener s) \<noteq> None \<Longrightarrow>
    EnqueueReady ready (sy_listener s) = (l, should_schedule) \<Longrightarrow>
    cs_external s (s\<lparr>sy_listener := l,
      sy_to_submit := sy_to_submit s + of_bool should_schedule,
      sy_received := sy_received s @ (if stop_requested (sy_listener s) then [] else ready)\<rparr>)"
| cs_release: "sy_owned s \<Longrightarrow> sy_to_submit s = 0 \<Longrightarrow> cs_external s (ReleaseOwner s)"

definition cs_step :: "('m, 'h) CallbackSystem \<Rightarrow> ('m, 'h) CallbackSystem \<Rightarrow> bool" where
  "cs_step s t \<longleftrightarrow> cs_internal s t \<or> cs_external s t"

inductive cs_reach ::
    "DdsReaderExecutorOptions \<Rightarrow> 'h \<Rightarrow> ('m, 'h) CallbackSystem \<Rightarrow> bool" for opts h where
  cs_reach_init: "cs_reach opts h (CallbackSystem_init opts h)"
| cs_reach_step: "cs_reach opts h s \<Longrightarrow> cs_step s t \<Longrightarrow> cs_reach opts h t"

subsection \<open>At most one task per listener\<close>

definition tokens :: "('m, 'h) CallbackSystem \<Rightarrow> nat" where
  "tokens s = sy_to_submit s + sy_queued s + length (sy_workers s)"

definition token_inv :: "('m, 'h) CallbackSystem \<Rightarrow> bool" where
  "token_inv s \<longleftrightarrow>
     (sy_alive s \<longrightarrow> \<not> stop_requested (sy_listener s)
        \<and> tokens s = of_bool (callback_scheduled (sy_listener s))
        \<and> (pending_messages (sy_listener s) \<noteq> [] \<longrightarrow> callback_scheduled (sy_listener s))
        \<and> (sy_owned s \<or> sy_workers s \<noteq> []))
     \<and> (\<not> sy_alive s \<longrightarrow> stop_requested (sy_listener s) \<and> pending_messages (sy_listener s) = []
        \<and> sy_workers s = [] \<and> sy_to_submit s = 0 \<and> \<not> sy_owned s)"

lemma PopPending_frame:
  "PopPending l = (l', r) \<Longrightarrow> executor_options l' = executor_options l \<and> cb l' = cb l
     \<and> stop_requested l' = stop_requested l \<and> metrics l' = metrics l
     \<and> dedicated_executor l' = dedicated_executor l"
  by (auto simp: PopPending_def split: if_splits list.splits)

lemma PopPending_Some:
  "PopPending l = (l', Some p) \<Longrightarrow> \<not> stop_requested l
     \<and> pending_messages l = pp_message p # pending_messages l'
     \<and> callback_scheduled l' = callback_scheduled l \<and> pp_cb p = cb l
     \<and> pp_metrics_enabled p = enable_metrics (executor_options l)"
  by (auto simp: PopPending_def split: if_splits list.splits)

lemma PopPending_None:
  "PopPending l = (l', None) \<Longrightarrow> (stop_requested l \<or> pending_messages l = [])
     \<and> pending_messages l' = pending_messages l \<and> \<not> callback_scheduled l'"
  by (auto simp: PopPending_def split: if_splits list.splits)

lemma RecordExecuted_frame [simp]:
  "executor_options (RecordExecuted p a b l) = executor_options l"
  "pending_messages (RecordExecuted p a b l) = pending_messages l"
  "stop_requested (RecordExecuted p a b l) = stop_requested l"
  "callback_scheduled (RecordExecuted p a b l) = callback_scheduled l"
  "cb (RecordExecuted p a b l) = cb l"
  "dedicated_executor (RecordExecuted p a b l) = dedicated_executor l"
  by (simp_all add: RecordExecuted_def Let_def)

lemma Configure_frame [simp]:
  "executor_options (fst (ApplyRealtimeListenerThreadConfigOnce l)) = executor_options l"
  "pending_messages (fst (ApplyRealtimeListenerThreadConfigOnce l)) = pending_messages l"
  "stop_requested (fst (ApplyRealtimeListenerThreadConfigOnce l)) = stop_requested l"
  "callback_scheduled (fst (ApplyRealtimeListenerThreadConfigOnce l)) = callback_scheduled l"
  "cb (fst (ApplyRealtimeListenerThreadConfigOnce l)) = cb l"
  "metrics (fst (ApplyRealtimeListenerThreadConfigOnce l)) = metrics l"
  "dedicated_executor (fst (ApplyRealtimeListenerThreadConfigOnce l)) = dedicated_executor l"
  by (simp_all add: ApplyRealtimeListenerThreadConfigOnce_def)

lemma Destroy_simps [simp]:
  "stop_requested (DestroyListener l)" "pending_messages (DestroyListener l) = []"
  "\<not> callback_scheduled (DestroyListener l)"
  "executor_options (DestroyListener l) = executor_options l" "cb (DestroyListener l) = cb l"
  "metrics (DestroyListener l) = metrics l"
  by (simp_all add: DestroyListener_def)

lemma EnqueueReady_frame:
  "EnqueueReady ready l = (l', b) \<Longrightarrow> executor_options l' = executor_options l \<and> cb l' = cb l
     \<and> stop_requested l' = stop_requested l \<and> dedicated_executor l' = dedicated_executor l"
  by (auto simp: EnqueueReady_def Let_def split: if_splits)

lemma EnqueueReady_queue:
  "EnqueueReady ready l = (l', b) \<Longrightarrow> \<not> stop_requested l \<Longrightarrow>
   pending_messages l' = pending_messages (fold EnqueuePendingMessageLocked ready l)
   \<and> metrics l' = metrics (fold EnqueuePendingMessageLocked ready l)"
  by (auto simp: EnqueueReady_def Let_def split: if_splits)

lemma EnqueueReady_schedule:
  "EnqueueReady ready l = (l', b) \<Longrightarrow> \<not> stop_requested l \<Longrightarrow>
   (pending_messages l \<noteq> [] \<longrightarrow> callback_scheduled l) \<Longrightarrow>
   callback_scheduled l' = (callback_scheduled l \<or> b) \<and> (b \<longrightarrow> \<not> callback_scheduled l)
   \<and> (pending_messages l' \<noteq> [] \<longrightarrow> callback_scheduled l')"
  by (auto simp: EnqueueReady_def Let_def split: if_splits)

lemma remove_at_one [simp]: "remove_at 0 [w] = []"
  by (simp add: remove_at_def)

text \<open>With the token invariant a running task is the only one.\<close>

lemma token_inv_worker:
  "token_inv s \<Longrightarrow> i < length (sy_workers s) \<Longrightarrow>
   i = 0 \<and> sy_workers s = [sy_workers s ! 0] \<and> sy_to_submit s = 0 \<and> sy_queued s = 0
   \<and> sy_alive s \<and> callback_scheduled (sy_listener s) \<and> \<not> stop_requested (sy_listener s)"
  by (cases "sy_workers s"; cases "callback_scheduled (sy_listener s)")
    (auto simp: token_inv_def tokens_def split: if_splits)

lemma token_inv_init: "token_inv (CallbackSystem_init opts h)"
  by (simp add: token_inv_def CallbackSystem_init_def tokens_def SetCallback_def
      SetExecutorOptions_def DdsReaderListener_init_def Let_def)

lemma token_inv_internal: "cs_internal s t \<Longrightarrow> token_inv s \<Longrightarrow> token_inv t"
proof (induction rule: cs_internal.induct)
  case (cs_pop i s l p start)
  have one: "sy_workers s = [sy_workers s ! 0]" and i: "i = 0"
    using token_inv_worker [OF cs_pop.prems cs_pop.hyps(1)] by auto
  show ?case
    using cs_pop PopPending_frame [OF cs_pop.hyps(3)] PopPending_Some [OF cs_pop.hyps(3)]
    by (auto simp: token_inv_def tokens_def)
next
  case (cs_exit i s l)
  note w = token_inv_worker [OF cs_exit.prems cs_exit.hyps(1)]
  then have "remove_at i (sy_workers s) = []" by (metis remove_at_one)
  then show ?case
    using cs_exit w PopPending_frame [OF cs_exit.hyps(3)] PopPending_None [OF cs_exit.hyps(3)]
    by (auto simp: token_inv_def tokens_def EndTask_def Let_def)
qed (auto simp: token_inv_def tokens_def split: if_splits)

lemma token_inv_external: "cs_external s t \<Longrightarrow> token_inv s \<Longrightarrow> token_inv t"
proof (induction rule: cs_external.induct)
  case (cs_data s ready l b)
  then have alive: "sy_alive s" and run: "\<not> stop_requested (sy_listener s)"
    by (auto simp: token_inv_def)
  have "pending_messages (sy_listener s) \<noteq> [] \<longrightarrow> callback_scheduled (sy_listener s)"
    using cs_data.prems alive by (simp add: token_inv_def)
  from EnqueueReady_schedule [OF cs_data.hyps(3) run this] EnqueueReady_frame [OF cs_data.hyps(3)]
  show ?case using cs_data.prems alive by (auto simp: token_inv_def tokens_def)
qed (auto simp: token_inv_def tokens_def ReleaseOwner_def split: if_splits)

lemma token_inv_reach: "cs_reach opts h s \<Longrightarrow> token_inv s"
  by (induction rule: cs_reach.induct)
    (auto simp: cs_step_def intro: token_inv_init token_inv_internal token_inv_external)

subsection \<open>What is received is delivered in order, or dropped by the policy\<close>

definition history_inv :: "DdsReaderExecutorOptions \<Rightarrow> ('m, 'h) CallbackSystem \<Rightarrow> bool" where
  "history_inv opts s \<longleftrightarrow>
     executor_options (sy_listener s) = opts \<and> cb (sy_listener s) \<noteq> None
     \<and> subseq (sy_delivered s @ pending_messages (sy_listener s)) (sy_received s)
     \<and> (\<forall>b. queue_bound opts = Some b \<longrightarrow> length (pending_messages (sy_listener s)) \<le> b)
     \<and> (queue_bound opts = None \<longrightarrow> sy_alive s \<longrightarrow>
          sy_received s = sy_delivered s @ pending_messages (sy_listener s))"

lemma history_inv_init: "history_inv opts (CallbackSystem_init opts h)"
  by (simp add: history_inv_def CallbackSystem_init_def SetCallback_def SetExecutorOptions_def
      DdsReaderListener_init_def Let_def)

lemma history_inv_destroy:
  "history_inv opts s \<Longrightarrow> history_inv opts (s\<lparr>sy_workers := ws, sy_listener := DestroyListener (sy_listener s),
     sy_alive := False, sy_destroyed_by_worker := d\<rparr>)"
  using subseq_order.trans [OF list_emb_prefix [OF subseq_order.refl]]
  by (auto simp: history_inv_def)

lemma history_inv_data:
  assumes inv: "history_inv opts s" and run: "\<not> stop_requested (sy_listener s)" and alive: "sy_alive s"
    and enq: "EnqueueReady ready (sy_listener s) = (l, b)"
  shows "history_inv opts (s\<lparr>sy_listener := l, sy_to_submit := n, sy_received := sy_received s @ ready\<rparr>)"
proof -
  let ?q = "pending_messages (sy_listener s)" and ?f = "fold EnqueuePendingMessageLocked ready (sy_listener s)"
  have q: "pending_messages l = pending_messages ?f" using EnqueueReady_queue [OF enq run] by simp
  have "subseq (sy_delivered s @ pending_messages ?f) (sy_delivered s @ ?q @ ready)"
    by (intro list_emb_append_mono subseq_order.refl lq.fold_subseq)
  also have "subseq (sy_delivered s @ ?q @ ready) (sy_received s @ ready)"
    using inv list_emb_append_mono [of "(=)" "sy_delivered s @ ?q" "sy_received s" ready ready]
    by (simp add: history_inv_def)
  finally show ?thesis
    using inv alive EnqueueReady_frame [OF enq] lq.fold_within lq.fold_unbounded [of "sy_listener s" ready]
    by (auto simp: history_inv_def q)
qed

lemma history_inv_internal: "cs_internal s t \<Longrightarrow> token_inv s \<Longrightarrow> history_inv opts s \<Longrightarrow> history_inv opts t"
proof (induction rule: cs_internal.induct)
  case (cs_pop i s l p start)
  then show ?case
    using PopPending_frame [OF cs_pop.hyps(3)] PopPending_Some [OF cs_pop.hyps(3)]
    by (auto simp: history_inv_def)
next
  case (cs_exit i s l)
  note fr = PopPending_frame [OF cs_exit.hyps(3)] PopPending_None [OF cs_exit.hyps(3)]
  have inv: "history_inv opts (s\<lparr>sy_listener := l\<rparr>)"
    using cs_exit.prems fr by (auto simp: history_inv_def)
  show ?case
  proof (cases "\<not> sy_owned s \<and> remove_at i (sy_workers s) = []")
    case True
    then show ?thesis using history_inv_destroy [OF inv] by (simp add: EndTask_def)
  next
    case False
    then show ?thesis using inv by (auto simp: EndTask_def history_inv_def)
  qed
qed (auto simp: history_inv_def)

lemma history_inv_external: "cs_external s t \<Longrightarrow> token_inv s \<Longrightarrow> history_inv opts s \<Longrightarrow> history_inv opts t"
proof (induction rule: cs_external.induct)
  case (cs_data s ready l b)
  then have "\<not> stop_requested (sy_listener s)" "sy_alive s" by (auto simp: token_inv_def)
  from history_inv_data [OF cs_data.prems(2) this cs_data.hyps(3)] this show ?case by simp
next
  case (cs_release s)
  show ?case
  proof (cases "sy_workers s = []")
    case True
    then show ?thesis
      using history_inv_destroy [OF cs_release.prems(2), where ws = "[]" and d = "sy_destroyed_by_worker s"]
      by (simp add: ReleaseOwner_def history_inv_def)
  next
    case False
    then show ?thesis using cs_release.prems by (simp add: ReleaseOwner_def history_inv_def)
  qed
qed (simp add: history_inv_def)

lemma history_inv_reach: "cs_reach opts h s \<Longrightarrow> history_inv opts s"
proof (induction rule: cs_reach.induct)
  case (cs_reach_step s t)
  note tok = token_inv_reach [OF cs_reach_step.hyps(1)]
  show ?case
    using cs_reach_step.hyps(2) history_inv_internal [OF _ tok cs_reach_step.IH]
      history_inv_external [OF _ tok cs_reach_step.IH]
    unfolding cs_step_def by blast
qed (rule history_inv_init)

subsection \<open>The metrics account for every sample\<close>

fun busy :: "('m, 'h) WorkerState \<Rightarrow> bool" where
  "busy LoopHead = False"
| "busy _ = True"

fun worker_metrics :: "bool \<Rightarrow> ('m, 'h) WorkerState \<Rightarrow> bool" where
  "worker_metrics b (Dispatching p _) = (pp_metrics_enabled p = b)"
| "worker_metrics b _ = True"

definition metrics_inv :: "('m, 'h) CallbackSystem \<Rightarrow> bool" where
  "metrics_inv s \<longleftrightarrow>
     (let l = sy_listener s; mt = metrics l in
      samples_received mt = of_nat (length (sy_received s))
      \<and> (sy_alive s \<longrightarrow> samples_dropped mt + of_nat (length (pending_messages l))
            + of_nat (length (sy_delivered s)) = of_nat (length (sy_received s)))
      \<and> callbacks_executed mt + of_nat (length (filter busy (sy_workers s)))
          = of_nat (length (sy_delivered s))
      \<and> list_all (worker_metrics True) (sy_workers s))"

lemma metrics_inv_init: "metrics_inv (CallbackSystem_init opts h)"
  by (simp add: metrics_inv_def CallbackSystem_init_def SetCallback_def SetExecutorOptions_def
      DdsReaderListener_init_def DdsReaderExecutorMetrics_default_def Let_def)

lemma RecordExecuted_metrics:
  "samples_received (metrics (RecordExecuted p a b l)) = samples_received (metrics l)"
  "samples_dropped (metrics (RecordExecuted p a b l)) = samples_dropped (metrics l)"
  "callbacks_executed (metrics (RecordExecuted p a b l)) = callbacks_executed (metrics l) + 1"
  by (simp_all add: RecordExecuted_def Let_def)

lemma metrics_inv_internal:
  assumes "cs_internal s t" "token_inv s" "history_inv opts s" "enable_metrics opts" "metrics_inv s"
  shows "metrics_inv t"
  using assms
proof (induction rule: cs_internal.induct)
  case (cs_pop i s l p start)
  have w: "i = 0" "sy_workers s = [LoopHead]"
    using token_inv_worker [OF cs_pop.prems(1) cs_pop.hyps(1)] cs_pop.hyps(2) by auto
  show ?case
    using cs_pop w PopPending_frame [OF cs_pop.hyps(3)] PopPending_Some [OF cs_pop.hyps(3)]
    by (auto simp: metrics_inv_def history_inv_def Let_def algebra_simps)
next
  case (cs_exit i s l)
  have w: "i = 0" "sy_workers s = [LoopHead]"
    using token_inv_worker [OF cs_exit.prems(1) cs_exit.hyps(1)] cs_exit.hyps(2) by auto
  show ?case
    using cs_exit w PopPending_frame [OF cs_exit.hyps(3)] PopPending_None [OF cs_exit.hyps(3)]
    by (auto simp: metrics_inv_def EndTask_def Let_def)
next
  case (cs_return i s p start finish)
  have "i = 0" "sy_workers s = [Dispatching p start]"
    using token_inv_worker [OF cs_return.prems(1) cs_return.hyps(1)] cs_return.hyps(2) by auto
  then show ?case using cs_return by (auto simp: metrics_inv_def Let_def)
next
  case (cs_record i s p start finish)
  have "i = 0" "sy_workers s = [Recording p start finish]"
    using token_inv_worker [OF cs_record.prems(1) cs_record.hyps(1)] cs_record.hyps(2) by auto
  then show ?case using cs_record
    by (auto simp: metrics_inv_def RecordExecuted_metrics Let_def algebra_simps)
qed (auto simp: metrics_inv_def Let_def)

lemma metrics_inv_external:
  assumes "cs_external s t" "token_inv s" "history_inv opts s" "enable_metrics opts" "metrics_inv s"
  shows "metrics_inv t"
  using assms
proof (induction rule: cs_external.induct)
  case (cs_data s ready l b)
  then have run: "\<not> stop_requested (sy_listener s)" and alive: "sy_alive s" by (auto simp: token_inv_def)
  have en: "enable_metrics (executor_options (sy_listener s))"
    using cs_data.prems by (simp add: history_inv_def)
  note fm = fold_Enqueue_metrics [OF en, of ready]
  have drop: "samples_dropped (metrics l) + of_nat (length (pending_messages l))
      = samples_dropped (metrics (sy_listener s)) + of_nat (length (pending_messages (sy_listener s)))
        + of_nat (length ready)"
    using EnqueueReady_queue [OF cs_data.hyps(3) run] fm(2) by simp
  have sum: "samples_dropped (metrics l) + of_nat (length (pending_messages l)) + of_nat (length (sy_delivered s))
      = of_nat (length (sy_received s)) + of_nat (length ready)"
    using cs_data.prems(4) alive by (simp add: drop metrics_inv_def Let_def algebra_simps)
  show ?case
    using cs_data.prems(4) run sum EnqueueReady_queue [OF cs_data.hyps(3) run] fm(1,3)
    by (auto simp: metrics_inv_def Let_def)
qed (auto simp: metrics_inv_def ReleaseOwner_def Let_def)

lemma metrics_inv_reach: "cs_reach opts h s \<Longrightarrow> enable_metrics opts \<Longrightarrow> metrics_inv s"
proof (induction rule: cs_reach.induct)
  case (cs_reach_step s t)
  note tok = token_inv_reach [OF cs_reach_step.hyps(1)] and hist = history_inv_reach [OF cs_reach_step.hyps(1)]
  have m: "metrics_inv s" using cs_reach_step.IH cs_reach_step.prems by simp
  show ?case
    using cs_reach_step.hyps(2) metrics_inv_internal [OF _ tok hist cs_reach_step.prems m]
      metrics_inv_external [OF _ tok hist cs_reach_step.prems m]
    unfolding cs_step_def by blast
qed (rule metrics_inv_init)

subsection \<open>Progress\<close>

text \<open>Work left for the SDK's own threads; each of their steps does some of it.\<close>

fun worker_work :: "('m, 'h) WorkerState \<Rightarrow> nat" where
  "worker_work LoopHead = 1"
| "worker_work (Dispatching _ _) = 3"
| "worker_work (Recording _ _ _) = 2"

definition work :: "('m, 'h) CallbackSystem \<Rightarrow> nat" where
  "work s = 3 * length (pending_messages (sy_listener s)) + 3 * sy_to_submit s + 2 * sy_queued s
     + sum_list (map worker_work (sy_workers s))"

lemma work_decreases: "cs_internal s t \<Longrightarrow> token_inv s \<Longrightarrow> work t < work s"
proof (induction rule: cs_internal.induct)
  case (cs_pop i s l p start)
  have "i = 0" "sy_workers s = [LoopHead]"
    using token_inv_worker [OF cs_pop.prems cs_pop.hyps(1)] cs_pop.hyps(2) by auto
  then show ?case using PopPending_Some [OF cs_pop.hyps(3)] by (auto simp: work_def)
next
  case (cs_exit i s l)
  have "i = 0" "sy_workers s = [LoopHead]"
    using token_inv_worker [OF cs_exit.prems cs_exit.hyps(1)] cs_exit.hyps(2) by auto
  then show ?case using PopPending_None [OF cs_exit.hyps(3)] by (auto simp: work_def EndTask_def)
next
  case (cs_return i s p start finish)
  have "i = 0" "sy_workers s = [Dispatching p start]"
    using token_inv_worker [OF cs_return.prems cs_return.hyps(1)] cs_return.hyps(2) by auto
  then show ?case by (auto simp: work_def)
next
  case (cs_record i s p start finish)
  have "i = 0" "sy_workers s = [Recording p start finish]"
    using token_inv_worker [OF cs_record.prems cs_record.hyps(1)] cs_record.hyps(2) by auto
  then show ?case by (auto simp: work_def)
qed (auto simp: work_def)

lemma internal_enabled:
  assumes inv: "token_inv s" and alive: "sy_alive s" and sched: "callback_scheduled (sy_listener s)"
  shows "\<exists>t. cs_internal s t"
proof -
  from inv alive sched have tok: "tokens s = 1" by (simp add: token_inv_def)
  consider n where "sy_to_submit s = Suc n" | n where "sy_queued s = Suc n" | w where "sy_workers s = [w]"
    using tok by (cases "sy_to_submit s"; cases "sy_queued s"; cases "sy_workers s") (auto simp: tokens_def)
  then show ?thesis
  proof cases
    case 1
    then show ?thesis by (blast intro: cs_submit)
  next
    case 2
    then show ?thesis using alive by (blast intro: cs_start)
  next
    case 3
    obtain l r where pop: "PopPending (sy_listener s) = (l, r)" by (cases "PopPending (sy_listener s)")
    show ?thesis
    proof (cases w)
      case LoopHead
      then show ?thesis using 3 pop cs_pop [of 0 s] cs_exit [of 0 s] by (cases r) fastforce+
    next
      case (Dispatching p a)
      then show ?thesis using 3 cs_return [of 0 s p a] by fastforce
    next
      case (Recording p a b)
      then show ?thesis using 3 cs_record [of 0 s p a b] by fastforce
    qed
  qed
qed

subsection \<open>Draining\<close>

lemma internal_keeps_messages:
  assumes "cs_internal s t" "token_inv s" "sy_alive s" "cb (sy_listener s) \<noteq> None"
    "pending_messages (sy_listener s) \<noteq> []"
  shows "sy_alive t \<and> cb (sy_listener t) \<noteq> None \<and> sy_received t = sy_received s
    \<and> sy_delivered t @ pending_messages (sy_listener t) = sy_delivered s @ pending_messages (sy_listener s)"
  using assms
proof (induction rule: cs_internal.induct)
  case (cs_pop i s l p start)
  then show ?case
    using PopPending_frame [OF cs_pop.hyps(3)] PopPending_Some [OF cs_pop.hyps(3)] by auto
next
  case (cs_exit i s l)
  then show ?case using PopPending_None [OF cs_exit.hyps(3)] by (auto simp: token_inv_def)
qed auto

lemma drains:
  assumes "token_inv s" "sy_alive s" "cb (sy_listener s) \<noteq> None"
  shows "\<exists>t. cs_internal\<^sup>*\<^sup>* s t \<and> sy_alive t \<and> pending_messages (sy_listener t) = []
    \<and> sy_delivered t = sy_delivered s @ pending_messages (sy_listener s)"
  using assms
proof (induction "work s" arbitrary: s rule: less_induct)
  case less
  show ?case
  proof (cases "pending_messages (sy_listener s) = []")
    case True
    then show ?thesis using less.prems by auto
  next
    case False
    then have "callback_scheduled (sy_listener s)" using less.prems by (simp add: token_inv_def)
    from internal_enabled [OF less.prems(1,2) this] obtain s' where step: "cs_internal s s'" by blast
    note keep = internal_keeps_messages [OF step less.prems False]
    have "work s' < work s" "token_inv s'"
      using work_decreases [OF step less.prems(1)] token_inv_internal [OF step less.prems(1)] by auto
    from less.hyps [OF this(1,2)] keep obtain t where "cs_internal\<^sup>*\<^sup>* s' t" "sy_alive t"
      "pending_messages (sy_listener t) = []"
      "sy_delivered t = sy_delivered s' @ pending_messages (sy_listener s')" by blast
    with step keep show ?thesis by (metis converse_rtranclp_into_rtranclp)
  qed
qed

subsection \<open>Running a schedule\<close>

text \<open>A schedule names the next step; running it gives a reachable state, which closed examples use.\<close>

datatype 'm CallbackAction =
    DoSubmit | DoStart | DoPop int | DoExit | DoReturn int | DoRecord | DoData "'m PendingMessage list" | DoRelease

fun perform :: "'m CallbackAction \<Rightarrow> ('m, 'h) CallbackSystem \<Rightarrow> ('m, 'h) CallbackSystem option" where
  "perform DoSubmit s = (case sy_to_submit s of 0 \<Rightarrow> None
     | Suc n \<Rightarrow> Some (s\<lparr>sy_to_submit := n, sy_queued := Suc (sy_queued s)\<rparr>))"
| "perform DoStart s = (case sy_queued s of 0 \<Rightarrow> None
     | Suc n \<Rightarrow> if sy_alive s then Some (s\<lparr>sy_queued := n, sy_workers := sy_workers s @ [LoopHead]\<rparr>)
                else Some (s\<lparr>sy_queued := n\<rparr>))"
| "perform (DoPop start) s = (case (sy_workers s, PopPending (sy_listener s)) of
       (LoopHead # ws, (l, Some p)) \<Rightarrow>
         Some (s\<lparr>sy_listener := l, sy_workers := Dispatching p start # ws,
           sy_delivered := sy_delivered s @ (case pp_cb p of None \<Rightarrow> [] | Some _ \<Rightarrow> [pp_message p])\<rparr>)
     | _ \<Rightarrow> None)"
| "perform DoExit s = (case (sy_workers s, PopPending (sy_listener s)) of
       (LoopHead # ws, (l, None)) \<Rightarrow> Some (EndTask 0 (s\<lparr>sy_listener := l\<rparr>)) | _ \<Rightarrow> None)"
| "perform (DoReturn finish) s = (case sy_workers s of
       Dispatching p start # ws \<Rightarrow> Some (s\<lparr>sy_workers :=
         (if pp_metrics_enabled p then Recording p start finish else LoopHead) # ws\<rparr>) | _ \<Rightarrow> None)"
| "perform DoRecord s = (case sy_workers s of
       Recording p start finish # ws \<Rightarrow> Some (s\<lparr>sy_listener :=
         RecordExecuted p start finish (sy_listener s), sy_workers := LoopHead # ws\<rparr>) | _ \<Rightarrow> None)"
| "perform (DoData ready) s =
     (if sy_owned s then (case cb (sy_listener s) of None \<Rightarrow> None
      | Some _ \<Rightarrow> (case EnqueueReady ready (sy_listener s) of (l, b) \<Rightarrow>
        Some (s\<lparr>sy_listener := l, sy_to_submit := sy_to_submit s + of_bool b,
          sy_received := sy_received s @ (if stop_requested (sy_listener s) then [] else ready)\<rparr>)))
      else None)"
| "perform DoRelease s = (if sy_owned s \<and> sy_to_submit s = 0 then Some (ReleaseOwner s) else None)"

fun schedule :: "'m CallbackAction list \<Rightarrow> ('m, 'h) CallbackSystem \<Rightarrow> ('m, 'h) CallbackSystem option" where
  "schedule [] s = Some s"
| "schedule (a # as) s = (case perform a s of None \<Rightarrow> None | Some t \<Rightarrow> schedule as t)"

lemma perform_step: "perform a s = Some t \<Longrightarrow> cs_step s t"
proof (cases a)
  case (DoPop start)
  moreover assume "perform a s = Some t"
  ultimately show ?thesis using cs_pop [of 0 s]
    by (fastforce simp: cs_step_def split: list.splits WorkerState.splits prod.splits option.splits)
next
  case DoExit
  moreover assume "perform a s = Some t"
  ultimately show ?thesis using cs_exit [of 0 s]
    by (fastforce simp: cs_step_def split: list.splits WorkerState.splits prod.splits option.splits)
next
  case (DoReturn finish)
  moreover assume "perform a s = Some t"
  ultimately show ?thesis using cs_return [of 0 s _ _ finish]
    by (fastforce simp: cs_step_def split: list.splits WorkerState.splits)
next
  case DoRecord
  moreover assume "perform a s = Some t"
  ultimately show ?thesis using cs_record [of 0 s]
    by (fastforce simp: cs_step_def split: list.splits WorkerState.splits)
next
  case (DoData ready)
  assume "perform a s = Some t"
  moreover obtain l b where enq: "EnqueueReady ready (sy_listener s) = (l, b)"
    by (cases "EnqueueReady ready (sy_listener s)")
  ultimately show ?thesis
    using DoData cs_data [OF _ _ enq] by (auto simp: cs_step_def simp del: of_bool_eq split: if_splits option.splits)
qed (auto simp: cs_step_def split: nat.splits if_splits
      intro: cs_submit cs_start cs_start_dead cs_release)

lemma schedule_reach: "cs_reach opts h s \<Longrightarrow> schedule as s = Some t \<Longrightarrow> cs_reach opts h t"
proof (induction as arbitrary: s)
  case (Cons a as)
  from Cons.prems(2) obtain s' where do: "perform a s = Some s'" and rest: "schedule as s' = Some t"
    by (auto split: option.splits)
  have "cs_reach opts h s'" using Cons.prems(1) perform_step [OF do] by (rule cs_reach_step)
  then show ?case using rest by (rule Cons.IH)
qed simp

lemmas run_defs =
  CallbackSystem_init_def SetCallback_def SetExecutorOptions_def DdsReaderListener_init_def
  DdsReaderExecutorOptions_default_def DdsReaderExecutorMetrics_default_def EnqueueReady_def
  enqueue_defs PopPending_def EndTask_def ReleaseOwner_def DestroyListener_def remove_at_def
  RecordExecuted_def micros_def

subsection \<open>Properties\<close>

definition sample_message :: "'m \<Rightarrow> int \<Rightarrow> 'm PendingMessage" where
  "sample_message m now = \<lparr>pm_message = m,
     pm_sample_info = \<lparr>valid_data = True, source_timestamp = \<lparr>rt_seconds = 0, rt_fraction = 0\<rparr>,
                       reception_timestamp = \<lparr>rt_seconds = 0, rt_fraction = 0\<rparr>\<rparr>,
     pm_listener_enter_steady_time = now, pm_listener_enter_system_time = now,
     pm_enqueued_at = now, pm_enqueued_system_time = now\<rparr>"

definition small_queue :: DdsReaderExecutorOptions where
  "small_queue = DdsReaderExecutorOptions_default\<lparr>queue_capacity := 2, enable_metrics := True\<rparr>"

text \<open>Two messages arrive, one task is submitted, started and has called the handler once.\<close>

definition delivering :: "(nat, unit) CallbackSystem" where
  "delivering = the (schedule
     [DoData [sample_message 1 0, sample_message 2 1, sample_message 3 2], DoSubmit, DoStart, DoPop 5]
     (CallbackSystem_init small_queue ()))"

lemma delivering_eq:
  "schedule [DoData [sample_message 1 0, sample_message 2 1, sample_message 3 2], DoSubmit, DoStart, DoPop 5]
     (CallbackSystem_init small_queue ()) = Some delivering"
  by (simp add: delivering_def run_defs small_queue_def)

lemma delivering_reach: "cs_reach small_queue () delivering"
  by (rule schedule_reach [OF cs_reach_init delivering_eq])

lemma delivering_values:
  "length (sy_workers delivering) = 1" "sy_alive delivering"
  "pending_messages (sy_listener delivering) = [sample_message 3 2]"
  "sy_delivered delivering = [sample_message 2 1]"
  "sy_received delivering = [sample_message 1 0, sample_message 2 1, sample_message 3 2]"
  "samples_dropped (metrics (sy_listener delivering)) = 1"
  by (simp_all add: delivering_def run_defs small_queue_def)

text \<open>
  C1. Callbacks of one reader never overlap, and \<open>callback_scheduled_\<close> is exact.  Although four pool
  threads and the receive thread interleave freely, the tasks of a listener (about to be submitted,
  waiting in an executor or executing) are at every moment exactly one while \<open>callback_scheduled_\<close> is
  set and none while it is clear, and the flag is set whenever messages wait.  Once the listener is
  destroyed no task of it executes and none is submitted: a task still queued finds it gone.  So never
  more than one task executes, and while one does no other is queued or about to be submitted.
\<close>

theorem callbacks_never_overlap:
  assumes "cs_reach opts h s"
  shows "(sy_alive s \<longrightarrow>
      sy_to_submit s + sy_queued s + length (sy_workers s) = of_bool (callback_scheduled (sy_listener s))
      \<and> (pending_messages (sy_listener s) \<noteq> [] \<longrightarrow> callback_scheduled (sy_listener s)))
    \<and> (\<not> sy_alive s \<longrightarrow>
      sy_workers s = [] \<and> sy_to_submit s = 0 \<and> pending_messages (sy_listener s) = [])
    \<and> length (sy_workers s) \<le> 1
    \<and> (sy_workers s \<noteq> [] \<longrightarrow> sy_queued s = 0 \<and> sy_to_submit s = 0)"
proof -
  note inv = token_inv_reach [OF assms]
  have "length (sy_workers s) \<le> 1 \<and> (sy_workers s \<noteq> [] \<longrightarrow> sy_queued s = 0 \<and> sy_to_submit s = 0)"
    using token_inv_worker [OF inv, of 0] by (cases "sy_workers s") auto
  with inv show ?thesis unfolding token_inv_def tokens_def by blast
qed

theorem callbacks_never_overlap_witness:
  "length (sy_workers delivering) = 1 \<and> callback_scheduled (sy_listener delivering)
    \<and> sy_queued delivering = 0 \<and> sy_to_submit delivering = 0"
  using callbacks_never_overlap [OF delivering_reach] delivering_values(1-3) by auto

text \<open>
  C2. No wake-up is lost.  From every reachable state in which the listener lives, the SDK's own
  threads alone can run until the queue is empty and every message that was waiting has been handed
  to the callback, in queue order; and none of their runs is endless, since each step lessens
  \<open>work\<close>.
\<close>

theorem pending_messages_are_delivered:
  assumes "cs_reach opts h s"
  shows "(\<forall>t. cs_internal s t \<longrightarrow> work t < work s)
    \<and> (sy_alive s \<longrightarrow> (\<exists>t. cs_internal\<^sup>*\<^sup>* s t \<and> sy_alive t \<and> pending_messages (sy_listener t) = []
         \<and> sy_delivered t = sy_delivered s @ pending_messages (sy_listener s)))"
  using work_decreases [OF _ token_inv_reach [OF assms]] drains [OF token_inv_reach [OF assms]]
    history_inv_reach [OF assms] by (auto simp: history_inv_def)

theorem pending_messages_are_delivered_witness:
  "\<exists>t. cs_internal\<^sup>*\<^sup>* delivering t \<and> sy_delivered t = [sample_message 2 1, sample_message 3 2]"
  using pending_messages_are_delivered [OF delivering_reach] delivering_values(2-4) by auto

text \<open>
  C3. Order and integrity of delivery.  What the callback has seen followed by what still waits is a
  subsequence of the valid samples received: nothing is invented, duplicated or reordered.  Without a
  capacity bound nothing is missing either while the listener lives.
\<close>

theorem delivery_in_order:
  assumes "cs_reach opts h s"
  shows "subseq (sy_delivered s @ pending_messages (sy_listener s)) (sy_received s)
    \<and> (queue_bound opts = None \<and> sy_alive s \<longrightarrow>
         sy_received s = sy_delivered s @ pending_messages (sy_listener s))"
  using history_inv_reach [OF assms] by (auto simp: history_inv_def)

theorem delivery_in_order_witness:
  "subseq [sample_message 2 1, sample_message 3 2] [sample_message (1::nat) 0, sample_message 2 1, sample_message 3 2]"
  using delivery_in_order [OF delivering_reach] delivering_values by simp

text \<open>
  C4. The queue respects its capacity in every reachable state: with a capacity set, or under the
  latest-only policy, it never holds more messages than that (than one).
\<close>

theorem queue_stays_bounded:
  assumes "cs_reach opts h s" and "queue_bound opts = Some b"
  shows "length (pending_messages (sy_listener s)) \<le> b"
  using history_inv_reach [OF assms(1)] assms(2) by (simp add: history_inv_def)

theorem queue_stays_bounded_witness:
  "queue_bound small_queue = Some 2 \<and> length (pending_messages (sy_listener delivering)) \<le> 2"
proof -
  have "queue_bound small_queue = Some 2"
    by (simp add: queue_bound_def small_queue_def DdsReaderExecutorOptions_default_def)
  with queue_stays_bounded [OF delivering_reach this] show ?thesis by simp
qed

text \<open>
  C6. The metrics balance.  With metrics enabled, in every reachable state of a living listener the
  received samples are exactly the dropped, the waiting and the delivered ones, and the executed
  callbacks are the delivered messages but the one whose callback is still running.  The 64-bit
  counters wrap, so these are equations modulo 2^64.
\<close>

theorem metrics_balance:
  assumes "cs_reach opts h s" and "enable_metrics opts" and "sy_alive s"
  shows "samples_received (metrics (sy_listener s))
      = samples_dropped (metrics (sy_listener s)) + of_nat (length (pending_messages (sy_listener s)))
        + of_nat (length (sy_delivered s))
    \<and> callbacks_executed (metrics (sy_listener s)) + of_nat (length (filter busy (sy_workers s)))
      = of_nat (length (sy_delivered s))"
  using metrics_inv_reach [OF assms(1,2)] assms(3) by (simp add: metrics_inv_def Let_def)

theorem metrics_balance_witness:
  "samples_received (metrics (sy_listener delivering)) = 3"
  using metrics_balance [OF delivering_reach] delivering_values
  by (simp add: small_queue_def)

text \<open>
  Closing a reader does not wait for its callback.  There is a run in which the channel has already
  let go of the listener (\<open>CloseReader\<close> has returned) and an executor thread afterwards starts
  another callback on a message that was still queued.
\<close>

lemma callback_after_close:
  "\<exists>s t. cs_reach DdsReaderExecutorOptions_default () s \<and> \<not> sy_owned s \<and> cs_internal s t
     \<and> sy_delivered t \<noteq> sy_delivered (s :: (nat, unit) CallbackSystem)"
proof -
  let ?as = "[DoData [sample_message (1::nat) 0, sample_message 2 1], DoSubmit, DoStart, DoPop 5, DoRelease, DoReturn 9]"
  obtain s where s: "schedule ?as (CallbackSystem_init DdsReaderExecutorOptions_default ()) = Some s"
    and sv: "sy_workers s = [LoopHead]" "\<not> sy_owned s" "sy_delivered s = [sample_message 1 0]"
      "pending_messages (sy_listener s) = [sample_message 2 1]" "\<not> stop_requested (sy_listener s)"
      "cb (sy_listener s) = Some ()"
    by (simp add: run_defs)
  from sv obtain l p where pop: "PopPending (sy_listener s) = (l, Some p)" "pp_cb p \<noteq> None"
    by (simp add: PopPending_def)
  have "\<exists>t. cs_internal s t \<and> sy_delivered t = sy_delivered s @ [pp_message p]"
    using cs_pop [of 0 s l p 0] sv(1) pop by (intro exI conjI) (auto)
  with schedule_reach [OF cs_reach_init s] sv(2) show ?thesis by fastforce
qed

text \<open>
  A dedicated executor may be asked to join itself.  With the dedicated dispatch mode there is a run
  in which the last reference to the listener is the one its own executor thread holds, so the
  listener's destructor, which destroys the dedicated executor and joins its thread, runs on that very
  thread.
\<close>

lemma dedicated_executor_destroyed_by_itself:
  "\<exists>s. cs_reach (DdsReaderExecutorOptions_default\<lparr>dispatch_mode := kDedicated\<rparr>) ()
         (s :: (nat, unit) CallbackSystem)
     \<and> sy_destroyed_by_worker s \<and> ScheduleExecution (sy_listener s) = DedicatedThread"
proof -
  let ?as = "[DoData [sample_message (1::nat) 0], DoSubmit, DoStart, DoPop 5, DoRelease, DoReturn 9, DoExit]"
  obtain s where s: "schedule ?as (CallbackSystem_init (DdsReaderExecutorOptions_default\<lparr>dispatch_mode := kDedicated\<rparr>) ()) = Some s"
    and "sy_destroyed_by_worker s" "ScheduleExecution (sy_listener s) = DedicatedThread"
    by (simp add: run_defs ScheduleExecution_def)
  then show ?thesis using schedule_reach [OF cs_reach_init s] by blast
qed

end
