(* ===== verification/Dds_Channel.thy ===== *)
theory Dds_Channel
  imports Dds_Listener "HOL-Library.Multiset"
begin

text \<open>
  Topics, channels and their users: \<open>DdsTopicChannel\<close> (\<open>common/dds/dds_topic_channel.hpp\<close>),
  \<open>DdsFactoryModel\<close> (\<open>dds_factory_model.hpp\<close>), \<open>ChannelFactory\<close>, \<open>ChannelPublisher\<close> and
  \<open>ChannelSubscriber\<close> (\<open>robot/channel\<close>).

  Fast DDS itself is outside the model: each operation takes the answers of the DDS calls it makes as
  arguments and returns, beside the new state, the calls it made (\<open>DdsEvent\<close>), in order.  Pointers to
  DDS objects are opaque numbers, \<open>None\<close> is the null pointer.
\<close>

type_synonym ptr = nat

text \<open>A quality-of-service profile: its reliability kind, and a number for all the rest of it.\<close>

record DdsQos =
  qos_reliable :: bool
  qos_profile :: nat

datatype DdsEvent =
    RegisterType string
  | CreateTopic string string "ptr option"
  | DeleteTopic ptr
  | CreateWriter ptr ptr DdsQos "ptr option"
  | DeleteWriter ptr ptr
  | CreateReader ptr ptr DdsQos "ptr option"
  | DeleteReader ptr ptr
  | WriteSample ptr bool

subsection \<open>\<open>DdsTopicChannel\<close>\<close>

record ('m, 'h) DdsTopicChannel =
  tc_writer :: "ptr option"
  tc_reader :: "ptr option"
  tc_topic :: "ptr option"
  tc_writer_owner :: "ptr option"
  tc_reader_owner :: "ptr option"
  tc_listener :: "('m, 'h) DdsReaderListener option"

definition DdsTopicChannel_init :: "('m, 'h) DdsTopicChannel" where
  "DdsTopicChannel_init =
     \<lparr>tc_writer = None, tc_reader = None, tc_topic = None, tc_writer_owner = None,
      tc_reader_owner = None, tc_listener = None\<rparr>"

definition SetTopic :: "ptr option \<Rightarrow> ('m, 'h) DdsTopicChannel \<Rightarrow> ('m, 'h) DdsTopicChannel" where
  "SetTopic topic c = c\<lparr>tc_topic := topic\<rparr>"

definition CloseWriter :: "('m, 'h) DdsTopicChannel \<Rightarrow> ('m, 'h) DdsTopicChannel \<times> DdsEvent list" where
  "CloseWriter c =
     (c\<lparr>tc_writer := None, tc_writer_owner := None\<rparr>,
      case (tc_writer_owner c, tc_writer c) of
        (Some owner, Some writer) \<Rightarrow> [DeleteWriter owner writer] | _ \<Rightarrow> [])"

definition CloseReader :: "('m, 'h) DdsTopicChannel \<Rightarrow> ('m, 'h) DdsTopicChannel \<times> DdsEvent list" where
  "CloseReader c =
     (c\<lparr>tc_reader := None, tc_reader_owner := None, tc_listener := None\<rparr>,
      case (tc_reader_owner c, tc_reader c) of
        (Some owner, Some reader) \<Rightarrow> [DeleteReader owner reader] | _ \<Rightarrow> [])"

definition SetWriter ::
    "ptr option \<Rightarrow> DdsQos \<Rightarrow> ptr option \<Rightarrow> ('m, 'h) DdsTopicChannel \<Rightarrow> ('m, 'h) DdsTopicChannel \<times> DdsEvent list" where
  "SetWriter publisher qos raw_writer c =
     (case (publisher, tc_topic c) of
        (Some pub, Some topic) \<Rightarrow>
          (case raw_writer of
             None \<Rightarrow> (c, [CreateWriter pub topic qos None])
           | Some w \<Rightarrow> (let (c', evs) = CloseWriter c in
               (c'\<lparr>tc_writer_owner := Some pub, tc_writer := Some w\<rparr>,
                CreateWriter pub topic qos (Some w) # evs)))
      | _ \<Rightarrow> (c, []))"

definition SetReader ::
    "ptr option \<Rightarrow> DdsQos \<Rightarrow> 'h option \<Rightarrow> DdsReaderExecutorOptions \<Rightarrow> ptr option
     \<Rightarrow> ('m, 'h) DdsTopicChannel \<Rightarrow> ('m, 'h) DdsTopicChannel \<times> DdsEvent list" where
  "SetReader subscriber qos handler options raw_reader c =
     (case (subscriber, tc_topic c) of
        (Some sub, Some topic) \<Rightarrow>
          (let listener = SetCallback handler (SetExecutorOptions options DdsReaderListener_init) in
           case raw_reader of
             None \<Rightarrow> (c, [CreateReader sub topic qos None])
           | Some r \<Rightarrow> (let (c', evs) = CloseReader c in
               (c'\<lparr>tc_listener := Some listener, tc_reader_owner := Some sub, tc_reader := Some r\<rparr>,
                CreateReader sub topic qos (Some r) # evs)))
      | _ \<Rightarrow> (c, []))"

text \<open>
  \<open>Write\<close>: \<open>msg\<close> is whether the message pointer is non-null, \<open>ok\<close> the answer of \<open>DataWriter::write\<close>.
\<close>

definition WriteChannel :: "bool \<Rightarrow> bool \<Rightarrow> ('m, 'h) DdsTopicChannel \<Rightarrow> bool \<times> DdsEvent list" where
  "WriteChannel msg ok c =
     (case tc_writer c of
        None \<Rightarrow> (False, [])
      | Some w \<Rightarrow> if \<not> msg then (False, []) else (ok, [WriteSample w ok]))"

definition MatchedCount :: "ptr option \<Rightarrow> bool \<Rightarrow> i32 \<Rightarrow> nat" where
  "MatchedCount endpoint retcode_ok current_count =
     (case endpoint of
        None \<Rightarrow> 0
      | Some _ \<Rightarrow> if \<not> retcode_ok then 0
                  else if 0 < sint current_count then nat (sint current_count) else 0)"

definition GetMatchedSubscriptionsCount :: "bool \<Rightarrow> i32 \<Rightarrow> ('m, 'h) DdsTopicChannel \<Rightarrow> nat" where
  "GetMatchedSubscriptionsCount retcode_ok n c = MatchedCount (tc_writer c) retcode_ok n"

definition GetMatchedPublicationsCount :: "bool \<Rightarrow> i32 \<Rightarrow> ('m, 'h) DdsTopicChannel \<Rightarrow> nat" where
  "GetMatchedPublicationsCount retcode_ok n c = MatchedCount (tc_reader c) retcode_ok n"

definition GetReaderExecutorMetrics :: "('m, 'h) DdsTopicChannel \<Rightarrow> DdsReaderExecutorMetrics" where
  "GetReaderExecutorMetrics c =
     (case tc_listener c of None \<Rightarrow> DdsReaderExecutorMetrics_default | Some l \<Rightarrow> GetExecutorMetrics l)"

definition DestroyChannel :: "('m, 'h) DdsTopicChannel \<Rightarrow> DdsEvent list" where
  "DestroyChannel c = (let (c, r) = CloseReader c in r @ snd (CloseWriter c))"

subsection \<open>\<open>DdsFactoryModel\<close>\<close>

record DdsFactoryModel =
  fm_participant :: "ptr option"
  fm_publisher :: "ptr option"
  fm_subscriber :: "ptr option"
  fm_topic_map :: "string \<rightharpoonup> ptr"

definition GetTopic :: "string \<Rightarrow> DdsFactoryModel \<Rightarrow> ptr option" where
  "GetTopic topic_name f = fm_topic_map f topic_name"

text \<open>
  \<open>CloseWriter\<close>, \<open>CloseReader\<close> and \<open>CloseTopic\<close> of the factory; the first two act on the endpoint
  that the DDS look-up by topic name answers, the third leaves \<open>topic_map_\<close> alone.  \<open>None\<close> is the
  dereference of a null entity pointer, before \<open>Init\<close>.
\<close>

definition FactoryCloseWriter :: "ptr \<Rightarrow> DdsFactoryModel \<Rightarrow> DdsEvent list option" where
  "FactoryCloseWriter found f = map_option (\<lambda>pub. [DeleteWriter pub found]) (fm_publisher f)"

definition FactoryCloseReader :: "ptr \<Rightarrow> DdsFactoryModel \<Rightarrow> DdsEvent list option" where
  "FactoryCloseReader found f = map_option (\<lambda>sub. [DeleteReader sub found]) (fm_subscriber f)"

definition FactoryCloseTopic :: "ptr \<Rightarrow> DdsFactoryModel \<Rightarrow> (DdsFactoryModel \<times> DdsEvent list) option" where
  "FactoryCloseTopic topic f = map_option (\<lambda>_. (f, [DeleteTopic topic])) (fm_participant f)"

definition CreateTopicChannel ::
    "string \<Rightarrow> string \<Rightarrow> ptr option \<Rightarrow> DdsFactoryModel
     \<Rightarrow> ('m, 'h) DdsTopicChannel option \<times> DdsFactoryModel \<times> DdsEvent list" where
  "CreateTopicChannel type_name topic_name created f =
     (case fm_participant f of
        None \<Rightarrow> (None, f, [])
      | Some _ \<Rightarrow>
          (case GetTopic topic_name f of
             Some topic \<Rightarrow> (Some (SetTopic (Some topic) DdsTopicChannel_init), f, [])
           | None \<Rightarrow>
               (let evs = [RegisterType type_name, CreateTopic topic_name type_name created] in
                case created of
                  None \<Rightarrow> (None, f, evs)
                | Some topic \<Rightarrow> (Some (SetTopic (Some topic) DdsTopicChannel_init),
                    f\<lparr>fm_topic_map := (fm_topic_map f)(topic_name \<mapsto> topic)\<rparr>, evs))))"

text \<open>The profile's QoS is the default one of the publisher or subscriber; \<open>reliable\<close> only raises it.\<close>

definition with_reliability :: "bool \<Rightarrow> DdsQos \<Rightarrow> DdsQos" where
  "with_reliability reliable qos = (if reliable then qos\<lparr>qos_reliable := True\<rparr> else qos)"

definition FactorySetWriter ::
    "bool \<Rightarrow> DdsQos \<Rightarrow> ptr option \<Rightarrow> DdsFactoryModel \<Rightarrow> ('m, 'h) DdsTopicChannel option
     \<Rightarrow> ('m, 'h) DdsTopicChannel option \<times> DdsEvent list" where
  "FactorySetWriter reliable default_qos raw_writer f ch =
     (case (ch, fm_publisher f) of
        (Some c, Some pub) \<Rightarrow>
          (let (c', evs) = SetWriter (Some pub) (with_reliability reliable default_qos) raw_writer c
           in (Some c', evs))
      | _ \<Rightarrow> (ch, []))"

definition FactorySetReader ::
    "'h option \<Rightarrow> bool \<Rightarrow> DdsReaderExecutorOptions \<Rightarrow> DdsQos \<Rightarrow> ptr option \<Rightarrow> DdsFactoryModel
     \<Rightarrow> ('m, 'h) DdsTopicChannel option \<Rightarrow> ('m, 'h) DdsTopicChannel option \<times> DdsEvent list" where
  "FactorySetReader handler reliable options default_qos raw_reader f ch =
     (case (ch, fm_subscriber f) of
        (Some c, Some sub) \<Rightarrow>
          (let (c', evs) = SetReader (Some sub) (with_reliability reliable default_qos) handler options raw_reader c
           in (Some c', evs))
      | _ \<Rightarrow> (ch, []))"

subsection \<open>\<open>ChannelFactory\<close>\<close>

text \<open>
  The answers of Fast DDS that one channel creation may consume: the created topic, the default QoS
  and the created endpoint.
\<close>

record DdsAnswers =
  an_topic :: "ptr option"
  an_default_qos :: DdsQos
  an_endpoint :: "ptr option"

definition CreateSendChannel ::
    "string \<Rightarrow> string \<Rightarrow> bool \<Rightarrow> DdsAnswers \<Rightarrow> DdsFactoryModel option
     \<Rightarrow> ('m, 'h) DdsTopicChannel option \<times> DdsFactoryModel option \<times> DdsEvent list" where
  "CreateSendChannel type_name name reliable a factory =
     (case factory of
        None \<Rightarrow> (None, None, [])
      | Some f \<Rightarrow>
          (let (ch, f', evs) = CreateTopicChannel type_name name (an_topic a) f;
               (ch', evs') = FactorySetWriter reliable (an_default_qos a) (an_endpoint a) f' ch
           in (ch', Some f', evs @ evs')))"

definition CreateRecvChannel ::
    "string \<Rightarrow> string \<Rightarrow> 'h option \<Rightarrow> bool \<Rightarrow> DdsReaderExecutorOptions \<Rightarrow> DdsAnswers \<Rightarrow> DdsFactoryModel option
     \<Rightarrow> ('m, 'h) DdsTopicChannel option \<times> DdsFactoryModel option \<times> DdsEvent list" where
  "CreateRecvChannel type_name name handler reliable options a factory =
     (case factory of
        None \<Rightarrow> (None, None, [])
      | Some f \<Rightarrow>
          (let (ch, f', evs) = CreateTopicChannel type_name name (an_topic a) f;
               (ch', evs') = FactorySetReader handler reliable options (an_default_qos a) (an_endpoint a) f' ch
           in (ch', Some f', evs @ evs')))"

subsection \<open>\<open>ChannelPublisher\<close> and \<open>ChannelSubscriber\<close>\<close>

record ('m, 'h) ChannelPublisher =
  cp_channel_name :: string
  cp_reliable :: bool
  cp_channel :: "('m, 'h) DdsTopicChannel option"

definition ChannelPublisher_new :: "string \<Rightarrow> bool \<Rightarrow> ('m, 'h) ChannelPublisher" where
  "ChannelPublisher_new name reliable = \<lparr>cp_channel_name = name, cp_reliable = reliable, cp_channel = None\<rparr>"

definition DestroyOld :: "('m, 'h) DdsTopicChannel option \<Rightarrow> DdsEvent list" where
  "DestroyOld ch = (case ch of None \<Rightarrow> [] | Some c \<Rightarrow> DestroyChannel c)"

text \<open>Assigning \<open>channel_ptr_\<close> drops the channel it held before, whose destructor then closes it.\<close>

definition PublisherInitChannel ::
    "string \<Rightarrow> DdsAnswers \<Rightarrow> DdsFactoryModel option \<Rightarrow> ('m, 'h) ChannelPublisher
     \<Rightarrow> ('m, 'h) ChannelPublisher \<times> DdsFactoryModel option \<times> DdsEvent list" where
  "PublisherInitChannel type_name a factory p =
     (let (ch, factory', evs) = CreateSendChannel type_name (cp_channel_name p) (cp_reliable p) a factory
      in (p\<lparr>cp_channel := ch\<rparr>, factory', evs @ DestroyOld (cp_channel p)))"

definition PublisherWrite :: "bool \<Rightarrow> bool \<Rightarrow> ('m, 'h) ChannelPublisher \<Rightarrow> bool \<times> DdsEvent list" where
  "PublisherWrite msg ok p =
     (case cp_channel p of None \<Rightarrow> (False, []) | Some c \<Rightarrow> WriteChannel msg ok c)"

definition PublisherCloseChannel :: "('m, 'h) ChannelPublisher \<Rightarrow> ('m, 'h) ChannelPublisher \<times> DdsEvent list" where
  "PublisherCloseChannel p =
     (case cp_channel p of
        None \<Rightarrow> (p, [])
      | Some c \<Rightarrow> (let (c', evs) = CloseWriter c in (p\<lparr>cp_channel := None\<rparr>, evs @ DestroyChannel c')))"

definition PublisherMatchedCount :: "bool \<Rightarrow> i32 \<Rightarrow> ('m, 'h) ChannelPublisher \<Rightarrow> nat" where
  "PublisherMatchedCount retcode_ok n p =
     (case cp_channel p of None \<Rightarrow> 0 | Some c \<Rightarrow> GetMatchedSubscriptionsCount retcode_ok n c)"

record ChannelSubscriberOptions =
  cso_reliable :: bool
  cso_executor_options :: DdsReaderExecutorOptions

record ('m, 'h) ChannelSubscriber =
  cs_channel_name :: string
  cs_channel :: "('m, 'h) DdsTopicChannel option"
  cs_handler :: "'h option"
  cs_options :: ChannelSubscriberOptions

definition ChannelSubscriber_new ::
    "string \<Rightarrow> 'h option \<Rightarrow> ChannelSubscriberOptions \<Rightarrow> ('m, 'h) ChannelSubscriber" where
  "ChannelSubscriber_new name handler options =
     \<lparr>cs_channel_name = name, cs_channel = None, cs_handler = handler, cs_options = options\<rparr>"

text \<open>The constructors that take only \<open>reliable\<close> leave the executor options at their defaults.\<close>

definition reliable_options :: "bool \<Rightarrow> ChannelSubscriberOptions" where
  "reliable_options reliable =
     \<lparr>cso_reliable = reliable, cso_executor_options = DdsReaderExecutorOptions_default\<rparr>"

definition SubscriberInitChannel ::
    "string \<Rightarrow> DdsAnswers \<Rightarrow> DdsFactoryModel option \<Rightarrow> ('m, 'h) ChannelSubscriber
     \<Rightarrow> ('m, 'h) ChannelSubscriber \<times> DdsFactoryModel option \<times> DdsEvent list" where
  "SubscriberInitChannel type_name a factory s =
     (case cs_handler s of
        None \<Rightarrow> (s, factory, [])
      | Some _ \<Rightarrow>
          (let (ch, factory', evs) = CreateRecvChannel type_name (cs_channel_name s) (cs_handler s)
                 (cso_reliable (cs_options s)) (cso_executor_options (cs_options s)) a factory
           in (s\<lparr>cs_channel := ch\<rparr>, factory', evs @ DestroyOld (cs_channel s))))"

definition SubscriberInitChannelWith ::
    "'h option \<Rightarrow> string \<Rightarrow> DdsAnswers \<Rightarrow> DdsFactoryModel option \<Rightarrow> ('m, 'h) ChannelSubscriber
     \<Rightarrow> ('m, 'h) ChannelSubscriber \<times> DdsFactoryModel option \<times> DdsEvent list" where
  "SubscriberInitChannelWith handler type_name a factory s =
     SubscriberInitChannel type_name a factory (s\<lparr>cs_handler := handler\<rparr>)"

definition SubscriberCloseChannel :: "('m, 'h) ChannelSubscriber \<Rightarrow> ('m, 'h) ChannelSubscriber \<times> DdsEvent list" where
  "SubscriberCloseChannel s =
     (case cs_channel s of
        None \<Rightarrow> (s, [])
      | Some c \<Rightarrow> (let (c', evs) = CloseReader c in (s\<lparr>cs_channel := None\<rparr>, evs @ DestroyChannel c')))"

definition SubscriberGetMetrics :: "('m, 'h) ChannelSubscriber \<Rightarrow> DdsReaderExecutorMetrics" where
  "SubscriberGetMetrics s =
     (case cs_channel s of None \<Rightarrow> DdsReaderExecutorMetrics_default | Some c \<Rightarrow> GetReaderExecutorMetrics c)"

definition SubscriberMatchedCount :: "bool \<Rightarrow> i32 \<Rightarrow> ('m, 'h) ChannelSubscriber \<Rightarrow> nat" where
  "SubscriberMatchedCount retcode_ok n s =
     (case cs_channel s of None \<Rightarrow> 0 | Some c \<Rightarrow> GetMatchedPublicationsCount retcode_ok n c)"

subsection \<open>Accounting of endpoints\<close>

text \<open>The endpoints that calls created and deleted, each with the entity that did it.\<close>

fun created_endpoints :: "DdsEvent \<Rightarrow> (bool \<times> ptr \<times> ptr) multiset" where
  "created_endpoints (CreateWriter pub _ _ (Some w)) = {#(True, pub, w)#}"
| "created_endpoints (CreateReader sub _ _ (Some r)) = {#(False, sub, r)#}"
| "created_endpoints _ = {#}"

fun deleted_endpoints :: "DdsEvent \<Rightarrow> (bool \<times> ptr \<times> ptr) multiset" where
  "deleted_endpoints (DeleteWriter pub w) = {#(True, pub, w)#}"
| "deleted_endpoints (DeleteReader sub r) = {#(False, sub, r)#}"
| "deleted_endpoints _ = {#}"

definition created :: "DdsEvent list \<Rightarrow> (bool \<times> ptr \<times> ptr) multiset" where
  "created evs = (\<Sum>e \<leftarrow> evs. created_endpoints e)"

definition deleted :: "DdsEvent list \<Rightarrow> (bool \<times> ptr \<times> ptr) multiset" where
  "deleted evs = (\<Sum>e \<leftarrow> evs. deleted_endpoints e)"

lemma created_simps [simp]:
  "created [] = {#}" "created (e # evs) = created_endpoints e + created evs"
  "created (evs @ evs') = created evs + created evs'"
  by (simp_all add: created_def)

lemma deleted_simps [simp]:
  "deleted [] = {#}" "deleted (e # evs) = deleted_endpoints e + deleted evs"
  "deleted (evs @ evs') = deleted evs + deleted evs'"
  by (simp_all add: deleted_def)

text \<open>The endpoints a channel holds; an endpoint and its owner are set and reset together.\<close>

definition channel_ok :: "('m, 'h) DdsTopicChannel \<Rightarrow> bool" where
  "channel_ok c \<longleftrightarrow> (tc_writer c = None) = (tc_writer_owner c = None)
     \<and> (tc_reader c = None) = (tc_reader_owner c = None)
     \<and> (tc_reader c = None) = (tc_listener c = None)"

definition held_writer :: "('m, 'h) DdsTopicChannel \<Rightarrow> (bool \<times> ptr \<times> ptr) multiset" where
  "held_writer c = (case (tc_writer_owner c, tc_writer c) of
     (Some owner, Some w) \<Rightarrow> {#(True, owner, w)#} | _ \<Rightarrow> {#})"

definition held_reader :: "('m, 'h) DdsTopicChannel \<Rightarrow> (bool \<times> ptr \<times> ptr) multiset" where
  "held_reader c = (case (tc_reader_owner c, tc_reader c) of
     (Some owner, Some r) \<Rightarrow> {#(False, owner, r)#} | _ \<Rightarrow> {#})"

definition held :: "('m, 'h) DdsTopicChannel \<Rightarrow> (bool \<times> ptr \<times> ptr) multiset" where
  "held c = held_writer c + held_reader c"

definition held_opt :: "('m, 'h) DdsTopicChannel option \<Rightarrow> (bool \<times> ptr \<times> ptr) multiset" where
  "held_opt ch = (case ch of None \<Rightarrow> {#} | Some c \<Rightarrow> held c)"

lemmas held_defs = held_def held_writer_def held_reader_def

text \<open>
  The contract of an operation on endpoints: whatever it creates beyond what it deletes is what it
  holds afterwards beyond what it held before.
\<close>

locale endpoint_op =
  fixes op :: "'s \<Rightarrow> 's \<times> DdsEvent list"
    and holds :: "'s \<Rightarrow> (bool \<times> ptr \<times> ptr) multiset"
    and ok :: "'s \<Rightarrow> bool"
  assumes op_ok: "ok s \<Longrightarrow> ok (fst (op s))"
    and op_balance: "ok s \<Longrightarrow>
      holds s + created (snd (op s)) = holds (fst (op s)) + deleted (snd (op s))"
begin

text \<open>An operation after which nothing is held has deleted everything there was.\<close>

lemma leak_free:
  "ok s \<Longrightarrow> holds (fst (op s)) = {#} \<Longrightarrow> deleted (snd (op s)) = holds s + created (snd (op s))"
  using op_balance by fastforce

lemma deletes_only_own:
  "ok s \<Longrightarrow> deleted (snd (op s)) \<subseteq># holds s + created (snd (op s))"
  using op_balance by (metis mset_subset_eq_add_right)

end

subsection \<open>A channel under any sequence of operations\<close>

datatype 'h ChannelOp =
    OpSetTopic "ptr option"
  | OpSetWriter "ptr option" DdsQos "ptr option"
  | OpSetReader "ptr option" DdsQos "'h option" DdsReaderExecutorOptions "ptr option"
  | OpCloseWriter
  | OpCloseReader
  | OpWrite bool bool

fun channel_op :: "'h ChannelOp \<Rightarrow> ('m, 'h) DdsTopicChannel \<Rightarrow> ('m, 'h) DdsTopicChannel \<times> DdsEvent list" where
  "channel_op (OpSetTopic t) c = (SetTopic t c, [])"
| "channel_op (OpSetWriter pub qos raw) c = SetWriter pub qos raw c"
| "channel_op (OpSetReader sub qos h opts raw) c = SetReader sub qos h opts raw c"
| "channel_op OpCloseWriter c = CloseWriter c"
| "channel_op OpCloseReader c = CloseReader c"
| "channel_op (OpWrite msg ok) c = (c, snd (WriteChannel msg ok c))"

fun channel_run :: "'h ChannelOp list \<Rightarrow> ('m, 'h) DdsTopicChannel \<Rightarrow> ('m, 'h) DdsTopicChannel \<times> DdsEvent list" where
  "channel_run [] c = (c, [])"
| "channel_run (a # as) c =
     (let (c', evs) = channel_op a c; (c'', evs') = channel_run as c' in (c'', evs @ evs'))"

lemma channel_op_ok: "channel_ok c \<Longrightarrow> channel_ok (fst (channel_op a c))"
  by (cases a)
    (auto simp: channel_ok_def SetTopic_def SetWriter_def SetReader_def CloseWriter_def CloseReader_def
      Let_def split: option.splits)

lemma channel_op_balance:
  "channel_ok c \<Longrightarrow>
   held c + created (snd (channel_op a c)) = held (fst (channel_op a c)) + deleted (snd (channel_op a c))"
proof (cases a)
  case (OpSetWriter pub qos raw)
  assume "channel_ok c"
  then show ?thesis unfolding OpSetWriter channel_op.simps SetWriter_def CloseWriter_def
    by (auto simp: held_defs channel_ok_def split: option.splits)
next
  case (OpSetReader sub qos h opts raw)
  assume "channel_ok c"
  then show ?thesis unfolding OpSetReader channel_op.simps SetReader_def CloseReader_def Let_def
    by (auto simp: held_defs channel_ok_def split: option.splits)
next
  case (OpWrite msg ok)
  then show ?thesis by (auto simp: WriteChannel_def split: option.splits)
qed (auto simp: held_defs channel_ok_def SetTopic_def CloseWriter_def CloseReader_def split: option.splits)

interpretation channel_step: endpoint_op "channel_op a" held channel_ok for a
  by unfold_locales (rule channel_op_ok channel_op_balance, assumption)+

lemma channel_run_ok: "channel_ok c \<Longrightarrow> channel_ok (fst (channel_run as c))"
  by (induction as arbitrary: c) (auto simp: case_prod_beta Let_def channel_op_ok)

lemma channel_run_balance:
  "channel_ok c \<Longrightarrow>
   held c + created (snd (channel_run as c)) = held (fst (channel_run as c)) + deleted (snd (channel_run as c))"
proof (induction as arbitrary: c)
  case (Cons a as)
  let ?c = "fst (channel_op a c)"
  have "held c + created (snd (channel_op a c)) + created (snd (channel_run as ?c))
      = held (fst (channel_run as ?c)) + (deleted (snd (channel_op a c)) + deleted (snd (channel_run as ?c)))"
    using Cons.IH [OF channel_op_ok [OF Cons.prems, of a]] channel_op_balance [OF Cons.prems, of a]
    by (simp add: ac_simps)
  then show ?case by (simp add: case_prod_beta Let_def ac_simps)
qed simp

interpretation channel_runs: endpoint_op "channel_run as" held channel_ok for as
  by unfold_locales (rule channel_run_ok channel_run_balance, assumption)+

lemma channel_ok_init: "channel_ok DdsTopicChannel_init" "held DdsTopicChannel_init = {#}"
  by (simp_all add: channel_ok_def held_defs DdsTopicChannel_init_def)

lemma DestroyChannel_deletes: "deleted (DestroyChannel c) = held c" "created (DestroyChannel c) = {#}"
  by (auto simp: DestroyChannel_def CloseReader_def CloseWriter_def held_defs split: option.splits)

subsection \<open>Publishers and subscribers under any sequence of operations\<close>

definition channel_opt_ok :: "('m, 'h) DdsTopicChannel option \<Rightarrow> bool" where
  "channel_opt_ok ch = (case ch of None \<Rightarrow> True | Some c \<Rightarrow> channel_ok c)"

lemma CreateTopicChannel_fresh:
  "CreateTopicChannel ty name t f = (ch, f', evs) \<Longrightarrow>
   channel_opt_ok ch \<and> held_opt ch = {#} \<and> created evs = {#} \<and> deleted evs = {#}"
  by (auto simp: CreateTopicChannel_def channel_opt_ok_def held_opt_def channel_ok_def held_defs
      SetTopic_def DdsTopicChannel_init_def Let_def split: option.splits)

lemma CreateSendChannel_balance:
  fixes ch :: "('m, 'h) DdsTopicChannel option"
  assumes "CreateSendChannel ty name rel a factory = (ch, factory', evs)"
  shows "channel_opt_ok ch \<and> created evs = held_opt ch \<and> deleted evs = {#}"
proof (cases factory)
  case (Some f)
  obtain ch0 :: "('m, 'h) DdsTopicChannel option" and f0 evs0
    where c: "CreateTopicChannel ty name (an_topic a) f = (ch0, f0, evs0)"
    by (metis prod_cases3)
  note fresh = CreateTopicChannel_fresh [OF c]
  show ?thesis
  proof (cases ch0)
    case (Some c0)
    then show ?thesis
      using assms fresh \<open>factory = Some f\<close> c
      by (auto simp: CreateSendChannel_def FactorySetWriter_def SetWriter_def CloseWriter_def
          held_opt_def held_defs channel_opt_ok_def channel_ok_def split: option.splits)
  qed (use assms fresh Some c in \<open>auto simp: CreateSendChannel_def FactorySetWriter_def held_opt_def channel_opt_ok_def\<close>)
qed (use assms in \<open>auto simp: CreateSendChannel_def held_opt_def channel_opt_ok_def\<close>)

lemma CreateRecvChannel_balance:
  fixes ch :: "('m, 'h) DdsTopicChannel option"
  assumes "CreateRecvChannel ty name h rel opts a factory = (ch, factory', evs)"
  shows "channel_opt_ok ch \<and> created evs = held_opt ch \<and> deleted evs = {#}"
proof (cases factory)
  case (Some f)
  obtain ch0 :: "('m, 'h) DdsTopicChannel option" and f0 evs0
    where c: "CreateTopicChannel ty name (an_topic a) f = (ch0, f0, evs0)"
    by (metis prod_cases3)
  note fresh = CreateTopicChannel_fresh [OF c]
  show ?thesis
  proof (cases ch0)
    case (Some c0)
    then show ?thesis
      using assms fresh \<open>factory = Some f\<close> c
      by (auto simp: CreateRecvChannel_def FactorySetReader_def SetReader_def CloseReader_def Let_def
          held_opt_def held_defs channel_opt_ok_def channel_ok_def split: option.splits)
  qed (use assms fresh Some c in \<open>auto simp: CreateRecvChannel_def FactorySetReader_def held_opt_def channel_opt_ok_def\<close>)
qed (use assms in \<open>auto simp: CreateRecvChannel_def held_opt_def channel_opt_ok_def\<close>)

lemma DestroyOld_balance [simp]: "deleted (DestroyOld ch) = held_opt ch" "created (DestroyOld ch) = {#}"
  by (auto simp: DestroyOld_def held_opt_def DestroyChannel_deletes split: option.split)

datatype EndpointUserOp = UseInit DdsAnswers | UseWrite bool bool | UseClose

fun publisher_op ::
    "string \<Rightarrow> EndpointUserOp \<Rightarrow> ('m, 'h) ChannelPublisher \<times> DdsFactoryModel option
     \<Rightarrow> (('m, 'h) ChannelPublisher \<times> DdsFactoryModel option) \<times> DdsEvent list" where
  "publisher_op ty (UseInit a) (p, f) =
     (let (p', f', evs) = PublisherInitChannel ty a f p in ((p', f'), evs))"
| "publisher_op ty (UseWrite msg ok) (p, f) = ((p, f), snd (PublisherWrite msg ok p))"
| "publisher_op ty UseClose (p, f) = (let (p', evs) = PublisherCloseChannel p in ((p', f), evs))"

fun subscriber_op ::
    "string \<Rightarrow> EndpointUserOp \<Rightarrow> ('m, 'h) ChannelSubscriber \<times> DdsFactoryModel option
     \<Rightarrow> (('m, 'h) ChannelSubscriber \<times> DdsFactoryModel option) \<times> DdsEvent list" where
  "subscriber_op ty (UseInit a) (s, f) =
     (let (s', f', evs) = SubscriberInitChannel ty a f s in ((s', f'), evs))"
| "subscriber_op ty (UseWrite msg ok) (s, f) = ((s, f), [])"
| "subscriber_op ty UseClose (s, f) = (let (s', evs) = SubscriberCloseChannel s in ((s', f), evs))"

text \<open>Running a list of operations and collecting their DDS calls.\<close>

fun run_ops :: "('o \<Rightarrow> 's \<Rightarrow> 's \<times> DdsEvent list) \<Rightarrow> 'o list \<Rightarrow> 's \<Rightarrow> 's \<times> DdsEvent list" where
  "run_ops f [] s = (s, [])"
| "run_ops f (a # as) s = (case f a s of (s', evs) \<Rightarrow> case run_ops f as s' of (s'', evs') \<Rightarrow> (s'', evs @ evs'))"

lemma run_ops_balance:
  assumes step_ok: "\<And>a s. ok s \<Longrightarrow> ok (fst (f a s))"
    and step: "\<And>a s. ok s \<Longrightarrow> holds s + created (snd (f a s)) = holds (fst (f a s)) + deleted (snd (f a s))"
    and "ok s"
  shows "ok (fst (run_ops f as s)) \<and>
    holds s + created (snd (run_ops f as s)) = holds (fst (run_ops f as s)) + deleted (snd (run_ops f as s))"
  using \<open>ok s\<close>
proof (induction as arbitrary: s)
  case (Cons a as)
  let ?s = "fst (f a s)"
  have "holds s + created (snd (f a s)) + created (snd (run_ops f as ?s))
      = holds (fst (run_ops f as ?s)) + (deleted (snd (f a s)) + deleted (snd (run_ops f as ?s)))"
    using Cons.IH [OF step_ok [OF Cons.prems, of a]] step [OF Cons.prems, of a] by (simp add: ac_simps)
  with Cons.IH [OF step_ok [OF Cons.prems, of a]] show ?case by (simp add: case_prod_beta ac_simps)
qed simp

definition publisher_ok :: "('m, 'h) ChannelPublisher \<times> DdsFactoryModel option \<Rightarrow> bool" where
  "publisher_ok s = channel_opt_ok (cp_channel (fst s))"

definition publisher_holds :: "('m, 'h) ChannelPublisher \<times> DdsFactoryModel option \<Rightarrow> (bool \<times> ptr \<times> ptr) multiset" where
  "publisher_holds s = held_opt (cp_channel (fst s))"

definition subscriber_ok :: "('m, 'h) ChannelSubscriber \<times> DdsFactoryModel option \<Rightarrow> bool" where
  "subscriber_ok s = channel_opt_ok (cs_channel (fst s))"

definition subscriber_holds :: "('m, 'h) ChannelSubscriber \<times> DdsFactoryModel option \<Rightarrow> (bool \<times> ptr \<times> ptr) multiset" where
  "subscriber_holds s = held_opt (cs_channel (fst s))"

lemma CloseWriter_balance:
  "channel_ok c \<Longrightarrow> CloseWriter c = (c', evs) \<Longrightarrow>
   channel_ok c' \<and> created evs = {#} \<and> held c = held c' + deleted evs"
  using channel_op_balance [of c OpCloseWriter] channel_op_ok [of c OpCloseWriter]
  by (auto simp: CloseWriter_def split: option.splits)

lemma CloseReader_balance:
  "channel_ok c \<Longrightarrow> CloseReader c = (c', evs) \<Longrightarrow>
   channel_ok c' \<and> created evs = {#} \<and> held c = held c' + deleted evs"
  using channel_op_balance [of c OpCloseReader] channel_op_ok [of c OpCloseReader]
  by (auto simp: CloseReader_def split: option.splits)

lemma publisher_op_balance:
  fixes s :: "('m, 'h) ChannelPublisher \<times> DdsFactoryModel option"
  assumes "publisher_ok s"
  shows "publisher_ok (fst (publisher_op ty a s)) \<and>
    publisher_holds s + created (snd (publisher_op ty a s))
      = publisher_holds (fst (publisher_op ty a s)) + deleted (snd (publisher_op ty a s))"
proof -
  obtain p f where s: "s = (p, f)" by (cases s)
  show ?thesis
  proof (cases a)
    case (UseInit an)
    obtain ch :: "('m, 'h) DdsTopicChannel option" and f' evs
      where c: "CreateSendChannel ty (cp_channel_name p) (cp_reliable p) an f = (ch, f', evs)"
      by (metis prod_cases3)
    show ?thesis using CreateSendChannel_balance [OF c]
      by (simp add: UseInit s PublisherInitChannel_def c publisher_ok_def publisher_holds_def)
  next
    case (UseWrite msg ok)
    then show ?thesis using assms
      by (auto simp: s PublisherWrite_def WriteChannel_def split: option.splits)
  next
    case UseClose
    show ?thesis
    proof (cases "cp_channel p")
      case (Some c)
      obtain c' evs where cl: "CloseWriter c = (c', evs)" by (cases "CloseWriter c")
      then show ?thesis using CloseWriter_balance [OF _ cl] assms
        by (simp add: UseClose s Some PublisherCloseChannel_def publisher_ok_def publisher_holds_def
            held_opt_def channel_opt_ok_def DestroyChannel_deletes ac_simps)
    qed (use assms in \<open>simp add: UseClose s PublisherCloseChannel_def publisher_ok_def publisher_holds_def\<close>)
  qed
qed

lemma subscriber_op_balance:
  fixes s :: "('m, 'h) ChannelSubscriber \<times> DdsFactoryModel option"
  assumes "subscriber_ok s"
  shows "subscriber_ok (fst (subscriber_op ty a s)) \<and>
    subscriber_holds s + created (snd (subscriber_op ty a s))
      = subscriber_holds (fst (subscriber_op ty a s)) + deleted (snd (subscriber_op ty a s))"
proof -
  obtain b f where s: "s = (b, f)" by (cases s)
  show ?thesis
  proof (cases a)
    case (UseInit an)
    obtain ch :: "('m, 'h) DdsTopicChannel option" and f' evs
      where c: "CreateRecvChannel ty (cs_channel_name b) (cs_handler b)
        (cso_reliable (cs_options b)) (cso_executor_options (cs_options b)) an f = (ch, f', evs)"
      by (metis prod_cases3)
    have "SubscriberInitChannel ty an f b = (if cs_handler b = None then (b, f, [])
        else (b\<lparr>cs_channel := ch\<rparr>, f', evs @ DestroyOld (cs_channel b)))"
      using c by (cases "cs_handler b") (simp_all add: SubscriberInitChannel_def)
    then show ?thesis using CreateRecvChannel_balance [OF c] assms
      by (simp add: UseInit s subscriber_ok_def subscriber_holds_def)
  next
    case UseClose
    show ?thesis
    proof (cases "cs_channel b")
      case (Some c)
      obtain c' evs where cl: "CloseReader c = (c', evs)" by (cases "CloseReader c")
      then show ?thesis using CloseReader_balance [OF _ cl] assms
        by (simp add: UseClose s Some SubscriberCloseChannel_def subscriber_ok_def subscriber_holds_def
            held_opt_def channel_opt_ok_def DestroyChannel_deletes ac_simps)
    qed (use assms in \<open>simp add: UseClose s SubscriberCloseChannel_def subscriber_ok_def subscriber_holds_def\<close>)
  qed (use assms in \<open>simp add: s\<close>)
qed

interpretation publisher_runs: endpoint_op "run_ops (publisher_op ty) as" publisher_holds publisher_ok
  for ty as
  by unfold_locales (use run_ops_balance [of publisher_ok "publisher_op ty" publisher_holds]
      publisher_op_balance in blast)+

interpretation subscriber_runs: endpoint_op "run_ops (subscriber_op ty) as" subscriber_holds subscriber_ok
  for ty as
  by unfold_locales (use run_ops_balance [of subscriber_ok "subscriber_op ty" subscriber_holds]
      subscriber_op_balance in blast)+

lemma run_ops_append:
  "run_ops f (as @ bs) s =
     (case run_ops f as s of (s', evs) \<Rightarrow> case run_ops f bs s' of (s'', evs') \<Rightarrow> (s'', evs @ evs'))"
  by (induction as arbitrary: s) (auto split: prod.splits)

lemma publisher_closed_holds_nothing:
  "publisher_holds (fst (run_ops (publisher_op ty) (as @ [UseClose]) s)) = {#}"
  by (cases "fst (run_ops (publisher_op ty) as s)")
    (auto simp: run_ops_append case_prod_beta PublisherCloseChannel_def publisher_holds_def held_opt_def
      split: option.split)

lemma subscriber_closed_holds_nothing:
  "subscriber_holds (fst (run_ops (subscriber_op ty) (as @ [UseClose]) s)) = {#}"
  by (cases "fst (run_ops (subscriber_op ty) as s)")
    (auto simp: run_ops_append case_prod_beta SubscriberCloseChannel_def subscriber_holds_def held_opt_def
      split: option.split)

subsection \<open>Topics of the factory\<close>

text \<open>A sequence of channel creations on one factory: type, name and the answer of \<open>create_topic\<close>.\<close>

fun create_channels ::
    "(string \<times> string \<times> ptr option) list \<Rightarrow> DdsFactoryModel
     \<Rightarrow> ('m, 'h) DdsTopicChannel option list \<times> DdsFactoryModel \<times> DdsEvent list" where
  "create_channels [] f = ([], f, [])"
| "create_channels ((ty, name, answer) # reqs) f =
     (let (ch, f', evs) = CreateTopicChannel ty name answer f;
          (chs, f'', evs') = create_channels reqs f' in (ch # chs, f'', evs @ evs'))"

definition topics_created :: "string \<Rightarrow> DdsEvent list \<Rightarrow> nat" where
  "topics_created name evs =
     length (filter (\<lambda>e. case e of CreateTopic n _ (Some _) \<Rightarrow> n = name | _ \<Rightarrow> False) evs)"

lemma topics_created_simps [simp]:
  "topics_created name [] = 0"
  "topics_created name (evs @ evs') = topics_created name evs + topics_created name evs'"
  by (simp_all add: topics_created_def)

lemma CreateTopicChannel_counts:
  "CreateTopicChannel ty n a f = (ch, f', evs) \<Longrightarrow>
   topics_created name evs + of_bool (GetTopic name f \<noteq> None) = of_bool (GetTopic name f' \<noteq> None)
   \<and> (\<forall>t. GetTopic name f = Some t \<longrightarrow> GetTopic name f' = Some t)"
  by (auto simp: CreateTopicChannel_def GetTopic_def topics_created_def Let_def split: option.splits if_splits)

lemma CreateTopicChannel_topic:
  "CreateTopicChannel ty n a f = (Some c, f', evs) \<Longrightarrow> tc_topic c = GetTopic n f' \<and> GetTopic n f' \<noteq> None"
  by (auto simp: CreateTopicChannel_def GetTopic_def SetTopic_def Let_def split: option.splits)

lemma create_channels_counts:
  fixes chs :: "('m, 'h) DdsTopicChannel option list"
  assumes "create_channels reqs f = (chs, f', evs)"
  shows "topics_created name evs + of_bool (GetTopic name f \<noteq> None) = of_bool (GetTopic name f' \<noteq> None)
   \<and> (\<forall>t. GetTopic name f = Some t \<longrightarrow> GetTopic name f' = Some t)"
  using assms
proof (induction reqs arbitrary: f chs f' evs)
  case (Cons r reqs)
  obtain ty n a where r: "r = (ty, n, a)" by (cases r)
  obtain ch :: "('m, 'h) DdsTopicChannel option" and f1 evs1
    where c: "CreateTopicChannel ty n a f = (ch, f1, evs1)" by (metis prod_cases3)
  obtain chs2 :: "('m, 'h) DdsTopicChannel option list" and f2 evs2
    where c2: "create_channels reqs f1 = (chs2, f2, evs2)" by (metis prod_cases3)
  show ?case
    using CreateTopicChannel_counts [OF c, of name] Cons.IH [OF c2] c c2 Cons.prems
    by (auto simp: r)
qed simp

subsection \<open>Properties\<close>

text \<open>
  C7. Whatever sequence of \<open>SetTopic\<close>, \<open>SetWriter\<close>, \<open>SetReader\<close>, \<open>CloseWriter\<close>, \<open>CloseReader\<close> and
  \<open>Write\<close> calls a fresh \<open>DdsTopicChannel\<close> sees, with any answers of Fast DDS, once its destructor has
  run every writer and reader that was created for it has been deleted, exactly once and by the
  publisher or subscriber that created it.
\<close>

theorem channel_never_leaks:
  "let (c, evs) = channel_run as (DdsTopicChannel_init :: ('m, 'h) DdsTopicChannel)
   in deleted (evs @ DestroyChannel c) = created (evs @ DestroyChannel c)"
  using channel_runs.op_balance [of "DdsTopicChannel_init :: ('m, 'h) DdsTopicChannel" as]
  by (simp add: DestroyChannel_deletes channel_ok_init case_prod_beta Let_def ac_simps)

text \<open>
  A \<open>ChannelPublisher\<close> that is initialised, written to and closed in any order and any number of
  times has, after its last \<open>CloseChannel\<close>, deleted exactly the writers created for it: a second
  \<open>InitChannel\<close> drops the channel of the first, a second \<open>CloseChannel\<close> does nothing.
\<close>

lemma publisher_never_leaks:
  "let evs = snd (run_ops (publisher_op ty) (as @ [UseClose]) (ChannelPublisher_new name reliable :: ('m, 'h) ChannelPublisher, factory))
   in deleted evs = created evs"
proof -
  let ?s = "(ChannelPublisher_new name reliable :: ('m, 'h) ChannelPublisher, factory)"
  have "publisher_ok ?s" "publisher_holds ?s = {#}"
    by (simp_all add: ChannelPublisher_new_def publisher_ok_def publisher_holds_def channel_opt_ok_def held_opt_def)
  then show ?thesis
    using publisher_runs.leak_free [OF _ publisher_closed_holds_nothing, of ?s ty as] by (simp add: Let_def)
qed

text \<open>
  The same for \<open>ChannelSubscriber\<close> and its readers, with or without a handler.
\<close>

lemma subscriber_never_leaks:
  "let evs = snd (run_ops (subscriber_op ty) (as @ [UseClose]) (ChannelSubscriber_new name h options :: ('m, 'h) ChannelSubscriber, factory))
   in deleted evs = created evs"
proof -
  let ?s = "(ChannelSubscriber_new name h options :: ('m, 'h) ChannelSubscriber, factory)"
  have "subscriber_ok ?s" "subscriber_holds ?s = {#}"
    by (simp_all add: ChannelSubscriber_new_def subscriber_ok_def subscriber_holds_def channel_opt_ok_def held_opt_def)
  then show ?thesis
    using subscriber_runs.leak_free [OF _ subscriber_closed_holds_nothing, of ?s ty as] by (simp add: Let_def)
qed

text \<open>
  On a factory with an empty topic map, any sequence of channel creations creates each DDS topic at
  most once, and precisely when the map ends up with an entry for it: further channels of that name,
  whatever their message type, share the topic.
\<close>

lemma topic_created_once:
  "let (chs :: ('m, 'h) DdsTopicChannel option list, f', evs) = create_channels reqs
         \<lparr>fm_participant = p, fm_publisher = w, fm_subscriber = r, fm_topic_map = Map.empty\<rparr>
   in topics_created name evs = of_bool (GetTopic name f' \<noteq> None)"
proof -
  let ?f = "\<lparr>fm_participant = p, fm_publisher = w, fm_subscriber = r, fm_topic_map = Map.empty\<rparr>"
  obtain chs :: "('m, 'h) DdsTopicChannel option list" and f' evs where c: "create_channels reqs ?f = (chs, f', evs)"
    by (metis prod_cases3)
  show ?thesis using create_channels_counts [OF c, of name] by (simp add: c GetTopic_def)
qed

text \<open>
  \<open>DdsFactoryModel::CloseTopic\<close> deletes the topic but leaves it in \<open>topic_map_\<close>: a later channel of
  that name is built on the deleted topic and no topic is created for it.
\<close>

lemma closed_topic_is_reused:
  assumes "FactoryCloseTopic t f = Some (f', evs)" and "GetTopic name f = Some t"
  shows "evs = [DeleteTopic t] \<and>
    CreateTopicChannel ty name answer f' = (Some (SetTopic (Some t) DdsTopicChannel_init), f', [])"
  using assms by (auto simp: FactoryCloseTopic_def CreateTopicChannel_def GetTopic_def)

lemma closed_topic_is_reused_witness:
  "[DeleteTopic 7] = [DeleteTopic 7] \<and>
    CreateTopicChannel ''T'' ''rt/low_state'' (Some 8)
      \<lparr>fm_participant = Some 1, fm_publisher = Some 2, fm_subscriber = Some 3, fm_topic_map = [''rt/low_state'' \<mapsto> 7]\<rparr>
    = (Some (SetTopic (Some 7) DdsTopicChannel_init) :: (nat, nat) DdsTopicChannel option,
       \<lparr>fm_participant = Some 1, fm_publisher = Some 2, fm_subscriber = Some 3, fm_topic_map = [''rt/low_state'' \<mapsto> 7]\<rparr>, [])"
  by (rule closed_topic_is_reused [of 7
      "\<lparr>fm_participant = Some 1, fm_publisher = Some 2, fm_subscriber = Some 3, fm_topic_map = [''rt/low_state'' \<mapsto> 7]\<rparr>"])
    (simp_all add: FactoryCloseTopic_def GetTopic_def)

end
