(* ===== verification/Ieee_Round.thy ===== *)
theory Ieee_Round
  imports Sdk_Prelude
begin

text \<open>
  Finite IEEE 754 binary floating point as the code uses it.  A C++ \<open>float\<close> or \<open>double\<close> is the
  real number it stands for; an operation computes the exact real result and rounds it to the
  nearest representable value, ties to even.  \<open>f32\<close> and \<open>f64\<close> are these roundings (24 and 53 bits of
  precision, subnormals from exponents -126 and -1022 down); a real is a \<open>float\<close> value when \<open>f32\<close>
  fixes it.  Infinities, NaN and the sign of zero are not modelled: a rounded value whose magnitude
  exceeds the largest finite float stays a real here.
\<close>

definition rne :: "real \<Rightarrow> int" where
  "rne x = (let n = \<lfloor>x\<rfloor>; d = x - of_int n
            in if d < 1 / 2 then n else if 1 / 2 < d then n + 1
               else if even n then n else n + 1)"

definition fexp :: "int \<Rightarrow> real \<Rightarrow> int" where
  "fexp emin x = max emin \<lfloor>log 2 \<bar>x\<bar>\<rfloor>"

definition fl :: "nat \<Rightarrow> int \<Rightarrow> real \<Rightarrow> real" where
  "fl p emin x =
     (if x = 0 then 0
      else let u = 2 powr (of_int (fexp emin x) - (real p - 1)) in u * of_int (rne (x / u)))"

definition f32 :: "real \<Rightarrow> real" where
  "f32 x = fl 24 (- 126) x"

definition f64 :: "real \<Rightarrow> real" where
  "f64 x = fl 53 (- 1022) x"

lemma rne_of_int [simp]: "rne (of_int n) = n"
  by (simp add: rne_def)

lemma rne_le: "x \<le> of_int n \<Longrightarrow> rne x \<le> n"
proof -
  assume le: "x \<le> of_int n"
  show "rne x \<le> n"
  proof (cases "x = of_int n")
    case True
    then show ?thesis by simp
  next
    case False
    with le have "\<lfloor>x\<rfloor> < n" by (simp add: floor_less_iff)
    then show ?thesis by (auto simp: rne_def Let_def)
  qed
qed

lemma rne_ge: "of_int n \<le> x \<Longrightarrow> n \<le> rne x"
proof -
  assume "of_int n \<le> x"
  then have "n \<le> \<lfloor>x\<rfloor>" by (simp add: le_floor_iff)
  then show "n \<le> rne x" by (auto simp: rne_def Let_def)
qed

lemma rne_mono: "x \<le> y \<Longrightarrow> rne x \<le> rne y"
proof -
  assume le: "x \<le> y"
  have fl_le: "\<lfloor>x\<rfloor> \<le> \<lfloor>y\<rfloor>" using le by (rule floor_mono)
  show "rne x \<le> rne y"
  proof (cases "\<lfloor>x\<rfloor> = \<lfloor>y\<rfloor>")
    case True
    then show ?thesis using le by (auto simp: rne_def Let_def)
  next
    case False
    with fl_le have lt: "\<lfloor>x\<rfloor> + 1 \<le> \<lfloor>y\<rfloor>" by simp
    have "rne x \<le> \<lfloor>x\<rfloor> + 1" by (rule rne_le) linarith
    also have "\<lfloor>x\<rfloor> + 1 \<le> rne y" using lt by (intro rne_ge) linarith
    finally show ?thesis .
  qed
qed

lemma fl_0 [simp]: "fl p emin 0 = 0"
  by (simp add: fl_def)

lemma f32_0 [simp, codec_simps]: "f32 0 = 0"
  by (simp add: f32_def)

lemma f64_0 [simp, codec_simps]: "f64 0 = 0"
  by (simp add: f64_def)

subsection \<open>Symmetry\<close>

lemma rne_minus: "rne (- x) = - rne x"
proof (cases "x = of_int \<lfloor>x\<rfloor>")
  case True
  then have "rne (- x) = rne (of_int (- \<lfloor>x\<rfloor>))" "rne x = rne (of_int \<lfloor>x\<rfloor>)" by simp_all
  then show ?thesis by (simp only: rne_of_int)
next
  case False
  then have "of_int \<lfloor>x\<rfloor> < x" using of_int_floor_le [of x] by linarith
  then have f: "\<lfloor>- x\<rfloor> = - \<lfloor>x\<rfloor> - 1" by (intro floor_unique) (simp_all, linarith)
  show ?thesis unfolding rne_def f Let_def by auto
qed

lemma fl_minus: "fl p emin (- x) = - fl p emin x"
  by (simp add: fl_def fexp_def rne_minus Let_def)

lemma f32_minus: "f32 (- x) = - f32 x"
  by (simp add: f32_def fl_minus)

subsection \<open>Exponents\<close>

lemma fexp_upper: "x \<noteq> 0 \<Longrightarrow> \<bar>x\<bar> < 2 powr (of_int (fexp emin x) + 1)"
proof -
  assume "x \<noteq> 0"
  have "log 2 \<bar>x\<bar> < of_int (fexp emin x) + 1" unfolding fexp_def by linarith
  then have "2 powr (log 2 \<bar>x\<bar>) < 2 powr (of_int (fexp emin x) + 1)" by (intro powr_less_mono) simp_all
  with \<open>x \<noteq> 0\<close> show ?thesis by simp
qed

lemma fexp_lower: "x \<noteq> 0 \<Longrightarrow> emin < fexp emin x \<Longrightarrow> 2 powr (of_int (fexp emin x)) \<le> \<bar>x\<bar>"
proof -
  assume x: "x \<noteq> 0" and "emin < fexp emin x"
  then have "of_int (fexp emin x) \<le> log 2 \<bar>x\<bar>" by (simp add: fexp_def)
  then have "2 powr (of_int (fexp emin x)) \<le> 2 powr (log 2 \<bar>x\<bar>)" by (intro powr_mono) simp_all
  with x show ?thesis by simp
qed

lemma fexp_mono: "x \<noteq> 0 \<Longrightarrow> \<bar>x\<bar> \<le> \<bar>y\<bar> \<Longrightarrow> fexp emin x \<le> fexp emin y"
proof -
  assume "x \<noteq> 0" and "\<bar>x\<bar> \<le> \<bar>y\<bar>"
  then have "log 2 \<bar>x\<bar> \<le> log 2 \<bar>y\<bar>" by simp
  then have "\<lfloor>log 2 \<bar>x\<bar>\<rfloor> \<le> \<lfloor>log 2 \<bar>y\<bar>\<rfloor>" by (rule floor_mono)
  then show ?thesis by (simp add: fexp_def)
qed

lemma fexp_less: "x \<noteq> 0 \<Longrightarrow> \<bar>x\<bar> < 2 powr (of_int k) \<Longrightarrow> emin < k \<Longrightarrow> fexp emin x < k"
proof -
  assume x: "x \<noteq> 0" and "\<bar>x\<bar> < 2 powr (of_int k)" and k: "emin < k"
  then have "log 2 \<bar>x\<bar> < log 2 (2 powr (of_int k))" by (subst log_less_cancel_iff) simp_all
  then have "\<lfloor>log 2 \<bar>x\<bar>\<rfloor> < k" by (simp add: floor_less_iff)
  with k show ?thesis by (simp add: fexp_def)
qed

lemma fexp_eq: "2 powr (of_int k) \<le> x \<Longrightarrow> x < 2 powr (of_int k + 1) \<Longrightarrow> emin \<le> k \<Longrightarrow> fexp emin x = k"
proof -
  assume l: "2 powr (of_int k) \<le> x" and u: "x < 2 powr (of_int k + 1)" and e: "emin \<le> k"
  have "(0 :: real) < 2 powr (of_int k)" by simp
  with l have pos: "0 < x" by linarith
  from l have "log 2 (2 powr (of_int k)) \<le> log 2 x" using pos by (subst log_le_cancel_iff) simp_all
  moreover from u have "log 2 x < log 2 (2 powr (of_int k + 1))" using pos by (subst log_less_cancel_iff) simp_all
  ultimately have "\<lfloor>log 2 x\<rfloor> = k" by (intro floor_unique) simp_all
  with pos e show ?thesis by (simp add: fexp_def)
qed

subsection \<open>Representable values and monotonicity\<close>

lemma fl_grid_strict:
  assumes "\<bar>m\<bar> < 2 ^ p" and "emin - (int p - 1) \<le> e" and "0 < p"
  shows "fl p emin (of_int m * 2 powr (of_int e)) = of_int m * 2 powr (of_int e)"
proof (cases "m = 0")
  case False
  let ?x = "of_int m * 2 powr (of_int e) :: real"
  have x0: "?x \<noteq> 0" using False by simp
  have "\<bar>real_of_int m\<bar> < 2 ^ p" using assms(1) by (metis of_int_abs of_int_less_iff of_int_numeral of_int_power)
  then have "\<bar>?x\<bar> < 2 powr (of_int (int p + e))"
    by (simp add: abs_mult powr_add powr_realpow)
  then have k: "fexp emin ?x < int p + e" using fexp_less [OF x0, of "int p + e" emin] assms(2) by simp
  define n where "n = nat (e - fexp emin ?x + int p - 1)"
  have n: "int n = e - fexp emin ?x + int p - 1" using k by (simp add: n_def)
  have rn: "of_int e - (of_int (fexp emin ?x) - (real p - 1)) = real n"
    using arg_cong [OF n, of real_of_int] by simp
  have "?x / 2 powr (of_int (fexp emin ?x) - (real p - 1))
      = of_int m * 2 powr (of_int e - (of_int (fexp emin ?x) - (real p - 1)))"
    by (simp only: powr_diff times_divide_eq_right)
  also have "\<dots> = of_int m * 2 powr (real n)" by (simp only: rn)
  also have "\<dots> = of_int (m * 2 ^ n)" by (simp add: powr_realpow)
  finally have q: "?x / 2 powr (of_int (fexp emin ?x) - (real p - 1)) = of_int (m * 2 ^ n)" .
  then have "fl p emin ?x = 2 powr (of_int (fexp emin ?x) - (real p - 1)) * of_int (m * 2 ^ n)"
    using x0 unfolding fl_def Let_def q rne_of_int by simp
  also have "\<dots> = 2 powr (of_int (fexp emin ?x) - (real p - 1))
      * (?x / 2 powr (of_int (fexp emin ?x) - (real p - 1)))" by (simp only: q)
  finally show ?thesis by simp
qed simp

lemma fl_grid:
  assumes "\<bar>m\<bar> \<le> 2 ^ p" and "emin - (int p - 1) \<le> e" and "0 < p"
  shows "fl p emin (of_int m * 2 powr (of_int e)) = of_int m * 2 powr (of_int e)"
proof (cases "\<bar>m\<bar> = 2 ^ p")
  case True
  define h where "h = sgn m * 2 ^ (p - 1)"
  have "m = sgn m * 2 ^ p" using True by (metis mult_sgn_abs)
  also have "\<dots> = 2 * h" using assms(3) by (cases p) (simp_all add: h_def)
  finally have m: "m = 2 * h" .
  have "(0 :: int) < 2 ^ p" by simp
  moreover have "2 * \<bar>h\<bar> = 2 ^ p" using True m by simp
  ultimately have "\<bar>h\<bar> < 2 ^ p" by linarith
  moreover have "of_int m * 2 powr (of_int e) = of_int h * 2 powr (of_int (e + 1) :: real)"
    by (simp add: m powr_add)
  ultimately show ?thesis using fl_grid_strict [of h p emin "e + 1"] assms by simp
qed (use fl_grid_strict assms in simp)

lemma fl_is_grid:
  assumes "0 < p"
  shows "\<exists>m e. fl p emin x = of_int m * 2 powr (of_int e) \<and> \<bar>m\<bar> \<le> 2 ^ p \<and> emin - (int p - 1) \<le> e"
proof (cases "x = 0")
  case True
  then show ?thesis by (intro exI [of _ 0] exI [of _ emin]) (use assms in simp)
next
  case False
  define e where "e = fexp emin x - (int p - 1)"
  define u where "u = 2 powr (of_int e :: real)"
  have u: "2 powr (of_int (fexp emin x) - (real p - 1)) = u" "0 < u" by (simp_all add: u_def e_def)
  have "\<bar>x\<bar> < 2 powr (of_int (fexp emin x) + 1)" using fexp_upper [OF False] .
  also have "of_int (fexp emin x) + 1 = real p + of_int e" by (simp add: e_def)
  also have "2 powr (real p + of_int e) = 2 ^ p * u" by (simp add: powr_add powr_realpow u_def)
  finally have "\<bar>x / u\<bar> \<le> 2 ^ p" using u(2) by (simp add: field_simps)
  then have "x / u \<le> 2 ^ p" "- (2 ^ p) \<le> x / u" by (simp_all only: abs_le_iff) linarith
  then have "x / u \<le> of_int (2 ^ p)" "of_int (- (2 ^ p)) \<le> x / u" by simp_all
  then have "rne (x / u) \<le> 2 ^ p" "- (2 ^ p) \<le> rne (x / u)" using rne_le rne_ge by blast+
  moreover have "fl p emin x = of_int (rne (x / u)) * 2 powr (of_int e)"
    using False by (simp add: fl_def Let_def u u_def)
  ultimately show ?thesis
    by (intro exI [of _ "rne (x / u)"] exI [of _ e]) (simp add: e_def fexp_def abs_le_iff)
qed

lemma fl_idem: "0 < p \<Longrightarrow> fl p emin (fl p emin x) = fl p emin x"
  using fl_is_grid [of p emin x] fl_grid by metis

lemma fl_nonneg: "0 \<le> x \<Longrightarrow> 0 \<le> fl p emin x"
proof (cases "x = 0")
  case False
  assume "0 \<le> x"
  then have "0 \<le> rne (x / 2 powr (of_int (fexp emin x) - (real p - 1)))" by (intro rne_ge) simp
  then show ?thesis using False by (simp add: fl_def Let_def)
qed simp

lemma fl_mono_pos:
  assumes "0 < x" and "x \<le> y" and "0 < p"
  shows "fl p emin x \<le> fl p emin y"
proof (cases "fexp emin x = fexp emin y")
  case True
  define u where "u = 2 powr (of_int (fexp emin y) - (real p - 1))"
  have u: "0 < u" by (simp add: u_def)
  have "rne (x / u) \<le> rne (y / u)" using assms u by (intro rne_mono divide_right_mono) simp_all
  then show ?thesis using assms u by (simp add: fl_def Let_def True flip: u_def)
next
  case False
  let ?kx = "fexp emin x" and ?ky = "fexp emin y"
  have less: "?kx < ?ky" using fexp_mono [of x y emin] False assms by simp
  have top: "fl p emin x \<le> 2 powr (of_int ?kx + 1)"
  proof -
    define u where "u = 2 powr (of_int ?kx - (real p - 1))"
    have u: "0 < u" by (simp add: u_def)
    have c: "2 powr (of_int ?kx + 1) = u * 2 ^ p" by (simp add: u_def powr_add powr_diff powr_realpow)
    have "x \<le> u * 2 ^ p" using fexp_upper [of x emin] assms c by simp
    then have "x / u \<le> of_int (2 ^ p)" using u by (simp add: field_simps)
    then have "rne (x / u) \<le> 2 ^ p" by (rule rne_le)
    then have "real_of_int (rne (x / u)) \<le> 2 ^ p" by (metis of_int_le_iff of_int_numeral of_int_power)
    then have "u * of_int (rne (x / u)) \<le> u * 2 ^ p" using u by simp
    then show ?thesis using assms c by (simp add: fl_def Let_def flip: u_def)
  qed
  have bot: "2 powr (of_int ?ky) \<le> fl p emin y"
  proof -
    define u where "u = 2 powr (of_int ?ky - (real p - 1))"
    have u: "0 < u" by (simp add: u_def)
    have c: "2 powr (of_int ?ky) = u * 2 ^ (p - 1)" using assms(3)
      by (cases p) (simp_all add: u_def powr_diff powr_realpow)
    have "emin < ?ky" using less by (simp add: fexp_def)
    then have "u * 2 ^ (p - 1) \<le> y" using fexp_lower [of y emin] assms c by simp
    then have "of_int (2 ^ (p - 1)) \<le> y / u" using u by (simp add: field_simps)
    then have "2 ^ (p - 1) \<le> rne (y / u)" by (rule rne_ge)
    then have "2 ^ (p - 1) \<le> real_of_int (rne (y / u))" by (metis of_int_le_iff of_int_numeral of_int_power)
    then have "u * 2 ^ (p - 1) \<le> u * of_int (rne (y / u))" using u by simp
    then show ?thesis using assms c by (simp add: fl_def Let_def flip: u_def)
  qed
  have "2 powr (of_int ?kx + 1) \<le> 2 powr (of_int ?ky :: real)" using less by (intro powr_mono) simp_all
  with top bot show ?thesis by linarith
qed

lemma fl_mono: "x \<le> y \<Longrightarrow> 0 < p \<Longrightarrow> fl p emin x \<le> fl p emin y"
proof -
  assume le: "x \<le> y" and p: "0 < p"
  consider "0 < x" | "x \<le> 0" "0 \<le> y" | "y < 0" by linarith
  then show ?thesis
  proof cases
    case 2
    then have "0 \<le> fl p emin (- x)" "0 \<le> fl p emin y" by (simp_all add: fl_nonneg)
    then show ?thesis by (simp add: fl_minus)
  next
    case 3
    then have "fl p emin (- y) \<le> fl p emin (- x)" using le p by (intro fl_mono_pos) simp_all
    then show ?thesis by (simp add: fl_minus)
  qed (use fl_mono_pos le p in blast)
qed

lemma rne_error: "\<bar>of_int (rne x) - x\<bar> \<le> 1 / 2"
  unfolding rne_def Let_def using of_int_floor_le [of x] real_of_int_floor_add_one_gt [of x]
  by (simp add: abs_if) linarith

text \<open>Rounding a magnitude below \<open>2 ^ k\<close> errs by at most half a unit in the last place of that range.\<close>

lemma fl_error:
  assumes "\<bar>x\<bar> < 2 powr (of_int k)" and "emin < k"
  shows "\<bar>fl p emin x - x\<bar> \<le> 2 powr (of_int k - real p) / 2"
proof (cases "x = 0")
  case False
  define u where "u = 2 powr (of_int (fexp emin x) - (real p - 1))"
  have u: "0 < u" by (simp add: u_def)
  have "fexp emin x < k" using fexp_less [OF False assms] .
  then have "u \<le> 2 powr (of_int k - real p)" unfolding u_def by (intro powr_mono) simp_all
  moreover have "fl p emin x = u * of_int (rne (x / u))" using False by (simp add: fl_def Let_def u_def)
  then have "fl p emin x - x = u * (of_int (rne (x / u)) - x / u)" using u by (simp add: field_simps)
  moreover have "\<bar>u * (of_int (rne (x / u)) - x / u)\<bar> \<le> u * (1 / 2)"
    unfolding abs_mult using rne_error [of "x / u"] u by (intro mult_mono) simp_all
  ultimately show ?thesis by simp
qed simp

subsection \<open>Single precision\<close>

lemma f32_mono: "x \<le> y \<Longrightarrow> f32 x \<le> f32 y"
  unfolding f32_def by (rule fl_mono) simp_all

lemma f32_idem [simp]: "f32 (f32 x) = f32 x"
  unfolding f32_def by (rule fl_idem) simp

lemma f32_nonneg: "0 \<le> x \<Longrightarrow> 0 \<le> f32 x"
  unfolding f32_def by (rule fl_nonneg)

lemma f32_nonpos: "x \<le> 0 \<Longrightarrow> f32 x \<le> 0"
  using f32_mono [of x 0] by simp

lemma f32_abs: "\<bar>f32 x\<bar> = f32 \<bar>x\<bar>"
  using f32_nonneg [of x] f32_nonpos [of x] by (auto simp: abs_if f32_minus)

lemma f32_dyadic: "\<bar>m\<bar> \<le> 2 ^ 24 \<Longrightarrow> n \<le> 149 \<Longrightarrow> f32 (of_int m / 2 ^ n) = of_int m / 2 ^ n"
  using fl_grid [of m 24 "- 126" "- int n"] by (simp add: f32_def powr_minus powr_realpow divide_inverse)

lemma f32_int: "\<bar>m\<bar> \<le> 2 ^ 24 \<Longrightarrow> f32 (of_int m) = of_int m"
  using f32_dyadic [of m 0] by simp

lemma f32_eval:
  assumes "2 powr (of_int k) \<le> x" and "x < 2 powr (of_int k + 1)" and "- 126 \<le> k"
  shows "f32 x = 2 powr (of_int k - 23) * of_int (rne (x / 2 powr (of_int k - 23)))"
proof -
  have "0 < (2 :: real) powr (of_int k)" by simp
  with assms(1) have "x \<noteq> 0" by linarith
  then show ?thesis using fexp_eq [OF assms] by (simp add: f32_def fl_def Let_def)
qed

lemma f32_pow2_bound: "\<bar>x\<bar> \<le> 2 ^ n \<Longrightarrow> \<bar>f32 x\<bar> \<le> 2 ^ n"
proof -
  have "f32 (2 ^ n) = 2 ^ n" using fl_grid [of 1 24 "- 126" "int n"] by (simp add: f32_def powr_realpow)
  then show "\<bar>x\<bar> \<le> 2 ^ n \<Longrightarrow> \<bar>f32 x\<bar> \<le> 2 ^ n" using f32_mono [of "\<bar>x\<bar>" "2 ^ n"] by (simp add: f32_abs)
qed

lemma f32_bound: "\<bar>x\<bar> \<le> b \<Longrightarrow> f32 b = b \<Longrightarrow> \<bar>f32 x\<bar> \<le> b"
  using f32_mono [of "\<bar>x\<bar>" b] by (simp add: f32_abs)

text \<open>The relative error of rounding a normal number, and the error of rounding any number.\<close>

lemma f32_rel_error:
  assumes min_normal: "1 / 2 ^ 126 \<le> x"
  shows "\<bar>f32 x - x\<bar> \<le> x / 2 ^ 24"
proof -
  have "2 powr (- 126) = (1 / 2 ^ 126 :: real)"
    using powr_realpow [of "2 :: real" 126] powr_minus_divide [of "2 :: real" 126] by (simp only: of_nat_numeral)
  then have assms: "2 powr (- 126) \<le> x" using min_normal by (simp only:)
  have "(0 :: real) < 2 powr (- 126)" by simp
  with assms have x: "0 < x" by linarith
  let ?k = "fexp (- 126) x"
  have lo: "2 powr (of_int ?k) \<le> x"
  proof (cases "- 126 < ?k")
    case True
    then show ?thesis using fexp_lower [of x "- 126"] x by simp
  next
    case False
    then have "?k = - 126" by (simp add: fexp_def)
    then show ?thesis using assms by simp
  qed
  have "\<bar>x\<bar> < 2 powr (of_int (?k + 1))" using fexp_upper [of x "- 126"] x by simp
  then have "\<bar>f32 x - x\<bar> \<le> 2 powr (of_int (?k + 1) - real 24) / 2"
    unfolding f32_def by (rule fl_error) (simp add: fexp_def)
  also have "\<dots> = 2 powr (of_int ?k) / 2 ^ 24"
    by (simp add: powr_add powr_diff powr_realpow)
  also have "\<dots> \<le> x / 2 ^ 24" using lo by (simp add: divide_right_mono)
  finally show ?thesis .
qed

lemma f32_rel: "1 / 2 ^ 126 \<le> x \<Longrightarrow> f32 x \<le> x * (1 + 1 / 2 ^ 24)"
proof -
  assume "1 / 2 ^ 126 \<le> x"
  from f32_rel_error [OF this] have "f32 x \<le> x + x / 2 ^ 24" by linarith
  then show ?thesis by (simp add: field_simps)
qed

lemma f32_error: "\<bar>f32 x - x\<bar> \<le> \<bar>x\<bar> / 2 ^ 24 + 1 / 2 ^ 150"
proof (cases "1 / 2 ^ 126 \<le> \<bar>x\<bar>")
  case True
  have "\<bar>f32 x - x\<bar> = \<bar>f32 \<bar>x\<bar> - \<bar>x\<bar>\<bar>" by (cases "0 \<le> x") (simp_all add: f32_minus)
  moreover have "(0 :: real) \<le> 1 / 2 ^ 150" by simp
  ultimately show ?thesis using f32_rel_error [OF True] by linarith
next
  case False
  have "2 powr (- 125) = 2 * (1 / 2 ^ 126 :: real)"
    using powr_realpow [of "2 :: real" 125] powr_minus_divide [of "2 :: real" 125] by simp
  then have "\<bar>x\<bar> < 2 powr (of_int (- 125))" using False by simp
  then have "\<bar>f32 x - x\<bar> \<le> 2 powr (of_int (- 125) - real 24) / 2" unfolding f32_def by (rule fl_error) simp
  also have "\<dots> = 1 / 2 ^ 150"
    using powr_realpow [of "2 :: real" 149] powr_minus_divide [of "2 :: real" 149] by simp
  finally show ?thesis by (rule order_trans) simp
qed

end
