(* ===== verification/Json_Value.thy ===== *)
theory Json_Value
  imports Ieee_Round
begin

text \<open>
  JSON values as the SDK uses them through \<open>nlohmann::json\<close>
  (\<open>third_party/nlohmann_json/json.hpp\<close>): the value type, the reading operations
  (\<open>operator[]\<close>, \<open>at\<close>, \<open>contains\<close>, \<open>value\<close>, iteration), the conversions \<open>get<T>\<close> with the exceptions
  they throw, and the objects that a sequence of \<open>json[key] = value\<close> assignments builds.

  \<open>number_integer_t\<close> is \<open>JInt\<close>, \<open>number_unsigned_t\<close> is \<open>JUInt\<close> (both 64 bits wide) and
  \<open>number_float_t\<close> is \<open>JFloat\<close>.  An object is the ascending association list of its \<open>std::map\<close>.
  Reading a missing key with the non-const \<open>operator[]\<close> yields null; that the read also stores this
  null into the caller's scratch document is not tracked, since no caller reads the document again.
\<close>

datatype json =
    JNull
  | JBool bool
  | JInt i64
  | JUInt u64
  | JFloat real
  | JStr string
  | JArr "json list"
  | JObj "(string \<times> json) list"

text \<open>
  The exceptions: \<open>TypeError n\<close> is \<open>type_error\<close> with its id, \<open>OutOfRange\<close> is \<open>out_of_range.403\<close>,
  \<open>ParseError\<close> is \<open>parse_error\<close>, \<open>RuntimeError\<close> a \<open>std::runtime_error\<close> thrown by a parameter class.
  \<open>CastUndefined\<close> marks a conversion of a floating value that the integer type cannot hold, which
  C++ leaves undefined.
\<close>

datatype json_error = TypeError nat | OutOfRange | ParseError | RuntimeError string | CastUndefined

subsection \<open>Building objects\<close>

text \<open>
  \<open>nlohmann::json json; json[k1] = v1; json[k2] = v2; ...\<close>: the first assignment turns null into an
  object, later ones insert or overwrite.  A braced list of pairs builds the same object.
\<close>

definition obj_of :: "(string \<times> json) list \<Rightarrow> (string \<times> json) list" where
  "obj_of kvs = fold (\<lambda>(k, v). ins_sorted k v) kvs []"

definition jobj :: "(string \<times> json) list \<Rightarrow> json" where
  "jobj kvs = (if kvs = [] then JNull else JObj (obj_of kvs))"

lemma map_of_fold_ins:
  "map_of (fold (\<lambda>(k, v). ins_sorted k v) kvs m) = map_of m ++ map_of (rev kvs)"
  by (induction kvs arbitrary: m) (auto simp: map_of_ins_sorted)

lemma map_of_obj_of: "map_of (obj_of kvs) = map_of (rev kvs)"
  by (simp add: obj_of_def map_of_fold_ins)

lemma sorted_obj_of: "sorted_wrt (<) (map fst (obj_of kvs))"
proof -
  have "sorted_wrt (<) (map fst m) \<Longrightarrow>
    sorted_wrt (<) (map fst (fold (\<lambda>(k, v). ins_sorted k v) kvs m))" for m :: "(string \<times> json) list"
    by (induction kvs arbitrary: m) (auto simp: sorted_ins_sorted)
  then show ?thesis by (simp add: obj_of_def)
qed

subsection \<open>Reading\<close>

definition is_object :: "json \<Rightarrow> bool" where
  "is_object j = (case j of JObj _ \<Rightarrow> True | _ \<Rightarrow> False)"

definition is_array :: "json \<Rightarrow> bool" where
  "is_array j = (case j of JArr _ \<Rightarrow> True | _ \<Rightarrow> False)"

definition is_null :: "json \<Rightarrow> bool" where
  "is_null j = (j = JNull)"

definition jfind :: "json \<Rightarrow> string \<Rightarrow> json option" where
  "jfind j k = (case j of JObj m \<Rightarrow> map_of m k | _ \<Rightarrow> None)"

definition contains :: "json \<Rightarrow> string \<Rightarrow> bool" where
  "contains j k = (jfind j k \<noteq> None)"

definition jidx :: "json \<Rightarrow> string \<Rightarrow> json_error + json" where
  "jidx j k = (case j of
      JObj m \<Rightarrow> Inr (case map_of m k of None \<Rightarrow> JNull | Some v \<Rightarrow> v)
    | JNull \<Rightarrow> Inr JNull
    | _ \<Rightarrow> Inl (TypeError 305))"

definition jat :: "json \<Rightarrow> string \<Rightarrow> json_error + json" where
  "jat j k = (case j of
      JObj m \<Rightarrow> (case map_of m k of None \<Rightarrow> Inl OutOfRange | Some v \<Rightarrow> Inr v)
    | _ \<Rightarrow> Inl (TypeError 304))"

definition jvalue :: "(json \<Rightarrow> json_error + 'a) \<Rightarrow> json \<Rightarrow> string \<Rightarrow> 'a \<Rightarrow> json_error + 'a" where
  "jvalue get j k d = (case j of
      JObj m \<Rightarrow> (case map_of m k of None \<Rightarrow> Inr d | Some v \<Rightarrow> get v)
    | _ \<Rightarrow> Inl (TypeError 306))"

text \<open>Range-\<open>for\<close> over a value: elements, member values, nothing for null, else the value itself.\<close>

definition jiter :: "json \<Rightarrow> json list" where
  "jiter j = (case j of JArr xs \<Rightarrow> xs | JObj m \<Rightarrow> map snd m | JNull \<Rightarrow> [] | _ \<Rightarrow> [j])"

subsection \<open>Conversions\<close>

definition trunc :: "real \<Rightarrow> int" where
  "trunc r = (if 0 \<le> r then \<lfloor>r\<rfloor> else \<lceil>r\<rceil>)"

definition cast_signed :: "real \<Rightarrow> json_error + 'w::len word" where
  "cast_signed r =
     (if - (2 ^ (LENGTH('w) - 1)) \<le> trunc r \<and> trunc r < 2 ^ (LENGTH('w) - 1)
      then Inr (word_of_int (trunc r)) else Inl CastUndefined)"

definition cast_unsigned :: "real \<Rightarrow> json_error + 'w::len word" where
  "cast_unsigned r =
     (if 0 \<le> trunc r \<and> trunc r < 2 ^ LENGTH('w)
      then Inr (word_of_int (trunc r)) else Inl CastUndefined)"

text \<open>\<open>get<int32_t>\<close>: any number or boolean, an integer truncated to its low bits.\<close>

definition get_i32 :: "json \<Rightarrow> json_error + i32" where
  "get_i32 j = (case j of
      JUInt w \<Rightarrow> Inr (ucast w) | JInt w \<Rightarrow> Inr (ucast w) | JFloat r \<Rightarrow> cast_signed r
    | JBool b \<Rightarrow> Inr (of_bool b) | _ \<Rightarrow> Inl (TypeError 302))"

text \<open>\<open>get<E>\<close> of an enumeration over \<open>int\<close>: numbers only, no boolean.\<close>

definition get_enum :: "json \<Rightarrow> json_error + i32" where
  "get_enum j = (case j of
      JUInt w \<Rightarrow> Inr (ucast w) | JInt w \<Rightarrow> Inr (ucast w) | JFloat r \<Rightarrow> cast_signed r
    | _ \<Rightarrow> Inl (TypeError 302))"

text \<open>
  \<open>get<E>\<close> of an unscoped enumeration with non-negative enumerators: its underlying type is
  \<open>unsigned int\<close>, which matters for floating values only.
\<close>

definition get_uenum :: "json \<Rightarrow> json_error + i32" where
  "get_uenum j = (case j of
      JUInt w \<Rightarrow> Inr (ucast w) | JInt w \<Rightarrow> Inr (ucast w) | JFloat r \<Rightarrow> cast_unsigned r
    | _ \<Rightarrow> Inl (TypeError 302))"

text \<open>\<open>get<int64_t>\<close>: this is \<open>number_integer_t\<close> itself, numbers only.\<close>

definition get_i64 :: "json \<Rightarrow> json_error + i64" where
  "get_i64 j = (case j of
      JUInt w \<Rightarrow> Inr w | JInt w \<Rightarrow> Inr w | JFloat r \<Rightarrow> cast_signed r
    | _ \<Rightarrow> Inl (TypeError 302))"

definition get_u8 :: "json \<Rightarrow> json_error + u8" where
  "get_u8 j = (case j of
      JUInt w \<Rightarrow> Inr (ucast w) | JInt w \<Rightarrow> Inr (ucast w) | JFloat r \<Rightarrow> cast_unsigned r
    | JBool b \<Rightarrow> Inr (of_bool b) | _ \<Rightarrow> Inl (TypeError 302))"

text \<open>\<open>get<double>\<close> and \<open>get<float>\<close>: an integer is rounded, a double narrows to a float by rounding.\<close>

definition get_double :: "json \<Rightarrow> json_error + real" where
  "get_double j = (case j of
      JUInt w \<Rightarrow> Inr (f64 (of_int (uint w))) | JInt w \<Rightarrow> Inr (f64 (of_int (sint w)))
    | JFloat r \<Rightarrow> Inr r | _ \<Rightarrow> Inl (TypeError 302))"

definition get_float :: "json \<Rightarrow> json_error + real" where
  "get_float j = (case j of
      JUInt w \<Rightarrow> Inr (f32 (of_int (uint w))) | JInt w \<Rightarrow> Inr (f32 (of_int (sint w)))
    | JFloat r \<Rightarrow> Inr (f32 r) | JBool b \<Rightarrow> Inr (of_bool b) | _ \<Rightarrow> Inl (TypeError 302))"

definition get_bool :: "json \<Rightarrow> json_error + bool" where
  "get_bool j = (case j of JBool b \<Rightarrow> Inr b | _ \<Rightarrow> Inl (TypeError 302))"

definition get_str :: "json \<Rightarrow> json_error + string" where
  "get_str j = (case j of JStr s \<Rightarrow> Inr s | _ \<Rightarrow> Inl (TypeError 302))"

definition get_vec :: "(json \<Rightarrow> json_error + 'a) \<Rightarrow> json \<Rightarrow> json_error + 'a list" where
  "get_vec get j = (case j of JArr xs \<Rightarrow> smap get xs | _ \<Rightarrow> Inl (TypeError 302))"

text \<open>\<open>x_ = json[key]\<close> and \<open>json.at(key).get<T>()\<close>.\<close>

definition fld :: "(json \<Rightarrow> json_error + 'a) \<Rightarrow> json \<Rightarrow> string \<Rightarrow> json_error + 'a" where
  "fld get j k = sbind (jidx j k) get"

definition fld_at :: "(json \<Rightarrow> json_error + 'a) \<Rightarrow> json \<Rightarrow> string \<Rightarrow> json_error + 'a" where
  "fld_at get j k = sbind (jat j k) get"

text \<open>\<open>if (json.contains(key)) x_ = ...\<close>: a missing key leaves the member as it is.\<close>

definition fld_opt :: "(json \<Rightarrow> json_error + 'a) \<Rightarrow> json \<Rightarrow> string \<Rightarrow> 'a \<Rightarrow> json_error + 'a" where
  "fld_opt get j k d = (case jfind j k of None \<Rightarrow> Inr d | Some v \<Rightarrow> get v)"

text \<open>\<open>if (json.contains(key) && !json[key].is_null()) x_ = ...\<close>.\<close>

definition fld_opt_nn :: "(json \<Rightarrow> json_error + 'a) \<Rightarrow> json \<Rightarrow> string \<Rightarrow> 'a \<Rightarrow> json_error + 'a" where
  "fld_opt_nn get j k d =
     (case jfind j k of None \<Rightarrow> Inr d | Some v \<Rightarrow> if is_null v then Inr d else get v)"

subsection \<open>Encoders of scalars\<close>

definition j_i32 :: "i32 \<Rightarrow> json" where
  "j_i32 w = JInt (scast w)"

definition j_u8 :: "u8 \<Rightarrow> json" where
  "j_u8 w = JUInt (ucast w)"

definition j_vec :: "('a \<Rightarrow> json) \<Rightarrow> 'a list \<Rightarrow> json" where
  "j_vec enc xs = JArr (map enc xs)"

subsection \<open>The wire\<close>

text \<open>
  What \<open>json::parse(json.dump())\<close> does to a value of this model: a non-negative
  \<open>number_integer_t\<close> prints as plain digits and is read back as \<open>number_unsigned_t\<close>.
  (Strings are assumed to be valid UTF-8, which \<open>dump\<close> requires.)
\<close>

fun jwire :: "json \<Rightarrow> json" where
  "jwire (JInt w) = (if 0 \<le> sint w then JUInt w else JInt w)"
| "jwire (JArr xs) = JArr (map jwire xs)"
| "jwire (JObj m) = JObj (map (\<lambda>(k, v). (k, jwire v)) m)"
| "jwire j = j"

lemma jwire_idem [simp]: "jwire (jwire j) = jwire j"
proof (induction j rule: jwire.induct)
  case (3 m)
  then show ?case by (auto intro!: list.map_cong simp: comp_def)
qed auto

text \<open>
  \<open>catch (const nlohmann::json::exception &e) { throw std::runtime_error(what + e.what()); }\<close>; of the
  message only the prefix is kept.
\<close>

definition rethrow :: "string \<Rightarrow> json_error + 'a \<Rightarrow> json_error + 'a" where
  "rethrow what m = (case m of
      Inl (TypeError _) \<Rightarrow> Inl (RuntimeError what)
    | Inl OutOfRange \<Rightarrow> Inl (RuntimeError what)
    | Inl ParseError \<Rightarrow> Inl (RuntimeError what)
    | _ \<Rightarrow> m)"

lemma rethrow_simps [simp, codec_simps]:
  "rethrow what (Inr a) = Inr a"
  "rethrow what (Inl (TypeError n)) = Inl (RuntimeError what)"
  "rethrow what (Inl OutOfRange) = Inl (RuntimeError what)"
  by (simp_all add: rethrow_def)

end
