(* ===== verification/Json_Codec.thy ===== *)
theory Json_Codec
  imports Json_Value
begin

text \<open>
  The contract of a parameter class: \<open>FromJson\<close> recovers what \<open>ToJson\<close> wrote, and cannot tell a
  document from its copy read back off the wire.  The locale \<open>json_codec\<close> states it for one class;
  its lemmas (an encoding determines the object, an object survives the wire, a list of objects
  survives inside an array) are used through the interpretations the API theories give.  The
  equations before it evaluate encoders and decoders and form the collection \<open>codec_simps\<close>.
\<close>

subsection \<open>Evaluation of readers on built objects\<close>

lemma jfind_jobj [codec_simps]: "jfind (jobj kvs) k = map_of (rev kvs) k"
  by (cases "kvs = []") (simp_all add: jfind_def jobj_def map_of_obj_of)

lemma jidx_jobj [codec_simps]:
  "jidx (jobj kvs) k = Inr (case map_of (rev kvs) k of None \<Rightarrow> JNull | Some v \<Rightarrow> v)"
  by (cases "kvs = []") (simp_all add: jidx_def jobj_def map_of_obj_of)

lemma jat_jobj [codec_simps]:
  "jat (jobj (kv # kvs)) k =
     (case map_of (rev (kv # kvs)) k of None \<Rightarrow> Inl OutOfRange | Some v \<Rightarrow> Inr v)"
  by (simp add: jat_def jobj_def map_of_obj_of del: rev.simps)

lemma jvalue_jobj [codec_simps]:
  "jvalue get (jobj (kv # kvs)) k d =
     (case map_of (rev (kv # kvs)) k of None \<Rightarrow> Inr d | Some v \<Rightarrow> get v)"
  by (simp add: jvalue_def jobj_def map_of_obj_of del: rev.simps)

lemma contains_jobj [codec_simps]: "contains (jobj kvs) k \<longleftrightarrow> map_of (rev kvs) k \<noteq> None"
  by (simp add: contains_def jfind_jobj)

lemma fld_jobj [codec_simps]:
  "fld get (jobj kvs) k = get (case map_of (rev kvs) k of None \<Rightarrow> JNull | Some v \<Rightarrow> v)"
  by (simp add: fld_def jidx_jobj)

lemma fld_at_jobj [codec_simps]:
  "fld_at get (jobj (kv # kvs)) k =
     (case map_of (rev (kv # kvs)) k of None \<Rightarrow> Inl OutOfRange | Some v \<Rightarrow> get v)"
  by (simp add: fld_at_def jat_jobj del: rev.simps split: option.split)

lemma fld_opt_jobj [codec_simps]:
  "fld_opt get (jobj kvs) k d = (case map_of (rev kvs) k of None \<Rightarrow> Inr d | Some v \<Rightarrow> get v)"
  by (simp add: fld_opt_def jfind_jobj)

lemma fld_opt_nn_jobj [codec_simps]:
  "fld_opt_nn get (jobj kvs) k d =
     (case map_of (rev kvs) k of None \<Rightarrow> Inr d | Some v \<Rightarrow> if v = JNull then Inr d else get v)"
  by (simp add: fld_opt_nn_def jfind_jobj is_null_def split: option.split)

declare is_null_def [codec_simps]

subsection \<open>Conversions undo the scalar encoders\<close>

lemma ucast_scast_i32 [simp]: "(ucast (scast (w :: i32) :: i64) :: i32) = w"
  by (rule bit_word_eqI) (auto simp add: bit_simps)

lemma ucast_ucast_u8 [simp]: "(ucast (ucast (w :: u8) :: u64) :: u8) = w"
  by (rule bit_word_eqI) (auto simp add: bit_simps)

lemma get_i32_enc [codec_simps]: "get_i32 (j_i32 w) = Inr w"
  by (simp add: get_i32_def j_i32_def)

lemma get_enum_enc [codec_simps]: "get_enum (j_i32 w) = Inr w"
  by (simp add: get_enum_def j_i32_def)

lemma get_uenum_enc [codec_simps]: "get_uenum (j_i32 w) = Inr w"
  by (simp add: get_uenum_def j_i32_def)

lemma get_i64_enc [codec_simps]: "get_i64 (JInt w) = Inr w"
  by (simp add: get_i64_def)

lemma get_u8_enc [codec_simps]: "get_u8 (j_u8 w) = Inr w"
  by (simp add: get_u8_def j_u8_def)

lemma get_bool_enc [codec_simps]: "get_bool (JBool b) = Inr b"
  by (simp add: get_bool_def)

lemma get_str_enc [codec_simps]: "get_str (JStr s) = Inr s"
  by (simp add: get_str_def)

lemma get_double_enc [codec_simps]: "get_double (JFloat r) = Inr r"
  by (simp add: get_double_def)

lemma get_float_enc [codec_simps]: "get_float (JFloat r) = Inr (f32 r)"
  by (simp add: get_float_def)

lemma get_vec_enc:
  "(\<And>x. x \<in> set xs \<Longrightarrow> get (enc x) = Inr x) \<Longrightarrow> get_vec get (j_vec enc xs) = Inr xs"
  using smap_all_Inr [of xs "\<lambda>x. get (enc x)" "\<lambda>x. x"]
  by (simp add: get_vec_def j_vec_def smap_map)

lemma get_vec_double_enc [codec_simps]: "get_vec get_double (j_vec JFloat xs) = Inr xs"
  by (rule get_vec_enc) (simp add: codec_simps)

lemma get_vec_str_enc [codec_simps]: "get_vec get_str (j_vec JStr xs) = Inr xs"
  by (rule get_vec_enc) (simp add: codec_simps)

lemma get_vec_i32_enc [codec_simps]: "get_vec get_i32 (j_vec j_i32 xs) = Inr xs"
  by (rule get_vec_enc) (simp add: codec_simps)

lemma get_vec_float_enc: "\<forall>x \<in> set xs. f32 x = x \<Longrightarrow> get_vec get_float (j_vec JFloat xs) = Inr xs"
  by (rule get_vec_enc) (simp add: codec_simps)

lemma jiter_vec [codec_simps]: "jiter (j_vec enc xs) = map enc xs"
  by (simp add: jiter_def j_vec_def)

lemma scalars_not_null [simp, codec_simps]:
  "j_i32 w \<noteq> JNull" "j_u8 b \<noteq> JNull" "j_vec enc xs \<noteq> JNull"
  by (simp_all add: j_i32_def j_u8_def j_vec_def)

lemma is_array_vec [codec_simps]: "is_array (j_vec enc xs)"
  by (simp add: is_array_def j_vec_def)

lemma jiter_null [codec_simps]: "jiter JNull = []"
  by (simp add: jiter_def)

lemma smap_Inr [codec_simps]: "smap Inr xs = Inr xs"
  by (induction xs) auto

declare smap_map [codec_simps]

subsection \<open>Readers do not see the wire\<close>

named_theorems wire_simps "readers give the same result on a document read back off the wire"

lemma uint_eq_sint: "0 \<le> sint (w :: 'a::len word) \<Longrightarrow> uint w = sint w"
proof -
  assume nonneg: "0 \<le> sint w"
  have "sint w < 2 ^ (LENGTH('a) - 1)" by (rule sint_lt)
  also have "\<dots> \<le> (2 :: int) ^ LENGTH('a)" by (rule power_increasing) simp_all
  finally show "uint w = sint w"
    using nonneg by (simp add: uint_sint take_bit_int_eq_self)
qed

lemma map_of_map_snd: "map_of (map (\<lambda>(k, v). (k, f v)) m) k = map_option f (map_of m k)"
  by (induction m) auto

lemma jfind_wire [wire_simps]: "jfind (jwire j) k = map_option jwire (jfind j k)"
  by (cases j) (simp_all add: jfind_def map_of_map_snd)

lemma contains_wire [wire_simps]: "contains (jwire j) k = contains j k"
  by (simp add: contains_def jfind_wire)

lemma is_null_wire [wire_simps]: "is_null (jwire j) = is_null j"
  by (cases j) (simp_all add: is_null_def)

lemma is_array_wire [wire_simps]: "is_array (jwire j) = is_array j"
  by (cases j) (simp_all add: is_array_def)

lemma is_object_wire [wire_simps]: "is_object (jwire j) = is_object j"
  by (cases j) (simp_all add: is_object_def)

lemma jidx_wire: "jidx (jwire j) k = map_sum id jwire (jidx j k)"
  by (cases j) (simp_all add: jidx_def map_of_map_snd split: option.split)

lemma jat_wire: "jat (jwire j) k = map_sum id jwire (jat j k)"
  by (cases j) (simp_all add: jat_def map_of_map_snd split: option.split)

lemma jiter_wire [wire_simps]: "jiter (jwire j) = map jwire (jiter j)"
  by (cases j) (auto simp: jiter_def)

lemma get_wire [wire_simps]:
  "get_i32 (jwire j) = get_i32 j" "get_enum (jwire j) = get_enum j"
  "get_uenum (jwire j) = get_uenum j" "get_i64 (jwire j) = get_i64 j"
  "get_u8 (jwire j) = get_u8 j" "get_bool (jwire j) = get_bool j" "get_str (jwire j) = get_str j"
  "get_double (jwire j) = get_double j" "get_float (jwire j) = get_float j"
  by (cases j; simp add: get_i32_def get_enum_def get_uenum_def get_i64_def get_u8_def
      get_bool_def get_str_def
      get_double_def get_float_def uint_eq_sint)+

lemma sbind_map_sum: "sbind (map_sum id f m) g = sbind m (\<lambda>x. g (f x))"
  by (cases m) simp_all

lemma fld_wire [wire_simps]: "(\<And>v. get (jwire v) = get v) \<Longrightarrow> fld get (jwire j) k = fld get j k"
  by (simp add: fld_def jidx_wire sbind_map_sum)

lemma fld_at_wire [wire_simps]:
  "(\<And>v. get (jwire v) = get v) \<Longrightarrow> fld_at get (jwire j) k = fld_at get j k"
  by (simp add: fld_at_def jat_wire sbind_map_sum)

lemma fld_opt_wire [wire_simps]:
  "(\<And>v. get (jwire v) = get v) \<Longrightarrow> fld_opt get (jwire j) k d = fld_opt get j k d"
  by (simp add: fld_opt_def jfind_wire split: option.split)

lemma fld_opt_nn_wire [wire_simps]:
  "(\<And>v. get (jwire v) = get v) \<Longrightarrow> fld_opt_nn get (jwire j) k d = fld_opt_nn get j k d"
  by (simp add: fld_opt_nn_def jfind_wire is_null_wire split: option.split)

lemma jvalue_wire [wire_simps]:
  "(\<And>v. get (jwire v) = get v) \<Longrightarrow> jvalue get (jwire j) k d = jvalue get j k d"
  by (cases j) (simp_all add: jvalue_def map_of_map_snd split: option.split)

lemma get_vec_wire [wire_simps]:
  "(\<And>v. get (jwire v) = get v) \<Longrightarrow> get_vec get (jwire j) = get_vec get j"
  by (cases j) (simp_all add: get_vec_def smap_map)

lemma smap_wire [wire_simps]:
  "(\<And>v. get (jwire v) = get v) \<Longrightarrow> smap get (map jwire xs) = smap get xs"
  by (simp add: smap_map)

subsection \<open>The contract of a parameter class\<close>

locale json_codec =
  fixes to_json :: "'a \<Rightarrow> json"
    and from_json :: "json \<Rightarrow> 'a \<Rightarrow> json_error + 'a"
    and valid :: "'a \<Rightarrow> bool"
    and fresh :: "'a \<Rightarrow> bool"
  assumes roundtrip: "valid x \<Longrightarrow> fresh x0 \<Longrightarrow> from_json (to_json x) x0 = Inr x"
    and wire_blind: "from_json (jwire j) x0 = from_json j x0"
begin

lemma wire_roundtrip: "valid x \<Longrightarrow> fresh x0 \<Longrightarrow> from_json (jwire (to_json x)) x0 = Inr x"
  by (simp add: wire_blind roundtrip)

lemma to_json_inj: "valid x \<Longrightarrow> valid y \<Longrightarrow> fresh x0 \<Longrightarrow> jwire (to_json x) = jwire (to_json y) \<Longrightarrow> x = y"
  by (metis wire_roundtrip Inr_inject)

lemma list_roundtrip:
  assumes "\<forall>x \<in> set xs. valid x" and "fresh x0"
  shows "smap (\<lambda>j. from_json j x0) (jiter (j_vec to_json xs)) = Inr xs"
proof -
  have "smap (\<lambda>x. from_json (to_json x) x0) xs = Inr (map (\<lambda>x. x) xs)"
    by (rule smap_all_Inr) (use assms roundtrip in auto)
  then show ?thesis by (simp add: jiter_def j_vec_def smap_map)
qed

lemma list_wire_roundtrip:
  assumes "\<forall>x \<in> set xs. valid x" and "fresh x0"
  shows "smap (\<lambda>j. from_json j x0) (jiter (jwire (j_vec to_json xs))) = Inr xs"
  using list_roundtrip [OF assms] by (simp add: jiter_wire smap_map wire_blind)

end

end
