(* ===== verification/Robot_Types.thy ===== *)
theory Robot_Types
  imports Json_Codec
begin

text \<open>
  Types shared by the robot services: the enumerations of \<open>robot/common/robot_shared.hpp\<close> and
  \<open>robot/b1/b1_api_const.hpp\<close> with their values, and the geometric entities of
  \<open>robot/common/entities.hpp\<close> with their JSON codecs.

  An enumerator \<open>E::k\<close> is the constructor \<open>E_k\<close> of the datatype \<open>E\<close>, its number is \<open>E_val\<close>.  A
  member of an enumeration type is an \<open>i32\<close>: \<open>static_cast\<close> lets it hold any number from the wire.
  A \<open>float\<close> is a real; an object all of whose floats are representable in binary32 is \<open>valid\<close>.
\<close>

subsection \<open>Enumerations\<close>

datatype RobotMode =
    RobotMode_kUnknown | RobotMode_kDamping | RobotMode_kPrepare | RobotMode_kWalking
  | RobotMode_kCustom | RobotMode_kSoccer

fun RobotMode_val :: "RobotMode \<Rightarrow> i32" where
  "RobotMode_val RobotMode_kUnknown = - 1"
| "RobotMode_val RobotMode_kDamping = 0"
| "RobotMode_val RobotMode_kPrepare = 1"
| "RobotMode_val RobotMode_kWalking = 2"
| "RobotMode_val RobotMode_kCustom = 3"
| "RobotMode_val RobotMode_kSoccer = 4"

datatype BodyControl =
    BodyControl_kUnknown | BodyControl_kDamping | BodyControl_kPrepare | BodyControl_kHumanlikeGait
  | BodyControl_kProneBody | BodyControl_kSoccerGait | BodyControl_kCustom | BodyControl_kGetUp
  | BodyControl_kWholeBodyDance | BodyControl_kShoot | BodyControl_kInsideFoot | BodyControl_kGoalie
  | BodyControl_kWBCGait | BodyControl_kLionDancePreparePose | BodyControl_kVisualKickV1

fun BodyControl_val :: "BodyControl \<Rightarrow> i32" where
  "BodyControl_val BodyControl_kUnknown = 0"
| "BodyControl_val BodyControl_kDamping = 1"
| "BodyControl_val BodyControl_kPrepare = 2"
| "BodyControl_val BodyControl_kHumanlikeGait = 3"
| "BodyControl_val BodyControl_kProneBody = 4"
| "BodyControl_val BodyControl_kSoccerGait = 5"
| "BodyControl_val BodyControl_kCustom = 6"
| "BodyControl_val BodyControl_kGetUp = 7"
| "BodyControl_val BodyControl_kWholeBodyDance = 8"
| "BodyControl_val BodyControl_kShoot = 9"
| "BodyControl_val BodyControl_kInsideFoot = 10"
| "BodyControl_val BodyControl_kGoalie = 11"
| "BodyControl_val BodyControl_kWBCGait = 12"
| "BodyControl_val BodyControl_kLionDancePreparePose = 13"
| "BodyControl_val BodyControl_kVisualKickV1 = 14"

datatype Action =
    Action_kUnknown | Action_kHandShake | Action_kHandWave | Action_kHandControl
  | Action_kDanceNewYear | Action_kDanceNezha | Action_kDanceTowardsFuture | Action_kGestureDabbing
  | Action_kGestureUltraman | Action_kGestureRespect | Action_kGestureCheer
  | Action_kGestureLuckyCat | Action_kGestureBoxing | Action_kZeroTorqueDrag | Action_kRecordTraj
  | Action_kRunRecordedTraj

fun Action_val :: "Action \<Rightarrow> i32" where
  "Action_val Action_kUnknown = 0"
| "Action_val Action_kHandShake = 1"
| "Action_val Action_kHandWave = 2"
| "Action_val Action_kHandControl = 3"
| "Action_val Action_kDanceNewYear = 4"
| "Action_val Action_kDanceNezha = 5"
| "Action_val Action_kDanceTowardsFuture = 6"
| "Action_val Action_kGestureDabbing = 7"
| "Action_val Action_kGestureUltraman = 8"
| "Action_val Action_kGestureRespect = 9"
| "Action_val Action_kGestureCheer = 10"
| "Action_val Action_kGestureLuckyCat = 11"
| "Action_val Action_kGestureBoxing = 12"
| "Action_val Action_kZeroTorqueDrag = 13"
| "Action_val Action_kRecordTraj = 14"
| "Action_val Action_kRunRecordedTraj = 15"

datatype Frame =
    Frame_kUnknown | Frame_kBody | Frame_kHead | Frame_kLeftHand | Frame_kRightHand
  | Frame_kLeftFoot | Frame_kRightFoot

fun Frame_val :: "Frame \<Rightarrow> i32" where
  "Frame_val Frame_kUnknown = - 1"
| "Frame_val Frame_kBody = 0"
| "Frame_val Frame_kHead = 1"
| "Frame_val Frame_kLeftHand = 2"
| "Frame_val Frame_kRightHand = 3"
| "Frame_val Frame_kLeftFoot = 4"
| "Frame_val Frame_kRightFoot = 5"

datatype ProneBodyControlPosture =
    ProneBodyControlPosture_kUnknown | ProneBodyControlPosture_kInactive
  | ProneBodyControlPosture_kPushUp | ProneBodyControlPosture_kLieDown
  | ProneBodyControlPosture_kSoccerLocomotion | ProneBodyControlPosture_kSoccerKicking

fun ProneBodyControlPosture_val :: "ProneBodyControlPosture \<Rightarrow> i32" where
  "ProneBodyControlPosture_val ProneBodyControlPosture_kUnknown = 0"
| "ProneBodyControlPosture_val ProneBodyControlPosture_kInactive = 1"
| "ProneBodyControlPosture_val ProneBodyControlPosture_kPushUp = 2"
| "ProneBodyControlPosture_val ProneBodyControlPosture_kLieDown = 3"
| "ProneBodyControlPosture_val ProneBodyControlPosture_kSoccerLocomotion = 4"
| "ProneBodyControlPosture_val ProneBodyControlPosture_kSoccerKicking = 5"

datatype RobocupBehaviorStatus =
    RobocupBehaviorStatus_RUNNING | RobocupBehaviorStatus_SHOOTING | RobocupBehaviorStatus_PASSING

fun RobocupBehaviorStatus_val :: "RobocupBehaviorStatus \<Rightarrow> i32" where
  "RobocupBehaviorStatus_val RobocupBehaviorStatus_RUNNING = 0"
| "RobocupBehaviorStatus_val RobocupBehaviorStatus_SHOOTING = 1"
| "RobocupBehaviorStatus_val RobocupBehaviorStatus_PASSING = 2"

datatype TrainedTrajStatus =
    TrainedTrajStatus_kIdle | TrainedTrajStatus_kRunning

fun TrainedTrajStatus_val :: "TrainedTrajStatus \<Rightarrow> i32" where
  "TrainedTrajStatus_val TrainedTrajStatus_kIdle = 0"
| "TrainedTrajStatus_val TrainedTrajStatus_kRunning = 1"

datatype JointIndex =
    JointIndex_kHeadYaw | JointIndex_kHeadPitch | JointIndex_kLeftShoulderPitch
  | JointIndex_kLeftShoulderRoll | JointIndex_kLeftElbowPitch | JointIndex_kLeftElbowYaw
  | JointIndex_kRightShoulderPitch | JointIndex_kRightShoulderRoll | JointIndex_kRightElbowPitch
  | JointIndex_kRightElbowYaw | JointIndex_kWaist | JointIndex_kLeftHipPitch
  | JointIndex_kLeftHipRoll | JointIndex_kLeftHipYaw | JointIndex_kLeftKneePitch
  | JointIndex_kCrankUpLeft | JointIndex_kCrankDownLeft | JointIndex_kRightHipPitch
  | JointIndex_kRightHipRoll | JointIndex_kRightHipYaw | JointIndex_kRightKneePitch
  | JointIndex_kCrankUpRight | JointIndex_kCrankDownRight

fun JointIndex_val :: "JointIndex \<Rightarrow> i32" where
  "JointIndex_val JointIndex_kHeadYaw = 0"
| "JointIndex_val JointIndex_kHeadPitch = 1"
| "JointIndex_val JointIndex_kLeftShoulderPitch = 2"
| "JointIndex_val JointIndex_kLeftShoulderRoll = 3"
| "JointIndex_val JointIndex_kLeftElbowPitch = 4"
| "JointIndex_val JointIndex_kLeftElbowYaw = 5"
| "JointIndex_val JointIndex_kRightShoulderPitch = 6"
| "JointIndex_val JointIndex_kRightShoulderRoll = 7"
| "JointIndex_val JointIndex_kRightElbowPitch = 8"
| "JointIndex_val JointIndex_kRightElbowYaw = 9"
| "JointIndex_val JointIndex_kWaist = 10"
| "JointIndex_val JointIndex_kLeftHipPitch = 11"
| "JointIndex_val JointIndex_kLeftHipRoll = 12"
| "JointIndex_val JointIndex_kLeftHipYaw = 13"
| "JointIndex_val JointIndex_kLeftKneePitch = 14"
| "JointIndex_val JointIndex_kCrankUpLeft = 15"
| "JointIndex_val JointIndex_kCrankDownLeft = 16"
| "JointIndex_val JointIndex_kRightHipPitch = 17"
| "JointIndex_val JointIndex_kRightHipRoll = 18"
| "JointIndex_val JointIndex_kRightHipYaw = 19"
| "JointIndex_val JointIndex_kRightKneePitch = 20"
| "JointIndex_val JointIndex_kCrankUpRight = 21"
| "JointIndex_val JointIndex_kCrankDownRight = 22"

datatype JointIndexK1 =
    JointIndexK1_kHeadYaw | JointIndexK1_kHeadPitch | JointIndexK1_kLeftShoulderPitch
  | JointIndexK1_kLeftShoulderRoll | JointIndexK1_kLeftElbowPitch | JointIndexK1_kLeftElbowYaw
  | JointIndexK1_kRightShoulderPitch | JointIndexK1_kRightShoulderRoll
  | JointIndexK1_kRightElbowPitch | JointIndexK1_kRightElbowYaw | JointIndexK1_kLeftHipPitch
  | JointIndexK1_kLeftHipRoll | JointIndexK1_kLeftHipYaw | JointIndexK1_kLeftKneePitch
  | JointIndexK1_kCrankUpLeft | JointIndexK1_kCrankDownLeft | JointIndexK1_kRightHipPitch
  | JointIndexK1_kRightHipRoll | JointIndexK1_kRightHipYaw | JointIndexK1_kRightKneePitch
  | JointIndexK1_kCrankUpRight | JointIndexK1_kCrankDownRight

fun JointIndexK1_val :: "JointIndexK1 \<Rightarrow> i32" where
  "JointIndexK1_val JointIndexK1_kHeadYaw = 0"
| "JointIndexK1_val JointIndexK1_kHeadPitch = 1"
| "JointIndexK1_val JointIndexK1_kLeftShoulderPitch = 2"
| "JointIndexK1_val JointIndexK1_kLeftShoulderRoll = 3"
| "JointIndexK1_val JointIndexK1_kLeftElbowPitch = 4"
| "JointIndexK1_val JointIndexK1_kLeftElbowYaw = 5"
| "JointIndexK1_val JointIndexK1_kRightShoulderPitch = 6"
| "JointIndexK1_val JointIndexK1_kRightShoulderRoll = 7"
| "JointIndexK1_val JointIndexK1_kRightElbowPitch = 8"
| "JointIndexK1_val JointIndexK1_kRightElbowYaw = 9"
| "JointIndexK1_val JointIndexK1_kLeftHipPitch = 10"
| "JointIndexK1_val JointIndexK1_kLeftHipRoll = 11"
| "JointIndexK1_val JointIndexK1_kLeftHipYaw = 12"
| "JointIndexK1_val JointIndexK1_kLeftKneePitch = 13"
| "JointIndexK1_val JointIndexK1_kCrankUpLeft = 14"
| "JointIndexK1_val JointIndexK1_kCrankDownLeft = 15"
| "JointIndexK1_val JointIndexK1_kRightHipPitch = 16"
| "JointIndexK1_val JointIndexK1_kRightHipRoll = 17"
| "JointIndexK1_val JointIndexK1_kRightHipYaw = 18"
| "JointIndexK1_val JointIndexK1_kRightKneePitch = 19"
| "JointIndexK1_val JointIndexK1_kCrankUpRight = 20"
| "JointIndexK1_val JointIndexK1_kCrankDownRight = 21"

datatype JointIndexWith7DofArm =
    JointIndexWith7DofArm_kHeadYaw | JointIndexWith7DofArm_kHeadPitch
  | JointIndexWith7DofArm_kLeftShoulderPitch | JointIndexWith7DofArm_kLeftShoulderRoll
  | JointIndexWith7DofArm_kLeftElbowPitch | JointIndexWith7DofArm_kLeftElbowYaw
  | JointIndexWith7DofArm_kLeftWristPitch | JointIndexWith7DofArm_kLeftWristYaw
  | JointIndexWith7DofArm_kLeftHandRoll | JointIndexWith7DofArm_kRightShoulderPitch
  | JointIndexWith7DofArm_kRightShoulderRoll | JointIndexWith7DofArm_kRightElbowPitch
  | JointIndexWith7DofArm_kRightElbowYaw | JointIndexWith7DofArm_kRightWristPitch
  | JointIndexWith7DofArm_kRightWristYaw | JointIndexWith7DofArm_kRightHandRoll
  | JointIndexWith7DofArm_kWaist | JointIndexWith7DofArm_kLeftHipPitch
  | JointIndexWith7DofArm_kLeftHipRoll | JointIndexWith7DofArm_kLeftHipYaw
  | JointIndexWith7DofArm_kLeftKneePitch | JointIndexWith7DofArm_kCrankUpLeft
  | JointIndexWith7DofArm_kCrankDownLeft | JointIndexWith7DofArm_kRightHipPitch
  | JointIndexWith7DofArm_kRightHipRoll | JointIndexWith7DofArm_kRightHipYaw
  | JointIndexWith7DofArm_kRightKneePitch | JointIndexWith7DofArm_kCrankUpRight
  | JointIndexWith7DofArm_kCrankDownRight

fun JointIndexWith7DofArm_val :: "JointIndexWith7DofArm \<Rightarrow> i32" where
  "JointIndexWith7DofArm_val JointIndexWith7DofArm_kHeadYaw = 0"
| "JointIndexWith7DofArm_val JointIndexWith7DofArm_kHeadPitch = 1"
| "JointIndexWith7DofArm_val JointIndexWith7DofArm_kLeftShoulderPitch = 2"
| "JointIndexWith7DofArm_val JointIndexWith7DofArm_kLeftShoulderRoll = 3"
| "JointIndexWith7DofArm_val JointIndexWith7DofArm_kLeftElbowPitch = 4"
| "JointIndexWith7DofArm_val JointIndexWith7DofArm_kLeftElbowYaw = 5"
| "JointIndexWith7DofArm_val JointIndexWith7DofArm_kLeftWristPitch = 6"
| "JointIndexWith7DofArm_val JointIndexWith7DofArm_kLeftWristYaw = 7"
| "JointIndexWith7DofArm_val JointIndexWith7DofArm_kLeftHandRoll = 8"
| "JointIndexWith7DofArm_val JointIndexWith7DofArm_kRightShoulderPitch = 9"
| "JointIndexWith7DofArm_val JointIndexWith7DofArm_kRightShoulderRoll = 10"
| "JointIndexWith7DofArm_val JointIndexWith7DofArm_kRightElbowPitch = 11"
| "JointIndexWith7DofArm_val JointIndexWith7DofArm_kRightElbowYaw = 12"
| "JointIndexWith7DofArm_val JointIndexWith7DofArm_kRightWristPitch = 13"
| "JointIndexWith7DofArm_val JointIndexWith7DofArm_kRightWristYaw = 14"
| "JointIndexWith7DofArm_val JointIndexWith7DofArm_kRightHandRoll = 15"
| "JointIndexWith7DofArm_val JointIndexWith7DofArm_kWaist = 16"
| "JointIndexWith7DofArm_val JointIndexWith7DofArm_kLeftHipPitch = 17"
| "JointIndexWith7DofArm_val JointIndexWith7DofArm_kLeftHipRoll = 18"
| "JointIndexWith7DofArm_val JointIndexWith7DofArm_kLeftHipYaw = 19"
| "JointIndexWith7DofArm_val JointIndexWith7DofArm_kLeftKneePitch = 20"
| "JointIndexWith7DofArm_val JointIndexWith7DofArm_kCrankUpLeft = 21"
| "JointIndexWith7DofArm_val JointIndexWith7DofArm_kCrankDownLeft = 22"
| "JointIndexWith7DofArm_val JointIndexWith7DofArm_kRightHipPitch = 23"
| "JointIndexWith7DofArm_val JointIndexWith7DofArm_kRightHipRoll = 24"
| "JointIndexWith7DofArm_val JointIndexWith7DofArm_kRightHipYaw = 25"
| "JointIndexWith7DofArm_val JointIndexWith7DofArm_kRightKneePitch = 26"
| "JointIndexWith7DofArm_val JointIndexWith7DofArm_kCrankUpRight = 27"
| "JointIndexWith7DofArm_val JointIndexWith7DofArm_kCrankDownRight = 28"

datatype HandIndex =
    HandIndex_kLeftHand | HandIndex_kRightHand

fun HandIndex_val :: "HandIndex \<Rightarrow> i32" where
  "HandIndex_val HandIndex_kLeftHand = 0"
| "HandIndex_val HandIndex_kRightHand = 1"

datatype BoosterHandType =
    BoosterHandType_kInspireHand | BoosterHandType_kInspireTouchHand | BoosterHandType_kRevoHand
  | BoosterHandType_kUnknown

fun BoosterHandType_val :: "BoosterHandType \<Rightarrow> i32" where
  "BoosterHandType_val BoosterHandType_kInspireHand = 0"
| "BoosterHandType_val BoosterHandType_kInspireTouchHand = 2"
| "BoosterHandType_val BoosterHandType_kRevoHand = 3"
| "BoosterHandType_val BoosterHandType_kUnknown = - 1"

datatype HandAction =
    HandAction_kHandOpen | HandAction_kHandClose

fun HandAction_val :: "HandAction \<Rightarrow> i32" where
  "HandAction_val HandAction_kHandOpen = 0"
| "HandAction_val HandAction_kHandClose = 1"

datatype RemoteControllerEvent =
    RemoteControllerEvent_NONE | RemoteControllerEvent_AXIS | RemoteControllerEvent_HAT
  | RemoteControllerEvent_BUTTON_DOWN | RemoteControllerEvent_BUTTON_UP
  | RemoteControllerEvent_REMOVE

fun RemoteControllerEvent_val :: "RemoteControllerEvent \<Rightarrow> i32" where
  "RemoteControllerEvent_val RemoteControllerEvent_NONE = 0"
| "RemoteControllerEvent_val RemoteControllerEvent_AXIS = 1536"
| "RemoteControllerEvent_val RemoteControllerEvent_HAT = 1538"
| "RemoteControllerEvent_val RemoteControllerEvent_BUTTON_DOWN = 1539"
| "RemoteControllerEvent_val RemoteControllerEvent_BUTTON_UP = 1540"
| "RemoteControllerEvent_val RemoteControllerEvent_REMOVE = 1542"

definition kJointCnt :: nat where "kJointCnt = 23"
definition kJointCnt7DofArm :: nat where "kJointCnt7DofArm = 29"
definition kJointCntK1 :: nat where "kJointCntK1 = 22"

subsection \<open>Entities\<close>

record Position =
  pos_x :: real
  pos_y :: real
  pos_z :: real

definition Position_default :: Position where
  "Position_default =
     \<lparr>pos_x = 0, pos_y = 0, pos_z = 0\<rparr>"

definition Position_new :: "real \<Rightarrow> real \<Rightarrow> real \<Rightarrow> Position" where
  "Position_new x y z =
     \<lparr>pos_x = x, pos_y = y, pos_z = z\<rparr>"

definition Position_to_json :: "Position \<Rightarrow> json" where
  "Position_to_json self =
     jobj [(''x'', JFloat (pos_x self)),
      (''y'', JFloat (pos_y self)),
      (''z'', JFloat (pos_z self))]"

definition Position_from_json :: "json \<Rightarrow> Position \<Rightarrow> json_error + Position" where
  "Position_from_json j self =
     sbind (fld get_float j ''x'') (\<lambda>x.
     sbind (fld get_float j ''y'') (\<lambda>y.
     sbind (fld get_float j ''z'') (\<lambda>z.
     Inr (self\<lparr>pos_x := x, pos_y := y, pos_z := z\<rparr>))))"

definition Position_valid :: "Position \<Rightarrow> bool" where
  "Position_valid self \<longleftrightarrow>
     f32 (pos_x self) = pos_x self \<and> f32 (pos_y self) = pos_y self \<and> f32 (pos_z self) = pos_z self"

interpretation position: json_codec Position_to_json Position_from_json
  Position_valid "\<lambda>_. True"
  by unfold_locales
    (auto simp: Position_to_json_def Position_from_json_def Position_valid_def
      codec_simps wire_simps intro!: Position.equality)

declare position.roundtrip [codec_simps] position.wire_blind [wire_simps]

record Orientation =
  ori_roll :: real
  ori_pitch :: real
  ori_yaw :: real

definition Orientation_default :: Orientation where
  "Orientation_default =
     \<lparr>ori_roll = 0, ori_pitch = 0, ori_yaw = 0\<rparr>"

definition Orientation_new :: "real \<Rightarrow> real \<Rightarrow> real \<Rightarrow> Orientation" where
  "Orientation_new roll pitch yaw =
     \<lparr>ori_roll = roll, ori_pitch = pitch, ori_yaw = yaw\<rparr>"

definition Orientation_to_json :: "Orientation \<Rightarrow> json" where
  "Orientation_to_json self =
     jobj [(''roll'', JFloat (ori_roll self)),
      (''pitch'', JFloat (ori_pitch self)),
      (''yaw'', JFloat (ori_yaw self))]"

definition Orientation_from_json :: "json \<Rightarrow> Orientation \<Rightarrow> json_error + Orientation" where
  "Orientation_from_json j self =
     sbind (fld get_float j ''roll'') (\<lambda>roll.
     sbind (fld get_float j ''pitch'') (\<lambda>pitch.
     sbind (fld get_float j ''yaw'') (\<lambda>yaw.
     Inr (self\<lparr>ori_roll := roll, ori_pitch := pitch, ori_yaw := yaw\<rparr>))))"

definition Orientation_valid :: "Orientation \<Rightarrow> bool" where
  "Orientation_valid self \<longleftrightarrow>
     f32 (ori_roll self) = ori_roll self \<and> f32 (ori_pitch self) = ori_pitch self \<and> f32 (ori_yaw self) = ori_yaw self"

interpretation orientation: json_codec Orientation_to_json Orientation_from_json
  Orientation_valid "\<lambda>_. True"
  by unfold_locales
    (auto simp: Orientation_to_json_def Orientation_from_json_def Orientation_valid_def
      codec_simps wire_simps intro!: Orientation.equality)

declare orientation.roundtrip [codec_simps] orientation.wire_blind [wire_simps]

record Posture =
  pst_position :: Position
  pst_orientation :: Orientation

definition Posture_default :: Posture where
  "Posture_default =
     \<lparr>pst_position = Position_default, pst_orientation = Orientation_default\<rparr>"

definition Posture_new :: "Position \<Rightarrow> Orientation \<Rightarrow> Posture" where
  "Posture_new position orientation =
     \<lparr>pst_position = position, pst_orientation = orientation\<rparr>"

definition Posture_to_json :: "Posture \<Rightarrow> json" where
  "Posture_to_json self =
     jobj [(''position'', Position_to_json (pst_position self)),
      (''orientation'', Orientation_to_json (pst_orientation self))]"

definition Posture_from_json :: "json \<Rightarrow> Posture \<Rightarrow> json_error + Posture" where
  "Posture_from_json j self =
     sbind (fld (\<lambda>v. Position_from_json v (pst_position self)) j ''position'') (\<lambda>position.
     sbind (fld (\<lambda>v. Orientation_from_json v (pst_orientation self)) j ''orientation'') (\<lambda>orientation.
     Inr (self\<lparr>pst_position := position, pst_orientation := orientation\<rparr>)))"

definition Posture_valid :: "Posture \<Rightarrow> bool" where
  "Posture_valid self \<longleftrightarrow>
     Position_valid (pst_position self) \<and> Orientation_valid (pst_orientation self)"

interpretation posture: json_codec Posture_to_json Posture_from_json
  Posture_valid "\<lambda>_. True"
  by unfold_locales
    (auto simp: Posture_to_json_def Posture_from_json_def Posture_valid_def
      codec_simps wire_simps intro!: Posture.equality)

declare posture.roundtrip [codec_simps] posture.wire_blind [wire_simps]

record Quaternion =
  qua_x :: real
  qua_y :: real
  qua_z :: real
  qua_w :: real

definition Quaternion_default :: Quaternion where
  "Quaternion_default =
     \<lparr>qua_x = 0, qua_y = 0, qua_z = 0, qua_w = 0\<rparr>"

definition Quaternion_new :: "real \<Rightarrow> real \<Rightarrow> real \<Rightarrow> real \<Rightarrow> Quaternion" where
  "Quaternion_new x y z w =
     \<lparr>qua_x = x, qua_y = y, qua_z = z, qua_w = w\<rparr>"

definition Quaternion_to_json :: "Quaternion \<Rightarrow> json" where
  "Quaternion_to_json self =
     jobj [(''x'', JFloat (qua_x self)),
      (''y'', JFloat (qua_y self)),
      (''z'', JFloat (qua_z self)),
      (''w'', JFloat (qua_w self))]"

definition Quaternion_from_json :: "json \<Rightarrow> Quaternion \<Rightarrow> json_error + Quaternion" where
  "Quaternion_from_json j self =
     sbind (fld get_float j ''x'') (\<lambda>x.
     sbind (fld get_float j ''y'') (\<lambda>y.
     sbind (fld get_float j ''z'') (\<lambda>z.
     sbind (fld get_float j ''w'') (\<lambda>w.
     Inr (self\<lparr>qua_x := x, qua_y := y, qua_z := z, qua_w := w\<rparr>)))))"

definition Quaternion_valid :: "Quaternion \<Rightarrow> bool" where
  "Quaternion_valid self \<longleftrightarrow>
     f32 (qua_x self) = qua_x self \<and> f32 (qua_y self) = qua_y self \<and> f32 (qua_z self) = qua_z self \<and> f32 (qua_w self) = qua_w self"

interpretation quaternion: json_codec Quaternion_to_json Quaternion_from_json
  Quaternion_valid "\<lambda>_. True"
  by unfold_locales
    (auto simp: Quaternion_to_json_def Quaternion_from_json_def Quaternion_valid_def
      codec_simps wire_simps intro!: Quaternion.equality)

declare quaternion.roundtrip [codec_simps] quaternion.wire_blind [wire_simps]

record Transform =
  tfm_position :: Position
  tfm_orientation :: Quaternion

definition Transform_default :: Transform where
  "Transform_default =
     \<lparr>tfm_position = Position_default, tfm_orientation = Quaternion_default\<rparr>"

definition Transform_new :: "Position \<Rightarrow> Quaternion \<Rightarrow> Transform" where
  "Transform_new position orientation =
     \<lparr>tfm_position = position, tfm_orientation = orientation\<rparr>"

definition Transform_to_json :: "Transform \<Rightarrow> json" where
  "Transform_to_json self =
     jobj [(''position'', Position_to_json (tfm_position self)),
      (''orientation'', Quaternion_to_json (tfm_orientation self))]"

definition Transform_from_json :: "json \<Rightarrow> Transform \<Rightarrow> json_error + Transform" where
  "Transform_from_json j self =
     sbind (fld (\<lambda>v. Position_from_json v (tfm_position self)) j ''position'') (\<lambda>position.
     sbind (fld (\<lambda>v. Quaternion_from_json v (tfm_orientation self)) j ''orientation'') (\<lambda>orientation.
     Inr (self\<lparr>tfm_position := position, tfm_orientation := orientation\<rparr>)))"

definition Transform_valid :: "Transform \<Rightarrow> bool" where
  "Transform_valid self \<longleftrightarrow>
     Position_valid (tfm_position self) \<and> Quaternion_valid (tfm_orientation self)"

interpretation transform: json_codec Transform_to_json Transform_from_json
  Transform_valid "\<lambda>_. True"
  by unfold_locales
    (auto simp: Transform_to_json_def Transform_from_json_def Transform_valid_def
      codec_simps wire_simps intro!: Transform.equality)

declare transform.roundtrip [codec_simps] transform.wire_blind [wire_simps]

end
