(* ===== verification/Loco_Api.thy ===== *)
theory Loco_Api
  imports Robot_Types
begin

text \<open>
  The locomotion API, \<open>robot/b1/b1_loco_api.hpp\<close>: API identifiers, option enumerations and every
  parameter and response class with its constructors, \<open>ToJson\<close> and \<open>FromJson\<close>.  Each class is an
  interpretation of \<open>json_codec\<close>: decoding what was encoded gives the object back, whatever object
  of the declared initial kind the decoder starts from, and also after the trip over the wire.
  Where the third argument of the interpretation is not trivially true it says which objects the
  class can carry; where the fourth is not, \<open>FromJson\<close> keeps or extends members of the object it is
  called on.
\<close>

subsection \<open>Identifiers\<close>

definition LOCO_SERVICE_NAME :: string where "LOCO_SERVICE_NAME = ''loco''"
definition LOCO_API_VERSION :: string where "LOCO_API_VERSION = ''1.0.0.1''"
definition kLocoApiChannelName :: string where "kLocoApiChannelName = ''rt/LocoApiTopic''"
definition kLocoApiOperationEventChannelName :: string where
  "kLocoApiOperationEventChannelName = ''rt/LocoApiOperationEvent''"

datatype (plugins only: code size) LocoApiId =
    LocoApiId_kChangeMode | LocoApiId_kMove | LocoApiId_kRotateHead | LocoApiId_kWaveHand
  | LocoApiId_kRotateHeadWithDirection | LocoApiId_kLieDown | LocoApiId_kGetUp
  | LocoApiId_kMoveHandEndEffector | LocoApiId_kControlGripper | LocoApiId_kGetFrameTransform
  | LocoApiId_kSwitchHandEndEffectorControlMode | LocoApiId_kControlDexterousHand
  | LocoApiId_kHandshake | LocoApiId_kDance | LocoApiId_kGetMode | LocoApiId_kGetStatus
  | LocoApiId_kPushUp | LocoApiId_kPlaySound | LocoApiId_kStopSound | LocoApiId_kGetRobotInfo
  | LocoApiId_kStopHandEndEffector | LocoApiId_kShoot | LocoApiId_kGetUpWithMode
  | LocoApiId_kZeroTorqueDrag | LocoApiId_kRecordTrajectory | LocoApiId_kReplayTrajectory
  | LocoApiId_kWholeBodyDance | LocoApiId_kUpperBodyCustomControl | LocoApiId_kResetOdometry
  | LocoApiId_kLoadCustomTrainedTraj | LocoApiId_kActivateCustomTrainedTraj
  | LocoApiId_kUnloadCustomTrainedTraj | LocoApiId_kEnterWBCGait | LocoApiId_kExitWBCGait
  | LocoApiId_kMoveDualHandEndEffector | LocoApiId_kVisualKick | LocoApiId_kLionDancePrepare
  | LocoApiId_kLionDanceStart | LocoApiId_kLionDanceMove | LocoApiId_kSwitchGait
  | LocoApiId_kRotateHeadWithTime | LocoApiId_kGetSensors | LocoApiId_kGetHands
  | LocoApiId_kGetRobotModel | LocoApiId_kGetTrainedTrajStatus | LocoApiId_kHandOnChestGreeting

fun LocoApiId_val :: "LocoApiId \<Rightarrow> i32" where
  "LocoApiId_val LocoApiId_kChangeMode = 2000"
| "LocoApiId_val LocoApiId_kMove = 2001"
| "LocoApiId_val LocoApiId_kRotateHead = 2004"
| "LocoApiId_val LocoApiId_kWaveHand = 2005"
| "LocoApiId_val LocoApiId_kRotateHeadWithDirection = 2006"
| "LocoApiId_val LocoApiId_kLieDown = 2007"
| "LocoApiId_val LocoApiId_kGetUp = 2008"
| "LocoApiId_val LocoApiId_kMoveHandEndEffector = 2009"
| "LocoApiId_val LocoApiId_kControlGripper = 2010"
| "LocoApiId_val LocoApiId_kGetFrameTransform = 2011"
| "LocoApiId_val LocoApiId_kSwitchHandEndEffectorControlMode = 2012"
| "LocoApiId_val LocoApiId_kControlDexterousHand = 2013"
| "LocoApiId_val LocoApiId_kHandshake = 2015"
| "LocoApiId_val LocoApiId_kDance = 2016"
| "LocoApiId_val LocoApiId_kGetMode = 2017"
| "LocoApiId_val LocoApiId_kGetStatus = 2018"
| "LocoApiId_val LocoApiId_kPushUp = 2019"
| "LocoApiId_val LocoApiId_kPlaySound = 2020"
| "LocoApiId_val LocoApiId_kStopSound = 2021"
| "LocoApiId_val LocoApiId_kGetRobotInfo = 2022"
| "LocoApiId_val LocoApiId_kStopHandEndEffector = 2023"
| "LocoApiId_val LocoApiId_kShoot = 2024"
| "LocoApiId_val LocoApiId_kGetUpWithMode = 2025"
| "LocoApiId_val LocoApiId_kZeroTorqueDrag = 2026"
| "LocoApiId_val LocoApiId_kRecordTrajectory = 2027"
| "LocoApiId_val LocoApiId_kReplayTrajectory = 2028"
| "LocoApiId_val LocoApiId_kWholeBodyDance = 2029"
| "LocoApiId_val LocoApiId_kUpperBodyCustomControl = 2030"
| "LocoApiId_val LocoApiId_kResetOdometry = 2031"
| "LocoApiId_val LocoApiId_kLoadCustomTrainedTraj = 2032"
| "LocoApiId_val LocoApiId_kActivateCustomTrainedTraj = 2033"
| "LocoApiId_val LocoApiId_kUnloadCustomTrainedTraj = 2034"
| "LocoApiId_val LocoApiId_kEnterWBCGait = 2035"
| "LocoApiId_val LocoApiId_kExitWBCGait = 2036"
| "LocoApiId_val LocoApiId_kMoveDualHandEndEffector = 2037"
| "LocoApiId_val LocoApiId_kVisualKick = 2038"
| "LocoApiId_val LocoApiId_kLionDancePrepare = 2039"
| "LocoApiId_val LocoApiId_kLionDanceStart = 2040"
| "LocoApiId_val LocoApiId_kLionDanceMove = 2041"
| "LocoApiId_val LocoApiId_kSwitchGait = 2042"
| "LocoApiId_val LocoApiId_kRotateHeadWithTime = 2043"
| "LocoApiId_val LocoApiId_kGetSensors = 2044"
| "LocoApiId_val LocoApiId_kGetHands = 2045"
| "LocoApiId_val LocoApiId_kGetRobotModel = 2046"
| "LocoApiId_val LocoApiId_kGetTrainedTrajStatus = 2047"
| "LocoApiId_val LocoApiId_kHandOnChestGreeting = 2050"

datatype GaitType =
    GaitType_kWholeBodyHumanlikeGait | GaitType_kHalfBodyHumanlikeGait
  | GaitType_kHalfBodyHumanlikeGaitV2 | GaitType_kWholeBodyHumanlikeGaitV2

fun GaitType_val :: "GaitType \<Rightarrow> i32" where
  "GaitType_val GaitType_kWholeBodyHumanlikeGait = 0"
| "GaitType_val GaitType_kHalfBodyHumanlikeGait = 1"
| "GaitType_val GaitType_kHalfBodyHumanlikeGaitV2 = 2"
| "GaitType_val GaitType_kWholeBodyHumanlikeGaitV2 = 3"

datatype GetUpVersion =
    GetUpVersion_kV1 | GetUpVersion_kV2

fun GetUpVersion_val :: "GetUpVersion \<Rightarrow> i32" where
  "GetUpVersion_val GetUpVersion_kV1 = 0"
| "GetUpVersion_val GetUpVersion_kV2 = 1"

datatype GripperControlMode =
    GripperControlMode_kPosition | GripperControlMode_kForce

fun GripperControlMode_val :: "GripperControlMode \<Rightarrow> i32" where
  "GripperControlMode_val GripperControlMode_kPosition = 0"
| "GripperControlMode_val GripperControlMode_kForce = 1"

datatype DanceId =
    DanceId_kNewYear | DanceId_kNezha | DanceId_kTowardsFuture | DanceId_kDabbingGesture
  | DanceId_kUltramanGesture | DanceId_kRespectGesture | DanceId_kCheeringGesture
  | DanceId_kLuckyCatGesture | DanceId_kStop

fun DanceId_val :: "DanceId \<Rightarrow> i32" where
  "DanceId_val DanceId_kNewYear = 0"
| "DanceId_val DanceId_kNezha = 1"
| "DanceId_val DanceId_kTowardsFuture = 2"
| "DanceId_val DanceId_kDabbingGesture = 3"
| "DanceId_val DanceId_kUltramanGesture = 4"
| "DanceId_val DanceId_kRespectGesture = 5"
| "DanceId_val DanceId_kCheeringGesture = 6"
| "DanceId_val DanceId_kLuckyCatGesture = 7"
| "DanceId_val DanceId_kStop = 1000"

datatype WholeBodyDanceId =
    WholeBodyDanceId_kArbicDance | WholeBodyDanceId_kMichaelDance1 | WholeBodyDanceId_kMichaelDance2
  | WholeBodyDanceId_kMichaelDance3 | WholeBodyDanceId_kBoxingStyleKick
  | WholeBodyDanceId_kRoundhouseKick | WholeBodyDanceId_kShanHeGuRenDance
  | WholeBodyDanceId_kGaiGeChunFengDance | WholeBodyDanceId_kMichaelDance1And2
  | WholeBodyDanceId_kBowAndArrow | WholeBodyDanceId_kCharlestonDance

fun WholeBodyDanceId_val :: "WholeBodyDanceId \<Rightarrow> i32" where
  "WholeBodyDanceId_val WholeBodyDanceId_kArbicDance = 0"
| "WholeBodyDanceId_val WholeBodyDanceId_kMichaelDance1 = 1"
| "WholeBodyDanceId_val WholeBodyDanceId_kMichaelDance2 = 2"
| "WholeBodyDanceId_val WholeBodyDanceId_kMichaelDance3 = 3"
| "WholeBodyDanceId_val WholeBodyDanceId_kBoxingStyleKick = 5"
| "WholeBodyDanceId_val WholeBodyDanceId_kRoundhouseKick = 6"
| "WholeBodyDanceId_val WholeBodyDanceId_kShanHeGuRenDance = 7"
| "WholeBodyDanceId_val WholeBodyDanceId_kGaiGeChunFengDance = 8"
| "WholeBodyDanceId_val WholeBodyDanceId_kMichaelDance1And2 = 9"
| "WholeBodyDanceId_val WholeBodyDanceId_kBowAndArrow = 10"
| "WholeBodyDanceId_val WholeBodyDanceId_kCharlestonDance = 11"

datatype JointOrder =
    JointOrder_kMuJoCo | JointOrder_kIsaacLab

fun JointOrder_val :: "JointOrder \<Rightarrow> i32" where
  "JointOrder_val JointOrder_kMuJoCo = 0"
| "JointOrder_val JointOrder_kIsaacLab = 1"

datatype VisualKickVersion =
    VisualKickVersion_kV1 | VisualKickVersion_kV2

fun VisualKickVersion_val :: "VisualKickVersion \<Rightarrow> i32" where
  "VisualKickVersion_val VisualKickVersion_kV1 = 0"
| "VisualKickVersion_val VisualKickVersion_kV2 = 1"

subsection \<open>Head, mode and gait\<close>

record RotateHeadParameter =
  rhp_pitch :: real
  rhp_yaw :: real

definition RotateHeadParameter_new :: "real \<Rightarrow> real \<Rightarrow> RotateHeadParameter" where
  "RotateHeadParameter_new pitch yaw =
     \<lparr>rhp_pitch = pitch, rhp_yaw = yaw\<rparr>"

definition RotateHeadParameter_to_json :: "RotateHeadParameter \<Rightarrow> json" where
  "RotateHeadParameter_to_json self =
     jobj [(''pitch'', JFloat (rhp_pitch self)),
      (''yaw'', JFloat (rhp_yaw self))]"

definition RotateHeadParameter_from_json :: "json \<Rightarrow> RotateHeadParameter \<Rightarrow> json_error + RotateHeadParameter" where
  "RotateHeadParameter_from_json j self =
     sbind (fld get_float j ''pitch'') (\<lambda>pitch.
     sbind (fld get_float j ''yaw'') (\<lambda>yaw.
     Inr (self\<lparr>rhp_pitch := pitch, rhp_yaw := yaw\<rparr>)))"

definition RotateHeadParameter_valid :: "RotateHeadParameter \<Rightarrow> bool" where
  "RotateHeadParameter_valid self \<longleftrightarrow>
     f32 (rhp_pitch self) = rhp_pitch self \<and> f32 (rhp_yaw self) = rhp_yaw self"

interpretation rotate_head_parameter: json_codec RotateHeadParameter_to_json RotateHeadParameter_from_json
  RotateHeadParameter_valid "\<lambda>_. True"
  by unfold_locales
    (auto simp: RotateHeadParameter_to_json_def RotateHeadParameter_from_json_def RotateHeadParameter_valid_def
      codec_simps wire_simps intro!: RotateHeadParameter.equality)

declare rotate_head_parameter.roundtrip [codec_simps] rotate_head_parameter.wire_blind [wire_simps]

record RotateHeadWithTimeParameter =
  rht_pitch :: real
  rht_yaw :: real
  rht_time_millis :: i32

definition RotateHeadWithTimeParameter_new :: "real \<Rightarrow> real \<Rightarrow> i32 \<Rightarrow> RotateHeadWithTimeParameter" where
  "RotateHeadWithTimeParameter_new pitch yaw time_millis =
     \<lparr>rht_pitch = pitch, rht_yaw = yaw, rht_time_millis = time_millis\<rparr>"

definition RotateHeadWithTimeParameter_to_json :: "RotateHeadWithTimeParameter \<Rightarrow> json" where
  "RotateHeadWithTimeParameter_to_json self =
     jobj [(''pitch'', JFloat (rht_pitch self)),
      (''yaw'', JFloat (rht_yaw self)),
      (''time_millis'', j_i32 (rht_time_millis self))]"

definition RotateHeadWithTimeParameter_from_json :: "json \<Rightarrow> RotateHeadWithTimeParameter \<Rightarrow> json_error + RotateHeadWithTimeParameter" where
  "RotateHeadWithTimeParameter_from_json j self =
     sbind (fld get_float j ''pitch'') (\<lambda>pitch.
     sbind (fld get_float j ''yaw'') (\<lambda>yaw.
     sbind (fld get_i32 j ''time_millis'') (\<lambda>time_millis.
     Inr (self\<lparr>rht_pitch := pitch, rht_yaw := yaw, rht_time_millis := time_millis\<rparr>))))"

definition RotateHeadWithTimeParameter_valid :: "RotateHeadWithTimeParameter \<Rightarrow> bool" where
  "RotateHeadWithTimeParameter_valid self \<longleftrightarrow>
     f32 (rht_pitch self) = rht_pitch self \<and> f32 (rht_yaw self) = rht_yaw self"

interpretation rotate_head_with_time_parameter: json_codec RotateHeadWithTimeParameter_to_json RotateHeadWithTimeParameter_from_json
  RotateHeadWithTimeParameter_valid "\<lambda>_. True"
  by unfold_locales
    (auto simp: RotateHeadWithTimeParameter_to_json_def RotateHeadWithTimeParameter_from_json_def RotateHeadWithTimeParameter_valid_def
      codec_simps wire_simps intro!: RotateHeadWithTimeParameter.equality)

declare rotate_head_with_time_parameter.roundtrip [codec_simps] rotate_head_with_time_parameter.wire_blind [wire_simps]

record RotateHeadWithDirectionParameter =
  rhd_pitch_direction :: i32
  rhd_yaw_direction :: i32

definition RotateHeadWithDirectionParameter_new :: "i32 \<Rightarrow> i32 \<Rightarrow> RotateHeadWithDirectionParameter" where
  "RotateHeadWithDirectionParameter_new pitch_direction yaw_direction =
     \<lparr>rhd_pitch_direction = pitch_direction, rhd_yaw_direction = yaw_direction\<rparr>"

definition RotateHeadWithDirectionParameter_to_json :: "RotateHeadWithDirectionParameter \<Rightarrow> json" where
  "RotateHeadWithDirectionParameter_to_json self =
     jobj [(''pitch_direction'', j_i32 (rhd_pitch_direction self)),
      (''yaw_direction'', j_i32 (rhd_yaw_direction self))]"

definition RotateHeadWithDirectionParameter_from_json :: "json \<Rightarrow> RotateHeadWithDirectionParameter \<Rightarrow> json_error + RotateHeadWithDirectionParameter" where
  "RotateHeadWithDirectionParameter_from_json j self =
     sbind (fld get_i32 j ''pitch_direction'') (\<lambda>pitch_direction.
     sbind (fld get_i32 j ''yaw_direction'') (\<lambda>yaw_direction.
     Inr (self\<lparr>rhd_pitch_direction := pitch_direction, rhd_yaw_direction := yaw_direction\<rparr>)))"

interpretation rotate_head_with_direction_parameter: json_codec RotateHeadWithDirectionParameter_to_json RotateHeadWithDirectionParameter_from_json
  "\<lambda>_. True" "\<lambda>_. True"
  by unfold_locales
    (auto simp: RotateHeadWithDirectionParameter_to_json_def RotateHeadWithDirectionParameter_from_json_def
      codec_simps wire_simps intro!: RotateHeadWithDirectionParameter.equality)

declare rotate_head_with_direction_parameter.roundtrip [codec_simps] rotate_head_with_direction_parameter.wire_blind [wire_simps]

record ChangeModeParameter =
  cmp_mode :: i32

definition ChangeModeParameter_new :: "i32 \<Rightarrow> ChangeModeParameter" where
  "ChangeModeParameter_new mode =
     \<lparr>cmp_mode = mode\<rparr>"

definition ChangeModeParameter_to_json :: "ChangeModeParameter \<Rightarrow> json" where
  "ChangeModeParameter_to_json self =
     jobj [(''mode'', j_i32 (cmp_mode self))]"

definition ChangeModeParameter_from_json :: "json \<Rightarrow> ChangeModeParameter \<Rightarrow> json_error + ChangeModeParameter" where
  "ChangeModeParameter_from_json j self =
     sbind (fld get_enum j ''mode'') (\<lambda>mode.
     Inr (self\<lparr>cmp_mode := mode\<rparr>))"

interpretation change_mode_parameter: json_codec ChangeModeParameter_to_json ChangeModeParameter_from_json
  "\<lambda>_. True" "\<lambda>_. True"
  by unfold_locales
    (auto simp: ChangeModeParameter_to_json_def ChangeModeParameter_from_json_def
      codec_simps wire_simps intro!: ChangeModeParameter.equality)

declare change_mode_parameter.roundtrip [codec_simps] change_mode_parameter.wire_blind [wire_simps]

record SwitchGaitParameter =
  sgp_gait_type :: i32

definition SwitchGaitParameter_default :: SwitchGaitParameter where
  "SwitchGaitParameter_default =
     \<lparr>sgp_gait_type = GaitType_val GaitType_kWholeBodyHumanlikeGait\<rparr>"

definition SwitchGaitParameter_new :: "i32 \<Rightarrow> SwitchGaitParameter" where
  "SwitchGaitParameter_new gait_type =
     \<lparr>sgp_gait_type = gait_type\<rparr>"

definition SwitchGaitParameter_to_json :: "SwitchGaitParameter \<Rightarrow> json" where
  "SwitchGaitParameter_to_json self =
     jobj [(''gait_type'', j_i32 (sgp_gait_type self))]"

definition SwitchGaitParameter_from_json :: "json \<Rightarrow> SwitchGaitParameter \<Rightarrow> json_error + SwitchGaitParameter" where
  "SwitchGaitParameter_from_json j self =
     sbind (fld get_enum j ''gait_type'') (\<lambda>gait_type.
     Inr (self\<lparr>sgp_gait_type := gait_type\<rparr>))"

interpretation switch_gait_parameter: json_codec SwitchGaitParameter_to_json SwitchGaitParameter_from_json
  "\<lambda>_. True" "\<lambda>_. True"
  by unfold_locales
    (auto simp: SwitchGaitParameter_to_json_def SwitchGaitParameter_from_json_def
      codec_simps wire_simps intro!: SwitchGaitParameter.equality)

declare switch_gait_parameter.roundtrip [codec_simps] switch_gait_parameter.wire_blind [wire_simps]

record MoveParameter =
  mvp_vx :: real
  mvp_vy :: real
  mvp_vyaw :: real

definition MoveParameter_new :: "real \<Rightarrow> real \<Rightarrow> real \<Rightarrow> MoveParameter" where
  "MoveParameter_new vx vy vyaw =
     \<lparr>mvp_vx = vx, mvp_vy = vy, mvp_vyaw = vyaw\<rparr>"

definition MoveParameter_to_json :: "MoveParameter \<Rightarrow> json" where
  "MoveParameter_to_json self =
     jobj [(''vx'', JFloat (mvp_vx self)),
      (''vy'', JFloat (mvp_vy self)),
      (''vyaw'', JFloat (mvp_vyaw self))]"

definition MoveParameter_from_json :: "json \<Rightarrow> MoveParameter \<Rightarrow> json_error + MoveParameter" where
  "MoveParameter_from_json j self =
     sbind (fld get_float j ''vx'') (\<lambda>vx.
     sbind (fld get_float j ''vy'') (\<lambda>vy.
     sbind (fld get_float j ''vyaw'') (\<lambda>vyaw.
     Inr (self\<lparr>mvp_vx := vx, mvp_vy := vy, mvp_vyaw := vyaw\<rparr>))))"

definition MoveParameter_valid :: "MoveParameter \<Rightarrow> bool" where
  "MoveParameter_valid self \<longleftrightarrow>
     f32 (mvp_vx self) = mvp_vx self \<and> f32 (mvp_vy self) = mvp_vy self \<and> f32 (mvp_vyaw self) = mvp_vyaw self"

interpretation move_parameter: json_codec MoveParameter_to_json MoveParameter_from_json
  MoveParameter_valid "\<lambda>_. True"
  by unfold_locales
    (auto simp: MoveParameter_to_json_def MoveParameter_from_json_def MoveParameter_valid_def
      codec_simps wire_simps intro!: MoveParameter.equality)

declare move_parameter.roundtrip [codec_simps] move_parameter.wire_blind [wire_simps]

record GetUpParameter =
  gup_version :: i32

definition GetUpParameter_default :: GetUpParameter where
  "GetUpParameter_default =
     \<lparr>gup_version = GetUpVersion_val GetUpVersion_kV1\<rparr>"

definition GetUpParameter_new :: "i32 \<Rightarrow> GetUpParameter" where
  "GetUpParameter_new version =
     \<lparr>gup_version = version\<rparr>"

definition GetUpParameter_to_json :: "GetUpParameter \<Rightarrow> json" where
  "GetUpParameter_to_json self =
     jobj [(''version'', j_i32 (gup_version self))]"

definition GetUpParameter_from_json :: "json \<Rightarrow> GetUpParameter \<Rightarrow> json_error + GetUpParameter" where
  "GetUpParameter_from_json j self =
     sbind (fld_opt get_enum j ''version'' (GetUpVersion_val GetUpVersion_kV1)) (\<lambda>version.
     Inr (self\<lparr>gup_version := version\<rparr>))"

interpretation get_up_parameter: json_codec GetUpParameter_to_json GetUpParameter_from_json
  "\<lambda>_. True" "\<lambda>_. True"
  by unfold_locales
    (auto simp: GetUpParameter_to_json_def GetUpParameter_from_json_def
      codec_simps wire_simps intro!: GetUpParameter.equality)

declare get_up_parameter.roundtrip [codec_simps] get_up_parameter.wire_blind [wire_simps]

record GetUpWithModeParameter =
  gum_mode :: i32
  gum_version :: i32

definition GetUpWithModeParameter_default :: GetUpWithModeParameter where
  "GetUpWithModeParameter_default =
     \<lparr>gum_mode = RobotMode_val RobotMode_kUnknown, gum_version = GetUpVersion_val GetUpVersion_kV1\<rparr>"

definition GetUpWithModeParameter_new :: "i32 \<Rightarrow> i32 \<Rightarrow> GetUpWithModeParameter" where
  "GetUpWithModeParameter_new mode version =
     \<lparr>gum_mode = mode, gum_version = version\<rparr>"

definition GetUpWithModeParameter_to_json :: "GetUpWithModeParameter \<Rightarrow> json" where
  "GetUpWithModeParameter_to_json self =
     jobj [(''mode'', j_i32 (gum_mode self)),
      (''version'', j_i32 (gum_version self))]"

definition GetUpWithModeParameter_from_json :: "json \<Rightarrow> GetUpWithModeParameter \<Rightarrow> json_error + GetUpWithModeParameter" where
  "GetUpWithModeParameter_from_json j self =
     sbind (fld get_enum j ''mode'') (\<lambda>mode.
     sbind (fld_opt get_enum j ''version'' (GetUpVersion_val GetUpVersion_kV1)) (\<lambda>version.
     Inr (self\<lparr>gum_mode := mode, gum_version := version\<rparr>)))"

interpretation get_up_with_mode_parameter: json_codec GetUpWithModeParameter_to_json GetUpWithModeParameter_from_json
  "\<lambda>_. True" "\<lambda>_. True"
  by unfold_locales
    (auto simp: GetUpWithModeParameter_to_json_def GetUpWithModeParameter_from_json_def
      codec_simps wire_simps intro!: GetUpWithModeParameter.equality)

declare get_up_with_mode_parameter.roundtrip [codec_simps] get_up_with_mode_parameter.wire_blind [wire_simps]

subsection \<open>Responses\<close>

record GetModeResponse =
  gmr_mode :: i32

definition GetModeResponse_to_json :: "GetModeResponse \<Rightarrow> json" where
  "GetModeResponse_to_json self =
     jobj [(''mode'', j_i32 (gmr_mode self))]"

definition GetModeResponse_from_json :: "json \<Rightarrow> GetModeResponse \<Rightarrow> json_error + GetModeResponse" where
  "GetModeResponse_from_json j self =
     sbind (fld get_enum j ''mode'') (\<lambda>mode.
     Inr (self\<lparr>gmr_mode := mode\<rparr>))"

interpretation get_mode_response: json_codec GetModeResponse_to_json GetModeResponse_from_json
  "\<lambda>_. True" "\<lambda>_. True"
  by unfold_locales
    (auto simp: GetModeResponse_to_json_def GetModeResponse_from_json_def
      codec_simps wire_simps intro!: GetModeResponse.equality)

declare get_mode_response.roundtrip [codec_simps] get_mode_response.wire_blind [wire_simps]

record GetStatusResponse =
  gsr_current_mode :: i32
  gsr_current_body_control :: i32
  gsr_current_actions :: "i32 list"

definition GetStatusResponse_to_json :: "GetStatusResponse \<Rightarrow> json" where
  "GetStatusResponse_to_json self =
     jobj [(''current_mode'', j_i32 (gsr_current_mode self)),
      (''current_body_control'', j_i32 (gsr_current_body_control self)),
      (''current_actions'', j_vec j_i32 (gsr_current_actions self))]"

definition GetStatusResponse_from_json :: "json \<Rightarrow> GetStatusResponse \<Rightarrow> json_error + GetStatusResponse" where
  "GetStatusResponse_from_json j self =
     sbind (fld get_enum j ''current_mode'') (\<lambda>current_mode.
     sbind (fld get_enum j ''current_body_control'') (\<lambda>current_body_control.
     sbind (fld (\<lambda>v. smap get_enum (jiter v)) j ''current_actions'') (\<lambda>current_actions.
     Inr (self\<lparr>gsr_current_mode := current_mode, gsr_current_body_control := current_body_control, gsr_current_actions := current_actions\<rparr>))))"

interpretation get_status_response: json_codec GetStatusResponse_to_json GetStatusResponse_from_json
  "\<lambda>_. True" "\<lambda>_. True"
  by unfold_locales
    (auto simp: GetStatusResponse_to_json_def GetStatusResponse_from_json_def
      codec_simps wire_simps intro!: GetStatusResponse.equality)

declare get_status_response.roundtrip [codec_simps] get_status_response.wire_blind [wire_simps]

record GetRobotInfoResponse =
  gri_name :: string
  gri_nickname :: string
  gri_version :: string
  gri_model :: string
  gri_serial_number :: string
  gri_edition :: string
  gri_region :: string

definition GetRobotInfoResponse_to_json :: "GetRobotInfoResponse \<Rightarrow> json" where
  "GetRobotInfoResponse_to_json self =
     jobj [(''name'', JStr (gri_name self)),
      (''nickname'', JStr (gri_nickname self)),
      (''version'', JStr (gri_version self)),
      (''model'', JStr (gri_model self)),
      (''serial_number'', JStr (gri_serial_number self)),
      (''edition'', JStr (gri_edition self)),
      (''region'', JStr (gri_region self))]"

definition GetRobotInfoResponse_from_json :: "json \<Rightarrow> GetRobotInfoResponse \<Rightarrow> json_error + GetRobotInfoResponse" where
  "GetRobotInfoResponse_from_json j self =
     sbind (fld get_str j ''name'') (\<lambda>name.
     sbind (fld get_str j ''nickname'') (\<lambda>nickname.
     sbind (fld get_str j ''version'') (\<lambda>version.
     sbind (fld get_str j ''model'') (\<lambda>model.
     sbind (fld get_str j ''serial_number'') (\<lambda>serial_number.
     sbind (fld get_str j ''edition'') (\<lambda>edition.
     sbind (fld get_str j ''region'') (\<lambda>region.
     Inr (self\<lparr>gri_name := name, gri_nickname := nickname, gri_version := version, gri_model := model, gri_serial_number := serial_number, gri_edition := edition, gri_region := region\<rparr>))))))))"

interpretation get_robot_info_response: json_codec GetRobotInfoResponse_to_json GetRobotInfoResponse_from_json
  "\<lambda>_. True" "\<lambda>_. True"
  by unfold_locales
    (auto simp: GetRobotInfoResponse_to_json_def GetRobotInfoResponse_from_json_def
      codec_simps wire_simps intro!: GetRobotInfoResponse.equality)

declare get_robot_info_response.roundtrip [codec_simps] get_robot_info_response.wire_blind [wire_simps]

record LoadCustomTrainedTrajResponse =
  lct_tid :: string

definition LoadCustomTrainedTrajResponse_to_json :: "LoadCustomTrainedTrajResponse \<Rightarrow> json" where
  "LoadCustomTrainedTrajResponse_to_json self =
     jobj [(''tid'', JStr (lct_tid self))]"

definition LoadCustomTrainedTrajResponse_from_json :: "json \<Rightarrow> LoadCustomTrainedTrajResponse \<Rightarrow> json_error + LoadCustomTrainedTrajResponse" where
  "LoadCustomTrainedTrajResponse_from_json j self =
     sbind (fld get_str j ''tid'') (\<lambda>tid.
     Inr (self\<lparr>lct_tid := tid\<rparr>))"

interpretation load_custom_trained_traj_response: json_codec LoadCustomTrainedTrajResponse_to_json LoadCustomTrainedTrajResponse_from_json
  "\<lambda>_. True" "\<lambda>_. True"
  by unfold_locales
    (auto simp: LoadCustomTrainedTrajResponse_to_json_def LoadCustomTrainedTrajResponse_from_json_def
      codec_simps wire_simps intro!: LoadCustomTrainedTrajResponse.equality)

declare load_custom_trained_traj_response.roundtrip [codec_simps] load_custom_trained_traj_response.wire_blind [wire_simps]

record GetTrainedTrajStatusResponse =
  gts_status :: i32
  gts_traj_id :: string

definition GetTrainedTrajStatusResponse_default :: GetTrainedTrajStatusResponse where
  "GetTrainedTrajStatusResponse_default =
     \<lparr>gts_status = TrainedTrajStatus_val TrainedTrajStatus_kIdle, gts_traj_id = []\<rparr>"

definition GetTrainedTrajStatusResponse_to_json :: "GetTrainedTrajStatusResponse \<Rightarrow> json" where
  "GetTrainedTrajStatusResponse_to_json self =
     jobj [(''status'', j_i32 (gts_status self)),
      (''traj_id'', JStr (gts_traj_id self))]"

definition GetTrainedTrajStatusResponse_from_json :: "json \<Rightarrow> GetTrainedTrajStatusResponse \<Rightarrow> json_error + GetTrainedTrajStatusResponse" where
  "GetTrainedTrajStatusResponse_from_json j self =
     sbind (fld get_enum j ''status'') (\<lambda>status.
     sbind (jvalue get_str j ''traj_id'' []) (\<lambda>traj_id.
     Inr (self\<lparr>gts_status := status, gts_traj_id := traj_id\<rparr>)))"

interpretation get_trained_traj_status_response: json_codec GetTrainedTrajStatusResponse_to_json GetTrainedTrajStatusResponse_from_json
  "\<lambda>_. True" "\<lambda>_. True"
  by unfold_locales
    (auto simp: GetTrainedTrajStatusResponse_to_json_def GetTrainedTrajStatusResponse_from_json_def
      codec_simps wire_simps intro!: GetTrainedTrajStatusResponse.equality)

declare get_trained_traj_status_response.roundtrip [codec_simps] get_trained_traj_status_response.wire_blind [wire_simps]

subsection \<open>Hands\<close>

record WaveHandParameter =
  whp_hand_index :: i32
  whp_hand_action :: i32

definition WaveHandParameter_new :: "i32 \<Rightarrow> i32 \<Rightarrow> WaveHandParameter" where
  "WaveHandParameter_new hand_index hand_action =
     \<lparr>whp_hand_index = hand_index, whp_hand_action = hand_action\<rparr>"

definition WaveHandParameter_to_json :: "WaveHandParameter \<Rightarrow> json" where
  "WaveHandParameter_to_json self =
     jobj [(''hand_index'', j_i32 (whp_hand_index self)),
      (''hand_action'', j_i32 (whp_hand_action self))]"

definition WaveHandParameter_from_json :: "json \<Rightarrow> WaveHandParameter \<Rightarrow> json_error + WaveHandParameter" where
  "WaveHandParameter_from_json j self =
     sbind (fld get_uenum j ''hand_index'') (\<lambda>hand_index.
     sbind (fld get_uenum j ''hand_action'') (\<lambda>hand_action.
     Inr (self\<lparr>whp_hand_index := hand_index, whp_hand_action := hand_action\<rparr>)))"

interpretation wave_hand_parameter: json_codec WaveHandParameter_to_json WaveHandParameter_from_json
  "\<lambda>_. True" "\<lambda>_. True"
  by unfold_locales
    (auto simp: WaveHandParameter_to_json_def WaveHandParameter_from_json_def
      codec_simps wire_simps intro!: WaveHandParameter.equality)

declare wave_hand_parameter.roundtrip [codec_simps] wave_hand_parameter.wire_blind [wire_simps]

record HandshakeParameter =
  hsp_hand_action :: i32

definition HandshakeParameter_new :: "i32 \<Rightarrow> HandshakeParameter" where
  "HandshakeParameter_new hand_action =
     \<lparr>hsp_hand_action = hand_action\<rparr>"

definition HandshakeParameter_to_json :: "HandshakeParameter \<Rightarrow> json" where
  "HandshakeParameter_to_json self =
     jobj [(''hand_action'', j_i32 (hsp_hand_action self))]"

definition HandshakeParameter_from_json :: "json \<Rightarrow> HandshakeParameter \<Rightarrow> json_error + HandshakeParameter" where
  "HandshakeParameter_from_json j self =
     sbind (fld get_uenum j ''hand_action'') (\<lambda>hand_action.
     Inr (self\<lparr>hsp_hand_action := hand_action\<rparr>))"

interpretation handshake_parameter: json_codec HandshakeParameter_to_json HandshakeParameter_from_json
  "\<lambda>_. True" "\<lambda>_. True"
  by unfold_locales
    (auto simp: HandshakeParameter_to_json_def HandshakeParameter_from_json_def
      codec_simps wire_simps intro!: HandshakeParameter.equality)

declare handshake_parameter.roundtrip [codec_simps] handshake_parameter.wire_blind [wire_simps]

record HandOnChestGreetingParameter =
  hcg_up :: bool

definition HandOnChestGreetingParameter_default :: HandOnChestGreetingParameter where
  "HandOnChestGreetingParameter_default =
     \<lparr>hcg_up = False\<rparr>"

definition HandOnChestGreetingParameter_new :: "bool \<Rightarrow> HandOnChestGreetingParameter" where
  "HandOnChestGreetingParameter_new up =
     \<lparr>hcg_up = up\<rparr>"

definition HandOnChestGreetingParameter_to_json :: "HandOnChestGreetingParameter \<Rightarrow> json" where
  "HandOnChestGreetingParameter_to_json self =
     jobj [(''up'', JBool (hcg_up self))]"

definition HandOnChestGreetingParameter_from_json :: "json \<Rightarrow> HandOnChestGreetingParameter \<Rightarrow> json_error + HandOnChestGreetingParameter" where
  "HandOnChestGreetingParameter_from_json j self =
     sbind (fld get_bool j ''up'') (\<lambda>up.
     Inr (self\<lparr>hcg_up := up\<rparr>))"

interpretation hand_on_chest_greeting_parameter: json_codec HandOnChestGreetingParameter_to_json HandOnChestGreetingParameter_from_json
  "\<lambda>_. True" "\<lambda>_. True"
  by unfold_locales
    (auto simp: HandOnChestGreetingParameter_to_json_def HandOnChestGreetingParameter_from_json_def
      codec_simps wire_simps intro!: HandOnChestGreetingParameter.equality)

declare hand_on_chest_greeting_parameter.roundtrip [codec_simps] hand_on_chest_greeting_parameter.wire_blind [wire_simps]

record MoveHandEndEffectorParameter =
  mhe_target_posture :: Posture
  mhe_aux_posture :: Posture
  mhe_time_millis :: i32
  mhe_hand_index :: i32
  mhe_has_aux :: bool
  mhe_new_version :: bool

text \<open>
  The three constructors of \<open>MoveHandEndEffectorParameter\<close>.  Without an auxiliary posture, neither
  direction touches that member: the decoded object keeps the one it had.
\<close>

definition MoveHandEndEffectorParameter_default :: MoveHandEndEffectorParameter where
  "MoveHandEndEffectorParameter_default =
     \<lparr>mhe_target_posture = Posture_default, mhe_aux_posture = Posture_default, mhe_time_millis = 1000,
      mhe_hand_index = 0, mhe_has_aux = False, mhe_new_version = False\<rparr>"

definition MoveHandEndEffectorParameter_new ::
    "Posture \<Rightarrow> i32 \<Rightarrow> i32 \<Rightarrow> bool \<Rightarrow> MoveHandEndEffectorParameter" where
  "MoveHandEndEffectorParameter_new target_posture time_millis hand_index new_version =
     \<lparr>mhe_target_posture = target_posture, mhe_aux_posture = Posture_default, mhe_time_millis = time_millis,
      mhe_hand_index = hand_index, mhe_has_aux = False, mhe_new_version = new_version\<rparr>"

definition MoveHandEndEffectorParameter_new_aux ::
    "Posture \<Rightarrow> Posture \<Rightarrow> i32 \<Rightarrow> i32 \<Rightarrow> MoveHandEndEffectorParameter" where
  "MoveHandEndEffectorParameter_new_aux target_posture aux_posture time_millis hand_index =
     \<lparr>mhe_target_posture = target_posture, mhe_aux_posture = aux_posture, mhe_time_millis = time_millis,
      mhe_hand_index = hand_index, mhe_has_aux = True, mhe_new_version = False\<rparr>"

definition MoveHandEndEffectorParameter_to_json :: "MoveHandEndEffectorParameter \<Rightarrow> json" where
  "MoveHandEndEffectorParameter_to_json self = jobj (
     [(''target_posture'', Posture_to_json (mhe_target_posture self))]
     @ (if mhe_has_aux self then [(''aux_posture'', Posture_to_json (mhe_aux_posture self))] else [])
     @ [(''time_millis'', j_i32 (mhe_time_millis self)),
        (''hand_index'', j_i32 (mhe_hand_index self)),
        (''has_aux'', JBool (mhe_has_aux self)),
        (''new_version'', JBool (mhe_new_version self))])"

definition MoveHandEndEffectorParameter_from_json ::
    "json \<Rightarrow> MoveHandEndEffectorParameter \<Rightarrow> json_error + MoveHandEndEffectorParameter" where
  "MoveHandEndEffectorParameter_from_json j self =
     sbind (fld (\<lambda>v. Posture_from_json v (mhe_target_posture self)) j ''target_posture'') (\<lambda>target_posture.
     sbind (fld get_bool j ''has_aux'') (\<lambda>has_aux.
     sbind (if has_aux then fld (\<lambda>v. Posture_from_json v (mhe_aux_posture self)) j ''aux_posture''
            else Inr (mhe_aux_posture self)) (\<lambda>aux_posture.
     sbind (fld get_i32 j ''time_millis'') (\<lambda>time_millis.
     sbind (fld get_uenum j ''hand_index'') (\<lambda>hand_index.
     sbind (fld get_bool j ''new_version'') (\<lambda>new_version.
     Inr (self\<lparr>mhe_target_posture := target_posture, mhe_aux_posture := aux_posture,
               mhe_time_millis := time_millis, mhe_hand_index := hand_index, mhe_has_aux := has_aux,
               mhe_new_version := new_version\<rparr>)))))))"

definition MoveHandEndEffectorParameter_valid :: "MoveHandEndEffectorParameter \<Rightarrow> bool" where
  "MoveHandEndEffectorParameter_valid self \<longleftrightarrow>
     Posture_valid (mhe_target_posture self)
     \<and> (if mhe_has_aux self then Posture_valid (mhe_aux_posture self)
         else mhe_aux_posture self = Posture_default)"

interpretation move_hand_end_effector_parameter: json_codec MoveHandEndEffectorParameter_to_json MoveHandEndEffectorParameter_from_json
  MoveHandEndEffectorParameter_valid "\<lambda>self. mhe_aux_posture self = Posture_default"
  by unfold_locales
    (auto simp: MoveHandEndEffectorParameter_to_json_def MoveHandEndEffectorParameter_from_json_def MoveHandEndEffectorParameter_valid_def
      codec_simps wire_simps intro!: MoveHandEndEffectorParameter.equality cong: if_cong)

declare move_hand_end_effector_parameter.roundtrip [codec_simps] move_hand_end_effector_parameter.wire_blind [wire_simps]

record MoveDualHandEndEffectorParameter =
  mdh_left_target_posture :: Posture
  mdh_right_target_posture :: Posture
  mdh_time_millis :: i32

definition MoveDualHandEndEffectorParameter_new :: "Posture \<Rightarrow> Posture \<Rightarrow> i32 \<Rightarrow> MoveDualHandEndEffectorParameter" where
  "MoveDualHandEndEffectorParameter_new left_target_posture right_target_posture time_millis =
     \<lparr>mdh_left_target_posture = left_target_posture, mdh_right_target_posture = right_target_posture, mdh_time_millis = time_millis\<rparr>"

definition MoveDualHandEndEffectorParameter_to_json :: "MoveDualHandEndEffectorParameter \<Rightarrow> json" where
  "MoveDualHandEndEffectorParameter_to_json self =
     jobj [(''left_target_posture'', Posture_to_json (mdh_left_target_posture self)),
      (''right_target_posture'', Posture_to_json (mdh_right_target_posture self)),
      (''time_millis'', j_i32 (mdh_time_millis self))]"

definition MoveDualHandEndEffectorParameter_from_json :: "json \<Rightarrow> MoveDualHandEndEffectorParameter \<Rightarrow> json_error + MoveDualHandEndEffectorParameter" where
  "MoveDualHandEndEffectorParameter_from_json j self =
     sbind (fld (\<lambda>v. Posture_from_json v (mdh_left_target_posture self)) j ''left_target_posture'') (\<lambda>left_target_posture.
     sbind (fld (\<lambda>v. Posture_from_json v (mdh_right_target_posture self)) j ''right_target_posture'') (\<lambda>right_target_posture.
     sbind (fld get_i32 j ''time_millis'') (\<lambda>time_millis.
     Inr (self\<lparr>mdh_left_target_posture := left_target_posture, mdh_right_target_posture := right_target_posture, mdh_time_millis := time_millis\<rparr>))))"

definition MoveDualHandEndEffectorParameter_valid :: "MoveDualHandEndEffectorParameter \<Rightarrow> bool" where
  "MoveDualHandEndEffectorParameter_valid self \<longleftrightarrow>
     Posture_valid (mdh_left_target_posture self) \<and> Posture_valid (mdh_right_target_posture self)"

interpretation move_dual_hand_end_effector_parameter: json_codec MoveDualHandEndEffectorParameter_to_json MoveDualHandEndEffectorParameter_from_json
  MoveDualHandEndEffectorParameter_valid "\<lambda>_. True"
  by unfold_locales
    (auto simp: MoveDualHandEndEffectorParameter_to_json_def MoveDualHandEndEffectorParameter_from_json_def MoveDualHandEndEffectorParameter_valid_def
      codec_simps wire_simps intro!: MoveDualHandEndEffectorParameter.equality)

declare move_dual_hand_end_effector_parameter.roundtrip [codec_simps] move_dual_hand_end_effector_parameter.wire_blind [wire_simps]

record SwitchHandEndEffectorControlModeParameter =
  shc_switch_on :: bool

definition SwitchHandEndEffectorControlModeParameter_new :: "bool \<Rightarrow> SwitchHandEndEffectorControlModeParameter" where
  "SwitchHandEndEffectorControlModeParameter_new switch_on =
     \<lparr>shc_switch_on = switch_on\<rparr>"

definition SwitchHandEndEffectorControlModeParameter_to_json :: "SwitchHandEndEffectorControlModeParameter \<Rightarrow> json" where
  "SwitchHandEndEffectorControlModeParameter_to_json self =
     jobj [(''switch_on'', JBool (shc_switch_on self))]"

definition SwitchHandEndEffectorControlModeParameter_from_json :: "json \<Rightarrow> SwitchHandEndEffectorControlModeParameter \<Rightarrow> json_error + SwitchHandEndEffectorControlModeParameter" where
  "SwitchHandEndEffectorControlModeParameter_from_json j self =
     sbind (fld get_bool j ''switch_on'') (\<lambda>switch_on.
     Inr (self\<lparr>shc_switch_on := switch_on\<rparr>))"

interpretation switch_hand_end_effector_control_mode_parameter: json_codec SwitchHandEndEffectorControlModeParameter_to_json SwitchHandEndEffectorControlModeParameter_from_json
  "\<lambda>_. True" "\<lambda>_. True"
  by unfold_locales
    (auto simp: SwitchHandEndEffectorControlModeParameter_to_json_def SwitchHandEndEffectorControlModeParameter_from_json_def
      codec_simps wire_simps intro!: SwitchHandEndEffectorControlModeParameter.equality)

declare switch_hand_end_effector_control_mode_parameter.roundtrip [codec_simps] switch_hand_end_effector_control_mode_parameter.wire_blind [wire_simps]

record GetFrameTransformParameter =
  gft_src :: i32
  gft_dst :: i32

definition GetFrameTransformParameter_new :: "i32 \<Rightarrow> i32 \<Rightarrow> GetFrameTransformParameter" where
  "GetFrameTransformParameter_new src dst =
     \<lparr>gft_src = src, gft_dst = dst\<rparr>"

definition GetFrameTransformParameter_to_json :: "GetFrameTransformParameter \<Rightarrow> json" where
  "GetFrameTransformParameter_to_json self =
     jobj [(''src'', j_i32 (gft_src self)),
      (''dst'', j_i32 (gft_dst self))]"

definition GetFrameTransformParameter_from_json :: "json \<Rightarrow> GetFrameTransformParameter \<Rightarrow> json_error + GetFrameTransformParameter" where
  "GetFrameTransformParameter_from_json j self =
     sbind (fld get_enum j ''src'') (\<lambda>src.
     sbind (fld get_enum j ''dst'') (\<lambda>dst.
     Inr (self\<lparr>gft_src := src, gft_dst := dst\<rparr>)))"

interpretation get_frame_transform_parameter: json_codec GetFrameTransformParameter_to_json GetFrameTransformParameter_from_json
  "\<lambda>_. True" "\<lambda>_. True"
  by unfold_locales
    (auto simp: GetFrameTransformParameter_to_json_def GetFrameTransformParameter_from_json_def
      codec_simps wire_simps intro!: GetFrameTransformParameter.equality)

declare get_frame_transform_parameter.roundtrip [codec_simps] get_frame_transform_parameter.wire_blind [wire_simps]

record GripperMotionParameter =
  gmp_position :: i32
  gmp_force :: i32
  gmp_speed :: i32

definition GripperMotionParameter_default :: GripperMotionParameter where
  "GripperMotionParameter_default =
     \<lparr>gmp_position = 0, gmp_force = 0, gmp_speed = 0\<rparr>"

definition GripperMotionParameter_new :: "i32 \<Rightarrow> i32 \<Rightarrow> i32 \<Rightarrow> GripperMotionParameter" where
  "GripperMotionParameter_new position force speed =
     \<lparr>gmp_position = position, gmp_force = force, gmp_speed = speed\<rparr>"

definition GripperMotionParameter_to_json :: "GripperMotionParameter \<Rightarrow> json" where
  "GripperMotionParameter_to_json self =
     jobj [(''position'', j_i32 (gmp_position self)),
      (''force'', j_i32 (gmp_force self)),
      (''speed'', j_i32 (gmp_speed self))]"

definition GripperMotionParameter_from_json :: "json \<Rightarrow> GripperMotionParameter \<Rightarrow> json_error + GripperMotionParameter" where
  "GripperMotionParameter_from_json j self =
     sbind (fld get_i32 j ''position'') (\<lambda>position.
     sbind (fld get_i32 j ''force'') (\<lambda>force.
     sbind (fld get_i32 j ''speed'') (\<lambda>speed.
     Inr (self\<lparr>gmp_position := position, gmp_force := force, gmp_speed := speed\<rparr>))))"

interpretation gripper_motion_parameter: json_codec GripperMotionParameter_to_json GripperMotionParameter_from_json
  "\<lambda>_. True" "\<lambda>_. True"
  by unfold_locales
    (auto simp: GripperMotionParameter_to_json_def GripperMotionParameter_from_json_def
      codec_simps wire_simps intro!: GripperMotionParameter.equality)

declare gripper_motion_parameter.roundtrip [codec_simps] gripper_motion_parameter.wire_blind [wire_simps]

record ControlGripperParameter =
  cgp_motion_param :: GripperMotionParameter
  cgp_mode :: i32
  cgp_hand_index :: i32

definition ControlGripperParameter_new :: "GripperMotionParameter \<Rightarrow> i32 \<Rightarrow> i32 \<Rightarrow> ControlGripperParameter" where
  "ControlGripperParameter_new motion_param mode hand_index =
     \<lparr>cgp_motion_param = motion_param, cgp_mode = mode, cgp_hand_index = hand_index\<rparr>"

definition ControlGripperParameter_to_json :: "ControlGripperParameter \<Rightarrow> json" where
  "ControlGripperParameter_to_json self =
     jobj [(''motion_param'', GripperMotionParameter_to_json (cgp_motion_param self)),
      (''mode'', j_i32 (cgp_mode self)),
      (''hand_index'', j_i32 (cgp_hand_index self))]"

definition ControlGripperParameter_from_json :: "json \<Rightarrow> ControlGripperParameter \<Rightarrow> json_error + ControlGripperParameter" where
  "ControlGripperParameter_from_json j self =
     sbind (fld (\<lambda>v. GripperMotionParameter_from_json v (cgp_motion_param self)) j ''motion_param'') (\<lambda>motion_param.
     sbind (fld get_enum j ''mode'') (\<lambda>mode.
     sbind (fld get_uenum j ''hand_index'') (\<lambda>hand_index.
     Inr (self\<lparr>cgp_motion_param := motion_param, cgp_mode := mode, cgp_hand_index := hand_index\<rparr>))))"

interpretation control_gripper_parameter: json_codec ControlGripperParameter_to_json ControlGripperParameter_from_json
  "\<lambda>_. True" "\<lambda>_. True"
  by unfold_locales
    (auto simp: ControlGripperParameter_to_json_def ControlGripperParameter_from_json_def
      codec_simps wire_simps intro!: ControlGripperParameter.equality)

declare control_gripper_parameter.roundtrip [codec_simps] control_gripper_parameter.wire_blind [wire_simps]

record DexterousFingerParameter =
  dfp_seq :: i32
  dfp_angle :: i32
  dfp_force :: i32
  dfp_speed :: i32

definition DexterousFingerParameter_default :: DexterousFingerParameter where
  "DexterousFingerParameter_default =
     \<lparr>dfp_seq = - 1, dfp_angle = 0, dfp_force = 0, dfp_speed = 0\<rparr>"

definition DexterousFingerParameter_new :: "i32 \<Rightarrow> i32 \<Rightarrow> i32 \<Rightarrow> i32 \<Rightarrow> DexterousFingerParameter" where
  "DexterousFingerParameter_new seq angle force speed =
     \<lparr>dfp_seq = seq, dfp_angle = angle, dfp_force = force, dfp_speed = speed\<rparr>"

definition DexterousFingerParameter_to_json :: "DexterousFingerParameter \<Rightarrow> json" where
  "DexterousFingerParameter_to_json self =
     jobj [(''seq'', j_i32 (dfp_seq self)),
      (''angle'', j_i32 (dfp_angle self)),
      (''force'', j_i32 (dfp_force self)),
      (''speed'', j_i32 (dfp_speed self))]"

definition DexterousFingerParameter_from_json :: "json \<Rightarrow> DexterousFingerParameter \<Rightarrow> json_error + DexterousFingerParameter" where
  "DexterousFingerParameter_from_json j self =
     sbind (fld get_i32 j ''seq'') (\<lambda>seq.
     sbind (fld get_i32 j ''angle'') (\<lambda>angle.
     sbind (fld get_i32 j ''force'') (\<lambda>force.
     sbind (fld get_i32 j ''speed'') (\<lambda>speed.
     Inr (self\<lparr>dfp_seq := seq, dfp_angle := angle, dfp_force := force, dfp_speed := speed\<rparr>)))))"

interpretation dexterous_finger_parameter: json_codec DexterousFingerParameter_to_json DexterousFingerParameter_from_json
  "\<lambda>_. True" "\<lambda>_. True"
  by unfold_locales
    (auto simp: DexterousFingerParameter_to_json_def DexterousFingerParameter_from_json_def
      codec_simps wire_simps intro!: DexterousFingerParameter.equality)

declare dexterous_finger_parameter.roundtrip [codec_simps] dexterous_finger_parameter.wire_blind [wire_simps]

record ControlDexterousHandParameter =
  cdh_finger_params :: "DexterousFingerParameter list"
  cdh_hand_index :: i32
  cdh_hand_type :: i32

definition ControlDexterousHandParameter_new ::
    "DexterousFingerParameter list \<Rightarrow> i32 \<Rightarrow> i32 \<Rightarrow> ControlDexterousHandParameter" where
  "ControlDexterousHandParameter_new finger_params hand_index hand_type =
     \<lparr>cdh_finger_params = finger_params, cdh_hand_index = hand_index, cdh_hand_type = hand_type\<rparr>"

text \<open>
  \<open>ToJson\<close> creates the array with its first element, so a hand without finger commands has no member
  \<open>finger_params\<close> at all; \<open>FromJson\<close> appends to the commands already there.
\<close>

definition ControlDexterousHandParameter_to_json :: "ControlDexterousHandParameter \<Rightarrow> json" where
  "ControlDexterousHandParameter_to_json self = jobj (
     (if cdh_finger_params self = [] then []
      else [(''finger_params'', j_vec DexterousFingerParameter_to_json (cdh_finger_params self))])
     @ [(''hand_index'', j_i32 (cdh_hand_index self)), (''hand_type'', j_i32 (cdh_hand_type self))])"

definition ControlDexterousHandParameter_from_json ::
    "json \<Rightarrow> ControlDexterousHandParameter \<Rightarrow> json_error + ControlDexterousHandParameter" where
  "ControlDexterousHandParameter_from_json j self =
     sbind (fld (\<lambda>v. smap (\<lambda>item. DexterousFingerParameter_from_json item DexterousFingerParameter_default)
                       (jiter v)) j ''finger_params'') (\<lambda>params.
     sbind (fld get_uenum j ''hand_index'') (\<lambda>hand_index.
     sbind (fld get_enum j ''hand_type'') (\<lambda>hand_type.
     Inr (self\<lparr>cdh_finger_params := cdh_finger_params self @ params, cdh_hand_index := hand_index,
               cdh_hand_type := hand_type\<rparr>))))"

interpretation control_dexterous_hand_parameter: json_codec ControlDexterousHandParameter_to_json ControlDexterousHandParameter_from_json
  "\<lambda>_. True" "\<lambda>self. cdh_finger_params self = []"
  by unfold_locales
    (auto simp: ControlDexterousHandParameter_to_json_def ControlDexterousHandParameter_from_json_def
      codec_simps wire_simps intro!: ControlDexterousHandParameter.equality)

declare control_dexterous_hand_parameter.roundtrip [codec_simps] control_dexterous_hand_parameter.wire_blind [wire_simps]

subsection \<open>Actions, sounds and recorded trajectories\<close>

record DanceParameter =
  dnp_dance_id :: i32

definition DanceParameter_new :: "i32 \<Rightarrow> DanceParameter" where
  "DanceParameter_new dance_id =
     \<lparr>dnp_dance_id = dance_id\<rparr>"

definition DanceParameter_to_json :: "DanceParameter \<Rightarrow> json" where
  "DanceParameter_to_json self =
     jobj [(''dance_id'', j_i32 (dnp_dance_id self))]"

definition DanceParameter_from_json :: "json \<Rightarrow> DanceParameter \<Rightarrow> json_error + DanceParameter" where
  "DanceParameter_from_json j self =
     sbind (fld get_enum j ''dance_id'') (\<lambda>dance_id.
     Inr (self\<lparr>dnp_dance_id := dance_id\<rparr>))"

interpretation dance_parameter: json_codec DanceParameter_to_json DanceParameter_from_json
  "\<lambda>_. True" "\<lambda>_. True"
  by unfold_locales
    (auto simp: DanceParameter_to_json_def DanceParameter_from_json_def
      codec_simps wire_simps intro!: DanceParameter.equality)

declare dance_parameter.roundtrip [codec_simps] dance_parameter.wire_blind [wire_simps]

record WholeBodyDanceParameter =
  wbd_dance_id :: i32

definition WholeBodyDanceParameter_new :: "i32 \<Rightarrow> WholeBodyDanceParameter" where
  "WholeBodyDanceParameter_new dance_id =
     \<lparr>wbd_dance_id = dance_id\<rparr>"

definition WholeBodyDanceParameter_to_json :: "WholeBodyDanceParameter \<Rightarrow> json" where
  "WholeBodyDanceParameter_to_json self =
     jobj [(''dance_id'', j_i32 (wbd_dance_id self))]"

definition WholeBodyDanceParameter_from_json :: "json \<Rightarrow> WholeBodyDanceParameter \<Rightarrow> json_error + WholeBodyDanceParameter" where
  "WholeBodyDanceParameter_from_json j self =
     sbind (fld get_enum j ''dance_id'') (\<lambda>dance_id.
     Inr (self\<lparr>wbd_dance_id := dance_id\<rparr>))"

interpretation whole_body_dance_parameter: json_codec WholeBodyDanceParameter_to_json WholeBodyDanceParameter_from_json
  "\<lambda>_. True" "\<lambda>_. True"
  by unfold_locales
    (auto simp: WholeBodyDanceParameter_to_json_def WholeBodyDanceParameter_from_json_def
      codec_simps wire_simps intro!: WholeBodyDanceParameter.equality)

declare whole_body_dance_parameter.roundtrip [codec_simps] whole_body_dance_parameter.wire_blind [wire_simps]

record PlaySoundParameter =
  psp_sound_file_path :: string

definition PlaySoundParameter_new :: "string \<Rightarrow> PlaySoundParameter" where
  "PlaySoundParameter_new sound_file_path =
     \<lparr>psp_sound_file_path = sound_file_path\<rparr>"

definition PlaySoundParameter_to_json :: "PlaySoundParameter \<Rightarrow> json" where
  "PlaySoundParameter_to_json self =
     jobj [(''sound_file_path'', JStr (psp_sound_file_path self))]"

definition PlaySoundParameter_from_json :: "json \<Rightarrow> PlaySoundParameter \<Rightarrow> json_error + PlaySoundParameter" where
  "PlaySoundParameter_from_json j self =
     sbind (fld get_str j ''sound_file_path'') (\<lambda>sound_file_path.
     Inr (self\<lparr>psp_sound_file_path := sound_file_path\<rparr>))"

interpretation play_sound_parameter: json_codec PlaySoundParameter_to_json PlaySoundParameter_from_json
  "\<lambda>_. True" "\<lambda>_. True"
  by unfold_locales
    (auto simp: PlaySoundParameter_to_json_def PlaySoundParameter_from_json_def
      codec_simps wire_simps intro!: PlaySoundParameter.equality)

declare play_sound_parameter.roundtrip [codec_simps] play_sound_parameter.wire_blind [wire_simps]

record ReplayTrajectoryParameter =
  rpt_traj_file_path :: string

definition ReplayTrajectoryParameter_new :: "string \<Rightarrow> ReplayTrajectoryParameter" where
  "ReplayTrajectoryParameter_new traj_file_path =
     \<lparr>rpt_traj_file_path = traj_file_path\<rparr>"

definition ReplayTrajectoryParameter_to_json :: "ReplayTrajectoryParameter \<Rightarrow> json" where
  "ReplayTrajectoryParameter_to_json self =
     jobj [(''traj_file_path'', JStr (rpt_traj_file_path self))]"

definition ReplayTrajectoryParameter_from_json :: "json \<Rightarrow> ReplayTrajectoryParameter \<Rightarrow> json_error + ReplayTrajectoryParameter" where
  "ReplayTrajectoryParameter_from_json j self =
     sbind (fld get_str j ''traj_file_path'') (\<lambda>traj_file_path.
     Inr (self\<lparr>rpt_traj_file_path := traj_file_path\<rparr>))"

interpretation replay_trajectory_parameter: json_codec ReplayTrajectoryParameter_to_json ReplayTrajectoryParameter_from_json
  "\<lambda>_. True" "\<lambda>_. True"
  by unfold_locales
    (auto simp: ReplayTrajectoryParameter_to_json_def ReplayTrajectoryParameter_from_json_def
      codec_simps wire_simps intro!: ReplayTrajectoryParameter.equality)

declare replay_trajectory_parameter.roundtrip [codec_simps] replay_trajectory_parameter.wire_blind [wire_simps]

record ZeroTorqueDragParameter =
  ztd_enable :: bool

definition ZeroTorqueDragParameter_default :: ZeroTorqueDragParameter where
  "ZeroTorqueDragParameter_default =
     \<lparr>ztd_enable = False\<rparr>"

definition ZeroTorqueDragParameter_new :: "bool \<Rightarrow> ZeroTorqueDragParameter" where
  "ZeroTorqueDragParameter_new enable =
     \<lparr>ztd_enable = enable\<rparr>"

definition ZeroTorqueDragParameter_to_json :: "ZeroTorqueDragParameter \<Rightarrow> json" where
  "ZeroTorqueDragParameter_to_json self =
     jobj [(''enable'', JBool (ztd_enable self))]"

definition ZeroTorqueDragParameter_from_json :: "json \<Rightarrow> ZeroTorqueDragParameter \<Rightarrow> json_error + ZeroTorqueDragParameter" where
  "ZeroTorqueDragParameter_from_json j self =
     sbind (fld get_bool j ''enable'') (\<lambda>enable.
     Inr (self\<lparr>ztd_enable := enable\<rparr>))"

interpretation zero_torque_drag_parameter: json_codec ZeroTorqueDragParameter_to_json ZeroTorqueDragParameter_from_json
  "\<lambda>_. True" "\<lambda>_. True"
  by unfold_locales
    (auto simp: ZeroTorqueDragParameter_to_json_def ZeroTorqueDragParameter_from_json_def
      codec_simps wire_simps intro!: ZeroTorqueDragParameter.equality)

declare zero_torque_drag_parameter.roundtrip [codec_simps] zero_torque_drag_parameter.wire_blind [wire_simps]

record RecordTrajectoryParameter =
  rct_enable :: bool

definition RecordTrajectoryParameter_default :: RecordTrajectoryParameter where
  "RecordTrajectoryParameter_default =
     \<lparr>rct_enable = False\<rparr>"

definition RecordTrajectoryParameter_new :: "bool \<Rightarrow> RecordTrajectoryParameter" where
  "RecordTrajectoryParameter_new enable =
     \<lparr>rct_enable = enable\<rparr>"

definition RecordTrajectoryParameter_to_json :: "RecordTrajectoryParameter \<Rightarrow> json" where
  "RecordTrajectoryParameter_to_json self =
     jobj [(''enable'', JBool (rct_enable self))]"

definition RecordTrajectoryParameter_from_json :: "json \<Rightarrow> RecordTrajectoryParameter \<Rightarrow> json_error + RecordTrajectoryParameter" where
  "RecordTrajectoryParameter_from_json j self =
     sbind (fld get_bool j ''enable'') (\<lambda>enable.
     Inr (self\<lparr>rct_enable := enable\<rparr>))"

interpretation record_trajectory_parameter: json_codec RecordTrajectoryParameter_to_json RecordTrajectoryParameter_from_json
  "\<lambda>_. True" "\<lambda>_. True"
  by unfold_locales
    (auto simp: RecordTrajectoryParameter_to_json_def RecordTrajectoryParameter_from_json_def
      codec_simps wire_simps intro!: RecordTrajectoryParameter.equality)

declare record_trajectory_parameter.roundtrip [codec_simps] record_trajectory_parameter.wire_blind [wire_simps]

record UpperBodyCustomControlParameter =
  ubc_start :: bool

definition UpperBodyCustomControlParameter_new :: "bool \<Rightarrow> UpperBodyCustomControlParameter" where
  "UpperBodyCustomControlParameter_new start =
     \<lparr>ubc_start = start\<rparr>"

definition UpperBodyCustomControlParameter_to_json :: "UpperBodyCustomControlParameter \<Rightarrow> json" where
  "UpperBodyCustomControlParameter_to_json self =
     jobj [(''start'', JBool (ubc_start self))]"

definition UpperBodyCustomControlParameter_from_json :: "json \<Rightarrow> UpperBodyCustomControlParameter \<Rightarrow> json_error + UpperBodyCustomControlParameter" where
  "UpperBodyCustomControlParameter_from_json j self =
     sbind (fld get_bool j ''start'') (\<lambda>start.
     Inr (self\<lparr>ubc_start := start\<rparr>))"

interpretation upper_body_custom_control_parameter: json_codec UpperBodyCustomControlParameter_to_json UpperBodyCustomControlParameter_from_json
  "\<lambda>_. True" "\<lambda>_. True"
  by unfold_locales
    (auto simp: UpperBodyCustomControlParameter_to_json_def UpperBodyCustomControlParameter_from_json_def
      codec_simps wire_simps intro!: UpperBodyCustomControlParameter.equality)

declare upper_body_custom_control_parameter.roundtrip [codec_simps] upper_body_custom_control_parameter.wire_blind [wire_simps]

record VisualKickParameter =
  vkp_start :: bool
  vkp_version :: i32

definition VisualKickParameter_new :: "bool \<Rightarrow> i32 \<Rightarrow> VisualKickParameter" where
  "VisualKickParameter_new start version =
     \<lparr>vkp_start = start, vkp_version = version\<rparr>"

definition VisualKickParameter_to_json :: "VisualKickParameter \<Rightarrow> json" where
  "VisualKickParameter_to_json self =
     jobj [(''start'', JBool (vkp_start self)),
      (''version'', j_i32 (vkp_version self))]"

definition VisualKickParameter_from_json :: "json \<Rightarrow> VisualKickParameter \<Rightarrow> json_error + VisualKickParameter" where
  "VisualKickParameter_from_json j self =
     sbind (fld get_bool j ''start'') (\<lambda>start.
     sbind (fld get_enum j ''version'') (\<lambda>version.
     Inr (self\<lparr>vkp_start := start, vkp_version := version\<rparr>)))"

interpretation visual_kick_parameter: json_codec VisualKickParameter_to_json VisualKickParameter_from_json
  "\<lambda>_. True" "\<lambda>_. True"
  by unfold_locales
    (auto simp: VisualKickParameter_to_json_def VisualKickParameter_from_json_def
      codec_simps wire_simps intro!: VisualKickParameter.equality)

declare visual_kick_parameter.roundtrip [codec_simps] visual_kick_parameter.wire_blind [wire_simps]

record LionDancePrepareParameter =
  ldp_start :: bool

definition LionDancePrepareParameter_new :: "bool \<Rightarrow> LionDancePrepareParameter" where
  "LionDancePrepareParameter_new start =
     \<lparr>ldp_start = start\<rparr>"

definition LionDancePrepareParameter_to_json :: "LionDancePrepareParameter \<Rightarrow> json" where
  "LionDancePrepareParameter_to_json self =
     jobj [(''start'', JBool (ldp_start self))]"

definition LionDancePrepareParameter_from_json :: "json \<Rightarrow> LionDancePrepareParameter \<Rightarrow> json_error + LionDancePrepareParameter" where
  "LionDancePrepareParameter_from_json j self =
     sbind (fld get_bool j ''start'') (\<lambda>start.
     Inr (self\<lparr>ldp_start := start\<rparr>))"

interpretation lion_dance_prepare_parameter: json_codec LionDancePrepareParameter_to_json LionDancePrepareParameter_from_json
  "\<lambda>_. True" "\<lambda>_. True"
  by unfold_locales
    (auto simp: LionDancePrepareParameter_to_json_def LionDancePrepareParameter_from_json_def
      codec_simps wire_simps intro!: LionDancePrepareParameter.equality)

declare lion_dance_prepare_parameter.roundtrip [codec_simps] lion_dance_prepare_parameter.wire_blind [wire_simps]

record LionDanceMoveParameter =
  ldm_start :: bool

definition LionDanceMoveParameter_new :: "bool \<Rightarrow> LionDanceMoveParameter" where
  "LionDanceMoveParameter_new start =
     \<lparr>ldm_start = start\<rparr>"

definition LionDanceMoveParameter_to_json :: "LionDanceMoveParameter \<Rightarrow> json" where
  "LionDanceMoveParameter_to_json self =
     jobj [(''start'', JBool (ldm_start self))]"

definition LionDanceMoveParameter_from_json :: "json \<Rightarrow> LionDanceMoveParameter \<Rightarrow> json_error + LionDanceMoveParameter" where
  "LionDanceMoveParameter_from_json j self =
     sbind (fld get_bool j ''start'') (\<lambda>start.
     Inr (self\<lparr>ldm_start := start\<rparr>))"

interpretation lion_dance_move_parameter: json_codec LionDanceMoveParameter_to_json LionDanceMoveParameter_from_json
  "\<lambda>_. True" "\<lambda>_. True"
  by unfold_locales
    (auto simp: LionDanceMoveParameter_to_json_def LionDanceMoveParameter_from_json_def
      codec_simps wire_simps intro!: LionDanceMoveParameter.equality)

declare lion_dance_move_parameter.roundtrip [codec_simps] lion_dance_move_parameter.wire_blind [wire_simps]

record LionDanceStartParameter =
  lds_dance_idx :: i32

definition LionDanceStartParameter_new :: "i32 \<Rightarrow> LionDanceStartParameter" where
  "LionDanceStartParameter_new dance_idx =
     \<lparr>lds_dance_idx = dance_idx\<rparr>"

definition LionDanceStartParameter_to_json :: "LionDanceStartParameter \<Rightarrow> json" where
  "LionDanceStartParameter_to_json self =
     jobj [(''dance_idx'', j_i32 (lds_dance_idx self))]"

definition LionDanceStartParameter_from_json :: "json \<Rightarrow> LionDanceStartParameter \<Rightarrow> json_error + LionDanceStartParameter" where
  "LionDanceStartParameter_from_json j self =
     sbind (fld get_i32 j ''dance_idx'') (\<lambda>dance_idx.
     Inr (self\<lparr>lds_dance_idx := dance_idx\<rparr>))"

interpretation lion_dance_start_parameter: json_codec LionDanceStartParameter_to_json LionDanceStartParameter_from_json
  "\<lambda>_. True" "\<lambda>_. True"
  by unfold_locales
    (auto simp: LionDanceStartParameter_to_json_def LionDanceStartParameter_from_json_def
      codec_simps wire_simps intro!: LionDanceStartParameter.equality)

declare lion_dance_start_parameter.roundtrip [codec_simps] lion_dance_start_parameter.wire_blind [wire_simps]

subsection \<open>Trained trajectories\<close>

record CustomModelParams =
  cmo_action_scale :: "real list"
  cmo_kp :: "real list"
  cmo_kd :: "real list"

definition CustomModelParams_default :: CustomModelParams where
  "CustomModelParams_default =
     \<lparr>cmo_action_scale = [], cmo_kp = [], cmo_kd = []\<rparr>"

definition CustomModelParams_new :: "real list \<Rightarrow> real list \<Rightarrow> real list \<Rightarrow> CustomModelParams" where
  "CustomModelParams_new action_scale kp kd =
     \<lparr>cmo_action_scale = action_scale, cmo_kp = kp, cmo_kd = kd\<rparr>"

definition CustomModelParams_to_json :: "CustomModelParams \<Rightarrow> json" where
  "CustomModelParams_to_json self =
     jobj [(''action_scale'', j_vec JFloat (cmo_action_scale self)),
      (''kp'', j_vec JFloat (cmo_kp self)),
      (''kd'', j_vec JFloat (cmo_kd self))]"

definition CustomModelParams_from_json :: "json \<Rightarrow> CustomModelParams \<Rightarrow> json_error + CustomModelParams" where
  "CustomModelParams_from_json j self =
     sbind (fld_opt (get_vec get_double) j ''action_scale'' (cmo_action_scale self)) (\<lambda>action_scale.
     sbind (fld_opt (get_vec get_double) j ''kp'' (cmo_kp self)) (\<lambda>kp.
     sbind (fld_opt (get_vec get_double) j ''kd'' (cmo_kd self)) (\<lambda>kd.
     Inr (self\<lparr>cmo_action_scale := action_scale, cmo_kp := kp, cmo_kd := kd\<rparr>))))"

interpretation custom_model_params: json_codec CustomModelParams_to_json CustomModelParams_from_json
  "\<lambda>_. True" "\<lambda>_. True"
  by unfold_locales
    (auto simp: CustomModelParams_to_json_def CustomModelParams_from_json_def
      codec_simps wire_simps intro!: CustomModelParams.equality)

declare custom_model_params.roundtrip [codec_simps] custom_model_params.wire_blind [wire_simps]

record CustomModel =
  cml_file_path :: string
  cml_params :: "CustomModelParams list"
  cml_joint_order :: i32

definition CustomModel_default :: CustomModel where
  "CustomModel_default =
     \<lparr>cml_file_path = [], cml_params = [], cml_joint_order = JointOrder_val JointOrder_kMuJoCo\<rparr>"

definition CustomModel_new :: "string \<Rightarrow> CustomModelParams list \<Rightarrow> i32 \<Rightarrow> CustomModel" where
  "CustomModel_new file_path params joint_order =
     \<lparr>cml_file_path = file_path, cml_params = params, cml_joint_order = joint_order\<rparr>"

definition CustomModel_to_json :: "CustomModel \<Rightarrow> json" where
  "CustomModel_to_json self =
     jobj [(''file_path'', JStr (cml_file_path self)),
      (''params'', j_vec CustomModelParams_to_json (cml_params self)),
      (''joint_order'', j_i32 (cml_joint_order self))]"

definition CustomModel_from_json :: "json \<Rightarrow> CustomModel \<Rightarrow> json_error + CustomModel" where
  "CustomModel_from_json j self =
     sbind (fld get_str j ''file_path'') (\<lambda>file_path.
     sbind (fld_opt (\<lambda>v. if is_array v
                          then smap (\<lambda>item. CustomModelParams_from_json item CustomModelParams_default) (jiter v)
                          else Inr []) j ''params'' []) (\<lambda>params.
     sbind (fld get_enum j ''joint_order'') (\<lambda>joint_order.
     Inr (self\<lparr>cml_file_path := file_path, cml_params := params, cml_joint_order := joint_order\<rparr>))))"

interpretation custom_model: json_codec CustomModel_to_json CustomModel_from_json
  "\<lambda>_. True" "\<lambda>_. True"
  by unfold_locales
    (auto simp: CustomModel_to_json_def CustomModel_from_json_def
      codec_simps wire_simps intro!: CustomModel.equality)

declare custom_model.roundtrip [codec_simps] custom_model.wire_blind [wire_simps]

record CustomTrainedTraj =
  ctt_traj_file_path :: string
  ctt_model :: CustomModel

definition CustomTrainedTraj_default :: CustomTrainedTraj where
  "CustomTrainedTraj_default =
     \<lparr>ctt_traj_file_path = [], ctt_model = CustomModel_default\<rparr>"

definition CustomTrainedTraj_new :: "string \<Rightarrow> CustomModel \<Rightarrow> CustomTrainedTraj" where
  "CustomTrainedTraj_new traj_file_path model =
     \<lparr>ctt_traj_file_path = traj_file_path, ctt_model = model\<rparr>"

definition CustomTrainedTraj_to_json :: "CustomTrainedTraj \<Rightarrow> json" where
  "CustomTrainedTraj_to_json self =
     jobj [(''traj_file_path'', JStr (ctt_traj_file_path self)),
      (''model'', CustomModel_to_json (ctt_model self))]"

definition CustomTrainedTraj_from_json :: "json \<Rightarrow> CustomTrainedTraj \<Rightarrow> json_error + CustomTrainedTraj" where
  "CustomTrainedTraj_from_json j self =
     sbind (fld get_str j ''traj_file_path'') (\<lambda>traj_file_path.
     sbind (fld (\<lambda>v. CustomModel_from_json v (ctt_model self)) j ''model'') (\<lambda>model.
     Inr (self\<lparr>ctt_traj_file_path := traj_file_path, ctt_model := model\<rparr>)))"

interpretation custom_trained_traj: json_codec CustomTrainedTraj_to_json CustomTrainedTraj_from_json
  "\<lambda>_. True" "\<lambda>_. True"
  by unfold_locales
    (auto simp: CustomTrainedTraj_to_json_def CustomTrainedTraj_from_json_def
      codec_simps wire_simps intro!: CustomTrainedTraj.equality)

declare custom_trained_traj.roundtrip [codec_simps] custom_trained_traj.wire_blind [wire_simps]

record CustomTrainedTrajParameter =
  ctp_tid :: string

definition CustomTrainedTrajParameter_new :: "string \<Rightarrow> CustomTrainedTrajParameter" where
  "CustomTrainedTrajParameter_new tid =
     \<lparr>ctp_tid = tid\<rparr>"

definition CustomTrainedTrajParameter_to_json :: "CustomTrainedTrajParameter \<Rightarrow> json" where
  "CustomTrainedTrajParameter_to_json self =
     jobj [(''tid'', JStr (ctp_tid self))]"

definition CustomTrainedTrajParameter_from_json :: "json \<Rightarrow> CustomTrainedTrajParameter \<Rightarrow> json_error + CustomTrainedTrajParameter" where
  "CustomTrainedTrajParameter_from_json j self =
     sbind (fld get_str j ''tid'') (\<lambda>tid.
     Inr (self\<lparr>ctp_tid := tid\<rparr>))"

interpretation custom_trained_traj_parameter: json_codec CustomTrainedTrajParameter_to_json CustomTrainedTrajParameter_from_json
  "\<lambda>_. True" "\<lambda>_. True"
  by unfold_locales
    (auto simp: CustomTrainedTrajParameter_to_json_def CustomTrainedTrajParameter_from_json_def
      codec_simps wire_simps intro!: CustomTrainedTrajParameter.equality)

declare custom_trained_traj_parameter.roundtrip [codec_simps] custom_trained_traj_parameter.wire_blind [wire_simps]

end
