(* ===== verification/Rpc_Message.thy ===== *)
theory Rpc_Message
  imports Json_Codec
begin

text \<open>
  The RPC message layer, \<open>robot/rpc/error.hpp\<close>, \<open>request_header.hpp\<close>, \<open>request.hpp\<close>,
  \<open>response_header.hpp\<close>, \<open>response.hpp\<close>, and the plain data of \<open>rpc_operation_types.hpp\<close>: status
  codes, the header of a request with its delivery mode and operation command, the header of a
  response, and the messages themselves.  A field of a scoped enumeration type holds any \<open>int32_t\<close>,
  since \<open>static_cast\<close> accepts every number from the wire, so such fields are words and the
  enumerators are a datatype with their values.
\<close>

subsection \<open>Status codes\<close>

definition kRpcStatusCodeInvalid :: i64 where "kRpcStatusCodeInvalid = - 1"
definition kRpcStatusCodeSuccess :: i64 where "kRpcStatusCodeSuccess = 0"
definition kRpcStatusCodeTimeout :: i64 where "kRpcStatusCodeTimeout = 100"
definition kRpcStatusCodeBadRequest :: i64 where "kRpcStatusCodeBadRequest = 400"
definition kRpcStatusCodeConflict :: i64 where "kRpcStatusCodeConflict = 409"
definition kRpcStatusCodeRequestTooFrequent :: i64 where "kRpcStatusCodeRequestTooFrequent = 429"
definition kRpcStatusCodeInternalServerError :: i64 where "kRpcStatusCodeInternalServerError = 500"
definition kRpcStatusCodeServerRefused :: i64 where "kRpcStatusCodeServerRefused = 501"
definition kRpcStatusCodeStateTransitionFailed :: i64 where
  "kRpcStatusCodeStateTransitionFailed = 502"
definition kRpcStatusCodeLowBattery :: i64 where "kRpcStatusCodeLowBattery = 503"

lemmas status_code_defs =
  kRpcStatusCodeInvalid_def kRpcStatusCodeSuccess_def kRpcStatusCodeTimeout_def
  kRpcStatusCodeBadRequest_def kRpcStatusCodeConflict_def kRpcStatusCodeRequestTooFrequent_def
  kRpcStatusCodeInternalServerError_def kRpcStatusCodeServerRefused_def
  kRpcStatusCodeStateTransitionFailed_def kRpcStatusCodeLowBattery_def

subsection \<open>Request header\<close>

datatype RpcCallMode = CallRequestResponse | CallOperation | CallFireAndForget

fun RpcCallMode_val :: "RpcCallMode \<Rightarrow> i32" where
  "RpcCallMode_val CallRequestResponse = 0"
| "RpcCallMode_val CallOperation = 1"
| "RpcCallMode_val CallFireAndForget = 2"

datatype RpcOperationCommand = OpNone | OpStart | OpCancel

fun RpcOperationCommand_val :: "RpcOperationCommand \<Rightarrow> i32" where
  "RpcOperationCommand_val OpNone = 0"
| "RpcOperationCommand_val OpStart = 1"
| "RpcOperationCommand_val OpCancel = 2"

record RequestHeader =
  rqh_api_id :: i64
  rqh_call_mode :: i32
  rqh_operation_command :: i32
  rqh_req_id :: string
  rqh_operation_id :: string

definition RequestHeader_default :: RequestHeader where
  "RequestHeader_default =
     \<lparr>rqh_api_id = 0, rqh_call_mode = RpcCallMode_val CallRequestResponse,
      rqh_operation_command = RpcOperationCommand_val OpNone, rqh_req_id = [], rqh_operation_id = []\<rparr>"

definition RequestHeader_new :: "i64 \<Rightarrow> RequestHeader" where
  "RequestHeader_new api_id = RequestHeader_default\<lparr>rqh_api_id := api_id\<rparr>"

definition RequestHeader_to_json :: "RequestHeader \<Rightarrow> json" where
  "RequestHeader_to_json h = jobj (
     [(''api_id'', JInt (rqh_api_id h)), (''call_mode'', j_i32 (rqh_call_mode h))]
     @ (if rqh_operation_command h \<noteq> RpcOperationCommand_val OpNone
        then [(''operation_command'', j_i32 (rqh_operation_command h))] else [])
     @ (if rqh_req_id h \<noteq> [] then [(''req_id'', JStr (rqh_req_id h))] else [])
     @ (if rqh_operation_id h \<noteq> [] then [(''operation_id'', JStr (rqh_operation_id h))] else []))"

definition RequestHeader_from_json :: "json \<Rightarrow> RequestHeader \<Rightarrow> json_error + RequestHeader" where
  "RequestHeader_from_json j h =
     sbind (fld get_i64 j ''api_id'') (\<lambda>api_id.
     sbind (jvalue get_i32 j ''call_mode'' (RpcCallMode_val CallRequestResponse)) (\<lambda>call_mode.
     sbind (jvalue get_i32 j ''operation_command'' (RpcOperationCommand_val OpNone)) (\<lambda>command.
     sbind (jvalue get_str j ''req_id'' []) (\<lambda>req_id.
     sbind (jvalue get_str j ''operation_id'' []) (\<lambda>operation_id.
     Inr (h\<lparr>rqh_api_id := api_id, rqh_call_mode := call_mode, rqh_operation_command := command,
            rqh_req_id := req_id, rqh_operation_id := operation_id\<rparr>))))))"

interpretation request_header: json_codec
  RequestHeader_to_json RequestHeader_from_json "\<lambda>_. True" "\<lambda>_. True"
proof
  show "RequestHeader_from_json (RequestHeader_to_json h) h0 = Inr h" for h h0
    by (cases h) (auto simp: RequestHeader_to_json_def RequestHeader_from_json_def codec_simps)
  show "RequestHeader_from_json (jwire j) h0 = RequestHeader_from_json j h0" for j h0
    by (simp add: RequestHeader_from_json_def wire_simps)
qed

text \<open>A header without the optional members, as an older peer writes it, is a plain request.\<close>

lemma RequestHeader_defaults:
  "jfind j ''api_id'' = Some (JInt a) \<Longrightarrow>
   jfind j ''call_mode'' = None \<Longrightarrow> jfind j ''operation_command'' = None \<Longrightarrow>
   jfind j ''req_id'' = None \<Longrightarrow> jfind j ''operation_id'' = None \<Longrightarrow>
   RequestHeader_from_json j h = Inr (RequestHeader_new a)"
  by (cases j; cases h)
    (auto simp: jfind_def RequestHeader_from_json_def fld_def jidx_def jvalue_def get_i64_def
      RequestHeader_new_def RequestHeader_default_def)

subsection \<open>Response header, requests and responses\<close>

record ResponseHeader =
  rsh_status :: i64

definition ResponseHeader_default :: ResponseHeader where
  "ResponseHeader_default = \<lparr>rsh_status = - 1\<rparr>"

definition ResponseHeader_to_json :: "ResponseHeader \<Rightarrow> json" where
  "ResponseHeader_to_json h = jobj [(''status'', JInt (rsh_status h))]"

definition ResponseHeader_from_json :: "json \<Rightarrow> ResponseHeader \<Rightarrow> json_error + ResponseHeader" where
  "ResponseHeader_from_json j h =
     sbind (fld get_i64 j ''status'') (\<lambda>status. Inr (h\<lparr>rsh_status := status\<rparr>))"

interpretation response_header: json_codec
  ResponseHeader_to_json ResponseHeader_from_json "\<lambda>_. True" "\<lambda>_. True"
proof
  show "ResponseHeader_from_json (ResponseHeader_to_json h) h0 = Inr h" for h h0
    by (cases h) (simp add: ResponseHeader_to_json_def ResponseHeader_from_json_def codec_simps)
  show "ResponseHeader_from_json (jwire j) h0 = ResponseHeader_from_json j h0" for j h0
    by (simp add: ResponseHeader_from_json_def wire_simps)
qed

record Request =
  rq_header :: RequestHeader
  rq_body :: string

definition Request_default :: Request where
  "Request_default = \<lparr>rq_header = RequestHeader_default, rq_body = []\<rparr>"

record Response =
  rs_header :: ResponseHeader
  rs_body :: string

definition Response_default :: Response where
  "Response_default = \<lparr>rs_header = ResponseHeader_default, rs_body = []\<rparr>"

definition Response_OkResponse :: Response where
  "Response_OkResponse = \<lparr>rs_header = \<lparr>rsh_status = kRpcStatusCodeSuccess\<rparr>, rs_body = []\<rparr>"

subsection \<open>Operations\<close>

datatype ApiOperationEventType = EventUnknown | EventProgress | EventFinished

fun ApiOperationEventType_val :: "ApiOperationEventType \<Rightarrow> i32" where
  "ApiOperationEventType_val EventUnknown = 0"
| "ApiOperationEventType_val EventProgress = 1"
| "ApiOperationEventType_val EventFinished = 2"

datatype ApiOperationResultCode =
  ResultUnknown | ResultSucceeded | ResultAborted | ResultCanceled | ResultRejected | ResultTimeout

fun ApiOperationResultCode_val :: "ApiOperationResultCode \<Rightarrow> i32" where
  "ApiOperationResultCode_val ResultUnknown = 0"
| "ApiOperationResultCode_val ResultSucceeded = 1"
| "ApiOperationResultCode_val ResultAborted = 2"
| "ApiOperationResultCode_val ResultCanceled = 3"
| "ApiOperationResultCode_val ResultRejected = 4"
| "ApiOperationResultCode_val ResultTimeout = 5"

record ApiOperationHandle =
  oh_operation_id :: string
  oh_api_id :: i64

record ApiOperationProgress =
  opr_operation_id :: string
  opr_api_id :: i64
  opr_status :: i64
  opr_message :: string
  opr_body :: string

record ApiOperationResult =
  ore_code :: i32
  ore_operation_id :: string
  ore_api_id :: i64
  ore_status :: i64
  ore_message :: string
  ore_body :: string

record ApiOperationStartResult =
  ost_status :: i32
  ost_operation_id :: string
  ost_api_id :: i64
  ost_message :: string
  ost_handle :: "ApiOperationHandle option"

record ApiOperationSubmitResult =
  osu_status :: i32
  osu_operation_id :: string
  osu_message :: string
  osu_handle :: "ApiOperationHandle option"

end
