(* ===== verification/Rpc_Client.thy ===== *)
theory Rpc_Client
  imports Rpc_Message
begin

text \<open>
  The client side of a call, as the service clients use it: \<open>SendApiRequest\<close>,
  \<open>SendApiRequestFireAndForget\<close> and \<open>SendApiRequestWithResponse\<close> of the clients, which forward to
  \<open>RpcClient\<close>.  \<open>RpcClient\<close> itself is compiled into the binary library, so the transport is an
  argument: given a call and the state of the outside world it answers the return code, the body of
  the response as \<open>nlohmann::json::parse\<close> reads it (or the exception \<open>parse\<close> throws) and the new state.

  A request parameter is the document \<open>ToJson\<close> built, of which \<open>dump\<close> sends the text; the empty
  string is \<open>None\<close>.  The receiver parses \<open>jwire\<close> of it.
\<close>

datatype CallKind = RequestResponse | FireAndForget | WithResponse

datatype 'api RpcCall = RpcCall (call_kind: CallKind) (call_api: 'api) (call_param: "json option")

type_synonym ('api, 's) Transport = "'api RpcCall \<Rightarrow> 's \<Rightarrow> i32 \<times> (json_error + json) \<times> 's"

definition SendApiRequest :: "('api, 's) Transport \<Rightarrow> 'api \<Rightarrow> json option \<Rightarrow> 's \<Rightarrow> i32 \<times> 's" where
  "SendApiRequest io api_id param s =
     (case io (RpcCall RequestResponse api_id param) s of (ret, _, s') \<Rightarrow> (ret, s'))"

definition SendApiRequestFireAndForget ::
    "('api, 's) Transport \<Rightarrow> 'api \<Rightarrow> json option \<Rightarrow> 's \<Rightarrow> i32 \<times> 's" where
  "SendApiRequestFireAndForget io api_id param s =
     (case io (RpcCall FireAndForget api_id param) s of (ret, _, s') \<Rightarrow> (ret, s'))"

definition SendApiRequestWithResponse ::
    "('api, 's) Transport \<Rightarrow> 'api \<Rightarrow> json option \<Rightarrow> 's \<Rightarrow> (i32 \<times> (json_error + json)) \<times> 's" where
  "SendApiRequestWithResponse io api_id param s =
     (case io (RpcCall WithResponse api_id param) s of (ret, body, s') \<Rightarrow> ((ret, body), s'))"

text \<open>
  The pattern of every query: call, return the code if it is not zero, else parse the body and let
  \<open>FromJson\<close> fill the caller's object.  The result is the return code with the object, or an exception.
\<close>

definition QueryInto ::
    "('api, 's) Transport \<Rightarrow> 'api \<Rightarrow> json option \<Rightarrow> (json \<Rightarrow> 'r \<Rightarrow> json_error + 'r) \<Rightarrow> 'r \<Rightarrow> 's
     \<Rightarrow> (json_error + i32 \<times> 'r) \<times> 's" where
  "QueryInto io api_id param from_json out s =
     (case SendApiRequestWithResponse io api_id param s of
        ((ret, body), s') \<Rightarrow>
          (if ret \<noteq> 0 then Inr (ret, out)
           else sbind body (\<lambda>j. sbind (from_json j out) (\<lambda>out'. Inr (ret, out'))), s'))"

lemma QueryInto_error:
  "io (RpcCall WithResponse api_id param) s = (ret, body, s') \<Longrightarrow> ret \<noteq> 0 \<Longrightarrow>
   QueryInto io api_id param from_json out s = (Inr (ret, out), s')"
  by (simp add: QueryInto_def SendApiRequestWithResponse_def)

lemma QueryInto_bad_body:
  "io (RpcCall WithResponse api_id param) s = (0, Inl e, s') \<Longrightarrow>
   QueryInto io api_id param from_json out s = (Inl e, s')"
  by (simp add: QueryInto_def SendApiRequestWithResponse_def)

text \<open>Whatever class the answer is, a body its \<open>ToJson\<close> wrote fills the caller's object with the original.\<close>

context json_codec
begin

lemma QueryInto_answer:
  "valid x \<Longrightarrow> fresh out \<Longrightarrow> io (RpcCall WithResponse api_id param) s = (0, Inr (jwire (to_json x)), s') \<Longrightarrow>
   QueryInto io api_id param from_json out s = (Inr (0, x), s')"
  by (simp add: QueryInto_def SendApiRequestWithResponse_def wire_roundtrip)

end

text \<open>A transport that records the calls made and always gives the same answer.\<close>

definition recording :: "i32 \<Rightarrow> json_error + json \<Rightarrow> ('api, 'api RpcCall list) Transport" where
  "recording ret body call calls = (ret, body, calls @ [call])"

end
