(* ===== verification/Device_Info.thy ===== *)
theory Device_Info
  imports Json_Codec
begin

text \<open>
  \<open>robot/common/device_info.hpp\<close>: \<open>DeviceInfo\<close>, the envelope of the device catalogs that the
  \<open>Get...\<close> calls of the locomotion and camera services return.  It keeps the body as a JSON document.
\<close>

datatype DeviceInfoKind =
    DeviceInfoKind_kUnknown | DeviceInfoKind_kSensors | DeviceInfoKind_kHands
  | DeviceInfoKind_kRobotModel | DeviceInfoKind_kCamera

fun DeviceInfoKind_val :: "DeviceInfoKind \<Rightarrow> i32" where
  "DeviceInfoKind_val DeviceInfoKind_kUnknown = - 1"
| "DeviceInfoKind_val DeviceInfoKind_kSensors = 0"
| "DeviceInfoKind_val DeviceInfoKind_kHands = 1"
| "DeviceInfoKind_val DeviceInfoKind_kRobotModel = 2"
| "DeviceInfoKind_val DeviceInfoKind_kCamera = 3"

record DeviceInfo =
  di_kind :: i32
  di_json :: json

definition DeviceInfo_default :: DeviceInfo where
  "DeviceInfo_default = \<lparr>di_kind = DeviceInfoKind_val DeviceInfoKind_kUnknown, di_json = JNull\<rparr>"

definition DeviceInfo_to_json :: "DeviceInfo \<Rightarrow> json" where
  "DeviceInfo_to_json self = jobj [(''kind'', j_i32 (di_kind self)), (''body'', di_json self)]"

definition DeviceInfo_from_json :: "json \<Rightarrow> DeviceInfo \<Rightarrow> json_error + DeviceInfo" where
  "DeviceInfo_from_json j self =
     (if contains j ''kind'' \<and> contains j ''body''
      then sbind (fld_at get_i32 j ''kind'') (\<lambda>kind.
           sbind (jat j ''body'') (\<lambda>body. Inr (self\<lparr>di_kind := kind, di_json := body\<rparr>)))
      else Inr (self\<lparr>di_kind := DeviceInfoKind_val DeviceInfoKind_kUnknown, di_json := j\<rparr>))"

lemma DeviceInfo_wire:
  "DeviceInfo_from_json (jwire j) self =
     map_sum id (\<lambda>d. d\<lparr>di_json := jwire (di_json d)\<rparr>) (DeviceInfo_from_json j self)"
  by (simp add: DeviceInfo_from_json_def wire_simps jat_wire sbind_def split: sum.split)

lemma DeviceInfo_roundtrip: "DeviceInfo_from_json (DeviceInfo_to_json d) self = Inr d"
  by (cases d; cases self) (simp add: DeviceInfo_to_json_def DeviceInfo_from_json_def codec_simps)

text \<open>
  An envelope survives the wire: what \<open>ToJson\<close> wrote is read back with its kind, and with the body
  as the wire delivers it, whatever the body is (an envelope inside an envelope included).
\<close>

lemma device_info_roundtrip:
  "DeviceInfo_from_json (jwire (DeviceInfo_to_json d)) self = Inr (d\<lparr>di_json := jwire (di_json d)\<rparr>)"
  by (simp only: DeviceInfo_wire DeviceInfo_roundtrip map_sum.simps)

text \<open>
  A bare body is kept whole and unclassified, unless it happens to have members \<open>kind\<close> and \<open>body\<close> of
  its own: then it is taken for an envelope, and what is kept is its member alone (or an exception).
\<close>

lemma device_info_bare_body:
  "DeviceInfo_from_json j self =
     (if contains j ''kind'' \<and> contains j ''body''
      then map_sum id (\<lambda>k. \<lparr>di_kind = k, di_json = the (jfind j ''body'')\<rparr>) (get_i32 (the (jfind j ''kind'')))
      else Inr \<lparr>di_kind = - 1, di_json = j\<rparr>)"
proof (cases "contains j ''kind'' \<and> contains j ''body''")
  case True
  then obtain m where "j = JObj m" by (cases j) (auto simp: contains_def jfind_def)
  with True show ?thesis
    by (cases self) (auto simp: DeviceInfo_from_json_def fld_at_def jat_def contains_def jfind_def sbind_def
        split: sum.split)
qed (cases self, auto simp: DeviceInfo_from_json_def)

end
