(* ===== verification/Loco_Client.thy ===== *)
theory Loco_Client
  imports Loco_Api Rpc_Client Device_Info
begin

text \<open>
  \<open>B1LocoClient\<close> (\<open>robot/b1/b1_loco_client.hpp\<close>): one definition per method, over the transport of
  \<open>Rpc_Client\<close>.  A method with an output argument takes the caller's object and returns the new one
  beside the return code, or the exception that parsing the answer throws.

  \<open>LocoCommand\<close> lists the methods that send a request and only return its code, \<open>LocoRequest\<close> what the
  service reads with the parameter class the API identifier calls for; the properties say that the two
  agree for every method and argument.
\<close>

subsection \<open>The methods\<close>

definition ChangeMode :: "(LocoApiId, 's) Transport \<Rightarrow> i32 \<Rightarrow> 's \<Rightarrow> i32 \<times> 's" where
  "ChangeMode io mode s =
     SendApiRequest io LocoApiId_kChangeMode (Some (ChangeModeParameter_to_json (ChangeModeParameter_new mode))) s"

definition GetMode ::
    "(LocoApiId, 's) Transport \<Rightarrow> GetModeResponse \<Rightarrow> 's
     \<Rightarrow> (json_error + i32 \<times> GetModeResponse) \<times> 's" where
  "GetMode io out s =
     QueryInto io LocoApiId_kGetMode None
       GetModeResponse_from_json out s"

definition GetStatus ::
    "(LocoApiId, 's) Transport \<Rightarrow> GetStatusResponse \<Rightarrow> 's
     \<Rightarrow> (json_error + i32 \<times> GetStatusResponse) \<times> 's" where
  "GetStatus io out s =
     QueryInto io LocoApiId_kGetStatus None
       GetStatusResponse_from_json out s"

definition GetRobotInfo ::
    "(LocoApiId, 's) Transport \<Rightarrow> GetRobotInfoResponse \<Rightarrow> 's
     \<Rightarrow> (json_error + i32 \<times> GetRobotInfoResponse) \<times> 's" where
  "GetRobotInfo io out s =
     QueryInto io LocoApiId_kGetRobotInfo None
       GetRobotInfoResponse_from_json out s"

definition GetSensors ::
    "(LocoApiId, 's) Transport \<Rightarrow> DeviceInfo \<Rightarrow> 's
     \<Rightarrow> (json_error + i32 \<times> DeviceInfo) \<times> 's" where
  "GetSensors io out s =
     QueryInto io LocoApiId_kGetSensors None
       (\<lambda>j info. map_sum id (\<lambda>d. d\<lparr>di_kind := DeviceInfoKind_val DeviceInfoKind_kSensors\<rparr>)
         (DeviceInfo_from_json j info)) out s"

definition GetHands ::
    "(LocoApiId, 's) Transport \<Rightarrow> DeviceInfo \<Rightarrow> 's
     \<Rightarrow> (json_error + i32 \<times> DeviceInfo) \<times> 's" where
  "GetHands io out s =
     QueryInto io LocoApiId_kGetHands None
       (\<lambda>j info. map_sum id (\<lambda>d. d\<lparr>di_kind := DeviceInfoKind_val DeviceInfoKind_kHands\<rparr>)
         (DeviceInfo_from_json j info)) out s"

definition GetRobotModel ::
    "(LocoApiId, 's) Transport \<Rightarrow> DeviceInfo \<Rightarrow> 's
     \<Rightarrow> (json_error + i32 \<times> DeviceInfo) \<times> 's" where
  "GetRobotModel io out s =
     QueryInto io LocoApiId_kGetRobotModel None
       (\<lambda>j info. map_sum id (\<lambda>d. d\<lparr>di_kind := DeviceInfoKind_val DeviceInfoKind_kRobotModel\<rparr>)
         (DeviceInfo_from_json j info)) out s"

definition Move :: "(LocoApiId, 's) Transport \<Rightarrow> real \<Rightarrow> real \<Rightarrow> real \<Rightarrow> 's \<Rightarrow> i32 \<times> 's" where
  "Move io vx vy vyaw s =
     SendApiRequest io LocoApiId_kMove (Some (MoveParameter_to_json (MoveParameter_new vx vy vyaw))) s"

definition MoveCommand :: "(LocoApiId, 's) Transport \<Rightarrow> real \<Rightarrow> real \<Rightarrow> real \<Rightarrow> 's \<Rightarrow> i32 \<times> 's" where
  "MoveCommand io vx vy vyaw s =
     SendApiRequestFireAndForget io LocoApiId_kMove (Some (MoveParameter_to_json (MoveParameter_new vx vy vyaw))) s"

definition RotateHead :: "(LocoApiId, 's) Transport \<Rightarrow> real \<Rightarrow> real \<Rightarrow> 's \<Rightarrow> i32 \<times> 's" where
  "RotateHead io pitch yaw s =
     SendApiRequest io LocoApiId_kRotateHead (Some (RotateHeadParameter_to_json (RotateHeadParameter_new pitch yaw))) s"

definition RotateHeadWithTime :: "(LocoApiId, 's) Transport \<Rightarrow> real \<Rightarrow> real \<Rightarrow> i32 \<Rightarrow> 's \<Rightarrow> i32 \<times> 's" where
  "RotateHeadWithTime io pitch yaw time_millis s =
     SendApiRequest io LocoApiId_kRotateHeadWithTime (Some (RotateHeadWithTimeParameter_to_json (RotateHeadWithTimeParameter_new pitch yaw time_millis))) s"

definition WaveHand :: "(LocoApiId, 's) Transport \<Rightarrow> i32 \<Rightarrow> 's \<Rightarrow> i32 \<times> 's" where
  "WaveHand io action s =
     SendApiRequest io LocoApiId_kWaveHand (Some (WaveHandParameter_to_json (WaveHandParameter_new (HandIndex_val HandIndex_kRightHand) action))) s"

definition RotateHeadWithDirection :: "(LocoApiId, 's) Transport \<Rightarrow> i32 \<Rightarrow> i32 \<Rightarrow> 's \<Rightarrow> i32 \<times> 's" where
  "RotateHeadWithDirection io pitch_direction yaw_direction s =
     SendApiRequest io LocoApiId_kRotateHeadWithDirection (Some (RotateHeadWithDirectionParameter_to_json (RotateHeadWithDirectionParameter_new pitch_direction yaw_direction))) s"

definition LieDown :: "(LocoApiId, 's) Transport \<Rightarrow> 's \<Rightarrow> i32 \<times> 's" where
  "LieDown io s =
     SendApiRequest io LocoApiId_kLieDown None s"

definition GetUp :: "(LocoApiId, 's) Transport \<Rightarrow> i32 \<Rightarrow> 's \<Rightarrow> i32 \<times> 's" where
  "GetUp io version s =
     SendApiRequest io LocoApiId_kGetUp (Some (GetUpParameter_to_json (GetUpParameter_new version))) s"

definition GetUpWithMode :: "(LocoApiId, 's) Transport \<Rightarrow> i32 \<Rightarrow> i32 \<Rightarrow> 's \<Rightarrow> i32 \<times> 's" where
  "GetUpWithMode io mode version s =
     SendApiRequest io LocoApiId_kGetUpWithMode (Some (GetUpWithModeParameter_to_json (GetUpWithModeParameter_new mode version))) s"

definition Shoot :: "(LocoApiId, 's) Transport \<Rightarrow> 's \<Rightarrow> i32 \<times> 's" where
  "Shoot io s =
     SendApiRequest io LocoApiId_kShoot None s"

definition MoveHandEndEffectorWithAux :: "(LocoApiId, 's) Transport \<Rightarrow> Posture \<Rightarrow> Posture \<Rightarrow> i32 \<Rightarrow> i32 \<Rightarrow> 's \<Rightarrow> i32 \<times> 's" where
  "MoveHandEndEffectorWithAux io target_posture aux_posture time_millis hand_index s =
     SendApiRequest io LocoApiId_kMoveHandEndEffector (Some (MoveHandEndEffectorParameter_to_json (MoveHandEndEffectorParameter_new_aux target_posture aux_posture time_millis hand_index))) s"

definition MoveHandEndEffector :: "(LocoApiId, 's) Transport \<Rightarrow> Posture \<Rightarrow> i32 \<Rightarrow> i32 \<Rightarrow> 's \<Rightarrow> i32 \<times> 's" where
  "MoveHandEndEffector io target_posture time_millis hand_index s =
     SendApiRequest io LocoApiId_kMoveHandEndEffector (Some (MoveHandEndEffectorParameter_to_json (MoveHandEndEffectorParameter_new target_posture time_millis hand_index False))) s"

definition MoveHandEndEffectorV2 :: "(LocoApiId, 's) Transport \<Rightarrow> Posture \<Rightarrow> i32 \<Rightarrow> i32 \<Rightarrow> 's \<Rightarrow> i32 \<times> 's" where
  "MoveHandEndEffectorV2 io target_posture time_millis hand_index s =
     SendApiRequest io LocoApiId_kMoveHandEndEffector (Some (MoveHandEndEffectorParameter_to_json (MoveHandEndEffectorParameter_new target_posture time_millis hand_index True))) s"

definition MoveDualHandEndEffector :: "(LocoApiId, 's) Transport \<Rightarrow> Posture \<Rightarrow> Posture \<Rightarrow> i32 \<Rightarrow> 's \<Rightarrow> i32 \<times> 's" where
  "MoveDualHandEndEffector io left_target_posture right_target_posture time_millis s =
     SendApiRequest io LocoApiId_kMoveDualHandEndEffector (Some (MoveDualHandEndEffectorParameter_to_json (MoveDualHandEndEffectorParameter_new left_target_posture right_target_posture time_millis))) s"

definition StopHandEndEffector :: "(LocoApiId, 's) Transport \<Rightarrow> 's \<Rightarrow> i32 \<times> 's" where
  "StopHandEndEffector io s =
     SendApiRequest io LocoApiId_kStopHandEndEffector None s"

definition ControlGripper :: "(LocoApiId, 's) Transport \<Rightarrow> GripperMotionParameter \<Rightarrow> i32 \<Rightarrow> i32 \<Rightarrow> 's \<Rightarrow> i32 \<times> 's" where
  "ControlGripper io motion_param mode hand_index s =
     SendApiRequest io LocoApiId_kControlGripper (Some (ControlGripperParameter_to_json (ControlGripperParameter_new motion_param mode hand_index))) s"

definition GetFrameTransform ::
    "(LocoApiId, 's) Transport \<Rightarrow> i32 \<Rightarrow> i32 \<Rightarrow> Transform \<Rightarrow> 's
     \<Rightarrow> (json_error + i32 \<times> Transform) \<times> 's" where
  "GetFrameTransform io src dst out s =
     QueryInto io LocoApiId_kGetFrameTransform (Some (GetFrameTransformParameter_to_json (GetFrameTransformParameter_new src dst)))
       Transform_from_json out s"

definition SwitchHandEndEffectorControlMode :: "(LocoApiId, 's) Transport \<Rightarrow> bool \<Rightarrow> 's \<Rightarrow> i32 \<times> 's" where
  "SwitchHandEndEffectorControlMode io switch_on s =
     SendApiRequest io LocoApiId_kSwitchHandEndEffectorControlMode (Some (SwitchHandEndEffectorControlModeParameter_to_json (SwitchHandEndEffectorControlModeParameter_new switch_on))) s"

definition Handshake :: "(LocoApiId, 's) Transport \<Rightarrow> i32 \<Rightarrow> 's \<Rightarrow> i32 \<times> 's" where
  "Handshake io action s =
     SendApiRequest io LocoApiId_kHandshake (Some (HandshakeParameter_to_json (HandshakeParameter_new action))) s"

definition HandOnChestGreeting :: "(LocoApiId, 's) Transport \<Rightarrow> bool \<Rightarrow> 's \<Rightarrow> i32 \<times> 's" where
  "HandOnChestGreeting io up s =
     SendApiRequest io LocoApiId_kHandOnChestGreeting (Some (HandOnChestGreetingParameter_to_json (HandOnChestGreetingParameter_new up))) s"

definition ControlDexterousHand :: "(LocoApiId, 's) Transport \<Rightarrow> DexterousFingerParameter list \<Rightarrow> i32 \<Rightarrow> i32 \<Rightarrow> 's \<Rightarrow> i32 \<times> 's" where
  "ControlDexterousHand io finger_params hand_index hand_type s =
     SendApiRequest io LocoApiId_kControlDexterousHand (Some (ControlDexterousHandParameter_to_json (ControlDexterousHandParameter_new finger_params hand_index hand_type))) s"

definition Dance :: "(LocoApiId, 's) Transport \<Rightarrow> i32 \<Rightarrow> 's \<Rightarrow> i32 \<times> 's" where
  "Dance io dance_id s =
     SendApiRequest io LocoApiId_kDance (Some (DanceParameter_to_json (DanceParameter_new dance_id))) s"

definition PlaySound :: "(LocoApiId, 's) Transport \<Rightarrow> string \<Rightarrow> 's \<Rightarrow> i32 \<times> 's" where
  "PlaySound io sound_file_path s =
     SendApiRequest io LocoApiId_kPlaySound (Some (PlaySoundParameter_to_json (PlaySoundParameter_new sound_file_path))) s"

definition StopSound :: "(LocoApiId, 's) Transport \<Rightarrow> 's \<Rightarrow> i32 \<times> 's" where
  "StopSound io s =
     SendApiRequest io LocoApiId_kStopSound None s"

definition ZeroTorqueDrag :: "(LocoApiId, 's) Transport \<Rightarrow> bool \<Rightarrow> 's \<Rightarrow> i32 \<times> 's" where
  "ZeroTorqueDrag io active s =
     SendApiRequest io LocoApiId_kZeroTorqueDrag (Some (ZeroTorqueDragParameter_to_json (ZeroTorqueDragParameter_new active))) s"

definition RecordTrajectory :: "(LocoApiId, 's) Transport \<Rightarrow> bool \<Rightarrow> 's \<Rightarrow> i32 \<times> 's" where
  "RecordTrajectory io active s =
     SendApiRequest io LocoApiId_kRecordTrajectory (Some (RecordTrajectoryParameter_to_json (RecordTrajectoryParameter_new active))) s"

definition ReplayTrajectory :: "(LocoApiId, 's) Transport \<Rightarrow> string \<Rightarrow> 's \<Rightarrow> i32 \<times> 's" where
  "ReplayTrajectory io path s =
     SendApiRequest io LocoApiId_kReplayTrajectory (Some (ReplayTrajectoryParameter_to_json (ReplayTrajectoryParameter_new path))) s"

definition WholeBodyDance :: "(LocoApiId, 's) Transport \<Rightarrow> i32 \<Rightarrow> 's \<Rightarrow> i32 \<times> 's" where
  "WholeBodyDance io dance_id s =
     SendApiRequest io LocoApiId_kWholeBodyDance (Some (WholeBodyDanceParameter_to_json (WholeBodyDanceParameter_new dance_id))) s"

definition UpperBodyCustomControl :: "(LocoApiId, 's) Transport \<Rightarrow> bool \<Rightarrow> 's \<Rightarrow> i32 \<times> 's" where
  "UpperBodyCustomControl io start s =
     SendApiRequest io LocoApiId_kUpperBodyCustomControl (Some (UpperBodyCustomControlParameter_to_json (UpperBodyCustomControlParameter_new start))) s"

definition ResetOdometry :: "(LocoApiId, 's) Transport \<Rightarrow> 's \<Rightarrow> i32 \<times> 's" where
  "ResetOdometry io s =
     SendApiRequest io LocoApiId_kResetOdometry None s"

definition ResetOdometryTo :: "(LocoApiId, 's) Transport \<Rightarrow> real \<Rightarrow> real \<Rightarrow> real \<Rightarrow> 's \<Rightarrow> i32 \<times> 's" where
  "ResetOdometryTo io x y theta s =
     SendApiRequest io LocoApiId_kResetOdometry (Some (jobj [(''x'', JFloat x), (''y'', JFloat y), (''theta'', JFloat theta)])) s"

text \<open>\<open>tid\<close> is assigned from a fresh response object, only on success.\<close>

definition LoadCustomTrainedTraj ::
    "(LocoApiId, 's) Transport \<Rightarrow> CustomTrainedTraj \<Rightarrow> string \<Rightarrow> 's
     \<Rightarrow> (json_error + i32 \<times> string) \<times> 's" where
  "LoadCustomTrainedTraj io traj out s =
     QueryInto io LocoApiId_kLoadCustomTrainedTraj (Some (CustomTrainedTraj_to_json traj))
       (\<lambda>j _. map_sum id lct_tid (LoadCustomTrainedTrajResponse_from_json j \<lparr>lct_tid = []\<rparr>)) out s"

definition ActivateCustomTrainedTraj :: "(LocoApiId, 's) Transport \<Rightarrow> string \<Rightarrow> 's \<Rightarrow> i32 \<times> 's" where
  "ActivateCustomTrainedTraj io tid s =
     SendApiRequest io LocoApiId_kActivateCustomTrainedTraj (Some (CustomTrainedTrajParameter_to_json (CustomTrainedTrajParameter_new tid))) s"

definition UnloadCustomTrainedTraj :: "(LocoApiId, 's) Transport \<Rightarrow> string \<Rightarrow> 's \<Rightarrow> i32 \<times> 's" where
  "UnloadCustomTrainedTraj io tid s =
     SendApiRequest io LocoApiId_kUnloadCustomTrainedTraj (Some (CustomTrainedTrajParameter_to_json (CustomTrainedTrajParameter_new tid))) s"

definition GetTrainedTrajStatus ::
    "(LocoApiId, 's) Transport \<Rightarrow> GetTrainedTrajStatusResponse \<Rightarrow> 's
     \<Rightarrow> (json_error + i32 \<times> GetTrainedTrajStatusResponse) \<times> 's" where
  "GetTrainedTrajStatus io out s =
     QueryInto io LocoApiId_kGetTrainedTrajStatus None
       GetTrainedTrajStatusResponse_from_json out s"

definition EnterWBCGait :: "(LocoApiId, 's) Transport \<Rightarrow> 's \<Rightarrow> i32 \<times> 's" where
  "EnterWBCGait io s =
     SendApiRequest io LocoApiId_kEnterWBCGait None s"

definition ExitWBCGait :: "(LocoApiId, 's) Transport \<Rightarrow> 's \<Rightarrow> i32 \<times> 's" where
  "ExitWBCGait io s =
     SendApiRequest io LocoApiId_kExitWBCGait None s"

definition VisualKick :: "(LocoApiId, 's) Transport \<Rightarrow> bool \<Rightarrow> i32 \<Rightarrow> 's \<Rightarrow> i32 \<times> 's" where
  "VisualKick io start version s =
     SendApiRequest io LocoApiId_kVisualKick (Some (VisualKickParameter_to_json (VisualKickParameter_new start version))) s"

definition LionDancePrepare :: "(LocoApiId, 's) Transport \<Rightarrow> bool \<Rightarrow> 's \<Rightarrow> i32 \<times> 's" where
  "LionDancePrepare io start s =
     SendApiRequest io LocoApiId_kLionDancePrepare (Some (LionDancePrepareParameter_to_json (LionDancePrepareParameter_new start))) s"

definition LionDanceStart :: "(LocoApiId, 's) Transport \<Rightarrow> i32 \<Rightarrow> 's \<Rightarrow> i32 \<times> 's" where
  "LionDanceStart io dance_id s =
     SendApiRequest io LocoApiId_kLionDanceStart (Some (LionDanceStartParameter_to_json (LionDanceStartParameter_new dance_id))) s"

definition LionDanceMove :: "(LocoApiId, 's) Transport \<Rightarrow> bool \<Rightarrow> 's \<Rightarrow> i32 \<times> 's" where
  "LionDanceMove io start s =
     SendApiRequest io LocoApiId_kLionDanceMove (Some (LionDanceMoveParameter_to_json (LionDanceMoveParameter_new start))) s"

definition SwitchGait :: "(LocoApiId, 's) Transport \<Rightarrow> i32 \<Rightarrow> 's \<Rightarrow> i32 \<times> 's" where
  "SwitchGait io gait_type s =
     SendApiRequest io LocoApiId_kSwitchGait (Some (SwitchGaitParameter_to_json (SwitchGaitParameter_new gait_type))) s"

subsection \<open>The commands and what the service reads\<close>

datatype (plugins only: code size) LocoCommand =
    DoChangeMode i32
  | DoMove real real real
  | DoMoveCommand real real real
  | DoRotateHead real real
  | DoRotateHeadWithTime real real i32
  | DoWaveHand i32
  | DoRotateHeadWithDirection i32 i32
  | DoLieDown
  | DoGetUp i32
  | DoGetUpWithMode i32 i32
  | DoShoot
  | DoMoveHandEndEffectorWithAux Posture Posture i32 i32
  | DoMoveHandEndEffector Posture i32 i32
  | DoMoveHandEndEffectorV2 Posture i32 i32
  | DoMoveDualHandEndEffector Posture Posture i32
  | DoStopHandEndEffector
  | DoControlGripper GripperMotionParameter i32 i32
  | DoSwitchHandEndEffectorControlMode bool
  | DoHandshake i32
  | DoHandOnChestGreeting bool
  | DoControlDexterousHand "DexterousFingerParameter list" i32 i32
  | DoDance i32
  | DoPlaySound string
  | DoStopSound
  | DoZeroTorqueDrag bool
  | DoRecordTrajectory bool
  | DoReplayTrajectory string
  | DoWholeBodyDance i32
  | DoUpperBodyCustomControl bool
  | DoResetOdometry
  | DoResetOdometryTo real real real
  | DoActivateCustomTrainedTraj string
  | DoUnloadCustomTrainedTraj string
  | DoEnterWBCGait
  | DoExitWBCGait
  | DoVisualKick bool i32
  | DoLionDancePrepare bool
  | DoLionDanceStart i32
  | DoLionDanceMove bool
  | DoSwitchGait i32

fun issue :: "LocoCommand \<Rightarrow> (LocoApiId, 's) Transport \<Rightarrow> 's \<Rightarrow> i32 \<times> 's" where
  "issue (DoChangeMode mode) io s = ChangeMode io mode s"
| "issue (DoMove vx vy vyaw) io s = Move io vx vy vyaw s"
| "issue (DoMoveCommand vx vy vyaw) io s = MoveCommand io vx vy vyaw s"
| "issue (DoRotateHead pitch yaw) io s = RotateHead io pitch yaw s"
| "issue (DoRotateHeadWithTime pitch yaw time_millis) io s = RotateHeadWithTime io pitch yaw time_millis s"
| "issue (DoWaveHand action) io s = WaveHand io action s"
| "issue (DoRotateHeadWithDirection pitch_direction yaw_direction) io s = RotateHeadWithDirection io pitch_direction yaw_direction s"
| "issue DoLieDown io s = LieDown io s"
| "issue (DoGetUp version) io s = GetUp io version s"
| "issue (DoGetUpWithMode mode version) io s = GetUpWithMode io mode version s"
| "issue DoShoot io s = Shoot io s"
| "issue (DoMoveHandEndEffectorWithAux target_posture aux_posture time_millis hand_index) io s = MoveHandEndEffectorWithAux io target_posture aux_posture time_millis hand_index s"
| "issue (DoMoveHandEndEffector target_posture time_millis hand_index) io s = MoveHandEndEffector io target_posture time_millis hand_index s"
| "issue (DoMoveHandEndEffectorV2 target_posture time_millis hand_index) io s = MoveHandEndEffectorV2 io target_posture time_millis hand_index s"
| "issue (DoMoveDualHandEndEffector left_target_posture right_target_posture time_millis) io s = MoveDualHandEndEffector io left_target_posture right_target_posture time_millis s"
| "issue DoStopHandEndEffector io s = StopHandEndEffector io s"
| "issue (DoControlGripper motion_param mode hand_index) io s = ControlGripper io motion_param mode hand_index s"
| "issue (DoSwitchHandEndEffectorControlMode switch_on) io s = SwitchHandEndEffectorControlMode io switch_on s"
| "issue (DoHandshake action) io s = Handshake io action s"
| "issue (DoHandOnChestGreeting up) io s = HandOnChestGreeting io up s"
| "issue (DoControlDexterousHand finger_params hand_index hand_type) io s = ControlDexterousHand io finger_params hand_index hand_type s"
| "issue (DoDance dance_id) io s = Dance io dance_id s"
| "issue (DoPlaySound sound_file_path) io s = PlaySound io sound_file_path s"
| "issue DoStopSound io s = StopSound io s"
| "issue (DoZeroTorqueDrag active) io s = ZeroTorqueDrag io active s"
| "issue (DoRecordTrajectory active) io s = RecordTrajectory io active s"
| "issue (DoReplayTrajectory path) io s = ReplayTrajectory io path s"
| "issue (DoWholeBodyDance dance_id) io s = WholeBodyDance io dance_id s"
| "issue (DoUpperBodyCustomControl start) io s = UpperBodyCustomControl io start s"
| "issue DoResetOdometry io s = ResetOdometry io s"
| "issue (DoResetOdometryTo x y theta) io s = ResetOdometryTo io x y theta s"
| "issue (DoActivateCustomTrainedTraj tid) io s = ActivateCustomTrainedTraj io tid s"
| "issue (DoUnloadCustomTrainedTraj tid) io s = UnloadCustomTrainedTraj io tid s"
| "issue DoEnterWBCGait io s = EnterWBCGait io s"
| "issue DoExitWBCGait io s = ExitWBCGait io s"
| "issue (DoVisualKick start version) io s = VisualKick io start version s"
| "issue (DoLionDancePrepare start) io s = LionDancePrepare io start s"
| "issue (DoLionDanceStart dance_id) io s = LionDanceStart io dance_id s"
| "issue (DoLionDanceMove start) io s = LionDanceMove io start s"
| "issue (DoSwitchGait gait_type) io s = SwitchGait io gait_type s"

datatype (plugins only: code size) LocoRequest =
    ReadNothing LocoApiId
  | ReadDocument LocoApiId json
  | ReadChangeMode ChangeModeParameter
  | ReadMove MoveParameter
  | ReadRotateHead RotateHeadParameter
  | ReadRotateHeadWithTime RotateHeadWithTimeParameter
  | ReadWaveHand WaveHandParameter
  | ReadRotateHeadWithDirection RotateHeadWithDirectionParameter
  | ReadGetUp GetUpParameter
  | ReadGetUpWithMode GetUpWithModeParameter
  | ReadMoveHandEndEffector MoveHandEndEffectorParameter
  | ReadMoveDualHandEndEffector MoveDualHandEndEffectorParameter
  | ReadControlGripper ControlGripperParameter
  | ReadSwitchHandEndEffectorControlMode SwitchHandEndEffectorControlModeParameter
  | ReadHandshake HandshakeParameter
  | ReadHandOnChestGreeting HandOnChestGreetingParameter
  | ReadControlDexterousHand ControlDexterousHandParameter
  | ReadDance DanceParameter
  | ReadPlaySound PlaySoundParameter
  | ReadZeroTorqueDrag ZeroTorqueDragParameter
  | ReadRecordTrajectory RecordTrajectoryParameter
  | ReadReplayTrajectory ReplayTrajectoryParameter
  | ReadWholeBodyDance WholeBodyDanceParameter
  | ReadUpperBodyCustomControl UpperBodyCustomControlParameter
  | ReadActivateCustomTrainedTraj CustomTrainedTrajParameter
  | ReadUnloadCustomTrainedTraj CustomTrainedTrajParameter
  | ReadVisualKick VisualKickParameter
  | ReadLionDancePrepare LionDancePrepareParameter
  | ReadLionDanceStart LionDanceStartParameter
  | ReadLionDanceMove LionDanceMoveParameter
  | ReadSwitchGait SwitchGaitParameter

text \<open>
  The service's side: the parameter class that belongs to an identifier reads the parsed document into
  a new object.
\<close>

fun read_param :: "LocoApiId \<Rightarrow> json \<Rightarrow> json_error + LocoRequest" where
  "read_param LocoApiId_kChangeMode j =
     map_sum id ReadChangeMode (ChangeModeParameter_from_json j (ChangeModeParameter_new 0))"
| "read_param LocoApiId_kMove j =
     map_sum id ReadMove (MoveParameter_from_json j (MoveParameter_new 0 0 0))"
| "read_param LocoApiId_kRotateHead j =
     map_sum id ReadRotateHead (RotateHeadParameter_from_json j (RotateHeadParameter_new 0 0))"
| "read_param LocoApiId_kRotateHeadWithTime j =
     map_sum id ReadRotateHeadWithTime (RotateHeadWithTimeParameter_from_json j (RotateHeadWithTimeParameter_new 0 0 0))"
| "read_param LocoApiId_kWaveHand j =
     map_sum id ReadWaveHand (WaveHandParameter_from_json j (WaveHandParameter_new 0 0))"
| "read_param LocoApiId_kRotateHeadWithDirection j =
     map_sum id ReadRotateHeadWithDirection (RotateHeadWithDirectionParameter_from_json j (RotateHeadWithDirectionParameter_new 0 0))"
| "read_param LocoApiId_kGetUp j =
     map_sum id ReadGetUp (GetUpParameter_from_json j (GetUpParameter_new 0))"
| "read_param LocoApiId_kGetUpWithMode j =
     map_sum id ReadGetUpWithMode (GetUpWithModeParameter_from_json j (GetUpWithModeParameter_new 0 0))"
| "read_param LocoApiId_kMoveHandEndEffector j =
     map_sum id ReadMoveHandEndEffector (MoveHandEndEffectorParameter_from_json j MoveHandEndEffectorParameter_default)"
| "read_param LocoApiId_kMoveDualHandEndEffector j =
     map_sum id ReadMoveDualHandEndEffector (MoveDualHandEndEffectorParameter_from_json j (MoveDualHandEndEffectorParameter_new Posture_default Posture_default 0))"
| "read_param LocoApiId_kControlGripper j =
     map_sum id ReadControlGripper (ControlGripperParameter_from_json j (ControlGripperParameter_new GripperMotionParameter_default 0 0))"
| "read_param LocoApiId_kSwitchHandEndEffectorControlMode j =
     map_sum id ReadSwitchHandEndEffectorControlMode (SwitchHandEndEffectorControlModeParameter_from_json j (SwitchHandEndEffectorControlModeParameter_new False))"
| "read_param LocoApiId_kHandshake j =
     map_sum id ReadHandshake (HandshakeParameter_from_json j (HandshakeParameter_new 0))"
| "read_param LocoApiId_kHandOnChestGreeting j =
     map_sum id ReadHandOnChestGreeting (HandOnChestGreetingParameter_from_json j (HandOnChestGreetingParameter_new False))"
| "read_param LocoApiId_kControlDexterousHand j =
     map_sum id ReadControlDexterousHand (ControlDexterousHandParameter_from_json j (ControlDexterousHandParameter_new [] 0 0))"
| "read_param LocoApiId_kDance j =
     map_sum id ReadDance (DanceParameter_from_json j (DanceParameter_new 0))"
| "read_param LocoApiId_kPlaySound j =
     map_sum id ReadPlaySound (PlaySoundParameter_from_json j (PlaySoundParameter_new []))"
| "read_param LocoApiId_kZeroTorqueDrag j =
     map_sum id ReadZeroTorqueDrag (ZeroTorqueDragParameter_from_json j (ZeroTorqueDragParameter_new False))"
| "read_param LocoApiId_kRecordTrajectory j =
     map_sum id ReadRecordTrajectory (RecordTrajectoryParameter_from_json j (RecordTrajectoryParameter_new False))"
| "read_param LocoApiId_kReplayTrajectory j =
     map_sum id ReadReplayTrajectory (ReplayTrajectoryParameter_from_json j (ReplayTrajectoryParameter_new []))"
| "read_param LocoApiId_kWholeBodyDance j =
     map_sum id ReadWholeBodyDance (WholeBodyDanceParameter_from_json j (WholeBodyDanceParameter_new 0))"
| "read_param LocoApiId_kUpperBodyCustomControl j =
     map_sum id ReadUpperBodyCustomControl (UpperBodyCustomControlParameter_from_json j (UpperBodyCustomControlParameter_new False))"
| "read_param LocoApiId_kActivateCustomTrainedTraj j =
     map_sum id ReadActivateCustomTrainedTraj (CustomTrainedTrajParameter_from_json j (CustomTrainedTrajParameter_new []))"
| "read_param LocoApiId_kUnloadCustomTrainedTraj j =
     map_sum id ReadUnloadCustomTrainedTraj (CustomTrainedTrajParameter_from_json j (CustomTrainedTrajParameter_new []))"
| "read_param LocoApiId_kVisualKick j =
     map_sum id ReadVisualKick (VisualKickParameter_from_json j (VisualKickParameter_new False 0))"
| "read_param LocoApiId_kLionDancePrepare j =
     map_sum id ReadLionDancePrepare (LionDancePrepareParameter_from_json j (LionDancePrepareParameter_new False))"
| "read_param LocoApiId_kLionDanceStart j =
     map_sum id ReadLionDanceStart (LionDanceStartParameter_from_json j (LionDanceStartParameter_new 0))"
| "read_param LocoApiId_kLionDanceMove j =
     map_sum id ReadLionDanceMove (LionDanceMoveParameter_from_json j (LionDanceMoveParameter_new False))"
| "read_param LocoApiId_kSwitchGait j =
     map_sum id ReadSwitchGait (SwitchGaitParameter_from_json j (SwitchGaitParameter_new 0))"
| "read_param api j = Inr (ReadDocument api j)"

definition read_request :: "LocoApiId RpcCall \<Rightarrow> json_error + LocoRequest" where
  "read_request call =
     (case call_param call of
        None \<Rightarrow> Inr (ReadNothing (call_api call))
      | Some j \<Rightarrow> read_param (call_api call) (jwire j))"

text \<open>What the service is meant to read for each command.\<close>

fun intended :: "LocoCommand \<Rightarrow> LocoRequest" where
  "intended (DoChangeMode mode) =
     ReadChangeMode (ChangeModeParameter_new mode)"
| "intended (DoMove vx vy vyaw) =
     ReadMove (MoveParameter_new vx vy vyaw)"
| "intended (DoMoveCommand vx vy vyaw) =
     ReadMove (MoveParameter_new vx vy vyaw)"
| "intended (DoRotateHead pitch yaw) =
     ReadRotateHead (RotateHeadParameter_new pitch yaw)"
| "intended (DoRotateHeadWithTime pitch yaw time_millis) =
     ReadRotateHeadWithTime (RotateHeadWithTimeParameter_new pitch yaw time_millis)"
| "intended (DoWaveHand action) =
     ReadWaveHand (WaveHandParameter_new (HandIndex_val HandIndex_kRightHand) action)"
| "intended (DoRotateHeadWithDirection pitch_direction yaw_direction) =
     ReadRotateHeadWithDirection (RotateHeadWithDirectionParameter_new pitch_direction yaw_direction)"
| "intended DoLieDown =
     ReadNothing LocoApiId_kLieDown"
| "intended (DoGetUp version) =
     ReadGetUp (GetUpParameter_new version)"
| "intended (DoGetUpWithMode mode version) =
     ReadGetUpWithMode (GetUpWithModeParameter_new mode version)"
| "intended DoShoot =
     ReadNothing LocoApiId_kShoot"
| "intended (DoMoveHandEndEffectorWithAux target_posture aux_posture time_millis hand_index) =
     ReadMoveHandEndEffector (MoveHandEndEffectorParameter_new_aux target_posture aux_posture time_millis hand_index)"
| "intended (DoMoveHandEndEffector target_posture time_millis hand_index) =
     ReadMoveHandEndEffector (MoveHandEndEffectorParameter_new target_posture time_millis hand_index False)"
| "intended (DoMoveHandEndEffectorV2 target_posture time_millis hand_index) =
     ReadMoveHandEndEffector (MoveHandEndEffectorParameter_new target_posture time_millis hand_index True)"
| "intended (DoMoveDualHandEndEffector left_target_posture right_target_posture time_millis) =
     ReadMoveDualHandEndEffector (MoveDualHandEndEffectorParameter_new left_target_posture right_target_posture time_millis)"
| "intended DoStopHandEndEffector =
     ReadNothing LocoApiId_kStopHandEndEffector"
| "intended (DoControlGripper motion_param mode hand_index) =
     ReadControlGripper (ControlGripperParameter_new motion_param mode hand_index)"
| "intended (DoSwitchHandEndEffectorControlMode switch_on) =
     ReadSwitchHandEndEffectorControlMode (SwitchHandEndEffectorControlModeParameter_new switch_on)"
| "intended (DoHandshake action) =
     ReadHandshake (HandshakeParameter_new action)"
| "intended (DoHandOnChestGreeting up) =
     ReadHandOnChestGreeting (HandOnChestGreetingParameter_new up)"
| "intended (DoControlDexterousHand finger_params hand_index hand_type) =
     ReadControlDexterousHand (ControlDexterousHandParameter_new finger_params hand_index hand_type)"
| "intended (DoDance dance_id) =
     ReadDance (DanceParameter_new dance_id)"
| "intended (DoPlaySound sound_file_path) =
     ReadPlaySound (PlaySoundParameter_new sound_file_path)"
| "intended DoStopSound =
     ReadNothing LocoApiId_kStopSound"
| "intended (DoZeroTorqueDrag active) =
     ReadZeroTorqueDrag (ZeroTorqueDragParameter_new active)"
| "intended (DoRecordTrajectory active) =
     ReadRecordTrajectory (RecordTrajectoryParameter_new active)"
| "intended (DoReplayTrajectory path) =
     ReadReplayTrajectory (ReplayTrajectoryParameter_new path)"
| "intended (DoWholeBodyDance dance_id) =
     ReadWholeBodyDance (WholeBodyDanceParameter_new dance_id)"
| "intended (DoUpperBodyCustomControl start) =
     ReadUpperBodyCustomControl (UpperBodyCustomControlParameter_new start)"
| "intended DoResetOdometry =
     ReadNothing LocoApiId_kResetOdometry"
| "intended (DoResetOdometryTo x y theta) =
     ReadDocument LocoApiId_kResetOdometry
       (jobj [(''x'', JFloat x), (''y'', JFloat y), (''theta'', JFloat theta)])"
| "intended (DoActivateCustomTrainedTraj tid) =
     ReadActivateCustomTrainedTraj (CustomTrainedTrajParameter_new tid)"
| "intended (DoUnloadCustomTrainedTraj tid) =
     ReadUnloadCustomTrainedTraj (CustomTrainedTrajParameter_new tid)"
| "intended DoEnterWBCGait =
     ReadNothing LocoApiId_kEnterWBCGait"
| "intended DoExitWBCGait =
     ReadNothing LocoApiId_kExitWBCGait"
| "intended (DoVisualKick start version) =
     ReadVisualKick (VisualKickParameter_new start version)"
| "intended (DoLionDancePrepare start) =
     ReadLionDancePrepare (LionDancePrepareParameter_new start)"
| "intended (DoLionDanceStart dance_id) =
     ReadLionDanceStart (LionDanceStartParameter_new dance_id)"
| "intended (DoLionDanceMove start) =
     ReadLionDanceMove (LionDanceMoveParameter_new start)"
| "intended (DoSwitchGait gait_type) =
     ReadSwitchGait (SwitchGaitParameter_new gait_type)"

text \<open>The floating arguments are \<open>float\<close>s, and posture arguments have \<open>float\<close> members.\<close>

fun float_args :: "LocoCommand \<Rightarrow> bool" where
  "float_args (DoMove vx vy vyaw) \<longleftrightarrow> f32 vx = vx \<and> f32 vy = vy \<and> f32 vyaw = vyaw"
| "float_args (DoMoveCommand vx vy vyaw) \<longleftrightarrow> f32 vx = vx \<and> f32 vy = vy \<and> f32 vyaw = vyaw"
| "float_args (DoRotateHead pitch yaw) \<longleftrightarrow> f32 pitch = pitch \<and> f32 yaw = yaw"
| "float_args (DoRotateHeadWithTime pitch yaw time_millis) \<longleftrightarrow> f32 pitch = pitch \<and> f32 yaw = yaw"
| "float_args (DoMoveHandEndEffectorWithAux target_posture aux_posture time_millis hand_index) \<longleftrightarrow> Posture_valid target_posture \<and> Posture_valid aux_posture"
| "float_args (DoMoveHandEndEffector target_posture time_millis hand_index) \<longleftrightarrow> Posture_valid target_posture"
| "float_args (DoMoveHandEndEffectorV2 target_posture time_millis hand_index) \<longleftrightarrow> Posture_valid target_posture"
| "float_args (DoMoveDualHandEndEffector left_target_posture right_target_posture time_millis) \<longleftrightarrow> Posture_valid left_target_posture \<and> Posture_valid right_target_posture"
| "float_args _ \<longleftrightarrow> True"

lemmas loco_method_defs =
  ChangeMode_def
  Move_def
  MoveCommand_def
  RotateHead_def
  RotateHeadWithTime_def
  WaveHand_def
  RotateHeadWithDirection_def
  LieDown_def
  GetUp_def
  GetUpWithMode_def
  Shoot_def
  MoveHandEndEffectorWithAux_def
  MoveHandEndEffector_def
  MoveHandEndEffectorV2_def
  MoveDualHandEndEffector_def
  StopHandEndEffector_def
  ControlGripper_def
  SwitchHandEndEffectorControlMode_def
  Handshake_def
  HandOnChestGreeting_def
  ControlDexterousHand_def
  Dance_def
  PlaySound_def
  StopSound_def
  ZeroTorqueDrag_def
  RecordTrajectory_def
  ReplayTrajectory_def
  WholeBodyDance_def
  UpperBodyCustomControl_def
  ResetOdometry_def
  ResetOdometryTo_def
  ActivateCustomTrainedTraj_def
  UnloadCustomTrainedTraj_def
  EnterWBCGait_def
  ExitWBCGait_def
  VisualKick_def
  LionDancePrepare_def
  LionDanceStart_def
  LionDanceMove_def
  SwitchGait_def

lemmas loco_new_defs =
  ChangeModeParameter_new_def
  ControlDexterousHandParameter_new_def
  ControlGripperParameter_new_def
  CustomTrainedTrajParameter_new_def
  DanceParameter_new_def
  GetUpParameter_new_def
  GetUpWithModeParameter_new_def
  HandOnChestGreetingParameter_new_def
  HandshakeParameter_new_def
  LionDanceMoveParameter_new_def
  LionDancePrepareParameter_new_def
  LionDanceStartParameter_new_def
  MoveDualHandEndEffectorParameter_new_def
  MoveHandEndEffectorParameter_new_aux_def
  MoveHandEndEffectorParameter_new_def
  MoveParameter_new_def
  PlaySoundParameter_new_def
  RecordTrajectoryParameter_new_def
  ReplayTrajectoryParameter_new_def
  RotateHeadParameter_new_def
  RotateHeadWithDirectionParameter_new_def
  RotateHeadWithTimeParameter_new_def
  SwitchGaitParameter_new_def
  SwitchHandEndEffectorControlModeParameter_new_def
  UpperBodyCustomControlParameter_new_def
  VisualKickParameter_new_def
  WaveHandParameter_new_def
  WholeBodyDanceParameter_new_def
  ZeroTorqueDragParameter_new_def

text \<open>The call a command makes, as a transport that records calls sees it.\<close>

definition loco_call :: "LocoCommand \<Rightarrow> LocoApiId RpcCall" where
  "loco_call cmd = last (snd (issue cmd (recording 0 (Inl ParseError)) []))"

lemmas send_defs =
  SendApiRequest_def SendApiRequestFireAndForget_def recording_def

lemma issue_calls_once:
  "issue cmd io s = (case io (loco_call cmd) s of (ret, _, s') \<Rightarrow> (ret, s'))"
  by (cases cmd) (simp_all add: loco_call_def loco_method_defs send_defs)

lemmas loco_valid_defs =
  RotateHeadParameter_valid_def RotateHeadWithTimeParameter_valid_def MoveParameter_valid_def
  MoveHandEndEffectorParameter_valid_def MoveDualHandEndEffectorParameter_valid_def

lemma read_request_intended: "float_args cmd \<Longrightarrow> read_request (loco_call cmd) = Inr (intended cmd)"
proof (cases cmd)
  case (DoResetOdometryTo x y theta)
  then show ?thesis
    by (simp add: loco_call_def loco_method_defs send_defs read_request_def jobj_def obj_of_def)
qed (simp_all add: loco_call_def loco_method_defs send_defs read_request_def wire_simps codec_simps
      loco_valid_defs loco_new_defs MoveHandEndEffectorParameter_default_def)

lemma LocoApiId_val_inj: "LocoApiId_val a = LocoApiId_val b \<Longrightarrow> a = b"
  by (cases a; cases b; simp)

text \<open>The answers of a service as transports: a return code without a body, and a written document.\<close>

definition answering :: "i32 \<Rightarrow> json \<Rightarrow> ('api, 's) Transport" where
  "answering ret doc call s = (ret, Inr (jwire doc), s)"

lemmas query_defs =
  QueryInto_def SendApiRequestWithResponse_def answering_def

lemmas loco_query_defs =
  GetMode_def GetStatus_def GetRobotInfo_def GetSensors_def GetHands_def GetRobotModel_def
  GetFrameTransform_def GetTrainedTrajStatus_def LoadCustomTrainedTraj_def

subsection \<open>Properties\<close>

text \<open>
  C5. Every command of the locomotion client reaches the service as meant: the method makes exactly one
  call, returns its code, and the service, reading the call's document with the parameter class of its
  API identifier, gets exactly the method's arguments (with the constants the method fills in).
\<close>

theorem loco_commands_reach_the_service:
  assumes "float_args cmd"
  shows "issue cmd io s = (case io (loco_call cmd) s of (ret, _, s') \<Rightarrow> (ret, s'))
    \<and> read_request (loco_call cmd) = Inr (intended cmd)"
  by (rule conjI [OF issue_calls_once read_request_intended [OF assms]])

theorem loco_commands_reach_the_service_witness:
  "read_request (loco_call (DoControlDexterousHand [] 1 0)) =
     Inr (ReadControlDexterousHand (ControlDexterousHandParameter_new [] 1 0))"
  using loco_commands_reach_the_service [of "DoControlDexterousHand [] 1 0" "recording 0 (Inl ParseError)" "[]"]
  by simp

text \<open>
  C10. API identifiers are distinct numbers, and two commands that make the same call mean the same to
  the service: no method can be mistaken for another.
\<close>

theorem loco_calls_are_unambiguous:
  assumes "float_args cmd" and "float_args cmd'" and "call_param (loco_call cmd) = call_param (loco_call cmd')"
    and "LocoApiId_val (call_api (loco_call cmd)) = LocoApiId_val (call_api (loco_call cmd'))"
  shows "intended cmd = intended cmd'"
proof -
  have "read_request (loco_call cmd) = read_request (loco_call cmd')"
    by (simp only: read_request_def assms(3) LocoApiId_val_inj [OF assms(4)])
  then show ?thesis using read_request_intended assms(1,2) by (metis Inr_inject)
qed

theorem loco_calls_are_unambiguous_witness:
  "intended (DoMove 0 0 0) = intended (DoMoveCommand 0 0 0)"
  by (rule loco_calls_are_unambiguous)
    (simp_all add: loco_call_def Move_def MoveCommand_def send_defs f32_0)

text \<open>
  C11. A service's answer, written with the response class and sent over the wire, arrives unchanged in
  the caller's object, whatever that held before.
\<close>

theorem loco_queries_deliver_the_answer:
  "GetMode (answering 0 (GetModeResponse_to_json m)) m0 s = (Inr (0, m), s)
   \<and> GetStatus (answering 0 (GetStatusResponse_to_json st)) st0 s = (Inr (0, st), s)
   \<and> GetRobotInfo (answering 0 (GetRobotInfoResponse_to_json ri)) ri0 s = (Inr (0, ri), s)
   \<and> GetTrainedTrajStatus (answering 0 (GetTrainedTrajStatusResponse_to_json ts)) ts0 s = (Inr (0, ts), s)
   \<and> LoadCustomTrainedTraj (answering 0 (LoadCustomTrainedTrajResponse_to_json lr)) traj tid0 s = (Inr (0, lct_tid lr), s)"
  by (simp_all add: loco_query_defs query_defs wire_simps codec_simps)

text \<open>
  Device catalogs are classified by the call that fetched them: whatever kind the answer's envelope
  claims, and also for a bare body, the result has the kind of the query.
\<close>

lemma catalog_kind_is_the_query:
  assumes "DeviceInfo_from_json (jwire doc) info = Inr d"
  shows "GetSensors (answering 0 doc) info s = (Inr (0, d\<lparr>di_kind := DeviceInfoKind_val DeviceInfoKind_kSensors\<rparr>), s)
    \<and> GetHands (answering 0 doc) info s = (Inr (0, d\<lparr>di_kind := DeviceInfoKind_val DeviceInfoKind_kHands\<rparr>), s)
    \<and> GetRobotModel (answering 0 doc) info s = (Inr (0, d\<lparr>di_kind := DeviceInfoKind_val DeviceInfoKind_kRobotModel\<rparr>), s)"
  using assms by (simp add: loco_query_defs query_defs)

lemma catalog_kind_is_the_query_witness:
  "GetHands (answering 0 (JArr [])) DeviceInfo_default () = (Inr (0, \<lparr>di_kind = 1, di_json = JArr []\<rparr>), ())"
  using catalog_kind_is_the_query [of "JArr []" DeviceInfo_default "\<lparr>di_kind = - 1, di_json = JArr []\<rparr>" "()"]
  by (simp add: DeviceInfo_from_json_def contains_def jfind_def DeviceInfo_default_def)

text \<open>
  A query whose request fails with a non-zero code never parses a body and never touches the output
  object.
\<close>

lemma failed_query_keeps_output:
  assumes "ret \<noteq> 0"
  shows "GetMode (answering ret doc) m0 s = (Inr (ret, m0), s)
    \<and> GetStatus (answering ret doc) st0 s = (Inr (ret, st0), s)
    \<and> GetRobotInfo (answering ret doc) ri0 s = (Inr (ret, ri0), s)
    \<and> GetSensors (answering ret doc) d0 s = (Inr (ret, d0), s)
    \<and> GetHands (answering ret doc) d0 s = (Inr (ret, d0), s)
    \<and> GetRobotModel (answering ret doc) d0 s = (Inr (ret, d0), s)
    \<and> GetFrameTransform (answering ret doc) a b t0 s = (Inr (ret, t0), s)
    \<and> GetTrainedTrajStatus (answering ret doc) ts0 s = (Inr (ret, ts0), s)
    \<and> LoadCustomTrainedTraj (answering ret doc) traj tid0 s = (Inr (ret, tid0), s)"
  using assms by (simp add: loco_query_defs query_defs)

lemma failed_query_keeps_output_witness:
  "GetMode (answering 100 JNull) \<lparr>gmr_mode = 2\<rparr> () = (Inr (100, \<lparr>gmr_mode = 2\<rparr>), ())"
  using failed_query_keeps_output [of 100 JNull "\<lparr>gmr_mode = 2\<rparr>" "()"] by simp

end
