(* ===== verification/Ai_Api.thy ===== *)
theory Ai_Api
  imports Rpc_Client
begin

text \<open>
  The AI services, \<open>robot/ai/api.hpp\<close> and \<open>robot/ai/client.hpp\<close>: the chat and language-interface (LUI)
  parameter classes with their codecs, the two text helpers of the header and the methods of
  \<open>AiClient\<close>.  The methods of \<open>LuiClient\<close> are compiled into the binary library.

  The LUI classes and \<open>TtsConfig\<close> catch the exceptions of the JSON library and throw a
  \<open>std::runtime_error\<close> with a prefix of their own (\<open>rethrow\<close>); the other classes let them through.
\<close>

subsection \<open>Identifiers and limits\<close>

datatype AiApiId =
    AiApiId_kStartAiChat | AiApiId_kStopAiChat | AiApiId_kSpeak | AiApiId_kStartFaceTracking
  | AiApiId_kStopFaceTracking

fun AiApiId_val :: "AiApiId \<Rightarrow> i32" where
  "AiApiId_val AiApiId_kStartAiChat = 2000"
| "AiApiId_val AiApiId_kStopAiChat = 2001"
| "AiApiId_val AiApiId_kSpeak = 2002"
| "AiApiId_val AiApiId_kStartFaceTracking = 2003"
| "AiApiId_val AiApiId_kStopFaceTracking = 2004"

datatype LuiApiId =
    LuiApiId_kStartAsr | LuiApiId_kStopAsr | LuiApiId_kStartTts | LuiApiId_kStopTts
  | LuiApiId_kSendTtsText | LuiApiId_kSynthesizeSpeech | LuiApiId_kRecognizeAudioOnce
  | LuiApiId_kStartAudioRecognizer | LuiApiId_kStopAudioRecognizer
  | LuiApiId_kRecognizeAudioInSession

fun LuiApiId_val :: "LuiApiId \<Rightarrow> i32" where
  "LuiApiId_val LuiApiId_kStartAsr = 1000"
| "LuiApiId_val LuiApiId_kStopAsr = 1001"
| "LuiApiId_val LuiApiId_kStartTts = 1050"
| "LuiApiId_val LuiApiId_kStopTts = 1051"
| "LuiApiId_val LuiApiId_kSendTtsText = 1052"
| "LuiApiId_val LuiApiId_kSynthesizeSpeech = 1100"
| "LuiApiId_val LuiApiId_kRecognizeAudioOnce = 1101"
| "LuiApiId_val LuiApiId_kStartAudioRecognizer = 1102"
| "LuiApiId_val LuiApiId_kStopAudioRecognizer = 1103"
| "LuiApiId_val LuiApiId_kRecognizeAudioInSession = 1104"

definition kLuiMaxSynthesizeTextCodePoints :: i32 where "kLuiMaxSynthesizeTextCodePoints = 1000"
definition kLuiMaxRecognizeAudioDurationMs :: i32 where "kLuiMaxRecognizeAudioDurationMs = 120 * 1000"
definition kLuiMaxRecognizeAudioBytes :: i64 where "kLuiMaxRecognizeAudioBytes = 6 * 1024 * 1024"

subsection \<open>Chat parameters\<close>

text \<open>\<open>ignore_bracket_text_\<close> is a vector of \<open>int8_t\<close> that travels as a vector of \<open>int\<close>.\<close>

lemma ucast_scast_i8 [simp]: "(ucast (scast (w :: i8) :: i32) :: i8) = w"
  by (rule bit_word_eqI) (auto simp add: bit_simps)

lemma map_i8_i32 [simp, codec_simps]: "map (ucast \<circ> (scast :: i8 \<Rightarrow> i32)) ws = (ws :: i8 list)"
  by (induction ws) auto

record TtsConfig =
  tts_voice_type :: string
  tts_ignore_bracket_text :: "i8 list"

definition TtsConfig_new :: "string \<Rightarrow> i8 list \<Rightarrow> TtsConfig" where
  "TtsConfig_new voice_type ignore_bracket_text =
     \<lparr>tts_voice_type = voice_type, tts_ignore_bracket_text = ignore_bracket_text\<rparr>"

definition TtsConfig_to_json :: "TtsConfig \<Rightarrow> json" where
  "TtsConfig_to_json self =
     jobj [(''voice_type'', JStr (tts_voice_type self)),
      (''ignore_bracket_text'', j_vec j_i32 (map scast (tts_ignore_bracket_text self)))]"

definition TtsConfig_from_json :: "json \<Rightarrow> TtsConfig \<Rightarrow> json_error + TtsConfig" where
  "TtsConfig_from_json j self =
     rethrow ''TtsConfig JSON error: '' (
     sbind (fld_at get_str j ''voice_type'') (\<lambda>voice_type.
     sbind (fld_at (get_vec get_i32) j ''ignore_bracket_text'') (\<lambda>int_array.
     Inr (self\<lparr>tts_voice_type := voice_type,
               tts_ignore_bracket_text := map (\<lambda>w. ucast w) int_array\<rparr>))))"

interpretation tts_config: json_codec TtsConfig_to_json TtsConfig_from_json
  "\<lambda>_. True" "\<lambda>_. True"
  by unfold_locales
    (auto simp: TtsConfig_to_json_def TtsConfig_from_json_def
      codec_simps wire_simps intro!: TtsConfig.equality)

declare tts_config.roundtrip [codec_simps] tts_config.wire_blind [wire_simps]

record LlmConfig =
  llm_system_prompt :: string
  llm_welcome_msg :: string
  llm_prompt_name :: string

definition LlmConfig_new :: "string \<Rightarrow> string \<Rightarrow> string \<Rightarrow> LlmConfig" where
  "LlmConfig_new system_prompt welcome_msg prompt_name =
     \<lparr>llm_system_prompt = system_prompt, llm_welcome_msg = welcome_msg, llm_prompt_name = prompt_name\<rparr>"

definition LlmConfig_to_json :: "LlmConfig \<Rightarrow> json" where
  "LlmConfig_to_json self =
     jobj [(''system_prompt'', JStr (llm_system_prompt self)),
      (''welcome_msg'', JStr (llm_welcome_msg self)),
      (''prompt_name'', JStr (llm_prompt_name self))]"

definition LlmConfig_from_json :: "json \<Rightarrow> LlmConfig \<Rightarrow> json_error + LlmConfig" where
  "LlmConfig_from_json j self =
     sbind (fld_at get_str j ''system_prompt'') (\<lambda>system_prompt.
     sbind (fld_at get_str j ''welcome_msg'') (\<lambda>welcome_msg.
     sbind (fld_at get_str j ''prompt_name'') (\<lambda>prompt_name.
     Inr (self\<lparr>llm_system_prompt := system_prompt, llm_welcome_msg := welcome_msg, llm_prompt_name := prompt_name\<rparr>))))"

interpretation llm_config: json_codec LlmConfig_to_json LlmConfig_from_json
  "\<lambda>_. True" "\<lambda>_. True"
  by unfold_locales
    (auto simp: LlmConfig_to_json_def LlmConfig_from_json_def
      codec_simps wire_simps intro!: LlmConfig.equality)

declare llm_config.roundtrip [codec_simps] llm_config.wire_blind [wire_simps]

record AsrConfig =
  asr_interrupt_speech_duration :: i32
  asr_interrupt_keywords :: "string list"

definition AsrConfig_new :: "i32 \<Rightarrow> string list \<Rightarrow> AsrConfig" where
  "AsrConfig_new interrupt_speech_duration interrupt_keywords =
     \<lparr>asr_interrupt_speech_duration = interrupt_speech_duration, asr_interrupt_keywords = interrupt_keywords\<rparr>"

definition AsrConfig_to_json :: "AsrConfig \<Rightarrow> json" where
  "AsrConfig_to_json self =
     jobj [(''interrupt_speech_duration'', j_i32 (asr_interrupt_speech_duration self)),
      (''interrupt_keywords'', j_vec JStr (asr_interrupt_keywords self))]"

definition AsrConfig_from_json :: "json \<Rightarrow> AsrConfig \<Rightarrow> json_error + AsrConfig" where
  "AsrConfig_from_json j self =
     sbind (fld get_i32 j ''interrupt_speech_duration'') (\<lambda>interrupt_speech_duration.
     sbind (fld (get_vec get_str) j ''interrupt_keywords'') (\<lambda>interrupt_keywords.
     Inr (self\<lparr>asr_interrupt_speech_duration := interrupt_speech_duration, asr_interrupt_keywords := interrupt_keywords\<rparr>)))"

interpretation asr_config: json_codec AsrConfig_to_json AsrConfig_from_json
  "\<lambda>_. True" "\<lambda>_. True"
  by unfold_locales
    (auto simp: AsrConfig_to_json_def AsrConfig_from_json_def
      codec_simps wire_simps intro!: AsrConfig.equality)

declare asr_config.roundtrip [codec_simps] asr_config.wire_blind [wire_simps]

record StartAiChatParameter =
  sac_persona_id :: string
  sac_interrupt_mode :: bool
  sac_tts_config :: TtsConfig
  sac_llm_config :: LlmConfig
  sac_asr_config :: AsrConfig
  sac_enable_face_tracking :: bool

definition StartAiChatParameter_to_json :: "StartAiChatParameter \<Rightarrow> json" where
  "StartAiChatParameter_to_json self = jobj (
     (if sac_persona_id self \<noteq> [] then [(''persona_id'', JStr (sac_persona_id self))] else [])
     @ [(''interrupt_mode'', JBool (sac_interrupt_mode self)),
        (''asr_config'', AsrConfig_to_json (sac_asr_config self)),
        (''llm_config'', LlmConfig_to_json (sac_llm_config self)),
        (''tts_config'', TtsConfig_to_json (sac_tts_config self)),
        (''enable_face_tracking'', JBool (sac_enable_face_tracking self))])"

definition StartAiChatParameter_from_json ::
    "json \<Rightarrow> StartAiChatParameter \<Rightarrow> json_error + StartAiChatParameter" where
  "StartAiChatParameter_from_json j self =
     sbind (jvalue get_str j ''persona_id'' []) (\<lambda>persona_id.
     sbind (fld get_bool j ''interrupt_mode'') (\<lambda>interrupt_mode.
     sbind (fld get_bool j ''enable_face_tracking'') (\<lambda>enable_face_tracking.
     sbind (fld (\<lambda>v. TtsConfig_from_json v (sac_tts_config self)) j ''tts_config'') (\<lambda>tts_config.
     sbind (fld (\<lambda>v. LlmConfig_from_json v (sac_llm_config self)) j ''llm_config'') (\<lambda>llm_config.
     sbind (fld (\<lambda>v. AsrConfig_from_json v (sac_asr_config self)) j ''asr_config'') (\<lambda>asr_config.
     Inr (self\<lparr>sac_persona_id := persona_id, sac_interrupt_mode := interrupt_mode,
               sac_enable_face_tracking := enable_face_tracking, sac_tts_config := tts_config,
               sac_llm_config := llm_config, sac_asr_config := asr_config\<rparr>)))))))"

interpretation start_ai_chat_parameter: json_codec StartAiChatParameter_to_json StartAiChatParameter_from_json
  "\<lambda>_. True" "\<lambda>_. True"
  by unfold_locales
    (auto simp: StartAiChatParameter_to_json_def StartAiChatParameter_from_json_def
      codec_simps wire_simps intro!: StartAiChatParameter.equality)

declare start_ai_chat_parameter.roundtrip [codec_simps] start_ai_chat_parameter.wire_blind [wire_simps]

record SpeakParameter =
  spk_msg :: string

definition SpeakParameter_new :: "string \<Rightarrow> SpeakParameter" where
  "SpeakParameter_new msg =
     \<lparr>spk_msg = msg\<rparr>"

definition SpeakParameter_to_json :: "SpeakParameter \<Rightarrow> json" where
  "SpeakParameter_to_json self =
     jobj [(''msg'', JStr (spk_msg self))]"

definition SpeakParameter_from_json :: "json \<Rightarrow> SpeakParameter \<Rightarrow> json_error + SpeakParameter" where
  "SpeakParameter_from_json j self =
     sbind (fld get_str j ''msg'') (\<lambda>msg.
     Inr (self\<lparr>spk_msg := msg\<rparr>))"

interpretation speak_parameter: json_codec SpeakParameter_to_json SpeakParameter_from_json
  "\<lambda>_. True" "\<lambda>_. True"
  by unfold_locales
    (auto simp: SpeakParameter_to_json_def SpeakParameter_from_json_def
      codec_simps wire_simps intro!: SpeakParameter.equality)

declare speak_parameter.roundtrip [codec_simps] speak_parameter.wire_blind [wire_simps]

subsection \<open>LUI requests and responses\<close>

record LuiAsrStartRequest =
  las_session_id :: string
  las_client_id :: string

definition LuiAsrStartRequest_new :: "string \<Rightarrow> string \<Rightarrow> LuiAsrStartRequest" where
  "LuiAsrStartRequest_new session_id client_id =
     \<lparr>las_session_id = session_id, las_client_id = client_id\<rparr>"

definition LuiAsrStartRequest_to_json :: "LuiAsrStartRequest \<Rightarrow> json" where
  "LuiAsrStartRequest_to_json self =
     jobj [(''session_id'', JStr (las_session_id self)),
      (''client_id'', JStr (las_client_id self))]"

definition LuiAsrStartRequest_from_json :: "json \<Rightarrow> LuiAsrStartRequest \<Rightarrow> json_error + LuiAsrStartRequest" where
  "LuiAsrStartRequest_from_json j self =
     rethrow ''LuiAsrStartRequest JSON error: '' (
     sbind (fld_at get_str j ''session_id'') (\<lambda>session_id.
     sbind (fld_at get_str j ''client_id'') (\<lambda>client_id.
     Inr (self\<lparr>las_session_id := session_id, las_client_id := client_id\<rparr>))))"

interpretation lui_asr_start_request: json_codec LuiAsrStartRequest_to_json LuiAsrStartRequest_from_json
  "\<lambda>_. True" "\<lambda>_. True"
  by unfold_locales
    (auto simp: LuiAsrStartRequest_to_json_def LuiAsrStartRequest_from_json_def
      codec_simps wire_simps intro!: LuiAsrStartRequest.equality)

declare lui_asr_start_request.roundtrip [codec_simps] lui_asr_start_request.wire_blind [wire_simps]

record LuiAsrStopRequest =
  lap_session_id :: string
  lap_client_id :: string

definition LuiAsrStopRequest_new :: "string \<Rightarrow> string \<Rightarrow> LuiAsrStopRequest" where
  "LuiAsrStopRequest_new session_id client_id =
     \<lparr>lap_session_id = session_id, lap_client_id = client_id\<rparr>"

definition LuiAsrStopRequest_to_json :: "LuiAsrStopRequest \<Rightarrow> json" where
  "LuiAsrStopRequest_to_json self =
     jobj [(''session_id'', JStr (lap_session_id self)),
      (''client_id'', JStr (lap_client_id self))]"

definition LuiAsrStopRequest_from_json :: "json \<Rightarrow> LuiAsrStopRequest \<Rightarrow> json_error + LuiAsrStopRequest" where
  "LuiAsrStopRequest_from_json j self =
     rethrow ''LuiAsrStopRequest JSON error: '' (
     sbind (fld_at get_str j ''session_id'') (\<lambda>session_id.
     sbind (fld_at get_str j ''client_id'') (\<lambda>client_id.
     Inr (self\<lparr>lap_session_id := session_id, lap_client_id := client_id\<rparr>))))"

interpretation lui_asr_stop_request: json_codec LuiAsrStopRequest_to_json LuiAsrStopRequest_from_json
  "\<lambda>_. True" "\<lambda>_. True"
  by unfold_locales
    (auto simp: LuiAsrStopRequest_to_json_def LuiAsrStopRequest_from_json_def
      codec_simps wire_simps intro!: LuiAsrStopRequest.equality)

declare lui_asr_stop_request.roundtrip [codec_simps] lui_asr_stop_request.wire_blind [wire_simps]

record LuiTtsConfig =
  ltc_voice_type :: string

definition LuiTtsConfig_new :: "string \<Rightarrow> LuiTtsConfig" where
  "LuiTtsConfig_new voice_type =
     \<lparr>ltc_voice_type = voice_type\<rparr>"

definition LuiTtsConfig_to_json :: "LuiTtsConfig \<Rightarrow> json" where
  "LuiTtsConfig_to_json self =
     jobj [(''voice_type'', JStr (ltc_voice_type self))]"

definition LuiTtsConfig_from_json :: "json \<Rightarrow> LuiTtsConfig \<Rightarrow> json_error + LuiTtsConfig" where
  "LuiTtsConfig_from_json j self =
     rethrow ''LuiTtsConfig JSON error: '' (
     sbind (fld_at get_str j ''voice_type'') (\<lambda>voice_type.
     Inr (self\<lparr>ltc_voice_type := voice_type\<rparr>)))"

interpretation lui_tts_config: json_codec LuiTtsConfig_to_json LuiTtsConfig_from_json
  "\<lambda>_. True" "\<lambda>_. True"
  by unfold_locales
    (auto simp: LuiTtsConfig_to_json_def LuiTtsConfig_from_json_def
      codec_simps wire_simps intro!: LuiTtsConfig.equality)

declare lui_tts_config.roundtrip [codec_simps] lui_tts_config.wire_blind [wire_simps]

record LuiTtsStopRequest =
  lts_session_id :: string
  lts_client_id :: string

definition LuiTtsStopRequest_new :: "string \<Rightarrow> string \<Rightarrow> LuiTtsStopRequest" where
  "LuiTtsStopRequest_new session_id client_id =
     \<lparr>lts_session_id = session_id, lts_client_id = client_id\<rparr>"

definition LuiTtsStopRequest_to_json :: "LuiTtsStopRequest \<Rightarrow> json" where
  "LuiTtsStopRequest_to_json self =
     jobj [(''session_id'', JStr (lts_session_id self)),
      (''client_id'', JStr (lts_client_id self))]"

definition LuiTtsStopRequest_from_json :: "json \<Rightarrow> LuiTtsStopRequest \<Rightarrow> json_error + LuiTtsStopRequest" where
  "LuiTtsStopRequest_from_json j self =
     rethrow ''LuiTtsStopRequest JSON error: '' (
     sbind (fld_at get_str j ''session_id'') (\<lambda>session_id.
     sbind (fld_at get_str j ''client_id'') (\<lambda>client_id.
     Inr (self\<lparr>lts_session_id := session_id, lts_client_id := client_id\<rparr>))))"

interpretation lui_tts_stop_request: json_codec LuiTtsStopRequest_to_json LuiTtsStopRequest_from_json
  "\<lambda>_. True" "\<lambda>_. True"
  by unfold_locales
    (auto simp: LuiTtsStopRequest_to_json_def LuiTtsStopRequest_from_json_def
      codec_simps wire_simps intro!: LuiTtsStopRequest.equality)

declare lui_tts_stop_request.roundtrip [codec_simps] lui_tts_stop_request.wire_blind [wire_simps]

record LuiTtsParameter =
  ltp_text :: string

definition LuiTtsParameter_new :: "string \<Rightarrow> LuiTtsParameter" where
  "LuiTtsParameter_new text =
     \<lparr>ltp_text = text\<rparr>"

definition LuiTtsParameter_to_json :: "LuiTtsParameter \<Rightarrow> json" where
  "LuiTtsParameter_to_json self =
     jobj [(''text'', JStr (ltp_text self))]"

definition LuiTtsParameter_from_json :: "json \<Rightarrow> LuiTtsParameter \<Rightarrow> json_error + LuiTtsParameter" where
  "LuiTtsParameter_from_json j self =
     rethrow ''LuiTtsParameter JSON error: '' (
     sbind (fld_at get_str j ''text'') (\<lambda>text.
     Inr (self\<lparr>ltp_text := text\<rparr>)))"

interpretation lui_tts_parameter: json_codec LuiTtsParameter_to_json LuiTtsParameter_from_json
  "\<lambda>_. True" "\<lambda>_. True"
  by unfold_locales
    (auto simp: LuiTtsParameter_to_json_def LuiTtsParameter_from_json_def
      codec_simps wire_simps intro!: LuiTtsParameter.equality)

declare lui_tts_parameter.roundtrip [codec_simps] lui_tts_parameter.wire_blind [wire_simps]

record LuiSynthesizeSpeechRequest =
  lsq_text :: string
  lsq_voice_type :: string
  lsq_speed :: real
  lsq_playback :: bool

definition LuiSynthesizeSpeechRequest_default :: LuiSynthesizeSpeechRequest where
  "LuiSynthesizeSpeechRequest_default =
     \<lparr>lsq_text = [], lsq_voice_type = ''default'', lsq_speed = 1, lsq_playback = False\<rparr>"

definition LuiSynthesizeSpeechRequest_new :: "string \<Rightarrow> string \<Rightarrow> real \<Rightarrow> bool \<Rightarrow> LuiSynthesizeSpeechRequest" where
  "LuiSynthesizeSpeechRequest_new text voice_type speed playback =
     \<lparr>lsq_text = text, lsq_voice_type = voice_type, lsq_speed = speed, lsq_playback = playback\<rparr>"

definition LuiSynthesizeSpeechRequest_to_json :: "LuiSynthesizeSpeechRequest \<Rightarrow> json" where
  "LuiSynthesizeSpeechRequest_to_json self =
     jobj [(''text'', JStr (lsq_text self)),
      (''voice_type'', JStr (lsq_voice_type self)),
      (''speed'', JFloat (lsq_speed self)),
      (''playback'', JBool (lsq_playback self))]"

definition LuiSynthesizeSpeechRequest_from_json :: "json \<Rightarrow> LuiSynthesizeSpeechRequest \<Rightarrow> json_error + LuiSynthesizeSpeechRequest" where
  "LuiSynthesizeSpeechRequest_from_json j self =
     rethrow ''LuiSynthesizeSpeechRequest JSON error: '' (
     sbind (fld_at get_str j ''text'') (\<lambda>text.
     sbind (fld_opt get_str j ''voice_type'' (lsq_voice_type self)) (\<lambda>voice_type.
     sbind (fld_opt get_double j ''speed'' (lsq_speed self)) (\<lambda>speed.
     sbind (fld_opt get_bool j ''playback'' (lsq_playback self)) (\<lambda>playback.
     Inr (self\<lparr>lsq_text := text, lsq_voice_type := voice_type, lsq_speed := speed, lsq_playback := playback\<rparr>))))))"

interpretation lui_synthesize_speech_request: json_codec LuiSynthesizeSpeechRequest_to_json LuiSynthesizeSpeechRequest_from_json
  "\<lambda>_. True" "\<lambda>_. True"
  by unfold_locales
    (auto simp: LuiSynthesizeSpeechRequest_to_json_def LuiSynthesizeSpeechRequest_from_json_def
      codec_simps wire_simps intro!: LuiSynthesizeSpeechRequest.equality)

declare lui_synthesize_speech_request.roundtrip [codec_simps] lui_synthesize_speech_request.wire_blind [wire_simps]

record LuiSynthesizeSpeechResponse =
  lsr_audio_base64 :: string
  lsr_sample_rate_hz :: i32
  lsr_channels :: i32
  lsr_bits_per_sample :: i32
  lsr_format :: string

definition LuiSynthesizeSpeechResponse_default :: LuiSynthesizeSpeechResponse where
  "LuiSynthesizeSpeechResponse_default =
     \<lparr>lsr_audio_base64 = [], lsr_sample_rate_hz = 16000, lsr_channels = 1, lsr_bits_per_sample = 16, lsr_format = ''pcm_s16le''\<rparr>"

definition LuiSynthesizeSpeechResponse_to_json :: "LuiSynthesizeSpeechResponse \<Rightarrow> json" where
  "LuiSynthesizeSpeechResponse_to_json self =
     jobj [(''audio_base64'', JStr (lsr_audio_base64 self)),
      (''sample_rate_hz'', j_i32 (lsr_sample_rate_hz self)),
      (''channels'', j_i32 (lsr_channels self)),
      (''bits_per_sample'', j_i32 (lsr_bits_per_sample self)),
      (''format'', JStr (lsr_format self))]"

definition LuiSynthesizeSpeechResponse_from_json :: "json \<Rightarrow> LuiSynthesizeSpeechResponse \<Rightarrow> json_error + LuiSynthesizeSpeechResponse" where
  "LuiSynthesizeSpeechResponse_from_json j self =
     rethrow ''LuiSynthesizeSpeechResponse JSON error: '' (
     sbind (fld_at get_str j ''audio_base64'') (\<lambda>audio_base64.
     sbind (fld_at get_i32 j ''sample_rate_hz'') (\<lambda>sample_rate_hz.
     sbind (fld_at get_i32 j ''channels'') (\<lambda>channels.
     sbind (fld_at get_i32 j ''bits_per_sample'') (\<lambda>bits_per_sample.
     sbind (fld_at get_str j ''format'') (\<lambda>format.
     Inr (self\<lparr>lsr_audio_base64 := audio_base64, lsr_sample_rate_hz := sample_rate_hz, lsr_channels := channels, lsr_bits_per_sample := bits_per_sample, lsr_format := format\<rparr>)))))))"

interpretation lui_synthesize_speech_response: json_codec LuiSynthesizeSpeechResponse_to_json LuiSynthesizeSpeechResponse_from_json
  "\<lambda>_. True" "\<lambda>_. True"
  by unfold_locales
    (auto simp: LuiSynthesizeSpeechResponse_to_json_def LuiSynthesizeSpeechResponse_from_json_def
      codec_simps wire_simps intro!: LuiSynthesizeSpeechResponse.equality)

declare lui_synthesize_speech_response.roundtrip [codec_simps] lui_synthesize_speech_response.wire_blind [wire_simps]

record LuiRecognizeAudioRequest =
  lrq_input_type :: string
  lrq_file_path :: string
  lrq_audio_base64 :: string
  lrq_sample_rate_hz :: i32
  lrq_channels :: i32
  lrq_bits_per_sample :: i32
  lrq_format :: string

definition LuiRecognizeAudioRequest_default :: LuiRecognizeAudioRequest where
  "LuiRecognizeAudioRequest_default =
     \<lparr>lrq_input_type = [], lrq_file_path = [], lrq_audio_base64 = [], lrq_sample_rate_hz = 16000, lrq_channels = 1, lrq_bits_per_sample = 16, lrq_format = ''pcm_s16le''\<rparr>"

definition FromFile :: "string \<Rightarrow> LuiRecognizeAudioRequest" where
  "FromFile file_path =
     LuiRecognizeAudioRequest_default\<lparr>lrq_input_type := ''file'', lrq_file_path := file_path\<rparr>"

definition FromPcmBase64 :: "string \<Rightarrow> i32 \<Rightarrow> i32 \<Rightarrow> i32 \<Rightarrow> string \<Rightarrow> LuiRecognizeAudioRequest" where
  "FromPcmBase64 audio_base64 sample_rate_hz channels bits_per_sample format =
     LuiRecognizeAudioRequest_default\<lparr>lrq_input_type := ''pcm'', lrq_audio_base64 := audio_base64,
       lrq_sample_rate_hz := sample_rate_hz, lrq_channels := channels,
       lrq_bits_per_sample := bits_per_sample, lrq_format := format\<rparr>"

definition LuiRecognizeAudioRequest_to_json :: "LuiRecognizeAudioRequest \<Rightarrow> json" where
  "LuiRecognizeAudioRequest_to_json self = jobj (
     [(''input_type'', JStr (lrq_input_type self))]
     @ (if lrq_file_path self \<noteq> [] then [(''file_path'', JStr (lrq_file_path self))] else [])
     @ (if lrq_audio_base64 self \<noteq> [] then [(''audio_base64'', JStr (lrq_audio_base64 self))] else [])
     @ [(''sample_rate_hz'', j_i32 (lrq_sample_rate_hz self)),
        (''channels'', j_i32 (lrq_channels self)),
        (''bits_per_sample'', j_i32 (lrq_bits_per_sample self)),
        (''format'', JStr (lrq_format self))])"

definition LuiRecognizeAudioRequest_from_json :: "json \<Rightarrow> LuiRecognizeAudioRequest \<Rightarrow> json_error + LuiRecognizeAudioRequest" where
  "LuiRecognizeAudioRequest_from_json j self =
     rethrow ''LuiRecognizeAudioRequest JSON error: '' (
     sbind (fld_at get_str j ''input_type'') (\<lambda>input_type.
     sbind (fld_opt get_str j ''file_path'' (lrq_file_path self)) (\<lambda>file_path.
     sbind (fld_opt get_str j ''audio_base64'' (lrq_audio_base64 self)) (\<lambda>audio_base64.
     sbind (fld_opt get_i32 j ''sample_rate_hz'' (lrq_sample_rate_hz self)) (\<lambda>sample_rate_hz.
     sbind (fld_opt get_i32 j ''channels'' (lrq_channels self)) (\<lambda>channels.
     sbind (fld_opt get_i32 j ''bits_per_sample'' (lrq_bits_per_sample self)) (\<lambda>bits_per_sample.
     sbind (fld_opt get_str j ''format'' (lrq_format self)) (\<lambda>format.
     Inr (self\<lparr>lrq_input_type := input_type, lrq_file_path := file_path, lrq_audio_base64 := audio_base64, lrq_sample_rate_hz := sample_rate_hz, lrq_channels := channels, lrq_bits_per_sample := bits_per_sample, lrq_format := format\<rparr>)))))))))"

interpretation lui_recognize_audio_request: json_codec LuiRecognizeAudioRequest_to_json LuiRecognizeAudioRequest_from_json
  "\<lambda>_. True" "\<lambda>self. lrq_file_path self = [] \<and> lrq_audio_base64 self = []"
  by unfold_locales
    (auto simp: LuiRecognizeAudioRequest_to_json_def LuiRecognizeAudioRequest_from_json_def
      codec_simps wire_simps intro!: LuiRecognizeAudioRequest.equality)

declare lui_recognize_audio_request.roundtrip [codec_simps] lui_recognize_audio_request.wire_blind [wire_simps]

record LuiRecognizeAudioResponse =
  lrr_text :: string

definition LuiRecognizeAudioResponse_to_json :: "LuiRecognizeAudioResponse \<Rightarrow> json" where
  "LuiRecognizeAudioResponse_to_json self =
     jobj [(''text'', JStr (lrr_text self))]"

definition LuiRecognizeAudioResponse_from_json :: "json \<Rightarrow> LuiRecognizeAudioResponse \<Rightarrow> json_error + LuiRecognizeAudioResponse" where
  "LuiRecognizeAudioResponse_from_json j self =
     rethrow ''LuiRecognizeAudioResponse JSON error: '' (
     sbind (fld_at get_str j ''text'') (\<lambda>text.
     Inr (self\<lparr>lrr_text := text\<rparr>)))"

interpretation lui_recognize_audio_response: json_codec LuiRecognizeAudioResponse_to_json LuiRecognizeAudioResponse_from_json
  "\<lambda>_. True" "\<lambda>_. True"
  by unfold_locales
    (auto simp: LuiRecognizeAudioResponse_to_json_def LuiRecognizeAudioResponse_from_json_def
      codec_simps wire_simps intro!: LuiRecognizeAudioResponse.equality)

declare lui_recognize_audio_response.roundtrip [codec_simps] lui_recognize_audio_response.wire_blind [wire_simps]

subsection \<open>Text helpers\<close>

unbundle bit_operations_syntax

definition CountUtf8CodePoints :: "string \<Rightarrow> int" where
  "CountUtf8CodePoints text =
     int (length (filter (\<lambda>raw_byte. (of_char raw_byte :: u8) AND 0xC0 \<noteq> 0x80) text))"

definition EstimateBase64DecodedBytes :: "string \<Rightarrow> int" where
  "EstimateBase64DecodedBytes base64_data =
     int (length base64_data) div 4 * 3
     - int (length (takeWhile (\<lambda>c. c = CHR ''='') (rev base64_data)))"

subsection \<open>\<open>AiClient\<close>\<close>

definition StartAiChat :: "(AiApiId, 's) Transport \<Rightarrow> StartAiChatParameter \<Rightarrow> 's \<Rightarrow> i32 \<times> 's" where
  "StartAiChat io param s =
     SendApiRequest io AiApiId_kStartAiChat (Some (StartAiChatParameter_to_json param)) s"

definition StopAiChat :: "(AiApiId, 's) Transport \<Rightarrow> 's \<Rightarrow> i32 \<times> 's" where
  "StopAiChat io s = SendApiRequest io AiApiId_kStopAiChat None s"

definition Speak :: "(AiApiId, 's) Transport \<Rightarrow> SpeakParameter \<Rightarrow> 's \<Rightarrow> i32 \<times> 's" where
  "Speak io param s = SendApiRequest io AiApiId_kSpeak (Some (SpeakParameter_to_json param)) s"

definition StartFaceTracking :: "(AiApiId, 's) Transport \<Rightarrow> 's \<Rightarrow> i32 \<times> 's" where
  "StartFaceTracking io s = SendApiRequest io AiApiId_kStartFaceTracking None s"

definition StopFaceTracking :: "(AiApiId, 's) Transport \<Rightarrow> 's \<Rightarrow> i32 \<times> 's" where
  "StopFaceTracking io s = SendApiRequest io AiApiId_kStopFaceTracking None s"

subsection \<open>The encodings the helpers measure\<close>

text \<open>UTF-8 (RFC 3629) and Base64 (RFC 4648) encoders, as the specification of the two helpers.\<close>

fun utf8_bytes :: "nat \<Rightarrow> nat list" where
  "utf8_bytes n =
     (if n < 0x80 then [n]
      else if n < 0x800 then [0xC0 + n div 0x40, 0x80 + n mod 0x40]
      else if n < 0x10000 then [0xE0 + n div 0x1000, 0x80 + n div 0x40 mod 0x40, 0x80 + n mod 0x40]
      else [0xF0 + n div 0x40000, 0x80 + n div 0x1000 mod 0x40, 0x80 + n div 0x40 mod 0x40, 0x80 + n mod 0x40])"

definition utf8_encode :: "nat list \<Rightarrow> string" where
  "utf8_encode cps = map char_of (concat (map utf8_bytes cps))"

definition base64_char :: "nat \<Rightarrow> char" where
  "base64_char n =
     ''ABCDEFGHIJKLMNOPQRSTUVWXYZabcdefghijklmnopqrstuvwxyz0123456789+/'' ! (n mod 64)"

fun base64_encode :: "nat list \<Rightarrow> string" where
  "base64_encode [] = []"
| "base64_encode [a] = [base64_char (a div 4), base64_char (a * 16), CHR ''='', CHR ''='']"
| "base64_encode [a, b] =
     [base64_char (a div 4), base64_char (a * 16 + b div 16), base64_char (b * 4), CHR ''='']"
| "base64_encode (a # b # c # bs) =
     [base64_char (a div 4), base64_char (a * 16 + b div 16), base64_char (b * 4 + c div 64), base64_char c]
     @ base64_encode bs"

lemma top_bits: "(w :: u8) AND 0xC0 = 0x80 \<longleftrightarrow> unat w div 64 = 2"
proof -
  have "\<forall>n \<in> set [0..<256]. (word_of_nat n :: u8) AND 0xC0 = 0x80 \<longleftrightarrow> n div 64 = 2"
    by code_simp
  moreover have "unat w \<in> set [0..<256]" using unsigned_less [of w] by simp
  moreover have "word_of_nat (unat w) = w" by simp
  ultimately show ?thesis by metis
qed

lemma of_char_u8: "n < 256 \<Longrightarrow> unat (of_char (char_of (n :: nat)) :: u8) = n"
proof -
  assume n: "n < 256"
  have "(of_char (char_of n) :: u8) = of_nat (of_char (char_of n))" by (simp only: of_nat_of_char)
  also have "of_char (char_of n) = n" using n by simp
  finally show ?thesis using n by (simp add: unsigned_of_nat take_bit_eq_mod)
qed

lemma count_Nil: "CountUtf8CodePoints [] = 0"
  by (simp add: CountUtf8CodePoints_def)

lemma count_Cons:
  "(b :: nat) < 256 \<Longrightarrow> CountUtf8CodePoints (char_of b # s) =
     (if 128 \<le> b \<and> b < 192 then 0 else 1) + CountUtf8CodePoints s"
proof -
  assume "b < 256"
  moreover have "b div 64 = 2 \<longleftrightarrow> 128 \<le> b \<and> b < 192"
  proof -
    have "b = 64 * (b div 64) + b mod 64" "b mod 64 < 64" by simp_all
    then show ?thesis by linarith
  qed
  ultimately show ?thesis by (auto simp: CountUtf8CodePoints_def top_bits of_char_u8)
qed

lemma count_append: "CountUtf8CodePoints (s @ t) = CountUtf8CodePoints s + CountUtf8CodePoints t"
  by (simp add: CountUtf8CodePoints_def)

lemma count_one:
  assumes "n \<le> 0x10FFFF"
  shows "CountUtf8CodePoints (map char_of (utf8_bytes n)) = 1"
proof -
  have m: "k mod 64 < 64" for k :: nat by simp
  consider "n < 0x80" | "0x80 \<le> n" "n < 0x800" | "0x800 \<le> n" "n < 0x10000" | "0x10000 \<le> n" by linarith
  then show ?thesis
  proof cases
    case 1 then show ?thesis by (simp add: count_Cons count_Nil)
  next
    case 2
    then have "n div 64 < 32" by (intro less_mult_imp_div_less) simp
    with 2 m [of n] show ?thesis by (simp add: count_Cons count_Nil)
  next
    case 3
    then have "n div 4096 < 16" by (intro less_mult_imp_div_less) simp
    with 3 m [of n] m [of "n div 64"] show ?thesis by (simp add: count_Cons count_Nil)
  next
    case 4
    then have "n div 262144 < 8" using assms by (intro less_mult_imp_div_less) simp
    with 4 m [of n] m [of "n div 64"] m [of "n div 4096"] show ?thesis by (simp add: count_Cons count_Nil)
  qed
qed

lemma base64_char_not_pad: "base64_char n \<noteq> CHR ''=''"
proof -
  have "\<forall>k \<in> set [0..<64]. base64_char k \<noteq> CHR ''=''" by code_simp
  then have "base64_char (n mod 64) \<noteq> CHR ''=''" by simp
  then show ?thesis by (simp add: base64_char_def)
qed

definition padding :: "string \<Rightarrow> int" where
  "padding s = int (length (takeWhile (\<lambda>c. c = CHR ''='') (rev s)))"

lemma base64_shape:
  "int (length (base64_encode bs)) = 4 * ((int (length bs) + 2) div 3)
   \<and> padding (base64_encode bs) = 3 * ((int (length bs) + 2) div 3) - int (length bs)"
proof (induction bs rule: base64_encode.induct)
  case (4 a b c bs)
  show ?case
  proof (cases bs)
    case Nil
    then show ?thesis by (simp add: padding_def base64_char_not_pad)
  next
    case (Cons d ds)
    then have "takeWhile (\<lambda>c. c = CHR ''='') (rev (base64_encode bs) @ t)
        = takeWhile (\<lambda>c. c = CHR ''='') (rev (base64_encode bs))" for t
      by (intro takeWhile_append1 [of "base64_char (d div 4)"])
        (cases ds rule: base64_encode.cases; auto simp: base64_char_not_pad)+
    moreover have "(5 + int (length bs)) div 3 = (int (length bs) + 2) div 3 + 1" by presburger
    ultimately show ?thesis using 4 by (simp add: padding_def)
  qed
qed (simp_all add: padding_def base64_char_not_pad)

subsection \<open>Exceptions\<close>

definition named_error :: "string \<Rightarrow> json_error + 'a \<Rightarrow> bool" where
  "named_error what m = (case m of Inr _ \<Rightarrow> True | Inl e \<Rightarrow> e = RuntimeError what \<or> e = CastUndefined)"

lemma named_error_rethrow:
  "(\<And>s. m \<noteq> Inl (RuntimeError s)) \<Longrightarrow> named_error what (rethrow what m)"
  by (auto simp: named_error_def rethrow_def split: sum.split json_error.split)

text \<open>The readers of the JSON library throw exceptions of the library only.\<close>

lemma getter_errors:
  "get_str v \<noteq> Inl (RuntimeError s)" "get_bool v \<noteq> Inl (RuntimeError s)"
  "get_i32 v \<noteq> Inl (RuntimeError s)" "get_double v \<noteq> Inl (RuntimeError s)"
  by (auto simp: get_str_def get_bool_def get_i32_def get_double_def cast_signed_def split: json.splits if_splits)

lemma smap_errors: "(\<And>v. get v \<noteq> Inl (RuntimeError s)) \<Longrightarrow> smap get vs \<noteq> Inl (RuntimeError s)"
  by (induction vs) (auto simp: sbind_Inl_iff)

lemma get_vec_errors: "(\<And>v. get v \<noteq> Inl (RuntimeError s)) \<Longrightarrow> get_vec get v \<noteq> Inl (RuntimeError s)"
  by (auto simp: get_vec_def smap_errors split: json.splits)

lemma fld_at_errors: "(\<And>v. get v \<noteq> Inl (RuntimeError s)) \<Longrightarrow> fld_at get j k \<noteq> Inl (RuntimeError s)"
  by (auto simp: fld_at_def jat_def sbind_Inl_iff split: json.splits option.splits)

lemma fld_opt_errors: "(\<And>v. get v \<noteq> Inl (RuntimeError s)) \<Longrightarrow> fld_opt get j k d \<noteq> Inl (RuntimeError s)"
  by (auto simp: fld_opt_def split: option.splits)

lemmas library_errors = getter_errors smap_errors get_vec_errors fld_at_errors fld_opt_errors

lemmas lui_from_json_defs =
  TtsConfig_from_json_def LuiAsrStartRequest_from_json_def LuiAsrStopRequest_from_json_def
  LuiTtsConfig_from_json_def LuiTtsStopRequest_from_json_def LuiTtsParameter_from_json_def
  LuiSynthesizeSpeechRequest_from_json_def LuiSynthesizeSpeechResponse_from_json_def
  LuiRecognizeAudioRequest_from_json_def LuiRecognizeAudioResponse_from_json_def

subsection \<open>Properties\<close>

text \<open>
  C12. \<open>CountUtf8CodePoints\<close> counts code points: for every text that is the UTF-8 encoding of a sequence
  of Unicode code points it returns the length of the sequence.
\<close>

theorem CountUtf8CodePoints_correct:
  assumes "\<forall>n \<in> set cps. n \<le> 0x10FFFF"
  shows "CountUtf8CodePoints (utf8_encode cps) = int (length cps)"
  using assms
  by (induction cps) (simp_all add: utf8_encode_def count_Nil count_append count_one del: utf8_bytes.simps)

theorem CountUtf8CodePoints_correct_witness:
  "CountUtf8CodePoints (utf8_encode [0x41, 0xE9, 0x4F60, 0x1F916]) = 4"
  using CountUtf8CodePoints_correct [of "[0x41, 0xE9, 0x4F60, 0x1F916]"] by simp

text \<open>
  \<open>EstimateBase64DecodedBytes\<close> is exact on Base64 text: for the encoding of any byte sequence it
  returns the number of bytes.
\<close>

lemma EstimateBase64DecodedBytes_exact:
  "EstimateBase64DecodedBytes (base64_encode bs) = int (length bs)"
  using base64_shape [of bs] by (simp add: EstimateBase64DecodedBytes_def padding_def)

text \<open>
  A chat session request reaches the service as configured: \<open>StartAiChat\<close> makes one call, and the
  service's \<open>FromJson\<close> recovers every member from its document, the nested speech, language and
  recognition settings, an empty persona and the bytes of the bracket filter included.
\<close>

lemma StartAiChat_reaches_the_service:
  "StartAiChat (recording ret body) param calls =
     (ret, calls @ [RpcCall RequestResponse AiApiId_kStartAiChat (Some (StartAiChatParameter_to_json param))])
   \<and> StartAiChatParameter_from_json (jwire (StartAiChatParameter_to_json param)) param0 = Inr param"
  by (simp add: StartAiChat_def SendApiRequest_def recording_def start_ai_chat_parameter.wire_roundtrip)

text \<open>
  A malformed body never escapes from the LUI and speech classes as an exception of the JSON library:
  \<open>FromJson\<close> gives an object, or a runtime error that names the class (or meets a number that the
  integer type cannot hold, whose conversion C++ leaves undefined).
\<close>

lemma lui_errors_name_the_class:
  "named_error ''TtsConfig JSON error: '' (TtsConfig_from_json j a1)
   \<and> named_error ''LuiAsrStartRequest JSON error: '' (LuiAsrStartRequest_from_json j a2)
   \<and> named_error ''LuiAsrStopRequest JSON error: '' (LuiAsrStopRequest_from_json j a3)
   \<and> named_error ''LuiTtsConfig JSON error: '' (LuiTtsConfig_from_json j a4)
   \<and> named_error ''LuiTtsStopRequest JSON error: '' (LuiTtsStopRequest_from_json j a5)
   \<and> named_error ''LuiTtsParameter JSON error: '' (LuiTtsParameter_from_json j a6)
   \<and> named_error ''LuiSynthesizeSpeechRequest JSON error: '' (LuiSynthesizeSpeechRequest_from_json j a7)
   \<and> named_error ''LuiSynthesizeSpeechResponse JSON error: '' (LuiSynthesizeSpeechResponse_from_json j a8)
   \<and> named_error ''LuiRecognizeAudioRequest JSON error: '' (LuiRecognizeAudioRequest_from_json j a9)
   \<and> named_error ''LuiRecognizeAudioResponse JSON error: '' (LuiRecognizeAudioResponse_from_json j a10)"
  unfolding lui_from_json_defs
  by (intro conjI named_error_rethrow) (simp_all add: sbind_Inl_iff library_errors)

end
