(* ===== verification/Light_Api.thy ===== *)
theory Light_Api
  imports Rpc_Client
begin

text \<open>
  LED control, \<open>robot/device/light\<close>: the colour classes with their codecs, the constructor from a
  hexadecimal string (with the conversion \<open>std::stoi\<close> in base 16 it uses) and the client's methods.
\<close>

datatype LightApiId =
    LightApiId_kSetLEDLightColor | LightApiId_kStopLEDLightControl | LightApiId_kSetLEDLightColors

fun LightApiId_val :: "LightApiId \<Rightarrow> i32" where
  "LightApiId_val LightApiId_kSetLEDLightColor = 2000"
| "LightApiId_val LightApiId_kStopLEDLightControl = 2001"
| "LightApiId_val LightApiId_kSetLEDLightColors = 2002"

subsection \<open>\<open>std::stoi(s, nullptr, 16)\<close>\<close>

text \<open>
  White space, an optional sign, an optional \<open>0x\<close>, then as many hexadecimal digits as there are; what
  follows is ignored.  No digit at all, or a number outside \<open>int\<close>, throws (\<open>None\<close>).
\<close>

definition is_space :: "char \<Rightarrow> bool" where
  "is_space c \<longleftrightarrow> of_char c = (32 :: nat) \<or> 9 \<le> (of_char c :: nat) \<and> of_char c \<le> (13 :: nat)"

definition hex_digit :: "char \<Rightarrow> int option" where
  "hex_digit c = (let n = of_char c :: nat in
     if 48 \<le> n \<and> n \<le> 57 then Some (int n - 48)
     else if 65 \<le> n \<and> n \<le> 70 then Some (int n - 55)
     else if 97 \<le> n \<and> n \<le> 102 then Some (int n - 87)
     else None)"

definition hex_number :: "string \<Rightarrow> int option" where
  "hex_number s =
     (let ds = takeWhile (\<lambda>c. hex_digit c \<noteq> None) s
      in if ds = [] then None else Some (foldl (\<lambda>v c. 16 * v + the (hex_digit c)) 0 ds))"

fun skip_prefix :: "string \<Rightarrow> string" where
  "skip_prefix (z # x # d # s) =
     (if z = CHR ''0'' \<and> (x = CHR ''x'' \<or> x = CHR ''X'') \<and> hex_digit d \<noteq> None then d # s else z # x # d # s)"
| "skip_prefix s = s"

definition stoi16 :: "string \<Rightarrow> int option" where
  "stoi16 s =
     (let t = dropWhile is_space s;
          v = (case t of
                 c # t' \<Rightarrow> if c = CHR ''-'' then map_option uminus (hex_number (skip_prefix t'))
                           else if c = CHR ''+'' then hex_number (skip_prefix t')
                           else hex_number (skip_prefix t)
               | [] \<Rightarrow> None)
      in case v of Some i \<Rightarrow> if - (2 ^ 31) \<le> i \<and> i < 2 ^ 31 then Some i else None | None \<Rightarrow> None)"

subsection \<open>Colours\<close>

record SetLEDLightColorParameter =
  col_r :: u8
  col_g :: u8
  col_b :: u8

definition SetLEDLightColorParameter_default :: SetLEDLightColorParameter where
  "SetLEDLightColorParameter_default =
     \<lparr>col_r = 0, col_g = 0, col_b = 0\<rparr>"

definition SetLEDLightColorParameter_new :: "u8 \<Rightarrow> u8 \<Rightarrow> u8 \<Rightarrow> SetLEDLightColorParameter" where
  "SetLEDLightColorParameter_new r g b =
     \<lparr>col_r = r, col_g = g, col_b = b\<rparr>"

definition SetLEDLightColorParameter_to_json :: "SetLEDLightColorParameter \<Rightarrow> json" where
  "SetLEDLightColorParameter_to_json self =
     jobj [(''r'', j_u8 (col_r self)),
      (''g'', j_u8 (col_g self)),
      (''b'', j_u8 (col_b self))]"

definition SetLEDLightColorParameter_from_json :: "json \<Rightarrow> SetLEDLightColorParameter \<Rightarrow> json_error + SetLEDLightColorParameter" where
  "SetLEDLightColorParameter_from_json j self =
     sbind (fld get_u8 j ''r'') (\<lambda>r.
     sbind (fld get_u8 j ''g'') (\<lambda>g.
     sbind (fld get_u8 j ''b'') (\<lambda>b.
     Inr (self\<lparr>col_r := r, col_g := g, col_b := b\<rparr>))))"

interpretation set_ledlight_color_parameter: json_codec SetLEDLightColorParameter_to_json SetLEDLightColorParameter_from_json
  "\<lambda>_. True" "\<lambda>_. True"
  by unfold_locales
    (auto simp: SetLEDLightColorParameter_to_json_def SetLEDLightColorParameter_from_json_def
      codec_simps wire_simps intro!: SetLEDLightColorParameter.equality)

declare set_ledlight_color_parameter.roundtrip [codec_simps] set_ledlight_color_parameter.wire_blind [wire_simps]

text \<open>The constructor from a string keeps black unless all three components convert.\<close>

definition SetLEDLightColorParameter_of_string :: "string \<Rightarrow> SetLEDLightColorParameter" where
  "SetLEDLightColorParameter_of_string color =
     (if length color = 7 \<and> hd color = CHR ''#''
      then (case (stoi16 (take 2 (drop 1 color)), stoi16 (take 2 (drop 3 color)), stoi16 (take 2 (drop 5 color))) of
              (Some r_val, Some g_val, Some b_val) \<Rightarrow>
                SetLEDLightColorParameter_new (word_of_int r_val) (word_of_int g_val) (word_of_int b_val)
            | _ \<Rightarrow> SetLEDLightColorParameter_default)
      else SetLEDLightColorParameter_default)"

record SetLEDLightColorsParameter =
  cls_colors :: "SetLEDLightColorParameter list"

definition SetLEDLightColorsParameter_new ::
    "SetLEDLightColorParameter list \<Rightarrow> SetLEDLightColorsParameter" where
  "SetLEDLightColorsParameter_new colors = \<lparr>cls_colors = colors\<rparr>"

definition SetLEDLightColorsParameter_to_json :: "SetLEDLightColorsParameter \<Rightarrow> json" where
  "SetLEDLightColorsParameter_to_json self =
     jobj [(''colors'', j_vec SetLEDLightColorParameter_to_json (cls_colors self))]"

definition SetLEDLightColorsParameter_from_json ::
    "json \<Rightarrow> SetLEDLightColorsParameter \<Rightarrow> json_error + SetLEDLightColorsParameter" where
  "SetLEDLightColorsParameter_from_json j self =
     sbind (fld (\<lambda>v. smap (\<lambda>item. SetLEDLightColorParameter_from_json item SetLEDLightColorParameter_default)
                       (jiter v)) j ''colors'') (\<lambda>colors.
     Inr (self\<lparr>cls_colors := colors\<rparr>))"

interpretation set_ledlight_colors_parameter: json_codec SetLEDLightColorsParameter_to_json SetLEDLightColorsParameter_from_json
  "\<lambda>_. True" "\<lambda>_. True"
  by unfold_locales
    (auto simp: SetLEDLightColorsParameter_to_json_def SetLEDLightColorsParameter_from_json_def
      codec_simps wire_simps intro!: SetLEDLightColorsParameter.equality)

declare set_ledlight_colors_parameter.roundtrip [codec_simps] set_ledlight_colors_parameter.wire_blind [wire_simps]

subsection \<open>\<open>LightControlClient\<close>\<close>

definition SetLEDLightColor :: "(LightApiId, 's) Transport \<Rightarrow> u8 \<Rightarrow> u8 \<Rightarrow> u8 \<Rightarrow> 's \<Rightarrow> i32 \<times> 's" where
  "SetLEDLightColor io r g b s =
     SendApiRequest io LightApiId_kSetLEDLightColor
       (Some (SetLEDLightColorParameter_to_json (SetLEDLightColorParameter_new r g b))) s"

definition SetLEDLightColors ::
    "(LightApiId, 's) Transport \<Rightarrow> SetLEDLightColorParameter list \<Rightarrow> 's \<Rightarrow> i32 \<times> 's" where
  "SetLEDLightColors io colors s =
     SendApiRequest io LightApiId_kSetLEDLightColors
       (Some (SetLEDLightColorsParameter_to_json (SetLEDLightColorsParameter_new colors))) s"

definition StopLEDLightControl :: "(LightApiId, 's) Transport \<Rightarrow> 's \<Rightarrow> i32 \<times> 's" where
  "StopLEDLightControl io s = SendApiRequest io LightApiId_kStopLEDLightControl None s"

subsection \<open>Hexadecimal text\<close>

text \<open>The two digits of a byte, in upper or lower case.\<close>

definition hex_char :: "bool \<Rightarrow> nat \<Rightarrow> char" where
  "hex_char upper n = (if upper then ''0123456789ABCDEF'' else ''0123456789abcdef'') ! (n mod 16)"

definition hex_text :: "bool \<Rightarrow> u8 \<Rightarrow> string" where
  "hex_text upper w = [hex_char upper (unat w div 16), hex_char upper (unat w)]"

lemma hex_digit_char: "hex_digit (hex_char upper n) = Some (int (n mod 16))"
proof -
  have "\<forall>k \<in> set [0..<16]. hex_digit (hex_char True k) = Some (int k) \<and> hex_digit (hex_char False k) = Some (int k)"
    by code_simp
  then have "hex_digit (hex_char True (n mod 16)) = Some (int (n mod 16))"
    "hex_digit (hex_char False (n mod 16)) = Some (int (n mod 16))"
    by simp_all
  then show ?thesis by (cases upper) (simp_all add: hex_char_def)
qed

lemma hex_digit_lead:
  "hex_digit c = Some v \<Longrightarrow> \<not> is_space c \<and> c \<noteq> CHR ''-'' \<and> c \<noteq> CHR ''+'' \<and> 0 \<le> v \<and> v < 16"
  by (auto simp: hex_digit_def is_space_def Let_def split: if_splits)

lemma hex_number_pair:
  "hex_digit c = Some v \<Longrightarrow> hex_digit d = Some w \<Longrightarrow> hex_number [c, d] = Some (16 * v + w)"
  by (simp add: hex_number_def)

lemma hex_number_one: "hex_digit c = Some v \<Longrightarrow> hex_number [c] = Some v"
  by (simp add: hex_number_def)

lemma stoi16_pair:
  "hex_digit c = Some v \<Longrightarrow> hex_digit d = Some w \<Longrightarrow> stoi16 [c, d] = Some (16 * v + w)"
  using hex_digit_lead [of c v] hex_digit_lead [of d w]
  by (simp add: stoi16_def hex_number_pair)

lemma stoi16_sign:
  "hex_digit c = Some v \<Longrightarrow> stoi16 [CHR ''-'', c] = Some (- v)"
  "hex_digit c = Some v \<Longrightarrow> stoi16 [CHR ''+'', c] = Some v"
  "hex_digit c = Some v \<Longrightarrow> stoi16 [CHR '' '', c] = Some v"
  using hex_digit_lead [of c v] by (simp_all add: stoi16_def hex_number_one is_space_def)

lemma stoi16_hex_text: "stoi16 (hex_text upper w) = Some (uint w)"
proof -
  have "unat w < 256" using unsigned_less [of w] by simp
  then have "unat w div 16 < 16" by (intro less_mult_imp_div_less) simp
  then have "16 * (unat w div 16 mod 16) + unat w mod 16 = unat w" by simp
  then have "int (16 * (unat w div 16 mod 16) + unat w mod 16) = int (unat w)" by (simp only:)
  then show ?thesis by (simp add: hex_text_def stoi16_pair hex_digit_char)
qed

lemma nibble_word: "word_of_int (int k mod 16) = word_of_nat (k mod 16)"
  by (metis of_int_of_nat_eq of_nat_mod of_nat_numeral)

subsection \<open>Properties\<close>

text \<open>
  The text form \<open>#RRGGBB\<close> denotes its colour: for every colour, each component in upper or lower case
  digits, the constructor from a string gives exactly that colour.
\<close>

lemma color_text_roundtrip:
  "SetLEDLightColorParameter_of_string ([CHR ''#''] @ hex_text u1 r @ hex_text u2 g @ hex_text u3 b)
     = SetLEDLightColorParameter_new r g b"
proof -
  have parts: "take 2 (drop 1 (CHR ''#'' # hex_text u1 r @ hex_text u2 g @ hex_text u3 b)) = hex_text u1 r"
    "take 2 (drop 3 (CHR ''#'' # hex_text u1 r @ hex_text u2 g @ hex_text u3 b)) = hex_text u2 g"
    "take 2 (drop 5 (CHR ''#'' # hex_text u1 r @ hex_text u2 g @ hex_text u3 b)) = hex_text u3 b"
    "length (CHR ''#'' # hex_text u1 r @ hex_text u2 g @ hex_text u3 b) = 7"
    by (simp_all add: hex_text_def)
  then show ?thesis
    unfolding SetLEDLightColorParameter_of_string_def append_Cons append_Nil
    by (simp only: parts stoi16_hex_text list.sel option.case prod.case word_of_int_uint if_True simp_thms)
qed

text \<open>
  A text that is not of the form \<open>#\<close> and six characters denotes black, but the six characters need
  not be digits: \<open>std::stoi\<close> skips a space and takes a sign, so \<open>#-a+b c\<close> is accepted, and its first
  component wraps around to \<open>256 - a\<close>.
\<close>

lemma signed_color_text_is_accepted:
  "SetLEDLightColorParameter_of_string
     [CHR ''#'', CHR ''-'', hex_char u1 k, CHR ''+'', hex_char u2 m, CHR '' '', hex_char u3 n]
     = SetLEDLightColorParameter_new (- of_nat (k mod 16)) (of_nat (m mod 16)) (of_nat (n mod 16))
   \<and> (length text \<noteq> 7 \<or> hd text \<noteq> CHR ''#'' \<longrightarrow>
        SetLEDLightColorParameter_of_string text = SetLEDLightColorParameter_default)"
  by (auto simp: SetLEDLightColorParameter_of_string_def stoi16_sign hex_digit_char nibble_word)

text \<open>
  The colours of a strip arrive in order: \<open>SetLEDLightColors\<close> makes one call, and its document read
  over the wire with \<open>FromJson\<close> gives the same list, whatever colours the receiving object had before.
\<close>

lemma led_colors_reach_the_service:
  "SetLEDLightColors (recording ret body) colors calls =
     (ret, calls @ [RpcCall RequestResponse LightApiId_kSetLEDLightColors
        (Some (SetLEDLightColorsParameter_to_json \<lparr>cls_colors = colors\<rparr>))])
   \<and> SetLEDLightColorsParameter_from_json
       (jwire (SetLEDLightColorsParameter_to_json \<lparr>cls_colors = colors\<rparr>)) old = Inr \<lparr>cls_colors = colors\<rparr>"
  by (simp add: SetLEDLightColors_def SendApiRequest_def recording_def SetLEDLightColorsParameter_new_def
      set_ledlight_colors_parameter.wire_roundtrip)

end
