(* ===== verification/Vision_Api.thy ===== *)
theory Vision_Api
  imports Rpc_Client
begin

text \<open>
  Vision services, \<open>robot/vision\<close>: object detection (\<open>vision_api.hpp\<close>, \<open>vision_client.hpp\<close>) and
  hand-eye calibration (\<open>handeye_calib_api.hpp\<close>), whose client is compiled into the binary library.

  A member that holds a JSON text (\<open>error_json_\<close>, \<open>result_json_\<close>) is the document it denotes, as the
  wire delivers it; \<open>None\<close> is the empty string.
\<close>

subsection \<open>Object detection\<close>

datatype VisionApiId =
    VisionApiId_kStartVisionService | VisionApiId_kStopVisionService
  | VisionApiId_kGetDetectionObject

fun VisionApiId_val :: "VisionApiId \<Rightarrow> i32" where
  "VisionApiId_val VisionApiId_kStartVisionService = 3000"
| "VisionApiId_val VisionApiId_kStopVisionService = 3001"
| "VisionApiId_val VisionApiId_kGetDetectionObject = 3002"

record StartVisionServiceParameter =
  svs_enable_position :: bool
  svs_enable_color :: bool
  svs_enable_face_detection :: bool

definition StartVisionServiceParameter_default :: StartVisionServiceParameter where
  "StartVisionServiceParameter_default =
     \<lparr>svs_enable_position = False, svs_enable_color = False, svs_enable_face_detection = False\<rparr>"

definition StartVisionServiceParameter_new :: "bool \<Rightarrow> bool \<Rightarrow> bool \<Rightarrow> StartVisionServiceParameter" where
  "StartVisionServiceParameter_new enable_position enable_color enable_face_detection =
     \<lparr>svs_enable_position = enable_position, svs_enable_color = enable_color, svs_enable_face_detection = enable_face_detection\<rparr>"

definition StartVisionServiceParameter_to_json :: "StartVisionServiceParameter \<Rightarrow> json" where
  "StartVisionServiceParameter_to_json self =
     jobj [(''enable_position'', JBool (svs_enable_position self)),
      (''enable_color'', JBool (svs_enable_color self)),
      (''enable_face_detection'', JBool (svs_enable_face_detection self))]"

definition StartVisionServiceParameter_from_json :: "json \<Rightarrow> StartVisionServiceParameter \<Rightarrow> json_error + StartVisionServiceParameter" where
  "StartVisionServiceParameter_from_json j self =
     sbind (fld_opt get_bool j ''enable_position'' (svs_enable_position self)) (\<lambda>enable_position.
     sbind (fld_opt get_bool j ''enable_color'' (svs_enable_color self)) (\<lambda>enable_color.
     sbind (fld_opt get_bool j ''enable_face_detection'' (svs_enable_face_detection self)) (\<lambda>enable_face_detection.
     Inr (self\<lparr>svs_enable_position := enable_position, svs_enable_color := enable_color, svs_enable_face_detection := enable_face_detection\<rparr>))))"

interpretation start_vision_service_parameter: json_codec StartVisionServiceParameter_to_json StartVisionServiceParameter_from_json
  "\<lambda>_. True" "\<lambda>_. True"
  by unfold_locales
    (auto simp: StartVisionServiceParameter_to_json_def StartVisionServiceParameter_from_json_def
      codec_simps wire_simps intro!: StartVisionServiceParameter.equality)

declare start_vision_service_parameter.roundtrip [codec_simps] start_vision_service_parameter.wire_blind [wire_simps]

record GetDetectionObjectParameter =
  gdo_focus_ratio :: real

definition GetDetectionObjectParameter_default :: GetDetectionObjectParameter where
  "GetDetectionObjectParameter_default =
     \<lparr>gdo_focus_ratio = f32 (33 / 100)\<rparr>"

definition GetDetectionObjectParameter_new :: "real \<Rightarrow> GetDetectionObjectParameter" where
  "GetDetectionObjectParameter_new focus_ratio =
     \<lparr>gdo_focus_ratio = focus_ratio\<rparr>"

definition GetDetectionObjectParameter_to_json :: "GetDetectionObjectParameter \<Rightarrow> json" where
  "GetDetectionObjectParameter_to_json self =
     jobj [(''focus_ratio'', JFloat (gdo_focus_ratio self))]"

definition GetDetectionObjectParameter_from_json :: "json \<Rightarrow> GetDetectionObjectParameter \<Rightarrow> json_error + GetDetectionObjectParameter" where
  "GetDetectionObjectParameter_from_json j self =
     sbind (fld_opt get_float j ''focus_ratio'' (gdo_focus_ratio self)) (\<lambda>focus_ratio.
     Inr (self\<lparr>gdo_focus_ratio := focus_ratio\<rparr>))"

definition GetDetectionObjectParameter_valid :: "GetDetectionObjectParameter \<Rightarrow> bool" where
  "GetDetectionObjectParameter_valid self \<longleftrightarrow>
     f32 (gdo_focus_ratio self) = gdo_focus_ratio self"

interpretation get_detection_object_parameter: json_codec GetDetectionObjectParameter_to_json GetDetectionObjectParameter_from_json
  GetDetectionObjectParameter_valid "\<lambda>_. True"
  by unfold_locales
    (auto simp: GetDetectionObjectParameter_to_json_def GetDetectionObjectParameter_from_json_def GetDetectionObjectParameter_valid_def
      codec_simps wire_simps intro!: GetDetectionObjectParameter.equality)

declare get_detection_object_parameter.roundtrip [codec_simps] get_detection_object_parameter.wire_blind [wire_simps]

record DetectResults =
  det_xmin :: i64
  det_ymin :: i64
  det_xmax :: i64
  det_ymax :: i64
  det_position :: "real list"
  det_tag :: string
  det_conf :: real
  det_rgb_mean :: "i32 list"

definition DetectResults_default :: DetectResults where
  "DetectResults_default =
     \<lparr>det_xmin = 0, det_ymin = 0, det_xmax = 0, det_ymax = 0, det_position = [], det_tag = [], det_conf = 0, det_rgb_mean = []\<rparr>"

definition DetectResults_to_json :: "DetectResults \<Rightarrow> json" where
  "DetectResults_to_json self =
     jobj [(''xmin'', JInt (det_xmin self)),
      (''ymin'', JInt (det_ymin self)),
      (''xmax'', JInt (det_xmax self)),
      (''ymax'', JInt (det_ymax self)),
      (''position'', j_vec JFloat (det_position self)),
      (''tag'', JStr (det_tag self)),
      (''conf'', JFloat (det_conf self)),
      (''rgb_mean'', j_vec j_i32 (det_rgb_mean self))]"

definition DetectResults_from_json :: "json \<Rightarrow> DetectResults \<Rightarrow> json_error + DetectResults" where
  "DetectResults_from_json j self =
     sbind (fld_opt get_i64 j ''xmin'' (det_xmin self)) (\<lambda>xmin.
     sbind (fld_opt get_i64 j ''ymin'' (det_ymin self)) (\<lambda>ymin.
     sbind (fld_opt get_i64 j ''xmax'' (det_xmax self)) (\<lambda>xmax.
     sbind (fld_opt get_i64 j ''ymax'' (det_ymax self)) (\<lambda>ymax.
     sbind (fld_opt (get_vec get_float) j ''position'' (det_position self)) (\<lambda>position.
     sbind (fld_opt get_str j ''tag'' (det_tag self)) (\<lambda>tag.
     sbind (fld_opt get_float j ''conf'' (det_conf self)) (\<lambda>conf.
     sbind (fld_opt (get_vec get_i32) j ''rgb_mean'' (det_rgb_mean self)) (\<lambda>rgb_mean.
     Inr (self\<lparr>det_xmin := xmin, det_ymin := ymin, det_xmax := xmax, det_ymax := ymax, det_position := position, det_tag := tag, det_conf := conf, det_rgb_mean := rgb_mean\<rparr>)))))))))"

definition DetectResults_valid :: "DetectResults \<Rightarrow> bool" where
  "DetectResults_valid self \<longleftrightarrow>
     (\<forall>r \<in> set (det_position self). f32 r = r) \<and> f32 (det_conf self) = det_conf self"

interpretation detect_results: json_codec DetectResults_to_json DetectResults_from_json
  DetectResults_valid "\<lambda>_. True"
  by unfold_locales
    (auto simp: DetectResults_to_json_def DetectResults_from_json_def DetectResults_valid_def
      get_vec_float_enc codec_simps wire_simps intro!: DetectResults.equality)

declare detect_results.roundtrip [codec_simps] detect_results.wire_blind [wire_simps]

subsection \<open>\<open>VisionClient\<close>\<close>

definition StartVisionService ::
    "(VisionApiId, 's) Transport \<Rightarrow> bool \<Rightarrow> bool \<Rightarrow> bool \<Rightarrow> 's \<Rightarrow> i32 \<times> 's" where
  "StartVisionService io enable_position enable_color enable_face_detection s =
     SendApiRequest io VisionApiId_kStartVisionService
       (Some (StartVisionServiceParameter_to_json
         (StartVisionServiceParameter_new enable_position enable_color enable_face_detection))) s"

text \<open>The parameter is the text \<open>{}\<close>, an empty object.\<close>

definition StopVisionService :: "(VisionApiId, 's) Transport \<Rightarrow> 's \<Rightarrow> i32 \<times> 's" where
  "StopVisionService io s = SendApiRequest io VisionApiId_kStopVisionService (Some (JObj [])) s"

text \<open>
  The loop that appends one detection per item; an exception leaves it with what was appended before.
\<close>

fun push_items :: "json list \<Rightarrow> DetectResults list \<Rightarrow> DetectResults list \<times> json_error option" where
  "push_items [] objects = (objects, None)"
| "push_items (item # items) objects =
     (case DetectResults_from_json item DetectResults_default of
        Inl e \<Rightarrow> (objects, Some e)
      | Inr det \<Rightarrow> push_items items (objects @ [det]))"

definition detection_items :: "json \<Rightarrow> json list" where
  "detection_items body =
     (if is_array body then jiter body
      else case jfind body ''objects'' of
          Some v \<Rightarrow> if is_array v then jiter v else []
        | None \<Rightarrow> [])"

text \<open>
  \<open>GetDetectionObject\<close> catches every exception and returns \<open>-1\<close>; a number that its integer type cannot
  hold is no exception but undefined, and stays visible as the result \<open>Inl CastUndefined\<close>.
\<close>

definition GetDetectionObject ::
    "(VisionApiId, 's) Transport \<Rightarrow> real \<Rightarrow> DetectResults list \<Rightarrow> 's
     \<Rightarrow> (json_error + i32 \<times> DetectResults list) \<times> 's" where
  "GetDetectionObject io ratio objects s =
     (case SendApiRequestWithResponse io VisionApiId_kGetDetectionObject
             (Some (GetDetectionObjectParameter_to_json (GetDetectionObjectParameter_new ratio))) s of
        ((ret, body), s') \<Rightarrow>
          (if ret \<noteq> 0 then Inr (ret, objects)
           else case body of
               Inl e \<Rightarrow> Inr (- 1, objects)
             | Inr body_json \<Rightarrow>
                 (case push_items (detection_items body_json) [] of
                    (objs, None) \<Rightarrow> Inr (0, objs)
                  | (objs, Some e) \<Rightarrow> if e = CastUndefined then Inl e else Inr (- 1, objs)), s'))"

lemma push_items_all:
  "\<forall>x \<in> set xs. DetectResults_valid x \<Longrightarrow>
   push_items (map (\<lambda>x. jwire (DetectResults_to_json x)) xs) acc = (acc @ xs, None)"
  by (induction xs arbitrary: acc) (simp_all add: detect_results.wire_roundtrip)

lemma push_items_prefix:
  "push_items items acc = (objs, e) \<Longrightarrow>
   \<exists>dets. objs = acc @ dets
     \<and> map Inr dets = map (\<lambda>j. DetectResults_from_json j DetectResults_default) (take (length dets) items)
     \<and> (e = None \<longrightarrow> length dets = length items)
     \<and> (\<forall>err. e = Some err \<longrightarrow> length dets < length items
          \<and> DetectResults_from_json (items ! length dets) DetectResults_default = Inl err)"
proof (induction items arbitrary: acc)
  case (Cons item items)
  show ?case
  proof (cases "DetectResults_from_json item DetectResults_default")
    case (Inl err)
    then show ?thesis using Cons.prems by (intro exI [of _ "[]"]) auto
  next
    case (Inr det)
    then have "push_items items (acc @ [det]) = (objs, e)" using Cons.prems by simp
    from Cons.IH [OF this] obtain dets where d: "objs = acc @ det # dets"
      "map Inr dets = map (\<lambda>j. DetectResults_from_json j DetectResults_default) (take (length dets) items)"
      "e = None \<longrightarrow> length dets = length items"
      "\<forall>err. e = Some err \<longrightarrow> length dets < length items
          \<and> DetectResults_from_json (items ! length dets) DetectResults_default = Inl err" by auto
    then show ?thesis using Inr by (intro exI [of _ "det # dets"]) auto
  qed
qed simp

subsection \<open>Hand-eye calibration\<close>

datatype HandEyeCalibApiId =
    HandEyeCalibApiId_kStartCalibration | HandEyeCalibApiId_kStopCalibration
  | HandEyeCalibApiId_kGetStatus | HandEyeCalibApiId_kGetResult | HandEyeCalibApiId_kApplyResult

fun HandEyeCalibApiId_val :: "HandEyeCalibApiId \<Rightarrow> i32" where
  "HandEyeCalibApiId_val HandEyeCalibApiId_kStartCalibration = 3100"
| "HandEyeCalibApiId_val HandEyeCalibApiId_kStopCalibration = 3101"
| "HandEyeCalibApiId_val HandEyeCalibApiId_kGetStatus = 3102"
| "HandEyeCalibApiId_val HandEyeCalibApiId_kGetResult = 3103"
| "HandEyeCalibApiId_val HandEyeCalibApiId_kApplyResult = 3104"

record StartHandEyeCalibParameter =
  shp_publish_feedback :: bool
  shp_square_size_m :: real

definition StartHandEyeCalibParameter_default :: StartHandEyeCalibParameter where
  "StartHandEyeCalibParameter_default =
     \<lparr>shp_publish_feedback = True, shp_square_size_m = 0\<rparr>"

definition StartHandEyeCalibParameter_to_json :: "StartHandEyeCalibParameter \<Rightarrow> json" where
  "StartHandEyeCalibParameter_to_json self = jobj (
     [(''publish_feedback'', JBool (shp_publish_feedback self))]
     @ (if 0 < shp_square_size_m self then [(''square_size_m'', JFloat (shp_square_size_m self))] else []))"

definition StartHandEyeCalibParameter_from_json :: "json \<Rightarrow> StartHandEyeCalibParameter \<Rightarrow> json_error + StartHandEyeCalibParameter" where
  "StartHandEyeCalibParameter_from_json j self =
     sbind (fld_opt_nn get_bool j ''publish_feedback'' (shp_publish_feedback self)) (\<lambda>publish_feedback.
     sbind (fld_opt_nn get_double j ''square_size_m'' (shp_square_size_m self)) (\<lambda>square_size_m.
     Inr (self\<lparr>shp_publish_feedback := publish_feedback, shp_square_size_m := square_size_m\<rparr>)))"

definition StartHandEyeCalibParameter_valid :: "StartHandEyeCalibParameter \<Rightarrow> bool" where
  "StartHandEyeCalibParameter_valid self \<longleftrightarrow>
     0 \<le> shp_square_size_m self"

interpretation start_hand_eye_calib_parameter: json_codec StartHandEyeCalibParameter_to_json StartHandEyeCalibParameter_from_json
  StartHandEyeCalibParameter_valid "\<lambda>self. shp_square_size_m self = 0"
  by unfold_locales
    (auto simp: StartHandEyeCalibParameter_to_json_def StartHandEyeCalibParameter_from_json_def StartHandEyeCalibParameter_valid_def
      codec_simps wire_simps intro!: StartHandEyeCalibParameter.equality)

declare start_hand_eye_calib_parameter.roundtrip [codec_simps] start_hand_eye_calib_parameter.wire_blind [wire_simps]

record HandEyeCalibStatus =
  hcs_status :: string
  hcs_job_id :: string
  hcs_stage :: string
  hcs_started_at :: string
  hcs_finished_at :: string
  hcs_progress :: real
  hcs_stage2_done :: i32
  hcs_stage2_total :: i32
  hcs_stage3_done :: i32
  hcs_stage3_total :: i32
  hcs_error_json :: "json option"

definition HandEyeCalibStatus_default :: HandEyeCalibStatus where
  "HandEyeCalibStatus_default =
     \<lparr>hcs_status = [], hcs_job_id = [], hcs_stage = [], hcs_started_at = [], hcs_finished_at = [], hcs_progress = 0, hcs_stage2_done = 0, hcs_stage2_total = 0, hcs_stage3_done = 0, hcs_stage3_total = 0, hcs_error_json = None\<rparr>"

definition HandEyeCalibStatus_to_json :: "HandEyeCalibStatus \<Rightarrow> json" where
  "HandEyeCalibStatus_to_json self = jobj (
     [(''status'', JStr (hcs_status self)),
      (''job_id'', JStr (hcs_job_id self)),
      (''stage'', JStr (hcs_stage self)),
      (''started_at'', JStr (hcs_started_at self)),
      (''finished_at'', JStr (hcs_finished_at self)),
      (''progress'', JFloat (hcs_progress self)),
      (''stage2_done'', j_i32 (hcs_stage2_done self)),
      (''stage2_total'', j_i32 (hcs_stage2_total self)),
      (''stage3_done'', j_i32 (hcs_stage3_done self)),
      (''stage3_total'', j_i32 (hcs_stage3_total self))]
     @ (case hcs_error_json self of None \<Rightarrow> [] | Some v \<Rightarrow> [(''error'', v)]))"

definition HandEyeCalibStatus_from_json :: "json \<Rightarrow> HandEyeCalibStatus \<Rightarrow> json_error + HandEyeCalibStatus" where
  "HandEyeCalibStatus_from_json j self =
     sbind (fld_opt get_str j ''status'' (hcs_status self)) (\<lambda>status.
     sbind (fld_opt_nn get_str j ''job_id'' (hcs_job_id self)) (\<lambda>job_id.
     sbind (fld_opt_nn get_str j ''stage'' (hcs_stage self)) (\<lambda>stage.
     sbind (fld_opt_nn get_str j ''started_at'' (hcs_started_at self)) (\<lambda>started_at.
     sbind (fld_opt_nn get_str j ''finished_at'' (hcs_finished_at self)) (\<lambda>finished_at.
     sbind (fld_opt_nn get_double j ''progress'' (hcs_progress self)) (\<lambda>progress.
     sbind (fld_opt_nn get_i32 j ''stage2_done'' (hcs_stage2_done self)) (\<lambda>stage2_done.
     sbind (fld_opt_nn get_i32 j ''stage2_total'' (hcs_stage2_total self)) (\<lambda>stage2_total.
     sbind (fld_opt_nn get_i32 j ''stage3_done'' (hcs_stage3_done self)) (\<lambda>stage3_done.
     sbind (fld_opt_nn get_i32 j ''stage3_total'' (hcs_stage3_total self)) (\<lambda>stage3_total.
     sbind (fld_opt_nn (\<lambda>v. Inr (Some (jwire v))) j ''error'' (hcs_error_json self)) (\<lambda>error_json.
     Inr (self\<lparr>hcs_status := status, hcs_job_id := job_id, hcs_stage := stage, hcs_started_at := started_at, hcs_finished_at := finished_at, hcs_progress := progress, hcs_stage2_done := stage2_done, hcs_stage2_total := stage2_total, hcs_stage3_done := stage3_done, hcs_stage3_total := stage3_total, hcs_error_json := error_json\<rparr>))))))))))))"

definition HandEyeCalibStatus_valid :: "HandEyeCalibStatus \<Rightarrow> bool" where
  "HandEyeCalibStatus_valid self \<longleftrightarrow>
     (case hcs_error_json self of None \<Rightarrow> True | Some v \<Rightarrow> v \<noteq> JNull \<and> jwire v = v)"

interpretation hand_eye_calib_status: json_codec HandEyeCalibStatus_to_json HandEyeCalibStatus_from_json
  HandEyeCalibStatus_valid "\<lambda>self. hcs_error_json self = None"
  by unfold_locales
    (auto simp: HandEyeCalibStatus_to_json_def HandEyeCalibStatus_from_json_def HandEyeCalibStatus_valid_def
      codec_simps wire_simps intro!: HandEyeCalibStatus.equality split: option.splits)

declare hand_eye_calib_status.roundtrip [codec_simps] hand_eye_calib_status.wire_blind [wire_simps]

text \<open>
  A stored result must be one that can be read back: a member \<open>rms_px\<close> of it, if any, is a number.
\<close>

record HandEyeCalibResult =
  hcr_status :: string
  hcr_job_id :: string
  hcr_summary :: string
  hcr_result_json :: "json option"
  hcr_reprojection_error_px :: real
  hcr_progress :: real
  hcr_stage2_done :: i32
  hcr_stage2_total :: i32
  hcr_stage3_done :: i32
  hcr_stage3_total :: i32
  hcr_error_json :: "json option"

definition HandEyeCalibResult_default :: HandEyeCalibResult where
  "HandEyeCalibResult_default =
     \<lparr>hcr_status = [], hcr_job_id = [], hcr_summary = [], hcr_result_json = None, hcr_reprojection_error_px = 0, hcr_progress = 0, hcr_stage2_done = 0, hcr_stage2_total = 0, hcr_stage3_done = 0, hcr_stage3_total = 0, hcr_error_json = None\<rparr>"

definition HandEyeCalibResult_to_json :: "HandEyeCalibResult \<Rightarrow> json" where
  "HandEyeCalibResult_to_json self = jobj (
     [(''status'', JStr (hcr_status self)),
      (''job_id'', JStr (hcr_job_id self)),
      (''summary'', JStr (hcr_summary self)),
      (''reprojection_error_px'', JFloat (hcr_reprojection_error_px self)),
      (''progress'', JFloat (hcr_progress self)),
      (''stage2_done'', j_i32 (hcr_stage2_done self)),
      (''stage2_total'', j_i32 (hcr_stage2_total self)),
      (''stage3_done'', j_i32 (hcr_stage3_done self)),
      (''stage3_total'', j_i32 (hcr_stage3_total self))]
     @ (case hcr_result_json self of None \<Rightarrow> [] | Some v \<Rightarrow> [(''result'', v)])
     @ (case hcr_error_json self of None \<Rightarrow> [] | Some v \<Rightarrow> [(''error'', v)]))"

definition HandEyeCalibResult_from_json ::
    "json \<Rightarrow> HandEyeCalibResult \<Rightarrow> json_error + HandEyeCalibResult" where
  "HandEyeCalibResult_from_json j self =
     sbind (fld_opt get_str j ''status'' (hcr_status self)) (\<lambda>status.
     sbind (fld_opt_nn get_str j ''job_id'' (hcr_job_id self)) (\<lambda>job_id.
     sbind (fld_opt_nn get_str j ''summary'' (hcr_summary self)) (\<lambda>summary.
     sbind (fld_opt_nn (\<lambda>v. Inr (Some (jwire v))) j ''result'' (hcr_result_json self)) (\<lambda>result_json.
     sbind (fld_opt (\<lambda>v. if is_object v then fld_opt_nn get_double v ''rms_px'' (hcr_reprojection_error_px self)
             else Inr (hcr_reprojection_error_px self)) j ''result'' (hcr_reprojection_error_px self)) (\<lambda>rms_px.
     sbind (fld_opt_nn get_double j ''reprojection_error_px'' rms_px) (\<lambda>reprojection_error_px.
     sbind (fld_opt_nn get_double j ''progress'' (hcr_progress self)) (\<lambda>progress.
     sbind (fld_opt_nn get_i32 j ''stage2_done'' (hcr_stage2_done self)) (\<lambda>stage2_done.
     sbind (fld_opt_nn get_i32 j ''stage2_total'' (hcr_stage2_total self)) (\<lambda>stage2_total.
     sbind (fld_opt_nn get_i32 j ''stage3_done'' (hcr_stage3_done self)) (\<lambda>stage3_done.
     sbind (fld_opt_nn get_i32 j ''stage3_total'' (hcr_stage3_total self)) (\<lambda>stage3_total.
     sbind (fld_opt_nn (\<lambda>v. Inr (Some (jwire v))) j ''error'' (hcr_error_json self)) (\<lambda>error_json.
     Inr (self\<lparr>hcr_status := status, hcr_job_id := job_id, hcr_summary := summary, hcr_result_json := result_json,
       hcr_reprojection_error_px := reprojection_error_px, hcr_progress := progress, hcr_stage2_done := stage2_done, hcr_stage2_total := stage2_total,
       hcr_stage3_done := stage3_done, hcr_stage3_total := stage3_total, hcr_error_json := error_json\<rparr>)))))))))))))"

definition HandEyeCalibResult_valid :: "HandEyeCalibResult \<Rightarrow> bool" where
  "HandEyeCalibResult_valid self \<longleftrightarrow>
     (case hcr_result_json self of None \<Rightarrow> True
      | Some v \<Rightarrow> v \<noteq> JNull \<and> jwire v = v \<and>
          (case jfind v ''rms_px'' of None \<Rightarrow> True
           | Some r \<Rightarrow> r = JNull \<or> (\<exists>d. get_double r = Inr d)))
     \<and> (case hcr_error_json self of None \<Rightarrow> True | Some v \<Rightarrow> v \<noteq> JNull \<and> jwire v = v)"

lemma rms_px_readable:
  "(case jfind v ''rms_px'' of None \<Rightarrow> True | Some r \<Rightarrow> r = JNull \<or> (\<exists>d. get_double r = Inr d)) \<Longrightarrow>
   \<exists>d. fld_opt_nn get_double v ''rms_px'' d0 = Inr d"
  by (auto simp: fld_opt_nn_def is_null_def split: option.splits)

lemma get_double_not_null: "get_double JNull \<noteq> Inr d"
  by (simp add: get_double_def)

lemma HandEyeCalibResult_roundtrip:
  assumes "HandEyeCalibResult_valid x" and "hcr_result_json x0 = None" and "hcr_error_json x0 = None"
  shows "HandEyeCalibResult_from_json (HandEyeCalibResult_to_json x) x0 = Inr x"
proof (cases "hcr_result_json x")
  case None
  then show ?thesis using assms
    by (auto simp: HandEyeCalibResult_to_json_def HandEyeCalibResult_from_json_def HandEyeCalibResult_valid_def
        codec_simps intro!: HandEyeCalibResult.equality split: option.splits)
next
  case (Some v)
  then obtain d where d: "fld_opt_nn get_double v ''rms_px'' (hcr_reprojection_error_px x0) = Inr d"
    using assms(1) rms_px_readable [of v] unfolding HandEyeCalibResult_valid_def by auto
  from Some assms have v: "v \<noteq> JNull" "jwire v = v" by (simp_all add: HandEyeCalibResult_valid_def)
  from v Some d assms show ?thesis
    by (auto simp: HandEyeCalibResult_to_json_def HandEyeCalibResult_from_json_def HandEyeCalibResult_valid_def
        codec_simps intro!: HandEyeCalibResult.equality split: option.splits)
qed

interpretation hand_eye_calib_result: json_codec HandEyeCalibResult_to_json HandEyeCalibResult_from_json
  HandEyeCalibResult_valid "\<lambda>self. hcr_result_json self = None \<and> hcr_error_json self = None"
proof
  show "HandEyeCalibResult_from_json (HandEyeCalibResult_to_json x) x0 = Inr x"
    if "HandEyeCalibResult_valid x" "hcr_result_json x0 = None \<and> hcr_error_json x0 = None" for x x0
    using HandEyeCalibResult_roundtrip that by blast
  show "HandEyeCalibResult_from_json (jwire j) x0 = HandEyeCalibResult_from_json j x0" for j x0
    by (simp add: HandEyeCalibResult_from_json_def wire_simps cong: if_cong)
qed

declare hand_eye_calib_result.roundtrip [codec_simps] hand_eye_calib_result.wire_blind [wire_simps]

record HandEyeCalibApplyResult =
  hca_status :: string
  hca_applied_path :: string
  hca_error_json :: "json option"

definition HandEyeCalibApplyResult_default :: HandEyeCalibApplyResult where
  "HandEyeCalibApplyResult_default =
     \<lparr>hca_status = [], hca_applied_path = [], hca_error_json = None\<rparr>"

definition HandEyeCalibApplyResult_to_json :: "HandEyeCalibApplyResult \<Rightarrow> json" where
  "HandEyeCalibApplyResult_to_json self = jobj (
     [(''status'', JStr (hca_status self)),
      (''applied_path'', JStr (hca_applied_path self))]
     @ (case hca_error_json self of None \<Rightarrow> [] | Some v \<Rightarrow> [(''error'', v)]))"

definition HandEyeCalibApplyResult_from_json :: "json \<Rightarrow> HandEyeCalibApplyResult \<Rightarrow> json_error + HandEyeCalibApplyResult" where
  "HandEyeCalibApplyResult_from_json j self =
     sbind (fld_opt get_str j ''status'' (hca_status self)) (\<lambda>status.
     sbind (fld_opt_nn get_str j ''applied_path'' (hca_applied_path self)) (\<lambda>applied_path.
     sbind (fld_opt_nn (\<lambda>v. Inr (Some (jwire v))) j ''error'' (hca_error_json self)) (\<lambda>error_json.
     Inr (self\<lparr>hca_status := status, hca_applied_path := applied_path, hca_error_json := error_json\<rparr>))))"

definition HandEyeCalibApplyResult_valid :: "HandEyeCalibApplyResult \<Rightarrow> bool" where
  "HandEyeCalibApplyResult_valid self \<longleftrightarrow>
     (case hca_error_json self of None \<Rightarrow> True | Some v \<Rightarrow> v \<noteq> JNull \<and> jwire v = v)"

interpretation hand_eye_calib_apply_result: json_codec HandEyeCalibApplyResult_to_json HandEyeCalibApplyResult_from_json
  HandEyeCalibApplyResult_valid "\<lambda>self. hca_error_json self = None"
  by unfold_locales
    (auto simp: HandEyeCalibApplyResult_to_json_def HandEyeCalibApplyResult_from_json_def HandEyeCalibApplyResult_valid_def
      codec_simps wire_simps intro!: HandEyeCalibApplyResult.equality split: option.splits)

declare hand_eye_calib_apply_result.roundtrip [codec_simps] hand_eye_calib_apply_result.wire_blind [wire_simps]

subsection \<open>Properties\<close>

text \<open>
  C13. Detections arrive: a service that answers with an array of detections written by \<open>ToJson\<close>, or with an
  object that holds this array as its member \<open>objects\<close>, gives the caller exactly these detections, in
  order, and the code 0; the list the caller passed in does not matter.
\<close>

theorem detections_are_delivered:
  assumes "\<forall>x \<in> set dets. DetectResults_valid x"
  shows "fst (GetDetectionObject (recording 0 (Inr (jwire (j_vec DetectResults_to_json dets)))) ratio old calls)
      = Inr (0, dets)
    \<and> fst (GetDetectionObject (recording 0 (Inr (jwire (jobj [(''objects'', j_vec DetectResults_to_json dets)]))))
        ratio old calls) = Inr (0, dets)"
proof -
  let ?items = "map (\<lambda>x. jwire (DetectResults_to_json x)) dets"
  have obj: "is_array (jobj [(''objects'', v)]) = False" "jfind (jobj [(''objects'', v)]) ''objects'' = Some v" for v
    by (simp_all add: is_array_def jobj_def jfind_def obj_of_def)
  have "detection_items (jwire (j_vec DetectResults_to_json dets)) = ?items"
    "detection_items (jwire (jobj [(''objects'', j_vec DetectResults_to_json dets)])) = ?items"
    by (simp_all add: detection_items_def wire_simps is_array_vec jiter_vec obj)
  then show ?thesis
    using push_items_all [OF assms, of "[]"]
    by (simp add: GetDetectionObject_def SendApiRequestWithResponse_def recording_def)
qed

theorem detections_are_delivered_witness:
  "fst (GetDetectionObject (recording 0 (Inr (jwire (j_vec DetectResults_to_json
      [DetectResults_default\<lparr>det_tag := ''ball'', det_xmin := 3\<rparr>])))) 0 [] [])
     = Inr (0, [DetectResults_default\<lparr>det_tag := ''ball'', det_xmin := 3\<rparr>])"
  using detections_are_delivered [of "[DetectResults_default\<lparr>det_tag := ''ball'', det_xmin := 3\<rparr>]" 0 "[]" "[]"]
  by (simp add: DetectResults_valid_def DetectResults_default_def)

text \<open>
  A malformed answer is reported as \<open>-1\<close> and never as success.  When the body is no JSON text the
  caller's list is untouched; when an item fails, the list holds exactly the items before it; when the
  request failed, its code comes back with the list untouched.
\<close>

lemma malformed_detections_are_reported:
  "fst (GetDetectionObject (recording 0 (Inl ParseError)) ratio old calls) = Inr (- 1, old)
   \<and> (ret \<noteq> 0 \<longrightarrow> fst (GetDetectionObject (recording ret body) ratio old calls) = Inr (ret, old))
   \<and> (\<forall>e. e \<noteq> CastUndefined \<and> DetectResults_from_json bad DetectResults_default = Inl e
          \<and> (\<forall>x \<in> set dets. DetectResults_valid x) \<longrightarrow>
        fst (GetDetectionObject
          (recording 0 (Inr (JArr (map (\<lambda>x. jwire (DetectResults_to_json x)) dets @ bad # rest)))) ratio old calls)
        = Inr (- 1, dets))"
proof -
  have "push_items (map (\<lambda>x. jwire (DetectResults_to_json x)) dets @ bad # rest) acc = (acc @ dets, Some e)"
    if "DetectResults_from_json bad DetectResults_default = Inl e" "\<forall>x \<in> set dets. DetectResults_valid x" for e acc
    using that by (induction dets arbitrary: acc) (simp_all add: detect_results.wire_roundtrip)
  then show ?thesis
    by (auto simp: GetDetectionObject_def SendApiRequestWithResponse_def recording_def detection_items_def
        is_array_def jiter_def)
qed

lemma malformed_detections_are_reported_witness:
  "fst (GetDetectionObject (recording 0 (Inr (JArr [jwire (DetectResults_to_json DetectResults_default),
      JObj [(''tag'', JBool True)]]))) 0 [] []) = Inr (- 1, [DetectResults_default])"
proof -
  have "DetectResults_from_json (JObj [(''tag'', JBool True)]) DetectResults_default = Inl (TypeError 302)"
    by (simp add: DetectResults_from_json_def fld_opt_def jfind_def get_str_def)
  moreover have "\<forall>x \<in> set [DetectResults_default]. DetectResults_valid x"
    by (simp add: DetectResults_valid_def DetectResults_default_def)
  ultimately show ?thesis
    using malformed_detections_are_reported [of 0 "[]" "[]" 0 "Inl ParseError" "JObj [(''tag'', JBool True)]"
        "[DetectResults_default]" "[]"] by simp
qed

text \<open>
  Calibration reports survive the wire: a status, a result and an application report that were
  written by \<open>ToJson\<close>, with their embedded documents, are read back unchanged by a new object.
\<close>

lemma calibration_reports_roundtrip:
  assumes "HandEyeCalibStatus_valid st" and "HandEyeCalibResult_valid rs" and "HandEyeCalibApplyResult_valid ap"
  shows "HandEyeCalibStatus_from_json (jwire (HandEyeCalibStatus_to_json st)) HandEyeCalibStatus_default = Inr st
    \<and> HandEyeCalibResult_from_json (jwire (HandEyeCalibResult_to_json rs)) HandEyeCalibResult_default = Inr rs
    \<and> HandEyeCalibApplyResult_from_json (jwire (HandEyeCalibApplyResult_to_json ap)) HandEyeCalibApplyResult_default
      = Inr ap"
  using assms hand_eye_calib_status.wire_roundtrip [of st HandEyeCalibStatus_default]
    hand_eye_calib_result.wire_roundtrip [of rs HandEyeCalibResult_default]
    hand_eye_calib_apply_result.wire_roundtrip [of ap HandEyeCalibApplyResult_default]
  by (simp add: HandEyeCalibStatus_default_def HandEyeCalibResult_default_def HandEyeCalibApplyResult_default_def)

lemma calibration_reports_roundtrip_witness:
  "HandEyeCalibResult_from_json (jwire (HandEyeCalibResult_to_json
      (HandEyeCalibResult_default\<lparr>hcr_result_json := Some (JObj [(''rms_px'', JFloat 2)]), hcr_reprojection_error_px := 1\<rparr>)))
      HandEyeCalibResult_default
   = Inr (HandEyeCalibResult_default\<lparr>hcr_result_json := Some (JObj [(''rms_px'', JFloat 2)]), hcr_reprojection_error_px := 1\<rparr>)"
  using calibration_reports_roundtrip [of HandEyeCalibStatus_default
      "HandEyeCalibResult_default\<lparr>hcr_result_json := Some (JObj [(''rms_px'', JFloat 2)]), hcr_reprojection_error_px := 1\<rparr>"
      HandEyeCalibApplyResult_default]
  by (simp add: HandEyeCalibStatus_default_def HandEyeCalibResult_default_def HandEyeCalibApplyResult_default_def
      HandEyeCalibStatus_valid_def HandEyeCalibResult_valid_def HandEyeCalibApplyResult_valid_def jfind_def get_double_def)

end
