(* ===== verification/X5_Camera.thy ===== *)
theory X5_Camera
  imports Rpc_Client
begin

text \<open>
  The X5 camera service, \<open>robot/x5_camera\<close>: modes, states, the parameter and response classes with their
  codecs, and the two methods of \<open>X5CameraClient\<close>.  Names that other services also use have the prefix
  \<open>X5_\<close>.
\<close>

definition kTopicX5CameraControlMode :: string where
  "kTopicX5CameraControlMode = ''rt/X5CameraControl''"

datatype CameraSetMode =
    kCameraModeNormal | kCameraModeHighResolution | kCameraModeNormalEnable
  | kCameraModeHighResolutionEnable

fun CameraSetMode_val :: "CameraSetMode \<Rightarrow> i32" where
  "CameraSetMode_val kCameraModeNormal = 0"
| "CameraSetMode_val kCameraModeHighResolution = 1"
| "CameraSetMode_val kCameraModeNormalEnable = 2"
| "CameraSetMode_val kCameraModeHighResolutionEnable = 3"

datatype CameraControlStatus =
    kCameraStatusNormal | kCameraStatusHighResolution | kCameraStatusError | kCameraStatusNull

fun CameraControlStatus_val :: "CameraControlStatus \<Rightarrow> i32" where
  "CameraControlStatus_val kCameraStatusNormal = 0"
| "CameraControlStatus_val kCameraStatusHighResolution = 1"
| "CameraControlStatus_val kCameraStatusError = 2"
| "CameraControlStatus_val kCameraStatusNull = 3"

datatype X5CameraApiId =
    X5CameraApiId_kChangeMode | X5CameraApiId_kGetStatus

fun X5CameraApiId_val :: "X5CameraApiId \<Rightarrow> i32" where
  "X5CameraApiId_val X5CameraApiId_kChangeMode = 5001"
| "X5CameraApiId_val X5CameraApiId_kGetStatus = 5002"

record X5_ChangeModeParameter =
  x5m_mode :: i32

definition X5_ChangeModeParameter_new :: "i32 \<Rightarrow> X5_ChangeModeParameter" where
  "X5_ChangeModeParameter_new mode =
     \<lparr>x5m_mode = mode\<rparr>"

definition X5_ChangeModeParameter_to_json :: "X5_ChangeModeParameter \<Rightarrow> json" where
  "X5_ChangeModeParameter_to_json self =
     jobj [(''mode'', j_i32 (x5m_mode self))]"

definition X5_ChangeModeParameter_from_json :: "json \<Rightarrow> X5_ChangeModeParameter \<Rightarrow> json_error + X5_ChangeModeParameter" where
  "X5_ChangeModeParameter_from_json j self =
     sbind (fld get_enum j ''mode'') (\<lambda>mode.
     Inr (self\<lparr>x5m_mode := mode\<rparr>))"

interpretation x5_change_mode_parameter: json_codec X5_ChangeModeParameter_to_json X5_ChangeModeParameter_from_json
  "\<lambda>_. True" "\<lambda>_. True"
  by unfold_locales
    (auto simp: X5_ChangeModeParameter_to_json_def X5_ChangeModeParameter_from_json_def
      codec_simps wire_simps intro!: X5_ChangeModeParameter.equality)

declare x5_change_mode_parameter.roundtrip [codec_simps] x5_change_mode_parameter.wire_blind [wire_simps]

record X5_GetStatusResponse =
  x5s_status :: i32

definition X5_GetStatusResponse_new :: "i32 \<Rightarrow> X5_GetStatusResponse" where
  "X5_GetStatusResponse_new status =
     \<lparr>x5s_status = status\<rparr>"

definition X5_GetStatusResponse_to_json :: "X5_GetStatusResponse \<Rightarrow> json" where
  "X5_GetStatusResponse_to_json self =
     jobj [(''status'', j_i32 (x5s_status self))]"

definition X5_GetStatusResponse_from_json :: "json \<Rightarrow> X5_GetStatusResponse \<Rightarrow> json_error + X5_GetStatusResponse" where
  "X5_GetStatusResponse_from_json j self =
     sbind (fld get_enum j ''status'') (\<lambda>status.
     Inr (self\<lparr>x5s_status := status\<rparr>))"

interpretation x5_get_status_response: json_codec X5_GetStatusResponse_to_json X5_GetStatusResponse_from_json
  "\<lambda>_. True" "\<lambda>_. True"
  by unfold_locales
    (auto simp: X5_GetStatusResponse_to_json_def X5_GetStatusResponse_from_json_def
      codec_simps wire_simps intro!: X5_GetStatusResponse.equality)

declare x5_get_status_response.roundtrip [codec_simps] x5_get_status_response.wire_blind [wire_simps]

subsection \<open>The client\<close>

definition X5_ChangeMode :: "(X5CameraApiId, 's) Transport \<Rightarrow> i32 \<Rightarrow> 's \<Rightarrow> i32 \<times> 's" where
  "X5_ChangeMode io mode s =
     SendApiRequest io X5CameraApiId_kChangeMode
       (Some (X5_ChangeModeParameter_to_json (X5_ChangeModeParameter_new mode))) s"

text \<open>
  \<open>GetStatus\<close> reads \<open>status\<close> twice: once into an unused local, once in \<open>FromJson\<close>.  The first read is
  \<open>body_json["status"]\<close> on the parsed document, so it throws wherever the second does.
\<close>

definition X5_GetStatus ::
    "(X5CameraApiId, 's) Transport \<Rightarrow> X5_GetStatusResponse \<Rightarrow> 's
     \<Rightarrow> (json_error + i32 \<times> X5_GetStatusResponse) \<times> 's" where
  "X5_GetStatus io out s =
     QueryInto io X5CameraApiId_kGetStatus None
       (\<lambda>j self. sbind (fld get_enum j ''status'') (\<lambda>_. X5_GetStatusResponse_from_json j self)) out s"

text \<open>The second read gives what the first gave, so the unused local changes nothing.\<close>

lemma X5_GetStatus_eq:
  "X5_GetStatus io out s = QueryInto io X5CameraApiId_kGetStatus None X5_GetStatusResponse_from_json out s"
proof -
  have "(\<lambda>j self. sbind (fld get_enum j ''status'') (\<lambda>_. X5_GetStatusResponse_from_json j self))
      = X5_GetStatusResponse_from_json"
    by (intro ext) (simp add: X5_GetStatusResponse_from_json_def sbind_def split: sum.splits)
  then show ?thesis by (simp add: X5_GetStatus_def)
qed

text \<open>The camera is asked for exactly the mode, and its answer is delivered.\<close>

lemma X5_camera_calls:
  "X5_ChangeMode (recording ret body) mode calls =
     (ret, calls @ [RpcCall RequestResponse X5CameraApiId_kChangeMode
        (Some (X5_ChangeModeParameter_to_json \<lparr>x5m_mode = mode\<rparr>))])"
  "X5_ChangeModeParameter_from_json (jwire (X5_ChangeModeParameter_to_json param)) old = Inr param"
  "fst (X5_GetStatus (recording 0 (Inr (jwire (X5_GetStatusResponse_to_json answer)))) out calls) = Inr (0, answer)"
  using x5_get_status_response.QueryInto_answer [where x = answer and out = out and s = calls and param = None
      and io = "recording 0 (Inr (jwire (X5_GetStatusResponse_to_json answer)))" and api_id = X5CameraApiId_kGetStatus]
  by (simp_all add: X5_ChangeMode_def X5_ChangeModeParameter_new_def SendApiRequest_def recording_def
      x5_change_mode_parameter.wire_roundtrip X5_GetStatus_eq)

end
