(* ===== verification/Idl_Common.thy ===== *)
theory Idl_Common
  imports Sdk_Prelude
begin

text \<open>
  The message types the SDK shares with ROS 2 (\<open>booster/idl/\<close>: \<open>builtin_interfaces\<close>,
  \<open>std_msgs\<close>, \<open>geometry_msgs\<close>, \<open>sensor_msgs\<close>, \<open>nav_msgs\<close>) and the two messages that carry remote
  calls (\<open>rpc\<close>).  Each class is a record of its private members, so that the reading and writing
  accessors of the class are the selector and the update of the member; \<open>C_default\<close> is the object
  the default constructor leaves, built from the member initialisers.  A fixed array is a list of
  that length, a \<open>float\<close> or \<open>double\<close> a real.  CDR serialisation is compiled into the binary
  library and is not modelled.
\<close>

subsection \<open>\<open>builtin_interfaces\<close>\<close>

record Time =
  Time_sec :: i32
  Time_nanosec :: u32

definition Time_default :: Time where
  "Time_default =
     \<lparr>Time_sec = 0, Time_nanosec = 0\<rparr>"

subsection \<open>\<open>std_msgs\<close>\<close>

record Header =
  Header_stamp :: Time
  Header_frame_id :: string

definition Header_default :: Header where
  "Header_default =
     \<lparr>Header_stamp = Time_default, Header_frame_id = ''''\<rparr>"

subsection \<open>\<open>geometry_msgs\<close>\<close>

record Point =
  Point_x :: real
  Point_y :: real
  Point_z :: real

definition Point_default :: Point where
  "Point_default =
     \<lparr>Point_x = 0, Point_y = 0, Point_z = 0\<rparr>"

record QuaternionMsg =
  QuaternionMsg_x :: real
  QuaternionMsg_y :: real
  QuaternionMsg_z :: real
  QuaternionMsg_w :: real

definition QuaternionMsg_default :: QuaternionMsg where
  "QuaternionMsg_default =
     \<lparr>QuaternionMsg_x = 0, QuaternionMsg_y = 0, QuaternionMsg_z = 0, QuaternionMsg_w = 1\<rparr>"

record Pose =
  Pose_position :: Point
  Pose_orientation :: QuaternionMsg

definition Pose_default :: Pose where
  "Pose_default =
     \<lparr>Pose_position = Point_default, Pose_orientation = QuaternionMsg_default\<rparr>"

record PoseStamped =
  PoseStamped_header :: Header
  PoseStamped_pose :: Pose

definition PoseStamped_default :: PoseStamped where
  "PoseStamped_default =
     \<lparr>PoseStamped_header = Header_default, PoseStamped_pose = Pose_default\<rparr>"

record PoseWithCovariance =
  PoseWithCovariance_pose :: Pose
  PoseWithCovariance_covariance :: "real list"

definition PoseWithCovariance_default :: PoseWithCovariance where
  "PoseWithCovariance_default =
     \<lparr>PoseWithCovariance_pose = Pose_default, PoseWithCovariance_covariance = replicate 36 0\<rparr>"

record Vector3 =
  Vector3_x :: real
  Vector3_y :: real
  Vector3_z :: real

definition Vector3_default :: Vector3 where
  "Vector3_default =
     \<lparr>Vector3_x = 0, Vector3_y = 0, Vector3_z = 0\<rparr>"

record TransformMsg =
  TransformMsg_translation :: Vector3
  TransformMsg_rotation :: QuaternionMsg

definition TransformMsg_default :: TransformMsg where
  "TransformMsg_default =
     \<lparr>TransformMsg_translation = Vector3_default, TransformMsg_rotation = QuaternionMsg_default\<rparr>"

record TransformStamped =
  TransformStamped_header :: Header
  TransformStamped_child_frame_id :: string
  TransformStamped_transform :: TransformMsg

definition TransformStamped_default :: TransformStamped where
  "TransformStamped_default =
     \<lparr>TransformStamped_header = Header_default, TransformStamped_child_frame_id = '''',
      TransformStamped_transform = TransformMsg_default\<rparr>"

record Twist =
  Twist_linear :: Vector3
  Twist_angular :: Vector3

definition Twist_default :: Twist where
  "Twist_default =
     \<lparr>Twist_linear = Vector3_default, Twist_angular = Vector3_default\<rparr>"

record TwistWithCovariance =
  TwistWithCovariance_twist :: Twist
  TwistWithCovariance_covariance :: "real list"

definition TwistWithCovariance_default :: TwistWithCovariance where
  "TwistWithCovariance_default =
     \<lparr>TwistWithCovariance_twist = Twist_default, TwistWithCovariance_covariance = replicate 36 0\<rparr>"

subsection \<open>\<open>sensor_msgs\<close>\<close>

record RegionOfInterest =
  RegionOfInterest_x_offset :: u32
  RegionOfInterest_y_offset :: u32
  RegionOfInterest_height :: u32
  RegionOfInterest_width :: u32
  RegionOfInterest_do_rectify :: bool

definition RegionOfInterest_default :: RegionOfInterest where
  "RegionOfInterest_default =
     \<lparr>RegionOfInterest_x_offset = 0, RegionOfInterest_y_offset = 0,
      RegionOfInterest_height = 0, RegionOfInterest_width = 0,
      RegionOfInterest_do_rectify = False\<rparr>"

record CameraInfo =
  CameraInfo_header :: Header
  CameraInfo_height :: u32
  CameraInfo_width :: u32
  CameraInfo_distortion_model :: string
  CameraInfo_d :: "real list"
  CameraInfo_k :: "real list"
  CameraInfo_r :: "real list"
  CameraInfo_p :: "real list"
  CameraInfo_binning_x :: u32
  CameraInfo_binning_y :: u32
  CameraInfo_roi :: RegionOfInterest

definition CameraInfo_default :: CameraInfo where
  "CameraInfo_default =
     \<lparr>CameraInfo_header = Header_default, CameraInfo_height = 0, CameraInfo_width = 0,
      CameraInfo_distortion_model = '''', CameraInfo_d = [], CameraInfo_k = replicate 9 0,
      CameraInfo_r = replicate 9 0, CameraInfo_p = replicate 12 0, CameraInfo_binning_x = 0,
      CameraInfo_binning_y = 0, CameraInfo_roi = RegionOfInterest_default\<rparr>"

record CompressedImage =
  CompressedImage_header :: Header
  CompressedImage_format :: string
  CompressedImage_data :: "u8 list"

definition CompressedImage_default :: CompressedImage where
  "CompressedImage_default =
     \<lparr>CompressedImage_header = Header_default, CompressedImage_format = '''',
      CompressedImage_data = []\<rparr>"

record Image =
  Image_header :: Header
  Image_height :: u32
  Image_width :: u32
  Image_encoding :: string
  Image_is_bigendian :: u8
  Image_step :: u32
  Image_data :: "u8 list"

definition Image_default :: Image where
  "Image_default =
     \<lparr>Image_header = Header_default, Image_height = 0, Image_width = 0, Image_encoding = '''',
      Image_is_bigendian = 0, Image_step = 0, Image_data = []\<rparr>"

record Imu =
  Imu_header :: Header
  Imu_orientation :: QuaternionMsg
  Imu_orientation_covariance :: "real list"
  Imu_angular_velocity :: Vector3
  Imu_angular_velocity_covariance :: "real list"
  Imu_linear_acceleration :: Vector3
  Imu_linear_acceleration_covariance :: "real list"

definition Imu_default :: Imu where
  "Imu_default =
     \<lparr>Imu_header = Header_default, Imu_orientation = QuaternionMsg_default,
      Imu_orientation_covariance = replicate 9 0, Imu_angular_velocity = Vector3_default,
      Imu_angular_velocity_covariance = replicate 9 0,
      Imu_linear_acceleration = Vector3_default,
      Imu_linear_acceleration_covariance = replicate 9 0\<rparr>"

record JointState =
  JointState_header :: Header
  JointState_name :: "string list"
  JointState_position :: "real list"
  JointState_velocity :: "real list"
  JointState_effort :: "real list"

definition JointState_default :: JointState where
  "JointState_default =
     \<lparr>JointState_header = Header_default, JointState_name = [], JointState_position = [],
      JointState_velocity = [], JointState_effort = []\<rparr>"

subsection \<open>\<open>nav_msgs\<close>\<close>

record Odometry =
  Odometry_header :: Header
  Odometry_child_frame_id :: string
  Odometry_pose :: PoseWithCovariance
  Odometry_twist :: TwistWithCovariance

definition Odometry_default :: Odometry where
  "Odometry_default =
     \<lparr>Odometry_header = Header_default, Odometry_child_frame_id = '''',
      Odometry_pose = PoseWithCovariance_default, Odometry_twist = TwistWithCovariance_default\<rparr>"

subsection \<open>\<open>rpc\<close>\<close>

record RpcReqMsg =
  RpcReqMsg_uuid :: string
  RpcReqMsg_header :: string
  RpcReqMsg_body :: string

definition RpcReqMsg_default :: RpcReqMsg where
  "RpcReqMsg_default =
     \<lparr>RpcReqMsg_uuid = '''', RpcReqMsg_header = '''', RpcReqMsg_body = ''''\<rparr>"

record RpcRespMsg =
  RpcRespMsg_uuid :: string
  RpcRespMsg_header :: string
  RpcRespMsg_body :: string

definition RpcRespMsg_default :: RpcRespMsg where
  "RpcRespMsg_default =
     \<lparr>RpcRespMsg_uuid = '''', RpcRespMsg_header = '''', RpcRespMsg_body = ''''\<rparr>"

end
