(* ===== verification/Idl_Media.thy ===== *)
theory Idl_Media
  imports Idl_Common
begin

text \<open>
  The messages of speech recognition (\<open>booster/idl/ai\<close>), of the audio service
  (\<open>booster/idl/audio\<close>) and of the cameras (\<open>booster/idl/camera\<close>), in the reading of
  \<open>Idl_Common\<close>.
\<close>

subsection \<open>\<open>ai\<close>\<close>

record AsrUtterance =
  AsrUtterance_text :: string
  AsrUtterance_definite :: bool
  AsrUtterance_start_time_ms :: u32
  AsrUtterance_end_time_ms :: u32
  AsrUtterance_speaker_id :: string
  AsrUtterance_emotion :: string
  AsrUtterance_gender :: string
  AsrUtterance_lid_lang :: string
  AsrUtterance_speech_rate :: real
  AsrUtterance_volume_db :: real
  AsrUtterance_additions_json :: string

definition AsrUtterance_default :: AsrUtterance where
  "AsrUtterance_default =
     \<lparr>AsrUtterance_text = '''', AsrUtterance_definite = False, AsrUtterance_start_time_ms = 0,
      AsrUtterance_end_time_ms = 0, AsrUtterance_speaker_id = '''',
      AsrUtterance_emotion = '''', AsrUtterance_gender = '''', AsrUtterance_lid_lang = '''',
      AsrUtterance_speech_rate = 0, AsrUtterance_volume_db = 0,
      AsrUtterance_additions_json = ''''\<rparr>"

record AsrChunk =
  AsrChunk_session_id :: string
  AsrChunk_client_id :: string
  AsrChunk_role :: string
  AsrChunk_text :: string
  AsrChunk_is_final :: bool
  AsrChunk_start_time_ms :: u32
  AsrChunk_end_time_ms :: u32
  AsrChunk_speaker_id :: string
  AsrChunk_emotion :: string
  AsrChunk_gender :: string
  AsrChunk_lid_lang :: string
  AsrChunk_speech_rate :: real
  AsrChunk_volume_db :: real
  AsrChunk_provider_logid :: string
  AsrChunk_raw_json :: string
  AsrChunk_utterances :: "AsrUtterance list"

definition AsrChunk_default :: AsrChunk where
  "AsrChunk_default =
     \<lparr>AsrChunk_session_id = '''', AsrChunk_client_id = '''', AsrChunk_role = '''',
      AsrChunk_text = '''', AsrChunk_is_final = False, AsrChunk_start_time_ms = 0,
      AsrChunk_end_time_ms = 0, AsrChunk_speaker_id = '''', AsrChunk_emotion = '''',
      AsrChunk_gender = '''', AsrChunk_lid_lang = '''', AsrChunk_speech_rate = 0,
      AsrChunk_volume_db = 0, AsrChunk_provider_logid = '''', AsrChunk_raw_json = '''',
      AsrChunk_utterances = []\<rparr>"

record Subtitle =
  Subtitle_magic_number :: string
  Subtitle_text :: string
  Subtitle_language :: string
  Subtitle_user_id :: string
  Subtitle_seq :: i32
  Subtitle_definite :: bool
  Subtitle_paragraph :: bool
  Subtitle_round_id :: i32

definition Subtitle_default :: Subtitle where
  "Subtitle_default =
     \<lparr>Subtitle_magic_number = '''', Subtitle_text = '''', Subtitle_language = '''',
      Subtitle_user_id = '''', Subtitle_seq = 0, Subtitle_definite = False,
      Subtitle_paragraph = False, Subtitle_round_id = 0\<rparr>"

subsection \<open>\<open>audio\<close>\<close>

datatype SessionType =
    PLAYER_SESSION | RECORDER_SESSION | LOCALIZER_SESSION | CAPTURE_STREAM_SESSION

fun SessionType_val :: "SessionType \<Rightarrow> u32" where
  "SessionType_val PLAYER_SESSION = 0"
| "SessionType_val RECORDER_SESSION = 1"
| "SessionType_val LOCALIZER_SESSION = 2"
| "SessionType_val CAPTURE_STREAM_SESSION = 3"

record AudioTopicHeader =
  AudioTopicHeader_client_id :: string
  AudioTopicHeader_request_id :: string
  AudioTopicHeader_session_type :: SessionType
  AudioTopicHeader_session_id :: i64
  AudioTopicHeader_timestamp_ms :: i64

definition AudioTopicHeader_default :: AudioTopicHeader where
  "AudioTopicHeader_default =
     \<lparr>AudioTopicHeader_client_id = '''', AudioTopicHeader_request_id = '''',
      AudioTopicHeader_session_type = PLAYER_SESSION, AudioTopicHeader_session_id = 0,
      AudioTopicHeader_timestamp_ms = 0\<rparr>"

record AudioCaptureFrameTopic =
  AudioCaptureFrameTopic_header :: AudioTopicHeader
  AudioCaptureFrameTopic_frame_seq :: i64
  AudioCaptureFrameTopic_raw_valid :: bool
  AudioCaptureFrameTopic_raw_sample_rate_hz :: i32
  AudioCaptureFrameTopic_raw_channels :: i32
  AudioCaptureFrameTopic_raw_bits_per_sample :: i32
  AudioCaptureFrameTopic_raw_frame_samples_per_channel :: i32
  AudioCaptureFrameTopic_raw_pcm :: "i16 list"
  AudioCaptureFrameTopic_naec_valid :: bool
  AudioCaptureFrameTopic_naec_sample_rate_hz :: i32
  AudioCaptureFrameTopic_naec_channels :: i32
  AudioCaptureFrameTopic_naec_bits_per_sample :: i32
  AudioCaptureFrameTopic_naec_frame_samples_per_channel :: i32
  AudioCaptureFrameTopic_naec_pcm :: "i16 list"

definition AudioCaptureFrameTopic_default :: AudioCaptureFrameTopic where
  "AudioCaptureFrameTopic_default =
     \<lparr>AudioCaptureFrameTopic_header = AudioTopicHeader_default,
      AudioCaptureFrameTopic_frame_seq = 0, AudioCaptureFrameTopic_raw_valid = False,
      AudioCaptureFrameTopic_raw_sample_rate_hz = 0, AudioCaptureFrameTopic_raw_channels = 0,
      AudioCaptureFrameTopic_raw_bits_per_sample = 0,
      AudioCaptureFrameTopic_raw_frame_samples_per_channel = 0,
      AudioCaptureFrameTopic_raw_pcm = [], AudioCaptureFrameTopic_naec_valid = False,
      AudioCaptureFrameTopic_naec_sample_rate_hz = 0, AudioCaptureFrameTopic_naec_channels = 0,
      AudioCaptureFrameTopic_naec_bits_per_sample = 0,
      AudioCaptureFrameTopic_naec_frame_samples_per_channel = 0,
      AudioCaptureFrameTopic_naec_pcm = []\<rparr>"

datatype AudioSourceType =
    PCM_FILE | WAV_FILE | PCM_STREAM | MP3_FILE

fun AudioSourceType_val :: "AudioSourceType \<Rightarrow> u32" where
  "AudioSourceType_val PCM_FILE = 0"
| "AudioSourceType_val WAV_FILE = 1"
| "AudioSourceType_val PCM_STREAM = 2"
| "AudioSourceType_val MP3_FILE = 3"

datatype AudioPlayerPriority =
    PLAYER_PRIORITY_LOW | PLAYER_PRIORITY_MEDIUM | PLAYER_PRIORITY_HIGH

fun AudioPlayerPriority_val :: "AudioPlayerPriority \<Rightarrow> u32" where
  "AudioPlayerPriority_val PLAYER_PRIORITY_LOW = 0"
| "AudioPlayerPriority_val PLAYER_PRIORITY_MEDIUM = 1"
| "AudioPlayerPriority_val PLAYER_PRIORITY_HIGH = 2"

datatype AudioPlayerState =
    PLAYER_IDLE | PLAYER_READY | PLAYER_PLAYING | PLAYER_PAUSED | PLAYER_STOPPED
  | PLAYER_COMPLETED | PLAYER_ERROR

fun AudioPlayerState_val :: "AudioPlayerState \<Rightarrow> u32" where
  "AudioPlayerState_val PLAYER_IDLE = 0"
| "AudioPlayerState_val PLAYER_READY = 1"
| "AudioPlayerState_val PLAYER_PLAYING = 2"
| "AudioPlayerState_val PLAYER_PAUSED = 3"
| "AudioPlayerState_val PLAYER_STOPPED = 4"
| "AudioPlayerState_val PLAYER_COMPLETED = 5"
| "AudioPlayerState_val PLAYER_ERROR = 6"

datatype AudioRecorderState =
    RECORDER_IDLE | RECORDER_READY | RECORDER_RECORDING | RECORDER_PAUSED | RECORDER_STOPPED
  | RECORDER_ERROR

fun AudioRecorderState_val :: "AudioRecorderState \<Rightarrow> u32" where
  "AudioRecorderState_val RECORDER_IDLE = 0"
| "AudioRecorderState_val RECORDER_READY = 1"
| "AudioRecorderState_val RECORDER_RECORDING = 2"
| "AudioRecorderState_val RECORDER_PAUSED = 3"
| "AudioRecorderState_val RECORDER_STOPPED = 4"
| "AudioRecorderState_val RECORDER_ERROR = 5"

datatype AudioCaptureStreamState =
    CAPTURE_STREAM_IDLE | CAPTURE_STREAM_READY | CAPTURE_STREAM_STREAMING | CAPTURE_STREAM_PAUSED
  | CAPTURE_STREAM_STOPPED | CAPTURE_STREAM_ERROR

fun AudioCaptureStreamState_val :: "AudioCaptureStreamState \<Rightarrow> u32" where
  "AudioCaptureStreamState_val CAPTURE_STREAM_IDLE = 0"
| "AudioCaptureStreamState_val CAPTURE_STREAM_READY = 1"
| "AudioCaptureStreamState_val CAPTURE_STREAM_STREAMING = 2"
| "AudioCaptureStreamState_val CAPTURE_STREAM_PAUSED = 3"
| "AudioCaptureStreamState_val CAPTURE_STREAM_STOPPED = 4"
| "AudioCaptureStreamState_val CAPTURE_STREAM_ERROR = 5"

datatype AudioErrorCode =
    SERVICE_DEGRADED | INVALID_STATE | DEVICE_BUSY | NOT_SUPPORTED | LOCALIZATION_UNAVAILABLE
  | ALSA_DEVICE_NOT_FOUND | ALGO_INIT_FAILED | ALGO_PROCESS_FAILED | SYSTEM_VOLUME_CTRL_FAILED
  | SYSTEM_MUTE_CTRL_FAILED | MEDIA_DECODE_FAILED | MEDIA_ENCODE_FAILED | MEDIA_FORMAT_UNSUPPORTED

fun AudioErrorCode_val :: "AudioErrorCode \<Rightarrow> u32" where
  "AudioErrorCode_val SERVICE_DEGRADED = 0"
| "AudioErrorCode_val INVALID_STATE = 1"
| "AudioErrorCode_val DEVICE_BUSY = 2"
| "AudioErrorCode_val NOT_SUPPORTED = 3"
| "AudioErrorCode_val LOCALIZATION_UNAVAILABLE = 4"
| "AudioErrorCode_val ALSA_DEVICE_NOT_FOUND = 5"
| "AudioErrorCode_val ALGO_INIT_FAILED = 6"
| "AudioErrorCode_val ALGO_PROCESS_FAILED = 7"
| "AudioErrorCode_val SYSTEM_VOLUME_CTRL_FAILED = 8"
| "AudioErrorCode_val SYSTEM_MUTE_CTRL_FAILED = 9"
| "AudioErrorCode_val MEDIA_DECODE_FAILED = 10"
| "AudioErrorCode_val MEDIA_ENCODE_FAILED = 11"
| "AudioErrorCode_val MEDIA_FORMAT_UNSUPPORTED = 12"

datatype AudioEventCode =
    PLAYER_INIT_SUCCEEDED | PLAYER_START_SUCCEEDED | PLAYER_PAUSE_SUCCEEDED
  | PLAYER_STOP_SUCCEEDED | PLAYER_RESET_SUCCEEDED | PLAYER_DESTROY_SUCCEEDED
  | RECORDER_INIT_SUCCEEDED | RECORDER_START_SUCCEEDED | RECORDER_PAUSE_SUCCEEDED
  | RECORDER_STOP_SUCCEEDED | RECORDER_DESTROY_SUCCEEDED | PLAYER_TERMINAL_STATE_CHANGED
  | SYSTEM_VOLUME_SET_SUCCEEDED | SYSTEM_MUTE_SET_SUCCEEDED | CAPTURE_STREAM_INIT_SUCCEEDED
  | CAPTURE_STREAM_START_SUCCEEDED | CAPTURE_STREAM_PAUSE_SUCCEEDED
  | CAPTURE_STREAM_STOP_SUCCEEDED | CAPTURE_STREAM_DESTROY_SUCCEEDED

fun AudioEventCode_val :: "AudioEventCode \<Rightarrow> u32" where
  "AudioEventCode_val PLAYER_INIT_SUCCEEDED = 0"
| "AudioEventCode_val PLAYER_START_SUCCEEDED = 1"
| "AudioEventCode_val PLAYER_PAUSE_SUCCEEDED = 2"
| "AudioEventCode_val PLAYER_STOP_SUCCEEDED = 3"
| "AudioEventCode_val PLAYER_RESET_SUCCEEDED = 4"
| "AudioEventCode_val PLAYER_DESTROY_SUCCEEDED = 5"
| "AudioEventCode_val RECORDER_INIT_SUCCEEDED = 6"
| "AudioEventCode_val RECORDER_START_SUCCEEDED = 7"
| "AudioEventCode_val RECORDER_PAUSE_SUCCEEDED = 8"
| "AudioEventCode_val RECORDER_STOP_SUCCEEDED = 9"
| "AudioEventCode_val RECORDER_DESTROY_SUCCEEDED = 10"
| "AudioEventCode_val PLAYER_TERMINAL_STATE_CHANGED = 11"
| "AudioEventCode_val SYSTEM_VOLUME_SET_SUCCEEDED = 12"
| "AudioEventCode_val SYSTEM_MUTE_SET_SUCCEEDED = 13"
| "AudioEventCode_val CAPTURE_STREAM_INIT_SUCCEEDED = 14"
| "AudioEventCode_val CAPTURE_STREAM_START_SUCCEEDED = 15"
| "AudioEventCode_val CAPTURE_STREAM_PAUSE_SUCCEEDED = 16"
| "AudioEventCode_val CAPTURE_STREAM_STOP_SUCCEEDED = 17"
| "AudioEventCode_val CAPTURE_STREAM_DESTROY_SUCCEEDED = 18"

datatype AudioErrorCategory =
    RPC_ERROR | PLAYBACK_ERROR | RECORD_ERROR | CAPTURE_STREAM_RUNTIME_ERROR | LOCALIZATION_ERROR
  | SYSTEM_VOLUME_ERROR | SYSTEM_MUTE_ERROR | INTERNAL_ERROR

fun AudioErrorCategory_val :: "AudioErrorCategory \<Rightarrow> u32" where
  "AudioErrorCategory_val RPC_ERROR = 0"
| "AudioErrorCategory_val PLAYBACK_ERROR = 1"
| "AudioErrorCategory_val RECORD_ERROR = 2"
| "AudioErrorCategory_val CAPTURE_STREAM_RUNTIME_ERROR = 3"
| "AudioErrorCategory_val LOCALIZATION_ERROR = 4"
| "AudioErrorCategory_val SYSTEM_VOLUME_ERROR = 5"
| "AudioErrorCategory_val SYSTEM_MUTE_ERROR = 6"
| "AudioErrorCategory_val INTERNAL_ERROR = 7"

datatype AudioErrorDetail =
    ERROR_DETAIL_NONE | ERROR_DETAIL_INIT_PLAYER | ERROR_DETAIL_START_PLAYER
  | ERROR_DETAIL_PAUSE_PLAYER | ERROR_DETAIL_STOP_PLAYER | ERROR_DETAIL_RESET_PLAYER
  | ERROR_DETAIL_DESTROY_PLAYER | ERROR_DETAIL_GET_PLAYER_INFO | ERROR_DETAIL_SEND_PCM_DATA
  | ERROR_DETAIL_INIT_RECORDER | ERROR_DETAIL_START_RECORDER | ERROR_DETAIL_PAUSE_RECORDER
  | ERROR_DETAIL_STOP_RECORDER | ERROR_DETAIL_DESTROY_RECORDER | ERROR_DETAIL_GET_RECORDER_INFO
  | ERROR_DETAIL_GET_DOA_ANGLE | ERROR_DETAIL_SET_SYSTEM_VOLUME | ERROR_DETAIL_GET_SYSTEM_VOLUME
  | ERROR_DETAIL_SET_SYSTEM_MUTE | ERROR_DETAIL_GET_SYSTEM_MUTE | ERROR_DETAIL_INIT_CAPTURE_STREAM
  | ERROR_DETAIL_START_CAPTURE_STREAM | ERROR_DETAIL_PAUSE_CAPTURE_STREAM
  | ERROR_DETAIL_STOP_CAPTURE_STREAM | ERROR_DETAIL_DESTROY_CAPTURE_STREAM
  | ERROR_DETAIL_GET_CAPTURE_STREAM_INFO

fun AudioErrorDetail_val :: "AudioErrorDetail \<Rightarrow> u32" where
  "AudioErrorDetail_val ERROR_DETAIL_NONE = 0"
| "AudioErrorDetail_val ERROR_DETAIL_INIT_PLAYER = 1"
| "AudioErrorDetail_val ERROR_DETAIL_START_PLAYER = 2"
| "AudioErrorDetail_val ERROR_DETAIL_PAUSE_PLAYER = 3"
| "AudioErrorDetail_val ERROR_DETAIL_STOP_PLAYER = 4"
| "AudioErrorDetail_val ERROR_DETAIL_RESET_PLAYER = 5"
| "AudioErrorDetail_val ERROR_DETAIL_DESTROY_PLAYER = 6"
| "AudioErrorDetail_val ERROR_DETAIL_GET_PLAYER_INFO = 7"
| "AudioErrorDetail_val ERROR_DETAIL_SEND_PCM_DATA = 8"
| "AudioErrorDetail_val ERROR_DETAIL_INIT_RECORDER = 9"
| "AudioErrorDetail_val ERROR_DETAIL_START_RECORDER = 10"
| "AudioErrorDetail_val ERROR_DETAIL_PAUSE_RECORDER = 11"
| "AudioErrorDetail_val ERROR_DETAIL_STOP_RECORDER = 12"
| "AudioErrorDetail_val ERROR_DETAIL_DESTROY_RECORDER = 13"
| "AudioErrorDetail_val ERROR_DETAIL_GET_RECORDER_INFO = 14"
| "AudioErrorDetail_val ERROR_DETAIL_GET_DOA_ANGLE = 15"
| "AudioErrorDetail_val ERROR_DETAIL_SET_SYSTEM_VOLUME = 16"
| "AudioErrorDetail_val ERROR_DETAIL_GET_SYSTEM_VOLUME = 17"
| "AudioErrorDetail_val ERROR_DETAIL_SET_SYSTEM_MUTE = 18"
| "AudioErrorDetail_val ERROR_DETAIL_GET_SYSTEM_MUTE = 19"
| "AudioErrorDetail_val ERROR_DETAIL_INIT_CAPTURE_STREAM = 20"
| "AudioErrorDetail_val ERROR_DETAIL_START_CAPTURE_STREAM = 21"
| "AudioErrorDetail_val ERROR_DETAIL_PAUSE_CAPTURE_STREAM = 22"
| "AudioErrorDetail_val ERROR_DETAIL_STOP_CAPTURE_STREAM = 23"
| "AudioErrorDetail_val ERROR_DETAIL_DESTROY_CAPTURE_STREAM = 24"
| "AudioErrorDetail_val ERROR_DETAIL_GET_CAPTURE_STREAM_INFO = 25"

record RpcMeta =
  RpcMeta_client_id :: string
  RpcMeta_request_id :: string

definition RpcMeta_default :: RpcMeta where
  "RpcMeta_default =
     \<lparr>RpcMeta_client_id = '''', RpcMeta_request_id = ''''\<rparr>"

record AudioErrorTopic =
  AudioErrorTopic_header :: AudioTopicHeader
  AudioErrorTopic_ret_code :: i32
  AudioErrorTopic_error_category :: AudioErrorCategory
  AudioErrorTopic_error_detail :: AudioErrorDetail
  AudioErrorTopic_ret_msg :: string

definition AudioErrorTopic_default :: AudioErrorTopic where
  "AudioErrorTopic_default =
     \<lparr>AudioErrorTopic_header = AudioTopicHeader_default, AudioErrorTopic_ret_code = 0,
      AudioErrorTopic_error_category = RPC_ERROR,
      AudioErrorTopic_error_detail = ERROR_DETAIL_NONE, AudioErrorTopic_ret_msg = ''''\<rparr>"

record AudioEventTopic =
  AudioEventTopic_header :: AudioTopicHeader
  AudioEventTopic_event_code :: AudioEventCode
  AudioEventTopic_state :: i32
  AudioEventTopic_detail :: string

definition AudioEventTopic_default :: AudioEventTopic where
  "AudioEventTopic_default =
     \<lparr>AudioEventTopic_header = AudioTopicHeader_default,
      AudioEventTopic_event_code = PLAYER_INIT_SUCCEEDED, AudioEventTopic_state = 0,
      AudioEventTopic_detail = ''''\<rparr>"

record AudioProgressTopic =
  AudioProgressTopic_header :: AudioTopicHeader
  AudioProgressTopic_position_bytes :: i64
  AudioProgressTopic_duration_bytes :: i64
  AudioProgressTopic_state :: i32

definition AudioProgressTopic_default :: AudioProgressTopic where
  "AudioProgressTopic_default =
     \<lparr>AudioProgressTopic_header = AudioTopicHeader_default,
      AudioProgressTopic_position_bytes = 0, AudioProgressTopic_duration_bytes = 0,
      AudioProgressTopic_state = 0\<rparr>"

record BluetoothEventTopic =
  BluetoothEventTopic_timestamp_ms :: i64
  BluetoothEventTopic_event_type :: string
  BluetoothEventTopic_address :: string
  BluetoothEventTopic_payload_json :: string
  BluetoothEventTopic_error_code :: i32

definition BluetoothEventTopic_default :: BluetoothEventTopic where
  "BluetoothEventTopic_default =
     \<lparr>BluetoothEventTopic_timestamp_ms = 0, BluetoothEventTopic_event_type = '''',
      BluetoothEventTopic_address = '''', BluetoothEventTopic_payload_json = '''',
      BluetoothEventTopic_error_code = 0\<rparr>"

record GetDoaAngleRequest =
  GetDoaAngleRequest_client_id :: string
  GetDoaAngleRequest_request_id :: string

definition GetDoaAngleRequest_default :: GetDoaAngleRequest where
  "GetDoaAngleRequest_default =
     \<lparr>GetDoaAngleRequest_client_id = '''', GetDoaAngleRequest_request_id = ''''\<rparr>"

record GetDoaAngleResponse =
  GetDoaAngleResponse_ret_code :: i32
  GetDoaAngleResponse_ret_msg :: string
  GetDoaAngleResponse_angle_deg :: i32

definition GetDoaAngleResponse_default :: GetDoaAngleResponse where
  "GetDoaAngleResponse_default =
     \<lparr>GetDoaAngleResponse_ret_code = 0, GetDoaAngleResponse_ret_msg = '''',
      GetDoaAngleResponse_angle_deg = 0\<rparr>"

record GetSystemMuteRequest =
  GetSystemMuteRequest_client_id :: string
  GetSystemMuteRequest_request_id :: string

definition GetSystemMuteRequest_default :: GetSystemMuteRequest where
  "GetSystemMuteRequest_default =
     \<lparr>GetSystemMuteRequest_client_id = '''', GetSystemMuteRequest_request_id = ''''\<rparr>"

record GetSystemMuteResponse =
  GetSystemMuteResponse_ret_code :: i32
  GetSystemMuteResponse_ret_msg :: string
  GetSystemMuteResponse_mute :: bool

definition GetSystemMuteResponse_default :: GetSystemMuteResponse where
  "GetSystemMuteResponse_default =
     \<lparr>GetSystemMuteResponse_ret_code = 0, GetSystemMuteResponse_ret_msg = '''',
      GetSystemMuteResponse_mute = False\<rparr>"

record GetSystemVolumeRequest =
  GetSystemVolumeRequest_client_id :: string
  GetSystemVolumeRequest_request_id :: string

definition GetSystemVolumeRequest_default :: GetSystemVolumeRequest where
  "GetSystemVolumeRequest_default =
     \<lparr>GetSystemVolumeRequest_client_id = '''', GetSystemVolumeRequest_request_id = ''''\<rparr>"

record GetSystemVolumeResponse =
  GetSystemVolumeResponse_ret_code :: i32
  GetSystemVolumeResponse_ret_msg :: string
  GetSystemVolumeResponse_volume :: real

definition GetSystemVolumeResponse_default :: GetSystemVolumeResponse where
  "GetSystemVolumeResponse_default =
     \<lparr>GetSystemVolumeResponse_ret_code = 0, GetSystemVolumeResponse_ret_msg = '''',
      GetSystemVolumeResponse_volume = 0\<rparr>"

record InitPlayerRequest =
  InitPlayerRequest_client_id :: string
  InitPlayerRequest_request_id :: string
  InitPlayerRequest_source_type :: AudioSourceType
  InitPlayerRequest_source_uri :: string
  InitPlayerRequest_sample_rate_hz :: i32
  InitPlayerRequest_channels :: i32
  InitPlayerRequest_bits_per_sample :: i32
  InitPlayerRequest_priority :: AudioPlayerPriority

definition InitPlayerRequest_default :: InitPlayerRequest where
  "InitPlayerRequest_default =
     \<lparr>InitPlayerRequest_client_id = '''', InitPlayerRequest_request_id = '''',
      InitPlayerRequest_source_type = PCM_FILE, InitPlayerRequest_source_uri = '''',
      InitPlayerRequest_sample_rate_hz = 0, InitPlayerRequest_channels = 0,
      InitPlayerRequest_bits_per_sample = 0, InitPlayerRequest_priority = PLAYER_PRIORITY_LOW\<rparr>"

record InitPlayerResponse =
  InitPlayerResponse_ret_code :: i32
  InitPlayerResponse_ret_msg :: string
  InitPlayerResponse_session_id :: i64

definition InitPlayerResponse_default :: InitPlayerResponse where
  "InitPlayerResponse_default =
     \<lparr>InitPlayerResponse_ret_code = 0, InitPlayerResponse_ret_msg = '''',
      InitPlayerResponse_session_id = 0\<rparr>"

record InitRecorderRequest =
  InitRecorderRequest_client_id :: string
  InitRecorderRequest_request_id :: string
  InitRecorderRequest_output_path :: string
  InitRecorderRequest_sample_rate_hz :: i32
  InitRecorderRequest_channels :: i32
  InitRecorderRequest_bits_per_sample :: i32

definition InitRecorderRequest_default :: InitRecorderRequest where
  "InitRecorderRequest_default =
     \<lparr>InitRecorderRequest_client_id = '''', InitRecorderRequest_request_id = '''',
      InitRecorderRequest_output_path = '''', InitRecorderRequest_sample_rate_hz = 0,
      InitRecorderRequest_channels = 0, InitRecorderRequest_bits_per_sample = 0\<rparr>"

record InitRecorderResponse =
  InitRecorderResponse_ret_code :: i32
  InitRecorderResponse_ret_msg :: string
  InitRecorderResponse_session_id :: i64

definition InitRecorderResponse_default :: InitRecorderResponse where
  "InitRecorderResponse_default =
     \<lparr>InitRecorderResponse_ret_code = 0, InitRecorderResponse_ret_msg = '''',
      InitRecorderResponse_session_id = 0\<rparr>"

record PlayerInfoResponse =
  PlayerInfoResponse_ret_code :: i32
  PlayerInfoResponse_ret_msg :: string
  PlayerInfoResponse_state :: AudioPlayerState
  PlayerInfoResponse_played_bytes :: i64
  PlayerInfoResponse_total_bytes :: i64
  PlayerInfoResponse_volume :: real

definition PlayerInfoResponse_default :: PlayerInfoResponse where
  "PlayerInfoResponse_default =
     \<lparr>PlayerInfoResponse_ret_code = 0, PlayerInfoResponse_ret_msg = '''',
      PlayerInfoResponse_state = PLAYER_IDLE, PlayerInfoResponse_played_bytes = 0,
      PlayerInfoResponse_total_bytes = 0, PlayerInfoResponse_volume = 0\<rparr>"

record RecorderInfoResponse =
  RecorderInfoResponse_ret_code :: i32
  RecorderInfoResponse_ret_msg :: string
  RecorderInfoResponse_state :: AudioRecorderState
  RecorderInfoResponse_captured_bytes :: i64

definition RecorderInfoResponse_default :: RecorderInfoResponse where
  "RecorderInfoResponse_default =
     \<lparr>RecorderInfoResponse_ret_code = 0, RecorderInfoResponse_ret_msg = '''',
      RecorderInfoResponse_state = RECORDER_IDLE, RecorderInfoResponse_captured_bytes = 0\<rparr>"

record RegisterClientRequest =
  RegisterClientRequest_request_id :: string

definition RegisterClientRequest_default :: RegisterClientRequest where
  "RegisterClientRequest_default =
     \<lparr>RegisterClientRequest_request_id = ''''\<rparr>"

record RegisterClientResponse =
  RegisterClientResponse_ret_code :: i32
  RegisterClientResponse_ret_msg :: string
  RegisterClientResponse_client_id :: string

definition RegisterClientResponse_default :: RegisterClientResponse where
  "RegisterClientResponse_default =
     \<lparr>RegisterClientResponse_ret_code = 0, RegisterClientResponse_ret_msg = '''',
      RegisterClientResponse_client_id = ''''\<rparr>"

record SendPcmDataRequest =
  SendPcmDataRequest_client_id :: string
  SendPcmDataRequest_request_id :: string
  SendPcmDataRequest_session_id :: i64
  SendPcmDataRequest_pcm_bytes :: "u8 list"

definition SendPcmDataRequest_default :: SendPcmDataRequest where
  "SendPcmDataRequest_default =
     \<lparr>SendPcmDataRequest_client_id = '''', SendPcmDataRequest_request_id = '''',
      SendPcmDataRequest_session_id = 0, SendPcmDataRequest_pcm_bytes = []\<rparr>"

record ServiceResult =
  ServiceResult_ret_code :: i32
  ServiceResult_ret_msg :: string

definition ServiceResult_default :: ServiceResult where
  "ServiceResult_default =
     \<lparr>ServiceResult_ret_code = 0, ServiceResult_ret_msg = ''''\<rparr>"

record SessionMeta =
  SessionMeta_client_id :: string
  SessionMeta_request_id :: string
  SessionMeta_session_id :: i64

definition SessionMeta_default :: SessionMeta where
  "SessionMeta_default =
     \<lparr>SessionMeta_client_id = '''', SessionMeta_request_id = '''', SessionMeta_session_id = 0\<rparr>"

record SessionRequest =
  SessionRequest_client_id :: string
  SessionRequest_request_id :: string
  SessionRequest_session_id :: i64

definition SessionRequest_default :: SessionRequest where
  "SessionRequest_default =
     \<lparr>SessionRequest_client_id = '''', SessionRequest_request_id = '''',
      SessionRequest_session_id = 0\<rparr>"

record SetPlayerVolumeRequest =
  SetPlayerVolumeRequest_client_id :: string
  SetPlayerVolumeRequest_request_id :: string
  SetPlayerVolumeRequest_session_id :: i64
  SetPlayerVolumeRequest_volume :: real

definition SetPlayerVolumeRequest_default :: SetPlayerVolumeRequest where
  "SetPlayerVolumeRequest_default =
     \<lparr>SetPlayerVolumeRequest_client_id = '''', SetPlayerVolumeRequest_request_id = '''',
      SetPlayerVolumeRequest_session_id = 0, SetPlayerVolumeRequest_volume = 0\<rparr>"

record SetSystemMuteRequest =
  SetSystemMuteRequest_client_id :: string
  SetSystemMuteRequest_request_id :: string
  SetSystemMuteRequest_mute :: bool

definition SetSystemMuteRequest_default :: SetSystemMuteRequest where
  "SetSystemMuteRequest_default =
     \<lparr>SetSystemMuteRequest_client_id = '''', SetSystemMuteRequest_request_id = '''',
      SetSystemMuteRequest_mute = False\<rparr>"

record SetSystemVolumeRequest =
  SetSystemVolumeRequest_client_id :: string
  SetSystemVolumeRequest_request_id :: string
  SetSystemVolumeRequest_volume :: real

definition SetSystemVolumeRequest_default :: SetSystemVolumeRequest where
  "SetSystemVolumeRequest_default =
     \<lparr>SetSystemVolumeRequest_client_id = '''', SetSystemVolumeRequest_request_id = '''',
      SetSystemVolumeRequest_volume = 0\<rparr>"

subsection \<open>\<open>camera\<close>\<close>

datatype CameraModel =
    CAMERA_Model_UNKNOWN | CAMERA_Model_REALSENSE_D455 | CAMERA_Model_ZED_2I
  | CAMERA_Model_ORBBEC_GEMINI_335L | CAMERA_Model_BOOSTER_MIPI

fun CameraModel_val :: "CameraModel \<Rightarrow> u32" where
  "CameraModel_val CAMERA_Model_UNKNOWN = 0"
| "CameraModel_val CAMERA_Model_REALSENSE_D455 = 1"
| "CameraModel_val CAMERA_Model_ZED_2I = 2"
| "CameraModel_val CAMERA_Model_ORBBEC_GEMINI_335L = 3"
| "CameraModel_val CAMERA_Model_BOOSTER_MIPI = 4"

datatype CameraConnectionState =
    CAMERA_CONNECTION_UNKNOWN | CAMERA_CONNECTED | CAMERA_CONNECTION_LOST

fun CameraConnectionState_val :: "CameraConnectionState \<Rightarrow> u32" where
  "CameraConnectionState_val CAMERA_CONNECTION_UNKNOWN = 0"
| "CameraConnectionState_val CAMERA_CONNECTED = 1"
| "CameraConnectionState_val CAMERA_CONNECTION_LOST = 2"

datatype CameraPos =
    CAMERA_POS_UNKNOWN | CAMERA_POS_HEAD | CAMERA_POS_LEFT_HAND | CAMERA_POS_RIGHT_HAND
  | CAMERA_POS_WAIST

fun CameraPos_val :: "CameraPos \<Rightarrow> u32" where
  "CameraPos_val CAMERA_POS_UNKNOWN = 0"
| "CameraPos_val CAMERA_POS_HEAD = 1"
| "CameraPos_val CAMERA_POS_LEFT_HAND = 2"
| "CameraPos_val CAMERA_POS_RIGHT_HAND = 3"
| "CameraPos_val CAMERA_POS_WAIST = 4"

datatype CameraPixelFormat =
    CAMERA_PIXEL_FORMAT_UNKNOWN | CAMERA_PIXEL_FORMAT_RGB8 | CAMERA_PIXEL_FORMAT_BGR8
  | CAMERA_PIXEL_FORMAT_YUV422 | CAMERA_PIXEL_FORMAT_JPEG | CAMERA_PIXEL_FORMAT_NV12

fun CameraPixelFormat_val :: "CameraPixelFormat \<Rightarrow> u32" where
  "CameraPixelFormat_val CAMERA_PIXEL_FORMAT_UNKNOWN = 0"
| "CameraPixelFormat_val CAMERA_PIXEL_FORMAT_RGB8 = 1"
| "CameraPixelFormat_val CAMERA_PIXEL_FORMAT_BGR8 = 2"
| "CameraPixelFormat_val CAMERA_PIXEL_FORMAT_YUV422 = 3"
| "CameraPixelFormat_val CAMERA_PIXEL_FORMAT_JPEG = 4"
| "CameraPixelFormat_val CAMERA_PIXEL_FORMAT_NV12 = 5"

datatype DepthPixelFormat =
    DEPTH_PIXEL_FORMAT_UNKNOWN | DEPTH_PIXEL_FORMAT_UINT16 | DEPTH_PIXEL_FORMAT_FLOAT32

fun DepthPixelFormat_val :: "DepthPixelFormat \<Rightarrow> u32" where
  "DepthPixelFormat_val DEPTH_PIXEL_FORMAT_UNKNOWN = 0"
| "DepthPixelFormat_val DEPTH_PIXEL_FORMAT_UINT16 = 1"
| "DepthPixelFormat_val DEPTH_PIXEL_FORMAT_FLOAT32 = 2"

record CameraTopic =
  CameraTopic_topics :: "string list"

definition CameraTopic_default :: CameraTopic where
  "CameraTopic_default =
     \<lparr>CameraTopic_topics = []\<rparr>"

record CameraExtrinsics =
  CameraExtrinsics_parent_frame :: string
  CameraExtrinsics_xyz :: Point
  CameraExtrinsics_rpy :: Vector3

definition CameraExtrinsics_default :: CameraExtrinsics where
  "CameraExtrinsics_default =
     \<lparr>CameraExtrinsics_parent_frame = '''', CameraExtrinsics_xyz = Point_default,
      CameraExtrinsics_rpy = Vector3_default\<rparr>"

record CameraIntrinsics =
  CameraIntrinsics_fx :: real
  CameraIntrinsics_fy :: real
  CameraIntrinsics_cx :: real
  CameraIntrinsics_cy :: real

definition CameraIntrinsics_default :: CameraIntrinsics where
  "CameraIntrinsics_default =
     \<lparr>CameraIntrinsics_fx = 0, CameraIntrinsics_fy = 0, CameraIntrinsics_cx = 0,
      CameraIntrinsics_cy = 0\<rparr>"

record VideoStreamEncoding =
  VideoStreamEncoding_width :: u32
  VideoStreamEncoding_height :: u32
  VideoStreamEncoding_format :: CameraPixelFormat
  VideoStreamEncoding_bitrate_bps :: u32

definition VideoStreamEncoding_default :: VideoStreamEncoding where
  "VideoStreamEncoding_default =
     \<lparr>VideoStreamEncoding_width = 0, VideoStreamEncoding_height = 0,
      VideoStreamEncoding_format = CAMERA_PIXEL_FORMAT_UNKNOWN,
      VideoStreamEncoding_bitrate_bps = 0\<rparr>"

record DepthStreamEncoding =
  DepthStreamEncoding_width :: u32
  DepthStreamEncoding_height :: u32
  DepthStreamEncoding_format :: DepthPixelFormat

definition DepthStreamEncoding_default :: DepthStreamEncoding where
  "DepthStreamEncoding_default =
     \<lparr>DepthStreamEncoding_width = 0, DepthStreamEncoding_height = 0,
      DepthStreamEncoding_format = DEPTH_PIXEL_FORMAT_UNKNOWN\<rparr>"

record Camera =
  Camera_name :: string
  Camera_frame_id :: string
  Camera_serial_number :: string
  Camera_pos :: CameraPos
  Camera_model :: CameraModel
  Camera_state :: CameraConnectionState
  Camera_topics :: CameraTopic
  Camera_depth_scale :: real
  Camera_extrinsics :: CameraExtrinsics
  Camera_color_encoding :: VideoStreamEncoding
  Camera_depth_encoding :: DepthStreamEncoding

definition Camera_default :: Camera where
  "Camera_default =
     \<lparr>Camera_name = '''', Camera_frame_id = '''', Camera_serial_number = '''',
      Camera_pos = CAMERA_POS_UNKNOWN, Camera_model = CAMERA_Model_UNKNOWN,
      Camera_state = CAMERA_CONNECTION_UNKNOWN, Camera_topics = CameraTopic_default,
      Camera_depth_scale = 0, Camera_extrinsics = CameraExtrinsics_default,
      Camera_color_encoding = VideoStreamEncoding_default,
      Camera_depth_encoding = DepthStreamEncoding_default\<rparr>"

record CameraList =
  CameraList_cameras :: "Camera list"

definition CameraList_default :: CameraList where
  "CameraList_default =
     \<lparr>CameraList_cameras = []\<rparr>"

end
