(* ===== verification/Audio_Types.thy ===== *)
theory Audio_Types
  imports Idl_Media
begin

text \<open>
  The public types of the audio SDK, \<open>robot/audio/audio_types.h\<close>: its enumerations, option and report
  structures, with \<open>C_default\<close> for the object the member initialisers give.  \<open>AudioSourceType\<close> and
  \<open>AudioCaptureStreamState\<close> are \<open>PlayerSourceType\<close> and \<open>CaptureStreamState\<close> here, since the messages of
  \<open>Idl_Media\<close> have types of the same names.  The classes that use them (\<open>AudioPlayer\<close>, \<open>AudioRecorder\<close>,
  \<open>AudioCaptureStream\<close>, \<open>AudioManager\<close>) are only declared in the headers.
\<close>

definition kAudioErrNotSupported :: i32 where "kAudioErrNotSupported = 7001"

datatype PlayerSourceType =
    PlayerSourceType_kPcmFile | PlayerSourceType_kWavFile | PlayerSourceType_kPcmStream
  | PlayerSourceType_kMp3File

fun PlayerSourceType_val :: "PlayerSourceType \<Rightarrow> i32" where
  "PlayerSourceType_val PlayerSourceType_kPcmFile = 0"
| "PlayerSourceType_val PlayerSourceType_kWavFile = 1"
| "PlayerSourceType_val PlayerSourceType_kPcmStream = 2"
| "PlayerSourceType_val PlayerSourceType_kMp3File = 3"

datatype PlayerState =
    PlayerState_kIdle | PlayerState_kReady | PlayerState_kPlaying | PlayerState_kPaused
  | PlayerState_kStopped | PlayerState_kCompleted | PlayerState_kError

fun PlayerState_val :: "PlayerState \<Rightarrow> i32" where
  "PlayerState_val PlayerState_kIdle = 0"
| "PlayerState_val PlayerState_kReady = 1"
| "PlayerState_val PlayerState_kPlaying = 2"
| "PlayerState_val PlayerState_kPaused = 3"
| "PlayerState_val PlayerState_kStopped = 4"
| "PlayerState_val PlayerState_kCompleted = 5"
| "PlayerState_val PlayerState_kError = 6"

datatype PlayerPriority =
    PlayerPriority_kLow | PlayerPriority_kMedium | PlayerPriority_kHigh

fun PlayerPriority_val :: "PlayerPriority \<Rightarrow> i32" where
  "PlayerPriority_val PlayerPriority_kLow = 0"
| "PlayerPriority_val PlayerPriority_kMedium = 1"
| "PlayerPriority_val PlayerPriority_kHigh = 2"

datatype RecorderState =
    RecorderState_kIdle | RecorderState_kReady | RecorderState_kRecording | RecorderState_kPaused
  | RecorderState_kStopped | RecorderState_kError

fun RecorderState_val :: "RecorderState \<Rightarrow> i32" where
  "RecorderState_val RecorderState_kIdle = 0"
| "RecorderState_val RecorderState_kReady = 1"
| "RecorderState_val RecorderState_kRecording = 2"
| "RecorderState_val RecorderState_kPaused = 3"
| "RecorderState_val RecorderState_kStopped = 4"
| "RecorderState_val RecorderState_kError = 5"

datatype CaptureStreamState =
    CaptureStreamState_kIdle | CaptureStreamState_kReady | CaptureStreamState_kStreaming
  | CaptureStreamState_kPaused | CaptureStreamState_kStopped | CaptureStreamState_kError

fun CaptureStreamState_val :: "CaptureStreamState \<Rightarrow> i32" where
  "CaptureStreamState_val CaptureStreamState_kIdle = 0"
| "CaptureStreamState_val CaptureStreamState_kReady = 1"
| "CaptureStreamState_val CaptureStreamState_kStreaming = 2"
| "CaptureStreamState_val CaptureStreamState_kPaused = 3"
| "CaptureStreamState_val CaptureStreamState_kStopped = 4"
| "CaptureStreamState_val CaptureStreamState_kError = 5"

datatype AudioDeviceQueryType =
    AudioDeviceQueryType_GET_DEVICES_INPUTS | AudioDeviceQueryType_GET_DEVICES_OUTPUTS

fun AudioDeviceQueryType_val :: "AudioDeviceQueryType \<Rightarrow> i32" where
  "AudioDeviceQueryType_val AudioDeviceQueryType_GET_DEVICES_INPUTS = 0"
| "AudioDeviceQueryType_val AudioDeviceQueryType_GET_DEVICES_OUTPUTS = 1"

datatype AudioDeviceDirection =
    AudioDeviceDirection_INPUT | AudioDeviceDirection_OUTPUT

fun AudioDeviceDirection_val :: "AudioDeviceDirection \<Rightarrow> i32" where
  "AudioDeviceDirection_val AudioDeviceDirection_INPUT = 0"
| "AudioDeviceDirection_val AudioDeviceDirection_OUTPUT = 1"

datatype AudioDeviceTransport =
    AudioDeviceTransport_BUILTIN | AudioDeviceTransport_USB | AudioDeviceTransport_BLUETOOTH
  | AudioDeviceTransport_VIRTUAL | AudioDeviceTransport_UNKNOWN

fun AudioDeviceTransport_val :: "AudioDeviceTransport \<Rightarrow> i32" where
  "AudioDeviceTransport_val AudioDeviceTransport_BUILTIN = 0"
| "AudioDeviceTransport_val AudioDeviceTransport_USB = 1"
| "AudioDeviceTransport_val AudioDeviceTransport_BLUETOOTH = 2"
| "AudioDeviceTransport_val AudioDeviceTransport_VIRTUAL = 3"
| "AudioDeviceTransport_val AudioDeviceTransport_UNKNOWN = 4"

datatype AudioDeviceBackendAffinity =
    AudioDeviceBackendAffinity_PULSE | AudioDeviceBackendAffinity_BOOSTERAEC_ARRAY
  | AudioDeviceBackendAffinity_ALSA_DIAGNOSTIC

fun AudioDeviceBackendAffinity_val :: "AudioDeviceBackendAffinity \<Rightarrow> i32" where
  "AudioDeviceBackendAffinity_val AudioDeviceBackendAffinity_PULSE = 0"
| "AudioDeviceBackendAffinity_val AudioDeviceBackendAffinity_BOOSTERAEC_ARRAY = 1"
| "AudioDeviceBackendAffinity_val AudioDeviceBackendAffinity_ALSA_DIAGNOSTIC = 2"

record PcmFormat =
  PcmFormat_sample_rate_hz :: i32
  PcmFormat_channels :: i32
  PcmFormat_bits_per_sample :: i32

definition PcmFormat_default :: PcmFormat where
  "PcmFormat_default =
     \<lparr>PcmFormat_sample_rate_hz = 16000,
      PcmFormat_channels = 1,
      PcmFormat_bits_per_sample = 16\<rparr>"

record PlayerInitOptions =
  PlayerInitOptions_source_type :: PlayerSourceType
  PlayerInitOptions_source_uri :: string
  PlayerInitOptions_sample_rate_hz :: i32
  PlayerInitOptions_channels :: i32
  PlayerInitOptions_bits_per_sample :: i32
  PlayerInitOptions_priority :: PlayerPriority

definition PlayerInitOptions_default :: PlayerInitOptions where
  "PlayerInitOptions_default =
     \<lparr>PlayerInitOptions_source_type = PlayerSourceType_kPcmFile,
      PlayerInitOptions_source_uri = '''',
      PlayerInitOptions_sample_rate_hz = 16000,
      PlayerInitOptions_channels = 1,
      PlayerInitOptions_bits_per_sample = 16,
      PlayerInitOptions_priority = PlayerPriority_kMedium\<rparr>"

record RecorderInitOptions =
  RecorderInitOptions_output_path :: string
  RecorderInitOptions_sample_rate_hz :: i32
  RecorderInitOptions_channels :: i32
  RecorderInitOptions_bits_per_sample :: i32

definition RecorderInitOptions_default :: RecorderInitOptions where
  "RecorderInitOptions_default =
     \<lparr>RecorderInitOptions_output_path = '''',
      RecorderInitOptions_sample_rate_hz = 16000,
      RecorderInitOptions_channels = 1,
      RecorderInitOptions_bits_per_sample = 16\<rparr>"

record AudioCaptureStreamOptions =
  AudioCaptureStreamOptions_enable_raw_pcm :: bool
  AudioCaptureStreamOptions_enable_naec_pcm :: bool
  AudioCaptureStreamOptions_requested_raw_format :: PcmFormat

definition AudioCaptureStreamOptions_default :: AudioCaptureStreamOptions where
  "AudioCaptureStreamOptions_default =
     \<lparr>AudioCaptureStreamOptions_enable_raw_pcm = True,
      AudioCaptureStreamOptions_enable_naec_pcm = False,
      AudioCaptureStreamOptions_requested_raw_format = \<lparr>PcmFormat_sample_rate_hz = 16000, PcmFormat_channels = 3, PcmFormat_bits_per_sample = 16\<rparr>\<rparr>"

record PlayerInfo =
  PlayerInfo_state :: PlayerState
  PlayerInfo_played_bytes :: i64
  PlayerInfo_total_bytes :: i64
  PlayerInfo_volume :: real

definition PlayerInfo_default :: PlayerInfo where
  "PlayerInfo_default =
     \<lparr>PlayerInfo_state = PlayerState_kIdle,
      PlayerInfo_played_bytes = 0,
      PlayerInfo_total_bytes = 0,
      PlayerInfo_volume = 1\<rparr>"

record RecorderInfo =
  RecorderInfo_state :: RecorderState
  RecorderInfo_captured_bytes :: i64

definition RecorderInfo_default :: RecorderInfo where
  "RecorderInfo_default =
     \<lparr>RecorderInfo_state = RecorderState_kIdle,
      RecorderInfo_captured_bytes = 0\<rparr>"

record AudioCaptureFrame =
  AudioCaptureFrame_frame_seq :: i64
  AudioCaptureFrame_timestamp_ms :: i64
  AudioCaptureFrame_raw_valid :: bool
  AudioCaptureFrame_raw_format :: PcmFormat
  AudioCaptureFrame_raw_frame_samples_per_channel :: i32
  AudioCaptureFrame_raw_pcm :: "i16 list"
  AudioCaptureFrame_naec_valid :: bool
  AudioCaptureFrame_naec_format :: PcmFormat
  AudioCaptureFrame_naec_frame_samples_per_channel :: i32
  AudioCaptureFrame_naec_pcm :: "i16 list"

definition AudioCaptureFrame_default :: AudioCaptureFrame where
  "AudioCaptureFrame_default =
     \<lparr>AudioCaptureFrame_frame_seq = 0,
      AudioCaptureFrame_timestamp_ms = 0,
      AudioCaptureFrame_raw_valid = False,
      AudioCaptureFrame_raw_format = PcmFormat_default,
      AudioCaptureFrame_raw_frame_samples_per_channel = 0,
      AudioCaptureFrame_raw_pcm = [],
      AudioCaptureFrame_naec_valid = False,
      AudioCaptureFrame_naec_format = PcmFormat_default,
      AudioCaptureFrame_naec_frame_samples_per_channel = 0,
      AudioCaptureFrame_naec_pcm = []\<rparr>"

record AudioCaptureStreamInfo =
  AudioCaptureStreamInfo_state :: CaptureStreamState
  AudioCaptureStreamInfo_raw_enabled :: bool
  AudioCaptureStreamInfo_naec_enabled :: bool
  AudioCaptureStreamInfo_actual_raw_format :: PcmFormat
  AudioCaptureStreamInfo_actual_naec_format :: PcmFormat
  AudioCaptureStreamInfo_published_frames :: i64
  AudioCaptureStreamInfo_dropped_frames :: i64

definition AudioCaptureStreamInfo_default :: AudioCaptureStreamInfo where
  "AudioCaptureStreamInfo_default =
     \<lparr>AudioCaptureStreamInfo_state = CaptureStreamState_kIdle,
      AudioCaptureStreamInfo_raw_enabled = False,
      AudioCaptureStreamInfo_naec_enabled = False,
      AudioCaptureStreamInfo_actual_raw_format = PcmFormat_default,
      AudioCaptureStreamInfo_actual_naec_format = PcmFormat_default,
      AudioCaptureStreamInfo_published_frames = 0,
      AudioCaptureStreamInfo_dropped_frames = 0\<rparr>"

record AudioDeviceInfo =
  AudioDeviceInfo_device_id :: string
  AudioDeviceInfo_display_name :: string
  AudioDeviceInfo_direction :: AudioDeviceDirection
  AudioDeviceInfo_transport :: AudioDeviceTransport
  AudioDeviceInfo_backend_affinity :: AudioDeviceBackendAffinity
  AudioDeviceInfo_is_available :: bool
  AudioDeviceInfo_is_system_default :: bool
  AudioDeviceInfo_supports_input :: bool
  AudioDeviceInfo_supports_output :: bool
  AudioDeviceInfo_provider_name :: string
  AudioDeviceInfo_native_id :: string
  AudioDeviceInfo_metadata_json :: string

definition AudioDeviceInfo_default :: AudioDeviceInfo where
  "AudioDeviceInfo_default =
     \<lparr>AudioDeviceInfo_device_id = '''',
      AudioDeviceInfo_display_name = '''',
      AudioDeviceInfo_direction = AudioDeviceDirection_INPUT,
      AudioDeviceInfo_transport = AudioDeviceTransport_UNKNOWN,
      AudioDeviceInfo_backend_affinity = AudioDeviceBackendAffinity_PULSE,
      AudioDeviceInfo_is_available = False,
      AudioDeviceInfo_is_system_default = False,
      AudioDeviceInfo_supports_input = False,
      AudioDeviceInfo_supports_output = False,
      AudioDeviceInfo_provider_name = '''',
      AudioDeviceInfo_native_id = '''',
      AudioDeviceInfo_metadata_json = ''''\<rparr>"

record AudioError =
  AudioError_ret_code :: i32
  AudioError_ret_msg :: string
  AudioError_error_category :: i32
  AudioError_error_detail :: i32

definition AudioError_default :: AudioError where
  "AudioError_default =
     \<lparr>AudioError_ret_code = 0,
      AudioError_ret_msg = '''',
      AudioError_error_category = 0,
      AudioError_error_detail = 0\<rparr>"

datatype BluetoothScanState =
    BluetoothScanState_kIdle | BluetoothScanState_kScanning

fun BluetoothScanState_val :: "BluetoothScanState \<Rightarrow> i32" where
  "BluetoothScanState_val BluetoothScanState_kIdle = 0"
| "BluetoothScanState_val BluetoothScanState_kScanning = 1"

datatype BluetoothDeviceState =
    BluetoothDeviceState_kUnknown | BluetoothDeviceState_kPaired | BluetoothDeviceState_kConnecting
  | BluetoothDeviceState_kConnected | BluetoothDeviceState_kDisconnecting
  | BluetoothDeviceState_kFailed

fun BluetoothDeviceState_val :: "BluetoothDeviceState \<Rightarrow> i32" where
  "BluetoothDeviceState_val BluetoothDeviceState_kUnknown = 0"
| "BluetoothDeviceState_val BluetoothDeviceState_kPaired = 1"
| "BluetoothDeviceState_val BluetoothDeviceState_kConnecting = 2"
| "BluetoothDeviceState_val BluetoothDeviceState_kConnected = 3"
| "BluetoothDeviceState_val BluetoothDeviceState_kDisconnecting = 4"
| "BluetoothDeviceState_val BluetoothDeviceState_kFailed = 5"

datatype BluetoothMajorClass =
    BluetoothMajorClass_kAudio | BluetoothMajorClass_kPeripheral | BluetoothMajorClass_kPhone
  | BluetoothMajorClass_kComputer | BluetoothMajorClass_kOther

fun BluetoothMajorClass_val :: "BluetoothMajorClass \<Rightarrow> i32" where
  "BluetoothMajorClass_val BluetoothMajorClass_kAudio = 0"
| "BluetoothMajorClass_val BluetoothMajorClass_kPeripheral = 1"
| "BluetoothMajorClass_val BluetoothMajorClass_kPhone = 2"
| "BluetoothMajorClass_val BluetoothMajorClass_kComputer = 3"
| "BluetoothMajorClass_val BluetoothMajorClass_kOther = 4"

datatype BluetoothAudioProfile =
    BluetoothAudioProfile_kNone | BluetoothAudioProfile_kA2dpSink
  | BluetoothAudioProfile_kA2dpSource | BluetoothAudioProfile_kHfpHeadset
  | BluetoothAudioProfile_kHfpAg

fun BluetoothAudioProfile_val :: "BluetoothAudioProfile \<Rightarrow> i32" where
  "BluetoothAudioProfile_val BluetoothAudioProfile_kNone = 0"
| "BluetoothAudioProfile_val BluetoothAudioProfile_kA2dpSink = 1"
| "BluetoothAudioProfile_val BluetoothAudioProfile_kA2dpSource = 2"
| "BluetoothAudioProfile_val BluetoothAudioProfile_kHfpHeadset = 3"
| "BluetoothAudioProfile_val BluetoothAudioProfile_kHfpAg = 4"

record BluetoothDeviceInfo =
  BluetoothDeviceInfo_address :: string
  BluetoothDeviceInfo_name :: string
  BluetoothDeviceInfo_rssi :: i16
  BluetoothDeviceInfo_state :: BluetoothDeviceState
  BluetoothDeviceInfo_major_class :: BluetoothMajorClass
  BluetoothDeviceInfo_paired :: bool
  BluetoothDeviceInfo_trusted :: bool
  BluetoothDeviceInfo_connected :: bool
  BluetoothDeviceInfo_is_audio_sink :: bool
  BluetoothDeviceInfo_is_audio_source :: bool
  BluetoothDeviceInfo_is_hfp_capable :: bool
  BluetoothDeviceInfo_connected_profiles :: "BluetoothAudioProfile list"
  BluetoothDeviceInfo_linked_pulse_sink_id :: string
  BluetoothDeviceInfo_linked_pulse_source_id :: string
  BluetoothDeviceInfo_last_seen_ms :: i64

definition BluetoothDeviceInfo_default :: BluetoothDeviceInfo where
  "BluetoothDeviceInfo_default =
     \<lparr>BluetoothDeviceInfo_address = '''',
      BluetoothDeviceInfo_name = '''',
      BluetoothDeviceInfo_rssi = 0,
      BluetoothDeviceInfo_state = BluetoothDeviceState_kUnknown,
      BluetoothDeviceInfo_major_class = BluetoothMajorClass_kOther,
      BluetoothDeviceInfo_paired = False,
      BluetoothDeviceInfo_trusted = False,
      BluetoothDeviceInfo_connected = False,
      BluetoothDeviceInfo_is_audio_sink = False,
      BluetoothDeviceInfo_is_audio_source = False,
      BluetoothDeviceInfo_is_hfp_capable = False,
      BluetoothDeviceInfo_connected_profiles = [],
      BluetoothDeviceInfo_linked_pulse_sink_id = '''',
      BluetoothDeviceInfo_linked_pulse_source_id = '''',
      BluetoothDeviceInfo_last_seen_ms = 0\<rparr>"

record BluetoothScanOptions =
  BluetoothScanOptions_timeout_ms :: i32
  BluetoothScanOptions_audio_only :: bool

definition BluetoothScanOptions_default :: BluetoothScanOptions where
  "BluetoothScanOptions_default =
     \<lparr>BluetoothScanOptions_timeout_ms = 30000,
      BluetoothScanOptions_audio_only = True\<rparr>"

record BluetoothConnectOptions =
  BluetoothConnectOptions_address :: string
  BluetoothConnectOptions_auto_pair :: bool
  BluetoothConnectOptions_make_default :: bool
  BluetoothConnectOptions_preferred_profile :: BluetoothAudioProfile
  BluetoothConnectOptions_timeout_ms :: i32

definition BluetoothConnectOptions_default :: BluetoothConnectOptions where
  "BluetoothConnectOptions_default =
     \<lparr>BluetoothConnectOptions_address = '''',
      BluetoothConnectOptions_auto_pair = True,
      BluetoothConnectOptions_make_default = True,
      BluetoothConnectOptions_preferred_profile = BluetoothAudioProfile_kNone,
      BluetoothConnectOptions_timeout_ms = 15000\<rparr>"

record BluetoothConnectResult =
  BluetoothConnectResult_device :: BluetoothDeviceInfo
  BluetoothConnectResult_pulse_sink_id :: string
  BluetoothConnectResult_pulse_source_id :: string
  BluetoothConnectResult_active_profile :: BluetoothAudioProfile
  BluetoothConnectResult_pulse_endpoint_ready :: bool
  BluetoothConnectResult_default_sink_applied :: bool
  BluetoothConnectResult_default_source_applied :: bool
  BluetoothConnectResult_default_route_error_code :: i32
  BluetoothConnectResult_default_route_error_msg :: string

definition BluetoothConnectResult_default :: BluetoothConnectResult where
  "BluetoothConnectResult_default =
     \<lparr>BluetoothConnectResult_device = BluetoothDeviceInfo_default,
      BluetoothConnectResult_pulse_sink_id = '''',
      BluetoothConnectResult_pulse_source_id = '''',
      BluetoothConnectResult_active_profile = BluetoothAudioProfile_kNone,
      BluetoothConnectResult_pulse_endpoint_ready = False,
      BluetoothConnectResult_default_sink_applied = False,
      BluetoothConnectResult_default_source_applied = False,
      BluetoothConnectResult_default_route_error_code = 0,
      BluetoothConnectResult_default_route_error_msg = ''''\<rparr>"

subsection \<open>Agreement with the messages\<close>

text \<open>
  The states and options travel as numbers in the messages of \<open>Idl_Media\<close>; \<open>same_numbers f g\<close> says that two enumerations
  have the same numbers.
\<close>

definition same_numbers :: "('a \<Rightarrow> i32) \<Rightarrow> ('b \<Rightarrow> u32) \<Rightarrow> bool" where
  "same_numbers f g \<longleftrightarrow> inj f \<and> inj g \<and> range f = range g"

lemma UNIV_PlayerSourceType: "UNIV = {PlayerSourceType_kPcmFile, PlayerSourceType_kWavFile, PlayerSourceType_kPcmStream, PlayerSourceType_kMp3File}"
  using PlayerSourceType.exhaust by auto

lemma UNIV_AudioSourceType: "UNIV = {PCM_FILE, WAV_FILE, PCM_STREAM, MP3_FILE}"
  using AudioSourceType.exhaust by auto

lemma UNIV_PlayerState: "UNIV = {PlayerState_kIdle, PlayerState_kReady, PlayerState_kPlaying, PlayerState_kPaused, PlayerState_kStopped, PlayerState_kCompleted, PlayerState_kError}"
  using PlayerState.exhaust by auto

lemma UNIV_AudioPlayerState: "UNIV = {PLAYER_IDLE, PLAYER_READY, PLAYER_PLAYING, PLAYER_PAUSED, PLAYER_STOPPED, PLAYER_COMPLETED, PLAYER_ERROR}"
  using AudioPlayerState.exhaust by auto

lemma UNIV_PlayerPriority: "UNIV = {PlayerPriority_kLow, PlayerPriority_kMedium, PlayerPriority_kHigh}"
  using PlayerPriority.exhaust by auto

lemma UNIV_AudioPlayerPriority: "UNIV = {PLAYER_PRIORITY_LOW, PLAYER_PRIORITY_MEDIUM, PLAYER_PRIORITY_HIGH}"
  using AudioPlayerPriority.exhaust by auto

lemma UNIV_RecorderState: "UNIV = {RecorderState_kIdle, RecorderState_kReady, RecorderState_kRecording, RecorderState_kPaused, RecorderState_kStopped, RecorderState_kError}"
  using RecorderState.exhaust by auto

lemma UNIV_AudioRecorderState: "UNIV = {RECORDER_IDLE, RECORDER_READY, RECORDER_RECORDING, RECORDER_PAUSED, RECORDER_STOPPED, RECORDER_ERROR}"
  using AudioRecorderState.exhaust by auto

lemma UNIV_CaptureStreamState: "UNIV = {CaptureStreamState_kIdle, CaptureStreamState_kReady, CaptureStreamState_kStreaming, CaptureStreamState_kPaused, CaptureStreamState_kStopped, CaptureStreamState_kError}"
  using CaptureStreamState.exhaust by auto

lemma UNIV_AudioCaptureStreamState: "UNIV = {CAPTURE_STREAM_IDLE, CAPTURE_STREAM_READY, CAPTURE_STREAM_STREAMING, CAPTURE_STREAM_PAUSED, CAPTURE_STREAM_STOPPED, CAPTURE_STREAM_ERROR}"
  using AudioCaptureStreamState.exhaust by auto

text \<open>The public enumerations and those of the messages have the same numbers.\<close>

lemma audio_enumerations_agree:
  "same_numbers PlayerSourceType_val AudioSourceType_val"
  "same_numbers PlayerState_val AudioPlayerState_val"
  "same_numbers PlayerPriority_val AudioPlayerPriority_val"
  "same_numbers RecorderState_val AudioRecorderState_val"
  "same_numbers CaptureStreamState_val AudioCaptureStreamState_val"
  unfolding same_numbers_def inj_on_def UNIV_PlayerSourceType UNIV_AudioSourceType UNIV_PlayerState UNIV_AudioPlayerState UNIV_PlayerPriority UNIV_AudioPlayerPriority UNIV_RecorderState UNIV_AudioRecorderState UNIV_CaptureStreamState UNIV_AudioCaptureStreamState
  by simp_all

end
