(* ===== verification/Controller_Common.thy ===== *)
theory Controller_Common
  imports Rpc_Client
begin

text \<open>
  What the two blocking controllers of \<open>robot/b1\<close> share: \<open>RetryApiCall\<close> (the same member template in
  \<open>move_controller.hpp\<close> and \<open>arm_controller.hpp\<close>), the waiting loop for the first state message, and
  the outcome of a call that may throw.
\<close>

subsection \<open>\<open>RetryApiCall\<close>\<close>

text \<open>
  \<open>func k\<close> is what the \<open>k\<close>-th attempt returns.  The loop runs \<open>n\<close> more attempts from \<open>attempt\<close> on and
  answers whether it succeeded and how many attempts it has made altogether.
\<close>

fun RetryFrom :: "(nat \<Rightarrow> i32) \<Rightarrow> nat \<Rightarrow> nat \<Rightarrow> bool \<times> nat" where
  "RetryFrom func attempt 0 = (False, attempt)"
| "RetryFrom func attempt (Suc n) =
     (if (scast (func attempt) :: i64) = kRpcStatusCodeSuccess then (True, Suc attempt)
      else if (scast (func attempt) :: i64) = kRpcStatusCodeTimeout then RetryFrom func (Suc attempt) n
      else (False, Suc attempt))"

definition RetryApiCall :: "(nat \<Rightarrow> i32) \<Rightarrow> int \<Rightarrow> bool \<times> nat" where
  "RetryApiCall func max_retries = RetryFrom func 0 (nat max_retries)"

text \<open>
  The loop of \<open>WaitForTrackerReady\<close> over what its rounds observe: the flag, and the time since the
  start.  \<open>None\<close> means that it still waits.
\<close>

fun WaitReady :: "int \<Rightarrow> (bool \<times> int) list \<Rightarrow> bool option" where
  "WaitReady timeout_ns [] = None"
| "WaitReady timeout_ns ((ready, elapsed_ns) # rounds) =
     (if ready then Some True
      else if timeout_ns < elapsed_ns then Some False
      else WaitReady timeout_ns rounds)"

lemma WaitReady_ready: "WaitReady timeout rounds = Some True \<Longrightarrow> \<exists>t. (True, t) \<in> set rounds"
  by (induction timeout rounds rule: WaitReady.induct) (auto split: if_splits)

lemma scast_eq_iff: "(scast (a :: i32) :: i64) = scast b \<longleftrightarrow> a = b"
  by (metis ucast_scast_i32)

lemma success_code: "(scast (r :: i32) :: i64) = kRpcStatusCodeSuccess \<longleftrightarrow> r = 0"
  using scast_eq_iff [of r 0] by (simp add: kRpcStatusCodeSuccess_def)

lemma timeout_code: "(scast (r :: i32) :: i64) = kRpcStatusCodeTimeout \<longleftrightarrow> r = 100"
  using scast_eq_iff [of r 100] by (simp add: kRpcStatusCodeTimeout_def)

lemma RetryFrom_Suc:
  "RetryFrom func attempt (Suc n) =
     (if func attempt = 0 then (True, Suc attempt)
      else if func attempt = 100 then RetryFrom func (Suc attempt) n else (False, Suc attempt))"
  by (simp only: RetryFrom.simps success_code timeout_code)

lemma RetryFrom_iff:
  "fst (RetryFrom func attempt n) \<longleftrightarrow>
     (\<exists>k < n. func (attempt + k) = 0 \<and> (\<forall>i < k. func (attempt + i) = 100))"
proof (induction n arbitrary: attempt)
  case (Suc n)
  consider "func attempt = 0" | "func attempt = 100" | "func attempt \<noteq> 0" "func attempt \<noteq> 100" by blast
  then show ?case
  proof cases
    case 1
    then show ?thesis by (auto simp: RetryFrom_Suc simp del: RetryFrom.simps(2) intro!: exI [of _ 0])
  next
    case 2
    have "(\<exists>k < Suc n. func (attempt + k) = 0 \<and> (\<forall>i < k. func (attempt + i) = 100)) \<longleftrightarrow>
      (\<exists>k < n. func (Suc attempt + k) = 0 \<and> (\<forall>i < k. func (Suc attempt + i) = 100))" (is "?L \<longleftrightarrow> ?R")
    proof
      assume ?L
      then obtain k where k: "k < Suc n" "func (attempt + k) = 0" "\<forall>i < k. func (attempt + i) = 100" by blast
      with 2 obtain k' where "k = Suc k'" by (cases k) auto
      with k show ?R by (intro exI [of _ k']) auto
    next
      assume ?R
      then obtain k where k: "k < n" "func (Suc attempt + k) = 0" "\<forall>i < k. func (Suc attempt + i) = 100" by blast
      with 2 show ?L by (intro exI [of _ "Suc k"]) (auto simp: less_Suc_eq_0_disj)
    qed
    with 2 Suc.IH [of "Suc attempt"] show ?thesis by (simp add: RetryFrom_Suc del: RetryFrom.simps(2))
  next
    case 3
    then have "\<not> (\<exists>k < Suc n. func (attempt + k) = 0 \<and> (\<forall>i < k. func (attempt + i) = 100))"
      by (metis add_0_right gr_zeroI)
    with 3 show ?thesis by (simp add: RetryFrom_Suc del: RetryFrom.simps(2))
  qed
qed simp

lemma RetryFrom_count: "snd (RetryFrom func attempt n) \<le> attempt + n"
  by (induction func attempt n rule: RetryFrom.induct) auto

subsection \<open>Properties\<close>

text \<open>
  C14. \<open>RetryApiCall\<close> succeeds exactly when one of the first \<open>max_retries\<close> attempts succeeds and every
  attempt before it timed out; it never makes more than \<open>max_retries\<close> attempts, and any other code ends
  it at once.
\<close>

theorem RetryApiCall_spec:
  "(fst (RetryApiCall func max_retries) \<longleftrightarrow>
      (\<exists>k < nat max_retries. func k = 0 \<and> (\<forall>i < k. func i = 100)))
   \<and> snd (RetryApiCall func max_retries) \<le> nat max_retries"
  using RetryFrom_iff [of func 0 "nat max_retries"] RetryFrom_count [of func 0 "nat max_retries"]
  by (simp add: RetryApiCall_def)

theorem RetryApiCall_spec_witness:
  "fst (RetryApiCall (\<lambda>k. if k < 2 then 100 else 0) 3) \<and> \<not> fst (RetryApiCall (\<lambda>_. 500) 3)"
proof -
  have "\<exists>k < nat 3. (if k < 2 then 100 else 0) = (0 :: i32) \<and> (\<forall>i < k. (if i < 2 then 100 else 0) = (100 :: i32))"
    by (rule exI [of _ 2]) auto
  then have "fst (RetryApiCall (\<lambda>k. if k < 2 then 100 else 0) 3)"
    using RetryApiCall_spec [of "\<lambda>k. if k < 2 then 100 else 0" 3] by blast
  moreover have "\<not> fst (RetryApiCall (\<lambda>_. 500) 3)"
    using RetryApiCall_spec [of "\<lambda>_. 500" 3] by simp
  ultimately show ?thesis by simp
qed

end
