(* ===== verification/Idl_Robot.thy ===== *)
theory Idl_Robot
  imports Idl_Common
begin

text \<open>
  The messages of the robot itself (\<open>booster/idl/b1\<close>): motor commands and states, inertial
  unit, battery, hands, remote controller, status reports and the robot description.  The reading
  is that of \<open>Idl_Common\<close>; an enumeration of the interface becomes a datatype with its values.
\<close>

subsection \<open>\<open>b1\<close>\<close>

record BatteryState =
  BatteryState_voltage :: real
  BatteryState_current :: real
  BatteryState_soc :: real
  BatteryState_average_voltage :: real

definition BatteryState_default :: BatteryState where
  "BatteryState_default =
     \<lparr>BatteryState_voltage = 0, BatteryState_current = 0, BatteryState_soc = 0,
      BatteryState_average_voltage = 0\<rparr>"

datatype ButtonEventType =
    PRESS_DOWN | PRESS_UP | SINGLE_CLICK | DOUBLE_CLICK | TRIPLE_CLICK | LONG_PRESS_START
  | LONG_PRESS_HOLD | LONG_PRESS_END

fun ButtonEventType_val :: "ButtonEventType \<Rightarrow> u32" where
  "ButtonEventType_val PRESS_DOWN = 0"
| "ButtonEventType_val PRESS_UP = 1"
| "ButtonEventType_val SINGLE_CLICK = 2"
| "ButtonEventType_val DOUBLE_CLICK = 3"
| "ButtonEventType_val TRIPLE_CLICK = 4"
| "ButtonEventType_val LONG_PRESS_START = 5"
| "ButtonEventType_val LONG_PRESS_HOLD = 6"
| "ButtonEventType_val LONG_PRESS_END = 7"

record ButtonEventMsg =
  ButtonEventMsg_button :: i32
  ButtonEventMsg_event :: ButtonEventType

definition ButtonEventMsg_default :: ButtonEventMsg where
  "ButtonEventMsg_default =
     \<lparr>ButtonEventMsg_button = 0, ButtonEventMsg_event = PRESS_DOWN\<rparr>"

datatype FallDownStateType =
    IS_READY | IS_FALLING | HAS_FALLEN | IS_GETTING_UP

fun FallDownStateType_val :: "FallDownStateType \<Rightarrow> u32" where
  "FallDownStateType_val IS_READY = 0"
| "FallDownStateType_val IS_FALLING = 1"
| "FallDownStateType_val HAS_FALLEN = 2"
| "FallDownStateType_val IS_GETTING_UP = 3"

record FallDownState =
  FallDownState_fall_down_state :: FallDownStateType
  FallDownState_is_recovery_available :: bool

definition FallDownState_default :: FallDownState where
  "FallDownState_default =
     \<lparr>FallDownState_fall_down_state = IS_READY, FallDownState_is_recovery_available = False\<rparr>"

datatype HandModel =
    HAND_MODEL_UNKNOWN | HAND_MODEL_INSPIRE_HAND_RH56DFX | HAND_MODEL_INSPIRE_GRIPPER_EG2_4X2
  | HAND_MODEL_INSPIRE_TOUCH_HAND_RH56DFTP

fun HandModel_val :: "HandModel \<Rightarrow> u32" where
  "HandModel_val HAND_MODEL_UNKNOWN = 0"
| "HandModel_val HAND_MODEL_INSPIRE_HAND_RH56DFX = 1"
| "HandModel_val HAND_MODEL_INSPIRE_GRIPPER_EG2_4X2 = 2"
| "HandModel_val HAND_MODEL_INSPIRE_TOUCH_HAND_RH56DFTP = 3"

datatype HandPos =
    HAND_POS_UNKNOWN | HAND_POS_LEFT | HAND_POS_RIGHT

fun HandPos_val :: "HandPos \<Rightarrow> u32" where
  "HandPos_val HAND_POS_UNKNOWN = 0"
| "HandPos_val HAND_POS_LEFT = 1"
| "HandPos_val HAND_POS_RIGHT = 2"

record Hand =
  Hand_model :: HandModel
  Hand_pos :: HandPos

definition Hand_default :: Hand where
  "Hand_default =
     \<lparr>Hand_model = HAND_MODEL_UNKNOWN, Hand_pos = HAND_POS_UNKNOWN\<rparr>"

record HandList =
  HandList_hands :: "Hand list"

definition HandList_default :: HandList where
  "HandList_default =
     \<lparr>HandList_hands = []\<rparr>"

record HandReplyParam =
  HandReplyParam_angle :: i32
  HandReplyParam_force :: i32
  HandReplyParam_current :: i32
  HandReplyParam_error :: i32
  HandReplyParam_status :: i32
  HandReplyParam_temp :: i32
  HandReplyParam_seq :: i32

definition HandReplyParam_default :: HandReplyParam where
  "HandReplyParam_default =
     \<lparr>HandReplyParam_angle = 0, HandReplyParam_force = 0, HandReplyParam_current = 0,
      HandReplyParam_error = 0, HandReplyParam_status = 0, HandReplyParam_temp = 0,
      HandReplyParam_seq = 0\<rparr>"

record HandReplyData =
  HandReplyData_hand_data :: "HandReplyParam list"
  HandReplyData_hand_index :: i32
  HandReplyData_hand_type :: i32

definition HandReplyData_default :: HandReplyData where
  "HandReplyData_default =
     \<lparr>HandReplyData_hand_data = [], HandReplyData_hand_index = 0, HandReplyData_hand_type = 0\<rparr>"

record HandTouchParam =
  HandTouchParam_finger_one :: "u8 list"
  HandTouchParam_finger_two :: "u8 list"
  HandTouchParam_finger_three :: "u8 list"
  HandTouchParam_finger_four :: "u8 list"
  HandTouchParam_finger_five :: "u8 list"
  HandTouchParam_finger_palm :: "u8 list"

definition HandTouchParam_default :: HandTouchParam where
  "HandTouchParam_default =
     \<lparr>HandTouchParam_finger_one = [], HandTouchParam_finger_two = [],
      HandTouchParam_finger_three = [], HandTouchParam_finger_four = [],
      HandTouchParam_finger_five = [], HandTouchParam_finger_palm = []\<rparr>"

record HandTouchData =
  HandTouchData_touch_data :: HandTouchParam
  HandTouchData_hand_index :: i32
  HandTouchData_hand_type :: i32

definition HandTouchData_default :: HandTouchData where
  "HandTouchData_default =
     \<lparr>HandTouchData_touch_data = HandTouchParam_default, HandTouchData_hand_index = 0,
      HandTouchData_hand_type = 0\<rparr>"

datatype ImuModel =
    IMU_MODEL_UNKNOWN | IMU_MODEL_HI13R4N

fun ImuModel_val :: "ImuModel \<Rightarrow> u32" where
  "ImuModel_val IMU_MODEL_UNKNOWN = 0"
| "ImuModel_val IMU_MODEL_HI13R4N = 1"

record ImuInfo =
  ImuInfo_index :: i32
  ImuInfo_name :: string
  ImuInfo_mount_position :: string
  ImuInfo_model :: ImuModel

definition ImuInfo_default :: ImuInfo where
  "ImuInfo_default =
     \<lparr>ImuInfo_index = 0, ImuInfo_name = '''', ImuInfo_mount_position = '''',
      ImuInfo_model = IMU_MODEL_UNKNOWN\<rparr>"

record ImuInfoList =
  ImuInfoList_imus :: "ImuInfo list"

definition ImuInfoList_default :: ImuInfoList where
  "ImuInfoList_default =
     \<lparr>ImuInfoList_imus = []\<rparr>"

record ImuState =
  ImuState_rpy :: "real list"
  ImuState_gyro :: "real list"
  ImuState_acc :: "real list"

definition ImuState_default :: ImuState where
  "ImuState_default =
     \<lparr>ImuState_rpy = replicate 3 0, ImuState_gyro = replicate 3 0, ImuState_acc = replicate 3 0\<rparr>"

record Kick =
  Kick_header :: Header
  Kick_x :: real
  Kick_y :: real
  Kick_dir :: real
  Kick_goal_x :: real
  Kick_goal_y :: real
  Kick_robot_theta_to_field :: real
  Kick_power :: real

definition Kick_default :: Kick where
  "Kick_default =
     \<lparr>Kick_header = Header_default, Kick_x = 0, Kick_y = 0, Kick_dir = 0, Kick_goal_x = 0,
      Kick_goal_y = 0, Kick_robot_theta_to_field = 0, Kick_power = 0\<rparr>"

record LightPixel =
  LightPixel_r :: u8
  LightPixel_g :: u8
  LightPixel_b :: u8

definition LightPixel_default :: LightPixel where
  "LightPixel_default =
     \<lparr>LightPixel_r = 0, LightPixel_g = 0, LightPixel_b = 0\<rparr>"

record LightControlMsg =
  LightControlMsg_pixels :: "LightPixel list"

definition LightControlMsg_default :: LightControlMsg where
  "LightControlMsg_default =
     \<lparr>LightControlMsg_pixels = []\<rparr>"

datatype CmdType =
    PARALLEL | SERIAL

fun CmdType_val :: "CmdType \<Rightarrow> u32" where
  "CmdType_val PARALLEL = 0"
| "CmdType_val SERIAL = 1"

record MotorCmd =
  MotorCmd_mode :: u8
  MotorCmd_q :: real
  MotorCmd_dq :: real
  MotorCmd_tau :: real
  MotorCmd_kp :: real
  MotorCmd_kd :: real
  MotorCmd_weight :: real

definition MotorCmd_default :: MotorCmd where
  "MotorCmd_default =
     \<lparr>MotorCmd_mode = 0, MotorCmd_q = 0, MotorCmd_dq = 0, MotorCmd_tau = 0, MotorCmd_kp = 0,
      MotorCmd_kd = 0, MotorCmd_weight = 0\<rparr>"

record LowCmd =
  LowCmd_cmd_type :: CmdType
  LowCmd_motor_cmd :: "MotorCmd list"

definition LowCmd_default :: LowCmd where
  "LowCmd_default =
     \<lparr>LowCmd_cmd_type = PARALLEL, LowCmd_motor_cmd = []\<rparr>"

record MotorState =
  MotorState_mode :: u8
  MotorState_q :: real
  MotorState_dq :: real
  MotorState_ddq :: real
  MotorState_tau_est :: real
  MotorState_temperature :: u8
  MotorState_lost :: u32
  MotorState_reserve :: "u32 list"

definition MotorState_default :: MotorState where
  "MotorState_default =
     \<lparr>MotorState_mode = 0, MotorState_q = 0, MotorState_dq = 0, MotorState_ddq = 0,
      MotorState_tau_est = 0, MotorState_temperature = 0, MotorState_lost = 0,
      MotorState_reserve = replicate 2 0\<rparr>"

record LowState =
  LowState_imu_state :: ImuState
  LowState_motor_state_parallel :: "MotorState list"
  LowState_motor_state_serial :: "MotorState list"

definition LowState_default :: LowState where
  "LowState_default =
     \<lparr>LowState_imu_state = ImuState_default, LowState_motor_state_parallel = [],
      LowState_motor_state_serial = []\<rparr>"

record Odometer =
  Odometer_x :: real
  Odometer_y :: real
  Odometer_theta :: real

definition Odometer_default :: Odometer where
  "Odometer_default =
     \<lparr>Odometer_x = 0, Odometer_y = 0, Odometer_theta = 0\<rparr>"

record ProneBodyControlStatus =
  ProneBodyControlStatus_posture :: i32

definition ProneBodyControlStatus_default :: ProneBodyControlStatus where
  "ProneBodyControlStatus_default =
     \<lparr>ProneBodyControlStatus_posture = 0\<rparr>"

record RemoteControllerState =
  RemoteControllerState_event :: u32
  RemoteControllerState_lx :: real
  RemoteControllerState_ly :: real
  RemoteControllerState_rx :: real
  RemoteControllerState_ry :: real
  RemoteControllerState_a :: bool
  RemoteControllerState_b :: bool
  RemoteControllerState_x :: bool
  RemoteControllerState_y :: bool
  RemoteControllerState_lb :: bool
  RemoteControllerState_rb :: bool
  RemoteControllerState_lt :: bool
  RemoteControllerState_rt :: bool
  RemoteControllerState_ls :: bool
  RemoteControllerState_rs :: bool
  RemoteControllerState_back :: bool
  RemoteControllerState_start :: bool
  RemoteControllerState_hat_c :: bool
  RemoteControllerState_hat_u :: bool
  RemoteControllerState_hat_d :: bool
  RemoteControllerState_hat_l :: bool
  RemoteControllerState_hat_r :: bool
  RemoteControllerState_hat_lu :: bool
  RemoteControllerState_hat_ld :: bool
  RemoteControllerState_hat_ru :: bool
  RemoteControllerState_hat_rd :: bool
  RemoteControllerState_reserved :: u8

definition RemoteControllerState_default :: RemoteControllerState where
  "RemoteControllerState_default =
     \<lparr>RemoteControllerState_event = 0, RemoteControllerState_lx = 0,
      RemoteControllerState_ly = 0, RemoteControllerState_rx = 0, RemoteControllerState_ry = 0,
      RemoteControllerState_a = False, RemoteControllerState_b = False,
      RemoteControllerState_x = False, RemoteControllerState_y = False,
      RemoteControllerState_lb = False, RemoteControllerState_rb = False,
      RemoteControllerState_lt = False, RemoteControllerState_rt = False,
      RemoteControllerState_ls = False, RemoteControllerState_rs = False,
      RemoteControllerState_back = False, RemoteControllerState_start = False,
      RemoteControllerState_hat_c = False, RemoteControllerState_hat_u = False,
      RemoteControllerState_hat_d = False, RemoteControllerState_hat_l = False,
      RemoteControllerState_hat_r = False, RemoteControllerState_hat_lu = False,
      RemoteControllerState_hat_ld = False, RemoteControllerState_hat_ru = False,
      RemoteControllerState_hat_rd = False, RemoteControllerState_reserved = 0\<rparr>"

record RobocupBehaviorStatusMsg =
  RobocupBehaviorStatusMsg_status :: i32

definition RobocupBehaviorStatusMsg_default :: RobocupBehaviorStatusMsg where
  "RobocupBehaviorStatusMsg_default =
     \<lparr>RobocupBehaviorStatusMsg_status = 0\<rparr>"

record RobotDdsBatteryStatus =
  RobotDdsBatteryStatus_name :: string
  RobotDdsBatteryStatus_temperature :: real
  RobotDdsBatteryStatus_soc :: real
  RobotDdsBatteryStatus_voltage :: real
  RobotDdsBatteryStatus_status_code :: i32
  RobotDdsBatteryStatus_status_level :: i32

definition RobotDdsBatteryStatus_default :: RobotDdsBatteryStatus where
  "RobotDdsBatteryStatus_default =
     \<lparr>RobotDdsBatteryStatus_name = '''', RobotDdsBatteryStatus_temperature = 0,
      RobotDdsBatteryStatus_soc = 0, RobotDdsBatteryStatus_voltage = 0,
      RobotDdsBatteryStatus_status_code = 0, RobotDdsBatteryStatus_status_level = 0\<rparr>"

record RobotDdsImuStatus =
  RobotDdsImuStatus_name :: string
  RobotDdsImuStatus_index :: i32
  RobotDdsImuStatus_is_connected :: bool
  RobotDdsImuStatus_status_code :: i32

definition RobotDdsImuStatus_default :: RobotDdsImuStatus where
  "RobotDdsImuStatus_default =
     \<lparr>RobotDdsImuStatus_name = '''', RobotDdsImuStatus_index = 0,
      RobotDdsImuStatus_is_connected = False, RobotDdsImuStatus_status_code = 0\<rparr>"

record RobotDdsJointStatus =
  RobotDdsJointStatus_name :: string
  RobotDdsJointStatus_index :: i32
  RobotDdsJointStatus_is_connected :: bool
  RobotDdsJointStatus_temperature :: i32
  RobotDdsJointStatus_is_limited :: i32
  RobotDdsJointStatus_status_code :: i32
  RobotDdsJointStatus_temperature_level :: i32

definition RobotDdsJointStatus_default :: RobotDdsJointStatus where
  "RobotDdsJointStatus_default =
     \<lparr>RobotDdsJointStatus_name = '''', RobotDdsJointStatus_index = 0,
      RobotDdsJointStatus_is_connected = False, RobotDdsJointStatus_temperature = 0,
      RobotDdsJointStatus_is_limited = 0, RobotDdsJointStatus_status_code = 0,
      RobotDdsJointStatus_temperature_level = 0\<rparr>"

record Origin =
  Origin_xyz :: Point
  Origin_rpy :: Vector3

definition Origin_default :: Origin where
  "Origin_default =
     \<lparr>Origin_xyz = Point_default, Origin_rpy = Vector3_default\<rparr>"

record Inertia =
  Inertia_ixx :: real
  Inertia_ixy :: real
  Inertia_ixz :: real
  Inertia_iyy :: real
  Inertia_iyz :: real
  Inertia_izz :: real

definition Inertia_default :: Inertia where
  "Inertia_default =
     \<lparr>Inertia_ixx = 0, Inertia_ixy = 0, Inertia_ixz = 0, Inertia_iyy = 0, Inertia_iyz = 0,
      Inertia_izz = 0\<rparr>"

record Inertial =
  Inertial_origin :: Origin
  Inertial_mass :: real
  Inertial_inertia :: Inertia

definition Inertial_default :: Inertial where
  "Inertial_default =
     \<lparr>Inertial_origin = Origin_default, Inertial_mass = 0, Inertial_inertia = Inertia_default\<rparr>"

record Box =
  Box_size :: Vector3

definition Box_default :: Box where
  "Box_default =
     \<lparr>Box_size = Vector3_default\<rparr>"

record Cylinder =
  Cylinder_radius :: real
  Cylinder_length :: real

definition Cylinder_default :: Cylinder where
  "Cylinder_default =
     \<lparr>Cylinder_radius = 0, Cylinder_length = 0\<rparr>"

record Sphere =
  Sphere_radius :: real

definition Sphere_default :: Sphere where
  "Sphere_default =
     \<lparr>Sphere_radius = 0\<rparr>"

record Mesh =
  Mesh_filename :: string
  Mesh_scale :: Vector3

definition Mesh_default :: Mesh where
  "Mesh_default =
     \<lparr>Mesh_filename = '''', Mesh_scale = Vector3_default\<rparr>"

datatype GeometryType =
    GEOMETRY_TYPE_BOX | GEOMETRY_TYPE_CYLINDER | GEOMETRY_TYPE_SPHERE | GEOMETRY_TYPE_MESH

fun GeometryType_val :: "GeometryType \<Rightarrow> u32" where
  "GeometryType_val GEOMETRY_TYPE_BOX = 0"
| "GeometryType_val GEOMETRY_TYPE_CYLINDER = 1"
| "GeometryType_val GEOMETRY_TYPE_SPHERE = 2"
| "GeometryType_val GEOMETRY_TYPE_MESH = 3"

record Geometry =
  Geometry_type :: GeometryType
  Geometry_box :: Box
  Geometry_cylinder :: Cylinder
  Geometry_sphere :: Sphere
  Geometry_mesh :: Mesh

definition Geometry_default :: Geometry where
  "Geometry_default =
     \<lparr>Geometry_type = GEOMETRY_TYPE_BOX, Geometry_box = Box_default,
      Geometry_cylinder = Cylinder_default, Geometry_sphere = Sphere_default,
      Geometry_mesh = Mesh_default\<rparr>"

record Collision =
  Collision_origin :: Origin
  Collision_geometry :: Geometry

definition Collision_default :: Collision where
  "Collision_default =
     \<lparr>Collision_origin = Origin_default, Collision_geometry = Geometry_default\<rparr>"

record Link =
  Link_name :: string
  Link_inertial :: Inertial
  Link_collisions :: "Collision list"

definition Link_default :: Link where
  "Link_default =
     \<lparr>Link_name = '''', Link_inertial = Inertial_default, Link_collisions = []\<rparr>"

datatype JointType =
    JOINT_TYPE_FIXED | JOINT_TYPE_REVOLUTE | JOINT_TYPE_CONTINUOUS | JOINT_TYPE_PRISMATIC
  | JOINT_TYPE_PLANAR | JOINT_TYPE_FLOATING

fun JointType_val :: "JointType \<Rightarrow> u32" where
  "JointType_val JOINT_TYPE_FIXED = 0"
| "JointType_val JOINT_TYPE_REVOLUTE = 1"
| "JointType_val JOINT_TYPE_CONTINUOUS = 2"
| "JointType_val JOINT_TYPE_PRISMATIC = 3"
| "JointType_val JOINT_TYPE_PLANAR = 4"
| "JointType_val JOINT_TYPE_FLOATING = 5"

record JointLimit =
  JointLimit_lower :: real
  JointLimit_upper :: real
  JointLimit_effort :: real
  JointLimit_velocity :: real

definition JointLimit_default :: JointLimit where
  "JointLimit_default =
     \<lparr>JointLimit_lower = 0, JointLimit_upper = 0, JointLimit_effort = 0, JointLimit_velocity = 0\<rparr>"

record Joint =
  Joint_name :: string
  Joint_type :: JointType
  Joint_parent_link :: string
  Joint_child_link :: string
  Joint_origin :: Origin
  Joint_axis :: Vector3
  Joint_limit :: JointLimit

definition Joint_default :: Joint where
  "Joint_default =
     \<lparr>Joint_name = '''', Joint_type = JOINT_TYPE_FIXED, Joint_parent_link = '''',
      Joint_child_link = '''', Joint_origin = Origin_default, Joint_axis = Vector3_default,
      Joint_limit = JointLimit_default\<rparr>"

record RobotModel =
  RobotModel_root_link :: string
  RobotModel_links :: "Link list"
  RobotModel_joints :: "Joint list"

definition RobotModel_default :: RobotModel where
  "RobotModel_default =
     \<lparr>RobotModel_root_link = '''', RobotModel_links = [], RobotModel_joints = []\<rparr>"

record RobotProcessState =
  RobotProcessState_name :: string
  RobotProcessState_pid :: i32
  RobotProcessState_status :: i32

definition RobotProcessState_default :: RobotProcessState where
  "RobotProcessState_default =
     \<lparr>RobotProcessState_name = '''', RobotProcessState_pid = 0, RobotProcessState_status = 0\<rparr>"

record RobotProcessStateMsg =
  RobotProcessStateMsg_process_vec :: "RobotProcessState list"

definition RobotProcessStateMsg_default :: RobotProcessStateMsg where
  "RobotProcessStateMsg_default =
     \<lparr>RobotProcessStateMsg_process_vec = []\<rparr>"

record RobotReplayTrajID =
  RobotReplayTrajID_id :: string

definition RobotReplayTrajID_default :: RobotReplayTrajID where
  "RobotReplayTrajID_default =
     \<lparr>RobotReplayTrajID_id = ''''\<rparr>"

record RobotStatesMsg =
  RobotStatesMsg_current_mode :: i32
  RobotStatesMsg_current_body_control :: i32
  RobotStatesMsg_current_actions :: "i32 list"

definition RobotStatesMsg_default :: RobotStatesMsg where
  "RobotStatesMsg_default =
     \<lparr>RobotStatesMsg_current_mode = 0, RobotStatesMsg_current_body_control = 0,
      RobotStatesMsg_current_actions = []\<rparr>"

record RobotStatusDdsMsg =
  RobotStatusDdsMsg_joint_vec :: "RobotDdsJointStatus list"
  RobotStatusDdsMsg_imu_vec :: "RobotDdsImuStatus list"
  RobotStatusDdsMsg_battery_vec :: "RobotDdsBatteryStatus list"

definition RobotStatusDdsMsg_default :: RobotStatusDdsMsg where
  "RobotStatusDdsMsg_default =
     \<lparr>RobotStatusDdsMsg_joint_vec = [], RobotStatusDdsMsg_imu_vec = [],
      RobotStatusDdsMsg_battery_vec = []\<rparr>"

record TrainedTrajStatusMsg =
  TrainedTrajStatusMsg_status :: i32
  TrainedTrajStatusMsg_traj_id :: string

definition TrainedTrajStatusMsg_default :: TrainedTrajStatusMsg where
  "TrainedTrajStatusMsg_default =
     \<lparr>TrainedTrajStatusMsg_status = 0, TrainedTrajStatusMsg_traj_id = ''''\<rparr>"

end
