(* ===== verification/Move_Controller.thy ===== *)
theory Move_Controller
  imports Controller_Common Idl_Robot
begin

text \<open>
  \<open>MoveController\<close> (\<open>robot/b1/move_controller.hpp\<close>): the odometry tracker, \<open>NormalizeAngle\<close>, the control
  laws of \<open>MoveToTarget\<close> and \<open>TurnAround\<close> and their loops, and the life cycle.

  A \<open>float\<close> expression is computed with a rounding after every operation (\<open>f32\<close>), without contraction to
  fused operations.  The trigonometric functions and \<open>hypot\<close> of the C library are the record \<open>libm\<close>.
  A loop runs over the list of what its rounds observe: the pose read or the exception of the read
  (\<open>GetPose\<close> locks a mutex), the time passed, and whether the send returned (any code lets \<open>SafeMove\<close>
  go on) or threw.  When the list ends the call is still \<open>Running\<close>; when an inner loop of
  \<open>NormalizeAngle\<close> never ends it is \<open>Hung\<close>; an exception outside the try block, or in its handler,
  leaves the call \<open>Escaped\<close>.
\<close>

subsection \<open>Angles\<close>

definition kPi :: real where
  "kPi = f32 (314159265358979323846 / 10 ^ 20)"

definition kTwoPi :: real where
  "kTwoPi = f32 (2 * kPi)"

partial_function (option) ReduceAbove :: "real \<Rightarrow> real option" where
  "ReduceAbove angle = (if kPi < angle then ReduceAbove (f32 (angle - kTwoPi)) else Some angle)"

partial_function (option) ReduceBelow :: "real \<Rightarrow> real option" where
  "ReduceBelow angle = (if angle < - kPi then ReduceBelow (f32 (angle + kTwoPi)) else Some angle)"

definition NormalizeAngle :: "real \<Rightarrow> real option" where
  "NormalizeAngle angle = Option.bind (ReduceAbove angle) ReduceBelow"

subsection \<open>Odometry\<close>

record OdometryPose =
  ps_x :: real
  ps_y :: real
  ps_theta :: real

record PoseTracker =
  pt_pose :: OdometryPose
  pt_ready :: bool

definition PoseTracker_init :: PoseTracker where
  "PoseTracker_init = \<lparr>pt_pose = \<lparr>ps_x = 0, ps_y = 0, ps_theta = 0\<rparr>, pt_ready = False\<rparr>"

definition GetPose :: "PoseTracker \<Rightarrow> OdometryPose" where
  "GetPose t = pt_pose t"

definition PoseTracker_HandleMessage :: "Odometer \<Rightarrow> PoseTracker \<Rightarrow> PoseTracker" where
  "PoseTracker_HandleMessage odom t =
     t\<lparr>pt_pose := \<lparr>ps_x = Odometer_x odom, ps_y = Odometer_y odom, ps_theta = Odometer_theta odom\<rparr>,
        pt_ready := True\<rparr>"

text \<open>What a call of \<open>tracker_.GetPose\<close> gives: the pose, or \<open>None\<close> when locking the mutex throws.\<close>

type_synonym PoseRead = "OdometryPose option"

subsection \<open>Sending\<close>

text \<open>What \<open>client_.MoveCommand\<close> does: return a code or throw.  \<open>SafeMove\<close> only logs the code.\<close>

datatype Send = Ret i32 | Throws

definition SafeMove :: "Send \<Rightarrow> bool" where
  "SafeMove send = (case send of Ret _ \<Rightarrow> True | Throws \<Rightarrow> False)"

type_synonym velocity = "real \<times> real \<times> real"

definition stop_command :: velocity where
  "stop_command = (0, 0, 0)"

subsection \<open>Control laws\<close>

record Libm =
  lm_hypot :: "real \<Rightarrow> real \<Rightarrow> real"
  lm_atan2 :: "real \<Rightarrow> real \<Rightarrow> real"
  lm_cos :: "real \<Rightarrow> real"
  lm_sin :: "real \<Rightarrow> real"

definition clamp :: "real \<Rightarrow> real \<Rightarrow> real \<Rightarrow> real" where
  "clamp v lo hi = (if v < lo then lo else if hi < v then hi else v)"

text \<open>
  One round of the first loop of \<open>MoveToTarget\<close>: \<open>Some None\<close> leaves the loop, \<open>Some (Some vyaw)\<close> turns,
  \<open>None\<close> hangs.
\<close>

definition HeadingStep :: "Libm \<Rightarrow> real \<Rightarrow> real \<Rightarrow> OdometryPose \<Rightarrow> int \<Rightarrow> real option option" where
  "HeadingStep lm x y pose elapsed_ns =
     (let distance = lm_hypot lm (f32 (x - ps_x pose)) (f32 (y - ps_y pose)) in
      if distance < f32 (6 / 10) \<or> 5 * 10 ^ 9 < elapsed_ns then Some None
      else
        let target_heading = lm_atan2 lm (f32 (y - ps_y pose)) (f32 (x - ps_x pose)) in
        map_option (\<lambda>heading_error.
            if \<bar>heading_error\<bar> < f32 (2 / 10) then None
            else Some (clamp (f32 (f32 (12 / 10) * heading_error)) (- 1) 1))
          (NormalizeAngle (f32 (target_heading - ps_theta pose))))"

definition kDistanceTolerance :: real where
  "kDistanceTolerance = f32 (20 / 100)"

definition LocalLimit :: "real \<Rightarrow> real \<Rightarrow> real" where
  "LocalLimit distance vel =
     (if distance < f32 (2 / 10)
      then let local_limit = max (f32 (1 / 10)) distance
           in if distance < f32 (1 / 10) then max (f32 (5 / 100)) local_limit else local_limit
      else vel)"

text \<open>The scaling of a planar velocity down to the limit.\<close>

definition LimitSpeed :: "Libm \<Rightarrow> real \<Rightarrow> real \<Rightarrow> real \<Rightarrow> real \<times> real" where
  "LimitSpeed lm local_limit vx vy =
     (let current_speed = lm_hypot lm vx vy in
      if local_limit < current_speed \<and> f32 (1 / 10 ^ 6) < current_speed
      then let scale = f32 (local_limit / current_speed) in (f32 (vx * scale), f32 (vy * scale))
      else (vx, vy))"

text \<open>One round of the second loop: \<open>Some None\<close> has arrived.\<close>

definition ApproachStep :: "Libm \<Rightarrow> real \<Rightarrow> real \<Rightarrow> real \<Rightarrow> real \<Rightarrow> OdometryPose \<Rightarrow> velocity option option" where
  "ApproachStep lm x y vel hold_theta pose =
     (let dx = f32 (x - ps_x pose); dy = f32 (y - ps_y pose); distance = lm_hypot lm dx dy in
      if distance < kDistanceTolerance then Some None
      else
        let cos_theta = lm_cos lm (ps_theta pose); sin_theta = lm_sin lm (ps_theta pose);
            vx = f32 (f32 (dx * cos_theta) + f32 (dy * sin_theta));
            vy = f32 (f32 (- dx * sin_theta) + f32 (dy * cos_theta));
            (vx', vy') = LimitSpeed lm (LocalLimit distance vel) vx vy
        in map_option (\<lambda>error. Some (vx', vy', clamp error (- f32 (5 / 10)) (f32 (5 / 10))))
             (NormalizeAngle (f32 (hold_theta - ps_theta pose))))"

subsection \<open>The loops of \<open>MoveToTarget\<close>\<close>

datatype Phase = PhaseDone | PhaseThrew | PhaseWaiting | PhaseHung

fun HeadingLoop :: "Libm \<Rightarrow> real \<Rightarrow> real \<Rightarrow> (PoseRead \<times> int \<times> Send) list \<Rightarrow> velocity list \<times> Phase" where
  "HeadingLoop lm x y [] = ([], PhaseWaiting)"
| "HeadingLoop lm x y ((None, elapsed_ns, send) # rounds) = ([], PhaseThrew)"
| "HeadingLoop lm x y ((Some pose, elapsed_ns, send) # rounds) =
     (case HeadingStep lm x y pose elapsed_ns of
        None \<Rightarrow> ([], PhaseHung)
      | Some None \<Rightarrow> ([], PhaseDone)
      | Some (Some vyaw) \<Rightarrow>
          if SafeMove send
          then (case HeadingLoop lm x y rounds of (cmds, phase) \<Rightarrow> ((0, 0, vyaw) # cmds, phase))
          else ([(0, 0, vyaw)], PhaseThrew))"

fun ApproachLoop ::
    "Libm \<Rightarrow> real \<Rightarrow> real \<Rightarrow> real \<Rightarrow> real \<Rightarrow> (PoseRead \<times> Send) list \<Rightarrow> velocity list \<times> Phase" where
  "ApproachLoop lm x y vel hold_theta [] = ([], PhaseWaiting)"
| "ApproachLoop lm x y vel hold_theta ((None, send) # rounds) = ([], PhaseThrew)"
| "ApproachLoop lm x y vel hold_theta ((Some pose, send) # rounds) =
     (case ApproachStep lm x y vel hold_theta pose of
        None \<Rightarrow> ([], PhaseHung)
      | Some None \<Rightarrow> ([], PhaseDone)
      | Some (Some cmd) \<Rightarrow>
          if SafeMove send
          then (case ApproachLoop lm x y vel hold_theta rounds of (cmds, phase) \<Rightarrow> (cmd # cmds, phase))
          else ([cmd], PhaseThrew))"

datatype MoveResult = Returned bool | Running | Hung | Escaped

text \<open>
  Everything one call of \<open>MoveToTarget\<close> may observe: the rounds of its loops, the pose whose heading it
  holds, and the sends of the stop between the loops, at the target, and in the handler.
\<close>

record MoveInputs =
  mi_heading :: "(PoseRead \<times> int \<times> Send) list"
  mi_stop :: Send
  mi_hold :: PoseRead
  mi_approach :: "(PoseRead \<times> Send) list"
  mi_final :: Send
  mi_handler :: Send

text \<open>\<open>catch (...) { Stop(); return false; }\<close>\<close>

definition CatchAll :: "Send \<Rightarrow> velocity list \<Rightarrow> velocity list \<times> MoveResult" where
  "CatchAll send cmds = (cmds @ [stop_command], if SafeMove send then Returned False else Escaped)"

definition MoveToTarget :: "Libm \<Rightarrow> real \<Rightarrow> real \<Rightarrow> real \<Rightarrow> MoveInputs \<Rightarrow> velocity list \<times> MoveResult" where
  "MoveToTarget lm x y vel inp =
     (case HeadingLoop lm x y (mi_heading inp) of
        (cmds, PhaseWaiting) \<Rightarrow> (cmds, Running)
      | (cmds, PhaseHung) \<Rightarrow> (cmds, Hung)
      | (cmds, PhaseThrew) \<Rightarrow> CatchAll (mi_handler inp) cmds
      | (cmds, PhaseDone) \<Rightarrow>
          if \<not> SafeMove (mi_stop inp) then CatchAll (mi_handler inp) (cmds @ [stop_command])
          else
            (case mi_hold inp of
               None \<Rightarrow> CatchAll (mi_handler inp) (cmds @ [stop_command])
             | Some hold \<Rightarrow>
                 (case ApproachLoop lm x y vel (ps_theta hold) (mi_approach inp) of
                    (cmds', PhaseWaiting) \<Rightarrow> (cmds @ [stop_command] @ cmds', Running)
                  | (cmds', PhaseHung) \<Rightarrow> (cmds @ [stop_command] @ cmds', Hung)
                  | (cmds', PhaseThrew) \<Rightarrow> CatchAll (mi_handler inp) (cmds @ [stop_command] @ cmds')
                  | (cmds', PhaseDone) \<Rightarrow>
                      if SafeMove (mi_final inp)
                      then (cmds @ [stop_command] @ cmds' @ [stop_command], Returned True)
                      else CatchAll (mi_handler inp) (cmds @ [stop_command] @ cmds' @ [stop_command]))))"

text \<open>The read of \<open>MoveToRelative\<close> stands outside any try block.\<close>

definition MoveToRelative ::
    "Libm \<Rightarrow> PoseRead \<Rightarrow> real \<Rightarrow> real \<Rightarrow> real \<Rightarrow> MoveInputs \<Rightarrow> velocity list \<times> MoveResult" where
  "MoveToRelative lm read dx dy vel inp =
     (case read of
        None \<Rightarrow> ([], Escaped)
      | Some pose \<Rightarrow> MoveToTarget lm (f32 (ps_x pose + dx)) (f32 (ps_y pose + dy)) vel inp)"

subsection \<open>\<open>TurnAround\<close>\<close>

definition TurnSpeed :: "real \<Rightarrow> real \<Rightarrow> real" where
  "TurnSpeed vel_mag remaining =
     (if remaining < f32 (2 / 10) then max (f32 (2 / 10)) (f32 (remaining * 2)) else vel_mag)"

fun TurnLoop ::
    "real \<Rightarrow> real \<Rightarrow> real \<Rightarrow> real \<Rightarrow> real \<Rightarrow> (PoseRead \<times> Send) list \<Rightarrow> velocity list \<times> Phase" where
  "TurnLoop direction_sign target vel_mag accumulated last_theta [] = ([], PhaseWaiting)"
| "TurnLoop direction_sign target vel_mag accumulated last_theta ((None, send) # rounds) = ([], PhaseThrew)"
| "TurnLoop direction_sign target vel_mag accumulated last_theta ((Some pose, send) # rounds) =
     (case NormalizeAngle (f32 (ps_theta pose - last_theta)) of
        None \<Rightarrow> ([], PhaseHung)
      | Some delta \<Rightarrow>
          (let accumulated' = f32 (accumulated + \<bar>delta\<bar>);
               remaining = f32 (target - accumulated')
           in if remaining \<le> 0 then ([], PhaseDone)
              else
                let cmd = (0, 0, direction_sign * TurnSpeed vel_mag remaining) in
                if SafeMove send
                then (case TurnLoop direction_sign target vel_mag accumulated' (ps_theta pose) rounds of
                        (cmds, phase) \<Rightarrow> (cmd # cmds, phase))
                else ([cmd], PhaseThrew)))"

text \<open>The first read of \<open>TurnAround\<close> stands before its try block.\<close>

definition TurnAround ::
    "real \<Rightarrow> real \<Rightarrow> PoseRead \<Rightarrow> (PoseRead \<times> Send) list \<Rightarrow> Send \<Rightarrow> Send \<Rightarrow> velocity list \<times> MoveResult" where
  "TurnAround angle vel start rounds final handler =
     (case start of
        None \<Rightarrow> ([], Escaped)
      | Some first \<Rightarrow>
          (case TurnLoop (if 0 < angle then - 1 else 1) \<bar>angle\<bar> \<bar>vel\<bar> 0 (ps_theta first) rounds of
             (cmds, PhaseWaiting) \<Rightarrow> (cmds, Running)
           | (cmds, PhaseHung) \<Rightarrow> (cmds, Hung)
           | (cmds, PhaseThrew) \<Rightarrow> CatchAll handler cmds
           | (cmds, PhaseDone) \<Rightarrow>
               if SafeMove final then (cmds @ [stop_command], Returned True)
               else CatchAll handler (cmds @ [stop_command])))"

subsection \<open>Life cycle\<close>

record MoveController =
  mc_tracker_open :: bool
  mc_is_closed :: bool

text \<open>
  The constructor: \<open>init_ok\<close> is whether the channel and client calls return (rather than throw),
  \<open>rounds\<close> what the wait for odometry observes, \<open>reset\<close> the answers of \<open>ResetOdometry\<close>, whose outcome
  is only logged.  \<open>Inl\<close> is the exception, thrown after the tracker is closed.
\<close>

definition MoveController_new ::
    "bool \<Rightarrow> (bool \<times> int) list \<Rightarrow> (nat \<Rightarrow> i32) \<Rightarrow> (string + MoveController \<times> bool \<times> nat) option" where
  "MoveController_new init_ok rounds reset =
     (if \<not> init_ok then Some (Inl ''init'')
      else case WaitReady (5 * 10 ^ 9) rounds of
          None \<Rightarrow> None
        | Some False \<Rightarrow> Some (Inl ''Odometer not responding.'')
        | Some True \<Rightarrow>
            Some (Inr (\<lparr>mc_tracker_open = True, mc_is_closed = False\<rparr>, RetryApiCall reset 5)))"

text \<open>\<open>Close\<close>: an exception of the stop leaves the controller open (\<open>Inl\<close>).\<close>

definition MoveController_Close ::
    "Send \<Rightarrow> MoveController \<Rightarrow> velocity list \<times> (MoveController + MoveController)" where
  "MoveController_Close send m =
     (if mc_is_closed m then ([], Inr m)
      else if SafeMove send
      then ([stop_command], Inr (m\<lparr>mc_tracker_open := False, mc_is_closed := True\<rparr>))
      else ([stop_command], Inl m))"

subsection \<open>Facts on angles\<close>

lemma rne_up: "of_int n + 1 / 2 < x \<Longrightarrow> x < of_int n + 1 \<Longrightarrow> rne x = n + 1"
proof -
  assume x: "of_int n + 1 / 2 < x" "x < of_int n + 1"
  then have "\<lfloor>x\<rfloor> = n" by (intro floor_unique) linarith+
  with x show ?thesis by (simp add: rne_def)
qed

lemma kPi_eq: "kPi = 13176795 / 4194304"
proof -
  have "f32 (314159265358979323846 / 10 ^ 20) =
      2 powr (of_int 1 - 23) * of_int (rne ((314159265358979323846 / 10 ^ 20) / 2 powr (of_int 1 - 23)))"
    by (rule f32_eval) simp_all
  moreover have "2 powr (of_int 1 - 23) = (1 / 4194304 :: real)" by (simp add: powr_minus powr_numeral)
  moreover have "rne ((314159265358979323846 / 10 ^ 20) / (1 / 4194304)) = 13176794 + 1"
    by (rule rne_up) simp_all
  ultimately have "f32 (314159265358979323846 / 10 ^ 20) = 1 / 4194304 * of_int (13176794 + 1)"
    by (simp only:)
  then show ?thesis by (simp add: kPi_def)
qed

lemma kTwoPi_eq: "kTwoPi = 13176795 / 2097152"
  using f32_dyadic [of 13176795 21] by (simp add: kTwoPi_def kPi_eq)

lemma f32_kPi: "f32 kPi = kPi"
  by (simp add: kPi_def)

lemma reduce_step:
  assumes "kPi < a" and "a \<le> 2 ^ 24"
  shows "f32 (a - kTwoPi) \<le> a - 5 \<and> - kPi \<le> f32 (a - kTwoPi)"
proof
  have "\<bar>a - kTwoPi\<bar> < 2 powr (of_int 24)" using assms by (simp add: kPi_eq kTwoPi_eq powr_numeral abs_if)
  then have "\<bar>f32 (a - kTwoPi) - (a - kTwoPi)\<bar> \<le> 2 powr (of_int 24 - real 24) / 2"
    unfolding f32_def by (rule fl_error) simp
  then show "f32 (a - kTwoPi) \<le> a - 5" by (simp add: kTwoPi_eq abs_if split: if_splits)
  have "f32 (- kPi) \<le> f32 (a - kTwoPi)" using assms(1) by (intro f32_mono) (simp add: kPi_eq kTwoPi_eq)
  then show "- kPi \<le> f32 (a - kTwoPi)" by (simp add: f32_minus f32_kPi)
qed

lemma ReduceAbove_ok:
  "- kPi \<le> a \<Longrightarrow> a \<le> 2 ^ 24 \<Longrightarrow> a \<le> kPi + real n \<Longrightarrow> \<exists>r. ReduceAbove a = Some r \<and> \<bar>r\<bar> \<le> kPi"
proof (induction n arbitrary: a)
  case (Suc n)
  show ?case
  proof (cases "kPi < a")
    case True
    from reduce_step [OF True Suc.prems(2)]
    have "f32 (a - kTwoPi) \<le> kPi + real n" "f32 (a - kTwoPi) \<le> 2 ^ 24" using Suc.prems by linarith+
    then show ?thesis
      using Suc.IH [of "f32 (a - kTwoPi)"] reduce_step [OF True Suc.prems(2)] True
      by (subst ReduceAbove.simps) simp
  qed (use Suc.prems in \<open>subst ReduceAbove.simps, auto simp: abs_le_iff\<close>)
qed (subst ReduceAbove.simps, auto simp: abs_le_iff)

lemma ReduceBelow_ok:
  "a \<le> kPi \<Longrightarrow> - (2 ^ 24) \<le> a \<Longrightarrow> - kPi - real n \<le> a \<Longrightarrow> \<exists>r. ReduceBelow a = Some r \<and> \<bar>r\<bar> \<le> kPi"
proof (induction n arbitrary: a)
  case (Suc n)
  show ?case
  proof (cases "a < - kPi")
    case True
    then have step: "f32 (- a - kTwoPi) \<le> - a - 5 \<and> - kPi \<le> f32 (- a - kTwoPi)"
      using Suc.prems by (intro reduce_step) linarith+
    moreover have "f32 (a + kTwoPi) = - f32 (- a - kTwoPi)" using f32_minus [of "- a - kTwoPi"] by (simp add: add.commute)
    ultimately have "a + 5 \<le> f32 (a + kTwoPi)" "f32 (a + kTwoPi) \<le> kPi" by linarith+
    then show ?thesis
      using Suc.IH [of "f32 (a + kTwoPi)"] True Suc.prems by (subst ReduceBelow.simps) simp
  qed (use Suc.prems in \<open>subst ReduceBelow.simps, auto simp: abs_le_iff\<close>)
qed (subst ReduceBelow.simps, auto simp: abs_le_iff)

lemma NormalizeAngle_ok:
  assumes "\<bar>a\<bar> \<le> 2 ^ 24"
  obtains r where "NormalizeAngle a = Some r" and "\<bar>r\<bar> \<le> kPi"
proof (cases "- kPi \<le> a")
  case True
  obtain n where "a \<le> kPi + real n" using real_arch_simple [of "a - kPi"] by (auto simp: algebra_simps)
  then obtain r where r: "ReduceAbove a = Some r" "\<bar>r\<bar> \<le> kPi" using ReduceAbove_ok True assms by fastforce
  then have "ReduceBelow r = Some r" by (subst ReduceBelow.simps) (auto simp: abs_le_iff)
  with r that show ?thesis by (simp add: NormalizeAngle_def)
next
  case False
  have "ReduceAbove a = Some a" using False by (subst ReduceAbove.simps) (simp add: kPi_eq)
  moreover obtain n where "- kPi - real n \<le> a" using real_arch_simple [of "- kPi - a"] by (auto simp: algebra_simps)
  then obtain r where "ReduceBelow a = Some r" "\<bar>r\<bar> \<le> kPi"
    using ReduceBelow_ok [of a n] False assms by (fastforce simp: kPi_eq)
  ultimately show ?thesis using that by (simp add: NormalizeAngle_def)
qed

lemma stuck_angle: "f32 (201326592 - kTwoPi) = 201326592"
proof -
  let ?x = "201326592 - kTwoPi"
  have "f32 ?x = 2 powr (of_int 27 - 23) * of_int (rne (?x / 2 powr (of_int 27 - 23)))"
    by (rule f32_eval) (simp_all add: kTwoPi_eq powr_numeral powr_add)
  moreover have "2 powr (of_int 27 - 23) = (16 :: real)" by (simp add: powr_numeral)
  moreover have "rne (?x / 16) = 12582911 + 1" by (rule rne_up) (simp_all add: kTwoPi_eq)
  ultimately show ?thesis by simp
qed

lemma ReduceAbove_stuck: "ReduceAbove 201326592 = None"
proof -
  have "a \<noteq> 201326592" if "ReduceAbove a = Some y" for a y
  proof (rule ReduceAbove.raw_induct [where P = "\<lambda>a y. a \<noteq> 201326592", OF _ that])
    fix f a y
    assume IH: "\<And>b z. f b = Some z \<Longrightarrow> b \<noteq> (201326592 :: real)"
      and eq: "(if kPi < a then f (f32 (a - kTwoPi)) else Some a) = Some y"
    show "a \<noteq> 201326592"
    proof
      assume "a = 201326592"
      then have "f 201326592 = Some y" using eq by (simp add: stuck_angle kPi_eq)
      from IH [OF this] show False by simp
    qed
  qed
  then show ?thesis by (metis option.exhaust)
qed

subsection \<open>The mathematical library\<close>

text \<open>
  What the control laws rely on: \<open>hypot\<close> of single-precision values errs by at most one unit in the last
  place, sine and cosine are within one, and \<open>atan2\<close> within a half turn.
\<close>

locale c_math =
  fixes lm :: Libm
  assumes hypot_ulp: "f32 a = a \<Longrightarrow> f32 b = b \<Longrightarrow> \<bar>a\<bar> \<le> 2 ^ 60 \<Longrightarrow> \<bar>b\<bar> \<le> 2 ^ 60 \<Longrightarrow>
      \<bar>lm_hypot lm a b - sqrt (a\<^sup>2 + b\<^sup>2)\<bar> \<le> sqrt (a\<^sup>2 + b\<^sup>2) / 2 ^ 23 + 1 / 2 ^ 149"
    and cos_sin: "\<bar>lm_cos lm t\<bar> \<le> 1 \<and> \<bar>lm_sin lm t\<bar> \<le> 1"
    and atan2_le: "\<bar>lm_atan2 lm a b\<bar> \<le> 4"

text \<open>The correctly rounded functions satisfy it.\<close>

definition ideal_libm :: Libm where
  "ideal_libm =
     \<lparr>lm_hypot = (\<lambda>a b. f32 (sqrt (a\<^sup>2 + b\<^sup>2))), lm_atan2 = (\<lambda>b a. f32 (Arg (Complex a b))),
      lm_cos = (\<lambda>t. f32 (cos t)), lm_sin = (\<lambda>t. f32 (sin t))\<rparr>"

interpretation ideal: c_math ideal_libm
proof
  show "\<bar>lm_hypot ideal_libm a b - sqrt (a\<^sup>2 + b\<^sup>2)\<bar> \<le> sqrt (a\<^sup>2 + b\<^sup>2) / 2 ^ 23 + 1 / 2 ^ 149" for a b
  proof -
    have "0 \<le> sqrt (a\<^sup>2 + b\<^sup>2)" by simp
    then show ?thesis using f32_error [of "sqrt (a\<^sup>2 + b\<^sup>2)"] by (simp add: ideal_libm_def)
  qed
  show "\<bar>lm_cos ideal_libm t\<bar> \<le> 1 \<and> \<bar>lm_sin ideal_libm t\<bar> \<le> 1" for t
    using f32_pow2_bound [of "cos t" 0] f32_pow2_bound [of "sin t" 0] by (simp add: ideal_libm_def)
  show "\<bar>lm_atan2 ideal_libm a b\<bar> \<le> 4" for a b
  proof -
    have "\<bar>Arg (Complex b a)\<bar> \<le> 2 ^ 2" using Arg_bounded [of "Complex b a"] pi_less_4 by (simp add: abs_le_iff)
    from f32_pow2_bound [OF this] show ?thesis by (simp add: ideal_libm_def)
  qed
qed

subsection \<open>Bounds of the control laws\<close>

definition near :: "real \<Rightarrow> real \<Rightarrow> OdometryPose \<Rightarrow> bool" where
  "near x y pose \<longleftrightarrow> \<bar>x\<bar> \<le> 2 ^ 20 \<and> \<bar>y\<bar> \<le> 2 ^ 20
     \<and> \<bar>ps_x pose\<bar> \<le> 2 ^ 20 \<and> \<bar>ps_y pose\<bar> \<le> 2 ^ 20 \<and> \<bar>ps_theta pose\<bar> \<le> 2 ^ 20"

definition planar_speed :: "real \<Rightarrow> real \<Rightarrow> real" where
  "planar_speed vx vy = sqrt (vx\<^sup>2 + vy\<^sup>2)"

lemma planar_speed_scale: "0 \<le> k \<Longrightarrow> planar_speed (a * k) (b * k) = k * planar_speed a b"
  by (simp add: planar_speed_def power_mult_distrib real_sqrt_mult flip: distrib_right)

lemma planar_speed_mono: "\<bar>a\<bar> \<le> \<bar>c\<bar> \<Longrightarrow> \<bar>b\<bar> \<le> \<bar>d\<bar> \<Longrightarrow> planar_speed a b \<le> planar_speed c d"
  unfolding planar_speed_def by (intro real_sqrt_le_mono add_mono) (simp_all add: abs_le_square_iff)

lemma planar_speed_triangle: "planar_speed (a + c) (b + d) \<le> planar_speed a b + planar_speed c d"
  unfolding planar_speed_def by (rule real_sqrt_sum_squares_triangle_ineq)

lemma planar_speed_le_sum: "planar_speed a b \<le> \<bar>a\<bar> + \<bar>b\<bar>"
  unfolding planar_speed_def by (rule sqrt_sum_squares_le_sum_abs)

lemma planar_speed_nonneg [simp]: "0 \<le> planar_speed a b"
  by (simp add: planar_speed_def)

text \<open>Rounding both components lengthens the vector by the relative error and at most one subnormal.\<close>

lemma planar_speed_rounded:
  "planar_speed (f32 a) (f32 b) \<le> planar_speed a b * (1 + 1 / 2 ^ 24) + 1 / 2 ^ 149"
proof -
  let ?t = "1 / 2 ^ 150 :: real" and ?k = "1 + 1 / 2 ^ 24 :: real"
  have c: "\<bar>f32 v\<bar> \<le> \<bar>\<bar>v\<bar> * ?k + ?t\<bar>" for v
  proof -
    have "\<bar>f32 v\<bar> \<le> \<bar>v\<bar> + (\<bar>v\<bar> / 2 ^ 24 + ?t)" using f32_error [of v] by linarith
    then show ?thesis by (simp add: algebra_simps)
  qed
  have "planar_speed (f32 a) (f32 b) \<le> planar_speed (\<bar>a\<bar> * ?k + ?t) (\<bar>b\<bar> * ?k + ?t)"
    by (intro planar_speed_mono c)
  also have "\<dots> \<le> planar_speed (\<bar>a\<bar> * ?k) (\<bar>b\<bar> * ?k) + planar_speed ?t ?t" by (rule planar_speed_triangle)
  also have "planar_speed (\<bar>a\<bar> * ?k) (\<bar>b\<bar> * ?k) = ?k * planar_speed a b"
    by (subst planar_speed_scale) (simp_all add: planar_speed_def)
  also have "planar_speed ?t ?t \<le> 1 / 2 ^ 149" using planar_speed_le_sum [of ?t ?t] by simp
  finally show ?thesis by (simp add: mult.commute)
qed

lemma clamp_bounds: "lo \<le> hi \<Longrightarrow> lo \<le> clamp v lo hi \<and> clamp v lo hi \<le> hi"
  by (auto simp: clamp_def)

lemma LocalLimit_far: "\<not> distance < kDistanceTolerance \<Longrightarrow> LocalLimit distance vel = vel"
  by (simp add: LocalLimit_def kDistanceTolerance_def)

lemma small_threshold: "f32 (1 / 10 ^ 6) \<le> 1 / 100"
proof -
  have "(1 :: real) / 2 ^ 126 \<le> 1 / 10 ^ 6" by simp
  then have "f32 (1 / 10 ^ 6) \<le> 1 / 10 ^ 6 * (1 + 1 / 2 ^ 24)"
    by (rule f32_rel)
  then show ?thesis by simp
qed

lemma difference_bounded: "\<bar>a\<bar> \<le> 2 ^ 20 \<Longrightarrow> \<bar>b\<bar> \<le> 2 ^ 20 \<Longrightarrow> \<bar>f32 (a - b)\<bar> \<le> 2 ^ 21"
  by (rule f32_pow2_bound) simp

lemma rotation_bounded:
  assumes "\<bar>a\<bar> \<le> 2 ^ 21" and "\<bar>b\<bar> \<le> 2 ^ 21" and "\<bar>c\<bar> \<le> 1" and "\<bar>d\<bar> \<le> 1"
  shows "\<bar>f32 (f32 (a * c) + f32 (b * d))\<bar> \<le> 2 ^ 22"
proof -
  have "\<bar>a * c\<bar> \<le> 2 ^ 21 * 1" "\<bar>b * d\<bar> \<le> 2 ^ 21 * 1"
    unfolding abs_mult using assms by (intro mult_mono; simp)+
  then have "\<bar>f32 (a * c)\<bar> \<le> 2 ^ 21" "\<bar>f32 (b * d)\<bar> \<le> 2 ^ 21" by (intro f32_pow2_bound; simp)+
  then show ?thesis by (intro f32_pow2_bound) simp
qed

context c_math
begin

lemma hypot_speed:
  assumes "f32 vx = vx" and "f32 vy = vy" and "\<bar>vx\<bar> \<le> 2 ^ 22" and "\<bar>vy\<bar> \<le> 2 ^ 22"
  shows "planar_speed vx vy \<le> (lm_hypot lm vx vy + 1 / 2 ^ 149) * (1 + 1 / 2 ^ 22)"
    and "lm_hypot lm vx vy \<le> 2 ^ 61"
proof -
  let ?s = "planar_speed vx vy" and ?h = "lm_hypot lm vx vy"
  have ulp: "\<bar>?h - ?s\<bar> \<le> ?s / 2 ^ 23 + 1 / 2 ^ 149"
    unfolding planar_speed_def using assms by (intro hypot_ulp) simp_all
  have "?s - ?s / 2 ^ 23 \<le> ?h + 1 / 2 ^ 149" using ulp by linarith
  then have "?s * (1 - 1 / 2 ^ 23) \<le> ?h + 1 / 2 ^ 149" by (simp add: algebra_simps)
  then have "?s * (1 - 1 / 2 ^ 23) * (1 + 1 / 2 ^ 22) \<le> (?h + 1 / 2 ^ 149) * (1 + 1 / 2 ^ 22)"
    by (rule mult_right_mono) simp
  moreover have "?s * 1 \<le> ?s * ((1 - 1 / 2 ^ 23) * (1 + 1 / 2 ^ 22))" by (rule mult_left_mono) simp_all
  ultimately show "?s \<le> (?h + 1 / 2 ^ 149) * (1 + 1 / 2 ^ 22)" by (simp only: mult.assoc mult_1_right)
  have "?s \<le> 2 ^ 23" using planar_speed_le_sum [of vx vy] assms by simp
  then show "?h \<le> 2 ^ 61" using ulp by (simp add: abs_le_iff)
qed

lemma LimitSpeed_bound:
  assumes "f32 vx = vx" and "f32 vy = vy" and "\<bar>vx\<bar> \<le> 2 ^ 22" and "\<bar>vy\<bar> \<le> 2 ^ 22" and "1 / 100 \<le> vel"
    and "LimitSpeed lm vel vx vy = (vx', vy')"
  shows "planar_speed vx' vy' \<le> vel * (1 + 1 / 2 ^ 21)"
proof -
  let ?h = "lm_hypot lm vx vy" and ?s = "planar_speed vx vy"
  define t :: real where "t = 1 / 2 ^ 149"
  define e :: real where "e = 1 / 2 ^ 24"
  have s: "?s \<le> (?h + t) * (1 + 4 * e)" using hypot_speed(1) [OF assms(1-4)] by (simp add: t_def e_def)
  have le: "?h \<le> 2 ^ 61" using hypot_speed(2) [OF assms(1-4)] .
  have t: "t \<le> vel / 2 ^ 100" "0 < t" using assms(5) by (simp_all add: t_def)
  show ?thesis
  proof (cases "vel < ?h \<and> f32 (1 / 10 ^ 6) < ?h")
    case True
    define k where "k = f32 (vel / ?h)"
    have h: "1 / 100 < ?h" using True assms(5) by linarith
    have "1 / 100 / 2 ^ 61 \<le> vel / ?h" using assms(5) le h by (intro frac_le) simp_all
    then have "1 / 2 ^ 126 \<le> vel / ?h" by (rule order_trans [rotated]) simp
    from f32_rel [OF this] have k: "k \<le> vel / ?h * (1 + e)" "0 \<le> k"
      using assms(5) h by (simp_all add: k_def e_def f32_nonneg)
    have "t \<le> ?h / 2 ^ 100" using t(1) True by simp
    then have "?h + t \<le> ?h * (1 + 1 / 2 ^ 100)" by (simp add: field_simps)
    then have "?s \<le> ?h * (1 + 1 / 2 ^ 100) * (1 + 4 * e)"
      using s by (smt (verit) mult_right_mono e_def zero_le_divide_1_iff zero_le_power)
    then have "k * ?s \<le> vel / ?h * (1 + e) * (?h * (1 + 1 / 2 ^ 100) * (1 + 4 * e))"
      using k assms(5) h by (intro mult_mono) (simp_all add: e_def)
    also have "\<dots> = vel / ?h * ?h * ((1 + e) * (1 + 1 / 2 ^ 100) * (1 + 4 * e))"
      by (simp only: mult.assoc mult.left_commute)
    also have "vel / ?h * ?h = vel" using h by simp
    finally have k_s: "k * ?s \<le> vel * ((1 + e) * (1 + 1 / 2 ^ 100) * (1 + 4 * e))" .
    have "planar_speed vx' vy' \<le> planar_speed (vx * k) (vy * k) * (1 + e) + t"
      using planar_speed_rounded [of "vx * k" "vy * k"] True assms(6)
      by (auto simp: LimitSpeed_def Let_def k_def e_def t_def)
    also have "planar_speed (vx * k) (vy * k) = k * ?s" using k(2) by (rule planar_speed_scale)
    also have "k * ?s * (1 + e) + t \<le> vel * ((1 + e) * (1 + 1 / 2 ^ 100) * (1 + 4 * e)) * (1 + e) + vel / 2 ^ 100"
      using k_s t by (intro add_mono mult_right_mono) (simp_all add: e_def)
    also have "\<dots> = vel * ((1 + e) * (1 + 1 / 2 ^ 100) * (1 + 4 * e) * (1 + e) + 1 / 2 ^ 100)"
      by (simp add: algebra_simps)
    also have "\<dots> \<le> vel * (1 + 1 / 2 ^ 21)" using assms(5) by (intro mult_left_mono) (simp_all add: e_def)
    finally show ?thesis .
  next
    case False
    then have "?h + t \<le> vel * (1 + 1 / 2 ^ 100)" using small_threshold assms(5) t by (simp add: algebra_simps)
    then have "(?h + t) * (1 + 4 * e) \<le> vel * (1 + 1 / 2 ^ 100) * (1 + 4 * e)"
      by (rule mult_right_mono) (simp add: e_def)
    also have "\<dots> = vel * ((1 + 1 / 2 ^ 100) * (1 + 4 * e))" by (simp only: mult.assoc)
    also have "\<dots> \<le> vel * (1 + 1 / 2 ^ 21)" using assms(5) by (intro mult_left_mono) (simp_all add: e_def)
    finally have "?s \<le> vel * (1 + 1 / 2 ^ 21)" using s by linarith
    moreover have "vx' = vx" "vy' = vy" using assms(6) False by (auto simp: LimitSpeed_def Let_def)
    ultimately show ?thesis by simp
  qed
qed

lemma ApproachStep_bound:
  assumes "near x y pose" and "1 / 100 \<le> vel" and "\<bar>hold\<bar> \<le> 2 ^ 20"
  shows "\<exists>r. ApproachStep lm x y vel hold pose = Some r \<and>
    (\<forall>vx vy vyaw. r = Some (vx, vy, vyaw) \<longrightarrow>
       planar_speed vx vy \<le> vel * (1 + 1 / 2 ^ 21) \<and> \<bar>vyaw\<bar> \<le> 1)"
proof -
  let ?dx = "f32 (x - ps_x pose)" and ?dy = "f32 (y - ps_y pose)"
  let ?c = "lm_cos lm (ps_theta pose)" and ?s = "lm_sin lm (ps_theta pose)"
  let ?vx = "f32 (f32 (?dx * ?c) + f32 (?dy * ?s))" and ?vy = "f32 (f32 (- ?dx * ?s) + f32 (?dy * ?c))"
  have d: "\<bar>?dx\<bar> \<le> 2 ^ 21" "\<bar>?dy\<bar> \<le> 2 ^ 21" using assms(1) by (intro difference_bounded; simp add: near_def)+
  then have v: "\<bar>?vx\<bar> \<le> 2 ^ 22" "\<bar>?vy\<bar> \<le> 2 ^ 22" using cos_sin by (intro rotation_bounded; simp)+
  have "\<bar>f32 (hold - ps_theta pose)\<bar> \<le> 2 ^ 24"
    using difference_bounded [of hold "ps_theta pose"] assms(1,3) by (simp add: near_def)
  then obtain a where a: "NormalizeAngle (f32 (hold - ps_theta pose)) = Some a" by (rule NormalizeAngle_ok)
  have half: "f32 (1 / 2) = 1 / 2" using f32_dyadic [of 1 1] by simp
  obtain vx' vy' where l: "LimitSpeed lm vel ?vx ?vy = (vx', vy')" by (cases "LimitSpeed lm vel ?vx ?vy")
  show ?thesis
    using LimitSpeed_bound [OF _ _ v assms(2) l] l a clamp_bounds [of "- 1 / 2" "1 / 2" a]
    by (auto simp: ApproachStep_def Let_def LocalLimit_far half abs_le_iff)
qed

lemma HeadingStep_bound:
  assumes "near x y pose"
  shows "\<exists>r. HeadingStep lm x y pose elapsed = Some r \<and> (\<forall>vyaw. r = Some vyaw \<longrightarrow> \<bar>vyaw\<bar> \<le> 1)"
proof -
  let ?t = "lm_atan2 lm (f32 (y - ps_y pose)) (f32 (x - ps_x pose))"
  have "\<bar>?t\<bar> \<le> 2 ^ 20" using atan2_le by (rule order_trans) simp
  then have "\<bar>f32 (?t - ps_theta pose)\<bar> \<le> 2 ^ 24"
    using difference_bounded [of ?t "ps_theta pose"] assms by (simp add: near_def)
  then obtain a where a: "NormalizeAngle (f32 (?t - ps_theta pose)) = Some a" by (rule NormalizeAngle_ok)
  then show ?thesis
    using clamp_bounds [of "- 1" 1 "f32 (f32 (12 / 10) * a)"]
    by (auto simp: HeadingStep_def Let_def abs_le_iff)
qed

end

subsection \<open>The loops\<close>

definition inputs_near :: "real \<Rightarrow> real \<Rightarrow> MoveInputs \<Rightarrow> bool" where
  "inputs_near x y inp \<longleftrightarrow>
     (\<forall>(read, _, _) \<in> set (mi_heading inp). pred_option (near x y) read) \<and> pred_option (near x y) (mi_hold inp)
     \<and> (\<forall>(read, _) \<in> set (mi_approach inp). pred_option (near x y) read)"

definition bounded_cmd :: "real \<Rightarrow> velocity \<Rightarrow> bool" where
  "bounded_cmd limit cmd = (case cmd of (vx, vy, vyaw) \<Rightarrow> planar_speed vx vy \<le> limit \<and> \<bar>vyaw\<bar> \<le> 1)"

lemma planar_speed_0 [simp]: "planar_speed 0 0 = 0"
  by (simp add: planar_speed_def)

lemma bounded_stop: "0 \<le> limit \<Longrightarrow> bounded_cmd limit stop_command"
  by (simp add: bounded_cmd_def stop_command_def)

context c_math
begin

lemma HeadingLoop_bound:
  assumes "\<forall>(read, _, _) \<in> set rounds. pred_option (near x y) read" and "0 \<le> limit"
  shows "snd (HeadingLoop lm x y rounds) \<noteq> PhaseHung
    \<and> (\<forall>cmd \<in> set (fst (HeadingLoop lm x y rounds)). bounded_cmd limit cmd)"
  using assms(1)
proof (induction rounds)
  case (Cons r rounds)
  obtain read elapsed send where r: "r = (read, elapsed, send)" by (cases r)
  show ?case
  proof (cases read)
    case (Some pose)
    with Cons.prems r have "near x y pose" by simp
    from HeadingStep_bound [OF this] obtain q where "HeadingStep lm x y pose elapsed = Some q"
      "\<forall>vyaw. q = Some vyaw \<longrightarrow> \<bar>vyaw\<bar> \<le> 1" by blast
    then show ?thesis
      using Cons.IH Cons.prems assms(2) r Some by (cases q) (auto simp: bounded_cmd_def split: prod.splits)
  qed (simp add: r)
qed simp

lemma ApproachLoop_bound:
  assumes "\<forall>(read, _) \<in> set rounds. pred_option (near x y) read" and "1 / 100 \<le> vel" and "\<bar>hold\<bar> \<le> 2 ^ 20"
  shows "snd (ApproachLoop lm x y vel hold rounds) \<noteq> PhaseHung
    \<and> (\<forall>cmd \<in> set (fst (ApproachLoop lm x y vel hold rounds)). bounded_cmd (vel * (1 + 1 / 2 ^ 21)) cmd)"
  using assms(1)
proof (induction rounds)
  case (Cons r rounds)
  obtain read send where r: "r = (read, send)" by (cases r)
  show ?case
  proof (cases read)
    case (Some pose)
    with Cons.prems r have "near x y pose" by simp
    from ApproachStep_bound [OF this assms(2,3)] obtain q where "ApproachStep lm x y vel hold pose = Some q"
      "\<forall>cmd. q = Some cmd \<longrightarrow> bounded_cmd (vel * (1 + 1 / 2 ^ 21)) cmd" by (auto simp: bounded_cmd_def)
    then show ?thesis using Cons.IH Cons.prems r Some by (cases q) (auto split: prod.splits)
  qed (simp add: r)
qed simp

lemma MoveToTarget_bound:
  assumes "inputs_near x y inp" and "1 / 100 \<le> vel"
  shows "snd (MoveToTarget lm x y vel inp) \<noteq> Hung
    \<and> (\<forall>cmd \<in> set (fst (MoveToTarget lm x y vel inp)). bounded_cmd (vel * (1 + 1 / 2 ^ 21)) cmd)"
proof -
  let ?limit = "vel * (1 + 1 / 2 ^ 21)"
  have pos: "0 \<le> ?limit" using assms(2) by simp
  have h: "snd (HeadingLoop lm x y (mi_heading inp)) \<noteq> PhaseHung"
    "\<forall>cmd \<in> set (fst (HeadingLoop lm x y (mi_heading inp))). bounded_cmd ?limit cmd"
    using HeadingLoop_bound [of "mi_heading inp" x y, OF _ pos] assms(1) by (auto simp: inputs_near_def)
  have a: "snd (ApproachLoop lm x y vel (ps_theta hold) (mi_approach inp)) \<noteq> PhaseHung"
    "\<forall>cmd \<in> set (fst (ApproachLoop lm x y vel (ps_theta hold) (mi_approach inp))). bounded_cmd ?limit cmd"
    if "mi_hold inp = Some hold" for hold
    using ApproachLoop_bound [of "mi_approach inp" x y vel "ps_theta hold"] assms that
    by (auto simp: inputs_near_def near_def)
  obtain c1 p1 where l1: "HeadingLoop lm x y (mi_heading inp) = (c1, p1)"
    by (cases "HeadingLoop lm x y (mi_heading inp)")
  show ?thesis
  proof (cases "mi_hold inp")
    case None
    then show ?thesis using h bounded_stop [OF pos] by (cases p1) (auto simp: MoveToTarget_def CatchAll_def l1)
  next
    case (Some hold)
    obtain c2 p2 where l2: "ApproachLoop lm x y vel (ps_theta hold) (mi_approach inp) = (c2, p2)"
      by (cases "ApproachLoop lm x y vel (ps_theta hold) (mi_approach inp)")
    show ?thesis
      using h a [OF Some] bounded_stop [OF pos]
      by (cases p1; cases p2) (auto simp: MoveToTarget_def CatchAll_def l1 l2 Some)
  qed
qed

end

lemma HeadingLoop_threw:
  "HeadingLoop lm x y rounds = (cmds, PhaseThrew) \<Longrightarrow>
   Throws \<in> (\<lambda>(_, _, send). send) ` set rounds \<or> None \<in> fst ` set rounds"
proof (induction rounds arbitrary: cmds)
  case (Cons r rounds)
  obtain read elapsed send where r: "r = (read, elapsed, send)" by (cases r)
  show ?case
  proof (cases read)
    case (Some pose)
    show ?thesis
    proof (cases send)
      case (Ret code)
      then obtain cmds' where "HeadingLoop lm x y rounds = (cmds', PhaseThrew)"
        using Cons.prems r Some by (auto simp: SafeMove_def split: option.splits prod.splits)
      from Cons.IH [OF this] show ?thesis by auto
    qed (simp add: r)
  qed (simp add: r)
qed simp

lemma ApproachLoop_threw:
  "ApproachLoop lm x y vel hold rounds = (cmds, PhaseThrew) \<Longrightarrow>
   Throws \<in> snd ` set rounds \<or> None \<in> fst ` set rounds"
proof (induction rounds arbitrary: cmds)
  case (Cons r rounds)
  obtain read send where r: "r = (read, send)" by (cases r)
  show ?case
  proof (cases read)
    case (Some pose)
    show ?thesis
    proof (cases send)
      case (Ret code)
      then obtain cmds' where "ApproachLoop lm x y vel hold rounds = (cmds', PhaseThrew)"
        using Cons.prems r Some by (auto simp: SafeMove_def split: option.splits prod.splits)
      from Cons.IH [OF this] show ?thesis by auto
    qed (simp add: r)
  qed (simp add: r)
qed simp

lemma ApproachLoop_done:
  "ApproachLoop lm x y vel hold rounds = (cmds, PhaseDone) \<Longrightarrow>
   \<exists>pose send. (Some pose, send) \<in> set rounds
     \<and> lm_hypot lm (f32 (x - ps_x pose)) (f32 (y - ps_y pose)) < kDistanceTolerance"
proof (induction rounds arbitrary: cmds)
  case (Cons r rounds)
  obtain read send where r: "r = (read, send)" by (cases r)
  with Cons.prems obtain pose where read: "read = Some pose" by (cases read) auto
  show ?case
  proof (cases "lm_hypot lm (f32 (x - ps_x pose)) (f32 (y - ps_y pose)) < kDistanceTolerance")
    case False
    then have "\<exists>cmds'. ApproachLoop lm x y vel hold rounds = (cmds', PhaseDone)"
      using Cons.prems r read by (auto simp: ApproachStep_def Let_def split: option.splits prod.splits if_splits)
    with Cons.IH show ?thesis by (meson list.set_intros(2))
  qed (use r read in auto)
qed simp

fun Turned :: "real \<Rightarrow> real \<Rightarrow> OdometryPose list \<Rightarrow> real option" where
  "Turned accumulated last_theta [] = Some accumulated"
| "Turned accumulated last_theta (pose # poses) =
     (case NormalizeAngle (f32 (ps_theta pose - last_theta)) of
        None \<Rightarrow> None
      | Some delta \<Rightarrow> Turned (f32 (accumulated + \<bar>delta\<bar>)) (ps_theta pose) poses)"

lemma TurnLoop_done:
  "TurnLoop dir target vel acc prev rounds = (cmds, PhaseDone) \<Longrightarrow>
   \<exists>n poses turned. map fst (take n rounds) = map Some poses
     \<and> Turned acc prev poses = Some turned \<and> f32 (target - turned) \<le> 0"
proof (induction rounds arbitrary: acc prev cmds)
  case (Cons r rounds)
  obtain read send where r: "r = (read, send)" by (cases r)
  with Cons.prems obtain pose where read: "read = Some pose" by (cases read) auto
  obtain delta where d: "NormalizeAngle (f32 (ps_theta pose - prev)) = Some delta"
    using Cons.prems r read by (auto split: option.splits)
  let ?acc = "f32 (acc + \<bar>delta\<bar>)"
  show ?case
  proof (cases "f32 (target - ?acc) \<le> 0")
    case True
    then show ?thesis by (intro exI [of _ 1] exI [of _ "[pose]"] exI [of _ ?acc]) (simp add: r read d)
  next
    case False
    then obtain cmds' where "TurnLoop dir target vel ?acc (ps_theta pose) rounds = (cmds', PhaseDone)"
      using Cons.prems r read d by (auto simp: Let_def split: prod.splits if_splits)
    from Cons.IH [OF this] obtain n poses turned where "map fst (take n rounds) = map Some poses"
      "Turned ?acc (ps_theta pose) poses = Some turned" "f32 (target - turned) \<le> 0" by blast
    then show ?thesis
      by (intro exI [of _ "Suc n"] exI [of _ "pose # poses"] exI [of _ turned]) (simp add: r read d)
  qed
qed simp

lemma TurnSpeed_bound:
  "0 < remaining \<Longrightarrow> 0 \<le> vel \<Longrightarrow> 0 \<le> TurnSpeed vel remaining \<and> TurnSpeed vel remaining \<le> max vel (f32 (2 * f32 (2 / 10)))"
  using f32_mono [of "remaining * 2" "2 * f32 (2 / 10)"] f32_mono [of "f32 (2 / 10)" "2 * f32 (2 / 10)"]
    f32_nonneg [of "2 / 10"]
  by (auto simp: TurnSpeed_def)

lemma TurnLoop_commands:
  assumes "0 \<le> vel" and "(vx, vy, w) \<in> set (fst (TurnLoop dir target vel acc prev rounds))"
  shows "vx = 0 \<and> vy = 0 \<and> (\<exists>speed. w = dir * speed \<and> 0 \<le> speed \<and> speed \<le> max vel (f32 (2 * f32 (2 / 10))))"
  using assms(2)
proof (induction rounds arbitrary: acc prev)
  case (Cons r rounds)
  obtain read send where pair: "r = (read, send)" by (cases r)
  with Cons.prems obtain pose where "read = Some pose" by (cases read) auto
  with pair have r: "r = (Some pose, send)" by simp
  obtain delta where d: "NormalizeAngle (f32 (ps_theta pose - prev)) = Some delta"
    using Cons.prems r by (auto split: option.splits)
  let ?acc = "f32 (acc + \<bar>delta\<bar>)"
  let ?cmd = "(0, 0, dir * TurnSpeed vel (f32 (target - ?acc)))"
  have go: "0 < f32 (target - ?acc)"
    using Cons.prems r d by (auto simp: Let_def split: if_splits)
  have "(vx, vy, w) = ?cmd \<or> (vx, vy, w) \<in> set (fst (TurnLoop dir target vel ?acc (ps_theta pose) rounds))"
    using Cons.prems r d by (auto simp: Let_def split: if_splits prod.splits)
  then show ?case using Cons.IH TurnSpeed_bound [OF go assms(1)] by auto
qed simp

subsection \<open>Properties\<close>

text \<open>
  \<open>NormalizeAngle\<close> returns for every angle of magnitude at most \<open>2 ^ 24\<close> radians, and what it returns
  lies between the rounded values of minus pi and pi.
\<close>

lemma NormalizeAngle_returns:
  assumes "\<bar>angle\<bar> \<le> 2 ^ 24"
  shows "\<exists>r. NormalizeAngle angle = Some r \<and> \<bar>r\<bar> \<le> kPi"
  using NormalizeAngle_ok [OF assms] by metis

lemma NormalizeAngle_returns_witness: "\<exists>r. NormalizeAngle (- 7) = Some r \<and> \<bar>r\<bar> \<le> kPi"
  by (rule NormalizeAngle_returns) simp

text \<open>
  \<open>NormalizeAngle\<close> does not return for every \<open>float\<close>: from the representable angle \<open>3 * 2 ^ 26\<close> on the
  subtraction of a full turn is absorbed by rounding, and the loop runs forever.
\<close>

lemma NormalizeAngle_can_diverge:
  "f32 (3 * 2 ^ 26) = 3 * 2 ^ 26 \<and> NormalizeAngle (3 * 2 ^ 26) = None"
proof -
  have "f32 (3 * 2 ^ 26) = 3 * 2 ^ 26" using fl_grid [of 3 24 "- 126" 26] by (simp add: f32_def powr_numeral)
  then show ?thesis using ReduceAbove_stuck by (simp add: NormalizeAngle_def)
qed

text \<open>
  C15. Safety of \<open>MoveToTarget\<close>.  With a requested speed of at least a centimetre per second, the
  target and every pose read (coordinates and heading) of magnitude at most \<open>2 ^ 20\<close>, and a C library
  whose \<open>hypot\<close> errs by at most one unit in the last place, no round hangs, and every command ever
  sent has a yaw rate of at most one and a planar speed, the length of its planar velocity, that exceeds
  the requested speed by no more than the rounding error, a factor of \<open>1 + 2 ^ (-21)\<close>; this covers both
  loops, the stops and the exception handler.
\<close>

theorem MoveToTarget_speed_limit:
  assumes "c_math lm" and "inputs_near x y inp" and "1 / 100 \<le> vel"
  shows "snd (MoveToTarget lm x y vel inp) \<noteq> Hung
    \<and> (\<forall>(vx, vy, vyaw) \<in> set (fst (MoveToTarget lm x y vel inp)).
         sqrt (vx\<^sup>2 + vy\<^sup>2) \<le> vel * (1 + 1 / 2 ^ 21) \<and> \<bar>vyaw\<bar> \<le> 1)"
  using c_math.MoveToTarget_bound [OF assms] by (fastforce simp: bounded_cmd_def planar_speed_def)

definition sample_inputs :: MoveInputs where
  "sample_inputs =
     \<lparr>mi_heading = [(Some \<lparr>ps_x = 0, ps_y = 0, ps_theta = 3\<rparr>, 0, Ret 0),
                    (Some \<lparr>ps_x = 0, ps_y = 0, ps_theta = 0\<rparr>, 1, Ret 100)],
      mi_stop = Ret 0, mi_hold = Some \<lparr>ps_x = 0, ps_y = 0, ps_theta = 0\<rparr>,
      mi_approach = [(Some \<lparr>ps_x = 0, ps_y = 0, ps_theta = 0\<rparr>, Ret 0),
                     (Some \<lparr>ps_x = 1, ps_y = 0, ps_theta = 0\<rparr>, Ret 0)],
      mi_final = Ret 0, mi_handler = Ret 0\<rparr>"

theorem MoveToTarget_speed_limit_witness:
  "list_all (\<lambda>(vx, vy, vyaw). sqrt (vx\<^sup>2 + vy\<^sup>2) \<le> 1 / 2 * (1 + 1 / 2 ^ 21))
     (fst (MoveToTarget ideal_libm 2 0 (1 / 2) sample_inputs))"
proof -
  have "inputs_near 2 0 sample_inputs" by (simp add: inputs_near_def near_def sample_inputs_def)
  then show ?thesis
    unfolding list_all_iff
    using MoveToTarget_speed_limit [OF ideal.c_math_axioms, of 2 0 sample_inputs "1 / 2"] by fastforce
qed

text \<open>
  C16. What a return of \<open>MoveToTarget\<close> means.  However it returns, its last command is a stop; it returns
  true only after a round of the second loop read a pose closer to the target than the tolerance, and
  false only if a send or a read of the odometry threw.
\<close>

theorem MoveToTarget_returns_stopped:
  assumes "snd (MoveToTarget lm x y vel inp) = Returned b"
  shows "last (fst (MoveToTarget lm x y vel inp)) = stop_command
    \<and> (b \<longrightarrow> (\<exists>pose send. (Some pose, send) \<in> set (mi_approach inp)
          \<and> lm_hypot lm (f32 (x - ps_x pose)) (f32 (y - ps_y pose)) < kDistanceTolerance))
    \<and> (\<not> b \<longrightarrow>
          Throws \<in> {mi_stop inp, mi_final inp}
            \<union> (\<lambda>(_, _, send). send) ` set (mi_heading inp) \<union> snd ` set (mi_approach inp)
          \<or> None \<in> {mi_hold inp} \<union> fst ` set (mi_heading inp) \<union> fst ` set (mi_approach inp))"
proof -
  obtain c1 p1 where l1: "HeadingLoop lm x y (mi_heading inp) = (c1, p1)"
    by (cases "HeadingLoop lm x y (mi_heading inp)")
  define threw where "threw \<longleftrightarrow> Throws \<in> {mi_stop inp, mi_final inp}
            \<union> (\<lambda>(_, _, send). send) ` set (mi_heading inp) \<union> snd ` set (mi_approach inp)
          \<or> None \<in> {mi_hold inp} \<union> fst ` set (mi_heading inp) \<union> fst ` set (mi_approach inp)"
  have t: "p1 = PhaseThrew \<Longrightarrow> threw" "mi_stop inp = Throws \<Longrightarrow> threw" "mi_final inp = Throws \<Longrightarrow> threw"
    "mi_hold inp = None \<Longrightarrow> threw"
    using HeadingLoop_threw [of lm x y "mi_heading inp" c1] l1 unfolding threw_def by (blast, simp, simp, simp)
  show ?thesis
  proof (cases "mi_hold inp")
    case None
    then show ?thesis
      using assms t unfolding threw_def [symmetric]
      by (cases p1; cases "mi_stop inp"; cases "mi_handler inp")
        (simp_all add: MoveToTarget_def CatchAll_def l1 SafeMove_def)
  next
    case (Some hold)
    obtain c2 p2 where l2: "ApproachLoop lm x y vel (ps_theta hold) (mi_approach inp) = (c2, p2)"
      by (cases "ApproachLoop lm x y vel (ps_theta hold) (mi_approach inp)")
    have a: "p2 = PhaseThrew \<Longrightarrow> threw"
      using ApproachLoop_threw [of lm x y vel "ps_theta hold" "mi_approach inp" c2] l2 unfolding threw_def by blast
    have d: "p2 = PhaseDone \<Longrightarrow> \<exists>pose send. (Some pose, send) \<in> set (mi_approach inp)
        \<and> lm_hypot lm (f32 (x - ps_x pose)) (f32 (y - ps_y pose)) < kDistanceTolerance"
      using ApproachLoop_done [of lm x y vel "ps_theta hold" "mi_approach inp" c2] l2 by blast
    show ?thesis
      using assms t a d unfolding threw_def [symmetric]
      by (cases p1; cases p2; cases "mi_stop inp"; cases "mi_final inp"; cases "mi_handler inp")
        (simp_all add: MoveToTarget_def CatchAll_def l1 l2 SafeMove_def Some)
  qed
qed

theorem MoveToTarget_returns_stopped_witness:
  "last (fst (MoveToTarget ideal_libm 2 0 (1 / 2) (sample_inputs\<lparr>mi_stop := Throws,
      mi_heading := [(Some \<lparr>ps_x = 0, ps_y = 0, ps_theta = 0\<rparr>, 6 * 10 ^ 9, Ret 0)]\<rparr>))) = stop_command"
proof -
  have "snd (MoveToTarget ideal_libm 2 0 (1 / 2) (sample_inputs\<lparr>mi_stop := Throws,
      mi_heading := [(Some \<lparr>ps_x = 0, ps_y = 0, ps_theta = 0\<rparr>, 6 * 10 ^ 9, Ret 0)]\<rparr>)) = Returned False"
    by (simp add: MoveToTarget_def HeadingStep_def Let_def CatchAll_def SafeMove_def sample_inputs_def)
  from MoveToTarget_returns_stopped [OF this] show ?thesis by blast
qed

text \<open>
  \<open>MoveToTarget\<close> does not slow down near the target.  The code lowers the speed limit below a distance
  of 0.20 m, but a pose that close has already ended the loop: in every round that sends a command the
  limit is the full requested speed.
\<close>

lemma MoveToTarget_never_slows_down:
  assumes "ApproachStep lm x y vel hold_theta pose = Some (Some cmd)"
  shows "LocalLimit (lm_hypot lm (f32 (x - ps_x pose)) (f32 (y - ps_y pose))) vel = vel"
  using assms by (intro LocalLimit_far) (auto simp: ApproachStep_def Let_def)

lemma MoveToTarget_never_slows_down_witness:
  "\<exists>cmd. ApproachStep ideal_libm 1 0 1 0 \<lparr>ps_x = 0, ps_y = 0, ps_theta = 0\<rparr> = Some (Some cmd)
     \<and> LocalLimit (lm_hypot ideal_libm (f32 1) (f32 0)) 1 = 1"
proof -
  let ?p = "\<lparr>ps_x = 0, ps_y = 0, ps_theta = 0\<rparr>"
  have one: "f32 1 = 1" using f32_int [of 1] by simp
  have tol: "\<not> 1 < kDistanceTolerance"
    using f32_mono [of "1 / 5" 1] one by (simp add: kDistanceTolerance_def)
  have zero: "NormalizeAngle 0 = Some 0"
    by (simp add: NormalizeAngle_def ReduceAbove.simps [of 0] ReduceBelow.simps [of 0] kPi_eq)
  have "\<exists>cmd. ApproachStep ideal_libm 1 0 1 0 ?p = Some (Some cmd)"
    using tol zero one by (auto simp: ApproachStep_def ideal_libm_def Let_def split: prod.split)
  then obtain cmd where cmd: "ApproachStep ideal_libm 1 0 1 0 ?p = Some (Some cmd)" by blast
  from MoveToTarget_never_slows_down [OF cmd] cmd show ?thesis by (cases cmd) simp
qed

text \<open>
  C17. \<open>TurnAround\<close> only turns, always against the sign of the angle, and never faster than the requested
  speed or the floor that braking imposes, twice 0.2 radians per second; when it returns true the
  integrated heading change has reached the angle and the last command is a stop.
\<close>

theorem TurnAround_turns:
  "(\<forall>(vx, vy, w) \<in> set (fst (TurnAround angle vel start rounds final handler)).
      vx = 0 \<and> vy = 0 \<and> w * angle \<le> 0 \<and> \<bar>w\<bar> \<le> max \<bar>vel\<bar> (f32 (2 * f32 (2 / 10))))
   \<and> (snd (TurnAround angle vel start rounds final handler) = Returned True \<longrightarrow>
        last (fst (TurnAround angle vel start rounds final handler)) = stop_command
        \<and> (\<exists>first n poses turned. start = Some first \<and> map fst (take n rounds) = map Some poses
             \<and> Turned 0 (ps_theta first) poses = Some turned \<and> f32 (\<bar>angle\<bar> - turned) \<le> 0))"
proof (cases start)
  case (Some first)
  let ?dir = "if 0 < angle then - 1 else (1 :: real)" and ?max = "max \<bar>vel\<bar> (f32 (2 * f32 (2 / 10)))"
  obtain c p where l: "TurnLoop ?dir \<bar>angle\<bar> \<bar>vel\<bar> 0 (ps_theta first) rounds = (c, p)"
    by (cases "TurnLoop ?dir \<bar>angle\<bar> \<bar>vel\<bar> 0 (ps_theta first) rounds")
  have m: "0 \<le> ?max" by simp
  have c: "vx = 0 \<and> vy = 0 \<and> w * angle \<le> 0 \<and> \<bar>w\<bar> \<le> ?max" if "(vx, vy, w) \<in> set c" for vx vy w
  proof -
    have "(vx, vy, w) \<in> set (fst (TurnLoop ?dir \<bar>angle\<bar> \<bar>vel\<bar> 0 (ps_theta first) rounds))" using that l by simp
    from TurnLoop_commands [OF abs_ge_zero this] obtain speed
      where "vx = 0" "vy = 0" "w = ?dir * speed" "0 \<le> speed" "speed \<le> ?max" by blast
    then show ?thesis by (auto simp: mult_nonneg_nonpos)
  qed
  have cmds: "\<forall>(vx, vy, w) \<in> set (fst (TurnAround angle vel start rounds final handler)).
      vx = 0 \<and> vy = 0 \<and> w * angle \<le> 0 \<and> \<bar>w\<bar> \<le> ?max"
  proof -
    have "set (fst (TurnAround angle vel start rounds final handler)) \<subseteq> set c \<union> {stop_command}"
      by (cases p) (auto simp: TurnAround_def l CatchAll_def Some)
    then show ?thesis using c m by (fastforce simp: stop_command_def)
  qed
  have stopped: "p = PhaseDone \<and> last (fst (TurnAround angle vel start rounds final handler)) = stop_command"
    if "snd (TurnAround angle vel start rounds final handler) = Returned True"
    using that by (cases p) (auto simp: TurnAround_def l CatchAll_def Some split: if_splits)
  have "\<exists>n poses turned. map fst (take n rounds) = map Some poses
      \<and> Turned 0 (ps_theta first) poses = Some turned \<and> f32 (\<bar>angle\<bar> - turned) \<le> 0" if "p = PhaseDone"
    using TurnLoop_done [OF l [unfolded that]] .
  with cmds stopped Some show ?thesis by blast
qed (simp add: TurnAround_def)

theorem TurnAround_turns_witness:
  "last (fst (TurnAround 1 (1 / 2) (Some \<lparr>ps_x = 0, ps_y = 0, ps_theta = 0\<rparr>)
      [(Some \<lparr>ps_x = 0, ps_y = 0, ps_theta = 0\<rparr>, Ret 0), (Some \<lparr>ps_x = 0, ps_y = 0, ps_theta = - 2\<rparr>, Ret 0)] (Ret 0) (Ret 0)))
   = stop_command"
proof -
  have f: "f32 1 = 1" "f32 2 = 2" "f32 (- 2) = - 2" "f32 (1 - 2) = - 1"
    using f32_int [of 1] f32_int [of 2] f32_int [of "- 2"] f32_int [of "- 1"] by simp_all
  have n: "NormalizeAngle 0 = Some 0" "NormalizeAngle (- 2) = Some (- 2)"
    by (simp_all add: NormalizeAngle_def ReduceAbove.simps [of 0] ReduceBelow.simps [of 0] ReduceAbove.simps [of "- 2"]
        ReduceBelow.simps [of "- 2"] kPi_eq)
  have "snd (TurnAround 1 (1 / 2) (Some \<lparr>ps_x = 0, ps_y = 0, ps_theta = 0\<rparr>)
      [(Some \<lparr>ps_x = 0, ps_y = 0, ps_theta = 0\<rparr>, Ret 0), (Some \<lparr>ps_x = 0, ps_y = 0, ps_theta = - 2\<rparr>, Ret 0)] (Ret 0) (Ret 0))
    = Returned True"
    by (simp add: TurnAround_def SafeMove_def n f Let_def f32_minus)
  from TurnAround_turns [THEN conjunct2, rule_format, OF this] show ?thesis by blast
qed

text \<open>
  The braking floor can exceed the requested speed: asked to turn by 3/16 radians at 1/8 radians per
  second, the first command is 3/8 radians per second, three times the request.
\<close>

lemma TurnAround_exceeds_requested_speed:
  "fst (TurnAround (3 / 16) (1 / 8) (Some start) [(Some start, Ret 0)] final handler) = [(0, 0, - 3 / 8)]"
proof -
  have q: "f32 (3 / 16) = 3 / 16" "f32 (3 / 8) = 3 / 8" "f32 (13 / 64) = 13 / 64" "f32 (51 / 256) = 51 / 256"
    using f32_dyadic [of 3 4] f32_dyadic [of 3 3] f32_dyadic [of 13 6] f32_dyadic [of 51 8] by simp_all
  have fifth: "51 / 256 \<le> f32 (1 / 5)" "f32 (1 / 5) \<le> 13 / 64"
    using f32_mono [of "51 / 256" "1 / 5"] f32_mono [of "1 / 5" "13 / 64"] q by simp_all
  have zero: "NormalizeAngle 0 = Some 0"
    by (simp add: NormalizeAngle_def ReduceAbove.simps [of 0] ReduceBelow.simps [of 0] kPi_eq)
  show ?thesis
    using fifth by (simp add: TurnAround_def TurnSpeed_def SafeMove_def Let_def zero q max_def)
qed

text \<open>
  The first read of the odometry stands before the try block of \<open>TurnAround\<close>, and that of
  \<open>MoveToRelative\<close> has none around it: an exception there leaves the call instead of giving false.
\<close>

lemma first_read_is_not_caught:
  "TurnAround angle vel None rounds final handler = ([], Escaped)
    \<and> MoveToRelative lm None dx dy vel inp = ([], Escaped)"
  by (simp add: TurnAround_def MoveToRelative_def)

text \<open>
  The life cycle: construction either succeeds with the tracker open or throws, and it succeeds only if
  odometry became ready; \<open>Close\<close> stops the robot, closes the tracker and is idempotent.
\<close>

lemma MoveController_lifecycle:
  assumes "MoveController_new init_ok rounds reset = Some (Inr (m, attempts))"
  shows "init_ok \<and> (\<exists>t. (True, t) \<in> set rounds) \<and> mc_tracker_open m \<and> \<not> mc_is_closed m
    \<and> snd attempts \<le> 5
    \<and> (\<forall>cmds m'. MoveController_Close send m = (cmds, Inr m') \<longrightarrow>
        cmds = [stop_command] \<and> \<not> mc_tracker_open m' \<and> MoveController_Close send' m' = ([], Inr m'))"
proof -
  have m: "init_ok" "WaitReady (5 * 10 ^ 9) rounds = Some True"
    "m = \<lparr>mc_tracker_open = True, mc_is_closed = False\<rparr>" "attempts = RetryApiCall reset 5"
    using assms by (auto simp: MoveController_new_def split: if_splits option.splits bool.splits)
  have "\<exists>t. (True, t) \<in> set rounds" using WaitReady_ready [OF m(2)] .
  moreover have "snd attempts \<le> 5" using RetryFrom_count [of reset 0 5] by (simp add: m(4) RetryApiCall_def)
  ultimately show ?thesis using m by (auto simp: MoveController_Close_def split: if_splits)
qed

lemma MoveController_lifecycle_witness:
  "MoveController_new True [(False, 10), (True, 20)] (\<lambda>_. 0)
      = Some (Inr (\<lparr>mc_tracker_open = True, mc_is_closed = False\<rparr>, (True, 1)))
   \<and> MoveController_Close (Ret 0) \<lparr>mc_tracker_open = False, mc_is_closed = True\<rparr>
      = ([], Inr \<lparr>mc_tracker_open = False, mc_is_closed = True\<rparr>)"
proof -
  have new: "MoveController_new True [(False, 10), (True, 20)] (\<lambda>_. 0)
      = Some (Inr (\<lparr>mc_tracker_open = True, mc_is_closed = False\<rparr>, (True, 1)))"
    by (simp add: MoveController_new_def RetryApiCall_def eval_nat_numeral kRpcStatusCodeSuccess_def)
  from MoveController_lifecycle [OF this, of "Ret 0" "Ret 0"] new show ?thesis
    by (simp add: MoveController_Close_def SafeMove_def)
qed

end
