(* ===== verification/Arm_Controller.thy ===== *)
theory Arm_Controller
  imports Controller_Common Robot_Types Idl_Robot Ieee_Round "HOL-Library.AList"
begin

text \<open>
  \<open>ArmController\<close> (\<open>robot/b1/arm_controller.hpp\<close>): the queue of arm targets, the low-state tracker, the
  frames that \<open>Finish\<close> publishes, and the life cycle.

  The queue is an \<open>std::unordered_map\<close>, here an association list without repeated keys whose order
  stands for the iteration order.  \<open>Finish\<close> runs over the list of what its rounds observe: the time since its start in
  nanoseconds, the tracker (which the listener thread updates meanwhile), and the answer of
  \<open>Write\<close>.  Every \<open>float\<close> operation rounds (\<open>f32\<close>); values are finite.
\<close>

subsection \<open>The low-state tracker\<close>

record LowStateTracker =
  lt_ready :: bool
  lt_joint_positions :: "real list"

definition kLowLevelJointCount :: nat where "kLowLevelJointCount = kJointCnt"
definition kArmJointStart :: int where "kArmJointStart = 2"
definition kArmJointEnd :: int where "kArmJointEnd = 9"

definition LowStateTracker_init :: LowStateTracker where
  "LowStateTracker_init =
     \<lparr>lt_ready = False, lt_joint_positions = replicate kLowLevelJointCount 0\<rparr>"

text \<open>The copying loop of \<open>HandleMessage\<close>: as many positions as both lists have.\<close>

fun CopyPositions :: "MotorState list \<Rightarrow> real list \<Rightarrow> real list" where
  "CopyPositions (m # motor_states) (p # ps) = MotorState_q m # CopyPositions motor_states ps"
| "CopyPositions [] ps = ps"
| "CopyPositions motor_states [] = []"

definition LowStateTracker_HandleMessage :: "LowState \<Rightarrow> LowStateTracker \<Rightarrow> LowStateTracker" where
  "LowStateTracker_HandleMessage low_state t =
     t\<lparr>lt_joint_positions :=
          CopyPositions (LowState_motor_state_parallel low_state) (lt_joint_positions t),
        lt_ready := True\<rparr>"

definition GetJointQ :: "int \<Rightarrow> LowStateTracker \<Rightarrow> real" where
  "GetJointQ joint_idx t =
     (if joint_idx < 0 \<or> int (length (lt_joint_positions t)) \<le> joint_idx then 0
      else lt_joint_positions t ! nat joint_idx)"

definition GetAllQ :: "LowStateTracker \<Rightarrow> real list" where
  "GetAllQ t = lt_joint_positions t"

subsection \<open>Queueing targets\<close>

datatype ArmJoint =
    kLeftPitch | kLeftRoll | kLeftYaw | kLeftElbow | kRightPitch | kRightRoll | kRightYaw | kRightElbow

fun ArmJoint_val :: "ArmJoint \<Rightarrow> int" where
  "ArmJoint_val kLeftPitch = 2"
| "ArmJoint_val kLeftRoll = 3"
| "ArmJoint_val kLeftYaw = 4"
| "ArmJoint_val kLeftElbow = 5"
| "ArmJoint_val kRightPitch = 6"
| "ArmJoint_val kRightRoll = 7"
| "ArmJoint_val kRightYaw = 8"
| "ArmJoint_val kRightElbow = 9"

record PendingAction =
  pa_target_rad :: real
  pa_duration_seconds :: real

record ArmController =
  ac_pending_actions :: "(int \<times> PendingAction) list"
  ac_tracker_open :: bool
  ac_publisher_open :: bool
  ac_is_closed :: bool

definition ControlArm :: "int \<Rightarrow> real \<Rightarrow> real \<Rightarrow> ArmController \<Rightarrow> ArmController" where
  "ControlArm joint_idx target_rad duration_ms c =
     (if joint_idx < kArmJointStart \<or> kArmJointEnd < joint_idx then c
      else c\<lparr>ac_pending_actions := AList.update joint_idx
               \<lparr>pa_target_rad = target_rad, pa_duration_seconds = f32 (max 50 duration_ms / 1000)\<rparr>
               (ac_pending_actions c)\<rparr>)"

definition ControlArmJoint :: "ArmJoint \<Rightarrow> real \<Rightarrow> real \<Rightarrow> ArmController \<Rightarrow> ArmController" where
  "ControlArmJoint joint_idx target_rad duration_ms c =
     ControlArm (ArmJoint_val joint_idx) target_rad duration_ms c"

subsection \<open>One frame\<close>

record PlannedTask =
  pl_start_q :: real
  pl_end_q :: real
  pl_duration_seconds :: real

text \<open>
  \<open>std::chrono::duration<float>\<close> of a difference of \<open>steady_clock\<close>: nanoseconds converted to \<open>float\<close>
  and divided by a thousand million.
\<close>

definition FloatSeconds :: "int \<Rightarrow> real" where
  "FloatSeconds ns = f32 (f32 (of_int ns) / 10 ^ 9)"

definition Progress :: "real \<Rightarrow> PlannedTask \<Rightarrow> real" where
  "Progress elapsed task = min 1 (f32 (elapsed / pl_duration_seconds task))"

definition TargetQ :: "real \<Rightarrow> PlannedTask \<Rightarrow> real" where
  "TargetQ elapsed task =
     f32 (pl_start_q task
          + f32 (f32 (pl_end_q task - pl_start_q task) * Progress elapsed task))"

text \<open>The body of the loop over the joints; \<open>at\<close> raises when the tracker has no such position.\<close>

definition Motor :: "(int \<times> PlannedTask) list \<Rightarrow> real \<Rightarrow> real list \<Rightarrow> nat \<Rightarrow> string + MotorCmd" where
  "Motor tasks elapsed current_real_q i =
     (let motor = MotorCmd_default\<lparr>MotorCmd_mode := 0x0A, MotorCmd_dq := 0, MotorCmd_tau := 0\<rparr> in
      case map_of tasks (int i) of
        Some task \<Rightarrow>
          Inr (motor\<lparr>MotorCmd_q := TargetQ elapsed task, MotorCmd_kp := 60, MotorCmd_kd := 3\<rparr>)
      | None \<Rightarrow>
          if nat kArmJointStart \<le> i \<and> i \<le> nat kArmJointEnd then
            if i < length current_real_q then
              Inr (motor\<lparr>MotorCmd_q := current_real_q ! i, MotorCmd_kp := 60, MotorCmd_kd := 3\<rparr>)
            else Inl ''out_of_range''
          else Inr (motor\<lparr>MotorCmd_q := 0, MotorCmd_kp := 0, MotorCmd_kd := 0\<rparr>))"

definition ArmFrame :: "(int \<times> PlannedTask) list \<Rightarrow> real \<Rightarrow> real list \<Rightarrow> string + LowCmd" where
  "ArmFrame tasks elapsed current_real_q =
     sbind (smap (Motor tasks elapsed current_real_q) [0..<kLowLevelJointCount])
       (\<lambda>cmd_list. Inr (LowCmd_default\<lparr>LowCmd_motor_cmd := cmd_list\<rparr>))"

subsection \<open>\<open>Finish\<close>\<close>

text \<open>
  The plan: \<open>reads k\<close> is the tracker at the moment the loop reads joint \<open>k\<close>, since each read takes the
  lock anew.
\<close>

definition Plan :: "(int \<Rightarrow> LowStateTracker) \<Rightarrow> (int \<times> PendingAction) list \<Rightarrow> (int \<times> PlannedTask) list" where
  "Plan reads pending =
     map (\<lambda>(k, action). (k, \<lparr>pl_start_q = GetJointQ k (reads k), pl_end_q = pa_target_rad action,
                               pl_duration_seconds = pa_duration_seconds action\<rparr>)) pending"

definition MaxDuration :: "(int \<times> PendingAction) list \<Rightarrow> real" where
  "MaxDuration pending = fold (\<lambda>(k, action) d. max d (pa_duration_seconds action)) pending 0"

datatype FinishResult = FinishReturned bool | FinishRunning | FinishThrew string

type_synonym arm_round = "int \<times> LowStateTracker \<times> bool"

fun FinishLoop ::
    "(int \<times> PlannedTask) list \<Rightarrow> real \<Rightarrow> bool \<Rightarrow> arm_round list \<Rightarrow> LowCmd list \<times> FinishResult" where
  "FinishLoop tasks max_duration success [] = ([], FinishRunning)"
| "FinishLoop tasks max_duration success ((elapsed_ns, tracker, written) # rounds) =
     (let elapsed = FloatSeconds elapsed_ns in
      if f32 (max_duration + f32 (2 / 100)) < elapsed then ([], FinishReturned success)
      else case ArmFrame tasks elapsed (GetAllQ tracker) of
          Inl e \<Rightarrow> ([], FinishThrew e)
        | Inr cmd_msg \<Rightarrow>
            (case FinishLoop tasks max_duration (written \<and> success) rounds of
               (frames, result) \<Rightarrow> (cmd_msg # frames, result)))"

definition Finish ::
    "(int \<Rightarrow> LowStateTracker) \<Rightarrow> arm_round list \<Rightarrow> ArmController
       \<Rightarrow> LowCmd list \<times> FinishResult \<times> ArmController" where
  "Finish reads rounds c =
     (if ac_pending_actions c = [] then ([], FinishReturned True, c)
      else
        case FinishLoop (Plan reads (ac_pending_actions c)) (MaxDuration (ac_pending_actions c)) True rounds of
          (frames, FinishReturned success) \<Rightarrow>
            (frames, FinishReturned success, c\<lparr>ac_pending_actions := []\<rparr>)
        | (frames, result) \<Rightarrow> (frames, result, c))"

subsection \<open>Life cycle\<close>

text \<open>
  The constructor: \<open>init_ok\<close> is whether the initialisation calls return, \<open>rounds\<close> what the wait for the
  tracker observes (its outcome is only logged), \<open>enable\<close> the answers of \<open>UpperBodyCustomControl\<close>.
  \<open>Inl\<close> is the exception after the handler closed the channels.
\<close>

definition ArmController_new ::
    "bool \<Rightarrow> (bool \<times> int) list \<Rightarrow> (nat \<Rightarrow> i32) \<Rightarrow> (ArmController + ArmController \<times> bool \<times> nat) option" where
  "ArmController_new init_ok rounds enable =
     (if \<not> init_ok
      then Some (Inl \<lparr>ac_pending_actions = [], ac_tracker_open = False, ac_publisher_open = False,
                       ac_is_closed = True\<rparr>)
      else case WaitReady (5 * 10 ^ 9) rounds of
          None \<Rightarrow> None
        | Some _ \<Rightarrow>
            Some (Inr (\<lparr>ac_pending_actions = [], ac_tracker_open = True, ac_publisher_open = True,
                          ac_is_closed = False\<rparr>,
                       RetryApiCall enable 5)))"

text \<open>\<open>Close\<close> also answers how many calls of \<open>UpperBodyCustomControl(false)\<close> it made.\<close>

definition ArmController_Close :: "(nat \<Rightarrow> i32) \<Rightarrow> ArmController \<Rightarrow> nat \<times> ArmController" where
  "ArmController_Close disable c =
     (if ac_is_closed c then (0, c)
      else (snd (RetryApiCall disable 3),
            c\<lparr>ac_tracker_open := False, ac_publisher_open := False, ac_pending_actions := [],
              ac_is_closed := True\<rparr>))"

subsection \<open>The tracker and the queue\<close>

lemma length_CopyPositions [simp]: "length (CopyPositions ms ps) = length ps"
  by (induction ms ps rule: CopyPositions.induct) auto

text \<open>The tracker after the messages \<open>ms\<close>.\<close>

abbreviation tracked :: "LowState list \<Rightarrow> LowStateTracker" where
  "tracked ms \<equiv> fold LowStateTracker_HandleMessage ms LowStateTracker_init"

lemma length_HandleMessage [simp]:
  "length (lt_joint_positions (LowStateTracker_HandleMessage m t)) = length (lt_joint_positions t)"
  by (simp add: LowStateTracker_HandleMessage_def)

lemma length_tracked [simp]: "length (lt_joint_positions (tracked ms)) = 23"
proof -
  have "length (lt_joint_positions (fold LowStateTracker_HandleMessage ms t)) = length (lt_joint_positions t)" for t
    by (induction ms arbitrary: t) auto
  then show ?thesis by (simp add: LowStateTracker_init_def kLowLevelJointCount_def kJointCnt_def)
qed

definition queue_ok :: "(int \<times> PendingAction) list \<Rightarrow> bool" where
  "queue_ok pending \<longleftrightarrow> distinct (map fst pending)
     \<and> (\<forall>(k, a) \<in> set pending. 2 \<le> k \<and> k \<le> 9 \<and> 1 / 32 \<le> pa_duration_seconds a)"

definition arm_calls :: "(int \<times> real \<times> real) list \<Rightarrow> ArmController \<Rightarrow> ArmController" where
  "arm_calls = fold (\<lambda>(joint, target, duration). ControlArm joint target duration)"

lemma duration_lower: "1 / 32 \<le> f32 (max 50 d / 1000)"
proof -
  have "f32 (1 / 32) \<le> f32 (max 50 d / 1000)" by (rule f32_mono) (simp add: max_def)
  then show ?thesis using f32_dyadic [of 1 5] by simp
qed

lemma set_update_subset: "set (AList.update k v al) \<subseteq> insert (k, v) (set al)"
  by (induction al) auto

lemma ControlArm_queue_ok:
  "queue_ok (ac_pending_actions c) \<Longrightarrow> queue_ok (ac_pending_actions (ControlArm j t d c))"
  using duration_lower [of d]
  by (auto simp: queue_ok_def ControlArm_def kArmJointStart_def kArmJointEnd_def distinct_update
      dest!: set_update_subset [THEN subsetD] split: if_splits)

lemma arm_calls_queue_ok:
  "queue_ok (ac_pending_actions c) \<Longrightarrow> queue_ok (ac_pending_actions (arm_calls calls c))"
  unfolding arm_calls_def by (induction calls arbitrary: c) (auto simp: ControlArm_queue_ok split: prod.splits)

lemma arm_calls_map_of:
  "map_of (ac_pending_actions (arm_calls calls c)) k =
     (case map_of (rev calls) k of
        Some (target, duration) \<Rightarrow>
          if 2 \<le> k \<and> k \<le> 9
          then Some \<lparr>pa_target_rad = target, pa_duration_seconds = f32 (max 50 duration / 1000)\<rparr>
          else map_of (ac_pending_actions c) k
      | None \<Rightarrow> map_of (ac_pending_actions c) k)"
  unfolding arm_calls_def
  by (induction calls arbitrary: c)
     (auto simp: ControlArm_def kArmJointStart_def kArmJointEnd_def update_conv map_add_def
       split: option.splits prod.splits if_splits)

subsection \<open>Frames\<close>

lemma Frame_nth:
  assumes "ArmFrame tasks elapsed q = Inr cmd"
  shows "LowCmd_cmd_type cmd = PARALLEL \<and> length (LowCmd_motor_cmd cmd) = 23
    \<and> (\<forall>i < 23. Motor tasks elapsed q i = Inr (LowCmd_motor_cmd cmd ! i))"
proof -
  from assms obtain ms where ms: "smap (Motor tasks elapsed q) [0..<23] = Inr ms"
    and cmd: "cmd = LowCmd_default\<lparr>LowCmd_motor_cmd := ms\<rparr>"
    by (auto simp: ArmFrame_def sbind_Inr_iff kLowLevelJointCount_def kJointCnt_def)
  have "Motor tasks elapsed q i = Inr (ms ! i)" if "i < 23" for i
    using smap_Inr_nth [OF ms, of i] that by simp
  with smap_Inr_length [OF ms] show ?thesis by (simp add: cmd LowCmd_default_def)
qed

lemma Motor_no_throw: "9 < length q \<Longrightarrow> \<exists>m. Motor tasks elapsed q i = Inr m"
  by (auto simp: Motor_def Let_def kArmJointEnd_def kArmJointStart_def split: option.splits)

lemma ArmFrame_no_throw: "9 < length q \<Longrightarrow> \<exists>cmd. ArmFrame tasks elapsed q = Inr cmd"
proof -
  assume "9 < length q"
  then have "\<forall>i. \<exists>m. Motor tasks elapsed q i = Inr m" using Motor_no_throw by blast
  then obtain h where "\<And>i. Motor tasks elapsed q i = Inr (h i)" by metis
  then have "smap (Motor tasks elapsed q) [0..<kLowLevelJointCount] = Inr (map h [0..<kLowLevelJointCount])"
    by (intro smap_all_Inr) simp
  then show ?thesis by (simp add: ArmFrame_def)
qed

lemma Motor_frame:
  "Motor tasks elapsed q i = Inr m \<Longrightarrow> MotorCmd_mode m = 0x0A \<and> MotorCmd_dq m = 0 \<and> MotorCmd_tau m = 0"
  by (auto simp: Motor_def Let_def MotorCmd_default_def split: option.splits if_splits)

lemma Motor_arm:
  "Motor tasks elapsed q i = Inr m \<Longrightarrow> 2 \<le> i \<Longrightarrow> i \<le> 9 \<Longrightarrow>
     MotorCmd_kp m = 60 \<and> MotorCmd_kd m = 3
     \<and> MotorCmd_q m = (case map_of tasks (int i) of Some task \<Rightarrow> TargetQ elapsed task | None \<Rightarrow> q ! i)"
  by (auto simp: Motor_def Let_def kArmJointEnd_def kArmJointStart_def split: option.splits if_splits)

lemma Motor_other:
  "Motor tasks elapsed q i = Inr m \<Longrightarrow> \<not> (2 \<le> i \<and> i \<le> 9) \<Longrightarrow> map_of tasks (int i) = None \<Longrightarrow>
     MotorCmd_kp m = 0 \<and> MotorCmd_kd m = 0 \<and> MotorCmd_q m = 0"
  by (auto simp: Motor_def Let_def kArmJointEnd_def kArmJointStart_def split: if_splits)

lemma map_of_Plan:
  "map_of (Plan reads pending) k =
     map_option (\<lambda>a. \<lparr>pl_start_q = GetJointQ k (reads k), pl_end_q = pa_target_rad a,
                       pl_duration_seconds = pa_duration_seconds a\<rparr>) (map_of pending k)"
  by (induction pending) (auto simp: Plan_def)

lemma fold_max_ge: "d \<le> fold (\<lambda>(k, a) d. max d (pa_duration_seconds a)) pending d"
proof (induction pending arbitrary: d)
  case (Cons x xs)
  obtain k a where "x = (k, a)" by (cases x)
  with Cons [of "max d (pa_duration_seconds a)"] show ?case by simp
qed simp

lemma MaxDuration_ge:
  "map_of pending k = Some a \<Longrightarrow> pa_duration_seconds a \<le> MaxDuration pending"
proof -
  have "pa_duration_seconds a \<le> fold (\<lambda>(k, a) d. max d (pa_duration_seconds a)) pending d"
    if "(k, a) \<in> set pending" for d
    using that
  proof (induction pending arbitrary: d)
    case (Cons x xs)
    then show ?case using fold_max_ge [of "max d (pa_duration_seconds a)" xs] by auto
  qed simp
  then show "map_of pending k = Some a \<Longrightarrow> ?thesis" by (simp add: MaxDuration_def map_of_SomeD)
qed

lemma MaxDuration_nonneg: "0 \<le> MaxDuration pending"
  unfolding MaxDuration_def by (rule fold_max_ge)

subsection \<open>The loop of \<open>Finish\<close>\<close>

abbreviation finish_limit :: "real \<Rightarrow> real" where
  "finish_limit max_duration \<equiv> f32 (max_duration + f32 (2 / 100))"

lemma FinishLoop_nth:
  "FinishLoop tasks mx ok rounds = (frames, r) \<Longrightarrow> n < length frames \<Longrightarrow>
     n < length rounds \<and> FloatSeconds (fst (rounds ! n)) \<le> finish_limit mx
     \<and> ArmFrame tasks (FloatSeconds (fst (rounds ! n))) (GetAllQ (fst (snd (rounds ! n)))) = Inr (frames ! n)"
proof (induction tasks mx ok rounds arbitrary: frames n rule: FinishLoop.induct)
  case (2 tasks mx ok ns tr w rounds)
  show ?case
  proof (cases "finish_limit mx < FloatSeconds ns")
    case False
    with 2(2,3) obtain cmd fs where "ArmFrame tasks (FloatSeconds ns) (GetAllQ tr) = Inr cmd"
      "FinishLoop tasks mx (w \<and> ok) rounds = (fs, r)" "frames = cmd # fs"
      by (auto simp: Let_def split: sum.splits prod.splits)
    with 2(1) [OF refl False, of cmd fs "n - 1"] 2(3) False show ?thesis by (cases n) auto
  qed (use 2 in simp)
qed simp

lemma FinishLoop_returned:
  "FinishLoop tasks mx ok rounds = (frames, FinishReturned b) \<Longrightarrow>
     length frames < length rounds \<and> finish_limit mx < FloatSeconds (fst (rounds ! length frames))
     \<and> (b \<longleftrightarrow> ok \<and> (\<forall>n < length frames. snd (snd (rounds ! n))))"
proof (induction tasks mx ok rounds arbitrary: frames rule: FinishLoop.induct)
  case (2 tasks mx ok ns tr w rounds)
  show ?case
  proof (cases "finish_limit mx < FloatSeconds ns")
    case False
    with 2(2) obtain cmd fs where *: "ArmFrame tasks (FloatSeconds ns) (GetAllQ tr) = Inr cmd"
      "FinishLoop tasks mx (w \<and> ok) rounds = (fs, FinishReturned b)" "frames = cmd # fs"
      by (auto simp: Let_def split: sum.splits prod.splits)
    from 2(1) [OF refl False *(1,2)] show ?thesis by (auto simp: *(3) All_less_Suc2)
  qed (use 2 in auto)
qed simp

lemma FinishLoop_returns:
  assumes "\<forall>(ns, tr, w) \<in> set rounds. length (lt_joint_positions tr) = 23"
  shows "(\<forall>e. snd (FinishLoop tasks mx ok rounds) \<noteq> FinishThrew e)
    \<and> ((\<exists>(ns, tr, w) \<in> set rounds. finish_limit mx < FloatSeconds ns)
         \<longrightarrow> snd (FinishLoop tasks mx ok rounds) \<noteq> FinishRunning)"
  using assms
proof (induction tasks mx ok rounds rule: FinishLoop.induct)
  case (2 tasks mx ok ns tr w rounds)
  show ?case
  proof (cases "finish_limit mx < FloatSeconds ns")
    case False
    obtain cmd where cmd: "ArmFrame tasks (FloatSeconds ns) (GetAllQ tr) = Inr cmd"
      using ArmFrame_no_throw [of "GetAllQ tr" tasks "FloatSeconds ns"] 2(2) by (auto simp: GetAllQ_def)
    from 2(1) [OF refl False cmd] 2(2) False cmd show ?thesis by (auto simp: Let_def split: prod.splits)
  qed simp
qed simp

lemma Finish_loop:
  assumes "Finish reads rounds c = (frames, r, c')" and "ac_pending_actions c \<noteq> []"
  shows "FinishLoop (Plan reads (ac_pending_actions c)) (MaxDuration (ac_pending_actions c)) True rounds
     = (frames, r)"
  using assms by (auto simp: Finish_def split: prod.splits FinishResult.splits)

lemma Finish_frame:
  assumes "Finish reads rounds c = (frames, r, c')" and "n < length frames"
  shows "n < length rounds \<and> FloatSeconds (fst (rounds ! n)) \<le> finish_limit (MaxDuration (ac_pending_actions c))
    \<and> ArmFrame (Plan reads (ac_pending_actions c)) (FloatSeconds (fst (rounds ! n)))
        (GetAllQ (fst (snd (rounds ! n)))) = Inr (frames ! n)"
proof -
  from assms have "ac_pending_actions c \<noteq> []" by (auto simp: Finish_def)
  from FinishLoop_nth [OF Finish_loop [OF assms(1) this] assms(2)] show ?thesis .
qed

lemma FloatSeconds_nonneg: "0 \<le> ns \<Longrightarrow> 0 \<le> FloatSeconds ns"
  by (simp add: FloatSeconds_def f32_nonneg)

subsection \<open>Motion\<close>

text \<open>The position a queued joint is commanded to at the end of its motion.\<close>

abbreviation final_q :: "real \<Rightarrow> real \<Rightarrow> real" where
  "final_q start target \<equiv> f32 (start + f32 (target - start))"

lemma TargetQ_between:
  assumes "0 \<le> elapsed" and "0 < pl_duration_seconds task" and float: "f32 (pl_start_q task) = pl_start_q task"
  shows "min (pl_start_q task) (final_q (pl_start_q task) (pl_end_q task)) \<le> TargetQ elapsed task
    \<and> TargetQ elapsed task \<le> max (pl_start_q task) (final_q (pl_start_q task) (pl_end_q task))"
proof -
  let ?p = "Progress elapsed task" and ?d = "f32 (pl_end_q task - pl_start_q task)" and ?s = "pl_start_q task"
  have p: "0 \<le> ?p" "?p \<le> 1" using assms(1,2) by (simp_all add: Progress_def f32_nonneg)
  show ?thesis
  proof (cases "0 \<le> ?d")
    case True
    with p have "0 \<le> ?d * ?p" "?d * ?p \<le> ?d" by (simp_all add: mult_left_le)
    then have "0 \<le> f32 (?d * ?p)" "f32 (?d * ?p) \<le> ?d" using f32_mono [of "?d * ?p" ?d] by (simp_all add: f32_nonneg)
    then have "f32 ?s \<le> TargetQ elapsed task" "TargetQ elapsed task \<le> final_q ?s (pl_end_q task)"
      unfolding TargetQ_def by (intro f32_mono; simp)+
    then show ?thesis by (simp add: float)
  next
    case False
    then have "?d * ?p \<le> 0" "?d \<le> ?d * ?p" using p mult_left_mono_neg [of ?p 1 ?d] by (simp_all add: mult_nonpos_nonneg)
    then have "f32 (?d * ?p) \<le> 0" "?d \<le> f32 (?d * ?p)" using f32_mono [of ?d "?d * ?p"] by (simp_all add: f32_nonpos)
    then have "TargetQ elapsed task \<le> f32 ?s" "final_q ?s (pl_end_q task) \<le> TargetQ elapsed task"
      unfolding TargetQ_def by (intro f32_mono; simp)+
    then show ?thesis by (simp add: float)
  qed
qed

lemma TargetQ_final:
  assumes "0 < pl_duration_seconds task" and "pl_duration_seconds task \<le> elapsed"
  shows "TargetQ elapsed task = final_q (pl_start_q task) (pl_end_q task)"
proof -
  have "1 \<le> elapsed / pl_duration_seconds task" using assms by simp
  then have "f32 1 \<le> f32 (elapsed / pl_duration_seconds task)" by (rule f32_mono)
  then have "Progress elapsed task = 1" using f32_int [of 1] by (simp add: Progress_def)
  then show ?thesis by (simp add: TargetQ_def)
qed

text \<open>The command for a queued joint in a frame of \<open>Finish\<close>.\<close>

lemma Finish_joint:
  assumes "Finish reads rounds c = (frames, r, c')" and "n < length frames"
    and "queue_ok (ac_pending_actions c)" and "map_of (ac_pending_actions c) k = Some a"
  shows "2 \<le> k \<and> k \<le> 9 \<and> 1 / 32 \<le> pa_duration_seconds a
    \<and> MotorCmd_q (LowCmd_motor_cmd (frames ! n) ! nat k) =
        TargetQ (FloatSeconds (fst (rounds ! n)))
          \<lparr>pl_start_q = GetJointQ k (reads k), pl_end_q = pa_target_rad a,
            pl_duration_seconds = pa_duration_seconds a\<rparr>"
proof -
  have k: "2 \<le> k" "k \<le> 9" "1 / 32 \<le> pa_duration_seconds a"
    using assms(3) map_of_SomeD [OF assms(4)] by (auto simp: queue_ok_def)
  have "Motor (Plan reads (ac_pending_actions c)) (FloatSeconds (fst (rounds ! n)))
      (GetAllQ (fst (snd (rounds ! n)))) (nat k) = Inr (LowCmd_motor_cmd (frames ! n) ! nat k)"
    using Frame_nth [of _ _ _ "frames ! n"] Finish_frame [OF assms(1,2)] k by auto
  from Motor_arm [OF this] k assms(4) show ?thesis by (auto simp: map_of_Plan)
qed

subsection \<open>Concrete runs\<close>

lemma f32_int_pow: "\<bar>m\<bar> \<le> 2 ^ 24 \<Longrightarrow> f32 (of_int m * 2 ^ n) = of_int m * 2 ^ n"
  using fl_grid [of m 24 "- 126" "int n"] by (simp add: f32_def powr_realpow)

lemma FloatSeconds_grid: "0 \<le> m \<Longrightarrow> m \<le> 2 ^ 24 \<Longrightarrow> FloatSeconds (m * 2 ^ n) = f32 (of_int m * 2 ^ n / 10 ^ 9)"
  using f32_int_pow [of m n] by (simp add: FloatSeconds_def)

lemma FloatSeconds_0 [simp]: "FloatSeconds 0 = 0"
  by (simp add: FloatSeconds_def)

lemma f32_2_100: "5 / 256 \<le> f32 (2 / 100)" "f32 (2 / 100) \<le> 21 / 1024"
  using f32_mono [of "5 / 256" "2 / 100"] f32_mono [of "2 / 100" "21 / 1024"]
    f32_dyadic [of 5 8] f32_dyadic [of 21 10] by simp_all

text \<open>A controller after its construction.\<close>

definition fresh_arm :: ArmController where
  "fresh_arm = \<lparr>ac_pending_actions = [], ac_tracker_open = True, ac_publisher_open = True, ac_is_closed = False\<rparr>"

text \<open>A run whose second reading of the clock comes a second after the first.\<close>

lemma Finish_stalled:
  assumes "ac_pending_actions c \<noteq> []" and "MaxDuration (ac_pending_actions c) \<le> 1 / 2"
  shows "\<exists>cmd. Finish reads [(0, tracked [], w), (2 ^ 30, tracked [], w')] c =
    ([cmd], FinishReturned w, c\<lparr>ac_pending_actions := []\<rparr>)"
proof -
  let ?mx = "MaxDuration (ac_pending_actions c)"
  have "0 \<le> finish_limit ?mx" using MaxDuration_nonneg f32_2_100(1) by (intro f32_nonneg) (simp add: add_nonneg_nonneg)
  moreover have "finish_limit ?mx \<le> f32 (3 / 4)" using assms(2) f32_2_100(2) by (intro f32_mono) simp
  moreover have "f32 1 \<le> f32 (of_int 1 * 2 ^ 30 / 10 ^ 9)" by (intro f32_mono) simp
  then have "f32 1 \<le> FloatSeconds (2 ^ 30)" using FloatSeconds_grid [of 1 30] by simp
  moreover obtain cmd where "ArmFrame (Plan reads (ac_pending_actions c)) 0 (GetAllQ (tracked [])) = Inr cmd"
    using ArmFrame_no_throw [of "GetAllQ (tracked [])"] length_tracked [of "[]"] by (auto simp: GetAllQ_def)
  ultimately show ?thesis
    using assms(1) f32_int [of 1] f32_dyadic [of 3 2] by (simp add: Finish_def)
qed

lemma short_duration: "pa_duration_seconds a = f32 (50 / 1000) \<Longrightarrow> MaxDuration [(k, a)] = f32 (50 / 1000)"
  using f32_nonneg [of "50 / 1000"] by (simp add: MaxDuration_def max_def)

lemma f32_50_1000: "51 / 1024 \<le> f32 (50 / 1000)" "f32 (50 / 1000) \<le> 13 / 256"
  using f32_mono [of "51 / 1024" "50 / 1000"] f32_mono [of "50 / 1000" "13 / 256"]
    f32_dyadic [of 51 10] f32_dyadic [of 13 8] by simp_all

text \<open>One arm joint sent to one radian in 50 ms.\<close>

definition one_target :: ArmController where
  "one_target = arm_calls [(2, 1, 50)] fresh_arm"

lemma one_target:
  "ac_pending_actions one_target = [(2, \<lparr>pa_target_rad = 1, pa_duration_seconds = f32 (50 / 1000)\<rparr>)]"
  by (simp add: one_target_def arm_calls_def fresh_arm_def ControlArm_def kArmJointStart_def kArmJointEnd_def)

lemma one_target_ok: "queue_ok (ac_pending_actions one_target)"
  using f32_50_1000 by (simp add: one_target queue_ok_def)

lemma one_target_max: "MaxDuration (ac_pending_actions one_target) = f32 (50 / 1000)"
  by (simp add: one_target short_duration)

lemma one_target_stalled:
  "\<exists>cmd. Finish reads [(0, tracked [], w), (2 ^ 30, tracked [], w')] one_target =
    ([cmd], FinishReturned w, one_target\<lparr>ac_pending_actions := []\<rparr>)"
  using Finish_stalled [of one_target] f32_50_1000 by (simp add: one_target_max) (simp add: one_target)

text \<open>A run with readings every 16.8 ms, and what it is like.\<close>

definition paced :: "arm_round list" where
  "paced = map (\<lambda>n. (int n * 2 ^ 24, tracked [], True)) [0..<6]"

lemma paced_nth: "n < 6 \<Longrightarrow> FloatSeconds (fst (paced ! n)) = f32 (real n * 2 ^ 24 / 10 ^ 9)"
  using FloatSeconds_grid [of "int n" 24] by (simp add: paced_def)

lemma paced_step:
  assumes "Suc n < 6"
  shows "FloatSeconds (fst (paced ! Suc n)) \<le> f32 (FloatSeconds (fst (paced ! n)) + f32 (2 / 100))"
proof -
  have "real n * 17 / 1024 = f32 (real n * 17 / 1024)" using f32_dyadic [of "int n * 17" 10] assms by simp
  also have "\<dots> \<le> f32 (real n * 2 ^ 24 / 10 ^ 9)" by (intro f32_mono) simp
  finally have "real (Suc n) * 2 ^ 24 / 10 ^ 9 \<le> f32 (real n * 2 ^ 24 / 10 ^ 9) + f32 (2 / 100)"
    using f32_2_100(1) assms by simp
  then show ?thesis using assms by (simp add: paced_nth f32_mono)
qed

lemma paced_returns: "\<exists>frames c'. Finish reads paced one_target = (frames, FinishReturned True, c')"
proof -
  obtain frames r where loop: "FinishLoop (Plan reads (ac_pending_actions one_target))
      (MaxDuration (ac_pending_actions one_target)) True paced = (frames, r)" by fastforce
  have "finish_limit (f32 (50 / 1000)) \<le> f32 (73 / 1024)"
    using f32_50_1000 f32_2_100 by (intro f32_mono) simp
  moreover have "f32 (83 / 1024) \<le> FloatSeconds (fst (paced ! 5))" by (simp add: paced_nth f32_mono)
  ultimately have "finish_limit (f32 (50 / 1000)) < FloatSeconds (fst (paced ! 5))"
    using f32_dyadic [of 73 10] f32_dyadic [of 83 10] by simp
  moreover have "paced ! 5 \<in> set paced" by (intro nth_mem) (simp add: paced_def)
  ultimately have late: "\<exists>(ns, tr, w) \<in> set paced. finish_limit (f32 (50 / 1000)) < FloatSeconds ns"
    by (auto split: prod.splits intro!: bexI [of _ "paced ! 5"])
  have "\<forall>(ns, tr, w) \<in> set paced. length (lt_joint_positions tr) = 23 \<and> w"
    using length_tracked [of "[]"] by (auto simp: paced_def)
  then have "\<forall>(ns, tr, w) \<in> set paced. length (lt_joint_positions tr) = 23" by auto
  note FinishLoop_returns [OF this, of "Plan reads (ac_pending_actions one_target)"
      "MaxDuration (ac_pending_actions one_target)" True, unfolded one_target_max loop [unfolded one_target_max] snd_conv]
  with late obtain b where b: "r = FinishReturned b" by (cases r) blast+
  from FinishLoop_returned [OF loop [unfolded b]] have "b"
    by (auto simp: paced_def)
  with b loop show ?thesis by (simp add: Finish_def one_target)
qed

subsection \<open>Properties\<close>

text \<open>
  C18. Queueing: after any sequence of \<open>ControlArm\<close> calls on an empty queue, exactly the joints 2 to 9 that
  were named are queued, once each, with the target and duration of the last call that named them, the
  duration raised to 50 ms; calls with other indices have no effect.
\<close>

theorem last_target_wins:
  assumes "ac_pending_actions c = []"
  shows "map_of (ac_pending_actions (arm_calls calls c)) k =
      (case map_of (rev calls) k of
         Some (target, duration) \<Rightarrow>
           if 2 \<le> k \<and> k \<le> 9
           then Some \<lparr>pa_target_rad = target, pa_duration_seconds = f32 (max 50 duration / 1000)\<rparr>
           else None
       | None \<Rightarrow> None)
    \<and> queue_ok (ac_pending_actions (arm_calls calls c))"
  using assms arm_calls_queue_ok [of c calls]
  by (auto simp: arm_calls_map_of queue_ok_def split: option.splits)

theorem last_target_wins_witness:
  "map_of (ac_pending_actions (arm_calls [(2, 1, 100), (12, 3, 100), (2, 1 / 2, 10)] fresh_arm)) 2
     = Some \<lparr>pa_target_rad = 1 / 2, pa_duration_seconds = f32 (50 / 1000)\<rparr>"
  using last_target_wins [of fresh_arm "[(2, 1, 100), (12, 3, 100), (2, 1 / 2, 10)]" 2]
  by (simp add: fresh_arm_def)

text \<open>
  C19. Every frame \<open>Finish\<close> publishes is safe: it is a parallel command for exactly 23 motors, no motor is
  given a velocity or a torque, only the arm joints 2 to 9 are stiff (gains 60 and 3), all others are left
  free, and an arm joint without a target is held at the position just measured.
\<close>

theorem arm_frames_are_safe:
  assumes "Finish reads rounds (arm_calls calls c) = (frames, r, c')" and "ac_pending_actions c = []"
    and "n < length frames" and "i < 23"
  defines "m \<equiv> LowCmd_motor_cmd (frames ! n) ! i"
  shows "LowCmd_cmd_type (frames ! n) = PARALLEL \<and> length (LowCmd_motor_cmd (frames ! n)) = 23
    \<and> MotorCmd_mode m = 0x0A \<and> MotorCmd_dq m = 0 \<and> MotorCmd_tau m = 0
    \<and> (if 2 \<le> i \<and> i \<le> 9 then MotorCmd_kp m = 60 \<and> MotorCmd_kd m = 3
       else MotorCmd_kp m = 0 \<and> MotorCmd_kd m = 0 \<and> MotorCmd_q m = 0)
    \<and> (if 2 \<le> i \<and> i \<le> 9 \<and> map_of (rev calls) (int i) = None
       then MotorCmd_q m = GetAllQ (fst (snd (rounds ! n))) ! i else True)"
proof -
  let ?p = "ac_pending_actions (arm_calls calls c)"
  have ok: "queue_ok ?p" using arm_calls_queue_ok [of c calls] assms(2) by (simp add: queue_ok_def)
  have none: "map_of ?p (int i) = None" if "\<not> (2 \<le> i \<and> i \<le> 9) \<or> map_of (rev calls) (int i) = None"
    using that assms(2) by (auto simp: arm_calls_map_of split: option.splits)
  from Frame_nth [of _ _ _ "frames ! n"] Finish_frame [OF assms(1,3)]
  have frame: "LowCmd_cmd_type (frames ! n) = PARALLEL" "length (LowCmd_motor_cmd (frames ! n)) = 23"
    and motor: "Motor (Plan reads ?p) (FloatSeconds (fst (rounds ! n))) (GetAllQ (fst (snd (rounds ! n)))) i = Inr m"
    using assms(4) unfolding m_def by auto
  from frame Motor_frame [OF motor] Motor_arm [OF motor] Motor_other [OF motor] none
  show ?thesis by (auto simp: map_of_Plan)
qed

theorem arm_frames_are_safe_witness:
  "\<exists>frame. Finish (\<lambda>_. tracked []) [(0, tracked [], True), (2 ^ 30, tracked [], True)] one_target
      = ([frame], FinishReturned True, one_target\<lparr>ac_pending_actions := []\<rparr>)
    \<and> MotorCmd_kp (LowCmd_motor_cmd frame ! 1) = 0 \<and> MotorCmd_kp (LowCmd_motor_cmd frame ! 3) = 60"
proof -
  obtain frame where run: "Finish (\<lambda>_. tracked []) [(0, tracked [], True), (2 ^ 30, tracked [], True)] one_target
      = ([frame], FinishReturned True, one_target\<lparr>ac_pending_actions := []\<rparr>)"
    using one_target_stalled by blast
  from arm_frames_are_safe [OF run [unfolded one_target_def], of 0 1]
    arm_frames_are_safe [OF run [unfolded one_target_def], of 0 3] run
  show ?thesis by (simp add: fresh_arm_def)
qed

text \<open>
  C20. Motion: in every frame a queued joint is commanded to a position between the one read when the
  motion was planned and the final one, which is the target up to the rounding of the interpolation; from
  its duration on it is commanded to the final position.
\<close>

theorem arm_motion_interpolates:
  assumes "Finish reads rounds c = (frames, r, c')" and "queue_ok (ac_pending_actions c)"
    and "map_of (ac_pending_actions c) k = Some a" and "n < length frames" and "0 \<le> fst (rounds ! n)"
    and float: "f32 (GetJointQ k (reads k)) = GetJointQ k (reads k)"
  defines "q \<equiv> MotorCmd_q (LowCmd_motor_cmd (frames ! n) ! nat k)"
    and "start \<equiv> GetJointQ k (reads k)"
    and "final \<equiv> f32 (GetJointQ k (reads k) + f32 (pa_target_rad a - GetJointQ k (reads k)))"
  shows "min start final \<le> q \<and> q \<le> max start final
    \<and> (pa_duration_seconds a \<le> FloatSeconds (fst (rounds ! n)) \<longrightarrow> q = final)"
proof -
  let ?task = "\<lparr>pl_start_q = start, pl_end_q = pa_target_rad a, pl_duration_seconds = pa_duration_seconds a\<rparr>"
  from Finish_joint [OF assms(1,4,2,3)]
  have q: "q = TargetQ (FloatSeconds (fst (rounds ! n))) ?task" and d: "0 < pa_duration_seconds a"
    by (simp_all add: q_def start_def)
  from TargetQ_between [of "FloatSeconds (fst (rounds ! n))" ?task] FloatSeconds_nonneg [OF assms(5)] d float
  show ?thesis using TargetQ_final [of ?task] d by (simp add: q start_def final_def)
qed

theorem arm_motion_interpolates_witness:
  "\<exists>frame c'. Finish (\<lambda>_. tracked []) [(0, tracked [], True), (2 ^ 30, tracked [], True)] one_target
      = ([frame], FinishReturned True, c')
    \<and> 0 \<le> MotorCmd_q (LowCmd_motor_cmd frame ! 2) \<and> MotorCmd_q (LowCmd_motor_cmd frame ! 2) \<le> 1"
proof -
  obtain frame where run: "Finish (\<lambda>_. tracked []) [(0, tracked [], True), (2 ^ 30, tracked [], True)] one_target
      = ([frame], FinishReturned True, one_target\<lparr>ac_pending_actions := []\<rparr>)"
    using one_target_stalled by blast
  have "GetJointQ 2 (tracked []) = 0"
    by (simp add: GetJointQ_def LowStateTracker_init_def kLowLevelJointCount_def kJointCnt_def)
  with arm_motion_interpolates [OF run one_target_ok, of 2 _ 0] run show ?thesis
    using f32_int [of 1] by (auto simp: one_target)
qed

text \<open>
  C21. Arrival: when the rounds of \<open>Finish\<close> are at most 20 ms apart and \<open>Finish\<close> returns, the last frame it
  published commands every queued joint to its final position, and its result is whether every frame was
  written; the queue is empty afterwards.
\<close>

theorem arm_reaches_its_targets:
  assumes "Finish reads rounds c = (frames, FinishReturned b, c')" and "queue_ok (ac_pending_actions c)"
    and "ac_pending_actions c \<noteq> []"
    and "FloatSeconds (fst (rounds ! 0)) \<le> f32 (2 / 100)"
    and pace: "\<And>n. Suc n < length rounds \<Longrightarrow>
      FloatSeconds (fst (rounds ! Suc n)) \<le> f32 (FloatSeconds (fst (rounds ! n)) + f32 (2 / 100))"
  shows "frames \<noteq> []
    \<and> (\<forall>k a. map_of (ac_pending_actions c) k = Some a \<longrightarrow>
        MotorCmd_q (LowCmd_motor_cmd (frames ! (length frames - 1)) ! nat k) =
          f32 (GetJointQ k (reads k) + f32 (pa_target_rad a - GetJointQ k (reads k))))
    \<and> (b \<longleftrightarrow> (\<forall>n < length frames. snd (snd (rounds ! n)))) \<and> ac_pending_actions c' = []"
proof -
  let ?mx = "MaxDuration (ac_pending_actions c)" and ?l = "length frames - 1"
  from FinishLoop_returned [OF Finish_loop [OF assms(1,3)]]
  have late: "length frames < length rounds" "finish_limit ?mx < FloatSeconds (fst (rounds ! length frames))"
    and b: "b \<longleftrightarrow> (\<forall>n < length frames. snd (snd (rounds ! n)))" by auto
  have "f32 (2 / 100) \<le> finish_limit ?mx"
    using f32_mono [of "f32 (2 / 100)" "?mx + f32 (2 / 100)"] MaxDuration_nonneg by simp
  with late assms(4) have ne: "frames \<noteq> []" by (cases frames) auto
  then have l: "?l < length frames" "Suc ?l = length frames" by simp_all
  have arrived: "?mx \<le> FloatSeconds (fst (rounds ! ?l))"
  proof (rule ccontr)
    assume "\<not> ?thesis"
    then have "f32 (FloatSeconds (fst (rounds ! ?l)) + f32 (2 / 100)) \<le> finish_limit ?mx" by (intro f32_mono) simp
    with pace [of ?l] late l show False by simp
  qed
  have "MotorCmd_q (LowCmd_motor_cmd (frames ! ?l) ! nat k) =
      f32 (GetJointQ k (reads k) + f32 (pa_target_rad a - GetJointQ k (reads k)))"
    if "map_of (ac_pending_actions c) k = Some a" for k a
    using Finish_joint [OF assms(1) l(1) assms(2) that] MaxDuration_ge [OF that] arrived
    by (subst TargetQ_final [symmetric, where task = "\<lparr>pl_start_q = GetJointQ k (reads k),
          pl_end_q = pa_target_rad a, pl_duration_seconds = pa_duration_seconds a\<rparr>", simplified])
       auto
  moreover have "ac_pending_actions c' = []"
    using assms(1,3) by (auto simp: Finish_def split: prod.splits FinishResult.splits)
  ultimately show ?thesis using ne b by blast
qed

theorem arm_reaches_its_targets_witness:
  "\<exists>frames c'. Finish (\<lambda>_. tracked []) paced one_target = (frames, FinishReturned True, c')
    \<and> MotorCmd_q (LowCmd_motor_cmd (frames ! (length frames - 1)) ! 2) = 1"
proof -
  obtain frames c' where run: "Finish (\<lambda>_. tracked []) paced one_target = (frames, FinishReturned True, c')"
    using paced_returns by blast
  have "GetJointQ 2 (tracked []) = 0"
    by (simp add: GetJointQ_def LowStateTracker_init_def kLowLevelJointCount_def kJointCnt_def)
  have "ac_pending_actions one_target \<noteq> []" "FloatSeconds (fst (paced ! 0)) \<le> f32 (2 / 100)"
    "length paced = 6"
    using f32_2_100(1) by (simp_all add: one_target paced_def)
  then have "\<forall>k a. map_of (ac_pending_actions one_target) k = Some a \<longrightarrow>
      MotorCmd_q (LowCmd_motor_cmd (frames ! (length frames - 1)) ! nat k) = final_q (GetJointQ k (tracked [])) (pa_target_rad a)"
    using arm_reaches_its_targets [OF run one_target_ok _ _ paced_step] by simp
  from this [rule_format, of 2 "\<lparr>pa_target_rad = 1, pa_duration_seconds = f32 (50 / 1000)\<rparr>"]
  have "MotorCmd_q (LowCmd_motor_cmd (frames ! (length frames - 1)) ! nat 2) = final_q (GetJointQ 2 (tracked [])) 1"
    by (simp add: one_target)
  with run \<open>GetJointQ 2 (tracked []) = 0\<close> f32_int [of 1] show ?thesis by auto
qed

text \<open>
  C22. \<open>Finish\<close> ends: with a tracker that only the listener has changed it never throws, and it returns
  as soon as one round starts after the longest duration and 20 ms.
\<close>

theorem Finish_returns:
  assumes "rounds = map (\<lambda>(ns, ms, w). (ns, tracked ms, w)) observed"
  shows "\<exists>frames r c'. Finish reads rounds c = (frames, r, c') \<and> (\<forall>e. r \<noteq> FinishThrew e)
    \<and> ((\<exists>(ns, ms, w) \<in> set observed. f32 (MaxDuration (ac_pending_actions c) + f32 (2 / 100)) < FloatSeconds ns)
         \<longrightarrow> (\<exists>b. r = FinishReturned b))"
proof -
  obtain frames r where loop: "FinishLoop (Plan reads (ac_pending_actions c)) (MaxDuration (ac_pending_actions c))
    True rounds = (frames, r)" by fastforce
  have "\<forall>(ns, tr, w) \<in> set rounds. length (lt_joint_positions tr) = 23" using assms by auto
  from FinishLoop_returns [OF this, of "Plan reads (ac_pending_actions c)" "MaxDuration (ac_pending_actions c)" True]
  have r: "\<forall>e. r \<noteq> FinishThrew e"
    "(\<exists>(ns, tr, w) \<in> set rounds. finish_limit (MaxDuration (ac_pending_actions c)) < FloatSeconds ns) \<longrightarrow> r \<noteq> FinishRunning"
    by (simp_all add: loop)
  show ?thesis
  proof (cases "ac_pending_actions c = []")
    case False
    then have "\<exists>c'. Finish reads rounds c = (frames, r, c')" by (auto simp: Finish_def loop split: FinishResult.splits)
    moreover have "(\<exists>(ns, ms, w) \<in> set observed. finish_limit (MaxDuration (ac_pending_actions c)) < FloatSeconds ns)
        \<longrightarrow> (\<exists>b. r = FinishReturned b)" (is "?late \<longrightarrow> _")
    proof
      assume ?late
      then have "\<exists>(ns, tr, w) \<in> set rounds. finish_limit (MaxDuration (ac_pending_actions c)) < FloatSeconds ns"
        unfolding assms by force
      with r show "\<exists>b. r = FinishReturned b" by (cases r) auto
    qed
    ultimately show ?thesis using r by blast
  qed (auto simp: Finish_def intro: exI [of _ True])
qed

theorem Finish_returns_witness:
  "\<exists>b c' frames. Finish (\<lambda>_. tracked []) (map (\<lambda>(ns, ms, w). (ns, tracked ms, w)) [(0, [], True), (2 ^ 30, [], True)])
      fresh_arm = (frames, FinishReturned b, c')"
proof -
  have "f32 1 \<le> f32 (of_int 1 * 2 ^ 30 / 10 ^ 9)" by (intro f32_mono) simp
  then have "f32 1 \<le> FloatSeconds (2 ^ 30)" using FloatSeconds_grid [of 1 30] by simp
  then have "f32 (2 / 100) < FloatSeconds (2 ^ 30)" using f32_int [of 1] f32_2_100 by simp
  then show ?thesis
    using Finish_returns [OF refl, of "\<lambda>_. tracked []" "[(0, [], True), (2 ^ 30, [], True)]" fresh_arm]
    by (auto simp: fresh_arm_def MaxDuration_def)
qed

text \<open>
  A stalled \<open>Finish\<close> stops short: when the thread loses the processor for a second, \<open>Finish\<close> reports success although
  the only frame it published commands the joint to the position where it already was.
\<close>

lemma Finish_can_stop_short:
  assumes "2 \<le> k" and "k \<le> 9" and "duration \<le> 400"
    and "c = ControlArm k target duration fresh_arm"
    and "f32 (GetJointQ k (reads k)) = GetJointQ k (reads k)"
  shows "\<exists>frame c'. Finish reads [(0, tracked [], True), (2 ^ 30, tracked [], True)] c
      = ([frame], FinishReturned True, c')
    \<and> MotorCmd_q (LowCmd_motor_cmd frame ! nat k) = GetJointQ k (reads k)"
proof -
  let ?a = "\<lparr>pa_target_rad = target, pa_duration_seconds = f32 (max 50 duration / 1000)\<rparr>"
  have pending: "ac_pending_actions c = [(k, ?a)]"
    using assms(1-4) by (simp add: ControlArm_def fresh_arm_def kArmJointStart_def kArmJointEnd_def)
  have "f32 (max 50 duration / 1000) \<le> f32 (1 / 2)" using assms(3) by (intro f32_mono) (simp add: max_def)
  then have "MaxDuration (ac_pending_actions c) \<le> 1 / 2"
    using f32_dyadic [of 1 1] f32_nonneg [of "max 50 duration / 1000"] by (simp add: pending MaxDuration_def)
  with Finish_stalled [of c reads True True] obtain frame where
    run: "Finish reads [(0, tracked [], True), (2 ^ 30, tracked [], True)] c
      = ([frame], FinishReturned True, c\<lparr>ac_pending_actions := []\<rparr>)" by (auto simp: pending)
  have "queue_ok (ac_pending_actions c)"
    unfolding assms(4) by (rule ControlArm_queue_ok) (simp add: fresh_arm_def queue_ok_def)
  from Finish_joint [OF run _ this, of 0 k ?a]
  have "MotorCmd_q (LowCmd_motor_cmd frame ! nat k) = GetJointQ k (reads k)"
    using assms(5) by (simp add: pending TargetQ_def Progress_def)
  with run show ?thesis by blast
qed

lemma Finish_can_stop_short_witness:
  "\<exists>frame c'. Finish (\<lambda>_. tracked []) [(0, tracked [], True), (2 ^ 30, tracked [], True)]
      (ControlArm 5 1 200 fresh_arm) = ([frame], FinishReturned True, c')
    \<and> MotorCmd_q (LowCmd_motor_cmd frame ! 5) = GetJointQ 5 (tracked [])"
proof -
  have "GetJointQ 5 (tracked []) = 0"
    by (simp add: GetJointQ_def LowStateTracker_init_def kLowLevelJointCount_def kJointCnt_def)
  then show ?thesis
    using Finish_can_stop_short [of 5 200 "ControlArm 5 1 200 fresh_arm" 1 "\<lambda>_. tracked []"] by simp
qed

end
