(* ===== verification/Rtps_Sequence.thy ===== *)
theory Rtps_Sequence
  imports Sdk_Prelude
begin

unbundle bit_operations_syntax

text \<open>
  RTPS sequence numbers (\<open>booster_fastdds/fastdds/rtps/common/SequenceNumber.h\<close>): a signed high and an
  unsigned low half, whose arithmetic and comparisons are written out on the halves.

  The code asserts that the high half neither overflows nor is borrowed from at zero; the definitions
  here wrap instead, and the lemmas state the range in which the halves compute the number they stand
  for.  The order of the code makes the type a \<open>linorder\<close>.
\<close>

datatype SequenceNumber_t = SequenceNumber_t (sn_high: i32) (sn_low: u32)

definition SequenceNumber_new :: SequenceNumber_t where
  "SequenceNumber_new = SequenceNumber_t 0 0"

definition SequenceNumber_of_u64 :: "u64 \<Rightarrow> SequenceNumber_t" where
  "SequenceNumber_of_u64 u = SequenceNumber_t (ucast (drop_bit 32 u)) (ucast u)"

definition to64long :: "SequenceNumber_t \<Rightarrow> u64" where
  "to64long sn = push_bit 32 (scast (sn_high sn)) + ucast (sn_low sn)"

definition SequenceNumber_unknown :: SequenceNumber_t where
  "SequenceNumber_unknown = SequenceNumber_t (- 1) 0"

definition sn_incr :: "SequenceNumber_t \<Rightarrow> SequenceNumber_t" where
  "sn_incr sn =
     (let low = sn_low sn + 1
      in SequenceNumber_t (if low = 0 then sn_high sn + 1 else sn_high sn) low)"

text \<open>The postfix increment returns the old value and the new state.\<close>

definition sn_post_incr :: "SequenceNumber_t \<Rightarrow> SequenceNumber_t \<times> SequenceNumber_t" where
  "sn_post_incr sn = (let result = sn in (result, sn_incr sn))"

definition sn_add_int :: "SequenceNumber_t \<Rightarrow> i32 \<Rightarrow> SequenceNumber_t" where
  "sn_add_int sn inc =
     (let aux_low = sn_low sn; low = aux_low + inc
      in SequenceNumber_t (if low < aux_low then sn_high sn + 1 else sn_high sn) low)"

definition sn_eq :: "SequenceNumber_t \<Rightarrow> SequenceNumber_t \<Rightarrow> bool" where
  "sn_eq sn1 sn2 \<longleftrightarrow> sn_low sn1 = sn_low sn2 \<and> sn_high sn1 = sn_high sn2"

definition sn_neq :: "SequenceNumber_t \<Rightarrow> SequenceNumber_t \<Rightarrow> bool" where
  "sn_neq sn1 sn2 \<longleftrightarrow> sn_low sn1 \<noteq> sn_low sn2 \<or> sn_high sn1 \<noteq> sn_high sn2"

definition sn_greater :: "SequenceNumber_t \<Rightarrow> SequenceNumber_t \<Rightarrow> bool" where
  "sn_greater seq1 seq2 \<longleftrightarrow>
     (if sn_high seq1 = sn_high seq2 then sn_low seq1 > sn_low seq2
      else sint (sn_high seq1) > sint (sn_high seq2))"

definition sn_less :: "SequenceNumber_t \<Rightarrow> SequenceNumber_t \<Rightarrow> bool" where
  "sn_less seq1 seq2 \<longleftrightarrow>
     (if sn_high seq1 = sn_high seq2 then sn_low seq1 < sn_low seq2
      else sint (sn_high seq1) < sint (sn_high seq2))"

definition sn_greater_eq :: "SequenceNumber_t \<Rightarrow> SequenceNumber_t \<Rightarrow> bool" where
  "sn_greater_eq seq1 seq2 \<longleftrightarrow>
     (if sn_high seq1 = sn_high seq2 then sn_low seq1 \<ge> sn_low seq2
      else sint (sn_high seq1) > sint (sn_high seq2))"

definition sn_less_eq :: "SequenceNumber_t \<Rightarrow> SequenceNumber_t \<Rightarrow> bool" where
  "sn_less_eq seq1 seq2 \<longleftrightarrow>
     (if sn_high seq1 = sn_high seq2 then sn_low seq1 \<le> sn_low seq2
      else sint (sn_high seq1) < sint (sn_high seq2))"

definition sort_seqNum :: "SequenceNumber_t \<Rightarrow> SequenceNumber_t \<Rightarrow> bool" where
  "sort_seqNum s1 s2 \<longleftrightarrow> sn_less s1 s2"

definition sn_sub :: "SequenceNumber_t \<Rightarrow> u32 \<Rightarrow> SequenceNumber_t" where
  "sn_sub seq inc =
     SequenceNumber_t (if inc > sn_low seq then sn_high seq - 1 else sn_high seq) (sn_low seq - inc)"

definition sn_add :: "SequenceNumber_t \<Rightarrow> u32 \<Rightarrow> SequenceNumber_t" where
  "sn_add seq inc =
     (let low = sn_low seq + inc
      in SequenceNumber_t (if low < sn_low seq then sn_high seq + 1 else sn_high seq) low)"

definition sn_minus :: "SequenceNumber_t \<Rightarrow> SequenceNumber_t \<Rightarrow> SequenceNumber_t" where
  "sn_minus minuend subtrahend =
     (let high = sn_high minuend - sn_high subtrahend
      in SequenceNumber_t (if sn_low minuend < sn_low subtrahend then high - 1 else high)
           (sn_low minuend - sn_low subtrahend))"

definition SequenceNumberDiff :: "SequenceNumber_t \<Rightarrow> SequenceNumber_t \<Rightarrow> u32" where
  "SequenceNumberDiff a b = sn_low (sn_minus a b)"

definition SequenceNumberHash :: "SequenceNumber_t \<Rightarrow> u64" where
  "SequenceNumberHash sequence_number = to64long sequence_number"

subsection \<open>The number the halves stand for\<close>

definition sn_val :: "SequenceNumber_t \<Rightarrow> int" where
  "sn_val sn = sint (sn_high sn) * 2 ^ 32 + uint (sn_low sn)"

lemma uint_u32: "0 \<le> uint (w :: u32)" "uint w < 2 ^ 32"
  using uint_lt2p [of w] by simp_all

lemma sint_i32: "- (2 ^ 31) \<le> sint (w :: i32)" "sint w < 2 ^ 31"
  using sint_greater_eq [of w] sint_less [of w] by simp_all

lemma halves:
  fixes h h' l l' :: int
  assumes l: "0 \<le> l" "l < 4294967296" "0 \<le> l'" "l' < 4294967296" and "h \<noteq> h'"
  shows "h * 4294967296 + l \<le> h' * 4294967296 + l' \<longleftrightarrow> h < h'"
    and "h * 4294967296 + l < h' * 4294967296 + l' \<longleftrightarrow> h < h'"
proof -
  have "h * 4294967296 + l < h' * 4294967296 + l'" if "h < h'" using that l by linarith
  moreover have "h' * 4294967296 + l' < h * 4294967296 + l" if "h' < h" using that l by linarith
  ultimately show "h * 4294967296 + l \<le> h' * 4294967296 + l' \<longleftrightarrow> h < h'"
    and "h * 4294967296 + l < h' * 4294967296 + l' \<longleftrightarrow> h < h'"
    using assms(5) by (metis linorder_neqE_linordered_idom less_imp_le not_less)+
qed

lemma sn_val_eq: "sn_val sn = sint (sn_high sn) * 4294967296 + uint (sn_low sn)"
  by (simp add: sn_val_def)

lemma sn_val_bounds: "- (2 ^ 63) \<le> sn_val sn" "sn_val sn < 2 ^ 63"
proof -
  have *: "- 2147483648 \<le> sint (sn_high sn)" "sint (sn_high sn) < 2147483648" using sint_i32 [of "sn_high sn"] by simp_all
  have "0 \<le> uint (sn_low sn)" "uint (sn_low sn) < 4294967296" using uint_u32 [of "sn_low sn"] by simp_all
  with * have "- 9223372036854775808 \<le> sn_val sn" "sn_val sn < 9223372036854775808" unfolding sn_val_eq by linarith+
  then show "- (2 ^ 63) \<le> sn_val sn" "sn_val sn < 2 ^ 63" by simp_all
qed

lemma sn_val_high: "sint (sn_high sn) = sn_val sn div 2 ^ 32"
  using uint_u32 [of "sn_low sn"] by (simp add: sn_val_def)

lemma sn_val_low: "uint (sn_low sn) = sn_val sn mod 2 ^ 32"
  using uint_u32 [of "sn_low sn"] by (simp add: sn_val_def mod_mult_self3)

lemma sn_val_inj: "sn_val a = sn_val b \<longleftrightarrow> a = b"
  by (metis SequenceNumber_t.expand sn_val_high sn_val_low word_uint_eqI signed_word_eqI)

lemma sn_less_eq_val: "sn_less_eq a b \<longleftrightarrow> sn_val a \<le> sn_val b"
proof (cases "sn_high a = sn_high b")
  case True
  then show ?thesis by (simp add: sn_less_eq_def sn_val_def word_le_def)
next
  case False
  then have "sint (sn_high a) \<noteq> sint (sn_high b)" using signed_word_eqI by blast
  with False show ?thesis by (simp add: sn_less_eq_def sn_val_eq halves(1) uint_u32 [simplified])
qed

lemma sn_less_val: "sn_less a b \<longleftrightarrow> sn_val a < sn_val b"
proof (cases "sn_high a = sn_high b")
  case True
  then show ?thesis by (simp add: sn_less_def sn_val_def word_less_def)
next
  case False
  then have "sint (sn_high a) \<noteq> sint (sn_high b)" using signed_word_eqI by blast
  with False show ?thesis by (simp add: sn_less_def sn_val_eq halves(2) uint_u32 [simplified])
qed

lemma sn_greater_less: "sn_greater a b = sn_less b a"
  by (auto simp: sn_greater_def sn_less_def)

lemma sn_greater_eq_less_eq: "sn_greater_eq a b = sn_less_eq b a"
  by (auto simp: sn_greater_eq_def sn_less_eq_def)

lemma sn_eq_eq [simp]: "sn_eq a b \<longleftrightarrow> a = b"
  by (auto simp: sn_eq_def intro: SequenceNumber_t.expand)

instantiation SequenceNumber_t :: linorder
begin

definition less_eq_SequenceNumber_t :: "SequenceNumber_t \<Rightarrow> SequenceNumber_t \<Rightarrow> bool" where
  "less_eq_SequenceNumber_t = sn_less_eq"

definition less_SequenceNumber_t :: "SequenceNumber_t \<Rightarrow> SequenceNumber_t \<Rightarrow> bool" where
  "less_SequenceNumber_t = sn_less"

instance
  by standard
    (auto simp: less_eq_SequenceNumber_t_def less_SequenceNumber_t_def sn_less_eq_val sn_less_val
      simp flip: sn_val_inj)

end

lemma sn_le_iff: "(a :: SequenceNumber_t) \<le> b \<longleftrightarrow> sn_val a \<le> sn_val b"
  by (simp add: less_eq_SequenceNumber_t_def sn_less_eq_val)

lemma sn_less_iff: "(a :: SequenceNumber_t) < b \<longleftrightarrow> sn_val a < sn_val b"
  by (simp add: less_SequenceNumber_t_def sn_less_val)

subsection \<open>Arithmetic\<close>

lemma sint_add_range: "- (2 ^ 31) \<le> sint x + sint y \<Longrightarrow> sint x + sint y < 2 ^ 31 \<Longrightarrow> sint ((x :: i32) + y) = sint x + sint y"
  by (simp add: sint_word_ariths signed_take_bit_int_eq_self)

lemma sint_sub_range: "- (2 ^ 31) \<le> sint x - sint y \<Longrightarrow> sint x - sint y < 2 ^ 31 \<Longrightarrow> sint ((x :: i32) - y) = sint x - sint y"
  by (simp add: sint_word_ariths signed_take_bit_int_eq_self)

lemma uint_add_u32:
  "uint ((x :: u32) + y) = (if uint x + uint y < 4294967296 then uint x + uint y else uint x + uint y - 4294967296)"
  by (simp add: uint_plus_if')

lemma uint_sub_u32:
  "uint ((x :: u32) - y) = (if uint y \<le> uint x then uint x - uint y else uint x - uint y + 4294967296)"
  by (simp add: uint_sub_if')

text \<open>As long as the sum is a sequence number, adding on the halves adds.\<close>

lemma sn_add_val:
  assumes "sn_val a + uint n < 2 ^ 63"
  shows "sn_val (sn_add a n) = sn_val a + uint n"
proof -
  have n: "0 \<le> uint n" "uint n < 4294967296" using uint_u32 [of n] by simp_all
  have l: "0 \<le> uint (sn_low a)" "uint (sn_low a) < 4294967296" using uint_u32 [of "sn_low a"] by simp_all
  show ?thesis
  proof (cases "uint (sn_low a) + uint n < 4294967296")
    case True
    then show ?thesis using n by (simp add: sn_add_def sn_val_eq word_less_def uint_add_u32 Let_def)
  next
    case False
    have "sn_val a + uint n < 9223372036854775808" using assms by simp
    then have "sint (sn_high a) + 1 < 2147483648" using False l n unfolding sn_val_eq by linarith
    then have "sint (sn_high a + 1) = sint (sn_high a) + 1"
      using sint_i32(1) [of "sn_high a"] by (subst sint_add_range) simp_all
    then show ?thesis using False n l by (simp add: sn_add_def sn_val_eq word_less_def uint_add_u32 Let_def)
  qed
qed

lemma sn_incr_add: "sn_incr a = sn_add a 1"
proof -
  have "0 \<le> uint (sn_low a)" "uint (sn_low a) < 4294967296" using uint_u32 [of "sn_low a"] by simp_all
  then have "uint (sn_low a + 1) = 0 \<longleftrightarrow> uint (sn_low a + 1) < uint (sn_low a)"
    unfolding uint_add_u32 by (simp, linarith)
  then have "sn_low a + 1 = 0 \<longleftrightarrow> sn_low a + 1 < sn_low a" by (simp add: word_less_def word_uint_eq_iff)
  then show ?thesis by (auto simp: sn_incr_def sn_add_def Let_def)
qed

lemma sn_add_int_add: "sn_add_int a n = sn_add a n"
  by (simp add: sn_add_int_def sn_add_def Let_def)

text \<open>The difference of ordered sequence numbers, and the subtraction of a count.\<close>

lemma sn_sub_val:
  assumes "- (2 ^ 63) \<le> sn_val a - uint n"
  shows "sn_val (sn_sub a n) = sn_val a - uint n"
proof -
  have n: "0 \<le> uint n" "uint n < 4294967296" using uint_u32 [of n] by simp_all
  have l: "0 \<le> uint (sn_low a)" "uint (sn_low a) < 4294967296" using uint_u32 [of "sn_low a"] by simp_all
  show ?thesis
  proof (cases "uint n \<le> uint (sn_low a)")
    case True
    then show ?thesis by (simp add: sn_sub_def sn_val_eq word_less_def uint_sub_u32)
  next
    case False
    have "- 9223372036854775808 \<le> sn_val a - uint n" using assms by simp
    then have "- 2147483648 \<le> sint (sn_high a) - 1" using False l n unfolding sn_val_eq by linarith
    then have "sint (sn_high a - 1) = sint (sn_high a) - 1"
      using sint_i32(2) [of "sn_high a"] by (subst sint_sub_range) simp_all
    then show ?thesis using False by (simp add: sn_sub_def sn_val_eq word_less_def uint_sub_u32)
  qed
qed

lemma sn_minus_mod: "\<exists>k. sn_val (sn_minus a b) = sn_val a - sn_val b + 18446744073709551616 * k"
proof -
  have l: "uint (sn_low (sn_minus a b)) = uint (sn_low a) - uint (sn_low b)
      + (if sn_low a < sn_low b then 4294967296 else 0)"
    by (simp add: sn_minus_def uint_sub_u32 word_less_def Let_def)
  have "sint (sn_high (sn_minus a b)) mod 4294967296
      = (sint (sn_high a) - sint (sn_high b) - (if sn_low a < sn_low b then 1 else 0)) mod 4294967296"
    by (auto simp: sn_minus_def Let_def sint_word_ariths signed_take_bit_eq_take_bit_shift take_bit_eq_mod mod_simps)
  then obtain k where "sint (sn_high (sn_minus a b))
      = sint (sn_high a) - sint (sn_high b) - (if sn_low a < sn_low b then 1 else 0) + 4294967296 * k"
    by (metis mod_eqE mult.commute)
  with l have "sn_val (sn_minus a b) = sn_val a - sn_val b + 18446744073709551616 * k"
    unfolding sn_val_eq by (simp split: if_splits)
  then show ?thesis by blast
qed

lemma sn_minus_val:
  assumes "sn_val b \<le> sn_val a" and "sn_val a - sn_val b < 2 ^ 63"
  shows "sn_val (sn_minus a b) = sn_val a - sn_val b"
proof -
  obtain k where k: "sn_val (sn_minus a b) = sn_val a - sn_val b + 18446744073709551616 * k"
    using sn_minus_mod by blast
  have "- 9223372036854775808 \<le> sn_val (sn_minus a b)" "sn_val (sn_minus a b) < 9223372036854775808"
    using sn_val_bounds [of "sn_minus a b"] by simp_all
  moreover have "0 \<le> sn_val a - sn_val b" "sn_val a - sn_val b < 9223372036854775808" using assms by simp_all
  ultimately have "k < 1" "- 1 < k" using k by linarith+
  then have "k = 0" by simp
  with k show ?thesis by simp
qed

lemma SequenceNumberDiff_val:
  assumes "sn_val b \<le> sn_val a" and "sn_val a - sn_val b < 2 ^ 32"
  shows "uint (SequenceNumberDiff a b) = sn_val a - sn_val b"
  using sn_minus_val [of b a] assms sn_val_low [of "sn_minus a b"] by (simp add: SequenceNumberDiff_def)

lemma bit_u32D: "bit (w :: 32 word) n \<Longrightarrow> n < 32"
  using bit_imp_le_length [of w n] by simp

lemma to64long_or:
  "to64long a = push_bit 32 (scast (sn_high a)) OR ucast (sn_low a)"
proof -
  have "push_bit 32 (scast (sn_high a)) AND ucast (sn_low a) = (0 :: u64)"
    by (rule bit_word_eqI) (auto simp: bit_simps dest!: bit_u32D)
  then show ?thesis unfolding to64long_def by (rule disjunctive_add_eq_or)
qed

lemma of_u64_to64long: "SequenceNumber_of_u64 (to64long a) = a"
proof (rule SequenceNumber_t.expand)
  have "sn_high (SequenceNumber_of_u64 (to64long a)) = sn_high a"
    by (rule bit_word_eqI) (auto simp: SequenceNumber_of_u64_def to64long_or bit_simps dest: bit_u32D)
  moreover have "sn_low (SequenceNumber_of_u64 (to64long a)) = sn_low a"
    by (rule bit_word_eqI) (auto simp: SequenceNumber_of_u64_def to64long_or bit_simps)
  ultimately show "sn_high (SequenceNumber_of_u64 (to64long a)) = sn_high a
      \<and> sn_low (SequenceNumber_of_u64 (to64long a)) = sn_low a" ..
qed

lemma to64long_of_u64: "to64long (SequenceNumber_of_u64 u) = u"
proof (rule bit_word_eqI)
  fix n :: nat
  assume "n < LENGTH(64)"
  then show "bit (to64long (SequenceNumber_of_u64 u)) n = bit u n"
    by (cases "n < 32") (auto simp: SequenceNumber_of_u64_def to64long_or bit_simps)
qed

lemma to64long_word: "to64long a = word_of_int (sn_val a)"
proof -
  have "to64long a = of_int (sint (sn_high a)) * 2 ^ 32 + of_int (uint (sn_low a))"
    unfolding to64long_def push_bit_eq_mult by (simp only: of_int_sint of_int_uint)
  also have "2 ^ 32 = (of_int 4294967296 :: u64)" by simp
  finally show ?thesis unfolding sn_val_eq by (simp only: of_int_add of_int_mult)
qed

lemma to64long_val: "0 \<le> sn_val a \<Longrightarrow> uint (to64long a) = sn_val a"
  using sn_val_bounds [of a] by (simp add: to64long_word uint_word_of_int)

subsection \<open>Property\<close>

text \<open>A count that is an \<open>int\<close> and not negative is the same number as a \<open>uint32_t\<close>.\<close>

lemma uint_nonneg_i32: "0 \<le> sint (k :: i32) \<Longrightarrow> uint k = sint k"
  using sint_i32 [of k] uint_sint [of k] by (simp add: take_bit_int_eq_self)

lemma sn_eq_val: "sn_eq a b \<longleftrightarrow> sn_val a = sn_val b"
  by (simp add: sn_val_inj)

lemma sn_neq_val: "sn_neq a b \<longleftrightarrow> sn_val a \<noteq> sn_val b"
  by (auto simp: sn_neq_def sn_val_inj intro: SequenceNumber_t.expand)

lemma sn_greater_val: "sn_greater a b \<longleftrightarrow> sn_val b < sn_val a"
  by (simp add: sn_greater_less sn_less_val)

lemma sn_greater_eq_val: "sn_greater_eq a b \<longleftrightarrow> sn_val b \<le> sn_val a"
  by (simp add: sn_greater_eq_less_eq sn_less_eq_val)

lemmas sn_comparison_vals =
  sn_eq_val sn_neq_val sn_less_val sn_less_eq_val sn_greater_val sn_greater_eq_val

lemma sn_incr_val: "sn_val a + 1 < 2 ^ 63 \<Longrightarrow> sn_val (sn_incr a) = sn_val a + 1"
  using sn_add_val [of a 1] by (simp add: sn_incr_add)

lemma sn_add_int_val:
  "0 \<le> sint k \<Longrightarrow> sn_val a + sint k < 2 ^ 63 \<Longrightarrow> sn_val (sn_add_int a k) = sn_val a + sint k"
  using sn_add_val [of a k] by (simp only: sn_add_int_add uint_nonneg_i32)



end
