(* ===== verification/Bitmap_Range.thy ===== *)
theory Bitmap_Range
  imports Rtps_Sequence
begin

text \<open>
  \<open>BitmapRange\<close> (\<open>booster_fastdds/fastrtps/utils/fixed_size_bitmap.hpp\<close>), the set type of RTPS
  acknowledgements: a window of \<open>NBITS = 256\<close> items from a base on, as eight 32-bit words, most significant bit
  first, and the number of significant bits.

  The template is polymorphic: the item type is a \<open>linorder\<close>, and \<open>ItemOps\<close> holds its sum with a count
  and the difference functor.  The contract of these is the locale \<open>range_item\<close>, interpreted on sequence
  numbers (\<open>SequenceNumberSet_t\<close>) and on \<open>uint32_t\<close> (\<open>FragmentNumberSet_t\<close>).  \<open>br_elems\<close> is the set of
  item positions a range stands for; the lemmas show that each operation implements the set operation.
\<close>

unbundle bit_operations_syntax

definition NBITS :: nat where "NBITS = 256"
definition NITEMS :: nat where "NITEMS = 8"

record 't ItemOps =
  item_plus :: "'t \<Rightarrow> u32 \<Rightarrow> 't"
  item_diff :: "'t \<Rightarrow> 't \<Rightarrow> u32"

record 't BitmapRange =
  br_base :: 't
  br_range_max :: 't
  br_bitmap :: "u32 list"
  br_num_bits :: u32

definition BitmapRange_new :: "'t ItemOps \<Rightarrow> 't \<Rightarrow> u32 \<Rightarrow> 't BitmapRange" where
  "BitmapRange_new ops base max_bits =
     \<lparr>br_base = base, br_range_max = item_plus ops base (min max_bits (of_nat NBITS - 1)),
      br_bitmap = replicate NITEMS 0, br_num_bits = 0\<rparr>"

definition BitmapRange_of_base :: "'t ItemOps \<Rightarrow> 't \<Rightarrow> 't BitmapRange" where
  "BitmapRange_of_base ops base = BitmapRange_new ops base (of_nat NBITS - 1)"

definition br_set_base :: "'t ItemOps \<Rightarrow> 't \<Rightarrow> 't BitmapRange \<Rightarrow> 't BitmapRange" where
  "br_set_base ops base r =
     r\<lparr>br_base := base, br_range_max := item_plus ops base (of_nat NBITS - 1), br_num_bits := 0,
       br_bitmap := replicate NITEMS 0\<rparr>"

definition br_set_base_max :: "'t ItemOps \<Rightarrow> 't \<Rightarrow> u32 \<Rightarrow> 't BitmapRange \<Rightarrow> 't BitmapRange" where
  "br_set_base_max ops base max_bits r =
     r\<lparr>br_base := base, br_range_max := item_plus ops base (min max_bits (of_nat NBITS - 1)),
       br_num_bits := 0, br_bitmap := replicate NITEMS 0\<rparr>"

definition br_empty :: "'t BitmapRange \<Rightarrow> bool" where
  "br_empty r \<longleftrightarrow> br_num_bits r = 0"

definition br_max :: "'t ItemOps \<Rightarrow> 't BitmapRange \<Rightarrow> 't" where
  "br_max ops r = item_plus ops (br_base r) (br_num_bits r - 1)"

text \<open>\<open>__builtin_clz\<close>: the number of leading zeroes of a word that is not zero.\<close>

definition clz :: "u32 \<Rightarrow> nat" where
  "clz w = length (takeWhile (\<lambda>i. \<not> bit w (31 - i)) [0..<32])"

text \<open>The number of words in use, and the smallest item: the first set bit of the first word that has one.\<close>

definition n_longs :: "u32 \<Rightarrow> nat" where
  "n_longs num_bits = unat (drop_bit 5 (num_bits + 31))"

fun MinFrom :: "'t ItemOps \<Rightarrow> 't \<Rightarrow> u32 list \<Rightarrow> 't option" where
  "MinFrom ops item [] = None"
| "MinFrom ops item (bits # rest) =
     (if bits \<noteq> 0 then Some (item_plus ops item (of_nat (clz bits)))
      else MinFrom ops (item_plus ops item 32) rest)"

definition br_min :: "'t ItemOps \<Rightarrow> 't BitmapRange \<Rightarrow> 't" where
  "br_min ops r =
     (case MinFrom ops (br_base r) (take (n_longs (br_num_bits r)) (br_bitmap r)) of
        Some item \<Rightarrow> item
      | None \<Rightarrow> br_base r)"

subsection \<open>Membership, insertion, removal\<close>

definition word_pos :: "u32 \<Rightarrow> nat" where
  "word_pos diff = unat (drop_bit 5 diff)"

definition word_mask :: "u32 \<Rightarrow> u32" where
  "word_mask diff = push_bit (unat (31 - (diff AND 31))) 1"

definition is_set :: "('t :: linorder) ItemOps \<Rightarrow> 't \<Rightarrow> 't BitmapRange \<Rightarrow> bool" where
  "is_set ops item r \<longleftrightarrow>
     item \<ge> br_base r \<and> br_range_max r \<ge> item
     \<and> (let diff = item_diff ops item (br_base r)
        in diff < br_num_bits r \<and> (br_bitmap r ! word_pos diff) AND word_mask diff \<noteq> 0)"

definition br_add :: "('t :: linorder) ItemOps \<Rightarrow> 't \<Rightarrow> 't BitmapRange \<Rightarrow> 't BitmapRange \<times> bool" where
  "br_add ops item r =
     (if item \<ge> br_base r \<and> br_range_max r \<ge> item
      then let diff = item_diff ops item (br_base r); pos = word_pos diff
           in (r\<lparr>br_num_bits := max (diff + 1) (br_num_bits r),
                 br_bitmap := (br_bitmap r)[pos := br_bitmap r ! pos OR word_mask diff]\<rparr>, True)
      else (r, False))"

text \<open>
  \<open>calc_maximum_bit_set\<close>: the words from \<open>starting_index - 1\<close> down to \<open>min_index\<close> are searched for one that
  is not zero; \<open>bits & ~(bits - 1)\<close> keeps its last bit.
\<close>

fun calc_maximum_bit_set :: "u32 list \<Rightarrow> nat \<Rightarrow> nat \<Rightarrow> u32" where
  "calc_maximum_bit_set bitmap 0 min_index = 0"
| "calc_maximum_bit_set bitmap (Suc i) min_index =
     (if min_index < Suc i then
        let bits = bitmap ! i in
        if bits \<noteq> 0 then push_bit 5 (of_nat i) + (of_nat (clz (bits AND NOT (bits - 1))) + 1)
        else calc_maximum_bit_set bitmap i min_index
      else 0)"

text \<open>\<open>remove\<close>: \<open>None\<close> is an access outside the array.\<close>

definition br_remove :: "('t :: linorder) ItemOps \<Rightarrow> 't \<Rightarrow> 't BitmapRange \<Rightarrow> 't BitmapRange option" where
  "br_remove ops item r =
     (let max_value = br_max ops r in
      if item \<ge> br_base r \<and> max_value \<ge> item
      then let diff = item_diff ops item (br_base r); pos = word_pos diff in
           if NITEMS \<le> pos then None
           else
             let bitmap = (br_bitmap r)[pos := br_bitmap r ! pos AND NOT (word_mask diff)] in
             Some (r\<lparr>br_bitmap := bitmap,
                     br_num_bits := (if item = max_value then calc_maximum_bit_set bitmap (pos + 1) 0
                                     else br_num_bits r)\<rparr>)
      else Some r)"

subsection \<open>Insertion of an interval\<close>

text \<open>
  The loop of \<open>add_range\<close> over whole words and the last partial word.  \<open>bits_in_mask\<close> is never zero, the
  test only makes the recursion visibly end.
\<close>

fun AddMasks :: "u32 list \<Rightarrow> nat \<Rightarrow> u32 \<Rightarrow> nat \<Rightarrow> nat \<Rightarrow> u32 list" where
  "AddMasks bitmap pos msk bits_in_mask n_bits =
     (if bits_in_mask \<le> n_bits \<and> 0 < bits_in_mask
      then AddMasks (bitmap[pos := bitmap ! pos OR msk]) (Suc pos) (NOT 0) 32 (n_bits - bits_in_mask)
      else if 0 < n_bits
      then bitmap[pos := bitmap ! pos OR (msk AND push_bit (bits_in_mask - n_bits) (NOT 0))]
      else bitmap)"

declare AddMasks.simps [simp del]

definition br_add_range :: "('t :: linorder) ItemOps \<Rightarrow> 't \<Rightarrow> 't \<Rightarrow> 't BitmapRange \<Rightarrow> 't BitmapRange" where
  "br_add_range ops from to r =
     (let lo = (if br_base r \<ge> from then br_base r else from);
          limit = item_plus ops (br_base r) (of_nat NBITS);
          hi = (if to \<ge> limit then limit else to)
      in if lo \<ge> hi then r
         else
           let offset = item_diff ops lo (br_base r); n_bits = item_diff ops hi lo
           in r\<lparr>br_num_bits := max (br_num_bits r) (offset + n_bits),
                br_bitmap := AddMasks (br_bitmap r) (word_pos offset)
                  (drop_bit (unat (offset AND 31)) (NOT 0)) (unat (32 - (offset AND 31))) (unat n_bits)\<rparr>)"

subsection \<open>Moving the window\<close>

text \<open>
  The content moves towards the base.  A distance of whole words copies words; otherwise a forward loop
  joins the parts of two neighbouring words, in place.
\<close>

definition ShiftLeftWords :: "nat \<Rightarrow> nat \<Rightarrow> u32 list \<Rightarrow> u32 list" where
  "ShiftLeftWords n_items n_bits bitmap =
     (let last_index = NITEMS - 1; overflow_bits = 32 - n_bits;
          moved = foldl (\<lambda>b i. b[i := push_bit n_bits (b ! (i + n_items)) OR
                                       drop_bit overflow_bits (b ! (i + n_items + 1))])
                    bitmap [0..<last_index - n_items];
          closed = moved[last_index - n_items := push_bit n_bits (moved ! last_index)]
      in take (NITEMS - n_items) closed @ replicate n_items 0)"

definition shift_map_left :: "u32 \<Rightarrow> 't BitmapRange \<Rightarrow> 't BitmapRange" where
  "shift_map_left n_bits r =
     (if n_bits \<ge> br_num_bits r then r\<lparr>br_num_bits := 0, br_bitmap := replicate NITEMS 0\<rparr>
      else
        let n_items = unat (drop_bit 5 n_bits); rest = unat (n_bits AND 31) in
        r\<lparr>br_num_bits := br_num_bits r - n_bits,
          br_bitmap :=
            (if rest = 0 then drop n_items (br_bitmap r) @ replicate n_items 0
             else ShiftLeftWords n_items rest (br_bitmap r))\<rparr>)"

text \<open>Away from the base, backwards.\<close>

definition ShiftRightWords :: "nat \<Rightarrow> nat \<Rightarrow> u32 list \<Rightarrow> u32 list" where
  "ShiftRightWords n_items n_bits bitmap =
     (let last_index = NITEMS - 1; overflow_bits = 32 - n_bits;
          moved = foldl (\<lambda>b n. b[n + n_items := drop_bit n_bits (b ! n) OR
                                                 push_bit overflow_bits (b ! (n - 1))])
                    bitmap (rev [1..<Suc (last_index - n_items)]);
          closed = moved[n_items := drop_bit n_bits (moved ! 0)]
      in replicate n_items 0 @ drop n_items closed)"

definition shift_map_right :: "u32 \<Rightarrow> 't BitmapRange \<Rightarrow> 't BitmapRange" where
  "shift_map_right n_bits r =
     (if n_bits \<ge> of_nat NBITS then r\<lparr>br_num_bits := 0, br_bitmap := replicate NITEMS 0\<rparr>
      else
        let new_num_bits = br_num_bits r + n_bits;
            find_new_max = new_num_bits > of_nat NBITS;
            n_items = unat (drop_bit 5 n_bits); rest = unat (n_bits AND 31);
            bitmap = (if rest = 0 then replicate n_items 0 @ take (NITEMS - n_items) (br_bitmap r)
                      else ShiftRightWords n_items rest (br_bitmap r))
        in r\<lparr>br_bitmap := bitmap,
             br_num_bits := (if find_new_max then calc_maximum_bit_set bitmap NITEMS n_items
                             else new_num_bits)\<rparr>)"

definition base_update :: "('t :: linorder) ItemOps \<Rightarrow> 't \<Rightarrow> 't BitmapRange \<Rightarrow> 't BitmapRange" where
  "base_update ops base r =
     (if base = br_base r then r
      else
        let r' = (if base > br_base r then shift_map_left (item_diff ops base (br_base r)) r
                  else shift_map_right (item_diff ops (br_base r) base) r)
        in r'\<lparr>br_base := base, br_range_max := item_plus ops base (of_nat NBITS - 1)\<rparr>)"

subsection \<open>Iteration and the wire form\<close>

text \<open>
  The items of one word: the loop clears the most significant bit until no bit is left, and visits
  \<open>item + offset\<close>.  Clearing makes the word smaller.
\<close>

lemma clz_spec: "w \<noteq> 0 \<Longrightarrow> clz w < 32 \<and> bit w (31 - clz w) \<and> (\<forall>j < clz w. \<not> bit w (31 - j))"
proof -
  assume "w \<noteq> 0"
  let ?ts = "takeWhile (\<lambda>i. \<not> bit w (31 - i)) [0..<32]"
  obtain n where n: "bit w n" using \<open>w \<noteq> 0\<close> by (metis bit_0_eq bit_eqI bot_apply bot_bool_def)
  then have "n < 32" by (rule bit_u32D)
  have len: "length ?ts < 32"
  proof (rule ccontr)
    assume "\<not> ?thesis"
    then have "?ts = [0..<32]" using length_takeWhile_le [of "\<lambda>i. \<not> bit w (31 - i)" "[0..<32]"]
      by (metis (no_types, lifting) le_neq_implies_less length_upt minus_nat.diff_0 takeWhile_eq_take take_all order_refl)
    then have "\<forall>i \<in> set [0..<32]. \<not> bit w (31 - i)" by (metis (no_types, lifting) set_takeWhileD)
    moreover have "31 - n \<in> set [0..<32]" using \<open>n < 32\<close> by simp
    ultimately have "\<not> bit w (31 - (31 - n))" by blast
    with n \<open>n < 32\<close> show False by simp
  qed
  moreover from len have "bit w (31 - length ?ts)"
    using nth_length_takeWhile [of "\<lambda>i. \<not> bit w (31 - i)" "[0..<32]"] by simp
  moreover have "\<not> bit w (31 - j)" if "j < length ?ts" for j
  proof -
    have "?ts ! j = j" using that len by (simp add: takeWhile_nth)
    then show ?thesis using set_takeWhileD [of "?ts ! j" "\<lambda>i. \<not> bit w (31 - i)" "[0..<32]"] that by (metis nth_mem)
  qed
  ultimately show ?thesis by (simp add: clz_def)
qed

lemma clear_bit_card:
  "bit (w :: u32) b \<Longrightarrow> card {n. bit (w AND NOT (push_bit b 1)) n} < card {n. bit w n}"
proof (rule psubset_card_mono)
  have "{n. bit w n} \<subseteq> {..<32}" by (auto dest: bit_u32D)
  then show "finite {n. bit w n}" using finite_subset by blast
  show "bit w b \<Longrightarrow> {n. bit (w AND NOT (push_bit b 1)) n} \<subset> {n. bit w n}"
    by (auto simp: bit_simps)
qed

function WordItems :: "u32 \<Rightarrow> nat list" where
  "WordItems bits =
     (if bits \<noteq> 0 then let offset = clz bits in offset # WordItems (bits AND NOT (push_bit (31 - offset) 1))
      else [])"
  by pat_completeness auto

termination
proof (relation "measure (\<lambda>bits. card {n. bit bits n})")
  fix bits :: u32 and offset
  assume "bits \<noteq> 0" "offset = clz bits"
  then show "(bits AND NOT (push_bit (31 - offset) 1), bits) \<in> measure (\<lambda>bits. card {n. bit bits n})"
    using clz_spec [of bits] clear_bit_card [of bits "31 - offset"] by simp
qed simp

declare WordItems.simps [simp del]

text \<open>\<open>for_each\<close> as the list of the items the function is applied to, in this order.\<close>

fun ForEachFrom :: "'t ItemOps \<Rightarrow> 't \<Rightarrow> u32 list \<Rightarrow> 't list" where
  "ForEachFrom ops item [] = []"
| "ForEachFrom ops item (bits # rest) =
     map (\<lambda>offset. item_plus ops item (of_nat offset)) (WordItems bits)
     @ ForEachFrom ops (item_plus ops item 32) rest"

definition for_each :: "'t ItemOps \<Rightarrow> 't BitmapRange \<Rightarrow> 't list" where
  "for_each ops r = ForEachFrom ops (br_base r) (take (n_longs (br_num_bits r)) (br_bitmap r))"

definition bitmap_get :: "'t BitmapRange \<Rightarrow> u32 \<times> u32 list \<times> nat" where
  "bitmap_get r = (br_num_bits r, br_bitmap r, n_longs (br_num_bits r))"

text \<open>\<open>bitmap_set\<close>: \<open>words\<close> is the array behind the pointer, which has as many words as \<open>num_bits\<close> needs.\<close>

definition bitmap_set :: "u32 \<Rightarrow> u32 list \<Rightarrow> 't BitmapRange \<Rightarrow> 't BitmapRange" where
  "bitmap_set num_bits words r =
     (let num_bits' = min num_bits (of_nat NBITS);
          num_items = n_longs num_bits';
          bitmap = take num_items words @ replicate (NITEMS - num_items) 0;
          shift = unat (num_bits AND 31);
          trimmed = (if 0 < num_bits \<and> shift \<noteq> 0
                     then bitmap[num_items - 1 := bitmap ! (num_items - 1) AND NOT (drop_bit shift (NOT 0))]
                     else bitmap)
      in r\<lparr>br_bitmap := trimmed, br_num_bits := calc_maximum_bit_set trimmed num_items 0\<rparr>)"

subsection \<open>Positions of bits\<close>

definition bit_at :: "u32 list \<Rightarrow> nat \<Rightarrow> bool" where
  "bit_at bitmap i \<longleftrightarrow> bit (bitmap ! (i div 32)) (31 - i mod 32)"

lemma word_pos_div: "word_pos d = unat d div 32"
  unfolding word_pos_def unat_drop_bit_eq by (simp add: drop_bit_eq_div)

lemma and_31: "(d :: u32) AND 31 = take_bit 5 d"
proof -
  have "mask 5 = (31 :: u32)" by (simp add: mask_eq_exp_minus_1)
  then show ?thesis using take_bit_eq_mask [of 5 d] by simp
qed

lemma unat_and_31: "unat ((d :: u32) AND 31) = unat d mod 32"
  unfolding and_31 unsigned_take_bit_eq by (simp add: take_bit_eq_mod)

lemma unat_31_sub: "unat (31 - (d AND 31 :: u32)) = 31 - unat d mod 32"
proof -
  have "(d AND 31) \<le> 31" using unat_and_31 [of d] by (simp add: word_le_nat_alt)
  then show ?thesis by (simp add: unat_sub unat_and_31)
qed

lemma unat_32_sub: "unat (32 - (d AND 31 :: u32)) = 32 - unat d mod 32"
proof -
  have "(d AND 31) \<le> 32" using unat_and_31 [of d] by (simp add: word_le_nat_alt)
  then show ?thesis by (simp add: unat_sub unat_and_31)
qed

lemma bit_word_mask: "bit (word_mask d) j \<longleftrightarrow> j = 31 - unat d mod 32"
  by (auto simp: word_mask_def unat_31_sub bit_simps)

lemma and_word_mask: "(w :: u32) AND word_mask d \<noteq> 0 \<longleftrightarrow> bit w (31 - unat d mod 32)"
proof -
  have "w AND word_mask d = 0 \<longleftrightarrow> \<not> bit w (31 - unat d mod 32)"
  proof
    assume "w AND word_mask d = 0"
    then have "\<not> bit (w AND word_mask d) (31 - unat d mod 32)" by simp
    then show "\<not> bit w (31 - unat d mod 32)" by (simp add: bit_and_iff bit_word_mask)
  next
    assume "\<not> bit w (31 - unat d mod 32)"
    then show "w AND word_mask d = 0" by (intro bit_word_eqI) (auto simp: bit_and_iff bit_word_mask)
  qed
  then show ?thesis by simp
qed

lemma div_mod_32_eq: "i div 32 = j div 32 \<Longrightarrow> 31 - i mod 32 = 31 - j mod 32 \<Longrightarrow> i = (j :: nat)"
proof -
  assume "i div 32 = j div 32" "31 - i mod 32 = 31 - j mod 32"
  moreover have "i mod 32 < 32" "j mod 32 < 32" by simp_all
  ultimately have "i mod 32 = j mod 32" by linarith
  with \<open>i div 32 = j div 32\<close> show "i = j" by (metis div_mult_mod_eq)
qed

lemma bit_at_set:
  assumes "length bitmap = 8" and "unat d < 256"
  shows "bit_at (bitmap[word_pos d := bitmap ! word_pos d OR word_mask d]) i
     \<longleftrightarrow> bit_at bitmap i \<or> i = unat d"
proof (cases "i div 32 = unat d div 32")
  case True
  moreover have "unat d div 32 < 8" using assms(2) by simp
  ultimately show ?thesis
    using assms(1) div_mod_32_eq [OF True] by (auto simp: bit_at_def word_pos_div bit_or_iff bit_word_mask)
qed (auto simp: bit_at_def word_pos_div)

lemma bit_at_clear:
  assumes "length bitmap = 8" and "unat d < 256"
  shows "bit_at (bitmap[word_pos d := bitmap ! word_pos d AND NOT (word_mask d)]) i
     \<longleftrightarrow> bit_at bitmap i \<and> i \<noteq> unat d"
proof (cases "i div 32 = unat d div 32")
  case True
  moreover have "unat d div 32 < 8" using assms(2) by simp
  moreover have "bit_at bitmap i \<Longrightarrow> 31 - i mod 32 < 32" by simp
  ultimately show ?thesis
    using assms(1) div_mod_32_eq [OF True]
    by (auto simp: bit_at_def word_pos_div bit_and_iff bit_not_iff bit_word_mask)
qed (auto simp: bit_at_def word_pos_div)

lemma bit_at_replicate [simp]: "i < 32 * n \<Longrightarrow> \<not> bit_at (replicate n 0) i"
proof -
  assume "i < 32 * n"
  then have "i div 32 < n" by (simp add: less_mult_imp_div_less mult.commute)
  then show ?thesis by (simp add: bit_at_def)
qed

subsection \<open>The last set bit\<close>

lemma lowest_bit:
  assumes "bit (w :: u32) k" and "\<And>j. j < k \<Longrightarrow> \<not> bit w j"
  shows "bit (w AND NOT (w - 1)) n \<longleftrightarrow> n = k"
proof -
  have k: "k < 32" using assms(1) by (rule bit_u32D)
  define m where "m = k + 1"
  then have km: "k < m" by simp
  have split: "bit w j \<longleftrightarrow> j = k \<or> m \<le> j \<and> bit w j" for j
    using assms by (metis Suc_eq_plus1 Suc_leI linorder_neqE_nat m_def)
  have w: "w = push_bit k 1 OR push_bit m (drop_bit m w)"
  proof (rule bit_word_eqI)
    fix j :: nat
    assume "j < LENGTH(32)"
    then show "bit w j \<longleftrightarrow> bit (push_bit k 1 OR push_bit m (drop_bit m w)) j"
      using split [of j] by (auto simp: bit_or_iff bit_push_bit_iff bit_drop_bit_eq bit_exp_iff possible_bit_word)
  qed
  have "push_bit k 1 AND push_bit m (drop_bit m w) = 0"
    by (rule bit_word_eqI) (use km in \<open>auto simp: bit_and_iff bit_push_bit_iff bit_exp_iff possible_bit_word\<close>)
  then have "w = push_bit k 1 + push_bit m (drop_bit m w)"
    using w by (simp add: disjunctive_add_eq_or)
  then have "w - 1 = mask k + push_bit m (drop_bit m w)"
    by (simp add: mask_eq_exp_minus_1 push_bit_eq_mult)
  moreover have "mask k AND push_bit m (drop_bit m w) = 0"
    by (rule bit_word_eqI) (use km in \<open>auto simp: bit_and_iff bit_push_bit_iff bit_mask_iff\<close>)
  ultimately have "w - 1 = mask k OR push_bit m (drop_bit m w)"
    by (simp add: disjunctive_add_eq_or)
  then have "bit (w - 1) n \<longleftrightarrow> n < 32 \<and> (n < k \<or> m \<le> n \<and> bit w n)"
    using k by (auto simp: bit_or_iff bit_push_bit_iff bit_drop_bit_eq bit_mask_iff dest: bit_u32D)
  then show ?thesis using split [of n] k by (auto simp: bit_and_iff bit_not_iff m_def)
qed

lemma ex_lowest_bit: "(w :: u32) \<noteq> 0 \<Longrightarrow> \<exists>k < 32. bit w k \<and> (\<forall>j < k. \<not> bit w j)"
proof -
  assume "w \<noteq> 0"
  then obtain n where "bit w n" by (metis bit_0_eq bit_eqI bot_apply bot_bool_def)
  then have "bit w (LEAST n. bit w n)" by (rule LeastI)
  then show ?thesis using not_less_Least bit_u32D by blast
qed

lemma clz_single: "k < 32 \<Longrightarrow> (\<And>n. bit (w :: u32) n \<longleftrightarrow> n = k) \<Longrightarrow> clz w = 31 - k"
proof -
  assume k: "k < 32" and single: "\<And>n. bit w n \<longleftrightarrow> n = k"
  then have "bit w k" by blast
  then have "w \<noteq> 0" by auto
  from clz_spec [OF this] have "clz w < 32" "31 - clz w = k" unfolding single by auto
  then show ?thesis by simp
qed

lemma clz_lowest:
  "k < 32 \<Longrightarrow> bit (w :: u32) k \<Longrightarrow> (\<And>j. j < k \<Longrightarrow> \<not> bit w j) \<Longrightarrow> clz (w AND NOT (w - 1)) = 31 - k"
  by (rule clz_single) (simp_all add: lowest_bit)

lemma unat_word_offset: "i < 8 \<Longrightarrow> c < 32 \<Longrightarrow> unat (push_bit 5 (of_nat i) + (of_nat c + 1) :: u32) = 32 * i + c + 1"
proof -
  assume "i < 8" "c < 32"
  moreover have "push_bit 5 (of_nat i) + (of_nat c + 1) = (of_nat (32 * i + c + 1) :: u32)"
    by (simp add: push_bit_eq_mult mult.commute)
  ultimately show ?thesis by (simp only: unat_of_nat) simp
qed

lemma bit_at_split: "p < 32 \<Longrightarrow> bit_at bitmap (32 * w + p) = bit (bitmap ! w) (31 - p)"
  by (simp add: bit_at_def)

lemma calc_maximum_spec:
  "n \<le> 8 \<Longrightarrow> unat (calc_maximum_bit_set bitmap n m) \<le> 32 * n
    \<and> (\<forall>i. 32 * m \<le> i \<and> unat (calc_maximum_bit_set bitmap n m) \<le> i \<and> i < 32 * n \<longrightarrow> \<not> bit_at bitmap i)
    \<and> (0 < unat (calc_maximum_bit_set bitmap n m) \<longrightarrow>
        bit_at bitmap (unat (calc_maximum_bit_set bitmap n m) - 1))"
proof (induction bitmap n m rule: calc_maximum_bit_set.induct)
  case (2 bitmap i m)
  let ?w = "bitmap ! i"
  consider (skip) "\<not> m < Suc i" | (zero) "m < Suc i" "?w = 0" | (found) "m < Suc i" "?w \<noteq> 0" by blast
  then show ?case
  proof cases
    case zero
    have "\<not> bit_at bitmap j" if "32 * i \<le> j" "j < 32 * Suc i" for j
    proof -
      have "j div 32 = i" using that by auto
      then show ?thesis using zero(2) by (simp add: bit_at_def)
    qed
    note last = this
    have "\<not> ?w \<noteq> 0" using zero(2) by simp
    note IH = "2.IH" [OF zero(1) refl this]
    have r: "calc_maximum_bit_set bitmap (Suc i) m = calc_maximum_bit_set bitmap i m" using zero by simp
    have "\<not> bit_at bitmap j"
      if "32 * m \<le> j" "unat (calc_maximum_bit_set bitmap i m) \<le> j" "j < 32 * Suc i" for j
      using IH "2.prems" last [of j] that by (cases "j < 32 * i") auto
    then show ?thesis unfolding r using IH "2.prems" by auto
  next
    case found
    from ex_lowest_bit [OF found(2)] obtain k where k: "k < 32" "bit ?w k" "\<And>j. j < k \<Longrightarrow> \<not> bit ?w j" by blast
    then have r: "unat (calc_maximum_bit_set bitmap (Suc i) m) = 32 * i + (31 - k) + 1"
      using found "2.prems" unat_word_offset [of i "31 - k"] by (simp add: Let_def clz_lowest [OF k])
    have "bit_at bitmap (32 * i + (31 - k))" using k bit_at_split [of "31 - k" bitmap i] by simp
    moreover have "\<not> bit_at bitmap j" if "32 * i + (31 - k) + 1 \<le> j" "j < 32 * Suc i" for j
    proof -
      have d: "j div 32 = i" using that by (intro div_nat_eqI) simp_all
      then have "j mod 32 = j - 32 * i" by (metis minus_mult_div_eq_mod)
      then have "31 - j mod 32 < k" using that k(1) by linarith
      with d show ?thesis using k(3) by (simp add: bit_at_def)
    qed
    ultimately show ?thesis unfolding r using k(1) by auto
  next
    case skip
    then show ?thesis by auto
  qed
qed simp

declare calc_maximum_bit_set.simps [simp del]

subsection \<open>Shifts\<close>

lemma ShiftLeft_loop:
  assumes "length bitmap = 8" and "j + n \<le> 7"
  shows "length (foldl (\<lambda>b i. b[i := push_bit s (b ! (i + n)) OR drop_bit t (b ! (i + n + 1))]) bitmap [0..<j]) = 8
    \<and> (\<forall>w < 8. foldl (\<lambda>b i. b[i := push_bit s (b ! (i + n)) OR drop_bit t (b ! (i + n + 1))]) bitmap [0..<j] ! w
        = (if w < j then push_bit s (bitmap ! (w + n)) OR drop_bit t (bitmap ! (w + n + 1)) else bitmap ! w))"
  using assms(2)
proof (induction j)
  case (Suc j)
  then show ?case by (auto simp: nth_list_update less_Suc_eq)
qed (use assms in simp)

lemma ShiftLeftWords_nth:
  assumes "length bitmap = 8" and "n \<le> 7" and "w < 8"
  shows "ShiftLeftWords n s bitmap ! w =
    (if w + n < 7 then push_bit s (bitmap ! (w + n)) OR drop_bit (32 - s) (bitmap ! (w + n + 1))
     else if w + n = 7 then push_bit s (bitmap ! 7) else 0)"
  using ShiftLeft_loop [of bitmap "7 - n" n s "32 - s"] assms
  by (auto simp: ShiftLeftWords_def NITEMS_def Let_def nth_append nth_list_update)

lemma length_ShiftLeftWords: "length bitmap = 8 \<Longrightarrow> n \<le> 7 \<Longrightarrow> length (ShiftLeftWords n s bitmap) = 8"
  using ShiftLeft_loop [of bitmap "7 - n" n s "32 - s"] by (simp add: ShiftLeftWords_def NITEMS_def Let_def)

lemma index_split: "\<exists>w p. (i :: nat) = 32 * w + p \<and> p < 32 \<and> (i < 256 \<longrightarrow> w < 8)"
  by (rule exI [of _ "i div 32"], rule exI [of _ "i mod 32"]) auto

lemma less_256: "x < 32 \<Longrightarrow> 32 * q + x < (256 :: nat) \<longleftrightarrow> q < 8"
proof
  assume "x < 32" "32 * q + x < 256"
  then show "q < 8" by linarith
next
  assume "x < 32" "q < 8"
  then show "32 * q + x < 256" by linarith
qed

lemma bit_at_ShiftLeftWords:
  assumes len: "length bitmap = 8" and n: "n \<le> 7" and s: "0 < s" "s < 32" and "i < 256"
  shows "bit_at (ShiftLeftWords n s bitmap) i \<longleftrightarrow> i + 32 * n + s < 256 \<and> bit_at bitmap (i + 32 * n + s)"
proof -
  obtain w p where i: "i = 32 * w + p" and p: "p < 32" and w: "w < 8" using index_split [of i] assms(5) by blast
  let ?S = "ShiftLeftWords n s bitmap"
  have lhs: "bit_at ?S i \<longleftrightarrow> bit (?S ! w) (31 - p)" unfolding i by (rule bit_at_split [OF p])
  note word = ShiftLeftWords_nth [OF len n w, of s]
  have push: "bit (push_bit s (v :: u32)) (31 - p) \<longleftrightarrow> p + s < 32 \<and> bit v (31 - (p + s))" for v
    using p s by (auto simp: bit_push_bit_iff)
  have drop: "bit (drop_bit (32 - s) (v :: u32)) (31 - p) \<longleftrightarrow> 32 \<le> p + s \<and> bit v (31 - (p + s - 32))" for v
  proof -
    show ?thesis
    proof (cases "32 \<le> p + s")
      case True
      then have "32 - s + (31 - p) = 31 - (p + s - 32)" using p s by linarith
      with True show ?thesis unfolding bit_drop_bit_eq comp_def by (simp only: simp_thms)
    next
      case False
      then have "\<not> bit v (32 - s + (31 - p))" using bit_u32D [of v "32 - s + (31 - p)"] p s by linarith
      with False show ?thesis unfolding bit_drop_bit_eq comp_def by (simp only: simp_thms)
    qed
  qed
  show ?thesis
  proof (cases "p + s < 32")
    case True
    have idx: "i + 32 * n + s = 32 * (w + n) + (p + s)" by (simp add: i)
    have lt: "i + 32 * n + s < 256 \<longleftrightarrow> w + n \<le> 7" unfolding idx less_256 [OF True] by linarith
    have "bit (?S ! w) (31 - p) \<longleftrightarrow> w + n \<le> 7 \<and> bit (bitmap ! (w + n)) (31 - (p + s))"
    proof -
      consider "w + n < 7" | "w + n = 7" | "7 < w + n" by linarith
      then show ?thesis by cases (use True in \<open>simp_all add: word push drop bit_or_iff\<close>)
    qed
    then show ?thesis unfolding lt unfolding lhs idx bit_at_split [OF True] .
  next
    case False
    then have q: "p + s - 32 < 32" using p s by linarith
    have idx: "i + 32 * n + s = 32 * (w + n + 1) + (p + s - 32)" using False by (simp add: i)
    have lt: "i + 32 * n + s < 256 \<longleftrightarrow> w + n < 7" unfolding idx less_256 [OF q] by linarith
    have "bit (?S ! w) (31 - p) \<longleftrightarrow> w + n < 7 \<and> bit (bitmap ! (w + n + 1)) (31 - (p + s - 32))"
    proof -
      consider "w + n < 7" | "w + n = 7" | "7 < w + n" by linarith
      then show ?thesis by cases (use False in \<open>simp_all add: word push drop bit_or_iff\<close>)
    qed
    then show ?thesis unfolding lt unfolding lhs idx bit_at_split [OF q] .
  qed
qed

lemma ShiftRight_loop:
  assumes "length bitmap = 8" and "n \<le> 7" and "d \<le> 7 - n"
  shows "length (foldl (\<lambda>b k. b[k + n := drop_bit s (b ! k) OR push_bit t (b ! (k - 1))]) bitmap
        (rev [Suc (7 - n - d)..<Suc (7 - n)])) = 8
    \<and> (\<forall>w < 8. foldl (\<lambda>b k. b[k + n := drop_bit s (b ! k) OR push_bit t (b ! (k - 1))]) bitmap
        (rev [Suc (7 - n - d)..<Suc (7 - n)]) ! w
        = (if 7 - d < w then drop_bit s (bitmap ! (w - n)) OR push_bit t (bitmap ! (w - n - 1)) else bitmap ! w))"
  using assms(3)
proof (induction d)
  case (Suc d)
  let ?f = "\<lambda>b k. b[k + n := drop_bit s (b ! k) OR push_bit t (b ! (k - 1))]"
  have upt: "[Suc (7 - n - Suc d)..<Suc (7 - n)] = (7 - n - d) # [Suc (7 - n - d)..<Suc (7 - n)]"
  proof -
    have "Suc (7 - n - Suc d) = 7 - n - d" using Suc.prems by simp
    then show ?thesis by (simp only: upt_conv_Cons less_Suc_eq_le diff_le_self)
  qed
  let ?b = "foldl ?f bitmap (rev [Suc (7 - n - d)..<Suc (7 - n)])"
  have IH: "length ?b = 8" "\<And>w. w < 8 \<Longrightarrow> ?b ! w =
      (if 7 - d < w then drop_bit s (bitmap ! (w - n)) OR push_bit t (bitmap ! (w - n - 1)) else bitmap ! w)"
    using Suc.IH Suc.prems by simp_all
  have old: "?b ! (7 - n - d) = bitmap ! (7 - n - d)" "?b ! (7 - n - d - 1) = bitmap ! (7 - n - d - 1)"
  proof -
    have lt: "7 - n - d < 8" "7 - n - d - 1 < 8" "\<not> 7 - d < 7 - n - d" "\<not> 7 - d < 7 - n - d - 1" by linarith+
    then show "?b ! (7 - n - d) = bitmap ! (7 - n - d)" "?b ! (7 - n - d - 1) = bitmap ! (7 - n - d - 1)"
      using IH(2) [OF lt(1)] IH(2) [OF lt(2)] by (simp_all only: if_False)
  qed
  have step: "foldl ?f bitmap (rev [Suc (7 - n - Suc d)..<Suc (7 - n)])
      = ?b[7 - d := drop_bit s (bitmap ! (7 - n - d)) OR push_bit t (bitmap ! (7 - n - d - 1))]"
  proof -
    have "7 - n - d + n = 7 - d" using Suc.prems by simp
    then show ?thesis unfolding upt rev.simps foldl_append foldl.simps old by (simp only:)
  qed
  have "?b[7 - d := drop_bit s (bitmap ! (7 - n - d)) OR push_bit t (bitmap ! (7 - n - d - 1))] ! w =
      (if 7 - Suc d < w then drop_bit s (bitmap ! (w - n)) OR push_bit t (bitmap ! (w - n - 1)) else bitmap ! w)"
    if "w < 8" for w
  proof (cases "w = 7 - d")
    case True
    have "7 - n - d = w - n" using True Suc.prems by simp
    moreover have "7 - Suc d < w" using True Suc.prems by simp
    ultimately show ?thesis using True IH(1) that by (simp only: nth_list_update if_True simp_thms)
  next
    case False
    then have "7 - Suc d < w \<longleftrightarrow> 7 - d < w" using Suc.prems by linarith
    then show ?thesis using False IH(2) [OF that] by (simp only: nth_list_update_neq not_sym)
  qed
  then show ?case unfolding step by (intro conjI allI impI) (simp_all only: length_list_update IH(1))
qed (use assms in auto)

lemma ShiftRightWords_nth:
  assumes "length bitmap = 8" and "n \<le> 7" and "w < 8"
  shows "ShiftRightWords n s bitmap ! w =
    (if w < n then 0 else if w = n then drop_bit s (bitmap ! 0)
     else drop_bit s (bitmap ! (w - n)) OR push_bit (32 - s) (bitmap ! (w - n - 1)))"
  using ShiftRight_loop [of bitmap n "7 - n" s "32 - s"] assms
  by (auto simp: ShiftRightWords_def NITEMS_def Let_def nth_append nth_list_update numeral_2_eq_2)

lemma length_ShiftRightWords: "length bitmap = 8 \<Longrightarrow> n \<le> 7 \<Longrightarrow> length (ShiftRightWords n s bitmap) = 8"
  using ShiftRight_loop [of bitmap n "7 - n" s "32 - s"] by (simp add: ShiftRightWords_def NITEMS_def Let_def)

lemma bit_at_ShiftRightWords:
  assumes len: "length bitmap = 8" and n: "n \<le> 7" and s: "0 < s" "s < 32" and "i < 256"
  shows "bit_at (ShiftRightWords n s bitmap) i \<longleftrightarrow> 32 * n + s \<le> i \<and> bit_at bitmap (i - (32 * n + s))"
proof -
  obtain w p where i: "i = 32 * w + p" and p: "p < 32" and w: "w < 8" using index_split [of i] assms(5) by blast
  let ?S = "ShiftRightWords n s bitmap"
  have lhs: "bit_at ?S i \<longleftrightarrow> bit (?S ! w) (31 - p)" unfolding i by (rule bit_at_split [OF p])
  have push: "bit (push_bit (32 - s) (v :: u32)) (31 - p) \<longleftrightarrow> p < s \<and> bit v (31 - (32 + p - s))" for v
  proof -
    have "31 - p - (32 - s) = 31 - (32 + p - s)" if "p < s" using that p s by linarith
    moreover have "32 - s \<le> 31 - p \<longleftrightarrow> p < s" using p s by linarith
    moreover have "31 - p < 32" by simp
    ultimately show ?thesis by (auto simp: bit_push_bit_iff)
  qed
  have drop: "bit (drop_bit s (v :: u32)) (31 - p) \<longleftrightarrow> s \<le> p \<and> bit v (31 - (p - s))" for v
  proof (cases "s \<le> p")
    case True
    then have "s + (31 - p) = 31 - (p - s)" using p by linarith
    with True show ?thesis unfolding bit_drop_bit_eq comp_def by (simp only: simp_thms)
  next
    case False
    then have "\<not> bit v (s + (31 - p))" using bit_u32D [of v "s + (31 - p)"] p by linarith
    with False show ?thesis unfolding bit_drop_bit_eq comp_def by (simp only: simp_thms)
  qed
  show ?thesis
  proof (cases "s \<le> p")
    case True
    then have q: "p - s < 32" using p by linarith
    have lt: "32 * n + s \<le> i \<longleftrightarrow> n \<le> w" unfolding i using True p by linarith
    have idx: "bit_at bitmap (i - (32 * n + s)) \<longleftrightarrow> bit (bitmap ! (w - n)) (31 - (p - s))" if "n \<le> w"
    proof -
      have "i - (32 * n + s) = 32 * (w - n) + (p - s)" using that True by (simp add: i diff_mult_distrib2)
      then show ?thesis using bit_at_split [OF q] by simp
    qed
    have "bit (?S ! w) (31 - p) \<longleftrightarrow> n \<le> w \<and> bit (bitmap ! (w - n)) (31 - (p - s))"
    proof -
      consider "w < n" | "w = n" | "n < w" by linarith
      then show ?thesis by cases (use True w in \<open>simp_all add: ShiftRightWords_nth [OF len n] push drop bit_or_iff\<close>)
    qed
    then show ?thesis unfolding lt lhs using idx by blast
  next
    case False
    then have q: "32 + p - s < 32" using p s by linarith
    have lt: "32 * n + s \<le> i \<longleftrightarrow> n < w" unfolding i using False p s by linarith
    have idx: "bit_at bitmap (i - (32 * n + s)) \<longleftrightarrow> bit (bitmap ! (w - n - 1)) (31 - (32 + p - s))" if "n < w"
    proof -
      have "i - (32 * n + s) = 32 * (w - n - 1) + (32 + p - s)" unfolding i using that False s by linarith
      then show ?thesis using bit_at_split [OF q] by simp
    qed
    have "bit (?S ! w) (31 - p) \<longleftrightarrow> n < w \<and> bit (bitmap ! (w - n - 1)) (31 - (32 + p - s))"
    proof -
      consider "w < n" | "w = n" | "n < w" by linarith
      then show ?thesis by cases (use False w in \<open>simp_all add: ShiftRightWords_nth [OF len n] push drop bit_or_iff\<close>)
    qed
    then show ?thesis unfolding lt lhs using idx by blast
  qed
qed

subsection \<open>What a bitmap stands for\<close>

definition members :: "u32 list \<Rightarrow> nat set" where
  "members bitmap = {i. i < 256 \<and> bit_at bitmap i}"

definition bits_ok :: "'t BitmapRange \<Rightarrow> bool" where
  "bits_ok r \<longleftrightarrow> length (br_bitmap r) = 8 \<and> unat (br_num_bits r) \<le> 256
     \<and> (\<forall>i \<in> members (br_bitmap r). i < unat (br_num_bits r))"

text \<open>The number of significant bits is tight when the last of them is set.\<close>

definition tight :: "'t BitmapRange \<Rightarrow> bool" where
  "tight r \<longleftrightarrow> (0 < unat (br_num_bits r) \<longrightarrow> unat (br_num_bits r) - 1 \<in> members (br_bitmap r))"

lemma bits_ok_window [simp]: "bits_ok (r\<lparr>br_base := b, br_range_max := m\<rparr>) \<longleftrightarrow> bits_ok r"
  by (simp add: bits_ok_def)

lemma tight_window [simp]: "tight (r\<lparr>br_base := b, br_range_max := m\<rparr>) \<longleftrightarrow> tight r"
  by (simp add: tight_def)

lemma members_replicate [simp]: "members (replicate 8 0) = {}"
  by (auto simp: members_def)

lemma members_set:
  "length bitmap = 8 \<Longrightarrow> unat d < 256 \<Longrightarrow>
   members (bitmap[word_pos d := bitmap ! word_pos d OR word_mask d]) = insert (unat d) (members bitmap)"
  by (auto simp: members_def bit_at_set)

lemma members_clear:
  "length bitmap = 8 \<Longrightarrow> unat d < 256 \<Longrightarrow>
   members (bitmap[word_pos d := bitmap ! word_pos d AND NOT (word_mask d)]) = members bitmap - {unat d}"
  by (auto simp: members_def bit_at_clear)

lemma bit_at_drop:
  assumes "length bitmap = 8" and "n \<le> 8" and "i < 256"
  shows "bit_at (drop n bitmap @ replicate n 0) i \<longleftrightarrow> i + 32 * n < 256 \<and> bit_at bitmap (i + 32 * n)"
proof -
  obtain w p where i: "i = 32 * w + p" and p: "p < 32" and w: "w < 8" using index_split [of i] assms(3) by blast
  have idx: "i + 32 * n = 32 * (w + n) + p" by (simp add: i)
  have "(drop n bitmap @ replicate n 0) ! w = (if w + n < 8 then bitmap ! (w + n) else 0)"
    using assms w by (auto simp: nth_append add.commute)
  then show ?thesis unfolding idx less_256 [OF p] bit_at_split [OF p] unfolding i bit_at_split [OF p] by simp
qed

lemma bit_at_take:
  assumes "length bitmap = 8" and "n \<le> 8" and "i < 256"
  shows "bit_at (replicate n 0 @ take (8 - n) bitmap) i \<longleftrightarrow> 32 * n \<le> i \<and> bit_at bitmap (i - 32 * n)"
proof -
  obtain w p where i: "i = 32 * w + p" and p: "p < 32" and w: "w < 8" using index_split [of i] assms(3) by blast
  have lt: "32 * n \<le> i \<longleftrightarrow> n \<le> w" unfolding i using p by linarith
  have nth: "(replicate n 0 @ take (8 - n) bitmap) ! w = (if n \<le> w then bitmap ! (w - n) else 0)"
    using assms w by (auto simp: nth_append)
  have idx: "i - 32 * n = 32 * (w - n) + p" if "n \<le> w" using that by (simp add: i diff_mult_distrib2)
  show ?thesis
  proof (cases "n \<le> w")
    case True
    then show ?thesis unfolding lt idx [OF True] bit_at_split [OF p] unfolding i bit_at_split [OF p] nth by simp
  next
    case False
    then show ?thesis unfolding lt unfolding i bit_at_split [OF p] nth by simp
  qed
qed

lemma unat_256: "unat (of_nat NBITS :: u32) = 256" "unat (of_nat NBITS - 1 :: u32) = 255"
  by (simp_all add: NBITS_def)

lemma shift_map_left_spec:
  assumes ok: "bits_ok r"
  shows "bits_ok (shift_map_left k r) \<and> br_base (shift_map_left k r) = br_base r
    \<and> members (br_bitmap (shift_map_left k r)) = {i. i + unat k \<in> members (br_bitmap r)}
    \<and> (tight r \<longrightarrow> tight (shift_map_left k r))"
proof (cases "k \<ge> br_num_bits r")
  case True
  then have "unat (br_num_bits r) \<le> unat k" by (simp add: word_le_nat_alt)
  then have "{i. i + unat k \<in> members (br_bitmap r)} = {}" using ok by (force simp: bits_ok_def)
  then show ?thesis using True by (simp add: shift_map_left_def bits_ok_def tight_def NITEMS_def)
next
  case False
  then have k: "unat k < unat (br_num_bits r)" by (simp add: word_le_nat_alt)
  let ?n = "unat k div 32" and ?s = "unat k mod 32" and ?bm = "br_bitmap r"
  let ?new = "if ?s = 0 then drop ?n ?bm @ replicate ?n 0 else ShiftLeftWords ?n ?s ?bm"
  have len: "length ?bm = 8" and nb: "unat (br_num_bits r) \<le> 256" using ok by (simp_all add: bits_ok_def)
  have n: "?n \<le> 7" using k nb by linarith
  have ks: "unat k = 32 * ?n + ?s" by simp
  have shift: "unat (drop_bit 5 k) = ?n" using word_pos_div [of k] by (simp only: word_pos_def)
  have eq: "shift_map_left k r = r\<lparr>br_num_bits := br_num_bits r - k, br_bitmap := ?new\<rparr>"
    using False unfolding shift_map_left_def Let_def shift unat_and_31 by (simp only: if_False)
  have new: "bit_at ?new i \<longleftrightarrow> i + unat k < 256 \<and> bit_at ?bm (i + unat k)" if "i < 256" for i
  proof (cases "?s = 0")
    case True
    then have "unat k = 32 * ?n" using ks by linarith
    then show ?thesis using bit_at_drop [OF len, of ?n i] n that True by simp
  next
    case False
    have "i + 32 * ?n + ?s = i + unat k" using ks by linarith
    with False show ?thesis using bit_at_ShiftLeftWords [OF len n, of ?s i] that by (simp add: add.commute)
  qed
  have mem: "members ?new = {i. i + unat k \<in> members ?bm}" using new by (auto simp: members_def)
  have num: "unat (br_num_bits r - k) = unat (br_num_bits r) - unat k"
    using k by (simp add: unat_sub word_le_nat_alt)
  have "length ?new = 8" using len n length_ShiftLeftWords [OF len n] by simp
  then have "bits_ok (shift_map_left k r)" using ok unfolding eq by (auto simp: bits_ok_def mem num)
  moreover have "tight (shift_map_left k r)" if "tight r"
    using that k unfolding eq tight_def by (simp add: mem num)
  ultimately show ?thesis unfolding eq by (simp add: mem)
qed

lemma shift_map_right_spec:
  assumes ok: "bits_ok r"
  shows "bits_ok (shift_map_right k r) \<and> br_base (shift_map_right k r) = br_base r
    \<and> members (br_bitmap (shift_map_right k r)) = {i. i < 256 \<and> unat k \<le> i \<and> i - unat k \<in> members (br_bitmap r)}
    \<and> (tight r \<and> br_num_bits r \<noteq> 0 \<longrightarrow> tight (shift_map_right k r))"
proof (cases "k \<ge> of_nat NBITS")
  case True
  then have "256 \<le> unat k" by (simp add: word_le_nat_alt unat_256)
  then have "{i. i < 256 \<and> unat k \<le> i \<and> i - unat k \<in> members (br_bitmap r)} = {}" by auto
  then show ?thesis using True by (simp add: shift_map_right_def bits_ok_def tight_def NITEMS_def)
next
  case False
  then have k: "unat k < 256" by (simp add: word_le_nat_alt unat_256)
  let ?n = "unat k div 32" and ?s = "unat k mod 32" and ?bm = "br_bitmap r"
  define new where "new = (if ?s = 0 then replicate ?n 0 @ take (8 - ?n) ?bm else ShiftRightWords ?n ?s ?bm)"
  have len: "length ?bm = 8" and nb: "unat (br_num_bits r) \<le> 256" using ok by (simp_all add: bits_ok_def)
  have n: "?n \<le> 7" using k by linarith
  have ks: "unat k = 32 * ?n + ?s" by simp
  have shift: "unat (drop_bit 5 k) = ?n" using word_pos_div [of k] by (simp only: word_pos_def)
  have num: "unat (br_num_bits r + k) = unat (br_num_bits r) + unat k"
    using k nb by (simp add: unat_word_ariths)
  have eq: "shift_map_right k r = r\<lparr>br_bitmap := new, br_num_bits :=
      (if 256 < unat (br_num_bits r) + unat k then calc_maximum_bit_set new 8 ?n else br_num_bits r + k)\<rparr>"
    using False unfolding shift_map_right_def Let_def shift unat_and_31
    by (simp only: if_False NITEMS_def word_less_nat_alt num unat_256 new_def)
  have at: "bit_at new i \<longleftrightarrow> unat k \<le> i \<and> bit_at ?bm (i - unat k)" if "i < 256" for i
  proof (cases "?s = 0")
    case True
    then have "unat k = 32 * ?n" using ks by linarith
    then show ?thesis using bit_at_take [OF len, of ?n i] n that True by (simp add: new_def)
  next
    case False
    then show ?thesis using bit_at_ShiftRightWords [OF len n, of ?s i] that ks by (simp add: new_def)
  qed
  have mem: "members new = {i. i < 256 \<and> unat k \<le> i \<and> i - unat k \<in> members ?bm}"
    using at by (auto simp: members_def)
  have len': "length new = 8" using len n length_ShiftRightWords [OF len n] by (simp add: new_def)
  show ?thesis
  proof (cases "256 < unat (br_num_bits r) + unat k")
    case True
    let ?c = "calc_maximum_bit_set new 8 ?n"
    from calc_maximum_spec [of 8 new ?n]
    have c: "unat ?c \<le> 256" "\<And>i. 32 * ?n \<le> i \<Longrightarrow> unat ?c \<le> i \<Longrightarrow> i < 256 \<Longrightarrow> \<not> bit_at new i"
      "0 < unat ?c \<Longrightarrow> bit_at new (unat ?c - 1)" by auto
    have "i < unat ?c" if "i \<in> members new" for i
    proof (rule ccontr)
      assume "\<not> ?thesis"
      moreover have "unat k \<le> i" "i < 256" "bit_at new i" using that mem by (auto simp: members_def)
      moreover have "32 * ?n \<le> i" using ks \<open>unat k \<le> i\<close> by linarith
      ultimately show False using c(2) [of i] by simp
    qed
    then have "bits_ok (shift_map_right k r)" unfolding eq using True c(1) len' by (simp add: bits_ok_def)
    moreover have "tight (shift_map_right k r)"
      unfolding eq using True c(1,3) by (auto simp: tight_def members_def)
    ultimately show ?thesis unfolding eq by (simp add: mem)
  next
    case False
    have "bits_ok (shift_map_right k r)" using ok False len' unfolding eq by (auto simp: bits_ok_def mem num)
    moreover have "tight (shift_map_right k r)" if "tight r" "br_num_bits r \<noteq> 0"
    proof -
      have "0 < unat (br_num_bits r)" using that(2) by (simp add: unat_gt_0)
      then show ?thesis using that(1) False unfolding eq by (auto simp: tight_def mem num)
    qed
    ultimately show ?thesis unfolding eq using False by (simp add: mem)
  qed
qed

subsection \<open>Intervals, items of a word, the wire form\<close>

lemma bit_at_or:
  assumes "p0 < length bitmap"
  shows "bit_at (bitmap[p0 := bitmap ! p0 OR m]) i \<longleftrightarrow> bit_at bitmap i \<or> i div 32 = p0 \<and> bit m (31 - i mod 32)"
  using assms by (cases "i div 32 = p0") (auto simp: bit_at_def bit_or_iff)

lemma AddMasks_spec:
  "length bitmap = 8 \<Longrightarrow> 0 < b \<Longrightarrow> b \<le> 32 \<Longrightarrow> (\<And>j. bit m j \<longleftrightarrow> j < b) \<Longrightarrow> 32 * pos + 32 - b + n \<le> 256 \<Longrightarrow>
   length (AddMasks bitmap pos m b n) = 8
   \<and> (\<forall>i. bit_at (AddMasks bitmap pos m b n) i
        \<longleftrightarrow> bit_at bitmap i \<or> 32 * pos + 32 - b \<le> i \<and> i < 32 * pos + 32 - b + n)"
proof (induction bitmap pos m b n rule: AddMasks.induct)
  case (1 bitmap pos m b n)
  have word: "i div 32 = pos \<and> 31 - i mod 32 < b \<longleftrightarrow> 32 * pos + 32 - b \<le> i \<and> i < 32 * pos + 32" for i
  proof -
    obtain w p where i: "i = 32 * w + p" and p: "p < 32" using index_split [of i] by blast
    have "i div 32 = w" "i mod 32 = p" using i p by simp_all
    then show ?thesis using i p "1.prems"(2,3) by (cases "w = pos") (simp_all, linarith+)
  qed
  show ?case
  proof (cases "b \<le> n")
    case True
    have pos: "pos < 8" using "1.prems"(2,3,5) True by linarith
    let ?b = "bitmap[pos := bitmap ! pos OR m]"
    have IH: "length (AddMasks ?b (Suc pos) (NOT 0) 32 (n - b)) = 8
      \<and> (\<forall>i. bit_at (AddMasks ?b (Suc pos) (NOT 0) 32 (n - b)) i
          \<longleftrightarrow> bit_at ?b i \<or> 32 * Suc pos + 32 - 32 \<le> i \<and> i < 32 * Suc pos + 32 - 32 + (n - b))"
    proof (rule "1.IH")
      show "b \<le> n \<and> 0 < b" using True "1.prems"(2) by simp
      show "length ?b = 8" using "1.prems"(1) by simp
      show "bit (NOT 0 :: u32) j \<longleftrightarrow> j < 32" for j by (simp add: bit_simps)
      show "32 * Suc pos + 32 - 32 + (n - b) \<le> 256" using "1.prems"(3,5) True by simp
    qed simp_all
    have step: "AddMasks bitmap pos m b n = AddMasks ?b (Suc pos) (NOT 0) 32 (n - b)"
      using True "1.prems"(2) by (subst AddMasks.simps) simp
    have "bit_at (AddMasks bitmap pos m b n) i
        \<longleftrightarrow> bit_at bitmap i \<or> 32 * pos + 32 - b \<le> i \<and> i < 32 * pos + 32 - b + n" for i
    proof -
      have "bit_at (AddMasks bitmap pos m b n) i \<longleftrightarrow> bit_at bitmap i
          \<or> (32 * pos + 32 - b \<le> i \<and> i < 32 * pos + 32) \<or> (32 * Suc pos + 32 - 32 \<le> i \<and> i < 32 * Suc pos + 32 - 32 + (n - b))"
      proof -
        have "pos < length bitmap" using pos "1.prems"(1) by simp
        then have "bit_at ?b i \<longleftrightarrow> bit_at bitmap i \<or> (32 * pos + 32 - b \<le> i \<and> i < 32 * pos + 32)"
          using bit_at_or [of pos bitmap m i] word [of i] unfolding "1.prems"(4) by blast
        with IH show ?thesis unfolding step by blast
      qed
      moreover have "(32 * pos + 32 - b \<le> i \<and> i < 32 * pos + 32) \<or> (32 * Suc pos + 32 - 32 \<le> i \<and> i < 32 * Suc pos + 32 - 32 + (n - b))
          \<longleftrightarrow> 32 * pos + 32 - b \<le> i \<and> i < 32 * pos + 32 - b + n" using True "1.prems"(2,3) by auto
      ultimately show ?thesis by blast
    qed
    then show ?thesis using IH unfolding step by blast
  next
    case False
    show ?thesis
    proof (cases "0 < n")
      case True
      have pos: "pos < 8" using "1.prems"(3,5) True by linarith
      have step: "AddMasks bitmap pos m b n = bitmap[pos := bitmap ! pos OR (m AND push_bit (b - n) (NOT 0))]"
        using False True by (subst AddMasks.simps) simp
      have bits: "bit (m AND push_bit (b - n) (NOT 0)) j \<longleftrightarrow> j < b \<and> b - n \<le> j" for j
        unfolding bit_and_iff bit_push_bit_iff bit_not_iff "1.prems"(4) using "1.prems"(3)
        by (auto simp: possible_bit_word)
      have "i div 32 = pos \<and> 31 - i mod 32 < b \<and> b - n \<le> 31 - i mod 32
          \<longleftrightarrow> 32 * pos + 32 - b \<le> i \<and> i < 32 * pos + 32 - b + n" for i
      proof -
        obtain w p where i: "i = 32 * w + p" and p: "p < 32" using index_split [of i] by blast
        have "i div 32 = w" "i mod 32 = p" using i p by simp_all
        moreover have "31 - p < b \<longleftrightarrow> 32 - b \<le> p" "b - n \<le> 31 - p \<longleftrightarrow> p < 32 - b + n"
          using p "1.prems"(2,3) False True by (intro iffI; linarith)+
        moreover have "w = pos \<and> 32 - b \<le> p \<and> p < 32 - b + n
            \<longleftrightarrow> 32 * pos + (32 - b) \<le> 32 * w + p \<and> 32 * w + p < 32 * pos + (32 - b) + n"
        proof
          assume r: "32 * pos + (32 - b) \<le> 32 * w + p \<and> 32 * w + p < 32 * pos + (32 - b) + n"
          have "32 - b + n \<le> 32" using False "1.prems"(3) by linarith
          then have "w = pos" using r p by linarith
          with r show "w = pos \<and> 32 - b \<le> p \<and> p < 32 - b + n" by simp
        qed simp
        moreover have "32 * pos + 32 - b = 32 * pos + (32 - b)" using "1.prems"(3) by simp
        ultimately show ?thesis unfolding i by (simp only:)
      qed
      moreover have "pos < length bitmap" using pos "1.prems"(1) by simp
      ultimately show ?thesis using "1.prems"(1) unfolding step bit_at_or [OF \<open>pos < length bitmap\<close>] bits by simp
    next
      case False
      then show ?thesis using "1.prems"(1,2) by (subst (1 2) AddMasks.simps) auto
    qed
  qed
qed

lemma WordItems_spec:
  "set (WordItems w) = {i. i < 32 \<and> bit w (31 - i)} \<and> sorted_wrt (<) (WordItems w)"
proof (induction w rule: WordItems.induct)
  case (1 w)
  show ?case
  proof (cases "w = 0")
    case False
    let ?c = "clz w" and ?w = "w AND NOT (push_bit (31 - clz w) 1)"
    note c = clz_spec [OF False]
    have items: "WordItems w = ?c # WordItems ?w" using False by (subst WordItems.simps) (simp add: Let_def)
    have IH: "set (WordItems ?w) = {i. i < 32 \<and> bit ?w (31 - i)}" "sorted_wrt (<) (WordItems ?w)"
      using "1.IH" [OF False refl] by simp_all
    have rest: "i < 32 \<and> bit ?w (31 - i) \<longleftrightarrow> i < 32 \<and> bit w (31 - i) \<and> i \<noteq> ?c" for i
    proof -
      have "31 - i = 31 - ?c \<longleftrightarrow> i = ?c" if "i < 32" using that c by linarith
      then show ?thesis by (auto simp: bit_and_iff bit_not_iff bit_exp_iff possible_bit_word)
    qed
    have "?c < i" if "i < 32" "bit w (31 - i)" "i \<noteq> ?c" for i
      using c that by (metis linorder_neqE_nat)
    moreover have "set (WordItems ?w) = {i. i < 32 \<and> bit w (31 - i) \<and> i \<noteq> ?c}" using IH(1) rest by auto
    ultimately show ?thesis using IH(2) c unfolding items by auto
  qed (simp add: WordItems.simps)
qed

lemma n_longs_div: "unat n \<le> 256 \<Longrightarrow> n_longs n = (unat n + 31) div 32"
proof -
  assume "unat n \<le> 256"
  then have "unat (n + 31) = unat n + 31" by (simp add: unat_word_ariths)
  then show ?thesis using word_pos_div [of "n + 31"] by (simp add: n_longs_def word_pos_def)
qed

lemma bit_at_take_words: "i < 32 * k \<Longrightarrow> bit_at (take k bitmap) i = bit_at bitmap i"
proof -
  assume "i < 32 * k"
  then have "i div 32 < k" by (simp add: less_mult_imp_div_less mult.commute)
  then show ?thesis by (simp add: bit_at_def)
qed

lemma used_words:
  assumes "bits_ok r"
  shows "length (take (n_longs (br_num_bits r)) (br_bitmap r)) = n_longs (br_num_bits r)
    \<and> {i. i < 32 * n_longs (br_num_bits r) \<and> bit_at (take (n_longs (br_num_bits r)) (br_bitmap r)) i}
      = members (br_bitmap r)"
proof -
  have nb: "unat (br_num_bits r) \<le> 256" "length (br_bitmap r) = 8" using assms by (simp_all add: bits_ok_def)
  note k = n_longs_div [OF nb(1)]
  have "32 * n_longs (br_num_bits r) \<le> 256"
    using nb(1) div_le_mono [of "unat (br_num_bits r) + 31" 287 32] unfolding k by simp
  moreover have "unat (br_num_bits r) \<le> 32 * n_longs (br_num_bits r)" unfolding k by linarith
  ultimately show ?thesis using assms nb
    by (auto simp: bit_at_take_words members_def bits_ok_def)
qed

lemma bit_drop_full: "bit (drop_bit k (NOT 0 :: u32)) j \<longleftrightarrow> j < 32 - k"
  by (auto simp: bit_mask_iff possible_bit_word)

lemma bit_at_Cons: "bit_at (w # ws) i \<longleftrightarrow> (if i < 32 then bit w (31 - i) else bit_at ws (i - 32))"
  by (cases "i < 32") (simp_all add: bit_at_def le_div_geq le_mod_geq)

lemma set_bits_Cons:
  "{i. i < 32 * length (w # ws) \<and> bit_at (w # ws) i}
     = {i. i < 32 \<and> bit w (31 - i)} \<union> (\<lambda>i. i + 32) ` {i. i < 32 * length ws \<and> bit_at ws i}"
proof (rule set_eqI)
  fix i
  show "i \<in> {i. i < 32 * length (w # ws) \<and> bit_at (w # ws) i}
    \<longleftrightarrow> i \<in> {i. i < 32 \<and> bit w (31 - i)} \<union> (\<lambda>i. i + 32) ` {i. i < 32 * length ws \<and> bit_at ws i}"
  proof (cases "i < 32")
    case False
    then obtain j where "i = j + 32" by (metis add.commute le_add_diff_inverse not_less)
    then show ?thesis by (auto simp: bit_at_Cons)
  qed (auto simp: bit_at_Cons)
qed

lemma MinFrom_ForEachFrom:
  "MinFrom ops item ws = (case ForEachFrom ops item ws of [] \<Rightarrow> None | x # _ \<Rightarrow> Some x)"
proof (induction ws arbitrary: item)
  case (Cons w ws)
  have "WordItems w = (if w = 0 then [] else clz w # WordItems (w AND NOT (push_bit (31 - clz w) 1)))"
    by (subst WordItems.simps) (simp add: Let_def)
  then show ?case using Cons by simp
qed simp

text \<open>What \<open>bitmap_set\<close> reads: the bits below the given number.\<close>

lemma bit_at_take_fill:
  assumes "n \<le> 8" and "n \<le> length words" and "i < 256"
  shows "bit_at (take n words @ replicate (8 - n) 0) i \<longleftrightarrow> i < 32 * n \<and> bit_at words i"
proof -
  obtain w p where i: "i = 32 * w + p" and p: "p < 32" and w: "w < 8" using index_split [of i] assms(3) by blast
  have "i < 32 * n \<longleftrightarrow> w < n" unfolding i using p by linarith
  then show ?thesis using assms p w unfolding i bit_at_split [OF p] by (auto simp: nth_append)
qed

lemma bit_at_trim:
  assumes "q < length bitmap"
  shows "bit_at (bitmap[q := bitmap ! q AND NOT (drop_bit s (NOT 0))]) i
    \<longleftrightarrow> bit_at bitmap i \<and> \<not> (i div 32 = q \<and> s \<le> i mod 32)"
proof (cases "i div 32 = q")
  case True
  have "i mod 32 < 32" by simp
  then have trim: "31 - i mod 32 < 32 - s \<longleftrightarrow> s \<le> i mod 32" by (intro iffI; linarith)
  have "bit (bitmap[q := bitmap ! q AND NOT (drop_bit s (NOT 0))] ! q) (31 - i mod 32)
    \<longleftrightarrow> bit (bitmap ! q) (31 - i mod 32) \<and> \<not> s \<le> i mod 32"
    unfolding nth_list_update_eq [OF assms] bit_and_iff bit_not_iff bit_drop_full trim
    using bit_u32D [of "bitmap ! q" "31 - i mod 32"] by (auto simp: possible_bit_word)
  then show ?thesis using True by (simp add: bit_at_def)
qed (simp add: bit_at_def)

lemma calc_maximum_ok:
  assumes len: "length bm = 8" and k: "k \<le> 8" and below: "\<And>i. i \<in> members bm \<Longrightarrow> i < 32 * k"
  shows "bits_ok (r\<lparr>br_bitmap := bm, br_num_bits := calc_maximum_bit_set bm k 0\<rparr>)
    \<and> tight (r\<lparr>br_bitmap := bm, br_num_bits := calc_maximum_bit_set bm k 0\<rparr>)"
proof -
  let ?c = "calc_maximum_bit_set bm k 0"
  from calc_maximum_spec [OF k, of bm 0]
  have c: "unat ?c \<le> 32 * k" "\<And>i. unat ?c \<le> i \<Longrightarrow> i < 32 * k \<Longrightarrow> \<not> bit_at bm i"
    "0 < unat ?c \<Longrightarrow> bit_at bm (unat ?c - 1)" by auto
  have "unat ?c \<le> 256" using c(1) k by linarith
  moreover have "i < unat ?c" if "i \<in> members bm" for i
    using c(2) [of i] below [OF that] that by (auto simp: members_def not_less [symmetric])
  moreover have "unat ?c - 1 \<in> members bm" if "0 < unat ?c"
    using c(3) [OF that] \<open>unat ?c \<le> 256\<close> that by (simp add: members_def)
  ultimately show ?thesis using len by (simp add: bits_ok_def tight_def)
qed

text \<open>
  \<open>bitmap_set\<close> with at most \<open>NBITS\<close> bits: whatever the words hold, afterwards the window holds exactly the bits
  below the number, and the number is tight.
\<close>

lemma n_longs_bounds:
  assumes "unat n \<le> 256"
  shows "n_longs n \<le> 8" and "unat n \<le> 32 * n_longs n" and "0 < n_longs n \<longleftrightarrow> 0 < unat n"
    and "32 * n_longs n < unat n + 32"
proof -
  show "n_longs n \<le> 8" "unat n \<le> 32 * n_longs n" "32 * n_longs n < unat n + 32"
    using assms unfolding n_longs_div [OF assms] by linarith+
  show "0 < n_longs n \<longleftrightarrow> 0 < unat n" unfolding n_longs_div [OF assms] by (intro iffI; linarith)
qed

lemma below_last_word:
  assumes "n mod 32 \<noteq> (0 :: nat)"
  shows "i < 32 * ((n + 31) div 32) \<and> \<not> (i div 32 = (n + 31) div 32 - 1 \<and> n mod 32 \<le> i mod 32) \<longleftrightarrow> i < n"
proof -
  obtain q s where n: "n = 32 * q + s" "s < 32"
    using mult_div_mod_eq [of 32 n] by (metis mod_less_divisor zero_less_numeral)
  obtain w p where i: "i = 32 * w + p" "p < 32" using index_split [of i] by blast
  have "0 < s" using assms n by (cases s) simp_all
  then have last: "(n + 31) div 32 = q + 1" using n by simp
  have parts: "n mod 32 = s" "i mod 32 = p" "i div 32 = w" using n i by simp_all
  consider "w < q" | "w = q" | "q < w" by linarith
  then show ?thesis
  proof cases
    case 1
    then have "32 * w + 32 \<le> 32 * q" by linarith
    then show ?thesis using 1 i n unfolding last parts by simp
  next
    case 3
    then have "32 * q + 32 \<le> 32 * w" by linarith
    then show ?thesis using 3 i n unfolding last parts by simp
  qed (use i n in \<open>unfold last parts, auto\<close>)
qed

lemma bitmap_set_spec:
  assumes n: "unat n \<le> 256" and words: "n_longs n \<le> length words"
  shows "bits_ok (bitmap_set n words r) \<and> tight (bitmap_set n words r)
    \<and> members (br_bitmap (bitmap_set n words r)) = {i. i < unat n \<and> bit_at words i}"
proof -
  let ?k = "n_longs n" and ?s = "unat n mod 32"
  let ?filled = "take ?k words @ replicate (8 - ?k) 0"
  let ?bm = "if 0 < n \<and> ?s \<noteq> 0
     then ?filled[?k - 1 := ?filled ! (?k - 1) AND NOT (drop_bit ?s (NOT 0))] else ?filled"
  let ?c = "calc_maximum_bit_set ?bm ?k 0"
  note k = n_longs_bounds [OF n]
  have "min n (of_nat NBITS) = n" using n unat_256(1) by (simp add: min_def word_le_nat_alt)
  then have r: "bitmap_set n words r = r\<lparr>br_bitmap := ?bm, br_num_bits := ?c\<rparr>"
    unfolding bitmap_set_def Let_def unat_and_31 NITEMS_def by (simp only:)
  have len: "length ?filled = 8" using words k(1) by simp
  then have "length ?bm = 8" by simp
  have at: "bit_at ?bm i \<longleftrightarrow> i < unat n \<and> bit_at words i" if "i < 256" for i
  proof (cases "0 < n \<and> ?s \<noteq> 0")
    case True
    then have "0 < unat n" by (metis gr0I mod_0)
    then have "0 < ?k" using k(3) by simp
    then have trim: "bit_at ?bm i \<longleftrightarrow> bit_at ?filled i \<and> \<not> (i div 32 = ?k - 1 \<and> ?s \<le> i mod 32)"
      using bit_at_trim [of "?k - 1" ?filled ?s i] True len k(1) by simp
    have "i < 32 * ?k \<and> \<not> (i div 32 = ?k - 1 \<and> ?s \<le> i mod 32) \<longleftrightarrow> i < unat n"
      unfolding n_longs_div [OF n] by (rule below_last_word) (use True in simp)
    then show ?thesis unfolding trim bit_at_take_fill [OF k(1) words that] by blast
  next
    case False
    then have "?s = 0" by (metis mod_0 unat_0 word_gt_0)
    then obtain q where q: "unat n = 32 * q" by auto
    then have "?k = q" using k(2,4) unfolding q by linarith
    then have "32 * ?k = unat n" using q by simp
    then show ?thesis using False bit_at_take_fill [OF k(1) words that] by auto
  qed
  then have mem: "members ?bm = {i. i < unat n \<and> bit_at words i}" using n by (auto simp: members_def)
  have "i < 32 * ?k" if "i \<in> members ?bm" for i
    using that k(2) unfolding mem by simp
  then have "bits_ok (r\<lparr>br_bitmap := ?bm, br_num_bits := ?c\<rparr>) \<and> tight (r\<lparr>br_bitmap := ?bm, br_num_bits := ?c\<rparr>)"
    by (rule calc_maximum_ok [OF \<open>length ?bm = 8\<close> k(1)])
  moreover have "br_bitmap (r\<lparr>br_bitmap := b, br_num_bits := c\<rparr>) = b" for b c by simp
  ultimately show ?thesis unfolding r using mem by (simp only: simp_thms)
qed

text \<open>A tight range is determined by its members.\<close>

lemma members_inject:
  assumes len: "length bm = 8" "length bm' = 8" and eq: "members bm = members bm'"
  shows "bm = bm'"
proof (rule nth_equalityI)
  show "length bm = length bm'" using len by simp
next
  fix w assume w: "w < length bm"
  show "bm ! w = bm' ! w"
  proof (rule bit_word_eqI)
    fix n assume "n < LENGTH(32)"
    then have n: "31 - n < 32" "31 - (31 - n) = n" by simp_all
    have "32 * w + (31 - n) < 256" using n(1) w len by simp
    then have "bit_at bm (32 * w + (31 - n)) \<longleftrightarrow> bit_at bm' (32 * w + (31 - n))"
      using eq by (auto simp: members_def)
    then show "bit (bm ! w) n \<longleftrightarrow> bit (bm' ! w) n" unfolding bit_at_split [OF n(1)] n(2) .
  qed
qed

lemma tight_num_bits:
  "bits_ok r \<Longrightarrow> tight r \<Longrightarrow> unat (br_num_bits r) = (if members (br_bitmap r) = {} then 0 else Suc (Max (members (br_bitmap r))))"
proof -
  assume ok: "bits_ok r" "tight r"
  have fin: "finite (members (br_bitmap r))" by (simp add: members_def)
  have "Max (members (br_bitmap r)) = unat (br_num_bits r) - 1" if "0 < unat (br_num_bits r)"
    using ok that by (intro Max_eqI fin) (auto simp: bits_ok_def tight_def)
  moreover have "members (br_bitmap r) = {} \<longleftrightarrow> unat (br_num_bits r) = 0"
    using ok by (auto simp: bits_ok_def tight_def)
  ultimately show ?thesis by auto
qed

lemma range_eqI:
  assumes "bits_ok r" "tight r" "bits_ok r'" "tight r'" and "members (br_bitmap r) = members (br_bitmap r')"
    and "br_base r = br_base r'" "br_range_max r = br_range_max r'"
  shows "r = (r' :: 't BitmapRange)"
proof (rule BitmapRange.equality)
  show "br_bitmap r = br_bitmap r'" using assms(1,3,5) by (intro members_inject) (simp_all add: bits_ok_def)
  have "unat (br_num_bits r) = unat (br_num_bits r')"
    unfolding tight_num_bits [OF assms(1,2)] tight_num_bits [OF assms(3,4)] assms(5) by (rule refl)
  then show "br_num_bits r = br_num_bits r'" by (simp only: word_unat_eq_iff)
qed (use assms in simp_all)

end
