(* ===== verification/Bitmap_Set.thy ===== *)
theory Bitmap_Set
  imports Bitmap_Range
begin

text \<open>
  \<open>BitmapRange\<close> implements finite sets of items.  The locale \<open>range_item\<close> is the contract of the template
  parameters: item positions are integers up to \<open>limit\<close>, the order is theirs, adding a count adds, and the
  difference functor is exact below \<open>2 ^ 32\<close>.  Each operation is shown to be the set operation on
  \<open>br_elems\<close>; the interpretations give the facts for \<open>SequenceNumberSet_t\<close> and \<open>FragmentNumberSet_t\<close>.
\<close>

definition br_elems :: "('t \<Rightarrow> int) \<Rightarrow> 't BitmapRange \<Rightarrow> int set" where
  "br_elems pos r = (\<lambda>i. pos (br_base r) + int i) ` members (br_bitmap r)"

definition range_ok :: "('t \<Rightarrow> int) \<Rightarrow> int \<Rightarrow> 't BitmapRange \<Rightarrow> bool" where
  "range_ok pos limit r \<longleftrightarrow> bits_ok r \<and> pos (br_base r) + 256 \<le> limit
     \<and> pos (br_range_max r) \<le> pos (br_base r) + 255"

text \<open>Adding items one by one.\<close>

definition AddEach :: "('t :: linorder) ItemOps \<Rightarrow> 't list \<Rightarrow> 't BitmapRange \<Rightarrow> 't BitmapRange" where
  "AddEach ops items r = foldl (\<lambda>r item. fst (br_add ops item r)) r items"

lemma uint_unat_u32: "uint (n :: u32) = int (unat n)"
  by (rule uint_nat)

lemma br_elems_remove:
  "members (br_bitmap r') = members (br_bitmap r) - {k} \<Longrightarrow> br_base r' = br_base r \<Longrightarrow>
   p = pos (br_base r) + int k \<Longrightarrow> br_elems pos r' = br_elems pos r - {p}"
proof -
  assume "members (br_bitmap r') = members (br_bitmap r) - {k}" "br_base r' = br_base r" "p = pos (br_base r) + int k"
  moreover have "inj (\<lambda>i. pos (br_base r) + int i)" by (simp add: inj_def)
  ultimately show ?thesis by (simp only: br_elems_def image_set_diff image_insert image_empty)
qed

lemma below_word_end: "(i :: nat) \<le> n \<Longrightarrow> i < 32 * (n div 32 + 1)"
  using dividend_less_div_times [of 32 n] by (simp add: mult.commute)

lemma index_interval:
  "int k = lo - b \<Longrightarrow> int n = hi - lo \<Longrightarrow> b \<le> lo \<Longrightarrow>
   nat (p - b) \<in> {k..<k + n} \<and> b \<le> p \<longleftrightarrow> lo \<le> p \<and> p < hi"
  by auto

locale range_item =
  fixes ops :: "('t :: linorder) ItemOps" and pos :: "'t \<Rightarrow> int" and limit :: int
  assumes pos_le: "pos a \<le> pos b \<longleftrightarrow> a \<le> b"
    and pos_plus: "pos a + uint n \<le> limit \<Longrightarrow> pos (item_plus ops a n) = pos a + uint n"
    and pos_diff: "b \<le> a \<Longrightarrow> pos a - pos b < 2 ^ 32 \<Longrightarrow> uint (item_diff ops a b) = pos a - pos b"
begin

lemma pos_eq: "pos a = pos b \<longleftrightarrow> a = b"
  by (metis pos_le order_antisym order_refl)

lemma pos_less: "pos a < pos b \<longleftrightarrow> a < b"
  by (meson pos_le not_le)

lemma elems_iff: "p \<in> br_elems pos r \<longleftrightarrow> pos (br_base r) \<le> p \<and> nat (p - pos (br_base r)) \<in> members (br_bitmap r)"
  by (auto simp: br_elems_def image_iff intro!: bexI [of _ "nat (p - pos (br_base r))"])

lemma elems_window: "p \<in> br_elems pos r \<Longrightarrow> p \<le> pos (br_base r) + 255"
  by (auto simp: br_elems_def members_def)

lemma diff_index:
  assumes "br_base r \<le> x" and "pos x \<le> pos (br_base r) + 255"
  shows "int (unat (item_diff ops x (br_base r))) = pos x - pos (br_base r)"
    and "unat (item_diff ops x (br_base r)) < 256"
proof -
  show d: "int (unat (item_diff ops x (br_base r))) = pos x - pos (br_base r)"
    using pos_diff [OF assms(1)] assms(2) unfolding uint_unat_u32 by simp
  then show "unat (item_diff ops x (br_base r)) < 256" using assms(2) by linarith
qed

lemma new_spec:
  assumes "pos base + 256 \<le> limit"
  shows "range_ok pos limit (BitmapRange_new ops base max_bits) \<and> tight (BitmapRange_new ops base max_bits)
    \<and> br_elems pos (BitmapRange_new ops base max_bits) = {}"
proof -
  let ?n = "min max_bits (of_nat NBITS - 1) :: u32"
  have "unat ?n \<le> 255" using unat_256(2) by (metis min.cobounded2 word_le_nat_alt)
  then have "uint ?n \<le> 255" unfolding uint_unat_u32 by linarith
  moreover from this assms have "pos (item_plus ops base ?n) = pos base + uint ?n" by (intro pos_plus) linarith
  ultimately show ?thesis using assms
    by (simp add: BitmapRange_new_def range_ok_def bits_ok_def tight_def br_elems_def NITEMS_def)
qed

lemma add_spec:
  assumes ok: "range_ok pos limit r" and run: "br_add ops x r = (r', added)"
  shows "range_ok pos limit r' \<and> (added \<longleftrightarrow> br_base r \<le> x \<and> x \<le> br_range_max r)
    \<and> br_elems pos r' = (if added then insert (pos x) (br_elems pos r) else br_elems pos r)
    \<and> (tight r \<longrightarrow> tight r')"
proof (cases "br_base r \<le> x \<and> x \<le> br_range_max r")
  case False
  then show ?thesis using run ok by (auto simp: br_add_def)
next
  case True
  let ?d = "item_diff ops x (br_base r)"
  have bits: "bits_ok r" and len: "length (br_bitmap r) = 8" using ok by (simp_all add: range_ok_def bits_ok_def)
  have "pos x \<le> pos (br_base r) + 255"
    using True ok pos_le [of x "br_range_max r"] by (simp add: range_ok_def)
  note d = diff_index [OF conjunct1 [OF True] this]
  have r': "r' = r\<lparr>br_num_bits := max (?d + 1) (br_num_bits r),
      br_bitmap := (br_bitmap r)[word_pos ?d := br_bitmap r ! word_pos ?d OR word_mask ?d]\<rparr>" "added"
    using run True by (auto simp: br_add_def Let_def)
  have mem: "members (br_bitmap r') = insert (unat ?d) (members (br_bitmap r))"
    using members_set [OF len d(2)] by (simp add: r')
  have "unat (?d + 1) = unat ?d + 1" using d(2) by (simp add: unat_word_ariths)
  then have num: "unat (br_num_bits r') = max (unat ?d + 1) (unat (br_num_bits r))"
    by (simp add: r' max_def word_le_nat_alt)
  have "bits_ok r'" using bits d(2) unfolding bits_ok_def mem num by (auto simp: r')
  then have "range_ok pos limit r'" using ok by (simp add: range_ok_def r')
  moreover have "br_elems pos r' = insert (pos x) (br_elems pos r)"
    using d(1) unfolding br_elems_def mem by (simp add: r')
  moreover have "tight r'" if "tight r"
    using that unfolding tight_def mem num by (auto simp: max_def)
  ultimately show ?thesis using True r'(2) by simp
qed

lemma is_set_spec:
  assumes ok: "range_ok pos limit r"
  shows "is_set ops x r \<longleftrightarrow> pos x \<in> br_elems pos r \<and> x \<le> br_range_max r"
proof (cases "br_base r \<le> x \<and> x \<le> br_range_max r")
  case True
  let ?d = "item_diff ops x (br_base r)"
  have bits: "bits_ok r" using ok by (simp add: range_ok_def)
  have "pos x \<le> pos (br_base r) + 255"
    using True ok pos_le [of x "br_range_max r"] by (simp add: range_ok_def)
  note d = diff_index [OF conjunct1 [OF True] this]
  have "is_set ops x r \<longleftrightarrow> unat ?d < unat (br_num_bits r) \<and> bit_at (br_bitmap r) (unat ?d)"
    using True by (simp add: is_set_def Let_def and_word_mask bit_at_def word_pos_div word_less_nat_alt)
  also have "\<dots> \<longleftrightarrow> unat ?d \<in> members (br_bitmap r)"
    using bits d(2) by (auto simp: bits_ok_def members_def)
  also have "unat ?d = nat (pos x - pos (br_base r))" unfolding d(1) [symmetric] by (rule nat_int [symmetric])
  finally show ?thesis using True pos_le by (simp add: elems_iff)
next
  case False
  then show ?thesis using pos_le by (auto simp: is_set_def elems_iff)
qed

lemma max_spec:
  assumes ok: "range_ok pos limit r" and "tight r" and "br_num_bits r \<noteq> 0"
  shows "pos (br_max ops r) \<in> br_elems pos r \<and> (\<forall>p \<in> br_elems pos r. p \<le> pos (br_max ops r))"
proof -
  have bits: "bits_ok r" using ok by (simp add: range_ok_def)
  have n: "0 < unat (br_num_bits r)" "unat (br_num_bits r) \<le> 256"
    using assms(3) bits by (simp_all add: bits_ok_def unat_gt_0)
  then have "unat (br_num_bits r - 1) = unat (br_num_bits r) - 1" by (simp add: unat_sub word_le_nat_alt)
  moreover from this have "pos (br_max ops r) = pos (br_base r) + uint (br_num_bits r - 1)"
    unfolding br_max_def using ok n by (intro pos_plus) (unfold range_ok_def uint_unat_u32, linarith)
  ultimately have max: "pos (br_max ops r) = pos (br_base r) + int (unat (br_num_bits r) - 1)"
    unfolding uint_unat_u32 by (simp only:)
  have "unat (br_num_bits r) - 1 \<in> members (br_bitmap r)" using assms(2) n by (simp add: tight_def)
  moreover have "i \<le> unat (br_num_bits r) - 1" if "i \<in> members (br_bitmap r)" for i
    using bits that by (auto simp: bits_ok_def)
  ultimately show ?thesis unfolding br_elems_def max by fastforce
qed

lemma remove_spec:
  assumes ok: "range_ok pos limit r" and "tight r" and "br_num_bits r \<noteq> 0"
  shows "\<exists>r'. br_remove ops x r = Some r' \<and> range_ok pos limit r' \<and> tight r'
    \<and> br_elems pos r' = br_elems pos r - {pos x}"
proof (cases "br_base r \<le> x \<and> x \<le> br_max ops r")
  case False
  have "pos x \<notin> br_elems pos r"
  proof
    assume mem: "pos x \<in> br_elems pos r"
    then have "pos x \<le> pos (br_max ops r)" using max_spec [OF assms] by blast
    moreover have "pos (br_base r) \<le> pos x" using mem by (simp add: elems_iff)
    ultimately show False using False by (simp add: pos_le)
  qed
  then show ?thesis using False assms by (auto simp: br_remove_def Let_def)
next
  case True
  let ?d = "item_diff ops x (br_base r)"
  have bits: "bits_ok r" and len: "length (br_bitmap r) = 8" using ok by (simp_all add: range_ok_def bits_ok_def)
  have max: "pos (br_max ops r) \<in> br_elems pos r" "\<And>p. p \<in> br_elems pos r \<Longrightarrow> p \<le> pos (br_max ops r)"
    using max_spec [OF assms] by blast+
  have "pos x \<le> pos (br_base r) + 255" using True elems_window [OF max(1)] pos_le [of x "br_max ops r"] by simp
  note d = diff_index [OF conjunct1 [OF True] this]
  let ?bm = "(br_bitmap r)[word_pos ?d := br_bitmap r ! word_pos ?d AND NOT (word_mask ?d)]"
  let ?n = "if x = br_max ops r then calc_maximum_bit_set ?bm (word_pos ?d + 1) 0 else br_num_bits r"
  let ?r = "r\<lparr>br_bitmap := ?bm, br_num_bits := ?n\<rparr>"
  have wp: "word_pos ?d < 8" using d(2) by (simp add: word_pos_div)
  have run: "br_remove ops x r = Some ?r"
    using True wp by (simp add: br_remove_def Let_def NITEMS_def)
  have mem: "members ?bm = members (br_bitmap r) - {unat ?d}" by (rule members_clear [OF len d(2)])
  obtain k where k: "unat ?d = k" by simp
  have "pos x = pos (br_base r) + int k" using d(1) unfolding k by linarith
  then have elems: "br_elems pos ?r = br_elems pos r - {pos x}"
    by (intro br_elems_remove [of _ _ k]) (simp_all add: mem k)
  have "bits_ok ?r \<and> tight ?r"
  proof (cases "x = br_max ops r")
    case True
    have "i < 32 * (word_pos ?d + 1)" if "i \<in> members ?bm" for i
    proof -
      have "pos (br_base r) + int i \<in> br_elems pos r" using that mem by (auto simp: br_elems_def)
      then have "int i \<le> int (unat ?d)" using max(2) d(1) True by fastforce
      then have "i \<le> unat ?d" by (simp only: of_nat_le_iff)
      then show ?thesis unfolding word_pos_div by (rule below_word_end)
    qed
    moreover have "length ?bm = 8" "word_pos ?d + 1 \<le> 8" using len wp by simp_all
    ultimately show ?thesis using calc_maximum_ok [of ?bm "word_pos ?d + 1" r] True by simp
  next
    case False
    have "unat (br_num_bits r) - 1 \<noteq> unat ?d"
    proof
      assume eq: "unat (br_num_bits r) - 1 = unat ?d"
      have "p \<le> pos x" if p: "p \<in> br_elems pos r" for p
      proof -
        obtain i where i: "p = pos (br_base r) + int i" "i \<in> members (br_bitmap r)"
          using p by (auto simp: br_elems_def)
        then have "i \<le> unat ?d" using bits eq by (auto simp: bits_ok_def)
        then have "int i \<le> int (unat ?d)" by (simp only: of_nat_le_iff)
        then show ?thesis using i(1) d(1) by linarith
      qed
      then have "br_max ops r \<le> x" using max(1) pos_le by blast
      with True \<open>x \<noteq> br_max ops r\<close> show False by simp
    qed
    then show ?thesis using bits \<open>tight r\<close> False len by (auto simp: bits_ok_def tight_def mem)
  qed
  then show ?thesis using run elems ok by (auto simp: range_ok_def)
qed

lemma base_update_spec:
  assumes ok: "range_ok pos limit r" and room: "pos base + 256 \<le> limit"
    and near: "\<bar>pos base - pos (br_base r)\<bar> < 2 ^ 32"
  shows "range_ok pos limit (base_update ops base r) \<and> br_base (base_update ops base r) = base
    \<and> br_elems pos (base_update ops base r) = {p \<in> br_elems pos r. pos base \<le> p \<and> p \<le> pos base + 255}
    \<and> (tight r \<and> br_num_bits r \<noteq> 0 \<longrightarrow> tight (base_update ops base r))"
proof (cases "base = br_base r")
  case True
  then show ?thesis using ok elems_window by (auto simp: base_update_def elems_iff)
next
  case False
  have bits: "bits_ok r" using ok by (simp add: range_ok_def)
  have "uint (of_nat NBITS - 1 :: u32) = 255" unfolding uint_unat_u32 unat_256 by simp
  then have max: "pos (item_plus ops base (of_nat NBITS - 1)) = pos base + 255"
    using pos_plus [of base "of_nat NBITS - 1"] room by simp
  let ?r = "base_update ops base r"
  show ?thesis
  proof (cases "br_base r < base")
    case True
    let ?k = "item_diff ops base (br_base r)"
    have k: "int (unat ?k) = pos base - pos (br_base r)"
      using pos_diff [of "br_base r" base] True near pos_less [of "br_base r" base] unfolding uint_unat_u32 by simp
    have r: "?r = (shift_map_left ?k r)\<lparr>br_base := base, br_range_max := item_plus ops base (of_nat NBITS - 1)\<rparr>"
      using True False by (simp add: base_update_def Let_def)
    note sh = shift_map_left_spec [OF bits, of ?k]
    have bits': "bits_ok ?r" and tight': "tight r \<longrightarrow> tight ?r" using sh by (simp_all add: r)
    have mem: "members (br_bitmap ?r) = {i. i + unat ?k \<in> members (br_bitmap r)}" using sh by (simp add: r)
    have "p \<in> br_elems pos ?r \<longleftrightarrow> p \<in> br_elems pos r \<and> pos base \<le> p" for p
    proof -
      have "nat (p - pos (br_base r)) = nat (p - pos base) + unat ?k" if "pos base \<le> p" using that k by linarith
      moreover have "pos (br_base r) \<le> pos base" using k by linarith
      ultimately show ?thesis unfolding elems_iff mem by (auto simp: r)
    qed
    moreover have "p \<le> pos base + 255" if "p \<in> br_elems pos ?r" for p using elems_window [OF that] by (simp add: r)
    ultimately have "br_elems pos ?r = {p \<in> br_elems pos r. pos base \<le> p \<and> p \<le> pos base + 255}" by blast
    then show ?thesis using bits' tight' room max by (simp add: range_ok_def r)
  next
    case lower: False
    let ?k = "item_diff ops (br_base r) base"
    have le: "base \<le> br_base r" using lower by simp
    have k: "int (unat ?k) = pos (br_base r) - pos base"
      using pos_diff [OF le] near pos_le [of base "br_base r"] le unfolding uint_unat_u32 by simp
    have r: "?r = (shift_map_right ?k r)\<lparr>br_base := base, br_range_max := item_plus ops base (of_nat NBITS - 1)\<rparr>"
      using lower False by (simp add: base_update_def Let_def)
    note sh = shift_map_right_spec [OF bits, of ?k]
    have bits': "bits_ok ?r" and tight': "tight r \<and> br_num_bits r \<noteq> 0 \<longrightarrow> tight ?r"
      using sh by (simp_all add: r)
    have mem: "members (br_bitmap ?r) = {i. i < 256 \<and> unat ?k \<le> i \<and> i - unat ?k \<in> members (br_bitmap r)}"
      using sh by (simp add: r)
    have "p \<in> br_elems pos ?r \<longleftrightarrow> p \<in> br_elems pos r \<and> pos base \<le> p \<and> p \<le> pos base + 255" for p
    proof (cases "pos (br_base r) \<le> p")
      case True
      then have "nat (p - pos base) - unat ?k = nat (p - pos (br_base r))" "unat ?k \<le> nat (p - pos base)"
        "pos base \<le> p" using k by linarith+
      moreover have "nat (p - pos base) < 256 \<longleftrightarrow> p \<le> pos base + 255" using \<open>pos base \<le> p\<close> by linarith
      moreover have "br_base ?r = base" by (simp add: r)
      ultimately show ?thesis using True unfolding elems_iff mem by auto
    next
      case False
      then have "\<not> (pos base \<le> p \<and> unat ?k \<le> nat (p - pos base))" using k by linarith
      moreover have "br_base ?r = base" by (simp add: r)
      ultimately show ?thesis using False unfolding elems_iff mem by auto
    qed
    then have "br_elems pos ?r = {p \<in> br_elems pos r. pos base \<le> p \<and> p \<le> pos base + 255}" by blast
    then show ?thesis using bits' tight' room max by (simp add: range_ok_def r)
  qed
qed

lemma add_range_spec:
  assumes ok: "range_ok pos limit r"
  shows "range_ok pos limit (br_add_range ops from to r)
    \<and> br_elems pos (br_add_range ops from to r) = br_elems pos r
        \<union> {p. pos (br_base r) \<le> p \<and> pos from \<le> p \<and> p < pos to \<and> p < pos (br_base r) + 256}
    \<and> (tight r \<longrightarrow> tight (br_add_range ops from to r))"
proof -
  let ?lo = "if br_base r \<ge> from then br_base r else from"
  let ?stop = "item_plus ops (br_base r) (of_nat NBITS)"
  let ?hi = "if to \<ge> ?stop then ?stop else to"
  have "uint (of_nat NBITS :: u32) = 256" unfolding uint_unat_u32 unat_256 by simp
  then have the_stop: "pos ?stop = pos (br_base r) + 256"
    using pos_plus [of "br_base r" "of_nat NBITS"] ok by (simp add: range_ok_def)
  have lo: "pos ?lo = max (pos (br_base r)) (pos from)" using pos_le by (auto simp: max_def)
  have hi: "pos ?hi = min (pos to) (pos (br_base r) + 256)"
    using pos_le [of ?stop to] the_stop by (auto simp: min_def)
  have bits: "bits_ok r" and len: "length (br_bitmap r) = 8" using ok by (simp_all add: range_ok_def bits_ok_def)
  show ?thesis
  proof (cases "?lo \<ge> ?hi")
    case True
    then have "pos ?hi \<le> pos ?lo" by (simp only: pos_le)
    then have "{p. pos (br_base r) \<le> p \<and> pos from \<le> p \<and> p < pos to \<and> p < pos (br_base r) + 256} = {}"
      unfolding lo hi by auto
    moreover have "br_add_range ops from to r = r" using True by (simp add: br_add_range_def Let_def)
    ultimately show ?thesis using ok by (simp only: Un_empty_right simp_thms)
  next
    case False
    then have lt: "pos ?lo < pos ?hi" by (simp only: pos_less not_le)
    let ?o = "item_diff ops ?lo (br_base r)" and ?n = "item_diff ops ?hi ?lo"
    have base_lo: "br_base r \<le> ?lo" by (simp add: not_le less_imp_le)
    have lo_end: "pos ?lo < pos (br_base r) + 256" using lt hi by linarith
    have "pos ?lo \<le> pos (br_base r) + 255" using lo_end by linarith
    from base_lo this have o: "int (unat ?o) = pos ?lo - pos (br_base r)"
      using pos_diff [OF base_lo] unfolding uint_unat_u32 by simp
    have lo_hi: "?lo \<le> ?hi" using lt by (simp only: pos_less less_imp_le)
    have base_le: "pos (br_base r) \<le> pos ?lo" by (simp only: pos_le base_lo)
    have n: "int (unat ?n) = pos ?hi - pos ?lo"
      using pos_diff [OF lo_hi] base_le hi unfolding uint_unat_u32 by simp
    have sum: "unat ?o + unat ?n \<le> 256" "0 < unat ?n" using o n hi lt by linarith+
    let ?bm = "AddMasks (br_bitmap r) (word_pos ?o) (drop_bit (unat (?o AND 31)) (NOT 0)) (unat (32 - (?o AND 31))) (unat ?n)"
    have r: "br_add_range ops from to r = r\<lparr>br_num_bits := max (br_num_bits r) (?o + ?n), br_bitmap := ?bm\<rparr>"
      using False unfolding br_add_range_def Let_def by (simp only: if_False)
    have start: "32 * word_pos ?o + 32 - (32 - unat ?o mod 32) = unat ?o"
    proof -
      have "unat ?o mod 32 < 32" by simp
      then show ?thesis using mult_div_mod_eq [of 32 "unat ?o"] unfolding word_pos_div by linarith
    qed
    have masks: "length ?bm = 8 \<and> (\<forall>i. bit_at ?bm i \<longleftrightarrow>
        bit_at (br_bitmap r) i \<or> 32 * word_pos ?o + 32 - (32 - unat ?o mod 32) \<le> i
          \<and> i < 32 * word_pos ?o + 32 - (32 - unat ?o mod 32) + unat ?n)"
      unfolding unat_32_sub unat_and_31
    proof (rule AddMasks_spec [OF len])
      show "0 < 32 - unat ?o mod 32" "32 - unat ?o mod 32 \<le> 32" by simp_all
      show "bit (drop_bit (unat ?o mod 32) (NOT 0 :: u32)) j \<longleftrightarrow> j < 32 - unat ?o mod 32" for j
        by (rule bit_drop_full)
      show "32 * word_pos ?o + 32 - (32 - unat ?o mod 32) + unat ?n \<le> 256" unfolding start by (rule sum(1))
    qed
    have mem: "members ?bm = members (br_bitmap r) \<union> {unat ?o..<unat ?o + unat ?n}"
      using masks sum(1) unfolding start by (auto simp: members_def)
    have "unat (?o + ?n) = unat ?o + unat ?n" using sum(1) by (simp add: unat_word_ariths)
    then have num: "unat (max (br_num_bits r) (?o + ?n)) = max (unat (br_num_bits r)) (unat ?o + unat ?n)"
      by (simp add: max_def word_le_nat_alt)
    let ?r = "br_add_range ops from to r"
    have fields: "br_bitmap ?r = ?bm" "unat (br_num_bits ?r) = max (unat (br_num_bits r)) (unat ?o + unat ?n)"
      "br_base ?r = br_base r" "br_range_max ?r = br_range_max r" unfolding r using num by simp_all
    have "bits_ok ?r" using bits masks sum(1) unfolding bits_ok_def fields mem by auto
    moreover have "tight ?r" if "tight r"
      using that sum unfolding tight_def fields mem by (auto simp: max_def)
    moreover have "br_elems pos ?r = br_elems pos r
        \<union> {p. pos (br_base r) \<le> p \<and> pos from \<le> p \<and> p < pos to \<and> p < pos (br_base r) + 256}"
    proof -
      have "nat (p - pos (br_base r)) \<in> {unat ?o..<unat ?o + unat ?n} \<and> pos (br_base r) \<le> p
          \<longleftrightarrow> pos (br_base r) \<le> p \<and> pos from \<le> p \<and> p < pos to \<and> p < pos (br_base r) + 256" for p
      proof -
        have "nat (p - pos (br_base r)) \<in> {unat ?o..<unat ?o + unat ?n} \<and> pos (br_base r) \<le> p
            \<longleftrightarrow> pos ?lo \<le> p \<and> p < pos ?hi" by (rule index_interval [OF o n base_le])
        then show ?thesis unfolding lo hi by auto
      qed
      then show ?thesis unfolding set_eq_iff Un_iff elems_iff fields mem mem_Collect_eq by blast
    qed
    ultimately show ?thesis using ok unfolding range_ok_def fields by simp
  qed
qed

text \<open>Iteration visits the members in ascending order; the minimum is the first one visited.\<close>

lemma ForEachFrom_spec:
  "pos item + 32 * int (length ws) \<le> limit \<Longrightarrow>
   set (map pos (ForEachFrom ops item ws)) = (\<lambda>i. pos item + int i) ` {i. i < 32 * length ws \<and> bit_at ws i}
   \<and> sorted_wrt (<) (map pos (ForEachFrom ops item ws))"
proof (induction ws arbitrary: item)
  case (Cons w ws)
  have "uint (32 :: u32) = 32" by simp
  then have next_item: "pos (item_plus ops item 32) = pos item + 32"
    using pos_plus [of item 32] Cons.prems by simp
  let ?here = "map (\<lambda>i. item_plus ops item (of_nat i)) (WordItems w)"
  have at: "pos (item_plus ops item (of_nat i)) = pos item + int i" if "i \<in> set (WordItems w)" for i
  proof -
    have i: "i < 32" using that WordItems_spec [of w] by simp
    then have "unat (of_nat i :: u32) = i" by (simp add: unat_of_nat)
    then have "uint (of_nat i :: u32) = int i" unfolding uint_unat_u32 by simp
    then show ?thesis using pos_plus [of item "of_nat i"] i Cons.prems by simp
  qed
  then have here: "map pos ?here = map (\<lambda>i. pos item + int i) (WordItems w)" by simp
  note IH = Cons.IH [of "item_plus ops item 32", unfolded next_item]
  have rest: "set (map pos (ForEachFrom ops (item_plus ops item 32) ws))
      = (\<lambda>i. pos item + 32 + int i) ` {i. i < 32 * length ws \<and> bit_at ws i}"
    "sorted_wrt (<) (map pos (ForEachFrom ops (item_plus ops item 32) ws))"
    using IH Cons.prems by simp_all
  have all: "map pos (ForEachFrom ops item (w # ws))
      = map (\<lambda>i. pos item + int i) (WordItems w) @ map pos (ForEachFrom ops (item_plus ops item 32) ws)"
    using here by simp
  have shifted: "(\<lambda>i. pos item + int (i + 32)) = (\<lambda>i. pos item + 32 + int i)" by (simp add: fun_eq_iff)
  have words_here: "set (map (\<lambda>i. pos item + int i) (WordItems w))
      = (\<lambda>i. pos item + int i) ` {i. i < 32 \<and> bit w (31 - i)}" using WordItems_spec [of w] by simp
  have "set (map pos (ForEachFrom ops item (w # ws)))
      = (\<lambda>i. pos item + int i) ` {i. i < 32 * length (w # ws) \<and> bit_at (w # ws) i}"
    unfolding all set_append rest(1) set_bits_Cons image_Un image_image shifted words_here by (rule refl)
  moreover have "sorted_wrt (<) (map (\<lambda>i. pos item + int i) (WordItems w))"
    using WordItems_spec [of w] by (simp add: sorted_wrt_map)
  moreover have "x < y" if x: "x \<in> set (map (\<lambda>i. pos item + int i) (WordItems w))"
    and y: "y \<in> set (map pos (ForEachFrom ops (item_plus ops item 32) ws))" for x y
  proof -
    obtain i where "x = pos item + int i" "i < 32" using x unfolding words_here by blast
    moreover obtain j where "y = pos item + 32 + int j" using y unfolding rest(1) by blast
    ultimately show ?thesis by simp
  qed
  ultimately show ?case unfolding all sorted_wrt_append using rest(2) by blast
qed simp

lemma for_each_spec:
  assumes ok: "range_ok pos limit r"
  shows "map pos (for_each ops r) = sorted_list_of_set (br_elems pos r)"
proof -
  let ?ws = "take (n_longs (br_num_bits r)) (br_bitmap r)"
  have bits: "bits_ok r" using ok by (simp add: range_ok_def)
  have "n_longs (br_num_bits r) \<le> 8" using bits n_longs_bounds(1) by (simp add: bits_ok_def)
  then have "pos (br_base r) + 32 * int (length ?ws) \<le> limit"
    using ok used_words [OF bits] unfolding range_ok_def by linarith
  from ForEachFrom_spec [OF this] have "set (map pos (for_each ops r)) = br_elems pos r"
    "sorted_wrt (<) (map pos (for_each ops r))"
    using used_words [OF bits] unfolding for_each_def br_elems_def by simp_all
  then show ?thesis using sorted_list_of_set.idem_if_sorted_distinct strict_sorted_iff by metis
qed

lemma min_spec:
  assumes ok: "range_ok pos limit r" and "br_elems pos r \<noteq> {}"
  shows "pos (br_min ops r) \<in> br_elems pos r \<and> (\<forall>p \<in> br_elems pos r. pos (br_min ops r) \<le> p)"
proof -
  have "finite (br_elems pos r)" by (simp add: br_elems_def members_def)
  then have "set (map pos (for_each ops r)) = br_elems pos r" "sorted (map pos (for_each ops r))"
    unfolding for_each_spec [OF ok] by simp_all
  moreover from this assms(2) obtain x xs where list: "for_each ops r = x # xs" by (cases "for_each ops r") auto
  moreover have "br_min ops r = x"
    using list by (simp add: br_min_def MinFrom_ForEachFrom for_each_def)
  ultimately have "br_elems pos r = insert (pos (br_min ops r)) (set (map pos xs))"
    "sorted (pos (br_min ops r) # map pos xs)" by simp_all
  then show ?thesis by (simp only: sorted_simps insert_iff) blast
qed

text \<open>The loop the comment of \<open>add_range\<close> gives as its meaning.\<close>

lemma AddEach_spec:
  "range_ok pos limit r \<Longrightarrow> range_ok pos limit (AddEach ops xs r)
    \<and> br_base (AddEach ops xs r) = br_base r \<and> br_range_max (AddEach ops xs r) = br_range_max r
    \<and> br_elems pos (AddEach ops xs r)
        = br_elems pos r \<union> {p \<in> pos ` set xs. pos (br_base r) \<le> p \<and> p \<le> pos (br_range_max r)}
    \<and> (tight r \<longrightarrow> tight (AddEach ops xs r))"
proof (induction xs arbitrary: r)
  case (Cons x xs)
  obtain r1 added where run: "br_add ops x r = (r1, added)" by (cases "br_add ops x r")
  note one = add_spec [OF Cons.prems run]
  have same: "br_base r1 = br_base r" "br_range_max r1 = br_range_max r"
    using run by (auto simp: br_add_def Let_def split: if_splits)
  have "AddEach ops (x # xs) r = AddEach ops xs r1" using run by (simp add: AddEach_def)
  moreover note Cons.IH [of r1]
  ultimately show ?case using one same by (auto simp: pos_le)
qed (simp add: AddEach_def)

lemma members_of_elems: "br_elems pos r = br_elems pos r' \<Longrightarrow> br_base r = br_base r' \<Longrightarrow>
    members (br_bitmap r) = members (br_bitmap r')"
proof -
  assume "br_elems pos r = br_elems pos r'" "br_base r = br_base r'"
  moreover have "inj (\<lambda>i. pos (br_base r') + int i)" by (simp add: inj_def)
  ultimately show ?thesis unfolding br_elems_def by (simp add: inj_image_eq_iff)
qed

lemma add_range_is_loop:
  assumes ok: "range_ok pos limit r" and "tight r"
    and full: "pos (br_range_max r) = pos (br_base r) + 255 \<or> pos to \<le> pos (br_range_max r) + 1"
    and items: "map pos xs = [pos from..pos to - 1]"
  shows "br_add_range ops from to r = AddEach ops xs r"
proof (rule range_eqI)
  note range = add_range_spec [OF ok, of "from" to] and each = AddEach_spec [OF ok, of xs]
  show "bits_ok (br_add_range ops from to r)" "bits_ok (AddEach ops xs r)"
    using range each by (simp_all add: range_ok_def)
  show "tight (br_add_range ops from to r)" "tight (AddEach ops xs r)"
    using range each \<open>tight r\<close> by simp_all
  have base: "br_base (br_add_range ops from to r) = br_base r" and max: "br_range_max (br_add_range ops from to r) = br_range_max r"
    by (simp_all add: br_add_range_def Let_def)
  then show "br_base (br_add_range ops from to r) = br_base (AddEach ops xs r)"
    "br_range_max (br_add_range ops from to r) = br_range_max (AddEach ops xs r)" using each by simp_all
  have "pos ` set xs = {pos from..pos to - 1}" using items by (metis set_upto list.set_map)
  then have "{p \<in> pos ` set xs. pos (br_base r) \<le> p \<and> p \<le> pos (br_range_max r)}
      = {p. pos (br_base r) \<le> p \<and> pos from \<le> p \<and> p < pos to \<and> p < pos (br_base r) + 256}"
    using full ok by (auto simp: range_ok_def)
  then have "br_elems pos (br_add_range ops from to r) = br_elems pos (AddEach ops xs r)" using range each by simp
  then show "members (br_bitmap (br_add_range ops from to r)) = members (br_bitmap (AddEach ops xs r))"
    using base each by (intro members_of_elems) simp_all
qed

text \<open>What is sent is read back.\<close>

lemma bitmap_roundtrip:
  assumes "range_ok pos limit r" and "tight r" and "bitmap_get r = (n, words, longs)"
    and "br_base r0 = br_base r" "br_range_max r0 = br_range_max r"
  shows "bitmap_set n (take longs words) r0 = r"
proof (rule range_eqI)
  have bits: "bits_ok r" and get: "n = br_num_bits r" "words = br_bitmap r" "longs = n_longs n"
    using assms by (auto simp: range_ok_def bitmap_get_def)
  then have n: "unat n \<le> 256" by (simp add: bits_ok_def)
  have "n_longs n \<le> length (take longs words)" using bits n_longs_bounds(1) [OF n] by (simp add: get bits_ok_def)
  note set_spec = bitmap_set_spec [OF n this, of r0]
  show "bits_ok (bitmap_set n (take longs words) r0)" "tight (bitmap_set n (take longs words) r0)"
    using set_spec by simp_all
  have "bit_at (take longs words) i \<longleftrightarrow> bit_at words i" if "i < unat n" for i
    using that n_longs_bounds(2) [OF n] unfolding get(3) by (intro bit_at_take_words) linarith
  then have "{i. i < unat n \<and> bit_at (take longs words) i} = members (br_bitmap r)"
    using bits n unfolding members_def get(1,2) bits_ok_def by (auto simp: members_def)
  then show "members (br_bitmap (bitmap_set n (take longs words) r0)) = members (br_bitmap r)" using set_spec by simp
  show "br_base (bitmap_set n (take longs words) r0) = br_base r" "br_range_max (bitmap_set n (take longs words) r0) = br_range_max r"
    using assms(4,5) by (simp_all add: bitmap_set_def Let_def)
qed (use assms in \<open>simp_all add: range_ok_def\<close>)

end

end
