(* ===== verification/Rtps_Sets.thy ===== *)
theory Rtps_Sets
  imports Bitmap_Set
begin

text \<open>
  The two sets of RTPS messages: \<open>SequenceNumberSet_t\<close> (acknowledgements and gaps, \<open>SequenceNumber.h\<close>) and
  \<open>FragmentNumberSet_t\<close> (negative acknowledgements of fragments, \<open>FragmentNumber.h\<close>), both a \<open>BitmapRange\<close>.
  The interpretations discharge the contract of the template parameters, and the properties are stated over the
  set of numbers a range stands for.
\<close>

definition SequenceNumberOps :: "SequenceNumber_t ItemOps" where
  "SequenceNumberOps = \<lparr>item_plus = sn_add, item_diff = SequenceNumberDiff\<rparr>"

definition FragmentNumberOps :: "u32 ItemOps" where
  "FragmentNumberOps = \<lparr>item_plus = (+), item_diff = (-)\<rparr>"

type_synonym SequenceNumberSet_t = "SequenceNumber_t BitmapRange"
type_synonym FragmentNumberSet_t = "u32 BitmapRange"

lemma SequenceNumberOps_simps [simp]:
  "item_plus SequenceNumberOps = sn_add" "item_diff SequenceNumberOps = SequenceNumberDiff"
  by (simp_all add: SequenceNumberOps_def)

lemma FragmentNumberOps_simps [simp]:
  "item_plus FragmentNumberOps = (+)" "item_diff FragmentNumberOps = (-)"
  by (simp_all add: FragmentNumberOps_def)

interpretation sns: range_item SequenceNumberOps sn_val "2 ^ 63 - 1"
proof unfold_locales
  fix a b :: SequenceNumber_t and n :: u32
  show "sn_val a \<le> sn_val b \<longleftrightarrow> a \<le> b" by (simp add: sn_le_iff)
  show "sn_val (item_plus SequenceNumberOps a n) = sn_val a + uint n" if "sn_val a + uint n \<le> 2 ^ 63 - 1"
    using that sn_add_val [of a n] by simp
  show "uint (item_diff SequenceNumberOps a b) = sn_val a - sn_val b" if "b \<le> a" "sn_val a - sn_val b < 2 ^ 32"
    using that SequenceNumberDiff_val [of b a] by (simp add: sn_le_iff)
qed

interpretation fns: range_item FragmentNumberOps uint "2 ^ 32 - 1"
proof unfold_locales
  fix a b n :: u32
  show "uint a \<le> uint b \<longleftrightarrow> a \<le> b" by (simp add: word_le_def)
  show "uint (item_plus FragmentNumberOps a n) = uint a + uint n" if "uint a + uint n \<le> 2 ^ 32 - 1"
    using that by (simp add: uint_add_u32)
  show "uint (item_diff FragmentNumberOps a b) = uint a - uint b" if "b \<le> a" "uint a - uint b < 2 ^ 32"
    using that by (simp add: uint_sub_u32 word_le_def)
qed

text \<open>A well-formed set: the bits lie in the window, the window in the number space, the last bit is set.\<close>

definition SequenceNumberSet_ok :: "SequenceNumberSet_t \<Rightarrow> bool" where
  "SequenceNumberSet_ok s \<longleftrightarrow> range_ok sn_val (2 ^ 63 - 1) s \<and> tight s"

definition FragmentNumberSet_ok :: "FragmentNumberSet_t \<Rightarrow> bool" where
  "FragmentNumberSet_ok s \<longleftrightarrow> range_ok uint (2 ^ 32 - 1) s \<and> tight s"

abbreviation numbers :: "SequenceNumberSet_t \<Rightarrow> int set" where
  "numbers \<equiv> br_elems sn_val"

abbreviation fragments :: "FragmentNumberSet_t \<Rightarrow> int set" where
  "fragments \<equiv> br_elems uint"

subsection \<open>The operations on sequence number sets\<close>

lemma SequenceNumberSet_new:
  "sn_val base + 256 \<le> 2 ^ 63 - 1 \<Longrightarrow>
   SequenceNumberSet_ok (BitmapRange_new SequenceNumberOps base n) \<and> numbers (BitmapRange_new SequenceNumberOps base n) = {}"
  using sns.new_spec [of base n] by (simp add: SequenceNumberSet_ok_def)

lemma empty_iff: "SequenceNumberSet_ok s \<Longrightarrow> br_empty s \<longleftrightarrow> numbers s = {}"
  by (auto simp: SequenceNumberSet_ok_def range_ok_def bits_ok_def tight_def br_empty_def br_elems_def unat_gt_0)

lemma finite_numbers [simp]: "finite (br_elems pos s)"
  by (simp add: br_elems_def members_def)

lemma MaxI: "finite A \<Longrightarrow> x \<in> A \<and> (\<forall>y \<in> A. y \<le> x) \<Longrightarrow> x = Max A"
  by (rule Max_eqI [symmetric]) auto

lemma MinI: "finite A \<Longrightarrow> x \<in> A \<and> (\<forall>y \<in> A. x \<le> y) \<Longrightarrow> x = Min A"
  by (rule Min_eqI [symmetric]) auto

lemma set_bounds:
  assumes "SequenceNumberSet_ok s" and "\<not> br_empty s"
  shows "sn_val (br_max SequenceNumberOps s) = Max (numbers s) \<and> sn_val (br_min SequenceNumberOps s) = Min (numbers s)"
proof
  show "sn_val (br_max SequenceNumberOps s) = Max (numbers s)"
    using sns.max_spec assms by (intro MaxI) (simp_all add: SequenceNumberSet_ok_def br_empty_def)
  have "numbers s \<noteq> {}" using assms empty_iff by blast
  then show "sn_val (br_min SequenceNumberOps s) = Min (numbers s)"
    using sns.min_spec assms by (intro MinI) (simp_all add: SequenceNumberSet_ok_def)
qed

text \<open>The examples of the witnesses: the window from 1 on, with 5 in it.\<close>

definition Set1 :: SequenceNumberSet_t where
  "Set1 = BitmapRange_of_base SequenceNumberOps (SequenceNumber_t 0 1)"

definition Set5 :: SequenceNumberSet_t where
  "Set5 = fst (br_add SequenceNumberOps (SequenceNumber_t 0 5) Set1)"

lemma sn_val_low_only: "sn_val (SequenceNumber_t 0 w) = uint w"
  by (simp add: sn_val_def)

lemma Set1_window: "br_base Set1 = SequenceNumber_t 0 1" "br_range_max Set1 = SequenceNumber_t 0 256"
  by (simp_all add: Set1_def BitmapRange_of_base_def BitmapRange_new_def NBITS_def sn_add_def)

lemma Set1_ok: "SequenceNumberSet_ok Set1" "numbers Set1 = {}"
  using SequenceNumberSet_new [of "SequenceNumber_t 0 1" "of_nat NBITS - 1"]
  by (simp_all add: Set1_def BitmapRange_of_base_def sn_val_low_only)

lemma Set5_window: "br_base Set5 = SequenceNumber_t 0 1" "br_range_max Set5 = SequenceNumber_t 0 256"
  using Set1_window by (simp_all add: Set5_def br_add_def Let_def)

lemma Set5_ok: "SequenceNumberSet_ok Set5" "numbers Set5 = {5}"
proof -
  have run: "br_add SequenceNumberOps (SequenceNumber_t 0 5) Set1 = (Set5, True)"
    using Set1_window by (simp add: Set5_def br_add_def Let_def sn_le_iff sn_val_low_only)
  show "SequenceNumberSet_ok Set5" "numbers Set5 = {5}"
    using sns.add_spec [OF _ run] Set1_ok by (simp_all add: SequenceNumberSet_ok_def sn_val_low_only)
qed

text \<open>
  \<open>add\<close> and \<open>is_set\<close> of a sequence number set are insertion and membership of a finite set of integers:
  a number in the allowed range is inserted and nothing else changes, any other number is refused and the set
  is untouched; the set stays well formed, and \<open>is_set\<close> then answers for every sequence number whether it is
  in the set and in the range.
\<close>

lemma sequence_set_add_refines_insert:
  assumes "SequenceNumberSet_ok s" and "br_add SequenceNumberOps x s = (s', added)"
  shows "SequenceNumberSet_ok s' \<and> (added \<longleftrightarrow> br_base s \<le> x \<and> x \<le> br_range_max s)
    \<and> numbers s' = (if added then insert (sn_val x) (numbers s) else numbers s)
    \<and> (is_set SequenceNumberOps y s' \<longleftrightarrow> sn_val y \<in> numbers s' \<and> y \<le> br_range_max s')"
  using assms sns.add_spec [of s x s' added] sns.is_set_spec [of s' y]
  by (simp add: SequenceNumberSet_ok_def)

lemma sequence_set_add_refines_insert_witness:
  "numbers (fst (br_add SequenceNumberOps (SequenceNumber_t 0 256) Set5)) = {5, 256}
   \<and> \<not> snd (br_add SequenceNumberOps (SequenceNumber_t 0 257) Set5)"
proof -
  obtain s1 a1 where 1: "br_add SequenceNumberOps (SequenceNumber_t 0 256) Set5 = (s1, a1)" by fastforce
  obtain s2 a2 where 2: "br_add SequenceNumberOps (SequenceNumber_t 0 257) Set5 = (s2, a2)" by fastforce
  show ?thesis
    using sequence_set_add_refines_insert [OF Set5_ok(1) 1] sequence_set_add_refines_insert [OF Set5_ok(1) 2]
    by (auto simp: 1 2 Set5_window Set5_ok(2) sn_le_iff sn_val_low_only)
qed

text \<open>
  C24. \<open>remove\<close> on a set that is not empty never indexes outside the bitmap and is set difference; the number
  of significant bits is recomputed, so that \<open>empty\<close> answers exactly whether the set is empty, and \<open>max\<close> and
  \<open>min\<close> of what is left are its maximum and minimum.
\<close>

theorem sequence_set_remove_refines_difference:
  assumes "SequenceNumberSet_ok s" and "\<not> br_empty s"
  shows "\<exists>s'. br_remove SequenceNumberOps x s = Some s' \<and> SequenceNumberSet_ok s'
    \<and> numbers s' = numbers s - {sn_val x} \<and> (br_empty s' \<longleftrightarrow> numbers s' = {})
    \<and> (\<not> br_empty s' \<longrightarrow> sn_val (br_max SequenceNumberOps s') = Max (numbers s')
         \<and> sn_val (br_min SequenceNumberOps s') = Min (numbers s'))"
proof -
  obtain s' where s': "br_remove SequenceNumberOps x s = Some s'" "SequenceNumberSet_ok s'"
    "numbers s' = numbers s - {sn_val x}"
    using sns.remove_spec [of s x] assms by (auto simp: SequenceNumberSet_ok_def br_empty_def)
  then show ?thesis using empty_iff set_bounds by blast
qed

theorem sequence_set_remove_refines_difference_witness:
  "\<exists>s. br_remove SequenceNumberOps (SequenceNumber_t 0 5) Set5 = Some s \<and> br_empty s"
  using sequence_set_remove_refines_difference [of Set5 "SequenceNumber_t 0 5"] Set5_ok empty_iff [OF Set5_ok(1)]
  by (auto simp: sn_val_low_only)

text \<open>
  C25. \<open>base_update\<close> slides the window in both directions: of a set that is not empty exactly the numbers
  that lie in the new window of 256 are kept, in place, as long as the window moves by less than \<open>2 ^ 32\<close>.
\<close>

theorem sequence_set_window_slides:
  assumes "SequenceNumberSet_ok s" and "\<not> br_empty s" and "sn_val base + 256 \<le> 2 ^ 63 - 1"
    and "\<bar>sn_val base - sn_val (br_base s)\<bar> < 2 ^ 32"
  shows "SequenceNumberSet_ok (base_update SequenceNumberOps base s)
    \<and> br_base (base_update SequenceNumberOps base s) = base
    \<and> numbers (base_update SequenceNumberOps base s) = {p \<in> numbers s. sn_val base \<le> p \<and> p \<le> sn_val base + 255}"
  using sns.base_update_spec [of s base] assms by (simp add: SequenceNumberSet_ok_def br_empty_def)

theorem sequence_set_window_slides_witness:
  "numbers (base_update SequenceNumberOps (SequenceNumber_t 0 5) Set5) = {5}
   \<and> numbers (base_update SequenceNumberOps (SequenceNumber_t 0 6) Set5) = {}"
proof -
  have "\<not> br_empty Set5" using Set5_ok empty_iff by blast
  then show ?thesis
    using sequence_set_window_slides [of Set5 "SequenceNumber_t 0 5"] sequence_set_window_slides [of Set5 "SequenceNumber_t 0 6"]
    by (auto simp: Set5_ok Set5_window sn_val_low_only)
qed

text \<open>
  C26. The word-wise \<open>add_range\<close> is the loop its comment gives as its meaning, one \<open>add\<close> for each number of
  \<open>[from, to)\<close>, down to the last bit of the representation, provided the allowed range is the whole window
  of 256 numbers (as in every set built without an explicit maximum) or the numbers asked for do not pass
  its maximum.  Without that condition it is not: \<open>add_range\<close> clips at the window, \<open>add\<close> at the maximum
  (\<open>add_range_ignores_range_max\<close>).
\<close>

theorem sequence_set_add_range_is_add_loop:
  assumes "SequenceNumberSet_ok s"
    and "sn_val (br_range_max s) = sn_val (br_base s) + 255 \<or> sn_val to \<le> sn_val (br_range_max s) + 1"
    and "map sn_val items = [sn_val from..sn_val to - 1]"
  shows "br_add_range SequenceNumberOps from to s = AddEach SequenceNumberOps items s"
  using sns.add_range_is_loop [of s to items "from"] assms by (simp add: SequenceNumberSet_ok_def)

theorem sequence_set_add_range_is_add_loop_witness:
  "br_add_range SequenceNumberOps (SequenceNumber_t 0 31) (SequenceNumber_t 0 34) Set5
   = AddEach SequenceNumberOps [SequenceNumber_t 0 31, SequenceNumber_t 0 32, SequenceNumber_t 0 33] Set5"
proof (rule sequence_set_add_range_is_add_loop [OF Set5_ok(1)])
  show "map sn_val [SequenceNumber_t 0 31, SequenceNumber_t 0 32, SequenceNumber_t 0 33]
      = [sn_val (SequenceNumber_t 0 31)..sn_val (SequenceNumber_t 0 34) - 1]"
    by (simp add: sn_val_low_only upto.simps)
qed (simp add: Set5_window sn_val_low_only)

text \<open>
  \<open>for_each\<close> visits exactly the members of the set, each once and in ascending order.
\<close>

lemma sequence_set_for_each_ascending:
  assumes "SequenceNumberSet_ok s"
  shows "map sn_val (for_each SequenceNumberOps s) = sorted_list_of_set (numbers s)"
  using sns.for_each_spec [of s] assms by (simp add: SequenceNumberSet_ok_def)

lemma sequence_set_for_each_ascending_witness:
  "map sn_val (for_each SequenceNumberOps Set5) = [5]"
  using sequence_set_for_each_ascending [OF Set5_ok(1)] by (simp add: Set5_ok)

subsection \<open>What the operations do outside of their contract\<close>

text \<open>
  Sliding an empty set to a lower base leaves it without members, but the number of significant bits becomes
  the distance: \<open>empty\<close> denies it, and \<open>max\<close> is a number that is not in the set.
\<close>

lemma empty_set_slides_to_nonempty:
  "br_empty (BitmapRange_of_base SequenceNumberOps (SequenceNumber_t 0 10))
   \<and> \<not> br_empty (base_update SequenceNumberOps (SequenceNumber_t 0 5)
        (BitmapRange_of_base SequenceNumberOps (SequenceNumber_t 0 10)))"
  by (simp add: br_empty_def BitmapRange_of_base_def BitmapRange_new_def base_update_def shift_map_right_def
      SequenceNumberDiff_def sn_minus_def sn_less_iff sn_val_low_only Let_def NBITS_def NITEMS_def)

text \<open>\<open>remove\<close> on an empty set takes \<open>base + 0xFFFFFFFF\<close> for the maximum, and can index outside the bitmap.\<close>

lemma remove_on_empty_set_out_of_bounds:
  "br_remove SequenceNumberOps (SequenceNumber_t 0 1000) (BitmapRange_of_base SequenceNumberOps (SequenceNumber_t 0 1)) = None"
  by (simp add: BitmapRange_of_base_def BitmapRange_new_def br_remove_def br_max_def SequenceNumberDiff_def
      sn_minus_def sn_add_def sn_le_iff sn_val_def Let_def NBITS_def NITEMS_def word_pos_div)

text \<open>\<open>bitmap_set\<close> with a number of bits over 256 clamps the number, but trims the last word by the number given.\<close>

lemma bitmap_set_trims_by_unclamped_number:
  "br_bitmap (bitmap_set 257 (replicate 9 (NOT 0)) (BitmapRange_of_base FragmentNumberOps 1)) ! 7 = 0x80000000"
  by (simp add: bitmap_set_def BitmapRange_of_base_def BitmapRange_new_def n_longs_div Let_def NBITS_def NITEMS_def mask_eq_exp_minus_1)

text \<open>\<open>add_range\<close> takes the whole window for the allowed range, even where \<open>add\<close> refuses.\<close>

lemma add_range_ignores_range_max:
  "\<not> snd (br_add FragmentNumberOps 5 (BitmapRange_new FragmentNumberOps 1 2))
   \<and> br_num_bits (br_add_range FragmentNumberOps 5 6 (BitmapRange_new FragmentNumberOps 1 2)) = 5"
  by (simp add: br_add_def BitmapRange_new_def br_add_range_def word_le_def Let_def NBITS_def NITEMS_def)

end
