(* ===== verification/Byte_Store.thy ===== *)
theory Byte_Store
  imports Sdk_Prelude "HOL-Library.Monad_Syntax"
begin

text \<open>
  Buffers of octets: reading and writing a block at an offset, and the octets of a machine word.  A buffer is
  a list; \<open>None\<close> is an access outside of it, which C++ leaves undefined.  The laws of a word encoding are
  the locale \<open>word_codec\<close>, interpreted for the widths the protocol uses in both byte orders.
\<close>

unbundle bit_operations_syntax

type_synonym octets = "u8 list"

definition mem_read :: "octets \<Rightarrow> nat \<Rightarrow> nat \<Rightarrow> octets option" where
  "mem_read m off n = (if off + n \<le> length m then Some (take n (drop off m)) else None)"

definition mem_write :: "octets \<Rightarrow> nat \<Rightarrow> octets \<Rightarrow> octets option" where
  "mem_write m off bs =
     (if off + length bs \<le> length m then Some (take off m @ bs @ drop (off + length bs) m) else None)"

lemma length_mem_read: "mem_read m off n = Some bs \<Longrightarrow> length bs = n"
  by (auto simp: mem_read_def split: if_splits)

lemma length_mem_write: "mem_write m off bs = Some m' \<Longrightarrow> length m' = length m"
  by (auto simp: mem_write_def split: if_splits)

lemma mem_write_nth:
  "mem_write m off bs = Some m' \<Longrightarrow> i < length m \<Longrightarrow>
   m' ! i = (if off \<le> i \<and> i < off + length bs then bs ! (i - off) else m ! i)"
  by (auto simp: mem_write_def nth_append min_def split: if_splits)

lemma mem_read_nth: "mem_read m off n = Some bs \<Longrightarrow> i < n \<Longrightarrow> bs ! i = m ! (off + i)"
  by (auto simp: mem_read_def split: if_splits)

lemma mem_read_Some_iff: "(\<exists>bs. mem_read m off n = Some bs) \<longleftrightarrow> off + n \<le> length m"
  by (simp add: mem_read_def)

lemma mem_write_Some_iff: "(\<exists>m'. mem_write m off bs = Some m') \<longleftrightarrow> off + length bs \<le> length m"
  by (simp add: mem_write_def)

lemma mem_readI:
  "length m' = length m \<Longrightarrow> (\<And>i. off \<le> i \<Longrightarrow> i < off + n \<Longrightarrow> i < length m \<Longrightarrow> m' ! i = m ! i) \<Longrightarrow>
   mem_read m' off n = mem_read m off n"
  by (auto simp: mem_read_def intro!: nth_equalityI)

lemma mem_read_write_same: "mem_write m off bs = Some m' \<Longrightarrow> mem_read m' off (length bs) = Some bs"
  by (auto simp: mem_read_def mem_write_def split: if_splits)

lemma mem_read_write_disjoint:
  "mem_write m off bs = Some m' \<Longrightarrow> off' + n \<le> off \<or> off + length bs \<le> off' \<Longrightarrow>
   mem_read m' off' n = mem_read m off' n"
proof (rule mem_readI)
  assume w: "mem_write m off bs = Some m'" and d: "off' + n \<le> off \<or> off + length bs \<le> off'"
  show "length m' = length m" using w by (rule length_mem_write)
  fix i assume "off' \<le> i" "i < off' + n" "i < length m"
  then show "m' ! i = m ! i" using mem_write_nth [OF w \<open>i < length m\<close>] d by auto
qed

subsection \<open>Words as octets\<close>

definition le_bytes :: "nat \<Rightarrow> ('a :: len) word \<Rightarrow> octets" where
  "le_bytes n w = map (\<lambda>i. ucast (drop_bit (8 * i) w)) [0..<n]"

fun le_word :: "octets \<Rightarrow> ('a :: len) word" where
  "le_word [] = 0"
| "le_word (b # bs) = ucast b OR push_bit 8 (le_word bs)"

definition be_bytes :: "nat \<Rightarrow> ('a :: len) word \<Rightarrow> octets" where
  "be_bytes n w = rev (le_bytes n w)"

definition be_word :: "octets \<Rightarrow> ('a :: len) word" where
  "be_word bs = le_word (rev bs)"

lemma length_bytes [simp]: "length (le_bytes n w) = n" "length (be_bytes n w) = n"
  by (simp_all add: le_bytes_def be_bytes_def)

lemma bit_u8D: "bit (b :: u8) n \<Longrightarrow> n < 8"
  using bit_imp_le_length [of b n] by simp

lemma bit_le_word:
  "bit (le_word bs :: ('a :: len) word) k \<longleftrightarrow> k < LENGTH('a) \<and> k div 8 < length bs \<and> bit (bs ! (k div 8)) (k mod 8)"
proof (induction bs arbitrary: k)
  case (Cons b bs)
  show ?case
  proof (cases "k < 8")
    case True
    then show ?thesis by (auto simp: bit_or_iff bit_push_bit_iff bit_ucast_iff)
  next
    case False
    then have "k div 8 = Suc ((k - 8) div 8)" "k mod 8 = (k - 8) mod 8" by (simp_all add: le_div_geq le_mod_geq)
    moreover have "\<not> bit (ucast b :: 'a word) k" using False by (auto simp: bit_ucast_iff dest: bit_u8D)
    ultimately show ?thesis using False Cons [of "k - 8"]
      by (auto simp: bit_or_iff bit_push_bit_iff)
  qed
qed simp

lemma le_word_le_bytes: "LENGTH('a) \<le> 8 * n \<Longrightarrow> le_word (le_bytes n w) = (w :: ('a :: len) word)"
proof (rule bit_word_eqI)
  fix k assume "LENGTH('a) \<le> 8 * n" and k: "k < LENGTH('a)"
  then have "k div 8 < n" by (simp add: less_mult_imp_div_less mult.commute)
  then show "bit (le_word (le_bytes n w) :: 'a word) k = bit w k"
    using k by (simp add: bit_le_word le_bytes_def bit_ucast_iff bit_drop_bit_eq)
qed

lemma be_word_be_bytes: "LENGTH('a) \<le> 8 * n \<Longrightarrow> be_word (be_bytes n w) = (w :: ('a :: len) word)"
  by (simp add: be_word_def be_bytes_def le_word_le_bytes)

locale word_codec =
  fixes enc :: "('a :: len) word \<Rightarrow> octets" and dec :: "octets \<Rightarrow> 'a word" and size :: nat
  assumes length_enc: "length (enc w) = size" and dec_enc: "dec (enc w) = w"
begin

lemma store_load:
  "mem_write m off (enc w) = Some m' \<Longrightarrow> map_option dec (mem_read m' off size) = Some w"
  using mem_read_write_same [of m off "enc w" m'] by (simp add: length_enc dec_enc)

lemma store_fits: "off + size \<le> length m \<Longrightarrow> \<exists>m'. mem_write m off (enc w) = Some m'"
  by (simp add: mem_write_Some_iff length_enc)

lemma load_frame:
  "mem_write m off (enc w) = Some m' \<Longrightarrow> off' + n \<le> off \<or> off + size \<le> off' \<Longrightarrow>
   mem_read m' off' n = mem_read m off' n"
  using mem_read_write_disjoint [of m off "enc w" m' off' n] by (simp add: length_enc)

end

interpretation le16: word_codec "le_bytes 2 :: u16 \<Rightarrow> octets" le_word 2
  by unfold_locales (simp_all add: le_word_le_bytes)

interpretation be16: word_codec "be_bytes 2 :: u16 \<Rightarrow> octets" be_word 2
  by unfold_locales (simp_all add: be_word_be_bytes)

interpretation le32: word_codec "le_bytes 4 :: u32 \<Rightarrow> octets" le_word 4
  by unfold_locales (simp_all add: le_word_le_bytes)

interpretation be32: word_codec "be_bytes 4 :: u32 \<Rightarrow> octets" be_word 4
  by unfold_locales (simp_all add: be_word_be_bytes)

interpretation le64: word_codec "le_bytes 8 :: u64 \<Rightarrow> octets" le_word 8
  by unfold_locales (simp_all add: le_word_le_bytes)

interpretation be64: word_codec "be_bytes 8 :: u64 \<Rightarrow> octets" be_word 8
  by unfold_locales (simp_all add: be_word_be_bytes)

end
