(* ===== verification/Serialized_Payload.thy ===== *)
theory Serialized_Payload
  imports Byte_Store
begin

text \<open>
  \<open>SerializedPayload_t\<close> (\<open>fastdds/rtps/common/SerializedPayload.h\<close>): a buffer of octets with the encapsulation
  of what it holds, the length in use and the size allocated.  A null pointer is \<open>None\<close>.  Whether the
  allocator succeeds for a size is the parameter \<open>alloc\<close>; a function that may throw \<open>std::bad_alloc\<close> returns
  the object as the exception leaves it and whether it was thrown.
\<close>

definition BOOSTER_FASTDDS_CDR_BE :: u16 where "BOOSTER_FASTDDS_CDR_BE = 0x0000"
definition BOOSTER_FASTDDS_CDR_LE :: u16 where "BOOSTER_FASTDDS_CDR_LE = 0x0001"
definition BOOSTER_FASTDDS_PL_CDR_BE :: u16 where "BOOSTER_FASTDDS_PL_CDR_BE = 0x0002"
definition BOOSTER_FASTDDS_PL_CDR_LE :: u16 where "BOOSTER_FASTDDS_PL_CDR_LE = 0x0003"

record SerializedPayload_t =
  sp_encapsulation :: u16
  sp_length :: u32
  sp_data :: "octets option"
  sp_max_size :: u32
  sp_pos :: u32

definition SerializedPayload_new :: SerializedPayload_t where
  "SerializedPayload_new =
     \<lparr>sp_encapsulation = BOOSTER_FASTDDS_CDR_BE, sp_length = 0, sp_data = None, sp_max_size = 0, sp_pos = 0\<rparr>"

definition sp_reserve :: "(u32 \<Rightarrow> bool) \<Rightarrow> u32 \<Rightarrow> SerializedPayload_t \<Rightarrow> SerializedPayload_t \<times> bool" where
  "sp_reserve alloc new_size p =
     (if new_size \<le> sp_max_size p then (p, False)
      else case sp_data p of
          None \<Rightarrow>
            if alloc new_size
            then (p\<lparr>sp_data := Some (replicate (unat new_size) 0), sp_max_size := new_size\<rparr>, False)
            else (p, True)
        | Some d \<Rightarrow>
            if alloc new_size
            then (p\<lparr>sp_data := Some (d @ replicate (unat (new_size - sp_max_size p)) 0), sp_max_size := new_size\<rparr>, False)
            else (p\<lparr>sp_data := None\<rparr>, True))"

definition SerializedPayload_of_size :: "(u32 \<Rightarrow> bool) \<Rightarrow> u32 \<Rightarrow> SerializedPayload_t \<times> bool" where
  "SerializedPayload_of_size alloc len = sp_reserve alloc len SerializedPayload_new"

definition sp_empty :: "SerializedPayload_t \<Rightarrow> SerializedPayload_t" where
  "sp_empty p =
     p\<lparr>sp_length := 0, sp_encapsulation := BOOSTER_FASTDDS_CDR_BE, sp_max_size := 0, sp_data := None\<rparr>"

text \<open>\<open>memcmp\<close> and \<open>memcpy\<close> touch nothing when the length is zero, whatever the pointers.\<close>

definition sp_bytes :: "u32 \<Rightarrow> SerializedPayload_t \<Rightarrow> octets option" where
  "sp_bytes n p = (if n = 0 then Some [] else case sp_data p of None \<Rightarrow> None | Some d \<Rightarrow> mem_read d 0 (unat n))"

definition sp_eq :: "SerializedPayload_t \<Rightarrow> SerializedPayload_t \<Rightarrow> bool option" where
  "sp_eq p other =
     (if sp_encapsulation p = sp_encapsulation other \<and> sp_length p = sp_length other
      then do { a \<leftarrow> sp_bytes (sp_length p) p; b \<leftarrow> sp_bytes (sp_length p) other; Some (a = b) }
      else Some False)"

datatype copy_result = CopyReturned bool | CopyThrew

definition sp_copy :: "(u32 \<Rightarrow> bool) \<Rightarrow> bool \<Rightarrow> SerializedPayload_t \<Rightarrow> SerializedPayload_t \<Rightarrow> (SerializedPayload_t \<times> copy_result) option" where
  "sp_copy alloc with_limit serData p =
     (let p1 = p\<lparr>sp_length := sp_length serData\<rparr> in
      if sp_length serData > sp_max_size p1 \<and> with_limit then Some (p1, CopyReturned False)
      else
        let (p2, threw) = (if sp_length serData > sp_max_size p1 then sp_reserve alloc (sp_length serData) p1 else (p1, False)) in
        if threw then Some (p2, CopyThrew)
        else
          let p3 = p2\<lparr>sp_encapsulation := sp_encapsulation serData\<rparr> in
          if sp_length p3 = 0 then Some (p3, CopyReturned True)
          else do {
            bs \<leftarrow> sp_bytes (sp_length p3) serData;
            d \<leftarrow> sp_data p3;
            d' \<leftarrow> mem_write d 0 bs;
            Some (p3\<lparr>sp_data := Some d'\<rparr>, CopyReturned True) })"

text \<open>The allocation is not checked, and what \<open>data\<close> pointed to is not freed.\<close>

definition sp_reserve_fragmented :: "(u32 \<Rightarrow> bool) \<Rightarrow> SerializedPayload_t \<Rightarrow> SerializedPayload_t \<Rightarrow> SerializedPayload_t" where
  "sp_reserve_fragmented alloc serData p =
     p\<lparr>sp_length := sp_length serData, sp_max_size := sp_length serData, sp_encapsulation := sp_encapsulation serData,
       sp_data := (if alloc (sp_length serData) then Some (replicate (unat (sp_length serData)) 0) else None)\<rparr>"

subsection \<open>Invariant\<close>

definition sp_allocated :: "SerializedPayload_t \<Rightarrow> bool" where
  "sp_allocated p \<longleftrightarrow> (case sp_data p of None \<Rightarrow> sp_max_size p = 0 | Some d \<Rightarrow> length d = unat (sp_max_size p))"

definition sp_ok :: "SerializedPayload_t \<Rightarrow> bool" where
  "sp_ok p \<longleftrightarrow> sp_allocated p \<and> sp_length p \<le> sp_max_size p"

lemma sp_ok_new: "sp_ok SerializedPayload_new" "sp_ok (sp_empty p)"
  by (simp_all add: sp_ok_def sp_allocated_def SerializedPayload_new_def sp_empty_def)

lemma sp_allocated_frame [simp]:
  "sp_allocated (p\<lparr>sp_length := n\<rparr>) = sp_allocated p" "sp_allocated (p\<lparr>sp_encapsulation := e\<rparr>) = sp_allocated p"
  by (cases "sp_data p"; simp add: sp_allocated_def)+

lemma sp_reserve_ok:
  assumes "sp_allocated p" and "sp_reserve alloc n p = (p', False)"
  shows "sp_allocated p' \<and> n \<le> sp_max_size p' \<and> sp_max_size p \<le> sp_max_size p'
    \<and> sp_length p' = sp_length p \<and> sp_encapsulation p' = sp_encapsulation p"
proof (cases "n \<le> sp_max_size p")
  case False
  then have "unat (sp_max_size p) + unat (n - sp_max_size p) = unat n"
    by (simp add: unat_sub not_le word_le_nat_alt)
  then show ?thesis using assms False
    by (auto simp: sp_reserve_def sp_allocated_def split: option.splits if_splits)
qed (use assms in \<open>simp add: sp_reserve_def\<close>)

lemma sp_ok_bytes: "sp_ok p \<Longrightarrow> \<exists>bs. sp_bytes (sp_length p) p = Some bs \<and> length bs = unat (sp_length p)"
proof -
  assume ok: "sp_ok p"
  show ?thesis
  proof (cases "sp_data p")
    case None
    then have max: "sp_max_size p = 0" and len: "sp_length p \<le> sp_max_size p"
      using ok unfolding sp_ok_def sp_allocated_def by auto
    have "sp_length p = 0" using len unfolding max by (simp add: word_le_nat_alt unat_eq_zero)
    then show ?thesis by (simp add: sp_bytes_def)
  next
    case (Some d)
    then have "unat (sp_length p) \<le> length d" using ok by (simp add: sp_ok_def sp_allocated_def word_le_nat_alt)
    then show ?thesis using Some by (simp add: sp_bytes_def mem_read_def)
  qed
qed

lemma sp_copy_spec:
  assumes src: "sp_ok serData" and p: "sp_allocated p"
  shows "\<exists>p' res. sp_copy alloc with_limit serData p = Some (p', res)
    \<and> (res = CopyReturned True \<longrightarrow> sp_ok p' \<and> sp_eq p' serData = Some True)
    \<and> (res = CopyReturned False \<longleftrightarrow> with_limit \<and> sp_max_size p < sp_length serData)"
proof (cases "sp_max_size p < sp_length serData \<and> with_limit")
  case True
  then show ?thesis by (simp add: sp_copy_def Let_def)
next
  case False
  let ?n = "sp_length serData"
  let ?p1 = "p\<lparr>sp_length := ?n\<rparr>"
  obtain p2 threw where p2: "(if ?n > sp_max_size p then sp_reserve alloc ?n ?p1 else (?p1, False)) = (p2, threw)" by fastforce
  show ?thesis
  proof (cases threw)
    case True
    then show ?thesis using False p2 by (auto simp: sp_copy_def Let_def)
  next
    case ret: False
    have "sp_allocated ?p1" using p by simp
    then have p2_ok: "sp_allocated p2 \<and> ?n \<le> sp_max_size p2 \<and> sp_length p2 = ?n"
      using p2 ret sp_reserve_ok [of ?p1 alloc ?n p2] by (auto split: if_splits)
    obtain bs where bs: "sp_bytes ?n serData = Some bs" "length bs = unat ?n" using sp_ok_bytes [OF src] by blast
    show ?thesis
    proof (cases "?n = 0")
      case True
      then show ?thesis using False p2 ret p2_ok
        by (auto simp: sp_copy_def Let_def sp_eq_def sp_bytes_def sp_ok_def)
    next
      case nz: False
      then obtain d where d: "sp_data p2 = Some d" "length d = unat (sp_max_size p2)"
        using p2_ok by (cases "sp_data p2") (auto simp: sp_allocated_def)
      then have "0 + length bs \<le> length d" using p2_ok bs(2) by (simp add: word_le_nat_alt)
      then obtain d' where d': "mem_write d 0 bs = Some d'" using mem_write_Some_iff by blast
      let ?p' = "p2\<lparr>sp_encapsulation := sp_encapsulation serData, sp_data := Some d'\<rparr>"
      have run: "sp_copy alloc with_limit serData p = Some (?p', CopyReturned True)"
        using False p2 ret nz p2_ok bs(1) d(1) d' by (auto simp: sp_copy_def Let_def)
      have "sp_bytes ?n ?p' = Some bs" using mem_read_write_same [OF d'] bs(2) nz by (simp add: sp_bytes_def)
      then have "sp_eq ?p' serData = Some True" using bs(1) p2_ok by (simp add: sp_eq_def)
      moreover have "sp_ok ?p'" using p2_ok d(2) length_mem_write [OF d'] by (simp add: sp_ok_def sp_allocated_def)
      ultimately show ?thesis using run False by auto
    qed
  qed
qed

lemma sp_reserve_threw:
  assumes "sp_reserve alloc n p = (p', threw)"
  shows "(threw \<longleftrightarrow> sp_max_size p < n \<and> \<not> alloc n)
    \<and> (threw \<longrightarrow> sp_data p' = None \<and> sp_max_size p' = sp_max_size p \<and> sp_length p' = sp_length p)"
  using assms by (auto simp: sp_reserve_def split: if_splits option.splits)

lemma sp_copy_threw:
  assumes "sp_copy alloc with_limit serData p = Some (p', res)"
  shows "(res = CopyThrew \<longleftrightarrow> \<not> with_limit \<and> sp_max_size p < sp_length serData \<and> \<not> alloc (sp_length serData))
    \<and> (res = CopyThrew \<longrightarrow>
        sp_data p' = None \<and> sp_max_size p' = sp_max_size p \<and> sp_length p' = sp_length serData)"
proof (cases "sp_max_size p < sp_length serData \<and> \<not> with_limit")
  case True
  let ?p1 = "p\<lparr>sp_length := sp_length serData\<rparr>"
  obtain p2 threw where p2: "sp_reserve alloc (sp_length serData) ?p1 = (p2, threw)" by fastforce
  from sp_reserve_threw [OF p2] assms True p2 show ?thesis
    by (cases threw) (auto simp: sp_copy_def Let_def bind_eq_Some_conv split: if_splits)
qed (use assms in \<open>auto simp: sp_copy_def Let_def bind_eq_Some_conv split: if_splits\<close>)

text \<open>
  C27. Copying a payload never touches memory outside of the two buffers.  It returns true only with a well-formed
  copy that compares equal to the source.  It returns false exactly when the copy is limited and the source too
  long; then the length of the source is already stored, so that the object claims octets it has not allocated.
  It throws exactly when the copy is not limited, the source is longer than the allocation and the larger
  buffer is refused; then the old buffer is gone, but the length of the source and the old size stay stored.
\<close>

theorem payload_copy_is_safe:
  assumes "sp_ok serData" and "sp_allocated p"
  shows "\<exists>p' res. sp_copy alloc with_limit serData p = Some (p', res)
    \<and> (res = CopyReturned True \<longrightarrow> sp_ok p' \<and> sp_eq p' serData = Some True)
    \<and> (res = CopyReturned False \<longleftrightarrow> with_limit \<and> sp_max_size p < sp_length serData)
    \<and> (res = CopyReturned False \<longrightarrow> \<not> sp_ok p')
    \<and> (res = CopyThrew \<longleftrightarrow>
        \<not> with_limit \<and> sp_max_size p < sp_length serData \<and> \<not> alloc (sp_length serData))
    \<and> (res = CopyThrew \<longrightarrow>
        sp_data p' = None \<and> sp_max_size p' = sp_max_size p \<and> sp_length p' = sp_length serData)"
proof -
  obtain p' res where run: "sp_copy alloc with_limit serData p = Some (p', res)"
    and res: "res = CopyReturned True \<longrightarrow> sp_ok p' \<and> sp_eq p' serData = Some True"
      "res = CopyReturned False \<longleftrightarrow> with_limit \<and> sp_max_size p < sp_length serData"
    using sp_copy_spec [OF assms] by blast
  have "\<not> sp_ok p'" if "res = CopyReturned False"
    using run res(2) that by (auto simp: sp_copy_def Let_def sp_ok_def not_le)
  then show ?thesis using run res sp_copy_threw [OF run] by blast
qed

theorem payload_copy_is_safe_witness:
  "(\<exists>p'. sp_copy (\<lambda>_. True) True \<lparr>sp_encapsulation = 1, sp_length = 2, sp_data = Some [7, 8], sp_max_size = 2, sp_pos = 0\<rparr>
      SerializedPayload_new = Some (p', CopyReturned False) \<and> \<not> sp_ok p')
   \<and> (\<exists>p'. sp_copy (\<lambda>n. n < 2) False \<lparr>sp_encapsulation = 1, sp_length = 2, sp_data = Some [7, 8], sp_max_size = 2, sp_pos = 0\<rparr>
      SerializedPayload_new = Some (p', CopyThrew) \<and> sp_data p' = None)"
proof -
  have "sp_ok \<lparr>sp_encapsulation = 1, sp_length = 2, sp_data = Some [7, 8], sp_max_size = 2, sp_pos = 0\<rparr>"
    by (simp add: sp_ok_def sp_allocated_def)
  from payload_copy_is_safe [OF this, of SerializedPayload_new "\<lambda>_. True" True]
    payload_copy_is_safe [OF this, of SerializedPayload_new "\<lambda>n. n < 2" False] show ?thesis
    using sp_ok_new(1) by (auto simp: sp_ok_def SerializedPayload_new_def)
qed

end
