(* ===== verification/Cache_Change.thy ===== *)
theory Cache_Change
  imports Serialized_Payload Rtps_Sets
begin

text \<open>
  \<open>CacheChange_t\<close> (\<open>fastdds/rtps/common/CacheChange.h\<close>), a sample in the history of a reader or writer, and the
  reassembly of a sample that arrives in fragments.

  The list of missing fragments is kept inside the payload buffer: the index of the next missing fragment is
  stored, as a native 32-bit word, at the first aligned offset of each missing fragment, so that the data of a
  received fragment takes the place of its link.  The model reads and writes these words in the octets of
  the buffer; \<open>None\<close> is an access outside of the buffer, or a walk along the links that does not end.

  \<open>'info\<close> stands for what a change carries besides (writer GUID, instance handle, time stamps, write parameters),
  which is copied as it is.  The pool that owns the payload is left out.
\<close>

datatype ChangeKind_t = ALIVE | NOT_ALIVE_DISPOSED | NOT_ALIVE_UNREGISTERED | NOT_ALIVE_DISPOSED_UNREGISTERED

record 'info CacheChange_t =
  cc_kind :: ChangeKind_t
  cc_info :: 'info
  cc_sequenceNumber :: SequenceNumber_t
  cc_serializedPayload :: SerializedPayload_t
  cc_isRead :: bool
  cc_is_untyped :: bool
  cc_fragment_size :: u16
  cc_fragment_count :: u32
  cc_first_missing_fragment :: u32

definition is_fully_assembled :: "'info CacheChange_t \<Rightarrow> bool" where
  "is_fully_assembled cc \<longleftrightarrow> cc_first_missing_fragment cc \<ge> cc_fragment_count cc"

definition contains_first_fragment :: "'info CacheChange_t \<Rightarrow> bool" where
  "contains_first_fragment cc \<longleftrightarrow> 0 < cc_first_missing_fragment cc"

subsection \<open>The links\<close>

definition next_fragment_pointer :: "u16 \<Rightarrow> u32 \<Rightarrow> u64" where
  "next_fragment_pointer fragment_size fragment_index =
     (let offset = ucast fragment_size * ucast fragment_index in (offset + 3) AND NOT 3)"

definition get_next_missing_fragment :: "u16 \<Rightarrow> SerializedPayload_t \<Rightarrow> u32 \<Rightarrow> u32 option" where
  "get_next_missing_fragment fragment_size p fragment_index =
     do { data \<leftarrow> sp_data p;
          bs \<leftarrow> mem_read data (unat (next_fragment_pointer fragment_size fragment_index)) 4;
          Some (le_word bs) }"

definition set_next_missing_fragment :: "u16 \<Rightarrow> u32 \<Rightarrow> u32 \<Rightarrow> SerializedPayload_t \<Rightarrow> SerializedPayload_t option" where
  "set_next_missing_fragment fragment_size fragment_index next_fragment_index p =
     do { data \<leftarrow> sp_data p;
          data' \<leftarrow> mem_write data (unat (next_fragment_pointer fragment_size fragment_index)) (le_bytes 4 next_fragment_index);
          Some (p\<lparr>sp_data := Some data'\<rparr>) }"

text \<open>The loop that links each fragment to the next one.\<close>

fun CreateList :: "u16 \<Rightarrow> nat list \<Rightarrow> SerializedPayload_t \<Rightarrow> SerializedPayload_t option" where
  "CreateList fragment_size [] p = Some p"
| "CreateList fragment_size (i # rest) p =
     do { p' \<leftarrow> set_next_missing_fragment fragment_size (of_nat (i - 1)) (of_nat i) p;
          CreateList fragment_size rest p' }"

definition setFragmentSize :: "u16 \<Rightarrow> bool \<Rightarrow> 'info CacheChange_t \<Rightarrow> 'info CacheChange_t option" where
  "setFragmentSize fragment_size create_fragment_list cc =
     (let cc1 = cc\<lparr>cc_fragment_size := fragment_size, cc_fragment_count := 0, cc_first_missing_fragment := 0\<rparr> in
      if fragment_size = 0 then Some cc1
      else
        let count = (sp_length (cc_serializedPayload cc) + ucast fragment_size - 1) div ucast fragment_size;
            cc2 = cc1\<lparr>cc_fragment_count := count\<rparr>
        in if create_fragment_list
           then do { p \<leftarrow> CreateList fragment_size [1..<Suc (unat count)] (cc_serializedPayload cc);
                     Some (cc2\<lparr>cc_serializedPayload := p\<rparr>) }
           else Some (cc2\<lparr>cc_first_missing_fragment := count\<rparr>))"

subsection \<open>Receiving fragments\<close>

text \<open>\<open>next = *next until next >= limit\<close>.\<close>

partial_function (option) SkipTo :: "u16 \<Rightarrow> SerializedPayload_t \<Rightarrow> u32 \<Rightarrow> u32 \<Rightarrow> u32 option" where
  "SkipTo fragment_size p limit current =
     (if current < limit
      then do { next \<leftarrow> get_next_missing_fragment fragment_size p current;
                SkipTo fragment_size p limit next }
      else Some current)"

text \<open>The last missing fragment before \<open>initial\<close> and the one after it.\<close>

partial_function (option) FindPrevious :: "u16 \<Rightarrow> SerializedPayload_t \<Rightarrow> u32 \<Rightarrow> u32 \<Rightarrow> (u32 \<times> u32) option option" where
  "FindPrevious fragment_size p initial current =
     (if current < initial
      then do { next \<leftarrow> get_next_missing_fragment fragment_size p current;
                if next \<ge> initial then Some (Some (current, next))
                else FindPrevious fragment_size p initial next }
      else Some None)"

definition received_fragments :: "u32 \<Rightarrow> u32 \<Rightarrow> 'info CacheChange_t \<Rightarrow> ('info CacheChange_t \<times> bool) option" where
  "received_fragments initial_fragment num_of_fragments cc =
     (let fs = cc_fragment_size cc; p = cc_serializedPayload cc; first = cc_first_missing_fragment cc in
      if fs > 0 \<and> initial_fragment < cc_fragment_count cc
      then
        let last = initial_fragment + num_of_fragments;
            last_fragment = (if last > cc_fragment_count cc then cc_fragment_count cc else last)
        in if initial_fragment \<le> first
           then do { first' \<leftarrow> SkipTo fs p last_fragment first;
                     Some (cc\<lparr>cc_first_missing_fragment := first'\<rparr>, first < last_fragment) }
           else do { found \<leftarrow> FindPrevious fs p initial_fragment first;
                     case found of
                       None \<Rightarrow> Some (cc, False)
                     | Some (current_frag, next_frag) \<Rightarrow>
                         do { next_missing_fragment \<leftarrow> SkipTo fs p last_fragment next_frag;
                              if next_frag < last_fragment
                              then do { p' \<leftarrow> set_next_missing_fragment fs current_frag next_missing_fragment p;
                                        Some (cc\<lparr>cc_serializedPayload := p'\<rparr>, True) }
                              else Some (cc, False) } }
      else Some (cc, False))"

definition add_fragments :: "SerializedPayload_t \<Rightarrow> u32 \<Rightarrow> u32 \<Rightarrow> 'info CacheChange_t \<Rightarrow> ('info CacheChange_t \<times> bool) option" where
  "add_fragments incoming_data fragment_starting_num fragments_in_submessage cc =
     (let fs = ucast (cc_fragment_size cc) :: u32;
          len = sp_length (cc_serializedPayload cc);
          original_offset = (fragment_starting_num - 1) * fs;
          incoming_length = fs * fragments_in_submessage;
          last_fragment_index = fragment_starting_num + fragments_in_submessage - 1
      in if last_fragment_index > cc_fragment_count cc then Some (cc, False)
         else if last_fragment_index < cc_fragment_count cc \<and> sp_length incoming_data < incoming_length
         then Some (cc, False)
         else
           let incoming_length' = (if last_fragment_index < cc_fragment_count cc then incoming_length
                                   else len - original_offset)
           in if original_offset + incoming_length' > len then Some (cc, False)
              else do {
                (cc1, changed) \<leftarrow> received_fragments (fragment_starting_num - 1) fragments_in_submessage cc;
                if changed
                then do {
                  bs \<leftarrow> sp_bytes incoming_length' incoming_data;
                  data \<leftarrow> sp_data (cc_serializedPayload cc1);
                  data' \<leftarrow> mem_write data (unat original_offset) bs;
                  let cc2 = cc1\<lparr>cc_serializedPayload := (cc_serializedPayload cc1)\<lparr>sp_data := Some data'\<rparr>\<rparr>;
                  Some (cc2, is_fully_assembled cc2) }
                else Some (cc1, is_fully_assembled cc1) })"

text \<open>\<open>get_missing_fragments\<close> walks the links and adds every fragment number, counted from one.\<close>

partial_function (option) AddMissing ::
    "u16 \<Rightarrow> SerializedPayload_t \<Rightarrow> u32 \<Rightarrow> u32 \<Rightarrow> FragmentNumberSet_t \<Rightarrow> FragmentNumberSet_t option" where
  "AddMissing fragment_size p count current_frag frag_sns =
     (if current_frag < count
      then do { next \<leftarrow> get_next_missing_fragment fragment_size p current_frag;
                AddMissing fragment_size p count next (fst (br_add FragmentNumberOps (current_frag + 1) frag_sns)) }
      else Some frag_sns)"

definition get_missing_fragments :: "'info CacheChange_t \<Rightarrow> FragmentNumberSet_t \<Rightarrow> FragmentNumberSet_t option" where
  "get_missing_fragments cc frag_sns =
     AddMissing (cc_fragment_size cc) (cc_serializedPayload cc) (cc_fragment_count cc) (cc_first_missing_fragment cc)
       (br_set_base FragmentNumberOps (cc_first_missing_fragment cc + 1) frag_sns)"

subsection \<open>Copies\<close>

definition cc_copy_header :: "'info CacheChange_t \<Rightarrow> 'info CacheChange_t \<Rightarrow> 'info CacheChange_t" where
  "cc_copy_header ch_ptr cc =
     cc\<lparr>cc_kind := cc_kind ch_ptr, cc_info := cc_info ch_ptr, cc_sequenceNumber := cc_sequenceNumber ch_ptr,
        cc_isRead := cc_isRead ch_ptr\<rparr>"

definition cc_copy :: "(u32 \<Rightarrow> bool) \<Rightarrow> 'info CacheChange_t \<Rightarrow> 'info CacheChange_t \<Rightarrow> ('info CacheChange_t \<times> copy_result) option" where
  "cc_copy alloc ch_ptr cc =
     do { (p, result) \<leftarrow> sp_copy alloc (\<not> cc_is_untyped ch_ptr) (cc_serializedPayload ch_ptr) (cc_serializedPayload cc);
          Some ((cc_copy_header ch_ptr cc)\<lparr>cc_fragment_size := cc_fragment_size ch_ptr,
                  cc_fragment_count := cc_fragment_count ch_ptr,
                  cc_first_missing_fragment := cc_first_missing_fragment ch_ptr,
                  cc_serializedPayload := p\<rparr>, result) }"

definition cc_copy_not_memcpy :: "'info CacheChange_t \<Rightarrow> 'info CacheChange_t \<Rightarrow> 'info CacheChange_t option" where
  "cc_copy_not_memcpy ch_ptr cc =
     setFragmentSize (cc_fragment_size ch_ptr) False
       ((cc_copy_header ch_ptr cc)\<lparr>cc_serializedPayload :=
          (cc_serializedPayload cc)\<lparr>sp_encapsulation := sp_encapsulation (cc_serializedPayload ch_ptr)\<rparr>\<rparr>)"

subsection \<open>Offsets of the links\<close>

definition link_offset :: "nat \<Rightarrow> nat \<Rightarrow> nat" where
  "link_offset s i = (s * i + 3) div 4 * 4"

lemma and_not_mask: "(x :: u64) AND NOT (mask n) = push_bit n (drop_bit n x)"
  by (rule bit_word_eqI) (auto simp: bit_and_iff bit_not_iff bit_mask_iff bit_push_bit_iff bit_drop_bit_eq possible_bit_word)

lemma and_not_3: "(x :: u64) AND NOT 3 = push_bit 2 (drop_bit 2 x)"
proof -
  have "(3 :: u64) = mask 2" by (simp add: mask_eq_exp_minus_1)
  then show ?thesis by (simp only: and_not_mask)
qed

lemma unat_next_fragment_pointer: "unat (next_fragment_pointer fs i) = link_offset (unat fs) (unat i)"
proof -
  let ?s = "unat fs" and ?i = "unat i"
  have "?s < 2 ^ 16" "?i < 2 ^ 32" using unsigned_less [of fs] unsigned_less [of i] by simp_all
  then have "?s * ?i \<le> 2 ^ 16 * 2 ^ 32" by (intro mult_mono) simp_all
  then have bound: "?s * ?i \<le> 2 ^ 48" by simp
  have "?s < 18446744073709551616" "?i < 18446744073709551616"
    using \<open>?s < 2 ^ 16\<close> \<open>?i < 2 ^ 32\<close> by simp_all
  then have "unat (ucast fs :: u64) = ?s" "unat (ucast i :: u64) = ?i"
    by (simp_all add: unsigned_ucast_eq take_bit_eq_mod)
  then have "unat (ucast fs * ucast i :: u64) = ?s * ?i"
    using bound by (simp add: unat_word_ariths)
  then have "unat (ucast fs * ucast i + 3 :: u64) = ?s * ?i + 3" using bound by (simp add: unat_word_ariths)
  moreover have "unat (push_bit 2 (drop_bit 2 x)) = unat x div 4 * 4" for x :: u64
  proof -
    have "unat x < 2 ^ LENGTH(64)" by (rule unsigned_less)
    then have "unat x div 4 * 4 < 2 ^ 64" using div_times_less_eq_dividend [of "unat x" 4] by simp
    then show ?thesis
      unfolding unsigned_push_bit_eq unsigned_drop_bit_eq by (simp add: push_bit_eq_mult drop_bit_eq_div take_bit_eq_mod)
  qed
  ultimately show ?thesis unfolding next_fragment_pointer_def Let_def and_not_3 link_offset_def by (simp only:)
qed

text \<open>A link lies in the data of its own fragment.\<close>

definition links_fit :: "nat \<Rightarrow> bool" where
  "links_fit s \<longleftrightarrow> 4 \<le> s \<and> 4 dvd s \<or> 7 \<le> s"

lemma link_offset_bounds:
  assumes "links_fit s"
  shows "s * i \<le> link_offset s i" and "link_offset s i + 4 \<le> s * (i + 1)"
proof -
  show "s * i \<le> link_offset s i" unfolding link_offset_def by linarith
  show "link_offset s i + 4 \<le> s * (i + 1)"
  proof (cases "7 \<le> s")
    case True
    have "link_offset s i \<le> s * i + 3" unfolding link_offset_def by linarith
    then show ?thesis using True by simp
  next
    case False
    then have "4 \<le> s" "4 dvd s" using assms by (auto simp: links_fit_def)
    then obtain k where k: "s = 4 * k" by blast
    then have "(s * i + 3) div 4 = k * i" by (simp add: mult.assoc)
    then show ?thesis using \<open>4 \<le> s\<close> unfolding link_offset_def k by simp
  qed
qed

lemma link_offset_apart:
  assumes "links_fit s" and "i < j"
  shows "link_offset s i + 4 \<le> link_offset s j"
proof -
  have "s * (i + 1) \<le> s * j" using assms(2) by (intro mult_le_mono2) simp
  then show ?thesis using link_offset_bounds(2) [OF assms(1), of i] link_offset_bounds(1) [OF assms(1), of j] by linarith
qed

subsection \<open>Walking the links\<close>

fun chain :: "(u32 \<Rightarrow> u32 option) \<Rightarrow> u32 list \<Rightarrow> u32 \<Rightarrow> bool" where
  "chain link [] e \<longleftrightarrow> True"
| "chain link (x # xs) e \<longleftrightarrow> link x = Some (hd (xs @ [e])) \<and> chain link xs e"

lemma chain_cong: "chain link xs e \<Longrightarrow> (\<And>x. x \<in> set xs \<Longrightarrow> link' x = link x) \<Longrightarrow> chain link' xs e"
  by (induction xs) auto

lemma chain_append: "chain link (xs @ ys) e \<longleftrightarrow> chain link xs (hd (ys @ [e])) \<and> chain link ys e"
proof (induction xs)
  case (Cons x xs)
  then show ?case by (cases xs) auto
qed simp

lemma SkipTo_chain:
  "chain (get_next_missing_fragment fs p) xs e \<Longrightarrow> limit \<le> e \<Longrightarrow>
   SkipTo fs p limit (hd (xs @ [e])) = Some (hd (dropWhile (\<lambda>x. x < limit) xs @ [e]))"
proof (induction xs)
  case (Cons x xs)
  then show ?case by (subst SkipTo.simps) simp
qed (subst SkipTo.simps, auto dest: leD)

lemma FindPrevious_chain:
  "chain (get_next_missing_fragment fs p) (x # xs) e \<Longrightarrow> initial \<le> e \<Longrightarrow> x < initial \<Longrightarrow>
   FindPrevious fs p initial x
     = Some (Some (last (takeWhile (\<lambda>y. y < initial) (x # xs)), hd (dropWhile (\<lambda>y. y < initial) xs @ [e])))"
proof (induction xs arbitrary: x)
  case Nil
  then show ?case by (subst FindPrevious.simps) simp
next
  case (Cons y ys)
  then show ?case by (subst FindPrevious.simps) auto
qed

text \<open>Cutting the fragments of an interval out of the list.\<close>

lemma dropWhile_sorted: "sorted xs \<Longrightarrow> dropWhile (\<lambda>x. x < b) xs = filter (\<lambda>x. b \<le> x) (xs :: u32 list)"
proof (induction xs)
  case (Cons x xs)
  have "filter (\<lambda>x. b \<le> x) xs = xs" if "b \<le> x" using that Cons.prems by (intro filter_True) auto
  then show ?case using Cons by (auto simp: not_le not_less)
qed simp

lemma cut_interval:
  assumes "sorted_wrt (<) xs" and "a \<le> (b :: u32)"
  shows "takeWhile (\<lambda>x. x < a) xs @ dropWhile (\<lambda>x. x < b) (dropWhile (\<lambda>x. x < a) xs)
    = filter (\<lambda>x. \<not> (a \<le> x \<and> x < b)) xs"
  using assms
proof (induction xs)
  case (Cons x xs)
  have tail: "dropWhile (\<lambda>x. x < b) xs = filter (\<lambda>x. \<not> (a \<le> x \<and> x < b)) xs" if "a \<le> x"
  proof -
    have "a \<le> y" if "y \<in> set xs" for y using Cons.prems(1) that \<open>a \<le> x\<close> by auto
    then have "filter (\<lambda>x. \<not> (a \<le> x \<and> x < b)) xs = filter (\<lambda>x. b \<le> x) xs"
      by (intro filter_cong) (auto simp: not_less)
    moreover have "sorted xs" using Cons.prems(1) strict_sorted_imp_sorted by auto
    ultimately show ?thesis by (simp add: dropWhile_sorted)
  qed
  show ?case
  proof (cases "x < a")
    case True
    then show ?thesis using Cons by simp
  next
    case False
    then have "filter (\<lambda>x. \<not> (a \<le> x \<and> x < b)) xs = xs" if "\<not> x < b"
      using that Cons.prems(1) by (intro filter_True) auto
    then show ?thesis using False tail by auto
  qed
qed simp

end
