(* ===== verification/Fragment_Reassembly.thy ===== *)
theory Fragment_Reassembly
  imports Cache_Change
begin

text \<open>
  Correctness of the reassembly of \<open>Cache_Change\<close>.  \<open>links cc xs\<close> says that the words inside the buffer
  link the missing fragments \<open>xs\<close>, in ascending order; \<open>reassembling msg cc M\<close> adds that every octet of a
  fragment outside of \<open>M\<close> is the octet of the message.  Receiving an interval of fragments removes it from \<open>M\<close>.
\<close>

definition links :: "'info CacheChange_t \<Rightarrow> u32 list \<Rightarrow> bool" where
  "links cc xs \<longleftrightarrow> sorted_wrt (<) xs \<and> (\<forall>x \<in> set xs. x < cc_fragment_count cc)
     \<and> chain (get_next_missing_fragment (cc_fragment_size cc) (cc_serializedPayload cc)) xs (cc_fragment_count cc)
     \<and> cc_first_missing_fragment cc = hd (xs @ [cc_fragment_count cc])"

definition frag_size :: "'info CacheChange_t \<Rightarrow> nat" where
  "frag_size cc = unat (cc_fragment_size cc)"

definition frag_data :: "'info CacheChange_t \<Rightarrow> octets" where
  "frag_data cc = the (sp_data (cc_serializedPayload cc))"

definition msg_length :: "'info CacheChange_t \<Rightarrow> nat" where
  "msg_length cc = unat (sp_length (cc_serializedPayload cc))"

text \<open>The layout: no wrap-around in the number of fragments, and room for the link of each of them.\<close>

definition layout :: "'info CacheChange_t \<Rightarrow> bool" where
  "layout cc \<longleftrightarrow> links_fit (frag_size cc) \<and> msg_length cc + frag_size cc < 2 ^ 32
     \<and> unat (cc_fragment_count cc) = (msg_length cc + frag_size cc - 1) div frag_size cc
     \<and> sp_data (cc_serializedPayload cc) \<noteq> None \<and> msg_length cc \<le> length (frag_data cc)
     \<and> (\<forall>i < unat (cc_fragment_count cc). link_offset (frag_size cc) i + 4 \<le> length (frag_data cc))"

definition reassembling :: "octets \<Rightarrow> 'info CacheChange_t \<Rightarrow> u32 set \<Rightarrow> bool" where
  "reassembling msg cc M \<longleftrightarrow> layout cc \<and> length msg = msg_length cc \<and> (\<exists>xs. links cc xs \<and> M = set xs)
     \<and> (\<forall>j < msg_length cc. of_nat (j div frag_size cc) \<notin> M \<longrightarrow> frag_data cc ! j = msg ! j)"

lemma layout_data: "layout cc \<Longrightarrow> sp_data (cc_serializedPayload cc) = Some (frag_data cc)"
  by (auto simp: layout_def frag_data_def)

lemma frag_size_pos: "layout cc \<Longrightarrow> 0 < frag_size cc"
  by (auto simp: layout_def links_fit_def)

text \<open>A fragment begins inside of the message.\<close>

lemma fragment_begins:
  assumes "layout cc" and "i < unat (cc_fragment_count cc)"
  shows "frag_size cc * i < msg_length cc"
proof -
  have s: "0 < frag_size cc" using assms(1) by (rule frag_size_pos)
  have "Suc i \<le> (msg_length cc + frag_size cc - 1) div frag_size cc" using assms by (simp add: layout_def)
  then have "Suc i * frag_size cc \<le> msg_length cc + frag_size cc - 1"
    using s by (simp add: less_eq_div_iff_mult_less_eq)
  then show ?thesis using s by (simp add: mult.commute)
qed

lemma message_ends: "layout cc \<Longrightarrow> msg_length cc \<le> frag_size cc * unat (cc_fragment_count cc)"
proof -
  assume "layout cc"
  then have "0 < frag_size cc" "unat (cc_fragment_count cc) = (msg_length cc + frag_size cc - 1) div frag_size cc"
    by (simp_all add: frag_size_pos layout_def)
  then show ?thesis
    using dividend_less_div_times [of "frag_size cc" "msg_length cc + frag_size cc - 1"] by (simp add: mult.commute)
qed

lemma get_next_eq:
  "layout cc \<Longrightarrow> get_next_missing_fragment (cc_fragment_size cc) (cc_serializedPayload cc) i
     = map_option le_word (mem_read (frag_data cc) (link_offset (frag_size cc) (unat i)) 4)"
  by (auto simp: get_next_missing_fragment_def layout_data unat_next_fragment_pointer frag_size_def split: Option.bind_split)

text \<open>Writing a link changes this link only.\<close>

lemma set_next_spec:
  assumes lay: "layout cc" and i: "i < cc_fragment_count cc"
  shows "\<exists>d'. set_next_missing_fragment (cc_fragment_size cc) i v (cc_serializedPayload cc)
        = Some ((cc_serializedPayload cc)\<lparr>sp_data := Some d'\<rparr>)
    \<and> mem_write (frag_data cc) (link_offset (frag_size cc) (unat i)) (le_bytes 4 v) = Some d'"
proof -
  have "link_offset (frag_size cc) (unat i) + 4 \<le> length (frag_data cc)"
    using lay i by (simp add: layout_def word_less_nat_alt)
  from le32.store_fits [OF this] obtain d'
    where "mem_write (frag_data cc) (link_offset (frag_size cc) (unat i)) (le_bytes 4 v) = Some d'" by blast
  then show ?thesis
    by (auto simp: set_next_missing_fragment_def layout_data [OF lay] unat_next_fragment_pointer frag_size_def)
qed

lemma get_next_after_set:
  assumes lay: "layout cc" and lay': "layout cc'" and fs: "cc_fragment_size cc' = cc_fragment_size cc"
    and wr: "mem_write (frag_data cc) (link_offset (frag_size cc) (unat i)) (le_bytes 4 v) = Some (frag_data cc')"
  shows "get_next_missing_fragment (cc_fragment_size cc') (cc_serializedPayload cc') j
    = (if j = i then Some v else get_next_missing_fragment (cc_fragment_size cc) (cc_serializedPayload cc) j)"
proof (cases "j = i")
  case True
  then show ?thesis using le32.store_load [OF wr] fs unfolding get_next_eq [OF lay'] by (simp add: frag_size_def)
next
  case False
  then have "unat i \<noteq> unat j" by (metis word_unat_eq_iff)
  moreover have "links_fit (frag_size cc)" using lay by (simp add: layout_def)
  ultimately have "link_offset (frag_size cc) (unat j) + 4 \<le> link_offset (frag_size cc) (unat i)
      \<or> link_offset (frag_size cc) (unat i) + 4 \<le> link_offset (frag_size cc) (unat j)"
    by (metis link_offset_apart linorder_neqE_nat)
  from le32.load_frame [OF wr this] show ?thesis
    using False fs unfolding get_next_eq [OF lay'] get_next_eq [OF lay] by (simp add: frag_size_def)
qed

lemma layout_same:
  assumes "layout cc" and "cc_fragment_size cc' = cc_fragment_size cc" "cc_fragment_count cc' = cc_fragment_count cc"
    and "sp_length (cc_serializedPayload cc') = sp_length (cc_serializedPayload cc)"
    and "sp_data (cc_serializedPayload cc') = Some d'" and "length d' = length (frag_data cc)"
  shows "layout cc' \<and> frag_data cc' = d' \<and> frag_size cc' = frag_size cc \<and> msg_length cc' = msg_length cc"
  using assms by (simp add: layout_def frag_data_def frag_size_def msg_length_def)

subsection \<open>Cutting received fragments out of the list\<close>

lemma sorted_hd_least: "sorted_wrt (<) xs \<Longrightarrow> (\<forall>x \<in> set xs. x < e) \<Longrightarrow> x \<in> set xs \<Longrightarrow> hd (xs @ [e :: u32]) \<le> x"
  by (cases xs) auto

lemma chain_dropWhile: "chain link xs e \<Longrightarrow> chain link (dropWhile P xs) e"
  using chain_append [of link "takeWhile P xs" "dropWhile P xs" e] by simp

lemma dropWhile_above:
  assumes "sorted_wrt (<) xs" and "\<And>x. x \<in> set xs \<Longrightarrow> a \<le> x"
  shows "dropWhile (\<lambda>x. x < b) xs = filter (\<lambda>x. \<not> (a \<le> x \<and> x < (b :: u32))) xs"
proof -
  have "dropWhile (\<lambda>x. x < b) xs = filter (\<lambda>x. b \<le> x) xs"
    using assms(1) by (intro dropWhile_sorted strict_sorted_imp_sorted)
  also have "\<dots> = filter (\<lambda>x. \<not> (a \<le> x \<and> x < b)) xs" using assms(2) by (intro filter_cong) (auto simp: not_less)
  finally show ?thesis .
qed

lemma links_filter_bounds:
  "links cc xs \<Longrightarrow> sorted_wrt (<) (filter P xs) \<and> (\<forall>x \<in> set (filter P xs). x < cc_fragment_count cc)"
  by (auto simp: links_def sorted_wrt_filter)

text \<open>The link of the fragment before the interval is redirected.\<close>

lemma chain_redirect:
  assumes ch: "chain link (ys @ zs @ ws) e" and ne: "ys \<noteq> []" and dist: "distinct (ys @ zs @ ws)"
    and link': "\<And>x. link' x = (if x = last ys then Some (hd (ws @ [e])) else link x)"
  shows "chain link' (ys @ ws) e"
proof -
  obtain us c where ys: "ys = us @ [c]" using ne by (meson rev_exhaust)
  have ch': "chain link us c" "chain link ws e" using ch unfolding ys by (simp_all add: chain_append)
  have "chain link' us c" using ch'(1) by (rule chain_cong) (use dist link' ys in auto)
  moreover have "chain link' ws e" using ch'(2) by (rule chain_cong) (use dist link' ys in auto)
  ultimately show ?thesis using link' unfolding ys by (simp add: chain_append)
qed

lemma received_spec:
  fixes cc :: "'info CacheChange_t"
  assumes lay: "layout cc" and xs: "links cc xs" and last: "initial + n \<le> cc_fragment_count cc"
  shows "\<exists>cc' changed d'. received_fragments initial n cc = Some (cc', changed)
    \<and> (changed \<longleftrightarrow> set xs \<inter> {initial..<initial + n} \<noteq> {})
    \<and> links cc' (filter (\<lambda>x. \<not> (initial \<le> x \<and> x < initial + n)) xs)
    \<and> cc_fragment_size cc' = cc_fragment_size cc \<and> cc_fragment_count cc' = cc_fragment_count cc
    \<and> cc_serializedPayload cc' = (cc_serializedPayload cc)\<lparr>sp_data := Some d'\<rparr> \<and> length d' = length (frag_data cc)
    \<and> (\<forall>j < length d'. d' ! j \<noteq> frag_data cc ! j \<longrightarrow> (\<exists>m \<in> set (filter (\<lambda>x. \<not> (initial \<le> x \<and> x < initial + n)) xs).
          frag_size cc * unat m \<le> j \<and> j < frag_size cc * (unat m + 1)))"
proof -
  let ?e = "cc_fragment_count cc" and ?last = "initial + n" and ?first = "cc_first_missing_fragment cc"
  let ?fs = "cc_fragment_size cc" and ?p = "cc_serializedPayload cc"
  let ?keep = "filter (\<lambda>x. \<not> (initial \<le> x \<and> x < ?last)) xs"
  have sorted: "sorted_wrt (<) xs" and below: "\<forall>x \<in> set xs. x < ?e" and first: "?first = hd (xs @ [?e])"
    and ch: "chain (get_next_missing_fragment ?fs ?p) xs ?e" using xs by (simp_all add: links_def)
  have lim: "(if ?last > ?e then ?e else ?last) = ?last" using last by auto
  have fs: "0 < ?fs" using frag_size_pos [OF lay] unfolding frag_size_def by (simp add: word_less_nat_alt)
  have same: "cc_serializedPayload cc = ?p\<lparr>sp_data := Some (frag_data cc)\<rparr>"
    using layout_data [OF lay] by simp
  show ?thesis
  proof (cases "initial < ?e \<and> ?first < initial")
    case False
    show ?thesis
    proof (cases "initial < ?e")
      case beyond: False
      then have "?keep = xs" using below by (intro filter_True) auto
      moreover have "received_fragments initial n cc = Some (cc, False)" using beyond by (simp add: received_fragments_def Let_def)
      moreover have "set xs \<inter> {initial..<?last} = {}" using below beyond by force
      ultimately show ?thesis using xs same by (intro exI [of _ cc] exI [of _ False] exI [of _ "frag_data cc"]) auto
    next
      case True
      then have "initial \<le> ?first" using False by auto
      let ?first' = "hd (dropWhile (\<lambda>x. x < ?last) xs @ [?e])"
      let ?cc = "cc\<lparr>cc_first_missing_fragment := ?first'\<rparr>"
      have above: "initial \<le> x" if "x \<in> set xs" for x
        using \<open>initial \<le> ?first\<close> sorted_hd_least [OF sorted below that] unfolding first by (rule order_trans)
      have run: "received_fragments initial n cc = Some (?cc, ?first < ?last)"
        using True fs \<open>initial \<le> ?first\<close> SkipTo_chain [OF ch last]
        by (simp add: received_fragments_def Let_def lim first)
      have keep: "dropWhile (\<lambda>x. x < ?last) xs = ?keep" by (rule dropWhile_above [OF sorted above])
      have "links ?cc ?keep"
        using links_filter_bounds [OF xs] chain_dropWhile [OF ch, of "\<lambda>x. x < ?last"] unfolding links_def keep by simp
      moreover have "?first < ?last \<longleftrightarrow> set xs \<inter> {initial..<?last} \<noteq> {}"
      proof
        assume lt: "?first < ?last"
        then have "xs \<noteq> []" using first last by auto
        then have "?first \<in> set xs" using first by (cases xs) auto
        then show "set xs \<inter> {initial..<?last} \<noteq> {}" using lt above by auto
      next
        assume "set xs \<inter> {initial..<?last} \<noteq> {}"
        then obtain x where "x \<in> set xs" "x < ?last" by auto
        then show "?first < ?last" using sorted_hd_least [OF sorted below] unfolding first by (meson le_less_trans)
      qed
      ultimately show ?thesis using run same
        by (intro exI [of _ ?cc] exI [of _ "?first < ?last"] exI [of _ "frag_data cc"]) simp
    qed
  next
    case True
    let ?ys = "takeWhile (\<lambda>x. x < initial) xs" and ?rest = "dropWhile (\<lambda>x. x < initial) xs"
    let ?zs = "takeWhile (\<lambda>x. x < ?last) ?rest" and ?ws = "dropWhile (\<lambda>x. x < ?last) ?rest"
    have "xs \<noteq> []" using True first by auto
    then obtain x xs' where cons: "xs = x # xs'" by (cases xs) auto
    then have x: "x = ?first" "x < initial" using True first by auto
    have ys: "?ys \<noteq> []" using x(2) by (simp add: cons)
    let ?c = "last ?ys" and ?next = "hd (?rest @ [?e])"
    have c: "?c \<in> set xs" "?c < initial" using last_in_set [OF ys] by (auto dest: set_takeWhileD)
    have "initial \<le> ?e" "\<not> initial \<le> ?first" using True less_imp_le leD by blast+
    have prev: "FindPrevious ?fs ?p initial ?first = Some (Some (?c, ?next))"
      using FindPrevious_chain [of ?fs ?p x xs' ?e initial] ch \<open>initial \<le> ?e\<close> x cons by simp
    have skip: "SkipTo ?fs ?p ?last ?next = Some (hd (?ws @ [?e]))"
      by (rule SkipTo_chain [OF chain_dropWhile [OF ch] last])
    have next_ge: "initial \<le> ?next"
    proof (cases ?rest)
      case (Cons a list)
      then show ?thesis using hd_dropWhile [of "\<lambda>x. x < initial" xs] by (simp add: not_less)
    next
      case Nil
      show ?thesis using \<open>initial \<le> ?e\<close> unfolding Nil by simp
    qed
    have rest_ge: "?next \<le> y" if "y \<in> set ?rest" for y
      using sorted_hd_least [of ?rest ?e y] that sorted below
      by (metis set_dropWhileD sorted_wrt_append takeWhile_dropWhile_id)
    have split: "y \<in> set ?rest" if "y \<in> set xs" "initial \<le> y" for y
      using that takeWhile_dropWhile_id [of "\<lambda>x. x < initial" xs] set_takeWhileD [of y "\<lambda>x. x < initial" xs]
      by (metis Un_iff not_less set_append)
    show ?thesis
    proof (cases "?next < ?last")
      case False
      have none: "set xs \<inter> {initial..<?last} = {}"
      proof (rule ccontr)
        assume "\<not> ?thesis"
        then obtain y where "y \<in> set xs" "initial \<le> y" "y < ?last" by auto
        then have "?next < ?last" using rest_ge split by (meson le_less_trans)
        then show False using False by simp
      qed
      then have "?keep = xs" by (intro filter_True) auto
      moreover have "received_fragments initial n cc = Some (cc, False)"
        using True \<open>\<not> initial \<le> ?first\<close> fs prev skip False by (simp add: received_fragments_def Let_def lim)
      ultimately show ?thesis using xs same none
        by (intro exI [of _ cc] exI [of _ False] exI [of _ "frag_data cc"]) auto
    next
      case lt: True
      let ?nm = "hd (?ws @ [?e])"
      have "?c < ?e" using c(1) below by blast
      from set_next_spec [OF lay this, of ?nm] obtain d' where
        set: "set_next_missing_fragment ?fs ?c ?nm ?p = Some (?p\<lparr>sp_data := Some d'\<rparr>)"
        and wr: "mem_write (frag_data cc) (link_offset (frag_size cc) (unat ?c)) (le_bytes 4 ?nm) = Some d'" by blast
      let ?cc = "cc\<lparr>cc_serializedPayload := ?p\<lparr>sp_data := Some d'\<rparr>\<rparr>"
      have run: "received_fragments initial n cc = Some (?cc, True)"
        using True \<open>\<not> initial \<le> ?first\<close> fs prev skip lt set by (simp add: received_fragments_def Let_def lim)
      have len: "length d' = length (frag_data cc)" by (rule length_mem_write [OF wr])
      have lay': "layout ?cc" "frag_data ?cc = d'" using layout_same [OF lay, of ?cc d'] len by simp_all
      have keep: "?ys @ ?ws = ?keep"
        using cut_interval [OF sorted, of initial ?last] next_ge lt by simp
      have "distinct xs" using sorted strict_sorted_iff by blast
      then have dist: "distinct (?ys @ ?zs @ ?ws)" by simp
      have "chain (get_next_missing_fragment ?fs ?p) (?ys @ ?zs @ ?ws) ?e" using ch by simp
      then have "chain (get_next_missing_fragment ?fs (cc_serializedPayload ?cc)) (?ys @ ?ws) ?e"
        by (rule chain_redirect [OF _ ys dist])
          (use get_next_after_set [OF lay lay'(1), of ?c ?nm] wr lay'(2) in simp)
      moreover have "hd (?ys @ ?ws @ [?e]) = ?first" using x cons by simp
      ultimately have "links ?cc ?keep"
        using links_filter_bounds [OF xs, of "\<lambda>x. \<not> (initial \<le> x \<and> x < ?last)"]
        unfolding links_def keep [symmetric] by simp
      moreover have "?next \<in> set xs \<inter> {initial..<?last}"
      proof -
        have "?rest \<noteq> []"
        proof
          assume r: "?rest = []"
          from lt last show False unfolding r by (auto dest: leD)
        qed
        then have "?next \<in> set ?rest" by (cases ?rest) auto
        then have "?next \<in> set xs" by (rule set_dropWhileD)
        then show ?thesis using next_ge lt by simp
      qed
      moreover have "frag_size cc * unat ?c \<le> j \<and> j < frag_size cc * (unat ?c + 1)"
        if j: "j < length d'" "d' ! j \<noteq> frag_data cc ! j" for j
      proof -
        have "link_offset (frag_size cc) (unat ?c) \<le> j \<and> j < link_offset (frag_size cc) (unat ?c) + 4"
          using mem_write_nth [OF wr, of j] j len by (auto split: if_splits)
        moreover have "links_fit (frag_size cc)" using lay by (simp add: layout_def)
        ultimately show ?thesis using link_offset_bounds [of "frag_size cc" "unat ?c"] by linarith
      qed
      moreover have "?c \<in> set ?keep" using c by auto
      ultimately show ?thesis using run len
        by (intro exI [of _ ?cc] exI [of _ True] exI [of _ d']) auto
    qed
  qed
qed

subsection \<open>Receiving a submessage\<close>

text \<open>The machine arithmetic of \<open>add_fragments\<close> is exact for an interval that does not wrap around.\<close>

definition frag_bytes :: "'info CacheChange_t \<Rightarrow> u32 \<Rightarrow> u32 \<Rightarrow> u32" where
  "frag_bytes cc initial n =
     (if initial + n < cc_fragment_count cc then ucast (cc_fragment_size cc) * n
      else sp_length (cc_serializedPayload cc) - initial * ucast (cc_fragment_size cc))"

lemma unat_ucast_size: "unat (ucast (cc_fragment_size cc) :: u32) = frag_size cc"
proof -
  have "unat (cc_fragment_size cc) < 2 ^ LENGTH(16)" by (rule unsigned_less)
  then show ?thesis by (simp add: frag_size_def unsigned_ucast_eq take_bit_eq_mod)
qed

lemma unat_mult_small: "unat a * unat b < 2 ^ 32 \<Longrightarrow> unat (a * b :: u32) = unat a * unat b"
  by (simp add: unat_word_ariths)

lemma fragment_arith:
  fixes initial n :: u32
  assumes lay: "layout cc" and lt: "initial < initial + n" and le: "initial + n \<le> cc_fragment_count cc"
  shows "unat (initial + n) = unat initial + unat n"
    and "unat (initial * ucast (cc_fragment_size cc)) = frag_size cc * unat initial"
    and "frag_size cc * unat initial < msg_length cc"
    and "unat (frag_bytes cc initial n) = min (msg_length cc) (frag_size cc * (unat initial + unat n)) - frag_size cc * unat initial"
    and "initial * ucast (cc_fragment_size cc) + frag_bytes cc initial n \<le> sp_length (cc_serializedPayload cc)"
proof -
  let ?s = "frag_size cc" and ?L = "msg_length cc" and ?fs = "ucast (cc_fragment_size cc) :: u32"
  have L: "?L < 2 ^ 32" using lay by (simp add: layout_def)
  have i: "unat initial < unat (cc_fragment_count cc)" using lt le by (meson less_le_trans word_less_nat_alt)
  show begins: "?s * unat initial < ?L" by (rule fragment_begins [OF lay i])
  show sum: "unat (initial + n) = unat initial + unat n"
    using less_imp_le [OF lt] no_olen_add_nat [of initial n] by (simp add: unat_word_ariths)
  show off: "unat (initial * ?fs) = ?s * unat initial"
    using begins L by (subst unat_mult_small) (simp_all add: unat_ucast_size mult.commute)
  have bytes: "unat (frag_bytes cc initial n) = min ?L (?s * (unat initial + unat n)) - ?s * unat initial"
  proof (cases "initial + n < cc_fragment_count cc")
    case True
    then have "?s * unat (initial + n) < ?L" by (intro fragment_begins [OF lay]) (simp add: word_less_nat_alt)
    then have ends: "?s * (unat initial + unat n) < ?L" unfolding sum .
    then have "?s * unat n < 2 ^ 32" using L by (simp add: distrib_left)
    then have "unat (?fs * n) = ?s * unat n" by (subst unat_mult_small) (simp_all add: unat_ucast_size)
    then show ?thesis using True ends by (simp add: frag_bytes_def distrib_left)
  next
    case False
    then have "initial + n = cc_fragment_count cc" using le by auto
    then have "unat initial + unat n = unat (cc_fragment_count cc)" using sum by simp
    then have "?L \<le> ?s * (unat initial + unat n)" using message_ends [OF lay] by simp
    moreover have "initial * ?fs \<le> sp_length (cc_serializedPayload cc)"
      using begins off by (simp add: word_le_nat_alt msg_length_def)
    ultimately show ?thesis using False off by (simp add: frag_bytes_def unat_sub msg_length_def)
  qed
  then show "unat (frag_bytes cc initial n) = min ?L (?s * (unat initial + unat n)) - ?s * unat initial" .
  have "unat (initial * ?fs) + unat (frag_bytes cc initial n) \<le> ?L" unfolding off bytes using begins by simp
  then show "initial * ?fs + frag_bytes cc initial n \<le> sp_length (cc_serializedPayload cc)"
    using L by (simp add: word_le_nat_alt unat_word_ariths msg_length_def)
qed

text \<open>A submessage whose octets are those of the message, at the place its numbers name.\<close>

record DataFrag =
  df_payload :: SerializedPayload_t
  df_start :: u32
  df_count :: u32

definition df_range :: "DataFrag \<Rightarrow> u32 set" where
  "df_range sub = {df_start sub - 1..<df_start sub - 1 + df_count sub}"

definition carries :: "octets \<Rightarrow> nat \<Rightarrow> DataFrag \<Rightarrow> bool" where
  "carries msg s sub \<longleftrightarrow> sp_ok (df_payload sub) \<and>
     (\<exists>bs. sp_bytes (sp_length (df_payload sub)) (df_payload sub) = Some bs
        \<and> (\<forall>k < length bs. s * unat (df_start sub - 1) + k < length msg \<longrightarrow> bs ! k = msg ! (s * unat (df_start sub - 1) + k))
        \<and> (length msg \<le> s * (unat (df_start sub - 1) + unat (df_count sub))
             \<longrightarrow> length msg \<le> s * unat (df_start sub - 1) + length bs))"

text \<open>What the size and the number of fragments allow.\<close>

definition complete_frag :: "nat \<Rightarrow> u32 \<Rightarrow> DataFrag \<Rightarrow> bool" where
  "complete_frag s count sub \<longleftrightarrow> 0 < df_count sub \<and> unat (df_start sub - 1) + unat (df_count sub) \<le> unat count
     \<and> (unat (df_start sub - 1) + unat (df_count sub) < unat count \<longrightarrow> s * unat (df_count sub) \<le> unat (sp_length (df_payload sub)))"

lemma sp_bytes_prefix:
  assumes ok: "sp_ok p" and bs: "sp_bytes (sp_length p) p = Some bs" and n: "n \<le> sp_length p"
  shows "sp_bytes n p = Some (take (unat n) bs)"
proof (cases "n = 0")
  case False
  then have nz: "sp_length p \<noteq> 0" using n by (auto simp: word_le_nat_alt unat_eq_zero)
  then obtain d where d: "sp_data p = Some d" "mem_read d 0 (unat (sp_length p)) = Some bs"
    using bs by (auto simp: sp_bytes_def split: option.splits)
  have "unat n \<le> unat (sp_length p)" using n by (simp add: word_le_nat_alt)
  then show ?thesis using d False by (auto simp: sp_bytes_def mem_read_def min_def split: if_splits)
qed (simp add: sp_bytes_def)

lemma assembled_iff: "links cc xs \<Longrightarrow> is_fully_assembled cc \<longleftrightarrow> xs = []"
  by (cases xs) (auto simp: links_def is_fully_assembled_def dest: leD)

lemma add_fragments_alt:
  "add_fragments incoming start n cc =
     (if start - 1 + n > cc_fragment_count cc then Some (cc, False)
      else if start - 1 + n < cc_fragment_count cc \<and> sp_length incoming < ucast (cc_fragment_size cc) * n then Some (cc, False)
      else if (start - 1) * ucast (cc_fragment_size cc) + frag_bytes cc (start - 1) n > sp_length (cc_serializedPayload cc)
      then Some (cc, False)
      else do {
        (cc1, changed) \<leftarrow> received_fragments (start - 1) n cc;
        if changed
        then do {
          bs \<leftarrow> sp_bytes (frag_bytes cc (start - 1) n) incoming;
          data \<leftarrow> sp_data (cc_serializedPayload cc1);
          data' \<leftarrow> mem_write data (unat ((start - 1) * ucast (cc_fragment_size cc))) bs;
          let cc2 = cc1\<lparr>cc_serializedPayload := (cc_serializedPayload cc1)\<lparr>sp_data := Some data'\<rparr>\<rparr>;
          Some (cc2, is_fully_assembled cc2) }
        else Some (cc1, is_fully_assembled cc1) })"
proof -
  have "start + n - 1 = start - 1 + n" by simp
  then show ?thesis unfolding add_fragments_def frag_bytes_def Let_def by (simp only:)
qed

lemma add_fragments_accepted:
  assumes "\<not> start - 1 + n > cc_fragment_count cc"
    and "\<not> (start - 1 + n < cc_fragment_count cc \<and> sp_length incoming < ucast (cc_fragment_size cc) * n)"
    and "\<not> (start - 1) * ucast (cc_fragment_size cc) + frag_bytes cc (start - 1) n > sp_length (cc_serializedPayload cc)"
    and rec: "received_fragments (start - 1) n cc = Some (cc1, changed)"
  shows "add_fragments incoming start n cc =
    (if changed
     then do {
       bs \<leftarrow> sp_bytes (frag_bytes cc (start - 1) n) incoming;
       data \<leftarrow> sp_data (cc_serializedPayload cc1);
       data' \<leftarrow> mem_write data (unat ((start - 1) * ucast (cc_fragment_size cc))) bs;
       let cc2 = cc1\<lparr>cc_serializedPayload := (cc_serializedPayload cc1)\<lparr>sp_data := Some data'\<rparr>\<rparr>;
       Some (cc2, is_fully_assembled cc2) }
     else Some (cc1, is_fully_assembled cc1))"
  unfolding add_fragments_alt if_not_P [OF assms(1)] if_not_P [OF assms(2)] if_not_P [OF assms(3)] rec by simp

lemma reassemblingI:
  "layout cc \<Longrightarrow> length msg = msg_length cc \<Longrightarrow> links cc xs \<Longrightarrow>
   (\<And>j. j < msg_length cc \<Longrightarrow> of_nat (j div frag_size cc) \<notin> set xs \<Longrightarrow> frag_data cc ! j = msg ! j) \<Longrightarrow>
   reassembling msg cc (set xs)"
  unfolding reassembling_def by blast

text \<open>Writing data over received fragments leaves the links of the missing ones alone.\<close>

lemma write_keeps_links:
  assumes lay: "layout cc" and xs: "links cc xs"
    and wr: "mem_write (frag_data cc) off bs = Some d'"
    and cc': "cc' = cc\<lparr>cc_serializedPayload := (cc_serializedPayload cc)\<lparr>sp_data := Some d'\<rparr>\<rparr>"
    and apart: "\<And>x. x \<in> set xs \<Longrightarrow> frag_size cc * (unat x + 1) \<le> off \<or> off + length bs \<le> frag_size cc * unat x"
  shows "layout cc' \<and> links cc' xs \<and> frag_data cc' = d' \<and> frag_size cc' = frag_size cc \<and> msg_length cc' = msg_length cc"
proof -
  have lay': "layout cc' \<and> frag_data cc' = d' \<and> frag_size cc' = frag_size cc \<and> msg_length cc' = msg_length cc"
    using layout_same [OF lay, of cc' d'] length_mem_write [OF wr] by (simp add: cc')
  have "get_next_missing_fragment (cc_fragment_size cc') (cc_serializedPayload cc') x
      = get_next_missing_fragment (cc_fragment_size cc) (cc_serializedPayload cc) x" if "x \<in> set xs" for x
  proof -
    have "links_fit (frag_size cc)" using lay by (simp add: layout_def)
    note link_offset_bounds [OF this, of "unat x"]
    then have "link_offset (frag_size cc) (unat x) + 4 \<le> off \<or> off + length bs \<le> link_offset (frag_size cc) (unat x)"
      using apart [OF that] by linarith
    from mem_read_write_disjoint [OF wr this] show ?thesis
      using lay' by (simp add: get_next_eq [OF lay] get_next_eq [OF conjunct1 [OF lay']])
  qed
  then have "chain (get_next_missing_fragment (cc_fragment_size cc') (cc_serializedPayload cc')) xs (cc_fragment_count cc)"
    using xs chain_cong [of "get_next_missing_fragment (cc_fragment_size cc) (cc_serializedPayload cc)" xs] by (simp add: links_def)
  then show ?thesis using xs lay' unfolding links_def by (simp add: cc')
qed

lemma div_outside: "0 < s \<Longrightarrow> (j div s < a \<longleftrightarrow> j < s * a) \<and> (a \<le> j div s \<longleftrightarrow> s * a \<le> j)" for s :: nat
  by (simp add: div_less_iff_less_mult less_eq_div_iff_mult_less_eq mult.commute)

lemma add_fragments_step:
  assumes re: "reassembling msg cc M" and carries: "carries msg (frag_size cc) sub"
  shows "\<exists>cc' ready M'. add_fragments (df_payload sub) (df_start sub) (df_count sub) cc = Some (cc', ready)
    \<and> reassembling msg cc' M' \<and> (M' = M \<or> M' = M - df_range sub)
    \<and> frag_size cc' = frag_size cc \<and> cc_fragment_count cc' = cc_fragment_count cc
    \<and> (ready \<longrightarrow> M' = {})
    \<and> (complete_frag (frag_size cc) (cc_fragment_count cc) sub \<longrightarrow> M' = M - df_range sub \<and> (ready \<longleftrightarrow> M' = {}))"
proof -
  let ?initial = "df_start sub - 1" and ?n = "df_count sub" and ?inc = "df_payload sub"
  let ?s = "frag_size cc" and ?L = "msg_length cc" and ?count = "cc_fragment_count cc"
  let ?fs = "ucast (cc_fragment_size cc) :: u32" and ?bytes = "frag_bytes cc ?initial ?n"
  let ?accept = "\<not> ?initial + ?n > ?count \<and> \<not> (?initial + ?n < ?count \<and> sp_length ?inc < ?fs * ?n)
    \<and> \<not> ?initial * ?fs + ?bytes > sp_length (cc_serializedPayload cc)"
  have lay: "layout cc" and len_msg: "length msg = ?L" using re by (simp_all add: reassembling_def)
  obtain xs where xs: "links cc xs" "M = set xs" using re by (auto simp: reassembling_def)
  have s: "0 < ?s" using lay by (rule frag_size_pos)
  have L: "?L < 2 ^ 32" using lay by (simp add: layout_def)
  show ?thesis
  proof (cases ?accept)
    case False
    then have run: "add_fragments ?inc (df_start sub) ?n cc = Some (cc, False)" unfolding add_fragments_alt by auto
    have "\<not> complete_frag ?s ?count sub"
    proof
      assume c: "complete_frag ?s ?count sub"
      then have no_wrap: "unat ?initial + unat ?n \<le> unat ?count" "0 < unat ?n"
        by (auto simp: complete_frag_def word_less_nat_alt)
      then have "unat (?initial + ?n) = unat ?initial + unat ?n"
        using unsigned_less [of ?count, where ?'a = nat] by (simp add: unat_word_ariths)
      then have lt: "?initial < ?initial + ?n" and le: "?initial + ?n \<le> ?count"
        using no_wrap by (simp_all add: word_less_nat_alt word_le_nat_alt)
      note ar = fragment_arith [OF lay lt le]
      have fits: "?fs * ?n \<le> sp_length ?inc" if l: "?initial + ?n < ?count"
      proof -
        have "unat (?initial + ?n) < unat ?count" using l by (simp add: word_less_nat_alt)
        then have *: "?s * unat ?n \<le> unat (sp_length ?inc)" "unat ?initial + unat ?n < unat ?count"
          using c unfolding ar(1) complete_frag_def by blast+
        then have "?s * (unat ?initial + unat ?n) < ?L" by (intro fragment_begins [OF lay])
        then have "?s * unat ?n < 2 ^ 32" using L by (simp add: distrib_left)
        then have "unat (?fs * ?n) = ?s * unat ?n" by (subst unat_mult_small) (simp_all add: unat_ucast_size)
        then show ?thesis using * by (simp add: word_le_nat_alt)
      qed
      from fits have "\<not> (?initial + ?n < ?count \<and> sp_length ?inc < ?fs * ?n)" by (meson leD)
      then show False using False le ar(5) by (meson leD)
    qed
    then show ?thesis using run re by blast
  next
    case True
    then have le: "?initial + ?n \<le> ?count" by auto
    let ?keep = "filter (\<lambda>x. \<not> (?initial \<le> x \<and> x < ?initial + ?n)) xs"
    from received_spec [OF lay xs(1) le] obtain cc1 changed d1 where
      rec: "received_fragments ?initial ?n cc = Some (cc1, changed)"
      and changed: "changed \<longleftrightarrow> set xs \<inter> {?initial..<?initial + ?n} \<noteq> {}"
      and keep: "links cc1 ?keep"
      and same: "cc_fragment_size cc1 = cc_fragment_size cc" "cc_fragment_count cc1 = ?count"
        "cc_serializedPayload cc1 = (cc_serializedPayload cc)\<lparr>sp_data := Some d1\<rparr>" "length d1 = length (frag_data cc)"
      and data: "\<forall>j < length d1. d1 ! j \<noteq> frag_data cc ! j \<longrightarrow>
        (\<exists>m \<in> set ?keep. ?s * unat m \<le> j \<and> j < ?s * (unat m + 1))" by blast
    note accepted = add_fragments_accepted [OF conjunct1 [OF True] conjunct1 [OF conjunct2 [OF True]]
        conjunct2 [OF conjunct2 [OF True]] rec]
    have lay1: "layout cc1" "frag_data cc1 = d1" "frag_size cc1 = ?s" "msg_length cc1 = ?L"
      using layout_same [OF lay, of cc1 d1] same by simp_all
    have M': "set ?keep = M - df_range sub" by (auto simp: xs(2) df_range_def)
    have old: "d1 ! j = frag_data cc ! j" if j: "j < ?L" "of_nat (j div ?s) \<notin> set ?keep" for j
    proof (rule ccontr)
      assume "d1 ! j \<noteq> frag_data cc ! j"
      moreover have "j < length d1" using j(1) lay same(4) by (simp add: layout_def)
      ultimately obtain m where m: "m \<in> set ?keep" "?s * unat m \<le> j" "j < ?s * (unat m + 1)" using data by blast
      then have "j div ?s = unat m" using div_outside [OF s, of j "unat m"] div_outside [OF s, of j "unat m + 1"] by linarith
      then show False using j(2) m(1) by simp
    qed
    show ?thesis
    proof (cases changed)
      case False
      then have run: "add_fragments ?inc (df_start sub) ?n cc = Some (cc1, is_fully_assembled cc1)"
        using accepted by simp
      have "M = set ?keep" using False changed by (auto simp: xs(2))
      have "reassembling msg cc1 (set ?keep)"
      proof (rule reassemblingI [OF lay1(1) _ keep])
        fix j assume "j < msg_length cc1" "of_nat (j div frag_size cc1) \<notin> set ?keep"
        then have j: "j < ?L" "of_nat (j div ?s) \<notin> set ?keep" unfolding lay1 by blast+
        have "of_nat (j div ?s) \<notin> M" unfolding \<open>M = set ?keep\<close> by (rule j(2))
        then have "frag_data cc ! j = msg ! j" using re j(1) by (auto simp: reassembling_def)
        then show "frag_data cc1 ! j = msg ! j" using old [OF j] lay1(2) by simp
      qed (simp only: len_msg lay1(4))
      moreover have "is_fully_assembled cc1 \<longleftrightarrow> M - df_range sub = {}"
        unfolding assembled_iff [OF keep] M' [symmetric] by (simp only: set_empty)
      ultimately show ?thesis using run lay1(3) same(2) unfolding M' by blast
    next
      case ch: True
      then obtain x0 where "?initial \<le> x0" "x0 < ?initial + ?n" using changed by auto
      then have lt: "?initial < ?initial + ?n" by (rule le_less_trans)
      note ar = fragment_arith [OF lay lt le]
      let ?off = "?s * unat ?initial" and ?stop = "min ?L (?s * (unat ?initial + unat ?n))"
      obtain bs where bs: "sp_bytes (sp_length ?inc) ?inc = Some bs" "length bs = unat (sp_length ?inc)"
        using carries sp_ok_bytes by (auto simp: carries_def)
      have from_msg: "\<forall>k < length bs. ?off + k < ?L \<longrightarrow> bs ! k = msg ! (?off + k)"
        and reach: "?L \<le> ?s * (unat ?initial + unat ?n) \<longrightarrow> ?L \<le> ?off + length bs"
        using carries bs(1) by (auto simp: carries_def len_msg)
      have enough: "?bytes \<le> sp_length ?inc"
      proof (cases "?initial + ?n < ?count")
        case l: True
        then show ?thesis using True by (simp add: frag_bytes_def not_less)
      next
        case False
        then have "unat ?initial + unat ?n = unat ?count" using le ar(1) by (metis le_neq_trans)
        then have "?L \<le> ?s * (unat ?initial + unat ?n)" using message_ends [OF lay] by simp
        then show ?thesis using reach bs(2) ar(3,4) by (simp add: word_le_nat_alt)
      qed
      let ?bs = "take (unat ?bytes) bs"
      have blen: "length ?bs = ?stop - ?off" "?off \<le> ?stop"
        using enough bs(2) ar(3) unfolding ar(4) [symmetric] by (simp_all add: word_le_nat_alt distrib_left)
      have "?L \<le> length d1" using lay same(4) by (simp add: layout_def)
      moreover have "?off + length ?bs = ?stop" using blen by linarith
      ultimately have "?off + length ?bs \<le> length d1" using min.cobounded1 [of ?L] by (metis le_trans)
      then obtain d2 where wr: "mem_write d1 ?off ?bs = Some d2" using mem_write_Some_iff by blast
      let ?cc2 = "cc1\<lparr>cc_serializedPayload := (cc_serializedPayload cc1)\<lparr>sp_data := Some d2\<rparr>\<rparr>"
      have run: "add_fragments ?inc (df_start sub) ?n cc = Some (?cc2, is_fully_assembled ?cc2)"
        using accepted ch sp_bytes_prefix [OF _ bs(1) enough] carries ar(2) wr
        by (simp add: carries_def same(3) Let_def)
      have apart: "?s * (unat x + 1) \<le> ?off \<or> ?off + length ?bs \<le> ?s * unat x" if "x \<in> set ?keep" for x
      proof -
        have "unat x + 1 \<le> unat ?initial \<or> unat ?initial + unat ?n \<le> unat x"
          using that unfolding ar(1) [symmetric] by (auto simp: word_le_nat_alt word_less_nat_alt)
        then show ?thesis
        proof
          assume "unat x + 1 \<le> unat ?initial"
          then show ?thesis using mult_le_mono2 by blast
        next
          assume "unat ?initial + unat ?n \<le> unat x"
          then have "?stop \<le> ?s * unat x" by (meson le_trans min.cobounded2 mult_le_mono2)
          then show ?thesis using blen by linarith
        qed
      qed
      have wr': "mem_write (frag_data cc1) ?off ?bs = Some d2" using wr lay1(2) by simp
      have cc2: "layout ?cc2 \<and> links ?cc2 ?keep \<and> frag_data ?cc2 = d2 \<and> frag_size ?cc2 = ?s \<and> msg_length ?cc2 = ?L"
        using write_keeps_links [OF lay1(1) keep wr' refl] apart lay1(3,4) by simp
      have "d2 ! j = msg ! j" if j: "j < ?L" "of_nat (j div ?s) \<notin> set ?keep" for j
      proof -
        have "j < length d1" using j(1) lay same(4) by (simp add: layout_def)
        note d2 = mem_write_nth [OF wr this]
        show ?thesis
        proof (cases "?off \<le> j \<and> j < ?off + length ?bs")
          case in_block: True
          then obtain k where k: "j = ?off + k" "k < length ?bs" by (metis le_iff_add nat_add_left_cancel_less)
          then have "d2 ! j = ?bs ! k" using d2 in_block by simp
          also have "\<dots> = bs ! k" using k(2) by simp
          also have "\<dots> = msg ! j" using from_msg j(1) k by simp
          finally show ?thesis .
        next
          case False
          then have "\<not> (?off \<le> j \<and> j < ?stop)" using blen by linarith
          then have "j < ?off \<or> ?s * (unat ?initial + unat ?n) \<le> j"
            using j(1) by (meson min_le_iff_disj not_le)
          then have out: "j div ?s < unat ?initial \<or> unat ?initial + unat ?n \<le> j div ?s"
            by (simp only: div_outside [OF s, THEN conjunct1] div_outside [OF s, THEN conjunct2])
          have "j < ?s * unat ?count" using j(1) message_ends [OF lay] by (rule less_le_trans)
          then have "j div ?s < unat ?count" by (simp only: div_outside [OF s, THEN conjunct1])
          then have idx: "unat (of_nat (j div ?s) :: u32) = j div ?s"
            using unsigned_less [of ?count, where ?'a = nat] by (simp add: unat_of_nat)
          then have "of_nat (j div ?s) \<notin> df_range sub" unfolding df_range_def
            using out unfolding atLeastLessThan_iff word_le_nat_alt word_less_nat_alt idx ar(1) by linarith
          then have "of_nat (j div ?s) \<notin> M" using j(2) unfolding M' by blast
          then have "frag_data cc ! j = msg ! j" using re j(1) by (auto simp: reassembling_def)
          then show ?thesis unfolding d2 if_not_P [OF False] old [OF j] .
        qed
      qed
      then have "reassembling msg ?cc2 (set ?keep)"
        using cc2 len_msg by (intro reassemblingI [of ?cc2 msg ?keep]) (simp_all only:)
      moreover have "is_fully_assembled ?cc2 \<longleftrightarrow> M - df_range sub = {}"
        unfolding assembled_iff [OF conjunct1 [OF conjunct2 [OF cc2]]] M' [symmetric] by (simp only: set_empty)
      moreover have "frag_size ?cc2 = ?s" "cc_fragment_count ?cc2 = ?count" using cc2 same(2) by simp_all
      ultimately show ?thesis using run unfolding M' by blast
    qed
  qed
qed

end
