(* ===== verification/Fragment_Delivery.thy ===== *)
theory Fragment_Delivery
  imports Fragment_Reassembly
begin

text \<open>
  From the first fragment to the whole message: \<open>setFragmentSize\<close> builds the list of missing fragments, a
  sequence of submessages is received in any order, and the properties of the result; then what happens to
  fragment sizes and submessages that the code accepts without being able to handle them.
\<close>

subsection \<open>The list of all fragments\<close>

lemma unat_of_nat_u32: "k \<le> unat (c :: u32) \<Longrightarrow> unat (of_nat k :: u32) = k"
proof -
  assume "k \<le> unat c"
  moreover have "unat c < 2 ^ LENGTH(32)" by (rule unsigned_less)
  ultimately show ?thesis by (simp add: unat_of_nat)
qed

lemma CreateList_spec:
  fixes cc :: "'info CacheChange_t"
  assumes "layout cc" and "n \<le> unat (cc_fragment_count cc)" and "k \<le> n"
  shows "\<exists>d'. CreateList (cc_fragment_size cc) [Suc k..<Suc n] (cc_serializedPayload cc)
        = Some ((cc_serializedPayload cc)\<lparr>sp_data := Some d'\<rparr>)
    \<and> length d' = length (frag_data cc)
    \<and> (\<forall>j. get_next_missing_fragment (cc_fragment_size cc) ((cc_serializedPayload cc)\<lparr>sp_data := Some d'\<rparr>) j
        = (if k \<le> unat j \<and> unat j < n then Some (j + 1)
           else get_next_missing_fragment (cc_fragment_size cc) (cc_serializedPayload cc) j))"
  using assms
proof (induction "n - k" arbitrary: k cc)
  case 0
  have "cc_serializedPayload cc = (cc_serializedPayload cc)\<lparr>sp_data := Some (frag_data cc)\<rparr>"
    using layout_data [OF "0.prems"(1)] by simp
  with 0 show ?case by (intro exI [of _ "frag_data cc"]) auto
next
  case (Suc m)
  let ?fs = "cc_fragment_size cc" and ?p = "cc_serializedPayload cc" and ?i = "of_nat k :: u32"
  have k: "k < n" "k < unat (cc_fragment_count cc)" using Suc.hyps(2) Suc.prems by linarith+
  then have i: "unat ?i = k" using unat_of_nat_u32 [of k "cc_fragment_count cc"] by simp
  then have "?i < cc_fragment_count cc" using k by (simp add: word_less_nat_alt)
  from set_next_spec [OF Suc.prems(1) this, of "of_nat (Suc k)"] obtain d1 where
    set: "set_next_missing_fragment ?fs ?i (of_nat (Suc k)) ?p = Some (?p\<lparr>sp_data := Some d1\<rparr>)"
    and wr: "mem_write (frag_data cc) (link_offset (frag_size cc) (unat ?i)) (le_bytes 4 (of_nat (Suc k) :: u32)) = Some d1"
    by blast
  let ?cc = "cc\<lparr>cc_serializedPayload := ?p\<lparr>sp_data := Some d1\<rparr>\<rparr>"
  have len: "length d1 = length (frag_data cc)" by (rule length_mem_write [OF wr])
  then have lay: "layout ?cc" "frag_data ?cc = d1" using layout_same [OF Suc.prems(1), of ?cc d1] by simp_all
  have link: "get_next_missing_fragment ?fs (?p\<lparr>sp_data := Some d1\<rparr>) j
      = (if j = ?i then Some (?i + 1) else get_next_missing_fragment ?fs ?p j)" for j
    using get_next_after_set [OF Suc.prems(1) lay(1), of ?i "of_nat (Suc k)" j] wr lay(2)
    by (simp add: add.commute)
  have "m = n - Suc k" "Suc k \<le> n" using Suc.hyps(2) by linarith+
  from Suc.hyps(1) [OF this(1) lay(1) _ this(2)] obtain d' where
    rest: "CreateList ?fs [Suc (Suc k)..<Suc n] (?p\<lparr>sp_data := Some d1\<rparr>) = Some (?p\<lparr>sp_data := Some d'\<rparr>)"
    and len': "length d' = length d1"
    and links: "\<forall>j. get_next_missing_fragment ?fs (?p\<lparr>sp_data := Some d'\<rparr>) j
        = (if Suc k \<le> unat j \<and> unat j < n then Some (j + 1)
           else get_next_missing_fragment ?fs (?p\<lparr>sp_data := Some d1\<rparr>) j)"
    using Suc.prems(2) lay(2) by auto
  have "[Suc k..<Suc n] = Suc k # [Suc (Suc k)..<Suc n]" using k(1) by (intro upt_conv_Cons) simp
  then have run: "CreateList ?fs [Suc k..<Suc n] ?p = Some (?p\<lparr>sp_data := Some d'\<rparr>)" using set rest by simp
  have "get_next_missing_fragment ?fs (?p\<lparr>sp_data := Some d'\<rparr>) j
      = (if k \<le> unat j \<and> unat j < n then Some (j + 1) else get_next_missing_fragment ?fs ?p j)" for j
  proof (cases "j = ?i")
    case True
    then show ?thesis using links link i k(1) by simp
  next
    case False
    then have "unat j \<noteq> k" using i by (metis word_unat_eq_iff)
    then have "Suc k \<le> unat j \<longleftrightarrow> k \<le> unat j" by linarith
    then show ?thesis using links link [of j] False by simp
  qed
  then show ?case using run len len' by auto
qed

lemma chain_all:
  assumes "\<And>j. k \<le> unat j \<Longrightarrow> unat j < n \<Longrightarrow> link j = Some (j + 1)" and "n \<le> unat (c :: u32)" and "k \<le> n"
  shows "chain link (map of_nat [k..<n]) (of_nat n)"
  using assms(3,1)
proof (induction "n - k" arbitrary: k)
  case (Suc m)
  then have k: "k < n" by linarith
  have tail: "[k..<n] = k # [Suc k..<n]" using k by (rule upt_conv_Cons)
  have "unat (of_nat k :: u32) = k" using unat_of_nat_u32 [of k c] k assms(2) by simp
  then have "link (of_nat k) = Some (of_nat k + 1)" using Suc.prems(2) [of "of_nat k"] k by simp
  moreover have "hd (map of_nat [Suc k..<n] @ [of_nat n]) = (of_nat (Suc k) :: u32)"
    by (cases "Suc k < n") (use k in \<open>simp_all add: upt_conv_Cons not_less le_Suc_eq\<close>)
  moreover have "chain link (map of_nat [Suc k..<n]) (of_nat n)" using Suc k by (intro Suc.hyps(1)) auto
  ultimately show ?case unfolding tail by (simp add: add.commute)
qed simp

lemma all_fragments:
  "sorted_wrt (<) (map of_nat [0..<unat c] :: u32 list) \<and> set (map of_nat [0..<unat c]) = {x. x < (c :: u32)}"
proof
  have "(of_nat i :: u32) < of_nat j" if "i < j" "j < unat c" for i j
    using that unat_of_nat_u32 [of i c] unat_of_nat_u32 [of j c] by (simp add: word_less_nat_alt)
  then show "sorted_wrt (<) (map of_nat [0..<unat c] :: u32 list)"
    by (auto simp: sorted_wrt_map sorted_wrt_iff_nth_less)
  show "set (map of_nat [0..<unat c]) = {x. x < c}"
  proof (rule set_eqI)
    fix x :: u32
    have "x \<in> set (map of_nat [0..<unat c]) \<longleftrightarrow> unat x < unat c"
    proof
      assume "unat x < unat c"
      then show "x \<in> set (map of_nat [0..<unat c])" by (auto intro!: image_eqI [of _ _ "unat x"])
    qed (use unat_of_nat_u32 [of _ c] in auto)
    then show "x \<in> set (map of_nat [0..<unat c]) \<longleftrightarrow> x \<in> {x. x < c}" by (simp add: word_less_nat_alt)
  qed
qed

text \<open>What the code needs of the size of the fragments and of the buffer.\<close>

definition fragmentable :: "u16 \<Rightarrow> SerializedPayload_t \<Rightarrow> bool" where
  "fragmentable fragment_size p \<longleftrightarrow>
     (let s = unat fragment_size; n = unat (sp_length p) in
        links_fit s \<and> n + s < 2 ^ 32 \<and> sp_ok p \<and> sp_data p \<noteq> None
        \<and> (0 < n \<longrightarrow> link_offset s ((n - 1) div s) + 4 \<le> length (the (sp_data p))))"

lemma fragment_count_div:
  "0 < s \<Longrightarrow> (n + s - 1) div s = (if n = 0 then 0 else Suc ((n - 1) div s))" for s n :: nat
  using div_add_self2 [of s "n - 1"] by (cases n) simp_all

lemma link_offset_mono:
  assumes "links_fit s" and "i \<le> j"
  shows "link_offset s i \<le> link_offset s j"
  using link_offset_apart [OF assms(1), of i j] assms(2) by (cases "i = j") auto

lemma fragment_count_exact:
  assumes "0 < fs" and "unat len + unat fs < 2 ^ 32"
  shows "unat ((len + ucast fs - 1) div ucast fs :: u32) = (unat len + unat fs - 1) div unat (fs :: u16)"
proof -
  have "unat fs < 2 ^ LENGTH(16)" by (rule unsigned_less)
  then have f: "unat (ucast fs :: u32) = unat fs" by (simp add: unsigned_ucast_eq take_bit_eq_mod)
  have pos: "0 < unat fs" using assms(1) by (simp add: word_less_nat_alt)
  have sum: "unat (len + ucast fs) = unat len + unat fs" using assms(2) f by (simp add: unat_word_ariths)
  have "1 \<le> len + ucast fs" using sum pos by (simp add: word_le_nat_alt)
  then have "unat (len + ucast fs - 1) = unat len + unat fs - 1" using sum by (simp add: unat_sub)
  then show ?thesis using f by (simp add: unat_div)
qed

lemma start_reassembly:
  fixes cc :: "'info CacheChange_t"
  assumes fit: "fragmentable fs (cc_serializedPayload cc)" and msg: "length msg = msg_length cc"
  shows "\<exists>cc0. setFragmentSize fs True cc = Some cc0 \<and> reassembling msg cc0 {x. x < cc_fragment_count cc0}
    \<and> frag_size cc0 = unat fs \<and> unat (cc_fragment_count cc0) = (msg_length cc + unat fs - 1) div unat fs"
proof -
  let ?p = "cc_serializedPayload cc" and ?s = "unat fs" and ?L = "msg_length cc"
  let ?count = "(sp_length ?p + ucast fs - 1) div ucast fs :: u32"
  let ?cc = "cc\<lparr>cc_fragment_size := fs, cc_fragment_count := ?count, cc_first_missing_fragment := 0\<rparr>"
  have fit': "links_fit ?s" "?L + ?s < 2 ^ 32" "sp_ok ?p" "sp_data ?p \<noteq> None"
    "0 < ?L \<Longrightarrow> link_offset ?s ((?L - 1) div ?s) + 4 \<le> length (frag_data cc)"
    using fit by (auto simp: fragmentable_def Let_def msg_length_def frag_data_def)
  have pos: "0 < ?s" "0 < fs" using fit'(1) by (auto simp: links_fit_def word_less_nat_alt)
  have count: "unat ?count = (?L + ?s - 1) div ?s"
    using fragment_count_exact [OF pos(2), of "sp_length ?p"] fit'(2) by (simp add: msg_length_def)
  have "link_offset ?s i + 4 \<le> length (frag_data cc)" if "i < unat ?count" for i
  proof -
    have "0 < ?L" "i \<le> (?L - 1) div ?s" using that unfolding count fragment_count_div [OF pos(1)] by (auto split: if_splits)
    then show ?thesis using fit'(5) link_offset_mono [OF fit'(1)] by (meson add_le_mono1 le_trans)
  qed
  moreover have "?L \<le> length (frag_data cc)"
    using fit'(3,4) by (auto simp: sp_ok_def sp_allocated_def msg_length_def frag_data_def word_le_nat_alt split: option.splits)
  ultimately have lay: "layout ?cc" "frag_data ?cc = frag_data cc" "frag_size ?cc = ?s" "msg_length ?cc = ?L"
    using fit' count by (simp_all add: layout_def frag_size_def msg_length_def frag_data_def)
  from CreateList_spec [OF lay(1), of "unat ?count" 0] obtain d' where
    run: "CreateList fs [1..<Suc (unat ?count)] ?p = Some (?p\<lparr>sp_data := Some d'\<rparr>)"
    and len: "length d' = length (frag_data cc)"
    and link: "\<And>j. unat j < unat ?count \<Longrightarrow> get_next_missing_fragment fs (?p\<lparr>sp_data := Some d'\<rparr>) j = Some (j + 1)"
    using lay(2) by auto
  let ?cc0 = "?cc\<lparr>cc_serializedPayload := ?p\<lparr>sp_data := Some d'\<rparr>\<rparr>"
  let ?xs = "map of_nat [0..<unat ?count] :: u32 list"
  have lay0: "layout ?cc0" "frag_size ?cc0 = ?s" "msg_length ?cc0 = ?L"
    using layout_same [OF lay(1), of ?cc0 d'] len lay(2-4) by simp_all
  have "chain (get_next_missing_fragment fs (?p\<lparr>sp_data := Some d'\<rparr>)) ?xs (of_nat (unat ?count))"
    by (rule chain_all [of 0 _ _ ?count]) (simp_all add: link)
  moreover have "hd (?xs @ [?count]) = 0"
  proof (cases "unat ?count")
    case 0
    then have "?count = 0" by (simp add: unat_eq_zero)
    then show ?thesis by (simp add: 0)
  next
    case (Suc k)
    then show ?thesis by (simp add: upt_conv_Cons del: upt_Suc)
  qed
  ultimately have links0: "links ?cc0 ?xs" using all_fragments [of ?count] by (simp add: links_def)
  have "reassembling msg ?cc0 (set ?xs)"
  proof (rule reassemblingI [OF lay0(1) _ links0])
    fix j assume "j < msg_length ?cc0" "of_nat (j div frag_size ?cc0) \<notin> set ?xs"
    then have j: "j < ?L" "of_nat (j div ?s) \<notin> set ?xs" unfolding lay0 by blast+
    have "j < ?s * unat ?count" using j(1) message_ends [OF lay0(1)] lay0 by simp
    then have "j div ?s < unat ?count" by (simp only: div_outside [OF pos(1), THEN conjunct1])
    then have "of_nat (j div ?s) \<in> set ?xs" by simp
    with j(2) show "frag_data ?cc0 ! j = msg ! j" by blast
  qed (simp only: msg lay0)
  then have "reassembling msg ?cc0 {x. x < ?count}" using all_fragments [of ?count] by (simp only:)
  moreover have "setFragmentSize fs True cc = Some ?cc0"
    using pos(2) run by (auto simp: setFragmentSize_def Let_def simp del: upt_Suc)
  ultimately show ?thesis using lay0(2) count by (intro exI [of _ ?cc0]) simp
qed

subsection \<open>Any sequence of submessages\<close>

fun ReceiveAll :: "DataFrag list \<Rightarrow> 'info CacheChange_t \<Rightarrow> 'info CacheChange_t option" where
  "ReceiveAll [] cc = Some cc"
| "ReceiveAll (sub # subs) cc =
     do { (cc', ready) \<leftarrow> add_fragments (df_payload sub) (df_start sub) (df_count sub) cc; ReceiveAll subs cc' }"

lemma ReceiveAll_spec:
  fixes cc :: "'info CacheChange_t"
  assumes "reassembling msg cc M" and "\<forall>sub \<in> set subs. carries msg (frag_size cc) sub"
  shows "\<exists>cc' M'. ReceiveAll subs cc = Some cc' \<and> reassembling msg cc' M' \<and> M' \<subseteq> M
    \<and> frag_size cc' = frag_size cc \<and> cc_fragment_count cc' = cc_fragment_count cc
    \<and> (\<forall>sub \<in> set subs. complete_frag (frag_size cc) (cc_fragment_count cc) sub \<longrightarrow> M' \<inter> df_range sub = {})"
  using assms
proof (induction subs arbitrary: cc M)
  case (Cons sub subs)
  have "carries msg (frag_size cc) sub" using Cons.prems(2) by simp
  from add_fragments_step [OF Cons.prems(1) this] obtain cc1 d M1 where
    one: "add_fragments (df_payload sub) (df_start sub) (df_count sub) cc = Some (cc1, d)" "reassembling msg cc1 M1"
      "M1 = M \<or> M1 = M - df_range sub" "frag_size cc1 = frag_size cc" "cc_fragment_count cc1 = cc_fragment_count cc"
      "complete_frag (frag_size cc) (cc_fragment_count cc) sub \<longrightarrow> M1 = M - df_range sub" by blast
  from Cons.IH [OF one(2)] Cons.prems(2) one(4,5) obtain cc' M' where
    "ReceiveAll subs cc1 = Some cc'" "reassembling msg cc' M'" "M' \<subseteq> M1"
    "frag_size cc' = frag_size cc" "cc_fragment_count cc' = cc_fragment_count cc"
    "\<forall>sub \<in> set subs. complete_frag (frag_size cc) (cc_fragment_count cc) sub \<longrightarrow> M' \<inter> df_range sub = {}" by auto
  then show ?case using one by (intro exI [of _ cc'] exI [of _ M']) auto
qed auto

lemma assembled_message:
  assumes "reassembling msg cc M" and "is_fully_assembled cc"
  shows "sp_bytes (sp_length (cc_serializedPayload cc)) (cc_serializedPayload cc) = Some msg"
proof -
  have lay: "layout cc" and len: "length msg = msg_length cc" using assms(1) by (simp_all add: reassembling_def)
  obtain xs where "links cc xs" "M = set xs" using assms(1) by (auto simp: reassembling_def)
  then have "M = {}" using assms(2) assembled_iff by fastforce
  then have "frag_data cc ! j = msg ! j" if "j < msg_length cc" for j using assms(1) that by (simp add: reassembling_def)
  moreover have "msg_length cc \<le> length (frag_data cc)" using lay by (simp add: layout_def)
  ultimately have "take (msg_length cc) (frag_data cc) = msg" using len by (intro nth_equalityI) simp_all
  then show ?thesis using layout_data [OF lay] \<open>msg_length cc \<le> _\<close> len
    by (auto simp: sp_bytes_def mem_read_def msg_length_def)
qed

text \<open>The walk that requests the missing fragments is the loop of \<open>add\<close> over them.\<close>

lemma AddMissing_chain:
  "chain (get_next_missing_fragment fs p) xs e \<Longrightarrow> (\<forall>x \<in> set xs. x < e) \<Longrightarrow>
   AddMissing fs p e (hd (xs @ [e])) r = Some (AddEach FragmentNumberOps (map (\<lambda>x. x + 1) xs) r)"
proof (induction xs arbitrary: r)
  case (Cons x xs)
  then show ?case by (subst AddMissing.simps) (simp add: AddEach_def)
qed (subst AddMissing.simps, simp add: AddEach_def)

lemma br_set_base_new: "br_set_base ops base r = BitmapRange_of_base ops base"
  by (simp add: br_set_base_def BitmapRange_of_base_def BitmapRange_new_def)

subsection \<open>Properties\<close>

text \<open>
  C28. A fragmented sample is reassembled.  Once the fragment list is built in a large enough buffer, submessages
  that carry octets of the message may arrive in any order, repeated, overlapping or refused, with whatever
  numbers: the code never reads or writes outside of the buffers and its walks along the links end.  If the
  change then counts as fully assembled, the payload is the message, and it does as soon as every fragment
  was part of some complete submessage.
\<close>

theorem fragments_reassemble_the_message:
  fixes cc :: "'info CacheChange_t"
  assumes "fragmentable fs (cc_serializedPayload cc)" and "length msg = msg_length cc"
    and "\<forall>sub \<in> set subs. carries msg (unat fs) sub"
  shows "\<exists>cc0 cc'. setFragmentSize fs True cc = Some cc0 \<and> ReceiveAll subs cc0 = Some cc'
    \<and> (is_fully_assembled cc' \<longrightarrow> sp_bytes (sp_length (cc_serializedPayload cc')) (cc_serializedPayload cc') = Some msg)
    \<and> ((\<forall>i < cc_fragment_count cc0. \<exists>sub \<in> set subs. complete_frag (unat fs) (cc_fragment_count cc0) sub \<and> i \<in> df_range sub)
         \<longrightarrow> is_fully_assembled cc')"
proof -
  obtain cc0 where start: "setFragmentSize fs True cc = Some cc0"
    "reassembling msg cc0 {x. x < cc_fragment_count cc0}" "frag_size cc0 = unat fs"
    using start_reassembly [OF assms(1,2)] by blast
  from ReceiveAll_spec [OF start(2), of subs] assms(3) start(3) obtain cc' M' where
    run: "ReceiveAll subs cc0 = Some cc'" "reassembling msg cc' M'" "M' \<subseteq> {x. x < cc_fragment_count cc0}"
    "\<forall>sub \<in> set subs. complete_frag (unat fs) (cc_fragment_count cc0) sub \<longrightarrow> M' \<inter> df_range sub = {}"
    by auto
  obtain xs where xs: "links cc' xs" "M' = set xs" using run(2) by (auto simp: reassembling_def)
  have "is_fully_assembled cc'"
    if "\<forall>i < cc_fragment_count cc0. \<exists>sub \<in> set subs. complete_frag (unat fs) (cc_fragment_count cc0) sub \<and> i \<in> df_range sub"
  proof -
    have "M' = {}" using that run(3,4) by blast
    then show ?thesis using assembled_iff [OF xs(1)] xs(2) by simp
  qed
  then show ?thesis using start(1) run(1) assembled_message [OF run(2)] by blast
qed

definition ExamplePayload :: "octets \<Rightarrow> u32 \<Rightarrow> SerializedPayload_t" where
  "ExamplePayload data len =
     \<lparr>sp_encapsulation = 0, sp_length = len, sp_data = Some data, sp_max_size = of_nat (length data), sp_pos = 0\<rparr>"

definition ExampleChange :: "SerializedPayload_t \<Rightarrow> unit CacheChange_t" where
  "ExampleChange p =
     \<lparr>cc_kind = ALIVE, cc_info = (), cc_sequenceNumber = SequenceNumber_t 0 1, cc_serializedPayload = p, cc_isRead = False,
      cc_is_untyped = False, cc_fragment_size = 0, cc_fragment_count = 0, cc_first_missing_fragment = 0\<rparr>"

lemma carriesI:
  assumes "sp_ok (df_payload sub)" and "sp_bytes (sp_length (df_payload sub)) (df_payload sub) = Some bs"
    and "take (length bs) (drop (s * unat (df_start sub - 1)) msg) = take (length msg - s * unat (df_start sub - 1)) bs"
    and "length msg \<le> s * (unat (df_start sub - 1) + unat (df_count sub)) \<longrightarrow> length msg \<le> s * unat (df_start sub - 1) + length bs"
  shows "carries msg s sub"
proof -
  have "bs ! k = msg ! (s * unat (df_start sub - 1) + k)"
    if "k < length bs" "s * unat (df_start sub - 1) + k < length msg" for k
    using arg_cong [OF assms(3), of "\<lambda>l. l ! k"] that by (simp add: add.commute)
  then show ?thesis using assms by (auto simp: carries_def)
qed

lemma setFragmentSize_fields:
  "setFragmentSize fs True cc = Some cc0 \<Longrightarrow> fs \<noteq> 0 \<Longrightarrow>
   cc_first_missing_fragment cc0 = 0 \<and> cc_fragment_size cc0 = fs
   \<and> cc_fragment_count cc0 = (sp_length (cc_serializedPayload cc) + ucast fs - 1) div ucast fs"
  by (auto simp: setFragmentSize_def Let_def split: Option.bind_splits)

lemma Example_fragmentable: "fragmentable 4 (cc_serializedPayload (ExampleChange (ExamplePayload (replicate 8 0) 6)))"
  by (simp add: fragmentable_def links_fit_def ExampleChange_def ExamplePayload_def sp_ok_def sp_allocated_def
      link_offset_def word_le_nat_alt)

lemma less_2_u32: "(i :: u32) < 2 \<longleftrightarrow> i = 0 \<or> i = 1"
  by (simp add: word_less_nat_alt word_unat_eq_iff less_2_cases_iff)

text \<open>Six octets in fragments of four, the second fragment first.\<close>

theorem fragments_reassemble_the_message_witness:
  "\<exists>cc0 cc'. setFragmentSize 4 True (ExampleChange (ExamplePayload (replicate 8 0) 6)) = Some cc0
    \<and> ReceiveAll [\<lparr>df_payload = ExamplePayload [5, 6] 2, df_start = 2, df_count = 1\<rparr>,
                  \<lparr>df_payload = ExamplePayload [1, 2, 3, 4] 4, df_start = 1, df_count = 1\<rparr>] cc0 = Some cc'
    \<and> is_fully_assembled cc'
    \<and> sp_bytes (sp_length (cc_serializedPayload cc')) (cc_serializedPayload cc') = Some [1, 2, 3, 4, 5, 6]"
proof -
  let ?subs = "[\<lparr>df_payload = ExamplePayload [5, 6] 2, df_start = 2, df_count = 1\<rparr>,
      \<lparr>df_payload = ExamplePayload [1, 2, 3, 4] 4, df_start = 1, df_count = 1\<rparr>]"
  have "carries [1, 2, 3, 4, 5, 6] (unat (4 :: u16)) sub" if "sub \<in> set ?subs" for sub
    using that by (auto intro!: carriesI simp: ExamplePayload_def sp_ok_def sp_allocated_def sp_bytes_def mem_read_def)
  then have "\<forall>sub \<in> set ?subs. carries [1, 2, 3, 4, 5, 6] (unat (4 :: u16)) sub" by blast
  from fragments_reassemble_the_message [OF Example_fragmentable _ this] obtain cc0 cc' where
    cc0: "setFragmentSize 4 True (ExampleChange (ExamplePayload (replicate 8 0) 6)) = Some cc0"
    and run: "ReceiveAll ?subs cc0 = Some cc'"
    and fin: "is_fully_assembled cc' \<longrightarrow>
        sp_bytes (sp_length (cc_serializedPayload cc')) (cc_serializedPayload cc') = Some [1, 2, 3, 4, 5, 6]"
      "(\<forall>i < cc_fragment_count cc0. \<exists>sub \<in> set ?subs. complete_frag (unat (4 :: u16)) (cc_fragment_count cc0) sub \<and> i \<in> df_range sub)
        \<longrightarrow> is_fully_assembled cc'"
    by (auto simp: msg_length_def ExampleChange_def ExamplePayload_def)
  have "cc_fragment_count cc0 = 2"
    using setFragmentSize_fields [OF cc0] by (simp add: ExampleChange_def ExamplePayload_def)
  then have "is_fully_assembled cc'"
    using fin(2) by (auto simp: less_2_u32 complete_frag_def df_range_def ExamplePayload_def)
  then show ?thesis using cc0 run fin(1) by blast
qed

text \<open>
  C29. The negative acknowledgement asks for exactly the missing fragments: while fragments are missing,
  \<open>get_missing_fragments\<close> ends and fills the set with the numbers, counted from one, of the missing fragments
  that lie at most 255 after the first one.
\<close>

theorem missing_fragments_are_requested:
  assumes re: "reassembling msg cc M" and room: "uint (cc_first_missing_fragment cc) + 257 \<le> 2 ^ 32 - 1"
  shows "\<exists>s. get_missing_fragments cc s0 = Some s \<and> FragmentNumberSet_ok s
    \<and> fragments s = {uint x + 1 | x. x \<in> M \<and> uint x \<le> uint (cc_first_missing_fragment cc) + 255}"
proof -
  let ?first = "cc_first_missing_fragment cc" and ?e = "cc_fragment_count cc"
  obtain xs where xs: "links cc xs" "M = set xs" using re by (auto simp: reassembling_def)
  then have first: "?first = hd (xs @ [?e])" and below: "\<forall>x \<in> set xs. x < ?e" and sorted: "sorted_wrt (<) xs"
    by (simp_all add: links_def)
  let ?r = "BitmapRange_of_base FragmentNumberOps (?first + 1)"
  have base: "uint (?first + 1) = uint ?first + 1" using room by (simp add: uint_add_u32)
  have new: "range_ok uint (2 ^ 32 - 1) ?r" "tight ?r" "fragments ?r = {}"
    using fns.new_spec [of "?first + 1"] room base by (simp_all add: BitmapRange_of_base_def)
  have window: "br_base ?r = ?first + 1" "uint (br_range_max ?r) = uint ?first + 256"
    using room by (simp_all add: BitmapRange_of_base_def BitmapRange_new_def NBITS_def uint_add_u32)
  have run: "get_missing_fragments cc s0 = Some (AddEach FragmentNumberOps (map (\<lambda>x. x + 1) xs) ?r)"
    using xs(1) AddMissing_chain below unfolding get_missing_fragments_def first br_set_base_new links_def by blast
  note each = fns.AddEach_spec [OF new(1), of "map (\<lambda>x. x + 1) xs"]
  have succ: "uint (x + 1) = uint x + 1" if "x \<in> set xs" for x
  proof -
    have "uint x < uint ?e" using below that by (simp add: word_less_def)
    then show ?thesis using uint_u32(2) [of ?e] by (simp add: uint_add_u32)
  qed
  have ge: "uint ?first \<le> uint x" if "x \<in> set xs" for x
    using sorted_hd_least [OF sorted below that] first by (simp add: word_le_def)
  have "fragments (AddEach FragmentNumberOps (map (\<lambda>x. x + 1) xs) ?r)
      = {p \<in> uint ` set (map (\<lambda>x. x + 1) xs). uint ?first + 1 \<le> p \<and> p \<le> uint ?first + 256}"
    using each new(3) unfolding window base by simp
  also have "\<dots> = {uint x + 1 | x. x \<in> M \<and> uint x \<le> uint ?first + 255}"
    unfolding xs(2) using succ ge by (auto simp: image_iff)
  finally show ?thesis using run each new(2) by (auto simp: FragmentNumberSet_ok_def)
qed

theorem missing_fragments_are_requested_witness:
  "\<exists>cc0 s. setFragmentSize 4 True (ExampleChange (ExamplePayload (replicate 8 0) 6)) = Some cc0
    \<and> get_missing_fragments cc0 (BitmapRange_of_base FragmentNumberOps 1) = Some s \<and> fragments s = {1, 2}"
proof -
  let ?cc = "ExampleChange (ExamplePayload (replicate 8 0) 6)"
  from start_reassembly [OF Example_fragmentable, of "replicate 6 0"] obtain cc0 where
    cc0: "setFragmentSize 4 True ?cc = Some cc0" "reassembling (replicate 6 0) cc0 {x. x < cc_fragment_count cc0}"
    by (auto simp: msg_length_def ExampleChange_def ExamplePayload_def)
  have fields: "cc_fragment_count cc0 = 2" "cc_first_missing_fragment cc0 = 0"
    using setFragmentSize_fields [OF cc0(1)] by (simp_all add: ExampleChange_def ExamplePayload_def)
  have "{uint x + 1 | x :: u32. x \<in> {x. x < 2} \<and> uint x \<le> uint (0 :: u32) + 255} = {1, 2}"
    by (auto simp: less_2_u32 intro: exI [of _ "0 :: u32"] exI [of _ "1 :: u32"])
  then show ?thesis
    using missing_fragments_are_requested [OF cc0(2), of "BitmapRange_of_base FragmentNumberOps 1"] cc0(1)
    unfolding fields by auto
qed

subsection \<open>What the code accepts without being able to handle it\<close>

text \<open>
  The link of a last fragment of less than four octets lies beyond the payload: in a buffer that is exactly as
  long as the message, building the list writes outside of it.
\<close>

lemma short_last_fragment_link_out_of_bounds:
  "setFragmentSize 4 True (ExampleChange (ExamplePayload (replicate 5 0) 5)) = None"
  by (simp add: setFragmentSize_def ExampleChange_def ExamplePayload_def set_next_missing_fragment_def mem_write_def
      unat_next_fragment_pointer link_offset_def Let_def upt_conv_Cons)

text \<open>
  The length of the data is not compared with what the last fragment needs: a last fragment that is shorter
  than the rest of the message is copied from beyond its end.
\<close>

lemma short_submessage_read_out_of_bounds:
  "\<exists>cc0. setFragmentSize 4 True (ExampleChange (ExamplePayload (replicate 8 0) 6)) = Some cc0
    \<and> add_fragments (ExamplePayload [5] 1) 2 1 cc0 = None"
proof -
  let ?cc = "ExampleChange (ExamplePayload (replicate 8 0) 6)"
  from start_reassembly [OF Example_fragmentable, of "replicate 6 0"] obtain cc0 where
    cc0: "setFragmentSize 4 True ?cc = Some cc0" "reassembling (replicate 6 0) cc0 {x. x < cc_fragment_count cc0}"
    by (auto simp: msg_length_def ExampleChange_def ExamplePayload_def)
  have fields: "cc_fragment_count cc0 = 2" "cc_fragment_size cc0 = 4"
    using setFragmentSize_fields [OF cc0(1)] by (simp_all add: ExampleChange_def ExamplePayload_def)
  have len: "msg_length cc0 = 6" "layout cc0" using cc0(2) by (simp_all add: reassembling_def)
  then have "unat (sp_length (cc_serializedPayload cc0)) = unat (6 :: u32)" by (simp add: msg_length_def)
  then have sl: "sp_length (cc_serializedPayload cc0) = 6" by (simp only: word_unat_eq_iff)
  obtain xs where xs: "links cc0 xs" "set xs = {x. x < 2}" using cc0(2) fields by (auto simp: reassembling_def)
  have "1 + 1 \<le> cc_fragment_count cc0" by (simp add: fields)
  from received_spec [OF len(2) xs(1) this] obtain cc1 changed where
    rec: "received_fragments (2 - 1) 1 cc0 = Some (cc1, changed)" and "changed \<longleftrightarrow> set xs \<inter> {1..<1 + 1} \<noteq> {}" by auto
  then have changed: changed unfolding xs(2) by (auto simp: less_2_u32)
  have bytes: "frag_bytes cc0 1 1 = 2" and offset: "1 * ucast (cc_fragment_size cc0) = (4 :: u32)"
    by (simp_all add: frag_bytes_def fields sl)
  have "\<not> (1 :: u32) + 1 > cc_fragment_count cc0"
    "\<not> ((1 :: u32) + 1 < cc_fragment_count cc0 \<and> sp_length (ExamplePayload [5] 1) < ucast (cc_fragment_size cc0) * 1)"
    "\<not> 1 * ucast (cc_fragment_size cc0) + frag_bytes cc0 1 1 > sp_length (cc_serializedPayload cc0)"
    unfolding bytes offset fields sl by simp_all
  moreover have two: "(2 :: u32) - 1 = 1" by simp
  ultimately have "add_fragments (ExamplePayload [5] 1) 2 1 cc0 = None"
    using add_fragments_accepted [where start = 2 and n = 1 and cc = cc0 and incoming = "ExamplePayload [5] 1" and ?cc1.0 = cc1 and changed = changed] rec changed
    unfolding two bytes offset by (simp add: sp_bytes_def ExamplePayload_def mem_read_def)
  then show ?thesis using cc0(1) by blast
qed

text \<open>
  With fragments of 1, 2, 3 or 5 octets the link of the second fragment reaches into the data of the third one,
  which overwrites it; with 1 or 2 octets the two even share their link.
\<close>

lemma tiny_fragments_share_links:
  "s \<in> {1, 2, 3, 5} \<Longrightarrow> s * 2 < link_offset s 1 + 4"
  "next_fragment_pointer 1 1 = next_fragment_pointer 1 2" "next_fragment_pointer 2 1 = next_fragment_pointer 2 2"
  by (auto simp: link_offset_def) (simp_all add: word_unat_eq_iff unat_next_fragment_pointer link_offset_def)

end
