(* ===== verification/Change_For_Reader.thy ===== *)
theory Change_For_Reader
  imports Cache_Change
begin

text \<open>
  \<open>ChangeForReader_t\<close> (\<open>fastdds/rtps/writer/ChangeForReader.h\<close>): what a reliable writer keeps of a change for
  one reader, in particular the window of fragments still to be sent.  A failed \<open>assert\<close>, like an access outside
  of the bitmap, is \<open>None\<close>.  The change pointed to is held by value: the operations only read its sequence number
  and fragmentation.
\<close>

datatype ChangeForReaderStatus_t = UNSENT | REQUESTED | UNACKNOWLEDGED | ACKNOWLEDGED | UNDERWAY

fun ChangeForReaderStatus_val :: "ChangeForReaderStatus_t \<Rightarrow> int" where
  "ChangeForReaderStatus_val UNSENT = 0"
| "ChangeForReaderStatus_val REQUESTED = 1"
| "ChangeForReaderStatus_val UNACKNOWLEDGED = 2"
| "ChangeForReaderStatus_val ACKNOWLEDGED = 3"
| "ChangeForReaderStatus_val UNDERWAY = 4"

record 'info ChangeForReader_t =
  cfr_status :: ChangeForReaderStatus_t
  cfr_seq_num :: SequenceNumber_t
  cfr_change :: "'info CacheChange_t"
  cfr_unsent :: FragmentNumberSet_t
  cfr_delivered :: bool

definition markAllFragmentsAsUnsent :: "'info ChangeForReader_t \<Rightarrow> 'info ChangeForReader_t" where
  "markAllFragmentsAsUnsent c =
     (if cc_fragment_size (cfr_change c) \<noteq> 0
      then c\<lparr>cfr_unsent := br_add_range FragmentNumberOps 1 (cc_fragment_count (cfr_change c) + 1)
               (br_set_base FragmentNumberOps 1 (cfr_unsent c))\<rparr>
      else c)"

definition ChangeForReader_new :: "'info CacheChange_t \<Rightarrow> 'info ChangeForReader_t" where
  "ChangeForReader_new change =
     (let unsent = BitmapRange_of_base FragmentNumberOps 0 in
      \<lparr>cfr_status = UNSENT, cfr_seq_num = cc_sequenceNumber change, cfr_change = change,
       cfr_unsent = (if cc_fragment_size change \<noteq> 0
                     then br_add_range FragmentNumberOps 1 (cc_fragment_count change + 1)
                            (br_set_base FragmentNumberOps 1 unsent)
                     else unsent),
       cfr_delivered = False\<rparr>)"

definition setStatus :: "ChangeForReaderStatus_t \<Rightarrow> 'info ChangeForReader_t \<Rightarrow> 'info ChangeForReader_t" where
  "setStatus status c = c\<lparr>cfr_status := status\<rparr>"

definition get_next_unsent_fragment :: "'info ChangeForReader_t \<Rightarrow> u32" where
  "get_next_unsent_fragment c =
     (if br_empty (cfr_unsent c) then cc_fragment_count (cfr_change c) + 1
      else br_min FragmentNumberOps (cfr_unsent c))"

definition markFragmentsAsSent :: "u32 \<Rightarrow> 'info ChangeForReader_t \<Rightarrow> 'info ChangeForReader_t option" where
  "markFragmentsAsSent sentFragment c =
     do {
       unsent \<leftarrow> br_remove FragmentNumberOps sentFragment (cfr_unsent c);
       if \<not> cfr_delivered c \<and> \<not> br_empty unsent \<and> br_max FragmentNumberOps unsent < cc_fragment_count (cfr_change c)
       then
         let base = br_base unsent; max_fragment = br_max FragmentNumberOps unsent in
         if is_set FragmentNumberOps base unsent then None
         else
           let unsent1 = base_update FragmentNumberOps (br_min FragmentNumberOps unsent) unsent
           in Some (c\<lparr>cfr_unsent := br_add_range FragmentNumberOps (max_fragment + 1)
                        (cc_fragment_count (cfr_change c) + 1) unsent1\<rparr>)
       else Some (c\<lparr>cfr_unsent := unsent\<rparr>) }"

definition markFragmentsAsUnsent :: "FragmentNumberSet_t \<Rightarrow> 'info ChangeForReader_t \<Rightarrow> 'info ChangeForReader_t" where
  "markFragmentsAsUnsent unsentFragments c =
     (if cfr_delivered c then
        if br_empty (cfr_unsent c) then c\<lparr>cfr_unsent := unsentFragments\<rparr>
        else
          let other_base = br_base unsentFragments;
              unsent = (if other_base < br_base (cfr_unsent c)
                        then base_update FragmentNumberOps other_base (cfr_unsent c) else cfr_unsent c)
          in c\<lparr>cfr_unsent := AddEach FragmentNumberOps (for_each FragmentNumberOps unsentFragments) unsent\<rparr>
      else c)"

definition set_delivered :: "'info ChangeForReader_t \<Rightarrow> 'info ChangeForReader_t" where
  "set_delivered c = c\<lparr>cfr_delivered := True\<rparr>"

definition ChangeForReaderCmp :: "'info ChangeForReader_t \<Rightarrow> 'info ChangeForReader_t \<Rightarrow> bool" where
  "ChangeForReaderCmp a b \<longleftrightarrow> sn_less (cfr_seq_num a) (cfr_seq_num b)"

text \<open>Sending: the next fragment that is due, again and again.\<close>

fun SendFragments :: "nat \<Rightarrow> 'info ChangeForReader_t \<Rightarrow> (u32 list \<times> 'info ChangeForReader_t) option" where
  "SendFragments 0 c = Some ([], c)"
| "SendFragments (Suc n) c =
     do { let fragment = get_next_unsent_fragment c;
          c1 \<leftarrow> markFragmentsAsSent fragment c;
          (rest, c2) \<leftarrow> SendFragments n c1;
          Some (fragment # rest, c2) }"

subsection \<open>The first stage\<close>

text \<open>
  Fragments \<open>k\<close> to the end of the window (or of the change) are unsent; the window begins at \<open>k\<close> until it
  reaches the last fragment.
\<close>

definition stage_one :: "int \<Rightarrow> 'info ChangeForReader_t \<Rightarrow> bool" where
  "stage_one k c \<longleftrightarrow>
     (let s = cfr_unsent c; n = uint (cc_fragment_count (cfr_change c)); b = uint (br_base s) in
        \<not> cfr_delivered c \<and> n + 258 \<le> 2 ^ 32 - 1 \<and> 1 \<le> k \<and> k \<le> n + 1
        \<and> FragmentNumberSet_ok s \<and> uint (br_range_max s) = b + 255
        \<and> fragments s = {k..min (b + 255) n} \<and> b \<le> k \<and> (b = k \<or> n \<le> b + 255))"

lemma fns_empty_iff: "FragmentNumberSet_ok s \<Longrightarrow> br_empty s \<longleftrightarrow> fragments s = {}"
  by (auto simp: FragmentNumberSet_ok_def range_ok_def bits_ok_def tight_def br_empty_def br_elems_def unat_gt_0)

lemma fns_bounds:
  assumes "FragmentNumberSet_ok s" and "fragments s = {a..b}" and "a \<le> b"
  shows "uint (br_max FragmentNumberOps s) = b" and "uint (br_min FragmentNumberOps s) = a"
proof -
  have "\<not> br_empty s" using fns_empty_iff [OF assms(1)] assms(2,3) by simp
  then have "uint (br_max FragmentNumberOps s) \<in> {a..b} \<and> (\<forall>p \<in> {a..b}. p \<le> uint (br_max FragmentNumberOps s))"
    using fns.max_spec [of s] assms(1,2) by (simp add: FragmentNumberSet_ok_def br_empty_def)
  then show "uint (br_max FragmentNumberOps s) = b"
    using assms(3) by (meson atLeastAtMost_iff order_antisym order_refl)
  have "uint (br_min FragmentNumberOps s) \<in> {a..b} \<and> (\<forall>p \<in> {a..b}. uint (br_min FragmentNumberOps s) \<le> p)"
    using fns.min_spec [of s] assms by (simp add: FragmentNumberSet_ok_def)
  then show "uint (br_min FragmentNumberOps s) = a"
    using assms(3) by (meson atLeastAtMost_iff order_antisym order_refl)
qed

lemma br_remove_window:
  "br_remove ops x r = Some r' \<Longrightarrow> br_base r' = br_base r \<and> br_range_max r' = br_range_max r"
  by (auto simp: br_remove_def Let_def split: if_splits)

lemma br_add_range_window [simp]:
  "br_base (br_add_range ops a b r) = br_base r" "br_range_max (br_add_range ops a b r) = br_range_max r"
  by (simp_all add: br_add_range_def Let_def)

lemma base_update_window:
  "br_range_max (base_update ops base r) = (if base = br_base r then br_range_max r else item_plus ops base (of_nat NBITS - 1))"
  by (simp add: base_update_def Let_def)

lemma uint_succ: "uint (x :: u32) < 2 ^ 32 - 1 \<Longrightarrow> uint (x + 1) = uint x + 1"
  by (simp add: uint_add_u32)

text \<open>Adding an interval, for fragment numbers.\<close>

lemma fns_add_range:
  assumes "FragmentNumberSet_ok s" and "uint b < 2 ^ 32 - 1"
  shows "FragmentNumberSet_ok (br_add_range FragmentNumberOps a (b + 1) s)
    \<and> fragments (br_add_range FragmentNumberOps a (b + 1) s)
      = fragments s \<union> {p. uint (br_base s) \<le> p \<and> uint a \<le> p \<and> p \<le> uint b \<and> p \<le> uint (br_base s) + 255}"
proof -
  have ok: "range_ok uint (2 ^ 32 - 1) s" "tight s" using assms(1) by (simp_all only: FragmentNumberSet_ok_def)
  have "{p. uint (br_base s) \<le> p \<and> uint a \<le> p \<and> p < uint (b + 1) \<and> p < uint (br_base s) + 256}
      = {p. uint (br_base s) \<le> p \<and> uint a \<le> p \<and> p \<le> uint b \<and> p \<le> uint (br_base s) + 255}"
    unfolding uint_succ [OF assms(2)] by (intro Collect_cong) linarith
  then show ?thesis using fns.add_range_spec [OF ok(1), of a "b + 1"] ok(2)
    by (simp only: FragmentNumberSet_ok_def simp_thms)
qed

lemma fns_remove:
  assumes "FragmentNumberSet_ok s" and "\<not> br_empty s"
  shows "\<exists>u. br_remove FragmentNumberOps x s = Some u \<and> FragmentNumberSet_ok u \<and> fragments u = fragments s - {uint x}
    \<and> br_base u = br_base s \<and> br_range_max u = br_range_max s"
proof -
  have ok: "range_ok uint (2 ^ 32 - 1) s" "tight s" using assms(1) by (simp_all only: FragmentNumberSet_ok_def)
  have "br_num_bits s \<noteq> 0" using assms(2) by (simp add: br_empty_def)
  from fns.remove_spec [OF ok this, of x] obtain u where
    u: "br_remove FragmentNumberOps x s = Some u" "range_ok uint (2 ^ 32 - 1) u" "tight u" "fragments u = fragments s - {uint x}"
    by blast
  show ?thesis using u br_remove_window [OF u(1)] unfolding FragmentNumberSet_ok_def by blast
qed

lemma fns_base_update:
  assumes "FragmentNumberSet_ok s" and "\<not> br_empty s" and "uint base + 256 \<le> 2 ^ 32 - 1"
  shows "FragmentNumberSet_ok (base_update FragmentNumberOps base s)
    \<and> br_base (base_update FragmentNumberOps base s) = base
    \<and> fragments (base_update FragmentNumberOps base s) = {p \<in> fragments s. uint base \<le> p \<and> p \<le> uint base + 255}"
proof -
  have ok: "range_ok uint (2 ^ 32 - 1) s" "tight s" using assms(1) by (simp_all only: FragmentNumberSet_ok_def)
  have "br_num_bits s \<noteq> 0" using assms(2) by (simp add: br_empty_def)
  moreover have "\<bar>uint base - uint (br_base s)\<bar> < 2 ^ 32"
    using uint_u32 [of base] uint_u32 [of "br_base s"] by linarith
  ultimately show ?thesis using fns.base_update_spec [OF ok(1) assms(3)] ok(2) unfolding FragmentNumberSet_ok_def by blast
qed

lemma fns_is_set: "FragmentNumberSet_ok s \<Longrightarrow> is_set FragmentNumberOps x s \<longleftrightarrow> uint x \<in> fragments s \<and> x \<le> br_range_max s"
  by (simp only: FragmentNumberSet_ok_def fns.is_set_spec)

lemma stage_one_step:
  assumes st: "stage_one k c" and more: "k \<le> uint (cc_fragment_count (cfr_change c))"
  shows "uint (get_next_unsent_fragment c) = k
    \<and> (\<exists>c'. markFragmentsAsSent (get_next_unsent_fragment c) c = Some c' \<and> stage_one (k + 1) c' \<and> cfr_change c' = cfr_change c)"
proof -
  let ?s = "cfr_unsent c" and ?count = "cc_fragment_count (cfr_change c)"
  let ?n = "uint ?count" and ?b = "uint (br_base ?s)" and ?x = "get_next_unsent_fragment c"
  have st': "\<not> cfr_delivered c" "?n + 258 \<le> 2 ^ 32 - 1" "1 \<le> k" "FragmentNumberSet_ok ?s"
    "uint (br_range_max ?s) = ?b + 255" "fragments ?s = {k..min (?b + 255) ?n}" "?b \<le> k" "?b = k \<or> ?n \<le> ?b + 255"
    using st unfolding stage_one_def Let_def by blast+
  have win: "k \<le> min (?b + 255) ?n" using st'(8) more by auto
  then have "\<not> br_empty ?s" using fns_empty_iff [OF st'(4)] st'(6) by simp
  then have x: "uint ?x = k" using fns_bounds(2) [OF st'(4,6) win] by (simp add: get_next_unsent_fragment_def)
  from fns_remove [OF st'(4) \<open>\<not> br_empty ?s\<close>, of ?x] obtain u where
    u: "br_remove FragmentNumberOps ?x ?s = Some u" "FragmentNumberSet_ok u" "fragments u = fragments ?s - {k}"
    and window: "br_base u = br_base ?s" "br_range_max u = br_range_max ?s" unfolding x by blast
  have cut: "{k..m} - {k} = {k + 1..m}" for m :: int by auto
  have left: "fragments u = {k + 1..min (?b + 255) ?n}" unfolding u(3) st'(6) cut by (rule refl)
  show ?thesis
  proof (cases "\<not> br_empty u \<and> br_max FragmentNumberOps u < ?count")
    case True
    then have ne: "k + 1 \<le> min (?b + 255) ?n" using left fns_empty_iff [OF u(2)] by auto
    note bounds = fns_bounds [OF u(2) left ne]
    then have "min (?b + 255) ?n < ?n" using True by (simp add: word_less_def)
    then have b: "?b = k" "?b + 255 < ?n" using st'(8) by auto
    have max: "uint (br_max FragmentNumberOps u) = k + 255" and min: "uint (br_min FragmentNumberOps u) = k + 1"
      using bounds b by simp_all
    have not_set: "\<not> is_set FragmentNumberOps (br_base u) u"
      unfolding fns_is_set [OF u(2)] left window(1) b(1) by simp
    let ?u1 = "base_update FragmentNumberOps (br_min FragmentNumberOps u) u"
    have "uint (br_min FragmentNumberOps u) + 256 \<le> 2 ^ 32 - 1" using min b st'(2) by linarith
    note slid = fns_base_update [OF u(2) conjunct1 [OF True] this]
    have "min (?b + 255) ?n = k + 255" using b by simp
    then have "{p \<in> fragments u. k + 1 \<le> p \<and> p \<le> k + 1 + 255} = {k + 1..k + 255}" unfolding left by auto
    then have u1: "FragmentNumberSet_ok ?u1" "br_base ?u1 = br_min FragmentNumberOps u" "fragments ?u1 = {k + 1..k + 255}"
      using slid unfolding min by blast+
    have "br_min FragmentNumberOps u \<noteq> br_base u" using min b window(1) by auto
    then have u1_max: "uint (br_range_max ?u1) = k + 256"
      using min b st'(2) by (simp add: base_update_window NBITS_def uint_add_u32)
    let ?u2 = "br_add_range FragmentNumberOps (br_max FragmentNumberOps u + 1) (?count + 1) ?u1"
    have "uint (br_max FragmentNumberOps u + 1) = k + 256" using max b st'(2) by (simp add: uint_succ)
    moreover have "?n < 2 ^ 32 - 1" using st'(2) by simp
    ultimately have u2: "FragmentNumberSet_ok ?u2" "fragments ?u2 = {k + 1..k + 256}"
      using fns_add_range [OF u1(1), of ?count "br_max FragmentNumberOps u + 1"] u1 min b by auto
    have run: "markFragmentsAsSent ?x c = Some (c\<lparr>cfr_unsent := ?u2\<rparr>)"
      using True u(1) st'(1) not_set by (simp add: markFragmentsAsSent_def Let_def)
    have "stage_one (k + 1) (c\<lparr>cfr_unsent := ?u2\<rparr>)"
      using st' u1(2) u1_max u2 min b by (simp add: stage_one_def Let_def)
    then show ?thesis using x run by auto
  next
    case False
    then have run: "markFragmentsAsSent ?x c = Some (c\<lparr>cfr_unsent := u\<rparr>)"
      using u(1) by (auto simp: markFragmentsAsSent_def)
    have "?n \<le> ?b + 255"
    proof (rule ccontr)
      assume far: "\<not> ?thesis"
      then have ne: "k + 1 \<le> min (?b + 255) ?n" using st'(8) by auto
      then have "\<not> br_empty u" using left fns_empty_iff [OF u(2)] by auto
      moreover have "br_max FragmentNumberOps u < ?count"
        using fns_bounds(1) [OF u(2) left ne] far by (simp add: word_less_def)
      ultimately show False using False by simp
    qed
    then have "stage_one (k + 1) (c\<lparr>cfr_unsent := u\<rparr>)"
      using st' u(2) left window more by (simp add: stage_one_def Let_def)
    then show ?thesis using x run by auto
  qed
qed

lemma SendFragments_stage_one:
  "stage_one k c \<Longrightarrow> k + int n \<le> uint (cc_fragment_count (cfr_change c)) + 1 \<Longrightarrow>
   \<exists>sent c'. SendFragments n c = Some (sent, c') \<and> map uint sent = [k..k + int n - 1]
     \<and> stage_one (k + int n) c' \<and> cfr_change c' = cfr_change c"
proof (induction n arbitrary: k c)
  case (Suc n)
  have "k \<le> uint (cc_fragment_count (cfr_change c))" using Suc.prems(2) by simp
  from stage_one_step [OF Suc.prems(1) this] obtain c1 where
    one: "uint (get_next_unsent_fragment c) = k" "markFragmentsAsSent (get_next_unsent_fragment c) c = Some c1"
      "stage_one (k + 1) c1" "cfr_change c1 = cfr_change c" by blast
  have "k + 1 + int n \<le> uint (cc_fragment_count (cfr_change c1)) + 1" using Suc.prems(2) one(4) by simp
  from Suc.IH [OF one(3) this] obtain sent c' where
    rest: "SendFragments n c1 = Some (sent, c')" "map uint sent = [k + 1..k + 1 + int n - 1]"
      "stage_one (k + 1 + int n) c'" "cfr_change c' = cfr_change c1" by blast
  have "[k..k + int (Suc n) - 1] = k # [k + 1..k + 1 + int n - 1]" by (subst upto.simps) (simp add: algebra_simps)
  then show ?case using one rest by (simp add: algebra_simps)
qed simp

lemma fns_of_base:
  "uint base + 256 \<le> 2 ^ 32 - 1 \<Longrightarrow> FragmentNumberSet_ok (BitmapRange_of_base FragmentNumberOps base)
   \<and> fragments (BitmapRange_of_base FragmentNumberOps base) = {}
   \<and> br_base (BitmapRange_of_base FragmentNumberOps base) = base
   \<and> uint (br_range_max (BitmapRange_of_base FragmentNumberOps base)) = uint base + 255"
  using fns.new_spec [of base "of_nat NBITS - 1"]
  by (simp add: FragmentNumberSet_ok_def BitmapRange_of_base_def BitmapRange_new_def NBITS_def uint_add_u32)

lemma set_base_of_base: "br_set_base ops base r = BitmapRange_of_base ops base"
  by (simp add: br_set_base_def BitmapRange_of_base_def BitmapRange_new_def)

lemma stage_one_new:
  assumes "cc_fragment_size change \<noteq> 0" and "uint (cc_fragment_count change) + 258 \<le> 2 ^ 32 - 1"
  shows "stage_one 1 (ChangeForReader_new change)"
proof -
  let ?n = "cc_fragment_count change" and ?s0 = "BitmapRange_of_base FragmentNumberOps 1"
  have new: "FragmentNumberSet_ok ?s0" "fragments ?s0 = {}" "br_base ?s0 = 1" "uint (br_range_max ?s0) = 256"
    using fns_of_base [of 1] by simp_all
  have "uint ?n < 2 ^ 32 - 1" using assms(2) by simp
  note range = fns_add_range [OF new(1) this, of 1]
  have window_set: "{} \<union> {p. uint (1 :: u32) \<le> p \<and> uint (1 :: u32) \<le> p \<and> p \<le> m \<and> p \<le> uint (1 :: u32) + 255} = {1..min 256 m}" for m
    by auto
  have "fragments (br_add_range FragmentNumberOps 1 (?n + 1) ?s0) = {1..min 256 (uint ?n)}"
    using range unfolding new(2,3) window_set by (simp only: simp_thms)
  moreover have "0 \<le> uint ?n" by (rule uint_u32)
  ultimately show ?thesis
    using assms range new(3,4)
    by (auto simp: stage_one_def ChangeForReader_new_def set_base_of_base Let_def)
qed

subsection \<open>Properties\<close>

text \<open>
  C30. A fragmented change is sent in order: from a new \<open>ChangeForReader_t\<close>, sending the next unsent fragment again
  and again never fails and emits the fragments 1, 2, 3 and so on, each once, although the window holds 256
  of them at a time; after the last one nothing is unsent and the next fragment is one past the end.
\<close>

theorem fragments_are_sent_in_order:
  assumes "cc_fragment_size change \<noteq> 0" and "uint (cc_fragment_count change) + 258 \<le> 2 ^ 32 - 1"
    and "int n \<le> uint (cc_fragment_count change)"
  shows "\<exists>sent c. SendFragments n (ChangeForReader_new change) = Some (sent, c) \<and> map uint sent = [1..int n]
    \<and> (int n = uint (cc_fragment_count change) \<longrightarrow>
         br_empty (cfr_unsent c) \<and> get_next_unsent_fragment c = cc_fragment_count change + 1)"
proof -
  have "cfr_change (ChangeForReader_new change) = change" by (simp add: ChangeForReader_new_def Let_def)
  then obtain sent c where run: "SendFragments n (ChangeForReader_new change) = Some (sent, c)"
    "map uint sent = [1..int n]" and st: "stage_one (1 + int n) c" and same: "cfr_change c = change"
    using SendFragments_stage_one [OF stage_one_new [OF assms(1,2)], of n] assms(3) by auto
  have "br_empty (cfr_unsent c)" if "int n = uint (cc_fragment_count change)"
  proof -
    have ok: "FragmentNumberSet_ok (cfr_unsent c)" and
      "fragments (cfr_unsent c) = {1 + int n..min (uint (br_base (cfr_unsent c)) + 255) (uint (cc_fragment_count change))}"
      using st unfolding stage_one_def Let_def same by blast+
    then have "fragments (cfr_unsent c) = {}" using that by simp
    then show ?thesis using fns_empty_iff [OF ok] by simp
  qed
  then show ?thesis using run same by (auto simp: get_next_unsent_fragment_def)
qed

definition FragmentedChange :: "u32 \<Rightarrow> unit CacheChange_t" where
  "FragmentedChange count =
     \<lparr>cc_kind = ALIVE, cc_info = (), cc_sequenceNumber = SequenceNumber_t 0 1, cc_serializedPayload = SerializedPayload_new,
      cc_isRead = False, cc_is_untyped = False, cc_fragment_size = 1024, cc_fragment_count = count,
      cc_first_missing_fragment = count\<rparr>"

theorem fragments_are_sent_in_order_witness:
  "\<exists>sent c. SendFragments 1000 (ChangeForReader_new (FragmentedChange 1000)) = Some (sent, c)
    \<and> map uint sent = [1..1000] \<and> br_empty (cfr_unsent c) \<and> get_next_unsent_fragment c = 1001"
  using fragments_are_sent_in_order [of "FragmentedChange 1000" 1000] by (simp add: FragmentedChange_def)

text \<open>
  C31. A negative acknowledgement of fragments is ignored until every fragment was sent once.  After that it is
  taken as it is when nothing is unsent; otherwise the window moves down to the lower of the two bases, and
  holds exactly the unsent and the requested fragments that lie in it.
\<close>

theorem nack_frag_merges_requests:
  assumes s: "FragmentNumberSet_ok (cfr_unsent c)" and other: "FragmentNumberSet_ok other"
  shows "(\<not> cfr_delivered c \<longrightarrow> markFragmentsAsUnsent other c = c)
    \<and> (cfr_delivered c \<and> br_empty (cfr_unsent c) \<longrightarrow> cfr_unsent (markFragmentsAsUnsent other c) = other)
    \<and> (cfr_delivered c \<and> \<not> br_empty (cfr_unsent c) \<longrightarrow>
        (let s' = cfr_unsent (markFragmentsAsUnsent other c); b = min (uint (br_base (cfr_unsent c))) (uint (br_base other))
         in FragmentNumberSet_ok s' \<and> uint (br_base s') = b
            \<and> fragments s' = {p \<in> fragments (cfr_unsent c). p \<le> b + 255}
                \<union> {p \<in> fragments other. b \<le> p \<and> p \<le> uint (br_range_max s')}))"
proof (cases "cfr_delivered c \<and> \<not> br_empty (cfr_unsent c)")
  case False
  then show ?thesis by (auto simp: markFragmentsAsUnsent_def)
next
  case True
  let ?s = "cfr_unsent c" and ?ob = "br_base other"
  let ?u = "if ?ob < br_base ?s then base_update FragmentNumberOps ?ob ?s else ?s"
  let ?b = "min (uint (br_base ?s)) (uint ?ob)"
  have run: "cfr_unsent (markFragmentsAsUnsent other c) = AddEach FragmentNumberOps (for_each FragmentNumberOps other) ?u"
    using True by (simp add: markFragmentsAsUnsent_def Let_def)
  have ranges: "range_ok uint (2 ^ 32 - 1) ?s" "range_ok uint (2 ^ 32 - 1) other"
    using s other by (simp_all add: FragmentNumberSet_ok_def)
  then have room: "uint ?ob + 256 \<le> 2 ^ 32 - 1" by (simp add: range_ok_def)
  have u: "FragmentNumberSet_ok ?u \<and> uint (br_base ?u) = ?b \<and> fragments ?u = {p \<in> fragments ?s. p \<le> ?b + 255}"
  proof (cases "?ob < br_base ?s")
    case lower: True
    then have less: "uint ?ob < uint (br_base ?s)" by (simp add: word_less_def)
    have "{p \<in> fragments ?s. uint ?ob \<le> p \<and> p \<le> uint ?ob + 255} = {p \<in> fragments ?s. p \<le> uint ?ob + 255}"
      using less by (auto simp: fns.elems_iff)
    then show ?thesis using fns_base_update [OF s conjunct2 [OF True] room] lower less by simp
  next
    case False
    then have "uint (br_base ?s) \<le> uint ?ob" by (simp add: word_less_def)
    then show ?thesis using False s fns.elems_window by auto
  qed
  have visited: "uint ` set (for_each FragmentNumberOps other) = fragments other"
    using fns.for_each_spec [OF ranges(2)] by (metis finite_numbers list.set_map set_sorted_list_of_set)
  have ok: "range_ok uint (2 ^ 32 - 1) ?u" "tight ?u" using u unfolding FragmentNumberSet_ok_def by blast+
  note each = fns.AddEach_spec [OF ok(1), of "for_each FragmentNumberOps other", unfolded visited]
  then show ?thesis using True u ok(2) unfolding run Let_def FragmentNumberSet_ok_def by auto
qed

theorem nack_frag_merges_requests_witness:
  "cfr_unsent (markFragmentsAsUnsent (BitmapRange_of_base FragmentNumberOps 7)
      (set_delivered (ChangeForReader_new (FragmentedChange 0)))) = BitmapRange_of_base FragmentNumberOps 7"
proof -
  let ?c = "set_delivered (ChangeForReader_new (FragmentedChange 0))"
  have st: "stage_one 1 (ChangeForReader_new (FragmentedChange 0))"
    by (rule stage_one_new) (simp_all add: FragmentedChange_def)
  then have ok: "FragmentNumberSet_ok (cfr_unsent ?c)" and "fragments (cfr_unsent ?c) = {}"
    by (simp_all add: stage_one_def Let_def set_delivered_def ChangeForReader_new_def FragmentedChange_def)
  then have "br_empty (cfr_unsent ?c)" using fns_empty_iff by blast
  then show ?thesis using nack_frag_merges_requests [OF ok, of "BitmapRange_of_base FragmentNumberOps 7"] fns_of_base [of 7]
    by (simp add: set_delivered_def)
qed

text \<open>
  During the first stage the order matters: when another fragment than the next one is marked as sent while
  fragments lie beyond the window, the assertion that the base was sent fails.
\<close>

lemma out_of_order_send_fails:
  assumes st: "stage_one k c" and far: "k + 255 < uint (cc_fragment_count (cfr_change c))"
    and x: "k < uint x" "uint x \<le> k + 255"
  shows "markFragmentsAsSent x c = None"
proof -
  let ?s = "cfr_unsent c" and ?n = "uint (cc_fragment_count (cfr_change c))"
  have st': "\<not> cfr_delivered c" "FragmentNumberSet_ok ?s" "uint (br_range_max ?s) = uint (br_base ?s) + 255"
    "fragments ?s = {k..min (uint (br_base ?s) + 255) ?n}" "uint (br_base ?s) \<le> k" "uint (br_base ?s) = k \<or> ?n \<le> uint (br_base ?s) + 255"
    using st unfolding stage_one_def Let_def by blast+
  have b: "uint (br_base ?s) = k" using st'(5,6) far by linarith
  have "min (k + 255) ?n = k + 255" using far by simp
  then have window: "fragments ?s = {k..k + 255}" using st'(4) unfolding b by (simp only:)
  then have "\<not> br_empty ?s" using fns_empty_iff [OF st'(2)] by simp
  from fns_remove [OF st'(2) this, of x] obtain u where
    u: "br_remove FragmentNumberOps x ?s = Some u" "FragmentNumberSet_ok u" "fragments u = {k..k + 255} - {uint x}"
      "br_base u = br_base ?s" "br_range_max u = br_range_max ?s" unfolding window by blast
  have k: "k \<in> fragments u" using x unfolding u(3) by auto
  then have ne: "\<not> br_empty u" using fns_empty_iff [OF u(2)] by blast
  then have "uint (br_max FragmentNumberOps u) \<in> fragments u"
    using fns.max_spec [of u] u(2) by (simp add: FragmentNumberSet_ok_def br_empty_def)
  then have "br_max FragmentNumberOps u < cc_fragment_count (cfr_change c)" using far u(3) by (auto simp: word_less_def)
  moreover have "br_base u \<le> br_range_max u" using st'(3) u(4,5) by (simp add: word_le_def)
  then have "is_set FragmentNumberOps (br_base u) u" using k b u(4) by (simp add: fns_is_set [OF u(2)])
  ultimately show ?thesis using u(1) ne st'(1) by (simp add: markFragmentsAsSent_def Let_def)
qed

end
