(* ===== verification/Cdr_Message.thy ===== *)
theory Cdr_Message
  imports Rtps_Sets Serialized_Payload
begin

text \<open>
  RTPS messages as octets: \<open>CDRMessage_t\<close> (\<open>fastdds/rtps/common/CDRMessage_t.h\<close>) and the readers and writers of
  \<open>CDRMessage\<close> (\<open>fastdds/rtps/messages/CDRMessage.hpp\<close>), for a little-endian target.

  A reader gives the message after it and, when the C++ function returns true, what it has stored; a writer the
  message and what it returns.  \<open>None\<close> is an access outside of the buffer.  Positions are 32-bit words and wrap
  around as in the code.
\<close>

datatype Endianness_t = BIGEND | LITTLEEND

definition DEFAULT_ENDIAN :: Endianness_t where "DEFAULT_ENDIAN = LITTLEEND"

record CDRMessage_t =
  cm_buffer :: "octets option"
  cm_pos :: u32
  cm_max_size :: u32
  cm_reserved_size :: u32
  cm_length :: u32
  cm_endian :: Endianness_t
  cm_wraps :: bool

type_synonym 'a reader = "CDRMessage_t \<Rightarrow> (CDRMessage_t \<times> 'a option) option"
type_synonym writer = "CDRMessage_t \<Rightarrow> (CDRMessage_t \<times> bool) option"

text \<open>What \<open>malloc\<close> leaves in the buffer is the parameter \<open>garbage\<close>.\<close>

definition CDRMessage_of_size :: "(nat \<Rightarrow> octets) \<Rightarrow> u32 \<Rightarrow> CDRMessage_t" where
  "CDRMessage_of_size garbage sz =
     \<lparr>cm_buffer = (if sz \<noteq> 0 then Some (garbage (unat sz)) else None), cm_pos = 0, cm_max_size = sz,
      cm_reserved_size = sz, cm_length = 0, cm_endian = DEFAULT_ENDIAN, cm_wraps = False\<rparr>"

definition CDRMessage_of_payload :: "SerializedPayload_t \<Rightarrow> CDRMessage_t" where
  "CDRMessage_of_payload payload =
     \<lparr>cm_buffer = sp_data payload, cm_pos = sp_pos payload, cm_max_size = sp_max_size payload,
      cm_reserved_size = sp_max_size payload, cm_length = sp_length payload,
      cm_endian = (if sp_encapsulation payload = BOOSTER_FASTDDS_PL_CDR_BE \<or> sp_encapsulation payload = BOOSTER_FASTDDS_CDR_BE
                   then BIGEND else LITTLEEND),
      cm_wraps = True\<rparr>"

definition cm_init :: "octets \<Rightarrow> u32 \<Rightarrow> CDRMessage_t \<Rightarrow> CDRMessage_t option" where
  "cm_init buffer_ptr sz msg =
     (if cm_buffer msg \<noteq> None then None
      else Some \<lparr>cm_buffer = Some buffer_ptr, cm_pos = 0, cm_max_size = sz, cm_reserved_size = sz, cm_length = 0,
                 cm_endian = DEFAULT_ENDIAN, cm_wraps = True\<rparr>)"

definition RTPSMESSAGE_COMMON_RTPS_PAYLOAD_SIZE :: u32 where "RTPSMESSAGE_COMMON_RTPS_PAYLOAD_SIZE = 536"

definition initCDRMsg :: "(nat \<Rightarrow> octets) \<Rightarrow> u32 \<Rightarrow> CDRMessage_t \<Rightarrow> CDRMessage_t" where
  "initCDRMsg garbage payload_size msg =
     (let sz = payload_size + RTPSMESSAGE_COMMON_RTPS_PAYLOAD_SIZE;
          msg1 = (if cm_buffer msg = None
                  then msg\<lparr>cm_buffer := Some (garbage (unat sz)), cm_max_size := sz\<rparr> else msg)
      in msg1\<lparr>cm_pos := 0, cm_length := 0, cm_endian := DEFAULT_ENDIAN\<rparr>)"

subsection \<open>Readers\<close>

definition read_block :: "u32 \<Rightarrow> CDRMessage_t \<Rightarrow> (CDRMessage_t \<times> octets) option" where
  "read_block n msg =
     do { b \<leftarrow> cm_buffer msg; bs \<leftarrow> mem_read b (unat (cm_pos msg)) (unat n); Some (msg\<lparr>cm_pos := cm_pos msg + n\<rparr>, bs) }"

definition readData :: "u32 \<Rightarrow> octets reader" where
  "readData n msg =
     (if cm_pos msg + n > cm_length msg then Some (msg, None)
      else if n > 0 then do { (msg', bs) \<leftarrow> read_block n msg; Some (msg', Some bs) }
      else Some (msg, Some []))"

definition readDataReversed :: "u32 \<Rightarrow> CDRMessage_t \<Rightarrow> (CDRMessage_t \<times> octets) option" where
  "readDataReversed n msg = do { (msg', bs) \<leftarrow> read_block n msg; Some (msg', rev bs) }"

text \<open>The octets of a word, in the order the host keeps them.\<close>

definition read_word :: "u32 \<Rightarrow> (('a :: len) word) reader" where
  "read_word n msg =
     (if cm_pos msg + n > cm_length msg then Some (msg, None)
      else do { (msg', bs) \<leftarrow> (if cm_endian msg = DEFAULT_ENDIAN then read_block n msg else readDataReversed n msg);
                Some (msg', Some (le_word bs)) })"

definition readInt32 :: "i32 reader" where "readInt32 = read_word 4"
definition readUInt32 :: "u32 reader" where "readUInt32 = read_word 4"
definition readInt64 :: "i64 reader" where "readInt64 = read_word 8"
definition readUInt64 :: "u64 reader" where "readUInt64 = read_word 8"
definition readInt16 :: "i16 reader" where "readInt16 = read_word 2"
definition readUInt16 :: "u16 reader" where "readUInt16 = read_word 2"

definition readOctet :: "u8 reader" where
  "readOctet msg =
     (if cm_pos msg + 1 > cm_length msg then Some (msg, None)
      else do { (msg', bs) \<leftarrow> read_block 1 msg; Some (msg', Some (hd bs)) })"

definition readEntityId :: "octets reader" where
  "readEntityId msg =
     (if cm_pos msg + 4 > cm_length msg then Some (msg, None)
      else do { (msg', bs) \<leftarrow> read_block 4 msg; Some (msg', Some bs) })"

definition readSequenceNumber :: "SequenceNumber_t reader" where
  "readSequenceNumber msg =
     (if cm_pos msg + 8 > cm_length msg then Some (msg, None)
      else do {
        (msg1, high) \<leftarrow> readInt32 msg;
        (msg2, low) \<leftarrow> readUInt32 msg1;
        Some (msg2, case (high, low) of (Some h, Some l) \<Rightarrow> Some (SequenceNumber_t h l) | _ \<Rightarrow> None) })"

text \<open>The words of a bitmap, until one cannot be read.\<close>

fun read_bitmap :: "nat \<Rightarrow> u32 list reader" where
  "read_bitmap 0 msg = Some (msg, Some [])"
| "read_bitmap (Suc n) msg =
     do { (msg1, word) \<leftarrow> readUInt32 msg;
          case word of
            None \<Rightarrow> Some (msg1, None)
          | Some w \<Rightarrow> do { (msg2, rest) \<leftarrow> read_bitmap n msg1; Some (msg2, map_option (\<lambda>ws. w # ws) rest) } }"

definition readSequenceNumberSet :: "CDRMessage_t \<Rightarrow> (CDRMessage_t \<times> SequenceNumberSet_t) option" where
  "readSequenceNumberSet msg =
     do {
       (msg1, seqNum) \<leftarrow> readSequenceNumber msg;
       (msg2, numBits) \<leftarrow> readUInt32 msg1;
       case (seqNum, numBits) of
         (Some sn, Some n) \<Rightarrow>
           if n \<le> 256 \<and> 0 \<le> sint (sn_high sn) then do {
             let n' = (if sn_high sn = 0x7FFFFFFF then min n (0xFFFFFFFF - sn_low sn) else n);
             (msg3, bitmap) \<leftarrow> read_bitmap (n_longs n') msg2;
             Some (msg3, case bitmap of
                 Some ws \<Rightarrow> bitmap_set n' ws (BitmapRange_new SequenceNumberOps sn n')
               | None \<Rightarrow> BitmapRange_of_base SequenceNumberOps SequenceNumber_unknown) }
           else Some (msg2, BitmapRange_of_base SequenceNumberOps SequenceNumber_unknown)
       | _ \<Rightarrow> Some (msg2, BitmapRange_of_base SequenceNumberOps SequenceNumber_unknown) }"

definition readFragmentNumberSet :: "FragmentNumberSet_t \<Rightarrow> FragmentNumberSet_t reader" where
  "readFragmentNumberSet fns msg =
     do {
       (msg1, base) \<leftarrow> readUInt32 msg;
       (msg2, numBits) \<leftarrow> readUInt32 msg1;
       case (base, numBits) of
         (Some b, Some n) \<Rightarrow>
           if n \<le> 256 then do {
             (msg3, bitmap) \<leftarrow> read_bitmap (n_longs n) msg2;
             Some (msg3, map_option (\<lambda>ws. bitmap_set n ws (br_set_base FragmentNumberOps b fns)) bitmap) }
           else Some (msg2, None)
       | _ \<Rightarrow> Some (msg2, None) }"

definition align4 :: "u32 \<Rightarrow> u32" where
  "align4 pos = (pos + 3) AND NOT 3"

definition read_array_with_max_size :: "u64 \<Rightarrow> octets reader" where
  "read_array_with_max_size max_size msg =
     (if cm_pos msg + 4 > cm_length msg then Some (msg, None)
      else do {
        (msg1, datasize) \<leftarrow> readUInt32 msg;
        case datasize of
          None \<Rightarrow> Some (msg1, None)
        | Some n \<Rightarrow>
            if max_size < ucast n then Some (msg1, None)
            else do { (msg2, bs) \<leftarrow> readData n msg1; Some (msg2\<lparr>cm_pos := align4 (cm_pos msg2)\<rparr>, bs) } })"

definition readOctetVector :: "octets reader" where
  "readOctetVector msg =
     (if cm_pos msg + 4 > cm_length msg then Some (msg, None)
      else do {
        (msg1, vecsize) \<leftarrow> readUInt32 msg;
        case vecsize of
          None \<Rightarrow> Some (msg1, None)
        | Some n \<Rightarrow> do { (msg2, bs) \<leftarrow> readData n msg1; Some (msg2\<lparr>cm_pos := align4 (cm_pos msg2)\<rparr>, bs) } })"

text \<open>
  A string whose size cannot be read keeps the size \<open>1\<close> of the initialisation, so that a NUL is skipped before the
  failure is reported.
\<close>

definition readString :: "octets reader" where
  "readString msg =
     do {
       (msg1, sz) \<leftarrow> readUInt32 msg;
       let str_size = (case sz of Some n \<Rightarrow> n | None \<Rightarrow> 1);
       if cm_pos msg1 + str_size > cm_length msg1 then Some (msg1, None)
       else do {
         text \<leftarrow> (if str_size > 1 then map_option snd (read_block (str_size - 1) msg1) else Some []);
         let msg2 = msg1\<lparr>cm_pos := align4 (cm_pos msg1 + str_size)\<rparr>;
         Some (msg2, if sz = None then None else Some text) } }"

subsection \<open>Writers\<close>

definition hasSpace :: "u32 \<Rightarrow> CDRMessage_t \<Rightarrow> bool" where
  "hasSpace n msg \<longleftrightarrow> cm_pos msg + n \<le> cm_max_size msg"

definition copyToBuffer :: "octets \<Rightarrow> bool \<Rightarrow> CDRMessage_t \<Rightarrow> CDRMessage_t option" where
  "copyToBuffer data reverse msg =
     do { b \<leftarrow> cm_buffer msg;
          b' \<leftarrow> mem_write b (unat (cm_pos msg)) (if reverse then rev data else data);
          Some (msg\<lparr>cm_buffer := Some b', cm_pos := cm_pos msg + of_nat (length data),
                    cm_length := cm_length msg + of_nat (length data)\<rparr>) }"

definition addData :: "octets \<Rightarrow> writer" where
  "addData data msg =
     (if \<not> hasSpace (of_nat (length data)) msg then Some (msg, False)
      else if data = [] then Some (msg, True)
      else map_option (\<lambda>m. (m, True)) (copyToBuffer data False msg))"

definition addDataReversed :: "octets \<Rightarrow> writer" where
  "addDataReversed data msg =
     (if \<not> hasSpace (of_nat (length data)) msg then Some (msg, False)
      else map_option (\<lambda>m. (m, True)) (copyToBuffer data True msg))"

definition addPrimitive :: "octets \<Rightarrow> writer" where
  "addPrimitive native msg =
     (if \<not> hasSpace (of_nat (length native)) msg then Some (msg, False)
      else map_option (\<lambda>m. (m, True)) (copyToBuffer native (cm_endian msg \<noteq> DEFAULT_ENDIAN) msg))"

definition addOctet :: "u8 \<Rightarrow> writer" where "addOctet v = addPrimitive [v]"
definition addUInt16 :: "u16 \<Rightarrow> writer" where "addUInt16 v = addPrimitive (le_bytes 2 v)"
definition addInt32 :: "i32 \<Rightarrow> writer" where "addInt32 v = addPrimitive (le_bytes 4 v)"
definition addUInt32 :: "u32 \<Rightarrow> writer" where "addUInt32 v = addPrimitive (le_bytes 4 v)"
definition addInt64 :: "i64 \<Rightarrow> writer" where "addInt64 v = addPrimitive (le_bytes 8 v)"
definition addUInt64 :: "u64 \<Rightarrow> writer" where "addUInt64 v = addPrimitive (le_bytes 8 v)"

definition appendMsg :: "CDRMessage_t \<Rightarrow> writer" where
  "appendMsg second first =
     (if \<not> hasSpace (cm_length second) first then Some (first, False)
      else if cm_length second = 0 then Some (first, True)
      else case cm_buffer second of
          None \<Rightarrow> Some (first, False)
        | Some b \<Rightarrow> do { data \<leftarrow> mem_read b 0 (unat (cm_length second)); addData data first })"

definition addEntityId :: "octets \<Rightarrow> writer" where
  "addEntityId value msg =
     (if cm_pos msg + 4 \<ge> cm_max_size msg then Some (msg, False)
      else map_option (\<lambda>m. (m, True)) (copyToBuffer value False msg))"

text \<open>Several writers in a row, whatever they return; the flags of all of them.\<close>

fun write_all :: "writer list \<Rightarrow> writer" where
  "write_all [] msg = Some (msg, True)"
| "write_all (w # ws) msg =
     do { (msg1, ok) \<leftarrow> w msg; (msg2, oks) \<leftarrow> write_all ws msg1; Some (msg2, ok \<and> oks) }"

definition addSequenceNumber :: "SequenceNumber_t \<Rightarrow> writer" where
  "addSequenceNumber sn msg =
     do { (msg1, _) \<leftarrow> addInt32 (sn_high sn) msg; (msg2, _) \<leftarrow> addUInt32 (sn_low sn) msg1; Some (msg2, True) }"

definition addSequenceNumberSet :: "SequenceNumberSet_t \<Rightarrow> writer" where
  "addSequenceNumberSet sns msg =
     do {
       (msg1, _) \<leftarrow> addSequenceNumber (br_base sns) msg;
       if br_empty sns then do { (msg2, _) \<leftarrow> addUInt32 0 msg1; Some (msg2, True) }
       else do {
         let (numBits, bitmap, longs) = bitmap_get sns;
         (msg2, _) \<leftarrow> write_all (map addUInt32 (numBits # take longs bitmap)) msg1;
         Some (msg2, True) } }"

definition addFragmentNumberSet :: "FragmentNumberSet_t \<Rightarrow> writer" where
  "addFragmentNumberSet fns msg =
     (if br_base fns = 0 then Some (msg, False)
      else do {
        (msg1, _) \<leftarrow> addUInt32 (br_base fns) msg;
        if br_empty fns then do { (msg2, _) \<leftarrow> addUInt32 0 msg1; Some (msg2, True) }
        else do {
          let (numBits, bitmap, longs) = bitmap_get fns;
          (msg2, _) \<leftarrow> write_all (map addUInt32 (numBits # take longs bitmap)) msg1;
          Some (msg2, True) } })"

definition addOctetVector :: "octets \<Rightarrow> bool \<Rightarrow> writer" where
  "addOctetVector ocvec add_final_padding msg =
     (let final_size = unat (cm_pos msg) + length ocvec + (if add_final_padding then 4 else 0);
          rest = length ocvec mod 4
      in if final_size \<ge> unat (cm_max_size msg) then Some (msg, False)
         else write_all ([addUInt32 (of_nat (length ocvec)), addData ocvec]
                @ (if add_final_padding \<and> rest \<noteq> 0 then replicate (4 - rest) (addOctet 0) else [])) msg)"

text \<open>A C string ends at its first NUL; \<open>str_siz & 3\<close> counts the padding.\<close>

definition add_string :: "octets \<Rightarrow> writer" where
  "add_string in_str =
     (let data = takeWhile (\<lambda>b. b \<noteq> 0) in_str @ [0]; n = length data
      in write_all ([addUInt32 (of_nat n), addData data] @ replicate ((4 - n mod 4) mod 4) (addOctet 0)))"

end
