(* ===== verification/Cdr_Roundtrip.thy ===== *)
theory Cdr_Roundtrip
  imports Cdr_Message
begin

text \<open>
  What the writers of \<open>Cdr_Message\<close> put into a message, what the readers make of it, and that no message makes
  the readers of fixed-size data leave the buffer.  \<open>put\<close> appends octets, \<open>holds\<close> says that they lie at the
  position; both compose over concatenation, so that every codec is the concatenation of its parts.
\<close>

definition native :: "Endianness_t \<Rightarrow> octets \<Rightarrow> octets" where
  "native e bs = (if e = DEFAULT_ENDIAN then bs else rev bs)"

lemma length_native [simp]: "length (native e bs) = length bs"
  by (simp add: native_def)

abbreviation word32 :: "Endianness_t \<Rightarrow> u32 \<Rightarrow> octets" where
  "word32 e w \<equiv> native e (le_bytes 4 w)"

subsection \<open>Writing\<close>

definition room :: "nat \<Rightarrow> CDRMessage_t \<Rightarrow> bool" where
  "room n msg \<longleftrightarrow> unat (cm_pos msg) + n \<le> unat (cm_max_size msg)
     \<and> (case cm_buffer msg of None \<Rightarrow> False | Some b \<Rightarrow> unat (cm_max_size msg) \<le> length b)"

definition put :: "octets \<Rightarrow> CDRMessage_t \<Rightarrow> CDRMessage_t" where
  "put bs msg = msg\<lparr>cm_buffer := mem_write (the (cm_buffer msg)) (unat (cm_pos msg)) bs,
     cm_pos := cm_pos msg + of_nat (length bs), cm_length := cm_length msg + of_nat (length bs)\<rparr>"

lemma unat_add_small: "unat (p :: u32) + n \<le> unat (m :: u32) \<Longrightarrow> unat (p + of_nat n) = unat p + n"
proof -
  assume "unat p + n \<le> unat m"
  moreover have "unat m < 2 ^ LENGTH(32)" by (rule unsigned_less)
  ultimately show ?thesis by (simp add: unat_word_ariths unat_of_nat)
qed

lemma room_buffer:
  "room n msg \<Longrightarrow> \<exists>b. cm_buffer msg = Some b \<and> unat (cm_pos msg) + n \<le> length b"
  by (auto simp: room_def split: option.splits)

lemma put_buffer:
  assumes "room n msg" and "length bs \<le> n"
  shows "\<exists>b b'. cm_buffer msg = Some b \<and> mem_write b (unat (cm_pos msg)) bs = Some b' \<and> cm_buffer (put bs msg) = Some b'"
proof -
  obtain b where "cm_buffer msg = Some b" "unat (cm_pos msg) + length bs \<le> length b"
    using room_buffer [OF assms(1)] assms(2) by fastforce
  then show ?thesis using mem_write_Some_iff [of b "unat (cm_pos msg)" bs] by (auto simp: put_def)
qed

lemma put_pos:
  assumes "room n msg" and "length bs \<le> n"
  shows "unat (cm_pos (put bs msg)) = unat (cm_pos msg) + length bs"
  using assms unat_add_small [of "cm_pos msg" "length bs" "cm_max_size msg"] by (simp add: put_def room_def)

lemma room_put: "room (length bs + n) msg \<Longrightarrow> room n (put bs msg)"
proof -
  assume r: "room (length bs + n) msg"
  obtain b b' where b: "cm_buffer msg = Some b" "mem_write b (unat (cm_pos msg)) bs = Some b'" "cm_buffer (put bs msg) = Some b'"
    using put_buffer [OF r le_add1] by blast
  then show ?thesis using r length_mem_write [OF b(2)] put_pos [OF r le_add1] by (simp add: room_def put_def)
qed

lemma room_mono: "room n msg \<Longrightarrow> m \<le> n \<Longrightarrow> room m msg"
  by (auto simp: room_def)

lemma mem_write_append:
  assumes "mem_write m off a = Some m1"
  shows "mem_write m1 (off + length a) b = mem_write m off (a @ b)"
proof -
  have le: "off + length a \<le> length m" and m1: "m1 = take off m @ a @ drop (off + length a) m"
    using assms by (auto simp: mem_write_def split: if_splits)
  have off: "length (take off m) = off" using le by simp
  have "take (off + length a) m1 = take off m @ a" unfolding m1 using off by simp
  moreover have "drop (off + length a + length b) m1 = drop (off + length a + length b) m"
    unfolding m1 using off by (simp add: ac_simps)
  ultimately show ?thesis using length_mem_write [OF assms] by (simp add: mem_write_def ac_simps)
qed

lemma put_put: "room (length a + length b) msg \<Longrightarrow> put b (put a msg) = put (a @ b) msg"
proof -
  assume r: "room (length a + length b) msg"
  obtain d d1 where "cm_buffer msg = Some d" "mem_write d (unat (cm_pos msg)) a = Some d1" "cm_buffer (put a msg) = Some d1"
    using put_buffer [OF r le_add1] by blast
  then show ?thesis using put_pos [OF r le_add1] mem_write_append [of d "unat (cm_pos msg)" a d1 b] by (simp add: put_def)
qed

lemma put_endian [simp]: "cm_endian (put bs msg) = cm_endian msg"
  by (simp add: put_def)

lemma addPrimitive_put:
  assumes r: "room (length bs) msg"
  shows "addPrimitive bs msg = Some (put (native (cm_endian msg) bs) msg, True)"
proof -
  have "unat (cm_pos msg + of_nat (length bs)) = unat (cm_pos msg) + length bs"
    using r unat_add_small [of "cm_pos msg" "length bs" "cm_max_size msg"] by (simp add: room_def)
  then have "hasSpace (of_nat (length bs)) msg" using r by (simp add: hasSpace_def room_def word_le_nat_alt)
  moreover have "room (length (native (cm_endian msg) bs)) msg" using r by simp
  from put_buffer [OF this order_refl] obtain b b' where
    "cm_buffer msg = Some b" "mem_write b (unat (cm_pos msg)) (native (cm_endian msg) bs) = Some b'" by blast
  ultimately show ?thesis
    by (cases "cm_endian msg = DEFAULT_ENDIAN") (simp_all add: addPrimitive_def copyToBuffer_def put_def native_def)
qed

lemma addUInt32_put: "room 4 msg \<Longrightarrow> addUInt32 w msg = Some (put (word32 (cm_endian msg) w) msg, True)"
  using addPrimitive_put [of "le_bytes 4 w" msg] by (simp add: addUInt32_def)

lemma addInt32_put: "room 4 msg \<Longrightarrow> addInt32 w msg = Some (put (word32 (cm_endian msg) w) msg, True)"
  using addPrimitive_put [of "le_bytes 4 w" msg] by (simp add: addInt32_def)

lemma length_words [simp]: "length (concat (map (word32 e) ws)) = 4 * length ws"
  by (induction ws) simp_all

lemma write_words:
  "room (4 * length ws) msg \<Longrightarrow>
   write_all (map addUInt32 ws) msg = Some (put (concat (map (word32 (cm_endian msg)) ws)) msg, True)"
proof (induction ws arbitrary: msg)
  case Nil
  then show ?case by (auto simp: put_def room_def mem_write_def split: option.splits)
next
  case (Cons w ws)
  let ?m = "put (word32 (cm_endian msg) w) msg"
  have r: "room (length (word32 (cm_endian msg) w) + 4 * length ws) msg" using Cons.prems by simp
  have "room 4 msg" using Cons.prems by (rule room_mono) simp
  then have "addUInt32 w msg = Some (?m, True)" by (rule addUInt32_put)
  moreover have "write_all (map addUInt32 ws) ?m = Some (put (concat (map (word32 (cm_endian msg)) ws)) ?m, True)"
    using Cons.IH [OF room_put [OF r]] by simp
  moreover have "room (length (word32 (cm_endian msg) w) + length (concat (map (word32 (cm_endian msg)) ws))) msg"
    using r by simp
  ultimately show ?case using put_put by simp
qed

text \<open>The octets of a sequence number set.\<close>

definition sns_words :: "SequenceNumberSet_t \<Rightarrow> u32 list" where
  "sns_words s = sn_high (br_base s) # sn_low (br_base s) # br_num_bits s # take (n_longs (br_num_bits s)) (br_bitmap s)"

lemma n_longs_0 [simp]: "n_longs 0 = 0"
  by (simp add: n_longs_div)

lemma addSequenceNumberSet_put:
  assumes bits: "bits_ok s" and r: "room (4 * length (sns_words s)) msg"
  shows "addSequenceNumberSet s msg = Some (put (concat (map (word32 (cm_endian msg)) (sns_words s))) msg, True)"
proof -
  let ?e = "cm_endian msg" and ?h = "sn_high (br_base s)" and ?l = "sn_low (br_base s)" and ?n = "br_num_bits s"
  let ?rest = "?n # take (n_longs ?n) (br_bitmap s)"
  let ?m1 = "put (word32 ?e ?h) msg"
  let ?m2 = "put (word32 ?e ?l) ?m1"
  have room4: "room (4 + (4 + 4 * length ?rest)) msg" using r by (simp add: sns_words_def)
  have r1: "room (4 + 4 * length ?rest) ?m1" using room_put [of "word32 ?e ?h" _ msg] room4 by simp
  have r2: "room (4 * length ?rest) ?m2" using room_put [of "word32 ?e ?l" _ ?m1] r1 by simp
  have sn: "addSequenceNumber (br_base s) msg = Some (?m2, True)"
    using addInt32_put [OF room_mono [OF room4]] addUInt32_put [OF room_mono [OF r1]] by (simp add: addSequenceNumber_def)
  have rest: "write_all (map addUInt32 ?rest) ?m2 = Some (put (concat (map (word32 ?e) ?rest)) ?m2, True)"
    using write_words [OF r2] by simp
  have "put (concat (map (word32 ?e) ?rest)) ?m2 = put (concat (map (word32 ?e) (sns_words s))) msg"
    using put_put [of "word32 ?e ?l" "concat (map (word32 ?e) ?rest)" ?m1] r1
      put_put [of "word32 ?e ?h" "word32 ?e ?l @ concat (map (word32 ?e) ?rest)" msg] room4
    by (simp add: sns_words_def)
  moreover have "addUInt32 0 ?m2 = Some (put (concat (map (word32 ?e) ?rest)) ?m2, True)" if "br_empty s"
    using that addUInt32_put [OF room_mono [OF r2]] by (simp add: br_empty_def)
  ultimately show ?thesis using sn rest
    by (cases "br_empty s") (simp_all add: addSequenceNumberSet_def bitmap_get_def del: write_all.simps list.map)
qed

subsection \<open>Reading\<close>

definition holds :: "octets \<Rightarrow> CDRMessage_t \<Rightarrow> bool" where
  "holds bs msg \<longleftrightarrow> (\<exists>b. cm_buffer msg = Some b \<and> mem_read b (unat (cm_pos msg)) (length bs) = Some bs)
     \<and> unat (cm_pos msg) + length bs \<le> unat (cm_length msg)"

definition adv :: "nat \<Rightarrow> CDRMessage_t \<Rightarrow> CDRMessage_t" where
  "adv n msg = msg\<lparr>cm_pos := cm_pos msg + of_nat n\<rparr>"

lemma adv_simps [simp]:
  "cm_endian (adv n msg) = cm_endian msg" "cm_buffer (adv n msg) = cm_buffer msg" "cm_length (adv n msg) = cm_length msg"
  "adv m (adv n msg) = adv (n + m) msg"
  by (simp_all add: adv_def add.assoc)

lemma mem_read_append:
  "mem_read m off (length a + length b) = Some (a @ b) \<Longrightarrow>
   mem_read m off (length a) = Some a \<and> mem_read m (off + length a) (length b) = Some b"
proof -
  assume r: "mem_read m off (length a + length b) = Some (a @ b)"
  then have le: "off + (length a + length b) \<le> length m" and eq: "take (length a + length b) (drop off m) = a @ b"
    by (auto simp: mem_read_def split: if_splits)
  have "take (length a) (drop off m) = take (length a) (a @ b)" unfolding eq [symmetric] by simp
  moreover have "take (length b) (drop (off + length a) m) = drop (length a) (a @ b)"
    unfolding eq [symmetric] by (simp add: drop_take add.commute)
  ultimately show ?thesis using le by (simp add: mem_read_def)
qed

lemma holds_append: "holds (a @ b) msg \<Longrightarrow> holds a msg \<and> holds b (adv (length a) msg)"
proof -
  assume h: "holds (a @ b) msg"
  then have le: "unat (cm_pos msg) + length a + length b \<le> unat (cm_length msg)" by (simp add: holds_def)
  then have "unat (cm_pos msg + of_nat (length a)) = unat (cm_pos msg) + length a"
    using unat_add_small [of "cm_pos msg" "length a" "cm_length msg"] by simp
  moreover obtain d where "cm_buffer msg = Some d" "mem_read d (unat (cm_pos msg)) (length a + length b) = Some (a @ b)"
    using h by (auto simp: holds_def)
  ultimately show ?thesis using le mem_read_append by (auto simp: holds_def adv_def)
qed

lemma read_block_holds:
  "holds bs msg \<Longrightarrow> length bs = unat n \<Longrightarrow> read_block n msg = Some (adv (unat n) msg, bs)"
  by (auto simp: read_block_def holds_def adv_def)

lemma holds_in_bounds: "holds bs msg \<Longrightarrow> length bs = unat n \<Longrightarrow> \<not> cm_pos msg + n > cm_length msg"
proof -
  assume h: "holds bs msg" "length bs = unat n"
  then have "unat (cm_pos msg) + unat n \<le> unat (cm_length msg)" by (simp add: holds_def)
  then show ?thesis using unat_add_small [of "cm_pos msg" "unat n" "cm_length msg"] by (simp add: word_le_nat_alt not_less)
qed

lemma read_word32:
  assumes "holds (word32 (cm_endian msg) w) msg"
  shows "read_word 4 msg = Some (adv 4 msg, Some w)"
proof -
  have len: "length (word32 (cm_endian msg) w) = unat (4 :: u32)" by simp
  have "read_block 4 msg = Some (adv 4 msg, word32 (cm_endian msg) w)" using read_block_holds [OF assms len] by simp
  then show ?thesis using holds_in_bounds [OF assms len]
    by (cases "cm_endian msg = DEFAULT_ENDIAN")
      (simp_all add: read_word_def readDataReversed_def native_def le_word_le_bytes)
qed

lemma holds_Cons_word:
  "holds (concat (map (word32 (cm_endian msg)) (w # ws))) msg \<Longrightarrow>
   read_word 4 msg = Some (adv 4 msg, Some w) \<and> holds (concat (map (word32 (cm_endian msg)) ws)) (adv 4 msg)"
proof -
  assume "holds (concat (map (word32 (cm_endian msg)) (w # ws))) msg"
  then have h: "holds (word32 (cm_endian msg) w @ concat (map (word32 (cm_endian msg)) ws)) msg" by simp
  from holds_append [OF this] read_word32 show ?thesis by simp
qed

lemma read_bitmap_holds:
  "holds (concat (map (word32 (cm_endian msg)) ws)) msg \<Longrightarrow> read_bitmap (length ws) msg = Some (adv (4 * length ws) msg, Some ws)"
proof (induction ws arbitrary: msg)
  case (Cons w ws)
  from holds_Cons_word [OF Cons.prems] Cons.IH [of "adv 4 msg"] show ?case by (simp add: readUInt32_def)
qed (simp add: adv_def)

text \<open>What was put can be read back from where it was put.\<close>

lemma holds_put:
  assumes r: "room (length bs) msg" and "cm_pos msg \<le> cm_length msg" and "unat (cm_length msg) + length bs < 2 ^ 32"
  shows "holds bs ((put bs msg)\<lparr>cm_pos := cm_pos msg\<rparr>)"
proof -
  obtain b b' where b: "cm_buffer msg = Some b" "mem_write b (unat (cm_pos msg)) bs = Some b'" "cm_buffer (put bs msg) = Some b'"
    using put_buffer [OF r order_refl] by blast
  have "unat (cm_length msg + of_nat (length bs)) = unat (cm_length msg) + length bs"
    using assms(3) by (simp add: unat_word_ariths unat_of_nat)
  moreover have "unat (cm_pos msg) \<le> unat (cm_length msg)" using assms(2) by (simp add: word_le_nat_alt)
  ultimately show ?thesis using b mem_read_write_same [OF b(2)] by (simp add: holds_def put_def)
qed

text \<open>The words of a set are read back as the set, with the range that its number of bits gives.\<close>

lemma readSequenceNumber_holds:
  assumes "holds (concat (map (word32 (cm_endian msg)) (h # l # ws))) msg"
  shows "readSequenceNumber msg = Some (adv 8 msg, Some (SequenceNumber_t h l))
    \<and> holds (concat (map (word32 (cm_endian msg)) ws)) (adv 8 msg)"
proof -
  note 1 = holds_Cons_word [OF assms]
  then have "holds (concat (map (word32 (cm_endian (adv 4 msg))) (l # ws))) (adv 4 msg)" by simp
  note 2 = holds_Cons_word [OF this]
  have "holds (word32 (cm_endian msg) h @ word32 (cm_endian msg) l) msg"
    using holds_append [of "word32 (cm_endian msg) h @ word32 (cm_endian msg) l"] assms by simp
  then have "\<not> cm_pos msg + 8 > cm_length msg" by (rule holds_in_bounds) simp
  then show ?thesis using 1 2 by (simp add: readSequenceNumber_def readInt32_def readUInt32_def)
qed

definition with_range :: "u32 \<Rightarrow> SequenceNumberSet_t \<Rightarrow> SequenceNumberSet_t" where
  "with_range n s = s\<lparr>br_range_max := sn_add (br_base s) (min n (of_nat NBITS - 1))\<rparr>"

lemma bitmap_set_new:
  assumes ok: "SequenceNumberSet_ok s"
  shows "bitmap_set (br_num_bits s) (take (n_longs (br_num_bits s)) (br_bitmap s))
      (BitmapRange_new SequenceNumberOps (br_base s) (br_num_bits s)) = with_range (br_num_bits s) s
    \<and> SequenceNumberSet_ok (with_range (br_num_bits s) s)"
proof -
  let ?n = "br_num_bits s" and ?new = "BitmapRange_new SequenceNumberOps (br_base s) (br_num_bits s)"
  let ?s = "with_range ?n s"
  have range: "range_ok sn_val (2 ^ 63 - 1) s" "tight s" using ok by (simp_all add: SequenceNumberSet_ok_def)
  have same: "br_base ?new = br_base s" "br_range_max ?new = br_range_max ?s"
    by (simp_all add: BitmapRange_new_def with_range_def)
  have "range_ok sn_val (2 ^ 63 - 1) ?new"
    using sns.new_spec [of "br_base s" ?n] range(1) by (simp add: range_ok_def)
  then have range': "range_ok sn_val (2 ^ 63 - 1) ?s" "tight ?s"
    using range same by (simp_all add: range_ok_def bits_ok_def tight_def with_range_def)
  have "bitmap_get ?s = (?n, br_bitmap s, n_longs ?n)" by (simp add: bitmap_get_def with_range_def)
  from sns.bitmap_roundtrip [OF range' this, of ?new] have
    "bitmap_set ?n (take (n_longs ?n) (br_bitmap s)) ?new = ?s"
    using same by (simp add: with_range_def)
  then show ?thesis using range' by (simp add: SequenceNumberSet_ok_def)
qed

lemma readSequenceNumberSet_holds:
  assumes ok: "SequenceNumberSet_ok s" and high: "0 \<le> sint (sn_high (br_base s))"
    and h: "holds (concat (map (word32 (cm_endian msg)) (sns_words s))) msg"
  shows "readSequenceNumberSet msg = Some (adv (4 * length (sns_words s)) msg, with_range (br_num_bits s) s)"
proof -
  let ?b = "br_base s" and ?n = "br_num_bits s" and ?ws = "take (n_longs (br_num_bits s)) (br_bitmap s)"
  have range: "range_ok sn_val (2 ^ 63 - 1) s" using ok by (simp add: SequenceNumberSet_ok_def)
  then have bits: "bits_ok s" by (simp add: range_ok_def)
  then have n: "unat ?n \<le> 256" by (simp add: bits_ok_def)
  have len: "length ?ws = n_longs ?n" using used_words [OF bits] by simp
  note 1 = readSequenceNumber_holds [OF h [unfolded sns_words_def]]
  then have "holds (concat (map (word32 (cm_endian (adv 8 msg))) (?n # ?ws))) (adv 8 msg)" by simp
  note 2 = holds_Cons_word [OF this]
  then have 3: "read_bitmap (n_longs ?n) (adv 12 msg) = Some (adv (12 + 4 * n_longs ?n) msg, Some ?ws)"
    using read_bitmap_holds [of "adv 12 msg" ?ws] len by simp
  have "?n \<le> 256" using n by (simp add: word_le_nat_alt)
  have clamp: "(if sn_high ?b = 0x7FFFFFFF then min ?n (0xFFFFFFFF - sn_low ?b) else ?n) = ?n"
  proof (cases "sn_high ?b = 0x7FFFFFFF")
    case True
    then have "uint (sn_low ?b) + 256 \<le> 4294967295" using range by (simp add: range_ok_def sn_val_def)
    then have "256 \<le> 4294967295 - uint (sn_low ?b)" "uint (sn_low ?b) \<le> 4294967295" by linarith+
    then have "256 \<le> uint (0xFFFFFFFF - sn_low ?b)" by (simp add: uint_sub_u32)
    then have "(256 :: u32) \<le> 0xFFFFFFFF - sn_low ?b" by (simp add: word_le_def)
    with \<open>?n \<le> 256\<close> have "?n \<le> 0xFFFFFFFF - sn_low ?b" by (rule order_trans)
    then show ?thesis by (simp add: min_def)
  qed simp
  have "SequenceNumber_t (sn_high ?b) (sn_low ?b) = ?b" by simp
  then show ?thesis
    using 1 2 3 high \<open>?n \<le> 256\<close> clamp bitmap_set_new [OF ok] len
    by (simp add: readSequenceNumberSet_def readUInt32_def sns_words_def Let_def)
qed

subsection \<open>Arbitrary messages\<close>

text \<open>A received message: the octets are in the buffer, and the position has not passed the end by more than padding.\<close>

definition cm_ok :: "CDRMessage_t \<Rightarrow> bool" where
  "cm_ok msg \<longleftrightarrow> (case cm_buffer msg of None \<Rightarrow> False | Some b \<Rightarrow> unat (cm_length msg) \<le> length b)
     \<and> unat (cm_pos msg) \<le> unat (cm_length msg) + 3 \<and> unat (cm_length msg) + 16 < 2 ^ 32"

text \<open>A reader stays inside of the buffer and keeps the message well formed.\<close>

lemma read_block_safe:
  assumes ok: "cm_ok msg" and n: "unat n \<le> 8" and le: "\<not> cm_pos msg + n > cm_length msg"
  shows "\<exists>bs. read_block n msg = Some (msg\<lparr>cm_pos := cm_pos msg + n\<rparr>, bs) \<and> length bs = unat n
    \<and> cm_ok (msg\<lparr>cm_pos := cm_pos msg + n\<rparr>)"
proof -
  obtain b where b: "cm_buffer msg = Some b" "unat (cm_length msg) \<le> length b"
    using ok by (auto simp: cm_ok_def split: option.splits)
  have sum: "unat (cm_pos msg + n) = unat (cm_pos msg) + unat n" using ok n by (simp add: cm_ok_def unat_word_ariths)
  then have in_len: "unat (cm_pos msg) + unat n \<le> unat (cm_length msg)" using le by (simp add: not_less word_le_nat_alt)
  then obtain bs where bs: "mem_read b (unat (cm_pos msg)) (unat n) = Some bs" using b(2) mem_read_Some_iff by (meson le_trans)
  then show ?thesis using ok b sum in_len length_mem_read [OF bs] by (simp add: read_block_def cm_ok_def)
qed

lemma read_word_safe:
  assumes ok: "cm_ok msg" and n: "unat n \<le> 8"
  shows "\<exists>msg' v. read_word n msg = Some (msg', v) \<and> cm_ok msg'"
proof (cases "cm_pos msg + n > cm_length msg")
  case False
  from read_block_safe [OF ok n False] obtain bs where
    "read_block n msg = Some (msg\<lparr>cm_pos := cm_pos msg + n\<rparr>, bs)" "cm_ok (msg\<lparr>cm_pos := cm_pos msg + n\<rparr>)" by blast
  then show ?thesis using False by (simp add: read_word_def readDataReversed_def)
qed (use ok in \<open>simp add: read_word_def\<close>)

lemma readUInt32_safe: "cm_ok msg \<Longrightarrow> \<exists>msg' v. readUInt32 msg = Some (msg', v) \<and> cm_ok msg'"
  unfolding readUInt32_def by (rule read_word_safe) simp_all

lemma readSequenceNumber_safe: "cm_ok msg \<Longrightarrow> \<exists>msg' v. readSequenceNumber msg = Some (msg', v) \<and> cm_ok msg'"
proof (cases "cm_pos msg + 8 > cm_length msg")
  case False
  assume ok: "cm_ok msg"
  obtain m1 v1 where 1: "readInt32 msg = Some (m1, v1)" "cm_ok m1"
    using read_word_safe [OF ok, of 4] by (auto simp: readInt32_def)
  obtain m2 v2 where "readUInt32 m1 = Some (m2, v2)" "cm_ok m2" using readUInt32_safe [OF 1(2)] by blast
  then show ?thesis using False 1(1) by (simp add: readSequenceNumber_def)
qed (simp add: readSequenceNumber_def)

lemma read_bitmap_safe:
  "cm_ok msg \<Longrightarrow> \<exists>msg' v. read_bitmap n msg = Some (msg', v) \<and> cm_ok msg' \<and> (\<forall>ws. v = Some ws \<longrightarrow> length ws = n)"
proof (induction n arbitrary: msg)
  case (Suc n)
  obtain m1 v1 where 1: "readUInt32 msg = Some (m1, v1)" "cm_ok m1" using readUInt32_safe [OF Suc.prems] by blast
  obtain m2 v2 where "read_bitmap n m1 = Some (m2, v2)" "cm_ok m2" "\<forall>ws. v2 = Some ws \<longrightarrow> length ws = n"
    using Suc.IH [OF 1(2)] by blast
  then show ?case using 1 by (auto split: option.splits)
qed simp

lemma bits_ok_of_base: "bits_ok (BitmapRange_of_base ops b) \<and> tight (BitmapRange_of_base ops b)"
  by (simp add: BitmapRange_of_base_def BitmapRange_new_def bits_ok_def tight_def NITEMS_def)

lemma bitmap_set_ok:
  "unat n \<le> 256 \<Longrightarrow> length ws = n_longs n \<Longrightarrow> bits_ok (bitmap_set n ws r) \<and> tight (bitmap_set n ws r)"
  using bitmap_set_spec [of n ws r] by simp

text \<open>Whatever the octets are, the set is one of at most 256 items inside of its bitmap.\<close>

lemma readSequenceNumberSet_safe:
  assumes "cm_ok msg"
  shows "\<exists>msg' s. readSequenceNumberSet msg = Some (msg', s) \<and> cm_ok msg' \<and> bits_ok s \<and> tight s"
proof -
  obtain m1 v1 where 1: "readSequenceNumber msg = Some (m1, v1)" "cm_ok m1" using readSequenceNumber_safe [OF assms] by blast
  obtain m2 v2 where 2: "readUInt32 m1 = Some (m2, v2)" "cm_ok m2" using readUInt32_safe [OF 1(2)] by blast
  show ?thesis
  proof (cases "\<exists>sn n. v1 = Some sn \<and> v2 = Some n \<and> n \<le> 256 \<and> 0 \<le> sint (sn_high sn)")
    case False
    then show ?thesis using 1 2 bits_ok_of_base
      by (fastforce simp: readSequenceNumberSet_def split: option.splits if_splits)
  next
    case True
    then obtain sn n where v: "v1 = Some sn" "v2 = Some n" "n \<le> 256" "0 \<le> sint (sn_high sn)" by blast
    obtain n' where n': "n' = (if sn_high sn = 0x7FFFFFFF then min n (0xFFFFFFFF - sn_low sn) else n)" by blast
    have "n' \<le> 256" using v(3) unfolding n' by (auto simp: min_le_iff_disj)
    then have n: "unat n' \<le> 256" by (simp add: word_le_nat_alt)
    obtain m3 v3 where 3: "read_bitmap (n_longs n') m2 = Some (m3, v3)" "cm_ok m3" "\<forall>ws. v3 = Some ws \<longrightarrow> length ws = n_longs n'"
      using read_bitmap_safe [OF 2(2)] by blast
    let ?s = "case v3 of Some ws \<Rightarrow> bitmap_set n' ws (BitmapRange_new SequenceNumberOps sn n')
        | None \<Rightarrow> BitmapRange_of_base SequenceNumberOps SequenceNumber_unknown"
    have "readSequenceNumberSet msg = Some (m3, ?s)"
      using 1(1) 2(1) 3(1) v by (simp add: readSequenceNumberSet_def Let_def flip: n')
    moreover have "bits_ok ?s \<and> tight ?s"
      using bitmap_set_ok [OF n] 3(3) bits_ok_of_base by (cases v3) simp_all
    ultimately show ?thesis using 3(2) by blast
  qed
qed

lemma readFragmentNumberSet_safe:
  assumes "cm_ok msg"
  shows "\<exists>msg' v. readFragmentNumberSet fns msg = Some (msg', v) \<and> cm_ok msg' \<and> (\<forall>s. v = Some s \<longrightarrow> bits_ok s \<and> tight s)"
proof -
  obtain m1 v1 where 1: "readUInt32 msg = Some (m1, v1)" "cm_ok m1" using readUInt32_safe [OF assms] by blast
  obtain m2 v2 where 2: "readUInt32 m1 = Some (m2, v2)" "cm_ok m2" using readUInt32_safe [OF 1(2)] by blast
  show ?thesis
  proof (cases "\<exists>b n. v1 = Some b \<and> v2 = Some n \<and> n \<le> 256")
    case False
    then show ?thesis using 1 2 by (fastforce simp: readFragmentNumberSet_def split: option.splits if_splits)
  next
    case True
    then obtain b n where v: "v1 = Some b" "v2 = Some n" "n \<le> 256" by blast
    then have n: "unat n \<le> 256" by (simp add: word_le_nat_alt)
    obtain m3 v3 where 3: "read_bitmap (n_longs n) m2 = Some (m3, v3)" "cm_ok m3" "\<forall>ws. v3 = Some ws \<longrightarrow> length ws = n_longs n"
      using read_bitmap_safe [OF 2(2)] by blast
    have "readFragmentNumberSet fns msg = Some (m3, map_option (\<lambda>ws. bitmap_set n ws (br_set_base FragmentNumberOps b fns)) v3)"
      using 1(1) 2(1) 3(1) v by (simp add: readFragmentNumberSet_def)
    then show ?thesis using 3(2,3) bitmap_set_ok [OF n] by (cases v3) simp_all
  qed
qed

subsection \<open>Properties\<close>

text \<open>
  C32. A sequence number set written into a message is read back, in both byte orders: the same base and the same
  numbers, with the reader at the end of what was written.
\<close>

theorem sequence_set_survives_the_wire:
  assumes ok: "SequenceNumberSet_ok s" and "0 \<le> sint (sn_high (br_base s))"
    and r: "room (12 + 4 * n_longs (br_num_bits s)) msg"
    and "cm_pos msg \<le> cm_length msg" and "unat (cm_length msg) + 44 < 2 ^ 32"
  shows "\<exists>msg' s'. addSequenceNumberSet s msg = Some (msg', True)
    \<and> readSequenceNumberSet (msg'\<lparr>cm_pos := cm_pos msg\<rparr>) = Some (msg', s')
    \<and> SequenceNumberSet_ok s' \<and> br_base s' = br_base s \<and> numbers s' = numbers s"
proof -
  have bits: "bits_ok s" using ok by (simp add: SequenceNumberSet_ok_def range_ok_def)
  then have n: "unat (br_num_bits s) \<le> 256" by (simp add: bits_ok_def)
  let ?bs = "concat (map (word32 (cm_endian msg)) (sns_words s))"
  have len: "length (sns_words s) = 3 + n_longs (br_num_bits s)" using used_words [OF bits] by (simp add: sns_words_def)
  then have r': "room (4 * length (sns_words s)) msg" "room (length ?bs) msg" using r by (simp_all add: algebra_simps)
  have "length ?bs \<le> 44" using len n_longs_bounds(1) [OF n] by simp
  then have "holds ?bs ((put ?bs msg)\<lparr>cm_pos := cm_pos msg\<rparr>)" using r'(2) assms(4,5) by (intro holds_put) simp_all
  then have "readSequenceNumberSet ((put ?bs msg)\<lparr>cm_pos := cm_pos msg\<rparr>)
      = Some (adv (4 * length (sns_words s)) ((put ?bs msg)\<lparr>cm_pos := cm_pos msg\<rparr>), with_range (br_num_bits s) s)"
    by (intro readSequenceNumberSet_holds [OF ok assms(2)]) simp
  moreover have "adv (4 * length (sns_words s)) ((put ?bs msg)\<lparr>cm_pos := cm_pos msg\<rparr>) = put ?bs msg"
    by (simp add: adv_def put_def)
  moreover have "numbers (with_range (br_num_bits s) s) = numbers s" by (simp add: with_range_def br_elems_def)
  moreover have "br_base (with_range (br_num_bits s) s) = br_base s" by (simp add: with_range_def)
  ultimately show ?thesis using addSequenceNumberSet_put [OF bits r'(1)] bitmap_set_new [OF ok] by auto
qed

definition EmptyMessage :: "Endianness_t \<Rightarrow> CDRMessage_t" where
  "EmptyMessage e = (CDRMessage_of_size (\<lambda>n. replicate n 0) 64)\<lparr>cm_endian := e\<rparr>"

theorem sequence_set_survives_the_wire_witness:
  "\<exists>msg' s'. addSequenceNumberSet Set5 (EmptyMessage BIGEND) = Some (msg', True)
    \<and> readSequenceNumberSet (msg'\<lparr>cm_pos := 0\<rparr>) = Some (msg', s') \<and> numbers s' = {5}"
proof -
  have "bits_ok Set5" using Set5_ok(1) by (simp add: SequenceNumberSet_ok_def range_ok_def)
  then have "unat (br_num_bits Set5) \<le> 256" by (simp add: bits_ok_def)
  then have "n_longs (br_num_bits Set5) \<le> 8" by (rule n_longs_bounds)
  then have "room (12 + 4 * n_longs (br_num_bits Set5)) (EmptyMessage BIGEND)"
    by (simp add: room_def EmptyMessage_def CDRMessage_of_size_def)
  from sequence_set_survives_the_wire [OF Set5_ok(1) _ this] show ?thesis
    by (auto simp: Set5_window Set5_ok(2) EmptyMessage_def CDRMessage_of_size_def)
qed

text \<open>
  C33. Whatever octets a received message holds, reading a number, a sequence number, a sequence number set or a
  fragment number set from it never leaves the buffer and leaves a well-formed message; a set that is read has
  at most 256 numbers, all inside of its bitmap, with an exact number of significant bits.
\<close>

theorem received_sets_are_well_formed:
  assumes "cm_ok msg"
  shows "(\<exists>msg' v. readUInt32 msg = Some (msg', v) \<and> cm_ok msg')
    \<and> (\<exists>msg' v. readSequenceNumber msg = Some (msg', v) \<and> cm_ok msg')
    \<and> (\<exists>msg' s. readSequenceNumberSet msg = Some (msg', s) \<and> cm_ok msg' \<and> bits_ok s \<and> tight s)
    \<and> (\<exists>msg' v. readFragmentNumberSet fns msg = Some (msg', v) \<and> cm_ok msg' \<and> (\<forall>s. v = Some s \<longrightarrow> bits_ok s \<and> tight s))"
  using readUInt32_safe [OF assms] readSequenceNumber_safe [OF assms] readSequenceNumberSet_safe [OF assms]
    readFragmentNumberSet_safe [OF assms] by blast

definition ReceivedMessage :: "octets \<Rightarrow> CDRMessage_t" where
  "ReceivedMessage data = CDRMessage_of_payload
     \<lparr>sp_encapsulation = BOOSTER_FASTDDS_CDR_LE, sp_length = of_nat (length data), sp_data = Some data,
      sp_max_size = of_nat (length data), sp_pos = 0\<rparr>"

theorem received_sets_are_well_formed_witness:
  "\<exists>msg' s. readSequenceNumberSet (ReceivedMessage (replicate 20 0xFF)) = Some (msg', s) \<and> bits_ok s"
proof -
  have "cm_ok (ReceivedMessage (replicate 20 0xFF))" by (simp add: cm_ok_def ReceivedMessage_def CDRMessage_of_payload_def)
  from received_sets_are_well_formed [OF this] show ?thesis by blast
qed

text \<open>
  The check of a length that comes from the wire wraps around: with four octets \<open>FC FF FF FF\<close> the end of a vector
  of 4294967292 octets is position zero, and the vector is read from beyond the buffer.
\<close>

lemma octet_vector_length_wraps_around:
  "readOctetVector (ReceivedMessage [0xFC, 0xFF, 0xFF, 0xFF]) = None"
proof -
  have "(le_word [0xFC, 0xFF, 0xFF, 0xFF] :: u32) = 0xFFFFFFFC" by simp
  then show ?thesis
    by (simp add: readOctetVector_def readUInt32_def read_word_def read_block_def readData_def ReceivedMessage_def
        CDRMessage_of_payload_def mem_read_def DEFAULT_ENDIAN_def BOOSTER_FASTDDS_CDR_LE_def BOOSTER_FASTDDS_PL_CDR_BE_def
        BOOSTER_FASTDDS_CDR_BE_def)
qed

lemma string_length_wraps_around:
  "readString (ReceivedMessage [0xFC, 0xFF, 0xFF, 0xFF]) = None"
proof -
  have "(le_word [0xFC, 0xFF, 0xFF, 0xFF] :: u32) = 0xFFFFFFFC" by simp
  then show ?thesis
    by (simp add: readString_def readUInt32_def read_word_def read_block_def ReceivedMessage_def Let_def
        CDRMessage_of_payload_def mem_read_def DEFAULT_ENDIAN_def BOOSTER_FASTDDS_CDR_LE_def BOOSTER_FASTDDS_PL_CDR_BE_def
        BOOSTER_FASTDDS_CDR_BE_def word_less_nat_alt)
qed

text \<open>\<open>addEntityId\<close> refuses the last four octets of a message.\<close>

lemma entity_id_refused_at_the_end:
  "addEntityId [0, 0, 1, 0xC1] ((EmptyMessage LITTLEEND)\<lparr>cm_pos := 60, cm_length := 60\<rparr>)
   = Some ((EmptyMessage LITTLEEND)\<lparr>cm_pos := 60, cm_length := 60\<rparr>, False)"
  by (simp add: addEntityId_def EmptyMessage_def CDRMessage_of_size_def)

end
