(* ===== verification/Rtps_Guid.thy ===== *)
theory Rtps_Guid
  imports Byte_Store
begin

text \<open>
  Identifiers of RTPS entities: \<open>EntityId_t.hpp\<close>, \<open>GuidPrefix_t.hpp\<close>, \<open>Guid.h\<close> and \<open>InstanceHandle.h\<close> of
  \<open>fastdds/rtps/common\<close>, for a little-endian target.  Identifiers are octets compared by \<open>memcmp\<close>; the order of
  GUIDs is an instance of \<open>linorder\<close>, so that the components that look for the least writer use the library's
  order.  Text input and output is left out.
\<close>

fun memcmp :: "octets \<Rightarrow> octets \<Rightarrow> int" where
  "memcmp (a # as) (b # bs) = (if a = b then memcmp as bs else if a < b then -1 else 1)"
| "memcmp _ _ = 0"

lemma memcmp_order: "length a = length b \<Longrightarrow> (memcmp a b < 0 \<longleftrightarrow> a < b) \<and> (memcmp a b = 0 \<longleftrightarrow> a = b)"
  by (induction a b rule: memcmp.induct) auto

lemma memcmp_greater: "length a = length b \<Longrightarrow> memcmp a b > 0 \<longleftrightarrow> b < a"
  by (induction a b rule: memcmp.induct) auto

lemmas memcmp_facts = memcmp_order memcmp_greater

subsection \<open>Entity identifiers\<close>

definition EntityId_size :: nat where "EntityId_size = 4"

definition ENTITYID_UNKNOWN :: u32 where "ENTITYID_UNKNOWN = 0"
definition ENTITYID_RTPSParticipant :: u32 where "ENTITYID_RTPSParticipant = 0x000001c1"
definition ENTITYID_SEDP_BUILTIN_PUBLICATIONS_WRITER :: u32 where "ENTITYID_SEDP_BUILTIN_PUBLICATIONS_WRITER = 0x000003c2"
definition ENTITYID_SEDP_BUILTIN_PUBLICATIONS_READER :: u32 where "ENTITYID_SEDP_BUILTIN_PUBLICATIONS_READER = 0x000003c7"
definition ENTITYID_SEDP_BUILTIN_SUBSCRIPTIONS_WRITER :: u32 where "ENTITYID_SEDP_BUILTIN_SUBSCRIPTIONS_WRITER = 0x000004c2"
definition ENTITYID_SEDP_BUILTIN_SUBSCRIPTIONS_READER :: u32 where "ENTITYID_SEDP_BUILTIN_SUBSCRIPTIONS_READER = 0x000004c7"
definition ENTITYID_SPDP_BUILTIN_RTPSParticipant_WRITER :: u32 where "ENTITYID_SPDP_BUILTIN_RTPSParticipant_WRITER = 0x000100c2"
definition ENTITYID_SPDP_BUILTIN_RTPSParticipant_READER :: u32 where "ENTITYID_SPDP_BUILTIN_RTPSParticipant_READER = 0x000100c7"

fun EntityId_reverse :: "octets \<Rightarrow> octets" where
  "EntityId_reverse [a, b, c, d] = [d, c, b, a]"
| "EntityId_reverse bs = bs"

definition EntityId_of_u32 :: "u32 \<Rightarrow> octets" where
  "EntityId_of_u32 i = EntityId_reverse (le_bytes 4 i)"

definition EntityId_new :: octets where "EntityId_new = EntityId_of_u32 ENTITYID_UNKNOWN"

definition to_uint32 :: "octets \<Rightarrow> u32" where
  "to_uint32 value =
     (let res = le_word value :: u32
      in drop_bit 24 res OR (0x0000ff00 AND drop_bit 8 res) OR (0x00ff0000 AND push_bit 8 res) OR push_bit 24 res)"

definition is_reader :: "octets \<Rightarrow> bool" where
  "is_reader value \<longleftrightarrow> 0x4 AND to_uint32 value \<noteq> 0"

definition is_writer :: "octets \<Rightarrow> bool" where
  "is_writer value \<longleftrightarrow> 0x2 AND to_uint32 value \<noteq> 0 \<and> \<not> is_reader value"

definition EntityId_less :: "octets \<Rightarrow> octets \<Rightarrow> bool" where
  "EntityId_less a b \<longleftrightarrow> memcmp a b < 0"

definition EntityId_eq :: "octets \<Rightarrow> octets \<Rightarrow> bool" where
  "EntityId_eq a b \<longleftrightarrow> memcmp a b = 0"

definition EntityId_eq_u32 :: "octets \<Rightarrow> u32 \<Rightarrow> bool" where
  "EntityId_eq_u32 value i \<longleftrightarrow> memcmp (EntityId_reverse value) (le_bytes 4 i) = 0"

definition EntityId_hash :: "octets \<Rightarrow> u64" where
  "EntityId_hash k = push_bit 16 (ucast (k ! 0)) OR push_bit 8 (ucast (k ! 1)) OR ucast (k ! 2)"

lemma length_4: "length bs = 4 \<longleftrightarrow> (\<exists>a b c d. bs = [a, b, c, d])"
  by (auto simp: length_Suc_conv numeral_eq_Suc)

lemma EntityId_reverse_rev: "length bs = 4 \<Longrightarrow> EntityId_reverse bs = rev bs"
  by (auto simp: length_4)

lemma EntityId_of_u32_be: "EntityId_of_u32 i = be_bytes 4 i"
  by (simp add: EntityId_of_u32_def be_bytes_def EntityId_reverse_rev)

lemma length_EntityId_of_u32 [simp]: "length (EntityId_of_u32 i) = 4"
  by (simp add: EntityId_of_u32_be)

text \<open>The four shifts of \<open>to_uint32\<close> read the octets with the most significant one first.\<close>

lemma bit_le_word_octet:
  "r < 8 \<Longrightarrow> bit (le_word bs :: u32) (8 * q + r) \<longleftrightarrow> q < 4 \<and> q < length bs \<and> bit (bs ! q) r"
  unfolding bit_le_word by auto

lemma to_uint32_be: "length bs = 4 \<Longrightarrow> to_uint32 bs = be_word bs"
proof (rule bit_word_eqI)
  assume len: "length bs = 4"
  have m: "(0x0000ff00 :: u32) = push_bit 8 (mask 8)" "(0x00ff0000 :: u32) = push_bit 16 (mask 8)"
    by (simp_all add: mask_eq_exp_minus_1 push_bit_eq_mult)
  fix k assume "k < LENGTH(32)"
  then have "k = 8 * (k div 8) + k mod 8" "k div 8 < 4" "k mod 8 < 8" by auto
  then obtain q r where k: "k = 8 * q + r" "q < 4" "r < 8" by blast
  let ?res = "le_word bs :: u32"
  have b: "bit ?res r = bit (bs ! 0) r" "bit ?res (8 + r) = bit (bs ! 1) r" "bit ?res (16 + r) = bit (bs ! 2) r"
    "bit ?res (24 + r) = bit (bs ! 3) r"
    using bit_le_word_octet [OF k(3), of bs 0] bit_le_word_octet [OF k(3), of bs 1] bit_le_word_octet [OF k(3), of bs 2]
      bit_le_word_octet [OF k(3), of bs 3] len by simp_all
  have rev: "bit (be_word bs :: u32) k = bit (bs ! (3 - q)) r"
    using k(2) len unfolding k(1) be_word_def bit_le_word_octet [OF k(3)] by (simp add: rev_nth)
  let ?n = "8 * q + r"
  have hi: "\<not> bit ?res n" if "32 \<le> n" for n using bit_imp_le_length [of ?res n] that by auto
  have q: "q = 0 \<or> q = 1 \<or> q = 2 \<or> q = 3" using k(2) by linarith
  have "bit (to_uint32 bs) ?n \<longleftrightarrow> bit ?res (24 + ?n) \<or> (8 \<le> ?n \<and> ?n < 16 \<and> bit ?res (8 + ?n))
      \<or> (16 \<le> ?n \<and> ?n < 24 \<and> bit ?res (?n - 8)) \<or> (24 \<le> ?n \<and> bit ?res (?n - 24))"
    using q k(3) unfolding to_uint32_def Let_def m bit_or_iff bit_and_iff bit_push_bit_iff bit_drop_bit_eq bit_mask_iff
    by (elim disjE) (simp_all add: hi)
  also have "\<dots> \<longleftrightarrow> bit (bs ! (3 - q)) r"
    using q k(3) b by (elim disjE) (simp_all add: hi)
  finally show "bit (to_uint32 bs) k = bit (be_word bs :: u32) k" using rev by (simp add: k(1))
qed

lemma to_uint32_of_u32 [simp]: "to_uint32 (EntityId_of_u32 i) = i"
  by (simp add: to_uint32_be) (simp add: EntityId_of_u32_be be_word_be_bytes)

text \<open>Comparing the octets, most significant first, is comparing the numbers.\<close>

lemma be_bytes_Suc: "be_bytes (Suc n) w = ucast (drop_bit (8 * n) w) # be_bytes n w"
  by (simp add: be_bytes_def le_bytes_def)

lemma less_digits:
  assumes "(b :: nat) < m" "d < m"
  shows "m * a + b < m * c + d \<longleftrightarrow> a < c \<or> a = c \<and> b < d"
proof (cases a c rule: linorder_cases)
  case less
  then have "m * Suc a \<le> m * c" by (intro mult_le_mono2) simp
  then show ?thesis using assms less by simp
next
  case greater
  then have "m * Suc c \<le> m * a" by (intro mult_le_mono2) simp
  then show ?thesis using assms greater by simp
qed simp

lemma be_bytes_less: "be_bytes n (x :: u32) < be_bytes n (y :: u32) \<longleftrightarrow> unat x mod 256 ^ n < unat y mod 256 ^ n"
proof (induction n)
  case 0
  then show ?case by (simp add: be_bytes_def le_bytes_def)
next
  case (Suc n)
  have digit: "unat (ucast (drop_bit (8 * n) w) :: u8) = unat w div 256 ^ n mod 256" for w :: u32
    by (simp only: unsigned_ucast_eq unat_drop_bit_eq) (simp add: drop_bit_eq_div take_bit_eq_mod power_mult [of 2 8, simplified])
  have split: "unat w mod 256 ^ Suc n = 256 ^ n * (unat w div 256 ^ n mod 256) + unat w mod 256 ^ n" for w :: u32
    by (simp only: power_Suc2 mod_mult2_eq)
  have "be_bytes (Suc n) x < be_bytes (Suc n) y \<longleftrightarrow>
      unat x div 256 ^ n mod 256 < unat y div 256 ^ n mod 256
      \<or> unat x div 256 ^ n mod 256 = unat y div 256 ^ n mod 256 \<and> unat x mod 256 ^ n < unat y mod 256 ^ n"
    unfolding be_bytes_Suc Cons_less_Cons Suc.IH by (simp only: word_less_nat_alt word_unat_eq_iff digit)
  also have "\<dots> \<longleftrightarrow> unat x mod 256 ^ Suc n < unat y mod 256 ^ Suc n"
    unfolding split by (rule less_digits [symmetric]) simp_all
  finally show ?case .
qed

lemma le_bytes_inj: "le_bytes 4 (x :: u32) = le_bytes 4 (y :: u32) \<longleftrightarrow> x = y"
proof
  assume e: "le_bytes 4 x = le_bytes 4 y"
  have "x = le_word (le_bytes 4 x)" by (simp add: le_word_le_bytes)
  also have "\<dots> = y" unfolding e by (simp add: le_word_le_bytes)
  finally show "x = y" .
qed simp

lemma EntityId_of_u32_less: "EntityId_of_u32 x < EntityId_of_u32 y \<longleftrightarrow> x < y"
proof -
  have "unat w mod 256 ^ 4 = unat w" for w :: u32 using unsigned_less [of w, where 'a = nat] by simp
  then show ?thesis unfolding EntityId_of_u32_be be_bytes_less by (simp only: word_less_nat_alt)
qed

lemma EntityId_of_u32_eq [simp]: "EntityId_of_u32 x = EntityId_of_u32 y \<longleftrightarrow> x = y"
  using to_uint32_of_u32 by metis

lemma EntityId_of_to_uint32: "length e = 4 \<Longrightarrow> EntityId_of_u32 (to_uint32 e) = e"
proof -
  assume len: "length e = 4"
  have "rev (EntityId_of_u32 (to_uint32 e)) = rev e"
  proof (rule nth_equalityI)
    fix i assume "i < length (rev (EntityId_of_u32 (to_uint32 e)))"
    then have i: "i < 4" by simp
    have "ucast (drop_bit (8 * i) (le_word (rev e) :: u32)) = rev e ! i"
    proof (rule bit_word_eqI)
      fix k assume "k < LENGTH(8)"
      then have "k < 8" by simp
      from bit_le_word_octet [OF this, of "rev e" i] show
        "bit (ucast (drop_bit (8 * i) (le_word (rev e) :: u32)) :: u8) k = bit (rev e ! i) k"
        using i len \<open>k < 8\<close> by (simp add: bit_ucast_iff bit_drop_bit_eq add.commute)
    qed
    then show "rev (EntityId_of_u32 (to_uint32 e)) ! i = rev e ! i"
      using i len by (simp add: EntityId_of_u32_be be_bytes_def le_bytes_def to_uint32_be be_word_def)
  qed (simp add: len)
  then show ?thesis by simp
qed

subsection \<open>GUIDs\<close>

definition GuidPrefix_size :: nat where "GuidPrefix_size = 12"

definition GuidPrefix_new :: octets where "GuidPrefix_new = replicate GuidPrefix_size 0"

definition GuidPrefix_eq :: "octets \<Rightarrow> octets \<Rightarrow> bool" where
  "GuidPrefix_eq a b \<longleftrightarrow> memcmp a b = 0"

definition GuidPrefix_less :: "octets \<Rightarrow> octets \<Rightarrow> bool" where
  "GuidPrefix_less a b \<longleftrightarrow> memcmp a b < 0"

datatype GUID_t = GUID_t (guidPrefix: octets) (entityId: octets)

definition GUID_new :: GUID_t where "GUID_new = GUID_t GuidPrefix_new EntityId_new"
definition c_Guid_Unknown :: GUID_t where "c_Guid_Unknown = GUID_new"

definition GUID_of_u32 :: "octets \<Rightarrow> u32 \<Rightarrow> GUID_t" where
  "GUID_of_u32 guid_prefix i = GUID_t guid_prefix (EntityId_of_u32 i)"

definition is_on_same_host_as :: "GUID_t \<Rightarrow> GUID_t \<Rightarrow> bool" where
  "is_on_same_host_as g other \<longleftrightarrow> memcmp (take 4 (guidPrefix g)) (take 4 (guidPrefix other)) = 0"

definition is_on_same_process_as :: "GUID_t \<Rightarrow> GUID_t \<Rightarrow> bool" where
  "is_on_same_process_as g other \<longleftrightarrow> memcmp (take 8 (guidPrefix g)) (take 8 (guidPrefix other)) = 0"

definition is_builtin :: "GUID_t \<Rightarrow> bool" where
  "is_builtin g \<longleftrightarrow> entityId g ! 3 \<ge> 0xC0"

definition guid_eq :: "GUID_t \<Rightarrow> GUID_t \<Rightarrow> bool" where
  "guid_eq g1 g2 \<longleftrightarrow> GuidPrefix_eq (guidPrefix g1) (guidPrefix g2) \<and> EntityId_eq (entityId g1) (entityId g2)"

definition guid_less :: "GUID_t \<Rightarrow> GUID_t \<Rightarrow> bool" where
  "guid_less g1 g2 \<longleftrightarrow>
     (let prefix_cmp = memcmp (guidPrefix g1) (guidPrefix g2)
      in if prefix_cmp < 0 then True else if prefix_cmp > 0 then False
         else EntityId_less (entityId g1) (entityId g2))"

instantiation GUID_t :: linorder
begin

definition less_GUID_t :: "GUID_t \<Rightarrow> GUID_t \<Rightarrow> bool" where
  "less_GUID_t g1 g2 \<longleftrightarrow> guidPrefix g1 < guidPrefix g2
     \<or> guidPrefix g1 = guidPrefix g2 \<and> entityId g1 < entityId g2"

definition less_eq_GUID_t :: "GUID_t \<Rightarrow> GUID_t \<Rightarrow> bool" where
  "less_eq_GUID_t g1 g2 \<longleftrightarrow> g1 < g2 \<or> g1 = g2"

instance
proof
  fix x y z :: GUID_t
  show "x < y \<longleftrightarrow> x \<le> y \<and> \<not> y \<le> x"
    by (auto simp: less_eq_GUID_t_def less_GUID_t_def)
  show "x \<le> x" by (simp add: less_eq_GUID_t_def)
  show "x \<le> y \<Longrightarrow> y \<le> z \<Longrightarrow> x \<le> z" "x \<le> y \<Longrightarrow> y \<le> x \<Longrightarrow> x = y"
    by (auto simp: less_eq_GUID_t_def less_GUID_t_def dest: less_trans)
  show "x \<le> y \<or> y \<le> x"
    by (cases x; cases y) (auto simp: less_eq_GUID_t_def less_GUID_t_def)
qed

end

text \<open>A GUID has twelve and four octets; on those the C++ operators are the order and equality of HOL.\<close>

definition guid_ok :: "GUID_t \<Rightarrow> bool" where
  "guid_ok g \<longleftrightarrow> length (guidPrefix g) = GuidPrefix_size \<and> length (entityId g) = EntityId_size"

lemma less_GUID_iff:
  "g1 < g2 \<longleftrightarrow> guidPrefix g1 < guidPrefix g2 \<or> guidPrefix g1 = guidPrefix g2 \<and> entityId g1 < entityId g2"
  by (rule less_GUID_t_def)

lemma guid_less_iff: "guid_ok g1 \<Longrightarrow> guid_ok g2 \<Longrightarrow> guid_less g1 g2 \<longleftrightarrow> g1 < g2"
  using memcmp_facts [of "guidPrefix g1" "guidPrefix g2"] memcmp_facts [of "entityId g1" "entityId g2"]
  by (auto simp: guid_ok_def guid_less_def EntityId_less_def less_GUID_iff Let_def)

lemma guid_eq_iff: "guid_ok g1 \<Longrightarrow> guid_ok g2 \<Longrightarrow> guid_eq g1 g2 \<longleftrightarrow> g1 = g2"
  using memcmp_facts [of "guidPrefix g1" "guidPrefix g2"] memcmp_facts [of "entityId g1" "entityId g2"]
  by (cases g1; cases g2) (auto simp: guid_ok_def guid_eq_def EntityId_eq_def GuidPrefix_eq_def)

lemma EntityId_new_zero: "EntityId_new = replicate 4 0"
  by (simp add: EntityId_new_def EntityId_of_u32_be ENTITYID_UNKNOWN_def be_bytes_def le_bytes_def map_replicate_const)

lemma guid_ok_unknown [simp]: "guid_ok c_Guid_Unknown"
  by (simp add: guid_ok_def c_Guid_Unknown_def GUID_new_def GuidPrefix_new_def EntityId_new_zero EntityId_size_def)

lemma replicate_zero_least: "\<not> bs < replicate (length bs) (0 :: u8)"
  by (induction bs) auto

text \<open>The unknown GUID is the least one.\<close>

lemma guid_unknown_least: "guid_ok g \<Longrightarrow> c_Guid_Unknown \<le> g"
proof (rule leI, rule notI)
  assume "guid_ok g" and "g < c_Guid_Unknown"
  then show False
    using replicate_zero_least [of "guidPrefix g"] replicate_zero_least [of "entityId g"]
    by (auto simp: guid_ok_def c_Guid_Unknown_def GUID_new_def GuidPrefix_new_def EntityId_new_zero EntityId_size_def
        less_GUID_iff)
qed

subsection \<open>Instance handles\<close>

datatype InstanceHandle_t = InstanceHandle_t (ih_value: octets) (has_been_set: bool)

definition InstanceHandle_new :: InstanceHandle_t where "InstanceHandle_new = InstanceHandle_t (replicate 16 0) False"

definition ih_clear :: "InstanceHandle_t \<Rightarrow> InstanceHandle_t" where "ih_clear h = InstanceHandle_t (replicate 16 0) False"

definition isDefined :: "InstanceHandle_t \<Rightarrow> bool" where "isDefined h = has_been_set h"

definition InstanceHandle_of_guid :: "GUID_t \<Rightarrow> InstanceHandle_t" where
  "InstanceHandle_of_guid guid = InstanceHandle_t (guidPrefix guid @ entityId guid) True"

definition ih_eq :: "InstanceHandle_t \<Rightarrow> InstanceHandle_t \<Rightarrow> bool" where
  "ih_eq a b \<longleftrightarrow> has_been_set a = has_been_set b \<and> ih_value a = ih_value b"

definition ih_less :: "InstanceHandle_t \<Rightarrow> InstanceHandle_t \<Rightarrow> bool" where
  "ih_less a b \<longleftrightarrow> (if has_been_set a then has_been_set b \<and> ih_value a < ih_value b else has_been_set b)"

definition iHandle2GUID :: "InstanceHandle_t \<Rightarrow> GUID_t" where
  "iHandle2GUID h = GUID_t (take 12 (ih_value h)) (take 4 (drop 12 (ih_value h)))"

lemma iHandle2GUID_of_guid: "guid_ok g \<Longrightarrow> iHandle2GUID (InstanceHandle_of_guid g) = g"
  by (cases g) (simp add: guid_ok_def iHandle2GUID_def InstanceHandle_of_guid_def GuidPrefix_size_def EntityId_size_def)

lemma append_less: "length a = length c \<Longrightarrow> a @ b < c @ (d :: octets) \<longleftrightarrow> a < c \<or> a = c \<and> b < d"
  by (induction a c rule: list_induct2) auto

text \<open>
  C38. Identifiers form one order.  On well-formed GUIDs the C++ comparison operators are equality and a linear order
  with the unknown GUID as its least element; entity identifiers built from numbers are ordered and compared as the
  numbers, the conversions being mutually inverse; instance handles made of GUIDs keep the order and the GUID, and
  come after every handle that was not set.
\<close>

theorem identifiers_are_ordered:
  assumes "guid_ok g1" and "guid_ok g2"
  shows "(guid_less g1 g2 \<longleftrightarrow> g1 < g2) \<and> (guid_eq g1 g2 \<longleftrightarrow> g1 = g2) \<and> \<not> guid_less g1 c_Guid_Unknown
    \<and> (EntityId_less (EntityId_of_u32 x) (EntityId_of_u32 y) \<longleftrightarrow> x < y)
    \<and> (EntityId_eq_u32 (EntityId_of_u32 x) y \<longleftrightarrow> x = y)
    \<and> to_uint32 (EntityId_of_u32 x) = x \<and> EntityId_of_u32 (to_uint32 (entityId g1)) = entityId g1
    \<and> iHandle2GUID (InstanceHandle_of_guid g1) = g1
    \<and> (ih_less (InstanceHandle_of_guid g1) (InstanceHandle_of_guid g2) \<longleftrightarrow> g1 < g2)
    \<and> ih_less InstanceHandle_new (InstanceHandle_of_guid g1)"
proof -
  have len: "length (guidPrefix g1) = length (guidPrefix g2)" "length (entityId g1) = 4"
    using assms by (simp_all add: guid_ok_def EntityId_size_def)
  have entity: "EntityId_less (EntityId_of_u32 x) (EntityId_of_u32 y) \<longleftrightarrow> x < y"
    by (simp add: EntityId_less_def memcmp_order EntityId_of_u32_less)
  have "EntityId_reverse (EntityId_of_u32 x) = le_bytes 4 x"
    by (simp add: EntityId_reverse_rev) (simp add: EntityId_of_u32_be be_bytes_def)
  then have number: "EntityId_eq_u32 (EntityId_of_u32 x) y \<longleftrightarrow> x = y"
    by (simp add: EntityId_eq_u32_def memcmp_order le_bytes_inj)
  have least: "\<not> guid_less g1 c_Guid_Unknown"
    using guid_unknown_least [OF assms(1)] guid_less_iff [OF assms(1) guid_ok_unknown] by simp
  have handles: "ih_less (InstanceHandle_of_guid g1) (InstanceHandle_of_guid g2) \<longleftrightarrow> g1 < g2"
    "ih_less InstanceHandle_new (InstanceHandle_of_guid g1)"
    by (simp_all add: ih_less_def InstanceHandle_of_guid_def InstanceHandle_new_def append_less [OF len(1)] less_GUID_iff)
  show ?thesis
    using guid_less_iff [OF assms] guid_eq_iff [OF assms] least entity number to_uint32_of_u32
      EntityId_of_to_uint32 [OF len(2)] iHandle2GUID_of_guid [OF assms(1)] handles by blast
qed

theorem identifiers_are_ordered_witness:
  "guid_less c_Guid_Unknown (GUID_of_u32 GuidPrefix_new 0x1c1) \<and> \<not> guid_eq c_Guid_Unknown (GUID_of_u32 GuidPrefix_new 0x1c1)"
proof -
  have ok: "guid_ok (GUID_of_u32 GuidPrefix_new 0x1c1)"
    by (simp add: guid_ok_def GUID_of_u32_def GuidPrefix_new_def EntityId_size_def)
  have "c_Guid_Unknown \<noteq> GUID_of_u32 GuidPrefix_new 0x1c1"
    by (simp add: c_Guid_Unknown_def GUID_new_def GUID_of_u32_def EntityId_new_def ENTITYID_UNKNOWN_def)
  then show ?thesis
    using identifiers_are_ordered [OF guid_ok_unknown ok] guid_unknown_least [OF ok] by (simp add: order_less_le)
qed

end
