(* ===== verification/Resource_Vector.thy ===== *)
theory Resource_Vector
  imports Sdk_Prelude "HOL-Library.Multiset" "HOL-Library.Monad_Syntax"
begin

text \<open>
  Collections with a resource limit: \<open>ResourceLimitedVector\<close> and its configuration
  (\<open>fastrtps/utils/collections\<close>).  A vector is its elements, the capacity of the \<open>std::vector\<close> and the configuration;
  \<open>keep\<close> is the template parameter that makes removal keep the order.  \<open>None\<close> is a failed assertion or an access
  out of range, a null pointer is \<open>False\<close>.

  The locale \<open>limited_collection\<close> is what the users of a vector rely on; it is interpreted for both removal
  policies.
\<close>

unbundle bit_operations_syntax

record ResourceLimitedContainerConfig =
  rc_initial :: u64
  rc_maximum :: u64
  rc_increment :: u64

definition size_t_max :: u64 where "size_t_max = NOT 0"

definition ResourceLimitedContainerConfig_new :: ResourceLimitedContainerConfig where
  "ResourceLimitedContainerConfig_new = \<lparr>rc_initial = 0, rc_maximum = size_t_max, rc_increment = 1\<rparr>"

definition fixed_size_configuration :: "u64 \<Rightarrow> ResourceLimitedContainerConfig" where
  "fixed_size_configuration sz = \<lparr>rc_initial = sz, rc_maximum = sz, rc_increment = 0\<rparr>"

definition dynamic_allocation_configuration :: "u64 \<Rightarrow> ResourceLimitedContainerConfig" where
  "dynamic_allocation_configuration increment =
     \<lparr>rc_initial = 0, rc_maximum = size_t_max, rc_increment = (if increment \<noteq> 0 then increment else 1)\<rparr>"

definition rc_eq :: "ResourceLimitedContainerConfig \<Rightarrow> ResourceLimitedContainerConfig \<Rightarrow> bool" where
  "rc_eq lhs rhs \<longleftrightarrow> rc_maximum lhs = rc_maximum rhs \<and> rc_initial lhs = rc_initial rhs \<and> rc_increment lhs = rc_increment rhs"

record 'a ResourceLimitedVector =
  rv_configuration :: ResourceLimitedContainerConfig
  rv_collection :: "'a list"
  rv_capacity :: u64

definition vec_size :: "'a list \<Rightarrow> u64" where "vec_size xs = of_nat (length xs)"

text \<open>
  The \<open>std::vector\<close> of the GNU standard library: \<open>reserve\<close> never shrinks and allocates what it is asked for, no more (the
  standard only promises at least that), and a vector that is full doubles its capacity.  The code reads \<open>capacity\<close> back, so
  that its limit rests on this.
\<close>

definition vec_reserve :: "u64 \<Rightarrow> 'a ResourceLimitedVector \<Rightarrow> 'a ResourceLimitedVector" where
  "vec_reserve n v = v\<lparr>rv_capacity := max (rv_capacity v) n\<rparr>"

definition vec_push :: "'a \<Rightarrow> 'a ResourceLimitedVector \<Rightarrow> 'a ResourceLimitedVector" where
  "vec_push x v =
     v\<lparr>rv_collection := rv_collection v @ [x],
       rv_capacity := (if vec_size (rv_collection v) < rv_capacity v then rv_capacity v
                       else max 1 (2 * vec_size (rv_collection v)))\<rparr>"

definition ResourceLimitedVector_new :: "ResourceLimitedContainerConfig \<Rightarrow> 'a ResourceLimitedVector" where
  "ResourceLimitedVector_new cfg = vec_reserve (rc_initial cfg) \<lparr>rv_configuration = cfg, rv_collection = [], rv_capacity = 0\<rparr>"

definition ensure_capacity :: "'a ResourceLimitedVector \<Rightarrow> ('a ResourceLimitedVector \<times> bool) option" where
  "ensure_capacity v =
     (let size = vec_size (rv_collection v); cap = rv_capacity v; cfg = rv_configuration v in
      if size = cap then
        if cap < rc_maximum cfg then
          if rc_increment cfg > 0
          then Some (vec_reserve (min (cap + rc_increment cfg) (rc_maximum cfg)) v, True)
          else None
        else Some (v, False)
      else Some (v, True))"

definition rv_emplace_back :: "'a \<Rightarrow> 'a ResourceLimitedVector \<Rightarrow> ('a ResourceLimitedVector \<times> bool) option" where
  "rv_emplace_back x v =
     do { (v1, ok) \<leftarrow> ensure_capacity v; Some (if ok then (vec_push x v1, True) else (v1, False)) }"

definition rv_push_back :: "'a \<Rightarrow> 'a ResourceLimitedVector \<Rightarrow> ('a ResourceLimitedVector \<times> bool) option" where
  "rv_push_back val v = rv_emplace_back val v"

text \<open>Insertion before position \<open>pos\<close>.\<close>

definition rv_insert :: "nat \<Rightarrow> 'a \<Rightarrow> 'a ResourceLimitedVector \<Rightarrow> ('a ResourceLimitedVector \<times> bool) option" where
  "rv_insert pos x v =
     (if pos > length (rv_collection v) then None
      else do {
        (v1, ok) \<leftarrow> ensure_capacity v;
        Some (if ok
              then ((vec_push x v1)\<lparr>rv_collection := take pos (rv_collection v1) @ [x] @ drop pos (rv_collection v1)\<rparr>, True)
              else (v1, False)) })"

text \<open>\<open>std::find_if\<close> as the index of the first element.\<close>

fun find_if :: "('a \<Rightarrow> bool) \<Rightarrow> 'a list \<Rightarrow> nat option" where
  "find_if P [] = None"
| "find_if P (x # xs) = (if P x then Some 0 else map_option Suc (find_if P xs))"

definition do_remove :: "bool \<Rightarrow> nat \<Rightarrow> 'a list \<Rightarrow> 'a list" where
  "do_remove keep i xs =
     (if keep then take i xs @ drop (Suc i) xs
      else butlast (if Suc i \<noteq> length xs then xs[i := last xs] else xs))"

definition rv_remove_if :: "bool \<Rightarrow> ('a \<Rightarrow> bool) \<Rightarrow> 'a ResourceLimitedVector \<Rightarrow> 'a ResourceLimitedVector \<times> bool" where
  "rv_remove_if keep pred v =
     (case find_if pred (rv_collection v) of
        Some i \<Rightarrow> (v\<lparr>rv_collection := do_remove keep i (rv_collection v)\<rparr>, True)
      | None \<Rightarrow> (v, False))"

definition rv_remove :: "bool \<Rightarrow> 'a \<Rightarrow> 'a ResourceLimitedVector \<Rightarrow> 'a ResourceLimitedVector \<times> bool" where
  "rv_remove keep val v = rv_remove_if keep (\<lambda>x. x = val) v"

definition rv_assign :: "'a list \<Rightarrow> 'a ResourceLimitedVector \<Rightarrow> 'a ResourceLimitedVector" where
  "rv_assign values v =
     (let n = min (vec_size values) (rc_maximum (rv_configuration v))
      in (vec_reserve n v)\<lparr>rv_collection := take (unat n) values\<rparr>)"

definition rv_clear :: "'a ResourceLimitedVector \<Rightarrow> 'a ResourceLimitedVector" where
  "rv_clear v = v\<lparr>rv_collection := []\<rparr>"

definition rv_at :: "u64 \<Rightarrow> 'a ResourceLimitedVector \<Rightarrow> 'a option" where
  "rv_at pos v = (if pos < vec_size (rv_collection v) then Some (rv_collection v ! unat pos) else None)"

definition rv_empty :: "'a ResourceLimitedVector \<Rightarrow> bool" where "rv_empty v \<longleftrightarrow> rv_collection v = []"

definition rv_size :: "'a ResourceLimitedVector \<Rightarrow> u64" where "rv_size v = vec_size (rv_collection v)"

definition rv_erase :: "nat \<Rightarrow> 'a ResourceLimitedVector \<Rightarrow> 'a ResourceLimitedVector option" where
  "rv_erase i v =
     (if i < length (rv_collection v)
      then Some (v\<lparr>rv_collection := take i (rv_collection v) @ drop (Suc i) (rv_collection v)\<rparr>) else None)"

definition rv_pop_back :: "'a ResourceLimitedVector \<Rightarrow> 'a ResourceLimitedVector option" where
  "rv_pop_back v =
     (if rv_collection v = [] then None else Some (v\<lparr>rv_collection := butlast (rv_collection v)\<rparr>))"

text \<open>
  Copies: a new vector with the capacity of the other, and the element-wise assignment from another object (assigning a
  vector to itself clears it first).
\<close>

definition rv_copy :: "'a ResourceLimitedVector \<Rightarrow> 'a ResourceLimitedVector" where
  "rv_copy other =
     (vec_reserve (rv_capacity other) \<lparr>rv_configuration = rv_configuration other, rv_collection = [], rv_capacity = 0\<rparr>)
       \<lparr>rv_collection := rv_collection other\<rparr>"

fun push_all :: "'a list \<Rightarrow> 'a ResourceLimitedVector \<Rightarrow> 'a ResourceLimitedVector option" where
  "push_all [] v = Some v"
| "push_all (x # xs) v = do { (v1, _) \<leftarrow> rv_push_back x v; push_all xs v1 }"

definition rv_assign_from :: "'a ResourceLimitedVector \<Rightarrow> 'a ResourceLimitedVector \<Rightarrow> 'a ResourceLimitedVector option" where
  "rv_assign_from other v =
     do { v1 \<leftarrow> push_all (rv_collection other) (rv_clear v);
          if rv_size v1 = rv_size other then Some v1 else None }"

subsection \<open>Removal\<close>

lemma find_if_None_iff: "find_if P xs = None \<longleftrightarrow> (\<forall>x \<in> set xs. \<not> P x)"
  by (induction xs) auto

lemma find_if_SomeD: "find_if P xs = Some i \<Longrightarrow> i < length xs \<and> P (xs ! i) \<and> (\<forall>j < i. \<not> P (xs ! j))"
  by (induction xs arbitrary: i) (auto split: if_splits simp: less_Suc_eq_0_disj)

lemma mset_butlast: "xs \<noteq> [] \<Longrightarrow> mset (butlast xs) = mset xs - {# last xs #}"
  by (induction xs rule: rev_induct) simp_all

lemma mset_do_remove:
  assumes i: "i < length xs"
  shows "mset (do_remove keep i xs) = mset xs - {# xs ! i #}"
proof -
  have ne: "xs \<noteq> []" using i by auto
  have whole: "mset xs = mset (take i xs @ xs ! i # drop (Suc i) xs)" using id_take_nth_drop [OF i] by simp
  show ?thesis
  proof (cases "keep")
    case False
    show ?thesis
    proof (cases "Suc i = length xs")
      case True
      then have "xs ! i = last xs" using ne by (metis diff_Suc_1 last_conv_nth)
      then show ?thesis using True False mset_butlast [OF ne] by (simp add: do_remove_def)
    next
      case neq: False
      then have "i \<noteq> length xs - 1" using i by linarith
      then have "last (xs[i := last xs]) = last xs" using ne by (simp add: last_conv_nth)
      then have "mset (butlast (xs[i := last xs])) = mset (xs[i := last xs]) - {# last xs #}"
        using mset_butlast [of "xs[i := last xs]"] ne by simp
      then show ?thesis using False neq i by (simp add: do_remove_def mset_update)
    qed
  qed (simp add: do_remove_def whole)
qed

lemma length_do_remove: "i < length xs \<Longrightarrow> length (do_remove keep i xs) = length xs - 1"
  using arg_cong [OF mset_do_remove [of i xs keep], of size] by (simp add: size_Diff_singleton)

lemma distinct_mset_diff:
  assumes "mset ys = mset xs - M" and "distinct xs"
  shows "distinct ys"
  unfolding distinct_count_atmost_1
proof
  fix a
  have "count (mset ys) a = count (mset xs) a - count M a" using assms(1) by simp
  then have "count (mset ys) a \<le> 1" using assms(2) by (simp add: distinct_count_atmost_1)
  moreover have "a \<in> set ys \<longleftrightarrow> 0 < count (mset ys) a" by (simp add: count_greater_zero_iff)
  ultimately show "count (mset ys) a = (if a \<in> set ys then 1 else 0)" by (metis One_nat_def Suc_leI le_antisym neq0_conv)
qed

lemma set_do_remove_distinct:
  assumes i: "i < length xs" and d: "distinct xs"
  shows "set (do_remove keep i xs) = set xs - {xs ! i}"
proof -
  have "a \<in> set (do_remove keep i xs) \<longleftrightarrow> a \<in> set xs - {xs ! i}" for a
  proof -
    have "a \<in> set (do_remove keep i xs) \<longleftrightarrow> 0 < count (mset xs - {# xs ! i #}) a"
      by (simp only: mset_do_remove [OF i, of keep, symmetric] count_greater_zero_iff set_mset_mset)
    also have "\<dots> \<longleftrightarrow> count {# xs ! i #} a < count (mset xs) a" by (simp only: count_diff zero_less_diff)
    also have "count (mset xs) a = (if a \<in> set xs then 1 else 0)" using d by (simp add: distinct_count_atmost_1)
    finally show ?thesis by (cases "a = xs ! i") simp_all
  qed
  then show ?thesis by blast
qed

text \<open>A key occurs once: what is left after the removal of the element with a key.\<close>

lemma do_remove_key:
  assumes "find_if (\<lambda>x. f x = k) xs = Some i" and "distinct (map f xs)"
  shows "set (do_remove keep i xs) = {x \<in> set xs. f x \<noteq> k} \<and> distinct (map f (do_remove keep i xs))"
proof -
  note i = find_if_SomeD [OF assms(1)]
  have "set (do_remove keep i xs) = set xs - {xs ! i}"
    using i assms(2) by (intro set_do_remove_distinct) (simp_all add: distinct_map)
  moreover have "x = xs ! i" if "x \<in> set xs" "f x = k" for x
    using i assms(2) that by (metis distinct_map inj_onD nth_mem)
  moreover have "mset (map f (do_remove keep i xs)) = mset (map f xs) - {# k #}"
    using mset_do_remove [of i xs keep] i by (simp add: image_mset_Diff)
  then have "distinct (map f (do_remove keep i xs))"
    using assms(2) by (rule distinct_mset_diff)
  ultimately show ?thesis using i by auto
qed

subsection \<open>The limit\<close>

text \<open>
  A usable configuration: room for the initial elements, a positive step unless the size is fixed, and no
  wrap-around of the capacity.
\<close>

definition rc_ok :: "ResourceLimitedContainerConfig \<Rightarrow> bool" where
  "rc_ok cfg \<longleftrightarrow> rc_initial cfg \<le> rc_maximum cfg \<and> (rc_initial cfg < rc_maximum cfg \<longrightarrow> rc_increment cfg > 0)
     \<and> unat (rc_maximum cfg) + unat (rc_increment cfg) \<le> 2 ^ 64"

definition rv_ok :: "'a ResourceLimitedVector \<Rightarrow> bool" where
  "rv_ok v \<longleftrightarrow> rc_ok (rv_configuration v) \<and> length (rv_collection v) \<le> unat (rv_capacity v)
     \<and> rv_capacity v \<le> rc_maximum (rv_configuration v)
     \<and> (rv_capacity v < rc_maximum (rv_configuration v) \<longrightarrow> rc_increment (rv_configuration v) > 0)"

definition rv_limit :: "'a ResourceLimitedVector \<Rightarrow> nat" where
  "rv_limit v = unat (rc_maximum (rv_configuration v))"

text \<open>
  The same without a bound on the step: a usable configuration and the invariant of its vectors.  A growing capacity
  must not wrap around, which no vector of fewer than \<open>2 ^ 64\<close> elements less the step does.
\<close>

definition rc_usable :: "ResourceLimitedContainerConfig \<Rightarrow> bool" where
  "rc_usable cfg \<longleftrightarrow> rc_initial cfg \<le> rc_maximum cfg \<and> (rc_initial cfg < rc_maximum cfg \<longrightarrow> rc_increment cfg > 0)"

definition rv_usable :: "'a ResourceLimitedVector \<Rightarrow> bool" where
  "rv_usable v \<longleftrightarrow> length (rv_collection v) \<le> unat (rv_capacity v)
     \<and> rv_capacity v \<le> rc_maximum (rv_configuration v)
     \<and> (rv_capacity v < rc_maximum (rv_configuration v) \<longrightarrow> rc_increment (rv_configuration v) > 0)"

definition can_grow :: "nat \<Rightarrow> ResourceLimitedContainerConfig \<Rightarrow> bool" where
  "can_grow n cfg \<longleftrightarrow> (n < unat (rc_maximum cfg) \<longrightarrow> n + unat (rc_increment cfg) < 2 ^ 64)"

lemma rv_ok_usable: "rv_ok v \<Longrightarrow> rv_usable v \<and> can_grow n (rv_configuration v)"
  by (simp add: rv_ok_def rc_ok_def rv_usable_def can_grow_def)

lemma rc_usable_examples:
  "rc_usable ResourceLimitedContainerConfig_new" "rc_usable (fixed_size_configuration n)"
  "rc_usable (dynamic_allocation_configuration k)"
  by (simp_all add: rc_usable_def ResourceLimitedContainerConfig_new_def fixed_size_configuration_def
      dynamic_allocation_configuration_def word_neq_0_conv)

lemma unat_size_t_max: "unat size_t_max = 2 ^ 64 - 1"
  by (simp add: size_t_max_def unsigned_minus_1_eq_mask mask_eq_exp_minus_1)

lemma rc_ok_examples:
  "rc_ok ResourceLimitedContainerConfig_new" "rc_ok (fixed_size_configuration n)" "rc_ok (dynamic_allocation_configuration 1)"
  using unsigned_less [of n, where 'a = nat]
  by (simp_all add: rc_ok_def ResourceLimitedContainerConfig_new_def fixed_size_configuration_def
      dynamic_allocation_configuration_def unat_size_t_max word_less_nat_alt)

lemma rv_ok_new: "rc_ok cfg \<Longrightarrow> rv_ok (ResourceLimitedVector_new cfg) \<and> rv_limit (ResourceLimitedVector_new cfg) = unat (rc_maximum cfg)"
  by (simp add: rv_ok_def rv_limit_def rc_ok_def ResourceLimitedVector_new_def vec_reserve_def max_def)

lemma vec_size_usable: "rv_usable v \<Longrightarrow> unat (vec_size (rv_collection v)) = length (rv_collection v)"
  using unsigned_less [of "rv_capacity v", where 'a = nat]
  by (simp add: rv_usable_def vec_size_def unat_of_nat take_bit_nat_eq_self)

lemma vec_size_unat: "rv_ok v \<Longrightarrow> unat (vec_size (rv_collection v)) = length (rv_collection v)"
  by (simp add: vec_size_usable rv_ok_usable)

lemma emplace_back_grows:
  assumes ok: "rv_usable v" and room: "length (rv_collection v) < rv_limit v"
    and grow: "can_grow (length (rv_collection v)) (rv_configuration v)"
  shows "\<exists>v'. rv_emplace_back x v = Some (v', True) \<and> rv_usable v' \<and> rv_configuration v' = rv_configuration v
    \<and> rv_collection v' = rv_collection v @ [x]"
proof -
  let ?cfg = "rv_configuration v" and ?n = "vec_size (rv_collection v)"
  let ?w = "vec_reserve (min (rv_capacity v + rc_increment ?cfg) (rc_maximum ?cfg)) v"
  note n = vec_size_usable [OF ok]
  show ?thesis
  proof (cases "?n = rv_capacity v")
    case False
    then have less: "?n < rv_capacity v" using ok n by (auto simp: rv_usable_def word_less_nat_alt word_unat_eq_iff)
    then have "Suc (length (rv_collection v)) \<le> unat (rv_capacity v)" using n by (simp add: word_less_nat_alt)
    then show ?thesis using False less ok
      by (simp add: rv_emplace_back_def ensure_capacity_def vec_push_def rv_usable_def Let_def)
  next
    case True
    then have below: "rv_capacity v < rc_maximum ?cfg" using room n by (simp add: rv_limit_def word_less_nat_alt)
    then have inc: "rc_increment ?cfg > 0" using ok by (simp add: rv_usable_def)
    have sum: "unat (rv_capacity v + rc_increment ?cfg) = unat (rv_capacity v) + unat (rc_increment ?cfg)"
    proof -
      have "unat (rv_capacity v) + unat (rc_increment ?cfg) < 2 ^ 64"
        using grow below n True by (simp add: can_grow_def word_less_nat_alt)
      then show ?thesis by (simp add: unat_word_ariths)
    qed
    then have grows: "rv_capacity v < rv_capacity ?w" "rv_capacity ?w \<le> rc_maximum ?cfg"
      using below inc ok by (auto simp: vec_reserve_def rv_usable_def word_less_nat_alt word_le_nat_alt min_def max_def)
    have ensure: "ensure_capacity v = Some (?w, True)"
      using True below inc by (simp add: ensure_capacity_def Let_def)
    have "Suc (length (rv_collection v)) \<le> unat (rv_capacity ?w)" using True n grows by (simp add: word_less_nat_alt)
    then have "rv_usable (vec_push x ?w)"
      using ok inc grows True by (simp add: rv_usable_def vec_push_def) (simp add: vec_reserve_def)
    then show ?thesis using ensure
      by (simp add: rv_emplace_back_def) (simp add: vec_push_def vec_reserve_def)
  qed
qed

lemma emplace_back_at_limit:
  assumes ok: "rv_usable v" and full: "length (rv_collection v) = rv_limit v"
  shows "rv_emplace_back x v = Some (v, False)"
proof -
  have "unat (rv_capacity v) = rv_limit v" using ok full by (simp add: rv_usable_def rv_limit_def word_le_nat_alt)
  then have "rv_capacity v = rc_maximum (rv_configuration v)" by (simp add: rv_limit_def word_unat_eq_iff)
  moreover have "vec_size (rv_collection v) = rv_capacity v"
    using vec_size_usable [OF ok] full calculation by (simp add: rv_limit_def word_unat_eq_iff)
  ultimately show ?thesis by (simp add: rv_emplace_back_def ensure_capacity_def Let_def)
qed

lemma emplace_back_room:
  assumes ok: "rv_ok v" and room: "length (rv_collection v) < rv_limit v"
  shows "\<exists>v'. rv_emplace_back x v = Some (v', True) \<and> rv_ok v' \<and> rv_limit v' = rv_limit v
    \<and> rv_collection v' = rv_collection v @ [x]"
  using emplace_back_grows [of v x, OF _ room] rv_ok_usable [OF ok] ok
  by (auto simp: rv_ok_def rv_usable_def rv_limit_def)

lemma emplace_back_full:
  "rv_ok v \<Longrightarrow> length (rv_collection v) = rv_limit v \<Longrightarrow> rv_emplace_back x v = Some (v, False)"
  by (simp add: emplace_back_at_limit rv_ok_usable)

lemma remove_if_found:
  assumes ok: "rv_ok v" and found: "find_if P (rv_collection v) = Some i"
  shows "\<exists>v'. rv_remove_if keep P v = (v', True) \<and> rv_ok v' \<and> rv_limit v' = rv_limit v
    \<and> rv_collection v' = do_remove keep i (rv_collection v)"
  using assms find_if_SomeD [OF found] by (auto simp: rv_remove_if_def rv_ok_def rv_limit_def length_do_remove)

lemma remove_if_absent: "find_if P (rv_collection v) = None \<Longrightarrow> rv_remove_if keep P v = (v, False)"
  by (simp add: rv_remove_if_def)

subsection \<open>What the users of a collection rely on\<close>

locale limited_collection =
  fixes items :: "'c \<Rightarrow> 'a list" and limit :: "'c \<Rightarrow> nat" and ok :: "'c \<Rightarrow> bool"
    and push :: "'a \<Rightarrow> 'c \<Rightarrow> ('c \<times> bool) option" and remove_where :: "('a \<Rightarrow> bool) \<Rightarrow> 'c \<Rightarrow> 'c \<times> bool"
    and wipe :: "'c \<Rightarrow> 'c"
  assumes bounded: "ok c \<Longrightarrow> length (items c) \<le> limit c"
    and push_room: "ok c \<Longrightarrow> length (items c) < limit c \<Longrightarrow>
      \<exists>c'. push x c = Some (c', True) \<and> ok c' \<and> limit c' = limit c \<and> items c' = items c @ [x]"
    and push_full: "ok c \<Longrightarrow> length (items c) = limit c \<Longrightarrow> push x c = Some (c, False)"
    and remove_hit: "ok c \<Longrightarrow> find_if P (items c) = Some i \<Longrightarrow>
      \<exists>c'. remove_where P c = (c', True) \<and> ok c' \<and> limit c' = limit c \<and> (\<exists>k. items c' = do_remove k i (items c))"
    and remove_miss: "find_if P (items c) = None \<Longrightarrow> remove_where P c = (c, False)"
    and wiped: "ok c \<Longrightarrow> ok (wipe c) \<and> limit (wipe c) = limit c \<and> items (wipe c) = []"
begin

lemma push_spec:
  assumes "ok c"
  shows "\<exists>c'. push x c = Some (c', length (items c) < limit c) \<and> ok c' \<and> limit c' = limit c
    \<and> items c' = (if length (items c) < limit c then items c @ [x] else items c)"
proof (cases "length (items c) < limit c")
  case True
  then show ?thesis using push_room [OF assms True] by simp
next
  case False
  then show ?thesis using push_full [OF assms] bounded [OF assms] assms by simp
qed

lemma remove_spec:
  assumes "ok c"
  shows "\<exists>c'. remove_where P c = (c', \<exists>y \<in> set (items c). P y) \<and> ok c' \<and> limit c' = limit c
    \<and> (case find_if P (items c) of None \<Rightarrow> c' = c | Some i \<Rightarrow> mset (items c') = mset (items c) - {# items c ! i #})"
proof (cases "find_if P (items c)")
  case None
  then have "\<not> (\<exists>y \<in> set (items c). P y)" by (simp add: find_if_None_iff)
  then show ?thesis using remove_miss [OF None] None assms by simp
next
  case (Some i)
  note i = find_if_SomeD [OF Some]
  then have "\<exists>y \<in> set (items c). P y" by (auto intro: nth_mem)
  then show ?thesis using remove_hit [OF assms Some] Some i by (auto simp: mset_do_remove)
qed

text \<open>A collection with unique keys stays one, and a removal takes the key away.\<close>

lemma remove_key:
  assumes "ok c" and "distinct (map f (items c))"
  shows "\<exists>c'. remove_where (\<lambda>y. f y = k) c = (c', k \<in> f ` set (items c)) \<and> ok c' \<and> limit c' = limit c
    \<and> set (items c') = {y \<in> set (items c). f y \<noteq> k} \<and> distinct (map f (items c'))"
proof (cases "find_if (\<lambda>y. f y = k) (items c)")
  case None
  then have "k \<notin> f ` set (items c)" by (auto simp: find_if_None_iff)
  then show ?thesis using remove_miss [OF None] assms by auto
next
  case (Some i)
  note i = find_if_SomeD [OF Some]
  then have "k \<in> f ` set (items c)" by (auto intro: nth_mem rev_image_eqI)
  then show ?thesis using remove_hit [OF assms(1) Some] do_remove_key [OF Some assms(2)] by auto
qed

end

lemma rv_bounded: "rv_ok v \<Longrightarrow> length (rv_collection v) \<le> rv_limit v"
  by (auto simp: rv_ok_def rv_limit_def word_le_nat_alt)

lemma rv_remove_hit:
  "rv_ok v \<Longrightarrow> find_if P (rv_collection v) = Some i \<Longrightarrow>
   \<exists>v'. rv_remove_if keep P v = (v', True) \<and> rv_ok v' \<and> rv_limit v' = rv_limit v
     \<and> (\<exists>k. rv_collection v' = do_remove k i (rv_collection v))"
  using remove_if_found by metis

lemma rv_cleared: "rv_ok v \<Longrightarrow> rv_ok (rv_clear v) \<and> rv_limit (rv_clear v) = rv_limit v \<and> rv_collection (rv_clear v) = []"
  by (simp add: rv_ok_def rv_limit_def rv_clear_def)

lemmas vector_laws = rv_bounded emplace_back_room emplace_back_full rv_remove_hit remove_if_absent rv_cleared

interpretation keeping: limited_collection rv_collection rv_limit rv_ok rv_emplace_back "rv_remove_if True" rv_clear
  by unfold_locales (rule vector_laws; assumption)+

interpretation swapping: limited_collection rv_collection rv_limit rv_ok rv_emplace_back "rv_remove_if False" rv_clear
  by unfold_locales (rule vector_laws; assumption)+

text \<open>The same for a usable vector that can grow.\<close>

lemma push_usable:
  assumes ok: "rv_usable v" and grow: "can_grow (length (rv_collection v)) (rv_configuration v)"
  shows "\<exists>v'. rv_push_back x v = Some (v', length (rv_collection v) < rv_limit v) \<and> rv_usable v'
    \<and> rv_configuration v' = rv_configuration v
    \<and> rv_collection v' = (if length (rv_collection v) < rv_limit v then rv_collection v @ [x] else rv_collection v)"
proof (cases "length (rv_collection v) < rv_limit v")
  case True
  then show ?thesis using emplace_back_grows [OF ok True grow, of x] by (simp add: rv_push_back_def)
next
  case False
  then have "length (rv_collection v) = rv_limit v" using ok by (auto simp: rv_usable_def rv_limit_def word_le_nat_alt)
  then show ?thesis using emplace_back_at_limit [OF ok, of x] ok by (simp add: rv_push_back_def)
qed

lemma push_all_usable:
  assumes "rv_usable v" and "length (rv_collection v) + length xs + unat (rc_increment (rv_configuration v)) < 2 ^ 64"
  shows "\<exists>v'. push_all xs v = Some v' \<and> rv_usable v' \<and> rv_configuration v' = rv_configuration v
    \<and> rv_collection v' = rv_collection v @ take (rv_limit v - length (rv_collection v)) xs"
  using assms
proof (induction xs arbitrary: v)
  case (Cons x xs)
  have "can_grow (length (rv_collection v)) (rv_configuration v)" using Cons.prems(2) by (simp add: can_grow_def)
  then obtain v1 where v1: "rv_push_back x v = Some (v1, length (rv_collection v) < rv_limit v)" "rv_usable v1"
      "rv_configuration v1 = rv_configuration v"
      "rv_collection v1 = (if length (rv_collection v) < rv_limit v then rv_collection v @ [x] else rv_collection v)"
    using push_usable [OF Cons.prems(1)] by blast
  have limit: "rv_limit v1 = rv_limit v" using v1(3) by (simp add: rv_limit_def)
  have "length (rv_collection v1) + length xs + unat (rc_increment (rv_configuration v1)) < 2 ^ 64"
    using Cons.prems(2) v1(3,4) by simp
  from Cons.IH [OF v1(2) this] obtain v' where v': "push_all xs v1 = Some v'" "rv_usable v'"
      "rv_configuration v' = rv_configuration v1"
      "rv_collection v' = rv_collection v1 @ take (rv_limit v1 - length (rv_collection v1)) xs" by blast
  have "rv_collection v' = rv_collection v @ take (rv_limit v - length (rv_collection v)) (x # xs)"
    using v'(4) v1(4) unfolding limit by (auto simp: take_Cons' Suc_diff_Suc)
  then show ?case using v1(1,3) v' by simp
qed (simp add: rv_usable_def)

lemma assign_from_usable:
  assumes ok: "rv_usable v" and len: "length (rv_collection other) + unat (rc_increment (rv_configuration v)) < 2 ^ 64"
  shows "if length (rv_collection other) \<le> rv_limit v
    then \<exists>v'. rv_assign_from other v = Some v' \<and> rv_usable v' \<and> rv_configuration v' = rv_configuration v
      \<and> rv_collection v' = rv_collection other
    else rv_assign_from other v = None"
proof -
  have clear: "rv_usable (rv_clear v)" "rv_configuration (rv_clear v) = rv_configuration v" "rv_collection (rv_clear v) = []"
    "rv_limit (rv_clear v) = rv_limit v"
    using ok by (simp_all add: rv_usable_def rv_clear_def rv_limit_def)
  obtain v' where v': "push_all (rv_collection other) (rv_clear v) = Some v'" "rv_usable v'"
      "rv_configuration v' = rv_configuration v" "rv_collection v' = take (rv_limit v) (rv_collection other)"
    using push_all_usable [OF clear(1), of "rv_collection other"] len clear by auto
  have "rv_size v' = rv_size other \<longleftrightarrow> length (rv_collection v') = length (rv_collection other)"
    using len by (auto simp: rv_size_def vec_size_def word_unat_eq_iff unat_of_nat take_bit_nat_eq_self v'(4))
  then show ?thesis using v' by (auto simp: rv_assign_from_def min_def)
qed

text \<open>
  The vectors a program can make of one configuration, by every operation of the class.  An append, an insertion and an
  assignment are taken while the capacity can grow without wrapping around.
\<close>

inductive rv_reachable :: "bool \<Rightarrow> ResourceLimitedContainerConfig \<Rightarrow> 'a ResourceLimitedVector \<Rightarrow> bool"
  for keep cfg where
  New: "rv_reachable keep cfg (ResourceLimitedVector_new cfg)"
| Push: "rv_reachable keep cfg v \<Longrightarrow> can_grow (length (rv_collection v)) cfg \<Longrightarrow> rv_push_back x v = Some (v', b) \<Longrightarrow>
    rv_reachable keep cfg v'"
| Remove: "rv_reachable keep cfg v \<Longrightarrow> rv_remove_if keep P v = (v', b) \<Longrightarrow> rv_reachable keep cfg v'"
| Clear: "rv_reachable keep cfg v \<Longrightarrow> rv_reachable keep cfg (rv_clear v)"
| Assign: "rv_reachable keep cfg v \<Longrightarrow> length xs < 2 ^ 64 \<Longrightarrow> rv_reachable keep cfg (rv_assign xs v)"
| Insert: "rv_reachable keep cfg v \<Longrightarrow> can_grow (length (rv_collection v)) cfg \<Longrightarrow> rv_insert pos x v = Some (v', b) \<Longrightarrow>
    rv_reachable keep cfg v'"
| Erase: "rv_reachable keep cfg v \<Longrightarrow> rv_erase i v = Some v' \<Longrightarrow> rv_reachable keep cfg v'"
| PopBack: "rv_reachable keep cfg v \<Longrightarrow> rv_pop_back v = Some v' \<Longrightarrow> rv_reachable keep cfg v'"
| Copy: "rv_reachable keep cfg v \<Longrightarrow> rv_reachable keep cfg (rv_copy v)"
| AssignFrom: "rv_reachable keep cfg v \<Longrightarrow> length (rv_collection other) + unat (rc_increment cfg) < 2 ^ 64 \<Longrightarrow>
    rv_assign_from other v = Some v' \<Longrightarrow> rv_reachable keep cfg v'"

lemma rv_assign_usable:
  "rv_usable v \<Longrightarrow> length xs < 2 ^ 64 \<Longrightarrow>
   rv_usable (rv_assign xs v) \<and> rv_configuration (rv_assign xs v) = rv_configuration v"
  by (auto simp: rv_usable_def rv_assign_def vec_reserve_def Let_def word_le_nat_alt word_less_nat_alt max_def min_def)

text \<open>Insertion is an append as far as the size is concerned.\<close>

lemma rv_insert_push:
  "rv_insert pos x v = Some (v', b) \<Longrightarrow>
   \<exists>v1. rv_push_back x v = Some (v1, b) \<and> rv_configuration v' = rv_configuration v1 \<and> rv_capacity v' = rv_capacity v1
     \<and> length (rv_collection v') = length (rv_collection v1)"
proof (cases "ensure_capacity v")
  case (Some r)
  assume run: "rv_insert pos x v = Some (v', b)"
  obtain a ok where r: "r = (a, ok)" by (cases r)
  let ?v1 = "if ok then vec_push x a else a"
  have "rv_push_back x v = Some (?v1, ok)" using Some r by (simp add: rv_push_back_def rv_emplace_back_def)
  moreover have "b = ok \<and> v' = (if ok then (vec_push x a)\<lparr>rv_collection := take pos (rv_collection a) @ [x] @ drop pos (rv_collection a)\<rparr> else a)"
    using run Some r by (auto simp: rv_insert_def split: if_splits)
  ultimately show ?thesis by (auto simp: vec_push_def min_def)
qed (simp add: rv_insert_def split: if_splits)

lemma rv_usable_same:
  "rv_usable v \<Longrightarrow> rv_configuration v' = rv_configuration v \<Longrightarrow> rv_capacity v' = rv_capacity v \<Longrightarrow>
   length (rv_collection v') \<le> length (rv_collection v) \<Longrightarrow> rv_usable v'"
  by (simp add: rv_usable_def)

lemma rv_ok_same:
  "rv_ok v \<Longrightarrow> rv_configuration v' = rv_configuration v \<Longrightarrow> rv_capacity v' = rv_capacity v \<Longrightarrow>
   length (rv_collection v') \<le> length (rv_collection v) \<Longrightarrow> rv_ok v' \<and> rv_limit v' = rv_limit v"
  by (simp add: rv_ok_def rv_limit_def)

text \<open>A removal, of any vector.\<close>

lemma rv_remove_exact:
  "\<exists>v'. rv_remove_if keep P v = (v', \<exists>y \<in> set (rv_collection v). P y)
    \<and> rv_configuration v' = rv_configuration v \<and> rv_capacity v' = rv_capacity v
    \<and> length (rv_collection v') \<le> length (rv_collection v)
    \<and> (case find_if P (rv_collection v) of None \<Rightarrow> v' = v
       | Some i \<Rightarrow> mset (rv_collection v') = mset (rv_collection v) - {# rv_collection v ! i #})"
proof (cases "find_if P (rv_collection v)")
  case None
  then have "\<not> (\<exists>y \<in> set (rv_collection v). P y)" by (simp add: find_if_None_iff)
  then show ?thesis using None by (simp add: rv_remove_if_def)
next
  case (Some i)
  note i = find_if_SomeD [OF Some]
  then have "\<exists>y \<in> set (rv_collection v). P y" by (auto intro: nth_mem)
  then show ?thesis using Some i by (simp add: rv_remove_if_def mset_do_remove length_do_remove)
qed

lemma rv_reachable_usable:
  assumes "rv_reachable keep cfg v" and cfg: "rc_usable cfg"
  shows "rv_usable v \<and> rv_configuration v = cfg"
  using assms(1)
proof induction
  case New
  then show ?case using cfg
    by (simp add: rv_usable_def rc_usable_def ResourceLimitedVector_new_def vec_reserve_def max_def)
next
  case (Push v x v' b)
  then show ?case using push_usable [of v x] by auto
next
  case (Remove v P v' b)
  then show ?case using rv_remove_exact [of keep P v] rv_usable_same [of v v'] by auto
next
  case (Insert v pos x v' b)
  obtain v1 where v1: "rv_push_back x v = Some (v1, b)" "rv_configuration v' = rv_configuration v1"
      "rv_capacity v' = rv_capacity v1" "length (rv_collection v') = length (rv_collection v1)"
    using rv_insert_push [OF Insert.hyps(3)] by blast
  have "rv_usable v1 \<and> rv_configuration v1 = cfg" using push_usable [of v x] Insert v1(1) by auto
  then show ?case using rv_usable_same [of v1 v'] v1 by simp
next
  case (Erase v i v')
  then show ?case using rv_usable_same [of v v'] by (auto simp: rv_erase_def split: if_splits)
next
  case (PopBack v v')
  then show ?case using rv_usable_same [of v v'] by (auto simp: rv_pop_back_def split: if_splits)
next
  case (AssignFrom v other v')
  then show ?case using assign_from_usable [of v other] by (auto split: if_splits)
next
  case (Assign v xs)
  then show ?case by (simp add: rv_assign_usable)
qed (auto simp: rv_usable_def rv_clear_def rv_copy_def vec_reserve_def)

text \<open>
  C36. A resource-limited vector is a bounded bag, for every configuration whose initial size is not above its maximum and
  that has a positive step unless its size is fixed (\<open>rc_usable\<close>; with a larger initial size it is not,
  \<open>initial_overrides_maximum\<close>), with a \<open>std::vector\<close> that reserves what it is asked for.  Whatever was done to it, while
  the capacity could grow without wrapping around, it holds at most the configured maximum and reserves no more.  If its
  capacity can grow (always, unless size and step reach \<open>2 ^ 64\<close>), no assertion of an append fails: an element is appended
  exactly when there is room and is refused without effect otherwise.  A removal takes the first matching element and
  nothing else, whether or not the order is kept.  The assignment from another vector copies it when it fits; it fails its
  assertion exactly when the other is longer than the maximum.
\<close>

theorem limited_vector_is_a_bounded_bag:
  assumes "rc_usable cfg" and "rv_reachable keep cfg v"
  shows "length (rv_collection v) \<le> unat (rc_maximum cfg) \<and> rv_capacity v \<le> rc_maximum cfg
    \<and> (can_grow (length (rv_collection v)) cfg \<longrightarrow>
        (\<exists>v'. rv_push_back x v = Some (v', length (rv_collection v) < unat (rc_maximum cfg))
          \<and> rv_collection v' =
              (if length (rv_collection v) < unat (rc_maximum cfg) then rv_collection v @ [x] else rv_collection v)))
    \<and> (\<exists>v'. rv_remove_if keep P v = (v', \<exists>y \<in> set (rv_collection v). P y)
        \<and> (case find_if P (rv_collection v) of None \<Rightarrow> v' = v
           | Some i \<Rightarrow> mset (rv_collection v') = mset (rv_collection v) - {# rv_collection v ! i #}))
    \<and> (length (rv_collection other) + unat (rc_increment cfg) < 2 ^ 64 \<longrightarrow>
        (if length (rv_collection other) \<le> unat (rc_maximum cfg)
         then \<exists>v'. rv_assign_from other v = Some v' \<and> rv_collection v' = rv_collection other
         else rv_assign_from other v = None))"
proof -
  have ok: "rv_usable v" and cfg: "rv_configuration v = cfg" using rv_reachable_usable [OF assms(2,1)] by simp_all
  have limit: "rv_limit v = unat (rc_maximum cfg)" by (simp add: rv_limit_def cfg)
  have cap: "rv_capacity v \<le> rc_maximum cfg" using ok cfg by (simp add: rv_usable_def)
  then have "length (rv_collection v) \<le> unat (rc_maximum cfg)" using ok by (simp add: rv_usable_def word_le_nat_alt)
  moreover have "\<exists>v'. rv_remove_if keep P v = (v', \<exists>y \<in> set (rv_collection v). P y)
      \<and> (case find_if P (rv_collection v) of None \<Rightarrow> v' = v
         | Some i \<Rightarrow> mset (rv_collection v') = mset (rv_collection v) - {# rv_collection v ! i #})"
    using rv_remove_exact [of keep P v] by blast
  ultimately show ?thesis
    using cap push_usable [OF ok, of x] assign_from_usable [OF ok, of other] unfolding limit cfg by (auto split: if_splits)
qed

theorem limited_vector_is_a_bounded_bag_witness:
  "(\<exists>v'. rv_push_back (7 :: nat) (ResourceLimitedVector_new (fixed_size_configuration 1)) = Some (v', True) \<and> rv_collection v' = [7])
   \<and> (\<exists>v'. rv_push_back (7 :: nat) (ResourceLimitedVector_new (dynamic_allocation_configuration 8)) = Some (v', True))
   \<and> rv_assign_from (rv_assign [5, 6 :: nat] (ResourceLimitedVector_new ResourceLimitedContainerConfig_new))
       (ResourceLimitedVector_new (fixed_size_configuration 1)) = None"
proof -
  have len: "rv_collection (rv_assign [5, 6 :: nat] (ResourceLimitedVector_new ResourceLimitedContainerConfig_new)) = [5, 6]"
    by (simp add: rv_assign_def ResourceLimitedVector_new_def vec_reserve_def vec_size_def ResourceLimitedContainerConfig_new_def
        size_t_max_def min_def)
  have new: "rv_reachable False cfg (ResourceLimitedVector_new cfg :: nat ResourceLimitedVector)" for cfg
    by (rule rv_reachable.New)
  have empty: "rv_collection (ResourceLimitedVector_new cfg :: nat ResourceLimitedVector) = []" for cfg
    by (simp add: ResourceLimitedVector_new_def vec_reserve_def)
  note one = limited_vector_is_a_bounded_bag [OF rc_usable_examples(2) new [of "fixed_size_configuration 1"]]
    and eight = limited_vector_is_a_bounded_bag [OF rc_usable_examples(3) new [of "dynamic_allocation_configuration 8"]]
  have max: "unat (rc_maximum (fixed_size_configuration 1)) = 1" "unat (rc_increment (fixed_size_configuration 1)) = 0"
    "0 < unat (rc_maximum (dynamic_allocation_configuration 8))" "unat (rc_increment (dynamic_allocation_configuration 8)) = 8"
    by (simp_all add: fixed_size_configuration_def dynamic_allocation_configuration_def unat_size_t_max)
  show ?thesis
  proof (intro conjI)
    show "\<exists>v'. rv_push_back (7 :: nat) (ResourceLimitedVector_new (fixed_size_configuration 1)) = Some (v', True) \<and> rv_collection v' = [7]"
      using one [of 7] by (simp add: empty max can_grow_def)
    show "\<exists>v'. rv_push_back (7 :: nat) (ResourceLimitedVector_new (dynamic_allocation_configuration 8)) = Some (v', True)"
      using eight [of 7] by (auto simp: empty max can_grow_def)
    show "rv_assign_from (rv_assign [5, 6 :: nat] (ResourceLimitedVector_new ResourceLimitedContainerConfig_new))
       (ResourceLimitedVector_new (fixed_size_configuration 1)) = None"
      using one [of undefined undefined "rv_assign [5, 6] (ResourceLimitedVector_new ResourceLimitedContainerConfig_new)"]
      by (simp add: len max)
  qed
qed

text \<open>More initial than maximum elements: the maximum does not limit the vector.\<close>

lemma initial_overrides_maximum:
  "do { (v1, _) \<leftarrow> rv_push_back (1 :: nat) (ResourceLimitedVector_new \<lparr>rc_initial = 2, rc_maximum = 1, rc_increment = 1\<rparr>);
        (v2, ok) \<leftarrow> rv_push_back 2 v1; Some (rv_collection v2, ok) } = Some ([1, 2], True)"
  by (simp add: rv_push_back_def rv_emplace_back_def ensure_capacity_def ResourceLimitedVector_new_def vec_reserve_def
      vec_push_def vec_size_def)

text \<open>The assignment of a longer vector than the configuration allows ends in a failed assertion.\<close>

lemma assignment_of_longer_vector_fails:
  "rv_assign_from (rv_assign [1, 2 :: nat] (ResourceLimitedVector_new ResourceLimitedContainerConfig_new))
     (ResourceLimitedVector_new (fixed_size_configuration 1)) = None"
  by (simp add: rv_assign_from_def rv_assign_def rv_push_back_def rv_emplace_back_def ensure_capacity_def rv_size_def
      ResourceLimitedVector_new_def vec_reserve_def vec_push_def vec_size_def fixed_size_configuration_def rv_clear_def
      ResourceLimitedContainerConfig_new_def size_t_max_def min_def)

end
