(* ===== verification/Reader_Instance.thy ===== *)
theory Reader_Instance
  imports Rtps_Guid Resource_Vector Cache_Change
begin

text \<open>
  The instances a data reader keeps: \<open>DataReaderInstance\<close> (\<open>fastdds/subscriber/history/DataReaderInstance.hpp\<close>), the
  counters of the history, and the kinds of view, instance and sample states (\<open>fastdds/dds/subscriber\<close>).

  An operation gives the instance, the counters and the value it returns; \<open>None\<close> is a failed assertion.  Writers are
  compared by \<open>=\<close> and \<open><\<close>, which are the operators of the code on well-formed GUIDs (theory \<open>Rtps_Guid\<close>).
\<close>

datatype ViewStateKind = NEW_VIEW_STATE | NOT_NEW_VIEW_STATE

fun ViewStateKind_val :: "ViewStateKind \<Rightarrow> u16" where
  "ViewStateKind_val NEW_VIEW_STATE = push_bit 0 1"
| "ViewStateKind_val NOT_NEW_VIEW_STATE = push_bit 1 1"

datatype InstanceStateKind = ALIVE_INSTANCE_STATE | NOT_ALIVE_DISPOSED_INSTANCE_STATE | NOT_ALIVE_NO_WRITERS_INSTANCE_STATE

fun InstanceStateKind_val :: "InstanceStateKind \<Rightarrow> u16" where
  "InstanceStateKind_val ALIVE_INSTANCE_STATE = push_bit 0 1"
| "InstanceStateKind_val NOT_ALIVE_DISPOSED_INSTANCE_STATE = push_bit 1 1"
| "InstanceStateKind_val NOT_ALIVE_NO_WRITERS_INSTANCE_STATE = push_bit 2 1"

datatype SampleStateKind = READ_SAMPLE_STATE | NOT_READ_SAMPLE_STATE

fun SampleStateKind_val :: "SampleStateKind \<Rightarrow> u16" where
  "SampleStateKind_val READ_SAMPLE_STATE = push_bit 0 1"
| "SampleStateKind_val NOT_READ_SAMPLE_STATE = push_bit 1 1"

definition NOT_ALIVE_INSTANCE_STATE :: u16 where
  "NOT_ALIVE_INSTANCE_STATE =
     InstanceStateKind_val NOT_ALIVE_DISPOSED_INSTANCE_STATE OR InstanceStateKind_val NOT_ALIVE_NO_WRITERS_INSTANCE_STATE"
definition ANY_INSTANCE_STATE :: u16 where
  "ANY_INSTANCE_STATE = InstanceStateKind_val ALIVE_INSTANCE_STATE OR NOT_ALIVE_INSTANCE_STATE"
definition ANY_VIEW_STATE :: u16 where
  "ANY_VIEW_STATE = ViewStateKind_val NEW_VIEW_STATE OR ViewStateKind_val NOT_NEW_VIEW_STATE"
definition ANY_SAMPLE_STATE :: u16 where
  "ANY_SAMPLE_STATE = SampleStateKind_val READ_SAMPLE_STATE OR SampleStateKind_val NOT_READ_SAMPLE_STATE"

record StateFilter =
  sf_sample_states :: u16
  sf_view_states :: u16
  sf_instance_states :: u16

record DataReaderHistoryCounters =
  samples_read :: u64
  samples_unread :: u64
  instances_new :: u64
  instances_not_new :: u64
  instances_alive :: u64
  instances_disposed :: u64
  instances_no_writers :: u64

definition DataReaderHistoryCounters_new :: DataReaderHistoryCounters where
  "DataReaderHistoryCounters_new =
     \<lparr>samples_read = 0, samples_unread = 0, instances_new = 0, instances_not_new = 0, instances_alive = 0,
      instances_disposed = 0, instances_no_writers = 0\<rparr>"

type_synonym WriterOwnership = "GUID_t \<times> u32"

record 'change DataReaderInstance =
  ri_cache_changes :: "'change ResourceLimitedVector"
  ri_alive_writers :: "WriterOwnership ResourceLimitedVector"
  ri_current_owner :: WriterOwnership
  ri_view_state :: ViewStateKind
  ri_instance_state :: InstanceStateKind
  ri_disposed_generation_count :: i32
  ri_no_writers_generation_count :: i32
  ri_has_been_accounted :: bool

definition u32_max :: u32 where "u32_max = NOT 0"

definition DataReaderInstance_new ::
    "ResourceLimitedContainerConfig \<Rightarrow> ResourceLimitedContainerConfig \<Rightarrow> 'change DataReaderInstance" where
  "DataReaderInstance_new changes_allocation writers_allocation =
     \<lparr>ri_cache_changes = ResourceLimitedVector_new changes_allocation,
      ri_alive_writers = ResourceLimitedVector_new writers_allocation,
      ri_current_owner = (GUID_new, u32_max), ri_view_state = NEW_VIEW_STATE,
      ri_instance_state = ALIVE_INSTANCE_STATE, ri_disposed_generation_count = 0, ri_no_writers_generation_count = 0,
      ri_has_been_accounted = False\<rparr>"

text \<open>The writers a reader tracks, and the loop that looks for a better owner.\<close>

definition ri_writers :: "'change DataReaderInstance \<Rightarrow> WriterOwnership list" where
  "ri_writers i = rv_collection (ri_alive_writers i)"

fun UpdateOwner :: "WriterOwnership list \<Rightarrow> WriterOwnership \<Rightarrow> WriterOwnership" where
  "UpdateOwner [] current_owner = current_owner"
| "UpdateOwner (item # rest) current_owner =
     UpdateOwner rest
       (if snd item > snd current_owner \<or> snd item = snd current_owner \<and> fst item < fst current_owner
        then item else current_owner)"

definition update_owner :: "'change DataReaderInstance \<Rightarrow> 'change DataReaderInstance" where
  "update_owner i = i\<lparr>ri_current_owner := UpdateOwner (ri_writers i) (ri_current_owner i)\<rparr>"

text \<open>\<open>dec\<close> and \<open>inc\<close> are the updates of the two counters that are passed by reference.\<close>

type_synonym counter = "(u64 \<Rightarrow> u64) \<Rightarrow> DataReaderHistoryCounters \<Rightarrow> DataReaderHistoryCounters"

definition counters_update ::
    "counter \<Rightarrow> counter \<Rightarrow> bool \<Rightarrow> ViewStateKind \<Rightarrow> DataReaderHistoryCounters \<Rightarrow> DataReaderHistoryCounters" where
  "counters_update dec inc set_as_new_view_state view counters =
     (let c1 = inc (\<lambda>n. n + 1) (dec (\<lambda>n. n - 1) counters) in
      if set_as_new_view_state \<and> view \<noteq> NEW_VIEW_STATE
      then c1\<lparr>instances_new := instances_new c1 + 1, instances_not_new := instances_not_new c1 - 1\<rparr>
      else c1)"

definition writer_set :: "GUID_t \<Rightarrow> u32 \<Rightarrow> 'change DataReaderInstance \<Rightarrow> 'change DataReaderInstance option" where
  "writer_set writer_guid ownership_strength i =
     (case find_if (\<lambda>item. fst item = writer_guid) (ri_writers i) of
        None \<Rightarrow> map_option (\<lambda>(v, _). i\<lparr>ri_alive_writers := v\<rparr>)
                  (rv_emplace_back (writer_guid, ownership_strength) (ri_alive_writers i))
      | Some k \<Rightarrow> Some (i\<lparr>ri_alive_writers := (ri_alive_writers i)
                  \<lparr>rv_collection := (ri_writers i)[k := (writer_guid, ownership_strength)]\<rparr>\<rparr>))"

text \<open>Who owns the instance after a sample of a writer, and whether the sample is accepted.\<close>

definition accept_alive :: "GUID_t \<Rightarrow> u32 \<Rightarrow> WriterOwnership \<Rightarrow> (WriterOwnership \<times> bool) option" where
  "accept_alive w s owner =
     (if w = fst owner then Some ((fst owner, s), True)
      else if s > snd owner then Some ((w, s), True)
      else if s = snd owner \<and> w < fst owner then Some ((w, snd owner), True)
      else if s = u32_max then
        if fst owner = c_Guid_Unknown \<and> snd owner = u32_max then Some (owner, True) else None
      else if fst owner = c_Guid_Unknown then Some ((w, s), True)
      else Some (owner, False))"

text \<open>An accepted sample makes the instance alive again.\<close>

definition revive ::
    "DataReaderHistoryCounters \<Rightarrow> 'change DataReaderInstance \<Rightarrow> ('change DataReaderInstance \<times> DataReaderHistoryCounters) option" where
  "revive counters i =
     (case ri_instance_state i of
        NOT_ALIVE_DISPOSED_INSTANCE_STATE \<Rightarrow>
          Some (i\<lparr>ri_disposed_generation_count := ri_disposed_generation_count i + 1,
                  ri_alive_writers := rv_clear (ri_alive_writers i),
                  ri_view_state := NEW_VIEW_STATE, ri_instance_state := ALIVE_INSTANCE_STATE\<rparr>,
                counters_update instances_disposed_update instances_alive_update True (ri_view_state i) counters)
      | NOT_ALIVE_NO_WRITERS_INSTANCE_STATE \<Rightarrow>
          if rv_size (ri_alive_writers i) = 0
          then Some (i\<lparr>ri_no_writers_generation_count := ri_no_writers_generation_count i + 1,
                       ri_view_state := NEW_VIEW_STATE, ri_instance_state := ALIVE_INSTANCE_STATE\<rparr>,
                     counters_update instances_no_writers_update instances_alive_update True (ri_view_state i) counters)
          else None
      | ALIVE_INSTANCE_STATE \<Rightarrow> Some (i, counters))"

definition writer_alive ::
    "GUID_t \<Rightarrow> u32 \<Rightarrow> DataReaderHistoryCounters \<Rightarrow> 'change DataReaderInstance \<Rightarrow>
     ('change DataReaderInstance \<times> DataReaderHistoryCounters \<times> bool) option" where
  "writer_alive w s counters i =
     do {
       (owner, ret_val) \<leftarrow> accept_alive w s (ri_current_owner i);
       let i1 = i\<lparr>ri_current_owner := owner\<rparr>;
       (i2, counters2) \<leftarrow> (if ret_val then revive counters i1 else Some (i1, counters));
       i3 \<leftarrow> writer_set w s i2;
       Some (i3, counters2, ret_val) }"

definition writer_dispose ::
    "GUID_t \<Rightarrow> u32 \<Rightarrow> DataReaderHistoryCounters \<Rightarrow> 'change DataReaderInstance \<Rightarrow>
     ('change DataReaderInstance \<times> DataReaderHistoryCounters \<times> bool) option" where
  "writer_dispose w s counters i =
     (let owner = ri_current_owner i;
          accepted = (s \<ge> snd owner \<or> s = snd owner \<and> w < fst owner);
          i1 = (if accepted \<and> s \<noteq> u32_max then i\<lparr>ri_current_owner := (w, s)\<rparr> else i);
          ret_val = (accepted \<and> ri_instance_state i1 = ALIVE_INSTANCE_STATE);
          i2 = (if ret_val then i1\<lparr>ri_instance_state := NOT_ALIVE_DISPOSED_INSTANCE_STATE\<rparr> else i1);
          counters2 = (if ret_val
                       then counters_update instances_alive_update instances_disposed_update False (ri_view_state i1) counters
                       else counters)
      in do { i3 \<leftarrow> writer_set w s i2; Some (i3, counters2, ret_val) })"

definition writer_unregister ::
    "GUID_t \<Rightarrow> DataReaderHistoryCounters \<Rightarrow> 'change DataReaderInstance \<Rightarrow>
     'change DataReaderInstance \<times> DataReaderHistoryCounters \<times> bool" where
  "writer_unregister w counters i =
     (let (v, removed) = rv_remove_if False (\<lambda>item. fst item = w) (ri_alive_writers i) in
      if \<not> removed then (i, counters, False)
      else
        let i1 = i\<lparr>ri_alive_writers := v\<rparr>;
            i2 = (if w = fst (ri_current_owner i1)
                  then let j = i1\<lparr>ri_current_owner := (c_Guid_Unknown, 0)\<rparr>
                       in if ri_instance_state j = ALIVE_INSTANCE_STATE then update_owner j else j
                  else i1)
        in if rv_empty (ri_alive_writers i2) \<and> ri_instance_state i2 = ALIVE_INSTANCE_STATE
           then (i2\<lparr>ri_instance_state := NOT_ALIVE_NO_WRITERS_INSTANCE_STATE\<rparr>,
                 counters_update instances_alive_update instances_no_writers_update False (ri_view_state i2) counters, True)
           else (i2, counters, True))"

definition update_state ::
    "ChangeKind_t \<Rightarrow> GUID_t \<Rightarrow> u32 \<Rightarrow> DataReaderHistoryCounters \<Rightarrow> 'change DataReaderInstance \<Rightarrow>
     ('change DataReaderInstance \<times> DataReaderHistoryCounters \<times> bool) option" where
  "update_state change_kind w s counters i =
     do {
       (i1, counters1) \<leftarrow>
         (if ri_has_been_accounted i then Some (i, counters)
          else if ri_view_state i = NEW_VIEW_STATE \<and> ri_instance_state i = ALIVE_INSTANCE_STATE
          then Some (i\<lparr>ri_has_been_accounted := True\<rparr>,
                     counters\<lparr>instances_new := instances_new counters + 1, instances_alive := instances_alive counters + 1\<rparr>)
          else None);
       case change_kind of
         ALIVE \<Rightarrow> writer_alive w s counters1 i1
       | NOT_ALIVE_DISPOSED \<Rightarrow> writer_dispose w s counters1 i1
       | NOT_ALIVE_DISPOSED_UNREGISTERED \<Rightarrow>
           do { (i2, counters2, r1) \<leftarrow> writer_dispose w s counters1 i1;
                let (i3, counters3, r2) = writer_unregister w counters2 i2;
                Some (i3, counters3, r1 \<or> r2) }
       | NOT_ALIVE_UNREGISTERED \<Rightarrow> Some (writer_unregister w counters1 i1) }"

definition writer_removed ::
    "GUID_t \<Rightarrow> DataReaderHistoryCounters \<Rightarrow> 'change DataReaderInstance \<Rightarrow>
     'change DataReaderInstance \<times> DataReaderHistoryCounters \<times> bool" where
  "writer_removed w counters i =
     (if ri_has_been_accounted i then writer_unregister w counters i else (i, counters, False))"

definition deadline_missed :: "'change DataReaderInstance \<Rightarrow> 'change DataReaderInstance" where
  "deadline_missed i =
     (if c_Guid_Unknown \<noteq> fst (ri_current_owner i) then
        let (v, removed) = rv_remove_if False (\<lambda>item. fst item = fst (ri_current_owner i)) (ri_alive_writers i) in
        if removed then
          let i1 = i\<lparr>ri_alive_writers := v, ri_current_owner := (c_Guid_Unknown, 0)\<rparr>;
              i2 = (if rv_empty (ri_alive_writers i1) \<and> ri_instance_state i1 = ALIVE_INSTANCE_STATE
                    then i1\<lparr>ri_instance_state := NOT_ALIVE_NO_WRITERS_INSTANCE_STATE\<rparr> else i1)
          in if ri_instance_state i2 = ALIVE_INSTANCE_STATE then update_owner i2 else i2
        else i
      else i)"

definition writer_update_its_ownership_strength ::
    "GUID_t \<Rightarrow> u32 \<Rightarrow> 'change DataReaderInstance \<Rightarrow> 'change DataReaderInstance option" where
  "writer_update_its_ownership_strength w s i =
     (if w = fst (ri_current_owner i) then
        case find_if (\<lambda>item. fst item = w) (ri_writers i) of
          None \<Rightarrow> None
        | Some k \<Rightarrow>
            Some (update_owner (i\<lparr>ri_alive_writers := (ri_alive_writers i)\<lparr>rv_collection := (ri_writers i)[k := (w, s)]\<rparr>,
                                  ri_current_owner := (w, s)\<rparr>))
      else Some i)"

subsection \<open>The counters of the history\<close>

text \<open>What one instance adds to each counter.\<close>

definition counted :: "('change DataReaderInstance \<Rightarrow> bool) \<Rightarrow> 'change DataReaderInstance \<Rightarrow> u64" where
  "counted P i = (if ri_has_been_accounted i \<and> P i then 1 else 0)"

definition moves ::
    "'change DataReaderInstance \<Rightarrow> 'change DataReaderInstance \<Rightarrow> DataReaderHistoryCounters \<Rightarrow> DataReaderHistoryCounters \<Rightarrow> bool" where
  "moves i i' c c' \<longleftrightarrow>
     (let delta = (\<lambda>P. counted P i' - counted P i) in
      instances_new c' = instances_new c + delta (\<lambda>i. ri_view_state i = NEW_VIEW_STATE)
      \<and> instances_not_new c' = instances_not_new c + delta (\<lambda>i. ri_view_state i = NOT_NEW_VIEW_STATE)
      \<and> instances_alive c' = instances_alive c + delta (\<lambda>i. ri_instance_state i = ALIVE_INSTANCE_STATE)
      \<and> instances_disposed c' = instances_disposed c + delta (\<lambda>i. ri_instance_state i = NOT_ALIVE_DISPOSED_INSTANCE_STATE)
      \<and> instances_no_writers c' = instances_no_writers c + delta (\<lambda>i. ri_instance_state i = NOT_ALIVE_NO_WRITERS_INSTANCE_STATE)
      \<and> samples_read c' = samples_read c \<and> samples_unread c' = samples_unread c)"

lemma moves_refl: "moves i i c c"
  by (simp add: moves_def Let_def)

lemma moves_trans: "moves i1 i2 c1 c2 \<Longrightarrow> moves i2 i3 c2 c3 \<Longrightarrow> moves i1 i3 c1 c3"
  by (simp add: moves_def Let_def)

text \<open>The state that the counters see.\<close>

definition same_states :: "'change DataReaderInstance \<Rightarrow> 'change DataReaderInstance \<Rightarrow> bool" where
  "same_states i i' \<longleftrightarrow> ri_view_state i' = ri_view_state i \<and> ri_instance_state i' = ri_instance_state i
     \<and> ri_has_been_accounted i' = ri_has_been_accounted i"

lemma moves_same: "moves i i' c c' \<Longrightarrow> same_states i' i'' \<Longrightarrow> moves i i'' c c'"
  by (simp add: moves_def Let_def counted_def same_states_def)

lemma writer_set_same: "writer_set w s i = Some i' \<Longrightarrow> same_states i i' \<and> ri_current_owner i' = ri_current_owner i"
  by (auto simp: writer_set_def same_states_def split: option.splits)

lemma update_owner_same [simp]:
  "ri_view_state (update_owner i) = ri_view_state i" "ri_instance_state (update_owner i) = ri_instance_state i"
  "ri_has_been_accounted (update_owner i) = ri_has_been_accounted i" "ri_alive_writers (update_owner i) = ri_alive_writers i"
  by (simp_all add: update_owner_def)

lemma view_cases: "v \<noteq> NEW_VIEW_STATE \<longleftrightarrow> v = NOT_NEW_VIEW_STATE"
  by (cases v) simp_all

lemmas move_defs = moves_def Let_def counted_def counters_update_def view_cases

lemma moves_to_alive:
  assumes "ri_has_been_accounted i" and "ri_has_been_accounted i'"
    and "ri_instance_state i' = ALIVE_INSTANCE_STATE" and "ri_view_state i' = NEW_VIEW_STATE"
  shows "ri_instance_state i = NOT_ALIVE_DISPOSED_INSTANCE_STATE \<Longrightarrow>
      moves i i' c (counters_update instances_disposed_update instances_alive_update True (ri_view_state i) c)"
    and "ri_instance_state i = NOT_ALIVE_NO_WRITERS_INSTANCE_STATE \<Longrightarrow>
      moves i i' c (counters_update instances_no_writers_update instances_alive_update True (ri_view_state i) c)"
  using assms by (cases "ri_view_state i"; simp add: moves_def counted_def counters_update_def Let_def)+

lemma revive_moves:
  assumes "revive c i = Some (i', c')" and "ri_has_been_accounted i"
  shows "moves i i' c c'"
proof (cases "ri_instance_state i")
  case ALIVE_INSTANCE_STATE
  then show ?thesis using assms moves_refl by (simp add: revive_def)
next
  case NOT_ALIVE_DISPOSED_INSTANCE_STATE
  then show ?thesis using assms by (auto simp: revive_def intro!: moves_to_alive(1))
next
  case NOT_ALIVE_NO_WRITERS_INSTANCE_STATE
  then show ?thesis using assms by (auto simp: revive_def split: if_splits intro!: moves_to_alive(2))
qed

lemma writer_alive_moves:
  assumes run: "writer_alive w s c i = Some (i', c', r)" and acc: "ri_has_been_accounted i"
  shows "moves i i' c c'"
proof -
  obtain owner i2 where 2: "writer_set w s i2 = Some i'"
    and "revive c (i\<lparr>ri_current_owner := owner\<rparr>) = Some (i2, c') \<or> i2 = i\<lparr>ri_current_owner := owner\<rparr> \<and> c' = c"
    using run by (auto simp: writer_alive_def bind_eq_Some_conv Let_def split: if_splits)
  moreover have "moves i i2 c c'" if "moves (i\<lparr>ri_current_owner := owner\<rparr>) i2 c c'"
    using that by (simp add: moves_def Let_def counted_def)
  ultimately have "moves i i2 c c'" using revive_moves acc moves_refl by fastforce
  then show ?thesis using writer_set_same [OF 2] moves_same by blast
qed

lemma bind_Some_map: "(do { x \<leftarrow> m; Some (f x) }) = map_option f m"
  by (cases m) simp_all

text \<open>\<open>writer_dispose\<close> up to the entry of the writer in the list.\<close>

definition disposed ::
    "GUID_t \<Rightarrow> u32 \<Rightarrow> DataReaderHistoryCounters \<Rightarrow> 'change DataReaderInstance \<Rightarrow> 'change DataReaderInstance \<times> DataReaderHistoryCounters \<times> bool" where
  "disposed w s c i =
     (if s \<ge> snd (ri_current_owner i)
      then let i1 = (if s \<noteq> u32_max then i\<lparr>ri_current_owner := (w, s)\<rparr> else i)
           in if ri_instance_state i = ALIVE_INSTANCE_STATE
              then (i1\<lparr>ri_instance_state := NOT_ALIVE_DISPOSED_INSTANCE_STATE\<rparr>,
                    counters_update instances_alive_update instances_disposed_update False (ri_view_state i) c, True)
              else (i1, c, False)
      else (i, c, False))"

lemma accepted_iff: "(s \<ge> (x :: u32) \<or> s = x \<and> Q) \<longleftrightarrow> s \<ge> x"
  by auto

lemma writer_dispose_alt:
  "writer_dispose w s c i = (case disposed w s c i of (i2, c', r) \<Rightarrow> map_option (\<lambda>i'. (i', c', r)) (writer_set w s i2))"
  unfolding writer_dispose_def accepted_iff
  by (cases "s \<ge> snd (ri_current_owner i)"; cases "s = u32_max"; cases "ri_instance_state i = ALIVE_INSTANCE_STATE")
     (simp_all add: disposed_def Let_def bind_Some_map)

lemma moves_from_alive:
  assumes "ri_has_been_accounted i" and "ri_instance_state i = ALIVE_INSTANCE_STATE"
    and "ri_has_been_accounted i'" and "ri_view_state i' = ri_view_state i"
  shows "ri_instance_state i' = NOT_ALIVE_DISPOSED_INSTANCE_STATE \<Longrightarrow>
      moves i i' c (counters_update instances_alive_update instances_disposed_update False v c)"
    and "ri_instance_state i' = NOT_ALIVE_NO_WRITERS_INSTANCE_STATE \<Longrightarrow>
      moves i i' c (counters_update instances_alive_update instances_no_writers_update False v c)"
  using assms by (simp_all add: moves_def counted_def counters_update_def Let_def)

lemma moves_none: "same_states i i' \<Longrightarrow> moves i i' c c"
  using moves_same [OF moves_refl] .

lemma disposed_moves: "disposed w s c i = (i', c', r) \<Longrightarrow> ri_has_been_accounted i \<Longrightarrow> moves i i' c c'"
  by (auto simp: disposed_def Let_def same_states_def split: if_splits intro!: moves_from_alive(1) moves_none)

lemma writer_dispose_moves:
  "writer_dispose w s c i = Some (i', c', r) \<Longrightarrow> ri_has_been_accounted i \<Longrightarrow> moves i i' c c'"
  using disposed_moves [of w s c i] writer_set_same moves_same
  by (fastforce simp: writer_dispose_alt split: prod.splits)

text \<open>\<open>writer_unregister\<close> up to the state.\<close>

definition without_writer :: "GUID_t \<Rightarrow> 'change DataReaderInstance \<Rightarrow> 'change DataReaderInstance" where
  "without_writer w i =
     (let i1 = i\<lparr>ri_alive_writers := fst (rv_remove_if False (\<lambda>item. fst item = w) (ri_alive_writers i))\<rparr> in
      if w = fst (ri_current_owner i)
      then let j = i1\<lparr>ri_current_owner := (c_Guid_Unknown, 0)\<rparr>
           in if ri_instance_state i = ALIVE_INSTANCE_STATE then update_owner j else j
      else i1)"

lemma without_writer_same: "same_states i (without_writer w i)"
  by (simp add: without_writer_def same_states_def Let_def)

definition close_if_empty ::
    "DataReaderHistoryCounters \<Rightarrow> 'change DataReaderInstance \<Rightarrow> 'change DataReaderInstance \<times> DataReaderHistoryCounters" where
  "close_if_empty c i =
     (if rv_empty (ri_alive_writers i) \<and> ri_instance_state i = ALIVE_INSTANCE_STATE
      then (i\<lparr>ri_instance_state := NOT_ALIVE_NO_WRITERS_INSTANCE_STATE\<rparr>,
            counters_update instances_alive_update instances_no_writers_update False (ri_view_state i) c)
      else (i, c))"

lemma writer_unregister_alt:
  "writer_unregister w c i =
     (if snd (rv_remove_if False (\<lambda>item. fst item = w) (ri_alive_writers i))
      then (fst (close_if_empty c (without_writer w i)), snd (close_if_empty c (without_writer w i)), True)
      else (i, c, False))"
  by (simp add: writer_unregister_def close_if_empty_def without_writer_def Let_def split: prod.split)

lemma close_if_empty_moves: "close_if_empty c i = (i', c') \<Longrightarrow> ri_has_been_accounted i \<Longrightarrow> moves i i' c c'"
  by (auto simp: close_if_empty_def same_states_def split: if_splits intro!: moves_from_alive(2) moves_none)

lemma writer_unregister_moves:
  assumes "writer_unregister w c i = (i', c', r)" and "ri_has_been_accounted i"
  shows "moves i i' c c'"
proof -
  have "ri_has_been_accounted (without_writer w i)" using without_writer_same [of i w] assms(2) by (simp add: same_states_def)
  then have "moves (without_writer w i) (fst (close_if_empty c (without_writer w i))) c (snd (close_if_empty c (without_writer w i)))"
    by (rule close_if_empty_moves [OF prod.collapse [symmetric]])
  then have "moves i (fst (close_if_empty c (without_writer w i))) c (snd (close_if_empty c (without_writer w i)))"
    using moves_trans [OF moves_same [OF moves_refl without_writer_same]] by blast
  then show ?thesis using assms(1) moves_refl by (auto simp: writer_unregister_alt split: if_splits)
qed

lemma moves_account:
  assumes "\<not> ri_has_been_accounted i" "ri_view_state i = NEW_VIEW_STATE" "ri_instance_state i = ALIVE_INSTANCE_STATE"
  shows "moves i (i\<lparr>ri_has_been_accounted := True\<rparr>) c
    (c\<lparr>instances_new := instances_new c + 1, instances_alive := instances_alive c + 1\<rparr>)"
  using assms by (simp add: moves_def counted_def Let_def)

lemma update_state_moves:
  assumes "update_state k w s c i = Some (i', c', r)"
  shows "moves i i' c c'"
proof -
  obtain i1 c1 where 1: "moves i i1 c c1" "ri_has_been_accounted i1" and
    run: "(case k of ALIVE \<Rightarrow> writer_alive w s c1 i1 | NOT_ALIVE_DISPOSED \<Rightarrow> writer_dispose w s c1 i1
     | NOT_ALIVE_DISPOSED_UNREGISTERED \<Rightarrow>
         do { (i2, c2, r1) \<leftarrow> writer_dispose w s c1 i1; let (i3, c3, r2) = writer_unregister w c2 i2; Some (i3, c3, r1 \<or> r2) }
     | NOT_ALIVE_UNREGISTERED \<Rightarrow> Some (writer_unregister w c1 i1)) = Some (i', c', r)"
    using assms moves_account [of i c] moves_refl [of i c]
    by (cases "ri_has_been_accounted i") (fastforce simp: update_state_def split: if_splits)+
  have "moves i1 i' c1 c'"
  proof (cases k)
    case NOT_ALIVE_DISPOSED_UNREGISTERED
    then obtain i2 c2 r1 where d1: "writer_dispose w s c1 i1 = Some (i2, c2, r1)"
      and last: "(let (i3, c3, r2) = writer_unregister w c2 i2 in Some (i3, c3, r1 \<or> r2)) = Some (i', c', r)"
      using run by (auto simp only: bind_eq_Some_conv prod.case ChangeKind_t.case split_paired_Ex)
    obtain i3 c3 r2 where u: "writer_unregister w c2 i2 = (i3, c3, r2)" by (cases "writer_unregister w c2 i2")
    then have d: "writer_dispose w s c1 i1 = Some (i2, c2, r1)" "writer_unregister w c2 i2 = (i', c', r2)"
      using d1 last by simp_all
    have "ri_has_been_accounted i2"
      using d(1) 1(2) writer_set_same by (fastforce simp: writer_dispose_alt disposed_def Let_def same_states_def split: if_splits)
    then show ?thesis using moves_trans writer_dispose_moves [OF d(1) 1(2)] writer_unregister_moves [OF d(2)] by blast
  qed (use run 1(2) writer_alive_moves writer_dispose_moves writer_unregister_moves in fastforce)+
  then show ?thesis using moves_trans 1(1) by blast
qed

text \<open>
  The counters of a history agree with its instances when each counter is the number of instances in that state.
\<close>

definition counters_exact :: "DataReaderHistoryCounters \<Rightarrow> 'change DataReaderInstance list \<Rightarrow> bool" where
  "counters_exact c is \<longleftrightarrow>
     (let total = (\<lambda>P. \<Sum>i\<leftarrow>is. counted P i) in
      instances_new c = total (\<lambda>i. ri_view_state i = NEW_VIEW_STATE)
      \<and> instances_not_new c = total (\<lambda>i. ri_view_state i = NOT_NEW_VIEW_STATE)
      \<and> instances_alive c = total (\<lambda>i. ri_instance_state i = ALIVE_INSTANCE_STATE)
      \<and> instances_disposed c = total (\<lambda>i. ri_instance_state i = NOT_ALIVE_DISPOSED_INSTANCE_STATE)
      \<and> instances_no_writers c = total (\<lambda>i. ri_instance_state i = NOT_ALIVE_NO_WRITERS_INSTANCE_STATE))"

lemma sum_list_word_update:
  "k < length xs \<Longrightarrow> (\<Sum>i\<leftarrow>xs[k := x]. f i) = (\<Sum>i\<leftarrow>xs. f i) + (f x - f (xs ! k) :: 'a :: ab_group_add)"
  by (induction xs arbitrary: k) (auto simp: algebra_simps split: nat.split)

lemma moves_exact:
  "moves (is ! k) i' c c' \<Longrightarrow> k < length is \<Longrightarrow> counters_exact c is \<Longrightarrow> counters_exact c' (is[k := i'])"
  by (simp add: counters_exact_def moves_def Let_def sum_list_word_update)

text \<open>
  C35. The history counters stay exact.  If each counter of a reader's history is the number of its instances in that
  view or instance state, it still is after any notification of any kind about any of them and after the removal of a
  writer.
\<close>

theorem instance_counters_stay_exact:
  assumes "counters_exact c is" and "k < length is"
  shows "(\<forall>i' c' r. update_state kind w s c (is ! k) = Some (i', c', r) \<longrightarrow> counters_exact c' (is[k := i']))
    \<and> (\<forall>i' c' r. writer_removed w c (is ! k) = (i', c', r) \<longrightarrow> counters_exact c' (is[k := i']))"
proof (intro conjI allI impI)
  fix i' c' r assume "update_state kind w s c (is ! k) = Some (i', c', r)"
  then show "counters_exact c' (is[k := i'])" using moves_exact [OF update_state_moves] assms by blast
next
  fix i' c' r assume r: "writer_removed w c (is ! k) = (i', c', r)"
  then have "moves (is ! k) i' c c'"
    using writer_unregister_moves [of w c "is ! k"] moves_refl by (auto simp: writer_removed_def split: if_splits)
  then show "counters_exact c' (is[k := i'])" using moves_exact assms by blast
qed

theorem instance_counters_stay_exact_witness:
  "\<exists>i' c' r. update_state ALIVE (GUID_of_u32 GuidPrefix_new 1) 5 DataReaderHistoryCounters_new
      (DataReaderInstance_new ResourceLimitedContainerConfig_new ResourceLimitedContainerConfig_new :: unit DataReaderInstance)
    = Some (i', c', r) \<and> counters_exact c' [i']"
proof -
  let ?i = "DataReaderInstance_new ResourceLimitedContainerConfig_new ResourceLimitedContainerConfig_new :: unit DataReaderInstance"
  have "counters_exact DataReaderHistoryCounters_new [?i]"
    by (simp add: counters_exact_def counted_def DataReaderHistoryCounters_new_def DataReaderInstance_new_def)
  from instance_counters_stay_exact [OF this, of 0 ALIVE "GUID_of_u32 GuidPrefix_new 1" 5]
  have "\<forall>i' c' r. update_state ALIVE (GUID_of_u32 GuidPrefix_new 1) 5 DataReaderHistoryCounters_new ?i = Some (i', c', r)
      \<longrightarrow> counters_exact c' [i']" by simp
  moreover have "update_state ALIVE (GUID_of_u32 GuidPrefix_new 1) 5 DataReaderHistoryCounters_new ?i \<noteq> None"
    by code_simp
  ultimately show ?thesis by auto
qed

end
