(* ===== verification/Instance_Ownership.thy ===== *)
theory Instance_Ownership
  imports Reader_Instance
begin

text \<open>
  Exclusive ownership of an instance.  The specification is a set of live writers with their strengths, an owner and
  the state of the instance; the operations of \<open>Reader_Instance\<close> keep it, as an inductive relation over the
  notifications a reader gets.  At the end, the sequences of notifications that leave the specification.
\<close>

subsection \<open>Ranks\<close>

definition outranks :: "WriterOwnership \<Rightarrow> WriterOwnership \<Rightarrow> bool" where
  "outranks a b \<longleftrightarrow> snd a > snd b \<or> snd a = snd b \<and> fst a < fst b"

lemma outranks_trans: "outranks a b \<Longrightarrow> outranks b c \<Longrightarrow> outranks a c"
  by (auto simp: outranks_def)

lemma outranks_total: "\<not> outranks a b \<Longrightarrow> outranks b a \<or> a = b"
  by (cases a; cases b) (auto simp: outranks_def)

lemma outranks_irrefl: "\<not> outranks a a"
  by (simp add: outranks_def)

text \<open>The loop of \<open>update_owner\<close> finds the best writer.\<close>

lemma UpdateOwner_best:
  "(UpdateOwner ws o' = o' \<or> UpdateOwner ws o' \<in> set ws \<and> outranks (UpdateOwner ws o') o')
   \<and> (\<forall>x \<in> set ws. \<not> outranks x (UpdateOwner ws o'))"
proof (induction ws arbitrary: o')
  case (Cons w ws)
  let ?o = "if outranks w o' then w else o'"
  have step: "UpdateOwner (w # ws) o' = UpdateOwner ws ?o" by (simp add: outranks_def)
  obtain r where r: "UpdateOwner ws ?o = r" by blast
  have ih: "r = ?o \<or> r \<in> set ws \<and> outranks r ?o" "\<forall>x \<in> set ws. \<not> outranks x r" using Cons.IH [of ?o] r by simp_all
  have self: "\<not> outranks w r"
  proof
    assume w: "outranks w r"
    show False using ih(1) w outranks_trans [OF w, of ?o] outranks_irrefl [of w] by (cases "outranks w o'") auto
  qed
  have "r = o' \<or> r \<in> set (w # ws) \<and> outranks r o'"
  proof (cases "outranks w o'")
    case True
    then show ?thesis using ih(1) outranks_trans [of r w o'] by auto
  next
    case False
    then show ?thesis using ih(1) by auto
  qed
  then show ?case unfolding step r using ih(2) self by simp
qed simp

subsection \<open>The specification\<close>

text \<open>
  No live writer is stronger than the owner, and none of the same positive strength has a lesser GUID.  Strength zero,
  the default, is exempt: \<open>update_owner\<close> starts from an unknown owner of strength zero, so that writers of strength zero
  do not inherit an instance, and the first of them to write an instance without owner takes it whatever its GUID.
\<close>

definition ranked :: "WriterOwnership set \<Rightarrow> WriterOwnership \<Rightarrow> bool" where
  "ranked W owner \<longleftrightarrow>
     (\<forall>x \<in> W. snd x \<le> snd owner \<and> (snd x = snd owner \<and> 0 < snd owner \<longrightarrow> fst owner \<le> fst x))"

definition exclusive :: "WriterOwnership set \<Rightarrow> WriterOwnership \<Rightarrow> InstanceStateKind \<Rightarrow> bool" where
  "exclusive W owner st \<longleftrightarrow>
     (\<forall>x \<in> W. fst x \<noteq> c_Guid_Unknown \<and> snd x \<noteq> u32_max)
     \<and> (st = NOT_ALIVE_NO_WRITERS_INSTANCE_STATE \<longrightarrow> W = {})
     \<and> (fst owner \<noteq> c_Guid_Unknown \<longrightarrow> owner \<in> W)
     \<and> (fst owner = c_Guid_Unknown \<longrightarrow>
          snd owner = 0 \<or> snd owner = u32_max \<and> W = {} \<and> st \<noteq> NOT_ALIVE_DISPOSED_INSTANCE_STATE)
     \<and> (st = ALIVE_INSTANCE_STATE \<longrightarrow> ranked W owner)"

definition set_key :: "GUID_t \<Rightarrow> u32 \<Rightarrow> WriterOwnership set \<Rightarrow> WriterOwnership set" where
  "set_key w s W = insert (w, s) {x \<in> W. fst x \<noteq> w}"

definition drop_key :: "GUID_t \<Rightarrow> WriterOwnership set \<Rightarrow> WriterOwnership set" where
  "drop_key w W = {x \<in> W. fst x \<noteq> w}"

lemma u32_max_top: "s \<le> u32_max" "\<not> u32_max < s"
  by (simp_all add: u32_max_def)

text \<open>Whose sample is accepted: anyone's while there is no owner, else the owner's and that of a writer above it.\<close>

definition takes_over :: "WriterOwnership \<Rightarrow> WriterOwnership \<Rightarrow> bool" where
  "takes_over writer owner \<longleftrightarrow> fst owner = c_Guid_Unknown \<or> fst writer = fst owner \<or> outranks writer owner"

lemma accept_alive_cases:
  assumes "exclusive W owner st" and "w \<noteq> c_Guid_Unknown" and "s \<noteq> u32_max"
  shows "accept_alive w s owner = Some ((w, s), True) \<and> takes_over (w, s) owner
    \<or> accept_alive w s owner = Some (owner, False) \<and> w \<noteq> fst owner \<and> owner \<in> W \<and> \<not> outranks (w, s) owner
      \<and> \<not> takes_over (w, s) owner"
proof (cases "fst owner = c_Guid_Unknown")
  case True
  then show ?thesis using assms by (auto simp: accept_alive_def exclusive_def takes_over_def)
next
  case False
  then have "owner \<in> W" using assms(1) by (simp add: exclusive_def)
  then show ?thesis using False assms(3) by (auto simp: accept_alive_def outranks_def takes_over_def)
qed

lemma exclusive_accepted:
  assumes "exclusive W owner st" and "w \<noteq> c_Guid_Unknown" and "s \<noteq> u32_max" and "w = fst owner \<Longrightarrow> s \<ge> snd owner"
    and "accept_alive w s owner = Some ((w, s), True)" and st: "st = ALIVE_INSTANCE_STATE \<or> W = {}"
  shows "exclusive (set_key w s W) (w, s) ALIVE_INSTANCE_STATE"
proof -
  have "ranked (set_key w s W) (w, s)"
  proof (cases "W = {}")
    case False
    then have r: "ranked W owner" using st assms(1) by (simp add: exclusive_def)
    have zero: "snd owner = 0" if "fst owner = c_Guid_Unknown" using that False assms(1) by (simp add: exclusive_def)
    have "w = fst owner \<and> s \<ge> snd owner \<or> s > snd owner \<or> s = snd owner \<and> w < fst owner \<or> fst owner = c_Guid_Unknown"
      using assms(4,5) by (auto simp: accept_alive_def split: if_splits)
    then show ?thesis using r zero by (fastforce simp: ranked_def set_key_def)
  qed (simp add: ranked_def set_key_def)
  then show ?thesis using assms(1-3) by (auto simp: exclusive_def set_key_def)
qed

lemma exclusive_revived:
  "w \<noteq> c_Guid_Unknown \<Longrightarrow> s \<noteq> u32_max \<Longrightarrow> exclusive (set_key w s {}) (w, s) ALIVE_INSTANCE_STATE"
  by (simp add: exclusive_def ranked_def set_key_def)

lemma exclusive_rejected:
  assumes "exclusive W owner st" and "w \<noteq> c_Guid_Unknown" and "s \<noteq> u32_max"
    and "w \<noteq> fst owner" and "owner \<in> W" and "\<not> outranks (w, s) owner"
  shows "exclusive (set_key w s W) owner st"
proof -
  have "s \<le> snd owner \<and> (s = snd owner \<longrightarrow> fst owner \<le> w)" using assms(6) by (auto simp: outranks_def)
  then show ?thesis using assms(1-5) by (auto simp: exclusive_def ranked_def set_key_def)
qed

lemma exclusive_disposed:
  assumes "exclusive W owner st" and "w \<noteq> c_Guid_Unknown" and "s \<noteq> u32_max"
  shows "exclusive (set_key w s W) (w, s) NOT_ALIVE_DISPOSED_INSTANCE_STATE"
  using assms by (auto simp: exclusive_def set_key_def)

lemma exclusive_not_disposed:
  assumes "exclusive W owner st" and "w \<noteq> c_Guid_Unknown" and "s \<noteq> u32_max" and "w = fst owner \<Longrightarrow> s \<ge> snd owner"
    and "\<not> s \<ge> snd owner" and "snd owner \<noteq> u32_max"
  shows "exclusive (set_key w s W) owner st"
proof (rule exclusive_rejected [OF assms(1-3)])
  show "w \<noteq> fst owner" using assms(4,5) by blast
  show "owner \<in> W" using assms(1,5,6) by (auto simp: exclusive_def)
  show "\<not> outranks (w, s) owner" using assms(5) by (auto simp: outranks_def)
qed

text \<open>After the loss of a writer: \<open>next\<close> is what \<open>update_owner\<close> finds.\<close>

lemma exclusive_dropped:
  assumes "exclusive W owner st" and w: "w \<in> fst ` W"
    and best: "next = (c_Guid_Unknown, 0) \<or> next \<in> drop_key w W" "\<forall>x \<in> drop_key w W. \<not> outranks x next"
    and owner': "owner' = (if w = fst owner then if st = ALIVE_INSTANCE_STATE then next else (c_Guid_Unknown, 0) else owner)"
  shows "if drop_key w W = {} \<and> st = ALIVE_INSTANCE_STATE
      then exclusive (drop_key w W) owner' NOT_ALIVE_NO_WRITERS_INSTANCE_STATE else exclusive (drop_key w W) owner' st"
proof -
  have "ranked (drop_key w W) next" using best(2) by (auto simp: ranked_def outranks_def not_less)
  moreover have "W \<noteq> {}" using w by auto
  moreover have "fst next \<noteq> c_Guid_Unknown \<longrightarrow> next \<in> drop_key w W" "fst next = c_Guid_Unknown \<longrightarrow> snd next = 0"
    using best(1) assms(1) by (auto simp: drop_key_def exclusive_def)
  ultimately show ?thesis
    using assms(1) by (auto simp: exclusive_def owner' drop_key_def ranked_def)
qed

subsection \<open>The list of writers\<close>

definition tracked :: "'change DataReaderInstance \<Rightarrow> bool" where
  "tracked i \<longleftrightarrow> rv_ok (ri_alive_writers i) \<and> distinct (map fst (ri_writers i))"

definition known_or_room :: "GUID_t \<Rightarrow> 'change DataReaderInstance \<Rightarrow> bool" where
  "known_or_room w i \<longleftrightarrow> w \<in> fst ` set (ri_writers i) \<or> length (ri_writers i) < rv_limit (ri_alive_writers i)"

text \<open>Everything but the list of writers stays.\<close>

definition same_rest :: "'change DataReaderInstance \<Rightarrow> 'change DataReaderInstance \<Rightarrow> bool" where
  "same_rest i i' \<longleftrightarrow> same_states i i' \<and> ri_current_owner i' = ri_current_owner i
     \<and> rv_limit (ri_alive_writers i') = rv_limit (ri_alive_writers i)"

lemma set_list_update_key:
  assumes "find_if (\<lambda>x. fst x = w) ws = Some k" and "distinct (map fst ws)"
  shows "set (ws[k := (w, s)]) = set_key w s (set ws) \<and> map fst (ws[k := (w, s)]) = map fst ws"
proof -
  note k = find_if_SomeD [OF assms(1)]
  have "x = ws ! k" if "x \<in> set ws" "fst x = w" for x
    using k assms(2) that by (metis distinct_map inj_onD nth_mem)
  then have "{x \<in> set ws. fst x \<noteq> w} = set ws - {ws ! k}" using k by auto
  moreover have "set (ws[k := (w, s)]) = insert (w, s) (set ws - {ws ! k})"
    using k assms(2) by (intro set_update_distinct) (simp_all add: distinct_map)
  ultimately have "set (ws[k := (w, s)]) = set_key w s (set ws)" by (simp add: set_key_def)
  moreover have "map fst (ws[k := (w, s)]) = map fst ws"
    using k by (simp add: map_update list_update_same_conv)
  ultimately show ?thesis by blast
qed

lemma writer_set_spec:
  assumes "tracked i" and "known_or_room w i"
  shows "\<exists>i'. writer_set w s i = Some i' \<and> tracked i' \<and> same_rest i i' \<and> set (ri_writers i') = set_key w s (set (ri_writers i))"
proof (cases "find_if (\<lambda>x. fst x = w) (ri_writers i)")
  case None
  then have absent: "\<forall>x \<in> set (ri_writers i). fst x \<noteq> w" by (simp add: find_if_None_iff)
  then have "length (ri_writers i) < rv_limit (ri_alive_writers i)" using assms(2) by (auto simp: known_or_room_def)
  with keeping.push_spec [of "ri_alive_writers i" "(w, s)"] assms(1) obtain v where
    "rv_emplace_back (w, s) (ri_alive_writers i) = Some (v, True)" "rv_ok v" "rv_limit v = rv_limit (ri_alive_writers i)"
    "rv_collection v = ri_writers i @ [(w, s)]"
    by (auto simp: tracked_def ri_writers_def)
  then show ?thesis using None absent assms(1)
    by (auto simp: writer_set_def tracked_def same_rest_def same_states_def ri_writers_def set_key_def)
next
  case (Some k)
  have d: "distinct (map fst (ri_writers i))" using assms(1) by (simp add: tracked_def)
  note u = set_list_update_key [OF Some d, of s]
  then show ?thesis using Some assms(1)
    by (auto simp: writer_set_def tracked_def same_rest_def same_states_def ri_writers_def rv_ok_def rv_limit_def)
qed

lemma writers_removed:
  assumes "tracked i"
  shows "\<exists>v. rv_remove_if False (\<lambda>x. fst x = w) (ri_alive_writers i) = (v, w \<in> fst ` set (ri_writers i))
    \<and> tracked (i\<lparr>ri_alive_writers := v\<rparr>) \<and> rv_limit v = rv_limit (ri_alive_writers i)
    \<and> set (rv_collection v) = drop_key w (set (ri_writers i))"
  using swapping.remove_key [of "ri_alive_writers i" fst w] assms by (auto simp: tracked_def ri_writers_def drop_key_def)

subsection \<open>Notifications\<close>

text \<open>The instance keeps the specification, and nothing is known of it before the first notification.\<close>

definition owned :: "'change DataReaderInstance \<Rightarrow> bool" where
  "owned i \<longleftrightarrow> tracked i \<and> exclusive (set (ri_writers i)) (ri_current_owner i) (ri_instance_state i)
     \<and> (\<not> ri_has_been_accounted i \<longrightarrow>
          ri_view_state i = NEW_VIEW_STATE \<and> ri_instance_state i = ALIVE_INSTANCE_STATE \<and> ri_writers i = [])"

lemma ownedI:
  assumes "tracked i'" "set (ri_writers i') = W" "exclusive W (ri_current_owner i') (ri_instance_state i')" "ri_has_been_accounted i'"
  shows "owned i'"
  using assms by (simp add: owned_def)

lemma writer_alive_owned:
  assumes i: "owned i" and acc: "ri_has_been_accounted i" and room: "known_or_room w i"
    and w: "w \<noteq> c_Guid_Unknown" "s \<noteq> u32_max" "w = fst (ri_current_owner i) \<Longrightarrow> s \<ge> snd (ri_current_owner i)"
  shows "\<exists>i' c' r. writer_alive w s c i = Some (i', c', r) \<and> owned i' \<and> ri_has_been_accounted i'
    \<and> rv_limit (ri_alive_writers i') = rv_limit (ri_alive_writers i)
    \<and> (r \<longrightarrow> ri_current_owner i' = (w, s) \<and> ri_instance_state i' = ALIVE_INSTANCE_STATE)
    \<and> (r \<longleftrightarrow> takes_over (w, s) (ri_current_owner i))"
proof -
  let ?o = "ri_current_owner i" and ?W = "set (ri_writers i)"
  have ex: "exclusive ?W ?o (ri_instance_state i)" and tr: "tracked i" using i by (simp_all add: owned_def)
  consider (yes) "accept_alive w s ?o = Some ((w, s), True)" "takes_over (w, s) ?o"
    | (no) "accept_alive w s ?o = Some (?o, False)" "w \<noteq> fst ?o" "?o \<in> ?W" "\<not> outranks (w, s) ?o"
        "\<not> takes_over (w, s) ?o"
    using accept_alive_cases [OF ex w(1,2)] by blast
  then show ?thesis
  proof cases
    case no
    obtain i' where i': "writer_set w s i = Some i'" "tracked i'" "same_rest i i'" "set (ri_writers i') = set_key w s ?W"
      using writer_set_spec [OF tr room] by blast
    have "owned i'"
      using i' exclusive_rejected [OF ex w(1,2) no(2-4)] acc by (intro ownedI) (auto simp: same_rest_def same_states_def)
    moreover have "writer_alive w s c i = Some (i', c, False)" using no(1) i'(1) by (simp add: writer_alive_def)
    ultimately show ?thesis using no(5) i'(3) acc
      by (intro exI [of _ i'] exI [of _ c] exI [of _ False]) (simp add: same_rest_def same_states_def)
  next
    case yes
    let ?i1 = "i\<lparr>ri_current_owner := (w, s)\<rparr>"
    have "rv_size (ri_alive_writers i) = 0" if "ri_instance_state i = NOT_ALIVE_NO_WRITERS_INSTANCE_STATE"
      using ex that by (simp add: exclusive_def rv_size_def vec_size_def ri_writers_def)
    then obtain i2 c2 where 2: "revive c ?i1 = Some (i2, c2)" by (cases "ri_instance_state i") (auto simp: revive_def)
    have i2: "ri_current_owner i2 = (w, s)" "ri_instance_state i2 = ALIVE_INSTANCE_STATE" "ri_has_been_accounted i2"
      "rv_limit (ri_alive_writers i2) = rv_limit (ri_alive_writers i)"
      "ri_writers i2 = (if ri_instance_state i = NOT_ALIVE_DISPOSED_INSTANCE_STATE then [] else ri_writers i)" "tracked i2"
      using 2 acc tr rv_cleared [of "ri_alive_writers i"]
      by (auto simp: revive_def ri_writers_def tracked_def rv_clear_def rv_limit_def split: InstanceStateKind.splits if_splits)
    have "0 < rv_limit (ri_alive_writers i)"
      using room tr rv_bounded [of "ri_alive_writers i"] 
      by (cases "rv_collection (ri_alive_writers i)") (auto simp: known_or_room_def tracked_def ri_writers_def)
    then have "known_or_room w i2" using room i2(4,5) by (auto simp: known_or_room_def)
    then obtain i' where i': "writer_set w s i2 = Some i'" "tracked i'" "same_rest i2 i'"
        "set (ri_writers i') = set_key w s (set (ri_writers i2))"
      using writer_set_spec [OF i2(6)] by blast
    have "exclusive (set (ri_writers i')) (w, s) ALIVE_INSTANCE_STATE"
    proof (cases "ri_instance_state i = NOT_ALIVE_DISPOSED_INSTANCE_STATE")
      case True
      then show ?thesis using i'(4) i2(5) exclusive_revived [OF w(1,2)] by simp
    next
      case False
      then have "ri_instance_state i = ALIVE_INSTANCE_STATE \<or> ?W = {}"
        using ex by (cases "ri_instance_state i") (auto simp: exclusive_def)
      then show ?thesis using i'(4) i2(5) False exclusive_accepted [OF ex w yes(1)] by simp
    qed
    then have "owned i'" using i' i2 by (intro ownedI) (auto simp: same_rest_def same_states_def)
    moreover have "writer_alive w s c i = Some (i', c2, True)" using yes(1) 2 i'(1) by (simp add: writer_alive_def Let_def)
    ultimately show ?thesis using i' i2 yes(2)
      by (intro exI [of _ i'] exI [of _ c2] exI [of _ True]) (simp add: same_rest_def same_states_def)
  qed
qed

lemma writer_dispose_owned:
  assumes i: "owned i" and acc: "ri_has_been_accounted i" and room: "known_or_room w i"
    and w: "w \<noteq> c_Guid_Unknown" "s \<noteq> u32_max" "w = fst (ri_current_owner i) \<Longrightarrow> s \<ge> snd (ri_current_owner i)"
    and st: "ri_instance_state i \<noteq> NOT_ALIVE_NO_WRITERS_INSTANCE_STATE" "snd (ri_current_owner i) \<noteq> u32_max"
  shows "\<exists>i' c' r. writer_dispose w s c i = Some (i', c', r) \<and> owned i' \<and> ri_has_been_accounted i'
    \<and> rv_limit (ri_alive_writers i') = rv_limit (ri_alive_writers i)"
proof -
  let ?o = "ri_current_owner i" and ?W = "set (ri_writers i)"
  have ex: "exclusive ?W ?o (ri_instance_state i)" and tr: "tracked i" using i by (simp_all add: owned_def)
  obtain i2 c2 r where d: "disposed w s c i = (i2, c2, r)" by (cases "disposed w s c i")
  have fields: "ri_writers i2 = ri_writers i" "ri_has_been_accounted i2" "ri_alive_writers i2 = ri_alive_writers i"
    using d acc by (auto simp: disposed_def Let_def ri_writers_def split: if_splits)
  then have "tracked i2" "known_or_room w i2" using tr room by (simp_all add: tracked_def known_or_room_def)
  then obtain i' where i': "writer_set w s i2 = Some i'" "tracked i'" "same_rest i2 i'"
      "set (ri_writers i') = set_key w s ?W"
    using writer_set_spec [of i2 w s] fields(1) by auto
  have "exclusive (set_key w s ?W) (ri_current_owner i2) (ri_instance_state i2)"
  proof (cases "s \<ge> snd ?o")
    case True
    then have "ri_current_owner i2 = (w, s)" "ri_instance_state i2 = NOT_ALIVE_DISPOSED_INSTANCE_STATE"
      using d w(2) st(1) by (cases "ri_instance_state i"; auto simp: disposed_def Let_def)+
    then show ?thesis using exclusive_disposed [OF ex w(1,2)] by simp
  next
    case False
    then have "i2 = i" using d by (simp add: disposed_def)
    then show ?thesis using exclusive_not_disposed [OF ex w False st(2)] by simp
  qed
  then have "owned i'" using i' fields by (intro ownedI) (auto simp: same_rest_def same_states_def)
  then show ?thesis using d i' fields by (auto simp: writer_dispose_alt same_rest_def same_states_def)
qed

text \<open>The loss of a writer, by notification or because it missed a deadline.\<close>

lemma without_writer_owned:
  assumes i: "owned i" and acc: "ri_has_been_accounted i" and w: "w \<in> fst ` set (ri_writers i)"
    and i': "i' = fst (close_if_empty c (without_writer w i))"
  shows "owned i' \<and> ri_has_been_accounted i' \<and> rv_limit (ri_alive_writers i') = rv_limit (ri_alive_writers i)"
proof -
  let ?W = "set (ri_writers i)" and ?o = "ri_current_owner i" and ?st = "ri_instance_state i"
  have ex: "exclusive ?W ?o ?st" and tr: "tracked i" using i by (simp_all add: owned_def)
  obtain v where v: "rv_remove_if False (\<lambda>x. fst x = w) (ri_alive_writers i) = (v, True)"
      "tracked (i\<lparr>ri_alive_writers := v\<rparr>)" "rv_limit v = rv_limit (ri_alive_writers i)"
      "set (rv_collection v) = drop_key w ?W"
    using writers_removed [OF tr, of w] w by auto
  let ?next = "UpdateOwner (rv_collection v) (c_Guid_Unknown, 0)"
  let ?o' = "if w = fst ?o then if ?st = ALIVE_INSTANCE_STATE then ?next else (c_Guid_Unknown, 0) else ?o"
  have best: "?next = (c_Guid_Unknown, 0) \<or> ?next \<in> drop_key w ?W" "\<forall>x \<in> drop_key w ?W. \<not> outranks x ?next"
    using UpdateOwner_best [of "rv_collection v" "(c_Guid_Unknown, 0)"] v(4) by auto
  note spec = exclusive_dropped [OF ex w best refl]
  have j: "without_writer w i = i\<lparr>ri_alive_writers := v, ri_current_owner := ?o'\<rparr>"
    using v(1) by (auto simp: without_writer_def Let_def update_owner_def ri_writers_def)
  have empty: "rv_empty v \<longleftrightarrow> drop_key w ?W = {}" using v(4) by (auto simp: rv_empty_def)
  let ?last = "drop_key w ?W = {} \<and> ?st = ALIVE_INSTANCE_STATE"
  have fields: "tracked i'" "ri_writers i' = rv_collection v" "ri_has_been_accounted i'"
      "rv_limit (ri_alive_writers i') = rv_limit (ri_alive_writers i)"
    and o': "ri_current_owner i' = ?o'"
    and st': "ri_instance_state i' = (if ?last then NOT_ALIVE_NO_WRITERS_INSTANCE_STATE else ?st)"
    unfolding i' close_if_empty_def j using v(2,3) acc empty by (simp_all add: tracked_def ri_writers_def)
  have "exclusive (drop_key w ?W) (ri_current_owner i') (ri_instance_state i')"
  proof (cases ?last)
    case True
    then show ?thesis using spec unfolding o' st' if_P [OF True] by simp
  next
    case False
    then show ?thesis using spec unfolding o' st' if_not_P [OF False] by simp
  qed
  then have "owned i'" using fields v(4) by (intro ownedI [where W = "drop_key w ?W"]) simp_all
  then show ?thesis using fields by simp
qed

lemma writer_unregister_owned:
  assumes i: "owned i" and acc: "ri_has_been_accounted i"
  shows "\<exists>i' c' r. writer_unregister w c i = (i', c', r) \<and> owned i' \<and> ri_has_been_accounted i'
    \<and> rv_limit (ri_alive_writers i') = rv_limit (ri_alive_writers i)"
proof (cases "w \<in> fst ` set (ri_writers i)")
  case True
  then show ?thesis using without_writer_owned [OF assms True refl, of c] writers_removed [of i w] i
    by (auto simp: writer_unregister_alt owned_def)
next
  case False
  then show ?thesis using writers_removed [of i w] i acc by (auto simp: writer_unregister_alt owned_def)
qed

lemma deadline_missed_alt:
  "owned i \<Longrightarrow> deadline_missed i =
     (if fst (ri_current_owner i) = c_Guid_Unknown then i else fst (close_if_empty c (without_writer (fst (ri_current_owner i)) i)))"
proof -
  assume i: "owned i"
  let ?w = "fst (ri_current_owner i)"
  obtain v b where v: "rv_remove_if False (\<lambda>x. fst x = ?w) (ri_alive_writers i) = (v, b)" by fastforce
  have "b" if "?w \<noteq> c_Guid_Unknown"
    using writers_removed [of i ?w] v i that by (auto simp: owned_def exclusive_def)
  then show ?thesis using v
    by (cases "rv_empty v"; cases "ri_instance_state i")
       (auto simp: deadline_missed_def without_writer_def close_if_empty_def Let_def update_owner_def ri_writers_def rv_empty_def)
qed

lemma strength_owned:
  assumes i: "owned i" and w: "w \<noteq> c_Guid_Unknown" "s \<noteq> u32_max"
  shows "\<exists>i'. writer_update_its_ownership_strength w s i = Some i' \<and> owned i'
    \<and> ri_has_been_accounted i' = ri_has_been_accounted i \<and> rv_limit (ri_alive_writers i') = rv_limit (ri_alive_writers i)
    \<and> ri_instance_state i' = ri_instance_state i"
proof (cases "w = fst (ri_current_owner i)")
  case True
  let ?W = "set (ri_writers i)" and ?st = "ri_instance_state i"
  have ex: "exclusive ?W (ri_current_owner i) ?st" and tr: "tracked i" using i by (simp_all add: owned_def)
  then have "ri_current_owner i \<in> ?W" using True w(1) by (simp add: exclusive_def)
  then obtain k where k: "find_if (\<lambda>x. fst x = w) (ri_writers i) = Some k"
    using True find_if_None_iff [of "\<lambda>x. fst x = w" "ri_writers i"] by (cases "find_if (\<lambda>x. fst x = w) (ri_writers i)") auto
  have "ri_writers i \<noteq> []" using k by auto
  then have acc: "ri_has_been_accounted i" using i by (auto simp: owned_def)
  let ?ws = "(ri_writers i)[k := (w, s)]"
  have keys: "set ?ws = set_key w s ?W" "map fst ?ws = map fst (ri_writers i)"
    using set_list_update_key [OF k, of s] tr by (simp_all add: tracked_def)
  obtain i' where i': "i' = update_owner (i\<lparr>ri_alive_writers := (ri_alive_writers i)\<lparr>rv_collection := ?ws\<rparr>, ri_current_owner := (w, s)\<rparr>)"
    by blast
  have fields: "ri_writers i' = ?ws" "tracked i'" "ri_instance_state i' = ?st" "ri_has_been_accounted i'"
    "rv_limit (ri_alive_writers i') = rv_limit (ri_alive_writers i)" "ri_current_owner i' = UpdateOwner ?ws (w, s)"
    using tr acc keys(2) unfolding i'
    by (auto simp: tracked_def ri_writers_def update_owner_def rv_ok_def rv_limit_def simp del: map_update)
  have self: "(w, s) \<in> set ?ws" using keys(1) by (simp add: set_key_def)
  have best: "UpdateOwner ?ws (w, s) \<in> set ?ws" "\<forall>x \<in> set ?ws. \<not> outranks x (UpdateOwner ?ws (w, s))"
    using UpdateOwner_best [of ?ws "(w, s)"] self by auto
  then have "ranked (set ?ws) (UpdateOwner ?ws (w, s))" by (auto simp: ranked_def outranks_def not_less)
  moreover have "\<forall>x \<in> set ?ws. fst x \<noteq> c_Guid_Unknown \<and> snd x \<noteq> u32_max"
    using ex w keys(1) by (auto simp: exclusive_def set_key_def)
  moreover have "?st \<noteq> NOT_ALIVE_NO_WRITERS_INSTANCE_STATE"
    using ex \<open>ri_current_owner i \<in> ?W\<close> by (auto simp: exclusive_def)
  ultimately have "exclusive (set ?ws) (ri_current_owner i') (ri_instance_state i')"
    using best(1) fields by (auto simp: exclusive_def)
  then have "owned i'" using fields by (intro ownedI [where W = "set ?ws"]) simp_all
  moreover have "writer_update_its_ownership_strength w s i = Some i'"
    using True k i' by (simp add: writer_update_its_ownership_strength_def)
  ultimately show ?thesis using fields acc by auto
qed (use i in \<open>simp add: writer_update_its_ownership_strength_def\<close>)

subsection \<open>Sequences of notifications\<close>

datatype WriterEvent =
    Notified ChangeKind_t GUID_t u32
  | Removed GUID_t
  | StrengthUpdated GUID_t u32
  | DeadlineMissed

fun ApplyEvent ::
    "WriterEvent \<Rightarrow> 'change DataReaderInstance \<times> DataReaderHistoryCounters \<Rightarrow>
     ('change DataReaderInstance \<times> DataReaderHistoryCounters) option" where
  "ApplyEvent (Notified kind w s) (i, c) = map_option (\<lambda>(i', c', _). (i', c')) (update_state kind w s c i)"
| "ApplyEvent (Removed w) (i, c) = (case writer_removed w c i of (i', c', _) \<Rightarrow> Some (i', c'))"
| "ApplyEvent (StrengthUpdated w s) (i, c) = map_option (\<lambda>i'. (i', c)) (writer_update_its_ownership_strength w s i)"
| "ApplyEvent DeadlineMissed (i, c) = Some (deadline_missed i, c)"

text \<open>
  What a reader with exclusive ownership is told: writers with a GUID and a strength below the one that means shared
  ownership, no more of them than it can track, samples of the owner that are not weaker than it was (a weaker owner is
  announced by \<open>StrengthUpdated\<close>), and no disposal of an instance that has no writer or that nobody has written yet.
\<close>

definition disposal :: "ChangeKind_t \<Rightarrow> bool" where
  "disposal kind \<longleftrightarrow> kind = NOT_ALIVE_DISPOSED \<or> kind = NOT_ALIVE_DISPOSED_UNREGISTERED"

fun regular :: "WriterEvent \<Rightarrow> 'change DataReaderInstance \<Rightarrow> bool" where
  "regular (Notified kind w s) i \<longleftrightarrow>
     w \<noteq> c_Guid_Unknown \<and> s \<noteq> u32_max \<and> known_or_room w i
     \<and> (w = fst (ri_current_owner i) \<longrightarrow> s \<ge> snd (ri_current_owner i))
     \<and> (disposal kind \<longrightarrow> ri_instance_state i \<noteq> NOT_ALIVE_NO_WRITERS_INSTANCE_STATE \<and> snd (ri_current_owner i) \<noteq> u32_max)"
| "regular (StrengthUpdated w s) i \<longleftrightarrow> w \<noteq> c_Guid_Unknown \<and> s \<noteq> u32_max"
| "regular _ i \<longleftrightarrow> True"

inductive exclusive_reachable :: "'change DataReaderInstance \<times> DataReaderHistoryCounters \<Rightarrow> bool" where
  New: "rc_ok writers \<Longrightarrow> exclusive_reachable (DataReaderInstance_new changes writers, c)"
| Event: "exclusive_reachable (i, c) \<Longrightarrow> regular e i \<Longrightarrow> ApplyEvent e (i, c) = Some (i', c') \<Longrightarrow> exclusive_reachable (i', c')"

lemma new_owned: "rc_ok writers \<Longrightarrow> owned (DataReaderInstance_new changes writers)"
proof -
  assume "rc_ok writers"
  then have "rv_ok (ResourceLimitedVector_new writers :: WriterOwnership ResourceLimitedVector)" by (simp add: rv_ok_new)
  moreover have "rv_collection (ResourceLimitedVector_new writers :: WriterOwnership ResourceLimitedVector) = []"
    by (simp add: ResourceLimitedVector_new_def vec_reserve_def)
  ultimately show ?thesis
    by (simp add: owned_def tracked_def exclusive_def ranked_def ri_writers_def DataReaderInstance_new_def c_Guid_Unknown_def)
qed

lemma update_state_alive:
  assumes i: "owned i" and reg: "regular (Notified ALIVE w s) i"
  shows "\<exists>i' c' r. update_state ALIVE w s c i = Some (i', c', r)
      \<and> (r \<longrightarrow> ri_current_owner i' = (w, s) \<and> ri_instance_state i' = ALIVE_INSTANCE_STATE)
      \<and> (r \<longleftrightarrow> takes_over (w, s) (ri_current_owner i))"
proof (cases "ri_has_been_accounted i")
  case True
  then show ?thesis using writer_alive_owned [OF i True, of w s c] reg by (auto simp: update_state_def)
next
  case False
  let ?i1 = "i\<lparr>ri_has_been_accounted := True\<rparr>"
  let ?c1 = "c\<lparr>instances_new := instances_new c + 1, instances_alive := instances_alive c + 1\<rparr>"
  have "owned ?i1" "known_or_room w ?i1" "update_state ALIVE w s c i = writer_alive w s ?c1 ?i1"
    using i reg False by (auto simp: owned_def tracked_def ri_writers_def known_or_room_def update_state_def)
  then show ?thesis using writer_alive_owned [of ?i1 w s ?c1] reg by auto
qed

lemma update_state_owned:
  assumes i: "owned i" and reg: "regular (Notified kind w s) i"
  shows "\<exists>i' c' r. update_state kind w s c i = Some (i', c', r) \<and> owned i'"
proof -
  let ?i1 = "if ri_has_been_accounted i then i else i\<lparr>ri_has_been_accounted := True\<rparr>"
  let ?c1 = "if ri_has_been_accounted i then c
    else c\<lparr>instances_new := instances_new c + 1, instances_alive := instances_alive c + 1\<rparr>"
  have i1: "owned ?i1" "ri_has_been_accounted ?i1" "known_or_room w ?i1" "ri_current_owner ?i1 = ri_current_owner i"
      "ri_instance_state ?i1 = ri_instance_state i"
    using i reg by (auto simp: owned_def tracked_def ri_writers_def known_or_room_def)
  have w: "w \<noteq> c_Guid_Unknown" "s \<noteq> u32_max" "w = fst (ri_current_owner ?i1) \<Longrightarrow> s \<ge> snd (ri_current_owner ?i1)"
    using reg i1(4) by auto
  have run: "update_state kind w s c i =
     (case kind of ALIVE \<Rightarrow> writer_alive w s ?c1 ?i1 | NOT_ALIVE_DISPOSED \<Rightarrow> writer_dispose w s ?c1 ?i1
      | NOT_ALIVE_DISPOSED_UNREGISTERED \<Rightarrow>
          do { (i2, c2, r1) \<leftarrow> writer_dispose w s ?c1 ?i1;
               let (i3, c3, r2) = writer_unregister w c2 i2; Some (i3, c3, r1 \<or> r2) }
      | NOT_ALIVE_UNREGISTERED \<Rightarrow> Some (writer_unregister w ?c1 ?i1))"
    using i by (simp add: update_state_def owned_def)
  have dispose: "\<exists>i' c' r. writer_dispose w s ?c1 ?i1 = Some (i', c', r) \<and> owned i' \<and> ri_has_been_accounted i'" if "disposal kind"
    using writer_dispose_owned [OF i1(1-3) w, of ?c1] reg that i1(4,5) by auto
  show ?thesis
  proof (cases kind)
    case NOT_ALIVE_DISPOSED_UNREGISTERED
    then obtain i2 c2 r1 where d: "writer_dispose w s ?c1 ?i1 = Some (i2, c2, r1)" "owned i2" "ri_has_been_accounted i2"
      using dispose by (auto simp: disposal_def)
    then show ?thesis using writer_unregister_owned [OF d(2,3), of w c2] NOT_ALIVE_DISPOSED_UNREGISTERED unfolding run by auto
  next
    case ALIVE
    then show ?thesis using writer_alive_owned [OF i1(1-3) w, of ?c1] unfolding run by auto
  next
    case NOT_ALIVE_DISPOSED
    then show ?thesis using dispose unfolding run by (auto simp: disposal_def)
  next
    case NOT_ALIVE_UNREGISTERED
    then show ?thesis using writer_unregister_owned [OF i1(1,2), of w ?c1] unfolding run by auto
  qed
qed

lemma event_owned:
  assumes "owned i" and "regular e i"
  shows "\<exists>i' c'. ApplyEvent e (i, c) = Some (i', c') \<and> owned i'"
proof (cases e)
  case (Notified kind w s)
  then show ?thesis using update_state_owned [of i kind w s c] assms by auto
next
  case (Removed w)
  then show ?thesis using writer_unregister_owned [OF assms(1), of w c] assms(1) by (auto simp: writer_removed_def)
next
  case (StrengthUpdated w s)
  then show ?thesis using strength_owned [OF assms(1), of w s] assms(2) by auto
next
  case DeadlineMissed
  have "owned (deadline_missed i)"
  proof (cases "fst (ri_current_owner i) = c_Guid_Unknown")
    case False
    then have o: "ri_current_owner i \<in> set (ri_writers i)" using assms(1) by (simp add: owned_def exclusive_def)
    then have acc: "ri_has_been_accounted i" using assms(1) by (auto simp: owned_def)
    have "fst (ri_current_owner i) \<in> fst ` set (ri_writers i)" using o by simp
    from without_writer_owned [OF assms(1) acc this refl, of c] show ?thesis
      using deadline_missed_alt [OF assms(1), of c] False by simp
  qed (use deadline_missed_alt [OF assms(1)] assms(1) in simp)
  then show ?thesis using DeadlineMissed by simp
qed

lemma exclusive_reachable_owned: "exclusive_reachable (i, c) \<Longrightarrow> owned i"
proof (induction "(i, c)" arbitrary: i c rule: exclusive_reachable.induct)
  case (New writers changes)
  then show ?case by (simp add: new_owned)
next
  case (Event i c e i' c')
  then show ?case using event_owned [of i e c] by auto
qed

fun RunEvents ::
    "WriterEvent list \<Rightarrow> 'change DataReaderInstance \<times> DataReaderHistoryCounters \<Rightarrow>
     ('change DataReaderInstance \<times> DataReaderHistoryCounters) option" where
  "RunEvents [] st = Some st"
| "RunEvents (e # es) st = do { st' \<leftarrow> ApplyEvent e st; RunEvents es st' }"

definition Writer :: "u32 \<Rightarrow> GUID_t" where "Writer n = GUID_of_u32 GuidPrefix_new n"

definition NewInstance :: "unit DataReaderInstance \<times> DataReaderHistoryCounters" where
  "NewInstance = (DataReaderInstance_new ResourceLimitedContainerConfig_new (fixed_size_configuration 4),
     DataReaderHistoryCounters_new)"

text \<open>Regular runs stay reachable.\<close>

fun RunRegular ::
    "WriterEvent list \<Rightarrow> 'change DataReaderInstance \<times> DataReaderHistoryCounters \<Rightarrow>
     ('change DataReaderInstance \<times> DataReaderHistoryCounters) option" where
  "RunRegular [] st = Some st"
| "RunRegular (e # es) st = (if regular e (fst st) then do { st' \<leftarrow> ApplyEvent e st; RunRegular es st' } else None)"

lemma RunRegular_reachable: "RunRegular es st = Some st' \<Longrightarrow> exclusive_reachable st \<Longrightarrow> exclusive_reachable st'"
proof (induction es arbitrary: st)
  case (Cons e es)
  then obtain st1 where st1: "regular e (fst st)" "ApplyEvent e st = Some st1" "RunRegular es st1 = Some st'"
    by (auto simp: bind_eq_Some_conv split: if_splits)
  have "exclusive_reachable st1"
    using exclusive_reachable.Event [of "fst st" "snd st" e "fst st1" "snd st1"] Cons.prems(2) st1 by simp
  then show ?case using Cons.IH st1(3) by blast
qed simp

lemma NewInstance_reachable: "exclusive_reachable NewInstance"
  unfolding NewInstance_def by (rule exclusive_reachable.New [OF rc_ok_examples(2)])

text \<open>What the invariant says of an instance with a writer of positive strength.\<close>

lemma exclusive_strongest:
  assumes "exclusive W owner ALIVE_INSTANCE_STATE" and "x \<in> W" and "0 < snd x"
  shows "owner \<in> W \<and> (\<forall>y \<in> W. y = owner \<or> outranks owner y)"
proof -
  have r: "ranked W owner" using assms(1) by (simp add: exclusive_def)
  then have pos: "0 < snd owner" using assms(2,3) by (auto simp: ranked_def intro: less_le_trans)
  then have "owner \<in> W" using assms(1,2) by (auto simp: exclusive_def)
  moreover have "y = owner \<or> outranks owner y" if "y \<in> W" for y
    using r pos that by (cases y; cases owner) (force simp: ranked_def outranks_def)
  ultimately show ?thesis by blast
qed



subsection \<open>Outside of the specification\<close>

text \<open>A disposal of an instance without writers enters its writer; the next sample fails the assertion that none is left.\<close>

lemma disposal_without_writers_fails_later:
  "RunEvents [Notified ALIVE (Writer 1) 5, Notified NOT_ALIVE_UNREGISTERED (Writer 1) 5,
     Notified NOT_ALIVE_DISPOSED (Writer 1) 5, Notified ALIVE (Writer 1) 5] NewInstance = None"
  by code_simp

text \<open>The disposal of an instance nobody has written is ignored.\<close>

lemma first_disposal_is_ignored:
  "map_option (\<lambda>(i, c). (ri_instance_state i, fst (ri_current_owner i)))
     (RunEvents [Notified NOT_ALIVE_DISPOSED (Writer 1) 5] NewInstance) = Some (ALIVE_INSTANCE_STATE, c_Guid_Unknown)"
  by code_simp

text \<open>A missed deadline moves the state of the instance and no counter: the next sample wraps one around.\<close>

lemma missed_deadline_wraps_counter:
  "map_option (\<lambda>(i, c). (instances_alive c, instances_no_writers c))
     (RunEvents [Notified ALIVE (Writer 1) 5, DeadlineMissed, Notified ALIVE (Writer 1) 5] NewInstance)
   = Some (2, size_t_max)"
  by code_simp

text \<open>A writer that does not own the instance disposes it, if its strength is that of the owner.\<close>

lemma disposal_by_equal_strength:
  "map_option (\<lambda>(i, c). (ri_instance_state i, ri_current_owner i))
     (RunEvents [Notified ALIVE (Writer 1) 5, Notified NOT_ALIVE_DISPOSED (Writer 2) 5] NewInstance)
   = Some (NOT_ALIVE_DISPOSED_INSTANCE_STATE, (Writer 2, 5)) \<and> Writer 1 < Writer 2"
  by code_simp

text \<open>Writers of strength zero, the default, do not inherit the instance.\<close>

lemma zero_strength_is_not_inherited:
  "map_option (\<lambda>(i, c). (ri_instance_state i, fst (ri_current_owner i), ri_writers i))
     (RunEvents [Notified ALIVE (Writer 1) 0, Notified ALIVE (Writer 2) 0, Removed (Writer 1)] NewInstance)
   = Some (ALIVE_INSTANCE_STATE, c_Guid_Unknown, [(Writer 2, 0)])"
  by code_simp

end
