(* ===== verification/Reader_Loans.thy ===== *)
theory Reader_Loans
  imports Resource_Vector
begin

text \<open>
  Loans of a data reader: \<open>LoanableCollection\<close> and its typed access (\<open>fastdds/dds/core\<close>), \<open>DataReaderLoanManager\<close> and
  \<open>SampleInfoPool\<close> (\<open>fastdds/subscriber/DataReaderImpl\<close>), and the return codes.

  A pointer is a number, \<open>None\<close> the null pointer.  What \<open>new\<close> gives is counted by the owner, so that it is different
  from every pointer it gave before.  Sizes are 32-bit integers that no operation does arithmetic on.  The two
  managers keep their items in a free and a used list; \<open>take_item\<close> and \<open>give_back\<close> are the moves they share.
\<close>

definition RETCODE_OK :: u32 where "RETCODE_OK = 0"
definition RETCODE_ERROR :: u32 where "RETCODE_ERROR = 1"
definition RETCODE_UNSUPPORTED :: u32 where "RETCODE_UNSUPPORTED = 2"
definition RETCODE_BAD_PARAMETER :: u32 where "RETCODE_BAD_PARAMETER = 3"
definition RETCODE_PRECONDITION_NOT_MET :: u32 where "RETCODE_PRECONDITION_NOT_MET = 4"
definition RETCODE_OUT_OF_RESOURCES :: u32 where "RETCODE_OUT_OF_RESOURCES = 5"
definition RETCODE_NOT_ENABLED :: u32 where "RETCODE_NOT_ENABLED = 6"
definition RETCODE_IMMUTABLE_POLICY :: u32 where "RETCODE_IMMUTABLE_POLICY = 7"
definition RETCODE_INCONSISTENT_POLICY :: u32 where "RETCODE_INCONSISTENT_POLICY = 8"
definition RETCODE_ALREADY_DELETED :: u32 where "RETCODE_ALREADY_DELETED = 9"
definition RETCODE_TIMEOUT :: u32 where "RETCODE_TIMEOUT = 10"
definition RETCODE_NO_DATA :: u32 where "RETCODE_NO_DATA = 11"
definition RETCODE_ILLEGAL_OPERATION :: u32 where "RETCODE_ILLEGAL_OPERATION = 12"
definition RETCODE_NOT_ALLOWED_BY_SECURITY :: u32 where "RETCODE_NOT_ALLOWED_BY_SECURITY = 13"

type_synonym pointer = "nat option"

subsection \<open>Collections that can be loaned\<close>

record LoanableCollection =
  lc_maximum :: int
  lc_length :: int
  lc_elements :: pointer
  lc_has_ownership :: bool

definition LoanableCollection_new :: LoanableCollection where
  "LoanableCollection_new = \<lparr>lc_maximum = 0, lc_length = 0, lc_elements = None, lc_has_ownership = True\<rparr>"

text \<open>\<open>resize\<close> is the virtual operation of the class that owns the elements.\<close>

definition lc_set_length ::
    "(int \<Rightarrow> LoanableCollection \<Rightarrow> LoanableCollection) \<Rightarrow> int \<Rightarrow> LoanableCollection \<Rightarrow> LoanableCollection \<times> bool" where
  "lc_set_length resize new_length c =
     (if new_length < 0 then (c, False)
      else if new_length \<le> lc_maximum c then (c\<lparr>lc_length := new_length\<rparr>, True)
      else if \<not> lc_has_ownership c then (c, False)
      else ((resize new_length c)\<lparr>lc_length := new_length\<rparr>, True))"

definition lc_loan :: "pointer \<Rightarrow> int \<Rightarrow> int \<Rightarrow> LoanableCollection \<Rightarrow> LoanableCollection \<times> bool" where
  "lc_loan buffer new_maximum new_length c =
     (if lc_has_ownership c \<and> lc_maximum c > 0 then (c, False)
      else if buffer = None \<or> new_maximum < new_length \<or> new_maximum < 1 then (c, False)
      else (\<lparr>lc_maximum = new_maximum, lc_length = new_length, lc_elements = buffer, lc_has_ownership = False\<rparr>, True))"

text \<open>The buffer, the maximum and the length that were loaned.\<close>

definition lc_unloan :: "LoanableCollection \<Rightarrow> LoanableCollection \<times> (pointer \<times> int \<times> int) option" where
  "lc_unloan c =
     (if lc_has_ownership c then (c, None)
      else (\<lparr>lc_maximum = 0, lc_length = 0, lc_elements = None, lc_has_ownership = True\<rparr>,
            Some (lc_elements c, lc_maximum c, lc_length c)))"

text \<open>\<open>operator []\<close>: \<open>Inl\<close> is the exception, \<open>None\<close> an index before the buffer.\<close>

datatype out_of_range = OutOfRange

definition lc_index :: "(nat \<Rightarrow> 'a) \<Rightarrow> int \<Rightarrow> LoanableCollection \<Rightarrow> (out_of_range + 'a) option" where
  "lc_index buffer n c =
     (if n \<ge> lc_length c then Some (Inl OutOfRange)
      else if n < 0 then None else Some (Inr (buffer (nat n))))"

subsection \<open>Items that are free or in use\<close>

definition take_item ::
    "'a \<Rightarrow> 'a ResourceLimitedVector \<Rightarrow> 'a ResourceLimitedVector \<Rightarrow>
     ('a ResourceLimitedVector \<times> 'a ResourceLimitedVector \<times> 'a option) option" where
  "take_item new_item free used =
     (if rv_empty free then do {
        (used', ok) \<leftarrow> rv_push_back new_item used;
        Some (free, used', if ok then Some new_item else None) }
      else do {
        let item = last (rv_collection free);
        (used', ok) \<leftarrow> rv_push_back item used;
        if \<not> ok then None
        else do { free' \<leftarrow> rv_pop_back free; Some (free', used', Some item) } })"

definition give_back ::
    "'a \<Rightarrow> 'a ResourceLimitedVector \<Rightarrow> 'a ResourceLimitedVector \<Rightarrow>
     ('a ResourceLimitedVector \<times> 'a ResourceLimitedVector \<times> bool) option" where
  "give_back item free used =
     (case rv_remove False item used of (used', removed) \<Rightarrow>
        if \<not> removed then Some (free, used, False)
        else do { (free', ok) \<leftarrow> rv_push_back item free; if ok then Some (free', used', True) else None })"

text \<open>No item twice, and never more of them than the limit of a list.\<close>

definition pool_ok :: "'a ResourceLimitedVector \<Rightarrow> 'a ResourceLimitedVector \<Rightarrow> bool" where
  "pool_ok free used \<longleftrightarrow> rv_ok free \<and> rv_ok used \<and> rv_limit free = rv_limit used
     \<and> distinct (rv_collection free @ rv_collection used)
     \<and> length (rv_collection free) + length (rv_collection used) \<le> rv_limit used"

lemma rv_pop_back_ok:
  "rv_ok v \<Longrightarrow> rv_collection v \<noteq> [] \<Longrightarrow>
   \<exists>v'. rv_pop_back v = Some v' \<and> rv_ok v' \<and> rv_limit v' = rv_limit v \<and> rv_collection v' = butlast (rv_collection v)"
  using rv_ok_same [of v "v\<lparr>rv_collection := butlast (rv_collection v)\<rparr>"] by (simp add: rv_pop_back_def)

lemma butlast_facts:
  "xs \<noteq> [] \<Longrightarrow> distinct xs \<Longrightarrow> set (butlast xs) = set xs - {last xs} \<and> distinct (butlast xs)
     \<and> last xs \<in> set xs \<and> length (butlast xs) = length xs - 1"
  by (cases xs rule: rev_cases) auto

lemma take_item_spec:
  assumes p: "pool_ok free used" and fresh: "new_item \<notin> set (rv_collection free) \<union> set (rv_collection used)"
  shows "\<exists>free' used' r. take_item new_item free used = Some (free', used', r) \<and> pool_ok free' used'
    \<and> rv_limit used' = rv_limit used
    \<and> (r = None \<longleftrightarrow> length (rv_collection used) = rv_limit used)
    \<and> (r = None \<longrightarrow> free' = free \<and> used' = used)
    \<and> (\<forall>x. r = Some x \<longrightarrow> x \<notin> set (rv_collection used) \<and> set (rv_collection used') = insert x (set (rv_collection used))
        \<and> x \<in> (if rv_collection free = [] then {new_item} else set (rv_collection free)) \<and> set (rv_collection free') = set (rv_collection free) - {x})"
proof (cases "rv_collection free = []")
  case True
  obtain used' where used': "rv_emplace_back new_item used = Some (used', length (rv_collection used) < rv_limit used)"
      "rv_ok used'" "rv_limit used' = rv_limit used"
      "rv_collection used' = (if length (rv_collection used) < rv_limit used then rv_collection used @ [new_item] else rv_collection used)"
    using swapping.push_spec [of used new_item] p by (auto simp: pool_ok_def)
  have full: "used' = used" if "\<not> length (rv_collection used) < rv_limit used"
    using that emplace_back_full [of used new_item] used'(1) p by (auto simp: pool_ok_def)
  show ?thesis
    using True used' full p fresh
    by (auto simp: take_item_def rv_empty_def rv_push_back_def pool_ok_def)
next
  case False
  let ?x = "last (rv_collection free)"
  have room: "length (rv_collection used) < rv_limit used" using p False by (cases "rv_collection free") (auto simp: pool_ok_def)
  obtain used' where used': "rv_emplace_back ?x used = Some (used', True)" "rv_ok used'" "rv_limit used' = rv_limit used"
      "rv_collection used' = rv_collection used @ [?x]"
    using swapping.push_room [of used ?x] p room by (auto simp: pool_ok_def)
  obtain free' where free': "rv_pop_back free = Some free'" "rv_ok free'" "rv_limit free' = rv_limit free"
      "rv_collection free' = butlast (rv_collection free)"
    using rv_pop_back_ok [of free] p False by (auto simp: pool_ok_def)
  have dist_free: "distinct (rv_collection free)" using p by (simp add: pool_ok_def)
  note b = butlast_facts [OF False dist_free]
  have unused: "?x \<notin> set (rv_collection used)" using p b by (auto simp: pool_ok_def)
  have "take_item new_item free used = Some (free', used', Some ?x)"
    using False used'(1) free'(1) by (simp add: take_item_def rv_empty_def rv_push_back_def Let_def)
  moreover have "pool_ok free' used'" using p used' free' b unused False room by (auto simp: pool_ok_def)
  moreover have "set (rv_collection used') = insert ?x (set (rv_collection used))" using used'(4) by simp
  moreover have "set (rv_collection free') = set (rv_collection free) - {?x}" "?x \<in> set (rv_collection free)" using free'(4) b by simp_all
  ultimately show ?thesis using used'(3) unused room False by simp
qed

lemma give_back_spec:
  assumes p: "pool_ok free used"
  shows "\<exists>free' used'. give_back x free used = Some (free', used', x \<in> set (rv_collection used)) \<and> pool_ok free' used'
    \<and> rv_limit used' = rv_limit used
    \<and> (if x \<in> set (rv_collection used)
       then set (rv_collection used') = set (rv_collection used) - {x} \<and> set (rv_collection free') = insert x (set (rv_collection free))
       else free' = free \<and> used' = used)"
proof -
  have d: "distinct (map (\<lambda>y. y) (rv_collection used))" using p by (simp add: pool_ok_def)
  obtain used' where used': "rv_remove_if False (\<lambda>y. y = x) used = (used', x \<in> set (rv_collection used))" "rv_ok used'"
      "rv_limit used' = rv_limit used" "set (rv_collection used') = set (rv_collection used) - {x}" "distinct (rv_collection used')"
    using swapping.remove_key [OF _ d, of x] p by (auto simp: pool_ok_def)
  show ?thesis
  proof (cases "x \<in> set (rv_collection used)")
    case False
    then have "find_if (\<lambda>y. y = x) (rv_collection used) = None"
      using find_if_None_iff [of "\<lambda>y. y = x" "rv_collection used"] by auto
    then have "used' = used" using used'(1) by (simp add: rv_remove_if_def)
    then show ?thesis using False used' p by (simp add: give_back_def rv_remove_def)
  next
    case True
    have "length (rv_collection used') = card (set (rv_collection used) - {x})" using distinct_card [OF used'(5)] used'(4) by simp
    also have "\<dots> = length (rv_collection used) - 1" using True distinct_card [of "rv_collection used"] d by simp
    finally have len: "length (rv_collection used') + 1 = length (rv_collection used)"
      using length_pos_if_in_set [OF True] by simp
    then have "length (rv_collection free) < rv_limit free" using p by (simp add: pool_ok_def)
    then obtain free' where free': "rv_emplace_back x free = Some (free', True)" "rv_ok free'" "rv_limit free' = rv_limit free"
        "rv_collection free' = rv_collection free @ [x]"
      using swapping.push_room [of free x] p by (auto simp: pool_ok_def)
    have "give_back x free used = Some (free', used', True)"
      using True used'(1) free'(1) by (simp add: give_back_def rv_remove_def rv_push_back_def)
    moreover have "pool_ok free' used'" using p used' free' len True by (auto simp: pool_ok_def)
    ultimately show ?thesis using True used' free' by auto
  qed
qed

subsection \<open>The loan manager\<close>

text \<open>An item is the pair of the two buffers; \<open>lm_next\<close> is the address the next \<open>new\<close> gives.\<close>

type_synonym OutstandingLoanItem = "pointer \<times> pointer"

record DataReaderLoanManager =
  lm_max_samples :: int
  lm_free_loans :: "OutstandingLoanItem ResourceLimitedVector"
  lm_used_loans :: "OutstandingLoanItem ResourceLimitedVector"
  lm_next :: nat

definition loan_item :: "nat \<Rightarrow> OutstandingLoanItem" where
  "loan_item a = (Some a, Some (a + 1))"

fun fill_loans :: "nat \<Rightarrow> DataReaderLoanManager \<Rightarrow> DataReaderLoanManager option" where
  "fill_loans 0 m = Some m"
| "fill_loans (Suc n) m = do {
     (free', ok) \<leftarrow> rv_push_back (loan_item (lm_next m)) (lm_free_loans m);
     if ok then fill_loans n (m\<lparr>lm_free_loans := free', lm_next := lm_next m + 2\<rparr>) else None }"

definition DataReaderLoanManager_new :: "ResourceLimitedContainerConfig \<Rightarrow> int \<Rightarrow> DataReaderLoanManager option" where
  "DataReaderLoanManager_new cfg max_samples =
     fill_loans (unat (rc_initial cfg))
       \<lparr>lm_max_samples = max_samples, lm_free_loans = ResourceLimitedVector_new cfg,
        lm_used_loans = ResourceLimitedVector_new cfg, lm_next = 0\<rparr>"

definition has_outstanding_loans :: "DataReaderLoanManager \<Rightarrow> bool" where
  "has_outstanding_loans m \<longleftrightarrow> \<not> rv_empty (lm_used_loans m)"

text \<open>The results of the two calls of \<open>loan\<close> are dropped, as in the code.\<close>

definition get_loan ::
    "LoanableCollection \<Rightarrow> LoanableCollection \<Rightarrow> DataReaderLoanManager \<Rightarrow>
     (DataReaderLoanManager \<times> LoanableCollection \<times> LoanableCollection \<times> u32) option" where
  "get_loan data_values sample_infos m = do {
     (free', used', result) \<leftarrow> take_item (loan_item (lm_next m)) (lm_free_loans m) (lm_used_loans m);
     let m' = m\<lparr>lm_free_loans := free', lm_used_loans := used'\<rparr>;
     Some (case result of
       None \<Rightarrow> (m', data_values, sample_infos, RETCODE_OUT_OF_RESOURCES)
     | Some item \<Rightarrow>
         (if rv_empty (lm_free_loans m) then m'\<lparr>lm_next := lm_next m + 2\<rparr> else m',
          fst (lc_loan (fst item) (lm_max_samples m) 0 data_values),
          fst (lc_loan (snd item) (lm_max_samples m) 0 sample_infos),
          RETCODE_OK)) }"

definition return_loan ::
    "LoanableCollection \<Rightarrow> LoanableCollection \<Rightarrow> DataReaderLoanManager \<Rightarrow> (DataReaderLoanManager \<times> u32) option" where
  "return_loan data_values sample_infos m = do {
     (free', used', removed) \<leftarrow>
       give_back (lc_elements data_values, lc_elements sample_infos) (lm_free_loans m) (lm_used_loans m);
     Some (if removed then (m\<lparr>lm_free_loans := free', lm_used_loans := used'\<rparr>, RETCODE_OK)
           else (m, RETCODE_PRECONDITION_NOT_MET)) }"

inductive loans_reachable :: "ResourceLimitedContainerConfig \<Rightarrow> int \<Rightarrow> DataReaderLoanManager \<Rightarrow> bool"
  for cfg max_samples where
  loans_start: "DataReaderLoanManager_new cfg max_samples = Some m \<Longrightarrow> loans_reachable cfg max_samples m"
| loans_get: "loans_reachable cfg max_samples m \<Longrightarrow> get_loan d i m = Some (m', r) \<Longrightarrow> loans_reachable cfg max_samples m'"
| loans_return: "loans_reachable cfg max_samples m \<Longrightarrow> return_loan d i m = Some (m', r) \<Longrightarrow> loans_reachable cfg max_samples m'"

text \<open>Every buffer that was allocated is in one item, and every item is in one of the lists.\<close>

definition lm_items :: "DataReaderLoanManager \<Rightarrow> OutstandingLoanItem set" where
  "lm_items m = set (rv_collection (lm_free_loans m)) \<union> set (rv_collection (lm_used_loans m))"

definition lm_ok :: "ResourceLimitedContainerConfig \<Rightarrow> int \<Rightarrow> DataReaderLoanManager \<Rightarrow> bool" where
  "lm_ok cfg max_samples m \<longleftrightarrow> pool_ok (lm_free_loans m) (lm_used_loans m)
     \<and> rv_limit (lm_used_loans m) = unat (rc_maximum cfg) \<and> lm_max_samples m = max_samples
     \<and> (\<exists>k. lm_next m = 2 * k \<and> lm_items m = (\<lambda>j. loan_item (2 * j)) ` {..< k})"

lemma loan_item_fresh: "lm_items m = (\<lambda>j. loan_item (2 * j)) ` {..< k} \<Longrightarrow> lm_next m = 2 * k \<Longrightarrow> loan_item (lm_next m) \<notin> lm_items m"
  by (auto simp: loan_item_def)

lemma loan_items_grow:
  "insert (loan_item (2 * k)) ((\<lambda>j. loan_item (2 * j)) ` {..< k}) = (\<lambda>j. loan_item (2 * j)) ` {..< Suc k}"
  by (simp add: lessThan_Suc)

lemma lm_ok_fresh: "lm_ok cfg n m \<Longrightarrow> loan_item (lm_next m) \<notin> set (rv_collection (lm_free_loans m)) \<union> set (rv_collection (lm_used_loans m))"
  using loan_item_fresh unfolding lm_ok_def lm_items_def by metis

lemma lm_ok_intro:
  assumes "lm_ok cfg n m" and "pool_ok (lm_free_loans m') (lm_used_loans m')" and "lm_max_samples m' = lm_max_samples m"
    and "rv_limit (lm_used_loans m') = rv_limit (lm_used_loans m)"
    and "lm_next m' = lm_next m \<and> lm_items m' = lm_items m
         \<or> lm_next m' = lm_next m + 2 \<and> lm_items m' = insert (loan_item (lm_next m)) (lm_items m)"
  shows "lm_ok cfg n m'"
proof -
  obtain k where k: "lm_next m = 2 * k" "lm_items m = (\<lambda>j. loan_item (2 * j)) ` {..< k}" using assms(1) by (auto simp: lm_ok_def)
  have "\<exists>k. lm_next m' = 2 * k \<and> lm_items m' = (\<lambda>j. loan_item (2 * j)) ` {..< k}"
    using assms(5)
  proof
    assume "lm_next m' = lm_next m \<and> lm_items m' = lm_items m"
    then show ?thesis using k by auto
  next
    assume "lm_next m' = lm_next m + 2 \<and> lm_items m' = insert (loan_item (lm_next m)) (lm_items m)"
    then show ?thesis using k loan_items_grow [of k] by (intro exI [of _ "Suc k"]) simp
  qed
  then show ?thesis using assms(1-4) by (simp add: lm_ok_def)
qed

lemma fill_loans_ok:
  "lm_ok cfg n m \<Longrightarrow> rv_collection (lm_used_loans m) = [] \<Longrightarrow> length (rv_collection (lm_free_loans m)) + k \<le> unat (rc_maximum cfg) \<Longrightarrow>
   \<exists>m'. fill_loans k m = Some m' \<and> lm_ok cfg n m' \<and> rv_collection (lm_used_loans m') = []"
proof (induction k arbitrary: m)
  case (Suc k)
  let ?x = "loan_item (lm_next m)"
  have p: "pool_ok (lm_free_loans m) (lm_used_loans m)" "rv_limit (lm_used_loans m) = unat (rc_maximum cfg)"
    using Suc.prems(1) by (auto simp: lm_ok_def)
  then obtain free' where f: "rv_emplace_back ?x (lm_free_loans m) = Some (free', True)" "rv_ok free'"
      "rv_limit free' = rv_limit (lm_free_loans m)" "rv_collection free' = rv_collection (lm_free_loans m) @ [?x]"
    using swapping.push_room [of "lm_free_loans m" ?x] Suc.prems(3) by (auto simp: pool_ok_def)
  let ?m = "m\<lparr>lm_free_loans := free', lm_next := lm_next m + 2\<rparr>"
  have "lm_ok cfg n ?m"
    using lm_ok_fresh [OF Suc.prems(1)] p f Suc.prems(2,3)
    by (intro lm_ok_intro [OF Suc.prems(1)]) (auto simp: pool_ok_def lm_items_def)
  then have "\<exists>m'. fill_loans k ?m = Some m' \<and> lm_ok cfg n m' \<and> rv_collection (lm_used_loans m') = []"
    using Suc.prems(2,3) f(4) by (intro Suc.IH) simp_all
  then show ?case using f(1) by (simp add: rv_push_back_def)
qed simp

lemma loan_manager_starts:
  assumes "rc_ok cfg"
  shows "\<exists>m. DataReaderLoanManager_new cfg n = Some m \<and> lm_ok cfg n m \<and> rv_collection (lm_used_loans m) = []"
  unfolding DataReaderLoanManager_new_def
proof (rule fill_loans_ok)
  show "lm_ok cfg n \<lparr>lm_max_samples = n, lm_free_loans = ResourceLimitedVector_new cfg,
        lm_used_loans = ResourceLimitedVector_new cfg, lm_next = 0\<rparr>"
    using rv_ok_new [OF assms, where 'a = OutstandingLoanItem]
    by (simp add: lm_ok_def pool_ok_def lm_items_def ResourceLimitedVector_new_def vec_reserve_def)
qed (use assms in \<open>simp_all add: ResourceLimitedVector_new_def vec_reserve_def rc_ok_def word_le_nat_alt\<close>)

lemma get_loan_spec:
  assumes ok: "lm_ok cfg n m"
  shows "\<exists>m' d' i' r. get_loan d i m = Some (m', d', i', r) \<and> lm_ok cfg n m'
    \<and> (if length (rv_collection (lm_used_loans m)) = unat (rc_maximum cfg)
       then m' = m \<and> d' = d \<and> i' = i \<and> r = RETCODE_OUT_OF_RESOURCES
       else \<exists>x \<in> lm_items m' - set (rv_collection (lm_used_loans m)).
         set (rv_collection (lm_used_loans m')) = insert x (set (rv_collection (lm_used_loans m)))
         \<and> d' = fst (lc_loan (fst x) n 0 d) \<and> i' = fst (lc_loan (snd x) n 0 i) \<and> r = RETCODE_OK)"
proof -
  let ?new = "loan_item (lm_next m)"
  have p: "pool_ok (lm_free_loans m) (lm_used_loans m)" "rv_limit (lm_used_loans m) = unat (rc_maximum cfg)" "lm_max_samples m = n"
    using ok by (auto simp: lm_ok_def)
  obtain free' used' r where t: "take_item ?new (lm_free_loans m) (lm_used_loans m) = Some (free', used', r)" "pool_ok free' used'"
      "rv_limit used' = rv_limit (lm_used_loans m)" "r = None \<longleftrightarrow> length (rv_collection (lm_used_loans m)) = rv_limit (lm_used_loans m)"
      "r = None \<longrightarrow> free' = lm_free_loans m \<and> used' = lm_used_loans m"
      "\<And>x. r = Some x \<Longrightarrow> x \<notin> set (rv_collection (lm_used_loans m))
        \<and> set (rv_collection used') = insert x (set (rv_collection (lm_used_loans m)))
        \<and> x \<in> (if rv_collection (lm_free_loans m) = [] then {?new} else set (rv_collection (lm_free_loans m)))
        \<and> set (rv_collection free') = set (rv_collection (lm_free_loans m)) - {x}"
    using take_item_spec [OF p(1) lm_ok_fresh [OF ok]] by blast
  show ?thesis
  proof (cases r)
    case None
    then show ?thesis using t p ok by (simp add: get_loan_def Let_def)
  next
    case (Some x)
    note x = t(6) [OF Some]
    let ?empty = "rv_collection (lm_free_loans m) = []"
    let ?m = "m\<lparr>lm_free_loans := free', lm_used_loans := used', lm_next := (if ?empty then lm_next m + 2 else lm_next m)\<rparr>"
    have g: "get_loan d i m = Some (?m, fst (lc_loan (fst x) n 0 d), fst (lc_loan (snd x) n 0 i), RETCODE_OK)"
      using t(1) Some p(3) by (simp add: get_loan_def Let_def rv_empty_def)
    have items: "lm_items ?m = (if ?empty then insert ?new (lm_items m) else lm_items m)" "x \<in> lm_items ?m"
      using x by (auto simp: lm_items_def split: if_splits)
    have "lm_ok cfg n ?m" using items(1) t(2,3) by (intro lm_ok_intro [OF ok]) (simp_all split: if_splits)
    moreover have "length (rv_collection (lm_used_loans m)) \<noteq> unat (rc_maximum cfg)" using t(4) Some p(2) by simp
    moreover have "x \<in> lm_items ?m - set (rv_collection (lm_used_loans m))
        \<and> set (rv_collection (lm_used_loans ?m)) = insert x (set (rv_collection (lm_used_loans m)))"
      using items(2) x by simp
    ultimately show ?thesis using g by (simp only: if_False) blast
  qed
qed

lemma return_loan_spec:
  assumes ok: "lm_ok cfg n m"
  shows "\<exists>m'. return_loan d i m =
      Some (m', if (lc_elements d, lc_elements i) \<in> set (rv_collection (lm_used_loans m)) then RETCODE_OK else RETCODE_PRECONDITION_NOT_MET)
    \<and> lm_ok cfg n m' \<and> lm_items m' = lm_items m
    \<and> set (rv_collection (lm_used_loans m')) = set (rv_collection (lm_used_loans m)) - {(lc_elements d, lc_elements i)}"
proof -
  let ?x = "(lc_elements d, lc_elements i)"
  have p: "pool_ok (lm_free_loans m) (lm_used_loans m)" using ok by (simp add: lm_ok_def)
  obtain free' used' where g: "give_back ?x (lm_free_loans m) (lm_used_loans m) = Some (free', used', ?x \<in> set (rv_collection (lm_used_loans m)))"
      "pool_ok free' used'" "rv_limit used' = rv_limit (lm_used_loans m)"
      "if ?x \<in> set (rv_collection (lm_used_loans m))
       then set (rv_collection used') = set (rv_collection (lm_used_loans m)) - {?x} \<and> set (rv_collection free') = insert ?x (set (rv_collection (lm_free_loans m)))
       else free' = lm_free_loans m \<and> used' = lm_used_loans m"
    using give_back_spec [OF p] by blast
  show ?thesis
  proof (cases "?x \<in> set (rv_collection (lm_used_loans m))")
    case True
    let ?m = "m\<lparr>lm_free_loans := free', lm_used_loans := used'\<rparr>"
    have items: "lm_items ?m = lm_items m" using True g(4) by (auto simp: lm_items_def)
    then have "lm_ok cfg n ?m" using g(2,3) by (intro lm_ok_intro [OF ok]) simp_all
    then show ?thesis using True g(1,4) items by (simp add: return_loan_def)
  next
    case False
    then show ?thesis using g(1) ok by (simp add: return_loan_def)
  qed
qed

lemma loans_reachable_ok:
  assumes "loans_reachable cfg n m" and "rc_ok cfg"
  shows "lm_ok cfg n m"
  using assms(1)
proof induction
  case (loans_start m)
  then show ?case using loan_manager_starts [OF assms(2), of n] by auto
next
  case (loans_get m d i m' r)
  then show ?case using get_loan_spec [OF loans_get.IH, of d i] by auto
next
  case (loans_return m d i m' r)
  then show ?case using return_loan_spec [OF loans_return.IH, of d i] by auto
qed

text \<open>No buffer is in two items, none is lost, and there are never more of them than the limits allow.\<close>

lemma loaned_buffers_partition:
  assumes "lm_ok cfg n m"
  shows "(\<Union>x \<in> lm_items m. {fst x, snd x}) = Some ` {..< lm_next m}"
    and "x \<in> lm_items m \<Longrightarrow> y \<in> lm_items m \<Longrightarrow> x \<noteq> y \<Longrightarrow> {fst x, snd x} \<inter> {fst y, snd y} = {}"
    and "lm_next m \<le> 2 * unat (rc_maximum cfg)"
proof -
  obtain k where k: "lm_next m = 2 * k" "lm_items m = (\<lambda>j. loan_item (2 * j)) ` {..< k}" using assms by (auto simp: lm_ok_def)
  have "\<exists>j < k. a = 2 * j \<or> a = Suc (2 * j)" if "a < 2 * k" for a
    using that by (intro exI [of _ "a div 2"]) auto
  then show "(\<Union>x \<in> lm_items m. {fst x, snd x}) = Some ` {..< lm_next m}"
    unfolding k by (fastforce simp: loan_item_def)
  show "x \<in> lm_items m \<Longrightarrow> y \<in> lm_items m \<Longrightarrow> x \<noteq> y \<Longrightarrow> {fst x, snd x} \<inter> {fst y, snd y} = {}"
    unfolding k by (auto simp: loan_item_def)
  have "inj_on (\<lambda>j. loan_item (2 * j)) {..< k}" by (auto simp: inj_on_def loan_item_def)
  then have "card (lm_items m) = k" using k(2) card_image by fastforce
  moreover have "card (lm_items m) \<le> length (rv_collection (lm_free_loans m)) + length (rv_collection (lm_used_loans m))"
    using card_length [of "rv_collection (lm_free_loans m) @ rv_collection (lm_used_loans m)"] by (simp add: lm_items_def)
  ultimately show "lm_next m \<le> 2 * unat (rc_maximum cfg)" using assms k(1) by (auto simp: lm_ok_def pool_ok_def)
qed

text \<open>A loan that was just given can be returned, and the loans that are out are again the ones of before.\<close>

lemma loan_given_back:
  assumes ok: "lm_ok cfg n m" and n: "0 < n" and get: "get_loan LoanableCollection_new LoanableCollection_new m = Some (m', d', i', RETCODE_OK)"
  shows "\<exists>m''. return_loan d' i' m' = Some (m'', RETCODE_OK)
    \<and> set (rv_collection (lm_used_loans m'')) = set (rv_collection (lm_used_loans m))"
proof -
  have "\<exists>x \<in> lm_items m' - set (rv_collection (lm_used_loans m)).
      set (rv_collection (lm_used_loans m')) = insert x (set (rv_collection (lm_used_loans m)))
      \<and> d' = fst (lc_loan (fst x) n 0 LoanableCollection_new) \<and> i' = fst (lc_loan (snd x) n 0 LoanableCollection_new)"
    and ok': "lm_ok cfg n m'"
    using get_loan_spec [OF ok, of LoanableCollection_new LoanableCollection_new] get
    by (auto simp: RETCODE_OK_def RETCODE_OUT_OF_RESOURCES_def split: if_splits)
  then obtain x where x: "x \<in> lm_items m'" "x \<notin> set (rv_collection (lm_used_loans m))"
      "set (rv_collection (lm_used_loans m')) = insert x (set (rv_collection (lm_used_loans m)))"
      "d' = fst (lc_loan (fst x) n 0 LoanableCollection_new)" "i' = fst (lc_loan (snd x) n 0 LoanableCollection_new)"
    by blast
  have "fst x \<noteq> None \<and> snd x \<noteq> None" using x(1) ok' by (auto simp: lm_ok_def loan_item_def)
  then have "(lc_elements d', lc_elements i') = x" using x(4,5) n by (cases x) (auto simp: lc_loan_def LoanableCollection_new_def)
  then show ?thesis using return_loan_spec [OF ok', of d' i'] x(2,3) by auto
qed

subsection \<open>The pool of sample infos\<close>

record SampleInfoPool =
  si_free_items :: "nat ResourceLimitedVector"
  si_used_items :: "nat ResourceLimitedVector"
  si_next :: nat

fun fill_infos :: "nat \<Rightarrow> SampleInfoPool \<Rightarrow> SampleInfoPool option" where
  "fill_infos 0 p = Some p"
| "fill_infos (Suc n) p = do {
     (free', _) \<leftarrow> rv_push_back (si_next p) (si_free_items p);
     fill_infos n (p\<lparr>si_free_items := free', si_next := si_next p + 1\<rparr>) }"

definition SampleInfoPool_new :: "ResourceLimitedContainerConfig \<Rightarrow> SampleInfoPool option" where
  "SampleInfoPool_new cfg =
     fill_infos (unat (rc_initial cfg))
       \<lparr>si_free_items = ResourceLimitedVector_new cfg, si_used_items = ResourceLimitedVector_new cfg, si_next = 0\<rparr>"

definition num_allocated :: "SampleInfoPool \<Rightarrow> u64" where
  "num_allocated p = rv_size (si_used_items p)"

text \<open>\<open>new SampleInfo()\<close> is evaluated before the push that may fail.\<close>

definition get_item :: "SampleInfoPool \<Rightarrow> (SampleInfoPool \<times> pointer) option" where
  "get_item p = do {
     (free', used', result) \<leftarrow> take_item (si_next p) (si_free_items p) (si_used_items p);
     Some (p\<lparr>si_free_items := free', si_used_items := used',
             si_next := (if rv_empty (si_free_items p) then si_next p + 1 else si_next p)\<rparr>, result) }"

definition return_item :: "nat \<Rightarrow> SampleInfoPool \<Rightarrow> SampleInfoPool option" where
  "return_item item p = do {
     (free', used', removed) \<leftarrow> give_back item (si_free_items p) (si_used_items p);
     if removed then Some (p\<lparr>si_free_items := free', si_used_items := used'\<rparr>) else None }"

definition si_items :: "SampleInfoPool \<Rightarrow> nat set" where
  "si_items p = set (rv_collection (si_free_items p)) \<union> set (rv_collection (si_used_items p))"

definition si_ok :: "SampleInfoPool \<Rightarrow> bool" where
  "si_ok p \<longleftrightarrow> pool_ok (si_free_items p) (si_used_items p) \<and> si_items p \<subseteq> {..< si_next p}"

lemma get_item_spec:
  assumes ok: "si_ok p"
  shows "\<exists>p' r. get_item p = Some (p', r) \<and> si_ok p' \<and> rv_limit (si_used_items p') = rv_limit (si_used_items p)
    \<and> (r = None \<longleftrightarrow> length (rv_collection (si_used_items p)) = rv_limit (si_used_items p))
    \<and> (\<forall>x. r = Some x \<longrightarrow> x \<notin> set (rv_collection (si_used_items p))
         \<and> set (rv_collection (si_used_items p')) = insert x (set (rv_collection (si_used_items p))))"
proof -
  have pk: "pool_ok (si_free_items p) (si_used_items p)" "si_items p \<subseteq> {..< si_next p}" using ok by (auto simp: si_ok_def)
  have fresh: "si_next p \<notin> set (rv_collection (si_free_items p)) \<union> set (rv_collection (si_used_items p))"
    using pk(2) by (auto simp: si_items_def)
  obtain free' used' r where t: "take_item (si_next p) (si_free_items p) (si_used_items p) = Some (free', used', r)" "pool_ok free' used'"
      "rv_limit used' = rv_limit (si_used_items p)" "r = None \<longleftrightarrow> length (rv_collection (si_used_items p)) = rv_limit (si_used_items p)"
      "r = None \<longrightarrow> free' = si_free_items p \<and> used' = si_used_items p"
      "\<And>x. r = Some x \<Longrightarrow> x \<notin> set (rv_collection (si_used_items p))
        \<and> set (rv_collection used') = insert x (set (rv_collection (si_used_items p)))
        \<and> x \<in> (if rv_collection (si_free_items p) = [] then {si_next p} else set (rv_collection (si_free_items p)))
        \<and> set (rv_collection free') = set (rv_collection (si_free_items p)) - {x}"
    using take_item_spec [OF pk(1) fresh] by blast
  let ?p = "p\<lparr>si_free_items := free', si_used_items := used', si_next := (if rv_empty (si_free_items p) then si_next p + 1 else si_next p)\<rparr>"
  have "si_items ?p \<subseteq> {..< si_next ?p}"
  proof (cases r)
    case None
    then show ?thesis using t(5) pk(2) by (auto simp: si_items_def)
  next
    case (Some x)
    then show ?thesis using t(6) [OF Some] pk(2) by (auto simp: si_items_def rv_empty_def split: if_splits)
  qed
  then have "si_ok ?p" using t(2) by (simp add: si_ok_def)
  then show ?thesis using t(1,3,4,6) by (intro exI [of _ ?p] exI [of _ r]) (simp add: get_item_def)
qed

lemma return_item_spec:
  assumes ok: "si_ok p"
  shows "(return_item x p = None \<longleftrightarrow> x \<notin> set (rv_collection (si_used_items p)))
    \<and> (\<forall>p'. return_item x p = Some p' \<longrightarrow> si_ok p' \<and> si_items p' = si_items p \<and> si_next p' = si_next p
         \<and> set (rv_collection (si_used_items p')) = set (rv_collection (si_used_items p)) - {x})"
proof -
  have pk: "pool_ok (si_free_items p) (si_used_items p)" "si_items p \<subseteq> {..< si_next p}" using ok by (auto simp: si_ok_def)
  obtain free' used' where g: "give_back x (si_free_items p) (si_used_items p) = Some (free', used', x \<in> set (rv_collection (si_used_items p)))"
      "pool_ok free' used'"
      "if x \<in> set (rv_collection (si_used_items p))
       then set (rv_collection used') = set (rv_collection (si_used_items p)) - {x} \<and> set (rv_collection free') = insert x (set (rv_collection (si_free_items p)))
       else free' = si_free_items p \<and> used' = si_used_items p"
    using give_back_spec [OF pk(1)] by blast
  show ?thesis
  proof (cases "x \<in> set (rv_collection (si_used_items p))")
    case True
    have "si_items (p\<lparr>si_free_items := free', si_used_items := used'\<rparr>) = si_items p" using True g(3) by (auto simp: si_items_def)
    then show ?thesis using True g pk(2) by (simp add: return_item_def si_ok_def)
  next
    case False
    then show ?thesis using g(1) by (simp add: return_item_def)
  qed
qed

text \<open>Beyond the limit \<open>get_item\<close> allocates a sample info that is in no list: nothing will delete it.\<close>

lemma sample_info_leaks_at_the_limit:
  assumes "si_ok p" and "length (rv_collection (si_used_items p)) = rv_limit (si_used_items p)"
  shows "\<exists>p'. get_item p = Some (p', None) \<and> si_next p' = si_next p + 1 \<and> si_next p \<notin> si_items p'"
proof -
  have "rv_collection (si_free_items p) = []" using assms by (auto simp: si_ok_def pool_ok_def)
  moreover obtain used' where "rv_emplace_back (si_next p) (si_used_items p) = Some (used', False)" "used' = si_used_items p"
    using emplace_back_full [of "si_used_items p" "si_next p"] assms by (auto simp: si_ok_def pool_ok_def)
  moreover have "si_next p \<notin> si_items p" using assms(1) by (auto simp: si_ok_def)
  ultimately show ?thesis by (simp add: get_item_def take_item_def rv_empty_def rv_push_back_def si_items_def)
qed

text \<open>An index below zero passes the check of \<open>operator []\<close> and reads before the buffer.\<close>

lemma negative_index_is_not_checked:
  "0 \<le> lc_length c \<Longrightarrow> n < 0 \<Longrightarrow> lc_index buffer n c = None"
  by (simp add: lc_index_def)

subsection \<open>The property\<close>

text \<open>
  C37. Loans are accounted: whatever sequence of \<open>get_loan\<close> and \<open>return_loan\<close> a reader's loan manager has run, with any
  collections, no assertion failed; every buffer it ever allocated is in exactly one of its items, and there are at most two
  per allowed outstanding read.  \<open>get_loan\<close> answers RETCODE_OUT_OF_RESOURCES, changing nothing, exactly when all
  allowed loans are out, and otherwise lends an item that is not out; \<open>return_loan\<close> takes back exactly what is out
  and answers RETCODE_PRECONDITION_NOT_MET for anything else.  What \<open>get_loan\<close> put in two empty collections can be returned.
\<close>

theorem loans_are_accounted:
  assumes "loans_reachable cfg max_samples m" and "rc_ok cfg" and "0 < max_samples"
  shows "(\<Union>x \<in> lm_items m. {fst x, snd x}) = Some ` {..< lm_next m} \<and> lm_next m \<le> 2 * unat (rc_maximum cfg)
    \<and> (\<forall>x \<in> lm_items m. \<forall>y \<in> lm_items m. x \<noteq> y \<longrightarrow> {fst x, snd x} \<inter> {fst y, snd y} = {})
    \<and> (\<forall>d i. \<exists>m' d' i' r. get_loan d i m = Some (m', d', i', r)
      \<and> (if length (rv_collection (lm_used_loans m)) = unat (rc_maximum cfg)
         then m' = m \<and> d' = d \<and> i' = i \<and> r = RETCODE_OUT_OF_RESOURCES
         else \<exists>x \<in> lm_items m' - set (rv_collection (lm_used_loans m)).
           set (rv_collection (lm_used_loans m')) = insert x (set (rv_collection (lm_used_loans m)))
           \<and> d' = fst (lc_loan (fst x) max_samples 0 d) \<and> i' = fst (lc_loan (snd x) max_samples 0 i) \<and> r = RETCODE_OK))
    \<and> (\<forall>d i. \<exists>m'. return_loan d i m =
        Some (m', if (lc_elements d, lc_elements i) \<in> set (rv_collection (lm_used_loans m)) then RETCODE_OK else RETCODE_PRECONDITION_NOT_MET)
      \<and> lm_items m' = lm_items m
      \<and> set (rv_collection (lm_used_loans m')) = set (rv_collection (lm_used_loans m)) - {(lc_elements d, lc_elements i)})
    \<and> (\<forall>m' d' i'. get_loan LoanableCollection_new LoanableCollection_new m = Some (m', d', i', RETCODE_OK) \<longrightarrow>
      (\<exists>m''. return_loan d' i' m' = Some (m'', RETCODE_OK)
        \<and> set (rv_collection (lm_used_loans m'')) = set (rv_collection (lm_used_loans m))))"
proof -
  have ok: "lm_ok cfg max_samples m" using loans_reachable_ok assms(1,2) by blast
  note p = loaned_buffers_partition [OF ok]
  show ?thesis
  proof (intro conjI allI ballI impI, goal_cases)
    case (4 d i)
    then show ?case using get_loan_spec [OF ok, of d i] by fast
  next
    case (5 d i)
    then show ?case using return_loan_spec [OF ok, of d i] by fast
  next
    case (6 m' d' i')
    then show ?case by (rule loan_given_back [OF ok assms(3)])
  qed (use p in simp_all)
qed

definition TwoReads :: ResourceLimitedContainerConfig where
  "TwoReads = \<lparr>rc_initial = 1, rc_maximum = 2, rc_increment = 1\<rparr>"

definition Borrow :: "DataReaderLoanManager \<Rightarrow> DataReaderLoanManager" where
  "Borrow m = fst (the (get_loan LoanableCollection_new LoanableCollection_new m))"

definition AllOut :: DataReaderLoanManager where
  "AllOut = Borrow (Borrow (the (DataReaderLoanManager_new TwoReads 8)))"

lemma all_out_reachable: "loans_reachable TwoReads 8 AllOut"
proof -
  let ?m = "the (DataReaderLoanManager_new TwoReads 8)"
  have "DataReaderLoanManager_new TwoReads 8 \<noteq> None" by code_simp
  then have r: "loans_reachable TwoReads 8 ?m" by (intro loans_start) simp
  have lent: "loans_reachable TwoReads 8 (Borrow m)"
    if "loans_reachable TwoReads 8 m" and "get_loan LoanableCollection_new LoanableCollection_new m \<noteq> None" for m
    using that loans_get [of TwoReads 8 m] by (cases "the (get_loan LoanableCollection_new LoanableCollection_new m)") (auto simp: Borrow_def)
  have "get_loan LoanableCollection_new LoanableCollection_new ?m \<noteq> None"
       "get_loan LoanableCollection_new LoanableCollection_new (Borrow ?m) \<noteq> None" by code_simp+
  then show ?thesis using lent lent [OF r] r by (simp add: AllOut_def)
qed

theorem loans_are_accounted_witness:
  "get_loan LoanableCollection_new LoanableCollection_new AllOut
     = Some (AllOut, LoanableCollection_new, LoanableCollection_new, RETCODE_OUT_OF_RESOURCES)"
proof -
  have "rc_ok TwoReads" and pos: "(0 :: int) < 8" by (simp_all add: rc_ok_def TwoReads_def)
  note all = loans_are_accounted [OF all_out_reachable this]
  note lending = all [THEN conjunct2, THEN conjunct2, THEN conjunct2, THEN conjunct1, rule_format,
      of LoanableCollection_new LoanableCollection_new]
  have "length (rv_collection (lm_used_loans AllOut)) = unat (rc_maximum TwoReads)" by code_simp
  then show ?thesis using lending by (simp only: if_True refl) blast
qed

end
