(* ===== verification/Shared_Mutex.thy ===== *)
theory Shared_Mutex
  imports Sdk_Prelude
begin

text \<open>
  \<open>fastrtps/utils/shared_mutex.hpp\<close>: the reader-writer lock with readers or writers preferred, and the wrapper that
  records its owners.

  Every operation runs under one mutex except while it waits, so that a step of the system is one critical section: an
  operation up to its return or its wait, or the check of a loop after a wait.  A thread that waits on a condition
  variable is blocked until it is notified or wakes by itself; \<open>notify_one\<close> chooses among the blocked threads.
\<close>

unbundle bit_operations_syntax

datatype shared_mutex_type = PTHREAD_RWLOCK_PREFER_READER_NP | PTHREAD_RWLOCK_PREFER_WRITER_NONRECURSIVE_NP

definition write_entered :: u32 where "write_entered = push_bit 31 1"
definition n_readers :: u32 where "n_readers = NOT write_entered"

text \<open>
  Where a thread is: outside, in \<open>lock_shared\<close>, in the first or the second loop of \<open>lock\<close>, or holding the lock.
\<close>

datatype Phase =
  Outside | ReadBlocked | ReadWoken | Reading | WriteBlocked | WriteWoken | DrainBlocked | DrainWoken | Writing

record SharedMutex =
  sm_state :: u32
  sm_writer_waiting :: u32
  sm_threads :: "Phase list"

definition shared_mutex_new :: "nat \<Rightarrow> SharedMutex" where
  "shared_mutex_new n = \<lparr>sm_state = 0, sm_writer_waiting = 0, sm_threads = replicate n Outside\<rparr>"

definition go :: "nat \<Rightarrow> Phase \<Rightarrow> SharedMutex \<Rightarrow> SharedMutex" where
  "go t p m = m\<lparr>sm_threads := (sm_threads m)[t := p]\<rparr>"

subsection \<open>Condition variables\<close>

fun wake :: "Phase \<Rightarrow> Phase" where
  "wake ReadBlocked = ReadWoken"
| "wake WriteBlocked = WriteWoken"
| "wake DrainBlocked = DrainWoken"
| "wake p = p"

definition on_gate1 :: "Phase \<Rightarrow> bool" where "on_gate1 p \<longleftrightarrow> p = ReadBlocked \<or> p = WriteBlocked"
definition on_gate2 :: "Phase \<Rightarrow> bool" where "on_gate2 p \<longleftrightarrow> p = DrainBlocked"

definition notify_all :: "(Phase \<Rightarrow> bool) \<Rightarrow> SharedMutex \<Rightarrow> SharedMutex" where
  "notify_all gate m = m\<lparr>sm_threads := map (\<lambda>p. if gate p then wake p else p) (sm_threads m)\<rparr>"

text \<open>\<open>w\<close> is the choice of the condition variable.\<close>

definition notify_one :: "nat \<Rightarrow> (Phase \<Rightarrow> bool) \<Rightarrow> SharedMutex \<Rightarrow> SharedMutex" where
  "notify_one w gate m =
     (if w < length (sm_threads m) \<and> gate (sm_threads m ! w) then go w (wake (sm_threads m ! w)) m else m)"

definition fair_choice :: "nat \<Rightarrow> (Phase \<Rightarrow> bool) \<Rightarrow> SharedMutex \<Rightarrow> bool" where
  "fair_choice w gate m \<longleftrightarrow> (list_ex gate (sm_threads m) \<longrightarrow> w < length (sm_threads m) \<and> gate (sm_threads m ! w))"

subsection \<open>Exclusive ownership\<close>

definition try_lock :: "nat \<Rightarrow> SharedMutex \<Rightarrow> SharedMutex \<times> bool" where
  "try_lock t m = (if sm_state m = 0 then (go t Writing (m\<lparr>sm_state := write_entered\<rparr>), True) else (m, False))"

definition unlock :: "nat \<Rightarrow> SharedMutex \<Rightarrow> SharedMutex" where
  "unlock t m = notify_all on_gate1 (go t Outside (m\<lparr>sm_state := 0\<rparr>))"

text \<open>\<open>lock\<close> with writers preferred: the first loop, and the second one.\<close>

definition DrainLoop :: "nat \<Rightarrow> SharedMutex \<Rightarrow> SharedMutex" where
  "DrainLoop t m = (if sm_state m AND n_readers \<noteq> 0 then go t DrainBlocked m else go t Writing m)"

definition lock_prefer_writer :: "nat \<Rightarrow> SharedMutex \<Rightarrow> SharedMutex" where
  "lock_prefer_writer t m =
     (if sm_state m AND write_entered \<noteq> 0 then go t WriteBlocked m
      else DrainLoop t (m\<lparr>sm_state := sm_state m OR write_entered\<rparr>))"

text \<open>\<open>lock\<close> with readers preferred.\<close>

definition LockLoop :: "nat \<Rightarrow> SharedMutex \<Rightarrow> SharedMutex" where
  "LockLoop t m =
     (if sm_state m AND n_readers \<noteq> 0 \<or> sm_state m AND write_entered \<noteq> 0 then go t WriteBlocked m
      else go t Writing (m\<lparr>sm_state := sm_state m OR write_entered, sm_writer_waiting := sm_writer_waiting m - 1\<rparr>))"

definition lock_prefer_reader :: "nat \<Rightarrow> SharedMutex \<Rightarrow> SharedMutex" where
  "lock_prefer_reader t m = LockLoop t (m\<lparr>sm_writer_waiting := sm_writer_waiting m + 1\<rparr>)"

subsection \<open>Shared ownership\<close>

definition set_readers :: "u32 \<Rightarrow> u32 \<Rightarrow> u32" where
  "set_readers num_readers state = (state AND NOT n_readers) OR num_readers"

definition lock_shared :: "nat \<Rightarrow> SharedMutex \<Rightarrow> SharedMutex" where
  "lock_shared t m =
     (if sm_state m AND write_entered \<noteq> 0 \<or> sm_state m AND n_readers = n_readers then go t ReadBlocked m
      else go t Reading (m\<lparr>sm_state := set_readers ((sm_state m AND n_readers) + 1) (sm_state m)\<rparr>))"

definition try_lock_shared :: "nat \<Rightarrow> SharedMutex \<Rightarrow> SharedMutex \<times> bool" where
  "try_lock_shared t m =
     (let num_readers = sm_state m AND n_readers in
      if \<not> sm_state m AND write_entered \<noteq> 0 \<and> num_readers \<noteq> n_readers
      then (go t Reading (m\<lparr>sm_state := set_readers (num_readers + 1) (sm_state m)\<rparr>), True)
      else (m, False))"

definition unlock_shared_prefer_writer :: "nat \<Rightarrow> nat \<Rightarrow> SharedMutex \<Rightarrow> SharedMutex" where
  "unlock_shared_prefer_writer w t m =
     (let num_readers = (sm_state m AND n_readers) - 1;
          m1 = go t Outside (m\<lparr>sm_state := set_readers num_readers (sm_state m)\<rparr>)
      in if sm_state m1 AND write_entered \<noteq> 0
         then if num_readers = 0 then notify_one w on_gate2 m1 else m1
         else if num_readers = n_readers - 1 then notify_one w on_gate1 m1 else m1)"

definition unlock_shared_prefer_reader :: "nat \<Rightarrow> nat \<Rightarrow> SharedMutex \<Rightarrow> SharedMutex" where
  "unlock_shared_prefer_reader w t m =
     (let num_readers = (sm_state m AND n_readers) - 1;
          m1 = go t Outside (m\<lparr>sm_state := set_readers num_readers (sm_state m)\<rparr>)
      in if sm_writer_waiting m1 \<noteq> 0 \<and> num_readers = 0 \<or> num_readers = n_readers - 1
         then notify_one w on_gate1 m1 else m1)"

subsection \<open>The word of the state\<close>

definition enc :: "bool \<Rightarrow> nat \<Rightarrow> u32" where
  "enc writer readers = (if writer then write_entered else 0) OR of_nat readers"

lemma high_bit_clear:
  assumes "(r :: nat) < 2 ^ 31" and "n \<ge> 31"
  shows "\<not> bit r n"
proof -
  have "take_bit 31 r = r" using assms(1) by (simp only: take_bit_nat_eq_self)
  then show ?thesis using assms(2) by (metis bit_take_bit_iff not_le)
qed

lemma bit_write_entered: "bit write_entered n \<longleftrightarrow> n = 31"
  unfolding write_entered_def by (simp only: bit_push_bit_iff bit_1_iff possible_bit_word len_bit0 len_num1) auto

lemmas state_bits = enc_def n_readers_def bit_simps bit_write_entered

lemma enc_writer: "r < 2 ^ 31 \<Longrightarrow> enc w r AND write_entered = (if w then write_entered else 0)"
  using high_bit_clear [of r 31] by (intro bit_eqI) (auto simp: state_bits)

lemma enc_readers: "r < 2 ^ 31 \<Longrightarrow> enc w r AND n_readers = of_nat r"
  using high_bit_clear [of r 31] by (intro bit_eqI) (auto simp: state_bits)

lemma set_readers_enc: "r < 2 ^ 31 \<Longrightarrow> set_readers (of_nat k) (enc w r) = enc w k"
  using high_bit_clear [of r 31] by (intro bit_eqI) (auto simp: state_bits set_readers_def)

lemma enc_or: "enc w r OR write_entered = enc True r"
  by (intro bit_eqI) (auto simp: state_bits)

lemma write_entered_nonzero [simp]: "write_entered \<noteq> 0"
  using bit_write_entered [of 31] by auto

lemma of_nat_small: "r < 2 ^ 31 \<Longrightarrow> s < 2 ^ 31 \<Longrightarrow> (of_nat r :: u32) = of_nat s \<longleftrightarrow> r = s"
  by (simp add: word_of_nat_eq_iff take_bit_nat_eq_self)

lemma enc_zero: "r < 2 ^ 31 \<Longrightarrow> enc w r = 0 \<longleftrightarrow> \<not> w \<and> r = 0"
  using enc_writer [of r w] enc_readers [of r w] of_nat_small [of r 0] by (cases w) (auto simp: enc_def)

lemma n_readers_max: "n_readers = of_nat (2 ^ 31 - 1)"
  by (simp add: n_readers_def write_entered_def)

lemma not_full: "r < 2 ^ 31 - 1 \<Longrightarrow> of_nat r \<noteq> n_readers"
  using of_nat_small [of r "2 ^ 31 - 1"] unfolding n_readers_max by simp

subsection \<open>The steps of the threads\<close>

fun sm_lock :: "shared_mutex_type \<Rightarrow> nat \<Rightarrow> SharedMutex \<Rightarrow> SharedMutex" where
  "sm_lock PTHREAD_RWLOCK_PREFER_READER_NP t m = lock_prefer_reader t m"
| "sm_lock PTHREAD_RWLOCK_PREFER_WRITER_NONRECURSIVE_NP t m = lock_prefer_writer t m"

fun sm_lock_again :: "shared_mutex_type \<Rightarrow> nat \<Rightarrow> SharedMutex \<Rightarrow> SharedMutex" where
  "sm_lock_again PTHREAD_RWLOCK_PREFER_READER_NP t m = LockLoop t m"
| "sm_lock_again PTHREAD_RWLOCK_PREFER_WRITER_NONRECURSIVE_NP t m = lock_prefer_writer t m"

fun sm_unlock_shared :: "shared_mutex_type \<Rightarrow> nat \<Rightarrow> nat \<Rightarrow> SharedMutex \<Rightarrow> SharedMutex" where
  "sm_unlock_shared PTHREAD_RWLOCK_PREFER_READER_NP w t m = unlock_shared_prefer_reader w t m"
| "sm_unlock_shared PTHREAD_RWLOCK_PREFER_WRITER_NONRECURSIVE_NP w t m = unlock_shared_prefer_writer w t m"

text \<open>A step by which a woken thread leaves its wait.\<close>

inductive sm_resume :: "shared_mutex_type \<Rightarrow> nat \<Rightarrow> SharedMutex \<Rightarrow> SharedMutex \<Rightarrow> bool" for ty t where
  resume_shared: "t < length (sm_threads m) \<Longrightarrow> sm_threads m ! t = ReadWoken \<Longrightarrow> sm_resume ty t m (lock_shared t m)"
| resume_lock: "t < length (sm_threads m) \<Longrightarrow> sm_threads m ! t = WriteWoken \<Longrightarrow> sm_resume ty t m (sm_lock_again ty t m)"
| resume_drain: "t < length (sm_threads m) \<Longrightarrow> sm_threads m ! t = DrainWoken \<Longrightarrow> sm_resume ty t m (DrainLoop t m)"

inductive sm_step :: "shared_mutex_type \<Rightarrow> SharedMutex \<Rightarrow> SharedMutex \<Rightarrow> bool" for ty where
  step_resume: "sm_resume ty t m m' \<Longrightarrow> sm_step ty m m'"
| step_spurious: "t < length (sm_threads m) \<Longrightarrow> sm_step ty m (go t (wake (sm_threads m ! t)) m)"
| step_lock: "t < length (sm_threads m) \<Longrightarrow> sm_threads m ! t = Outside \<Longrightarrow> sm_step ty m (sm_lock ty t m)"
| step_try_lock: "t < length (sm_threads m) \<Longrightarrow> sm_threads m ! t = Outside \<Longrightarrow> sm_step ty m (fst (try_lock t m))"
| step_lock_shared: "t < length (sm_threads m) \<Longrightarrow> sm_threads m ! t = Outside \<Longrightarrow> sm_step ty m (lock_shared t m)"
| step_try_lock_shared:
    "t < length (sm_threads m) \<Longrightarrow> sm_threads m ! t = Outside \<Longrightarrow> sm_step ty m (fst (try_lock_shared t m))"
| step_unlock: "t < length (sm_threads m) \<Longrightarrow> sm_threads m ! t = Writing \<Longrightarrow> sm_step ty m (unlock t m)"
| step_unlock_shared:
    "t < length (sm_threads m) \<Longrightarrow> sm_threads m ! t = Reading \<Longrightarrow>
     fair_choice w (if sm_state m AND write_entered \<noteq> 0 then on_gate2 else on_gate1) m \<Longrightarrow>
     sm_step ty m (sm_unlock_shared ty w t m)"

inductive sm_reachable :: "shared_mutex_type \<Rightarrow> nat \<Rightarrow> SharedMutex \<Rightarrow> bool" for ty n where
  sm_start: "sm_reachable ty n (shared_mutex_new n)"
| sm_next: "sm_reachable ty n m \<Longrightarrow> sm_step ty m m' \<Longrightarrow> sm_reachable ty n m'"

subsection \<open>Counting the threads\<close>

definition num :: "SharedMutex \<Rightarrow> Phase \<Rightarrow> nat" where "num m p = count_list (sm_threads m) p"

lemma count_list_update:
  "t < length xs \<Longrightarrow> count_list (xs[t := p]) q + (if xs ! t = q then 1 else 0) = count_list xs q + (if p = q then 1 else 0)"
proof (induction xs arbitrary: t)
  case (Cons x xs)
  show ?case
  proof (cases t)
    case (Suc k)
    then show ?thesis using Cons.IH [of k] Cons.prems by (auto split: if_splits)
  qed simp
qed simp

lemma num_go:
  assumes "t < length (sm_threads m)"
  shows "num (go t p m) q = num m q + (if p = q then 1 else 0) - (if sm_threads m ! t = q then 1 else 0)"
  using count_list_update [OF assms, of p q] by (simp add: num_def go_def)

lemma num_pos: "0 < num m p \<longleftrightarrow> p \<in> set (sm_threads m)"
  by (simp add: num_def count_list_0_iff flip: neq0_conv)

lemma num_here: "t < length (sm_threads m) \<Longrightarrow> 0 < num m (sm_threads m ! t)"
  by (simp add: num_pos)

lemma num_le: "num m p \<le> length (sm_threads m)"
  by (simp add: num_def count_le_length)

lemma num_fields [simp]:
  "num (m\<lparr>sm_state := x\<rparr>) p = num m p" "num (m\<lparr>sm_writer_waiting := y\<rparr>) p = num m p"
  by (simp_all add: num_def)

lemma go_fields [simp]:
  "sm_state (go t p m) = sm_state m" "sm_writer_waiting (go t p m) = sm_writer_waiting m"
  "length (sm_threads (go t p m)) = length (sm_threads m)"
  by (simp_all add: go_def)

lemma num_notify_all:
  "num (notify_all on_gate1 m) p =
     (case p of ReadBlocked \<Rightarrow> 0 | WriteBlocked \<Rightarrow> 0 | ReadWoken \<Rightarrow> num m ReadWoken + num m ReadBlocked
      | WriteWoken \<Rightarrow> num m WriteWoken + num m WriteBlocked | _ \<Rightarrow> num m p)"
proof -
  have "count_list (map (\<lambda>p. if on_gate1 p then wake p else p) xs) p =
     (case p of ReadBlocked \<Rightarrow> 0 | WriteBlocked \<Rightarrow> 0 | ReadWoken \<Rightarrow> count_list xs ReadWoken + count_list xs ReadBlocked
      | WriteWoken \<Rightarrow> count_list xs WriteWoken + count_list xs WriteBlocked | _ \<Rightarrow> count_list xs p)" for xs
    by (induction xs) (auto simp: on_gate1_def split: Phase.splits)
  then show ?thesis by (simp add: num_def notify_all_def split: Phase.split)
qed

lemma notify_all_fields [simp]:
  "sm_state (notify_all gate m) = sm_state m" "sm_writer_waiting (notify_all gate m) = sm_writer_waiting m"
  "length (sm_threads (notify_all gate m)) = length (sm_threads m)"
  by (simp_all add: notify_all_def)

subsection \<open>The invariant\<close>

definition claims :: "(Phase \<Rightarrow> nat) \<Rightarrow> nat" where "claims c = c Writing + c DrainBlocked + c DrainWoken"

definition counts_ok :: "shared_mutex_type \<Rightarrow> (Phase \<Rightarrow> nat) \<Rightarrow> u32 \<Rightarrow> bool" where
  "counts_ok ty c waiting \<longleftrightarrow>
     claims c \<le> 1 \<and> (0 < c Writing \<longrightarrow> c Reading = 0) \<and> (0 < c DrainBlocked \<longrightarrow> 0 < c Reading)
     \<and> (claims c = 0 \<longrightarrow> c ReadBlocked = 0)
     \<and> (case ty of
          PTHREAD_RWLOCK_PREFER_READER_NP \<Rightarrow>
            c DrainBlocked = 0 \<and> c DrainWoken = 0 \<and> waiting = of_nat (c WriteBlocked + c WriteWoken)
            \<and> (claims c = 0 \<and> c Reading = 0 \<and> 0 < c WriteBlocked \<longrightarrow> 0 < c WriteWoken)
        | PTHREAD_RWLOCK_PREFER_WRITER_NONRECURSIVE_NP \<Rightarrow> claims c = 0 \<longrightarrow> c WriteBlocked = 0)"

definition sm_ok :: "shared_mutex_type \<Rightarrow> SharedMutex \<Rightarrow> bool" where
  "sm_ok ty m \<longleftrightarrow> length (sm_threads m) < 2 ^ 31 - 1 \<and> sm_state m = enc (claims (num m) = 1) (num m Reading)
     \<and> counts_ok ty (num m) (sm_writer_waiting m)"

lemma sm_okD:
  assumes "sm_ok ty m"
  shows "sm_state m AND write_entered = (if claims (num m) = 1 then write_entered else 0)"
    and "sm_state m AND n_readers = of_nat (num m Reading)"
    and "num m Reading < 2 ^ 31 - 1"
    and "set_readers (of_nat k) (sm_state m) = enc (claims (num m) = 1) k"
    and "sm_state m = 0 \<longleftrightarrow> claims (num m) \<noteq> 1 \<and> num m Reading = 0"
proof -
  have r: "num m Reading < 2 ^ 31 - 1" and s: "sm_state m = enc (claims (num m) = 1) (num m Reading)"
    using assms num_le [of m Reading] by (auto simp: sm_ok_def)
  then have r': "num m Reading < 2 ^ 31" by simp
  show "num m Reading < 2 ^ 31 - 1" by (rule r)
  show "sm_state m AND write_entered = (if claims (num m) = 1 then write_entered else 0)"
    "sm_state m AND n_readers = of_nat (num m Reading)" "set_readers (of_nat k) (sm_state m) = enc (claims (num m) = 1) k"
    "sm_state m = 0 \<longleftrightarrow> claims (num m) \<noteq> 1 \<and> num m Reading = 0"
    by (simp_all only: s enc_writer [OF r'] enc_readers [OF r'] set_readers_enc [OF r'] enc_zero [OF r'] simp_thms)
qed

lemma sm_ok_go:
  assumes "sm_ok ty m" and "t < length (sm_threads m)"
    and "sm_state m' = enc (claims (num (go t p m)) = 1) (num (go t p m) Reading)"
    and "sm_threads m' = sm_threads m" and "counts_ok ty (num (go t p m)) (sm_writer_waiting m')"
  shows "sm_ok ty (go t p m')"
proof -
  have "num (go t p m') = num (go t p m)" by (rule ext) (simp add: num_def go_def assms(4))
  then show ?thesis using assms by (simp add: sm_ok_def)
qed

lemma sm_ok_go_same:
  assumes "sm_ok ty m" and "t < length (sm_threads m)" and "claims (num (go t p m)) = claims (num m)"
    and "num (go t p m) Reading = num m Reading" and "counts_ok ty (num (go t p m)) (sm_writer_waiting m)"
  shows "sm_ok ty (go t p m)"
  using assms by (intro sm_ok_go) (simp_all add: sm_ok_def)

lemmas count_steps = counts_ok_def claims_def num_go

lemma lock_shared_ok:
  assumes ok: "sm_ok ty m" and t: "t < length (sm_threads m)" and p: "sm_threads m ! t \<in> {Outside, ReadWoken}"
  shows "sm_ok ty (lock_shared t m)"
    and "sm_threads (lock_shared t m) ! t = (if claims (num m) = 1 then ReadBlocked else Reading)"
proof -
  note d = sm_okD [OF ok]
  have c: "counts_ok ty (num m) (sm_writer_waiting m)" using ok by (simp add: sm_ok_def)
  have l: "lock_shared t m = (if claims (num m) = 1 then go t ReadBlocked m
      else go t Reading (m\<lparr>sm_state := enc False (Suc (num m Reading))\<rparr>))"
    using d(1,2) not_full [OF d(3)] d(4) [of "Suc (num m Reading)"] by (simp add: lock_shared_def add.commute)
  show "sm_threads (lock_shared t m) ! t = (if claims (num m) = 1 then ReadBlocked else Reading)"
    using l t by (simp add: go_def)
  show "sm_ok ty (lock_shared t m)"
  proof (cases "claims (num m) = 1")
    case True
    then show ?thesis unfolding l if_P [OF True] using c t p
      by (intro sm_ok_go_same [OF ok t]) (cases ty; auto simp: count_steps)+
  next
    case False
    then have z: "num m Writing = 0" "num m DrainBlocked = 0" "num m DrainWoken = 0"
      using c by (auto simp: counts_ok_def claims_def)
    show ?thesis unfolding l if_not_P [OF False] using c t p z
      by (intro sm_ok_go [OF ok t]) (cases ty; auto simp: count_steps)+
  qed
qed

lemma claims_le: "sm_ok ty m \<Longrightarrow> claims (num m) = 1 \<or> claims (num m) = 0"
  by (auto simp: sm_ok_def counts_ok_def)

lemma try_lock_shared_alt:
  assumes "sm_ok ty m"
  shows "try_lock_shared t m = (if claims (num m) = 1 then (m, False) else (lock_shared t m, True))"
  using sm_okD [OF assms] not_full [OF sm_okD(3) [OF assms]] by (simp add: try_lock_shared_def lock_shared_def)

lemma try_lock_ok:
  assumes ok: "sm_ok ty m" and t: "t < length (sm_threads m)" and p: "sm_threads m ! t = Outside"
  shows "sm_ok ty (fst (try_lock t m))" and "snd (try_lock t m) \<longleftrightarrow> claims (num m) = 0 \<and> num m Reading = 0"
proof -
  have c: "counts_ok ty (num m) (sm_writer_waiting m)" using ok by (simp add: sm_ok_def)
  show "snd (try_lock t m) \<longleftrightarrow> claims (num m) = 0 \<and> num m Reading = 0"
    using sm_okD(5) [OF ok] claims_le [OF ok] by (auto simp: try_lock_def)
  show "sm_ok ty (fst (try_lock t m))"
  proof (cases "sm_state m = 0")
    case True
    then have z: "num m Writing = 0" "num m DrainBlocked = 0" "num m DrainWoken = 0" "num m Reading = 0"
      using sm_okD(5) [OF ok] claims_le [OF ok] by (auto simp: claims_def)
    have l: "fst (try_lock t m) = go t Writing (m\<lparr>sm_state := enc True 0\<rparr>)" using True by (simp add: try_lock_def enc_def)
    show ?thesis unfolding l
      using c t p z by (intro sm_ok_go [OF ok t]) (auto simp: count_steps split: shared_mutex_type.splits)
  qed (use ok in \<open>simp add: try_lock_def\<close>)
qed

lemma DrainLoop_ok:
  assumes ok: "sm_ok PTHREAD_RWLOCK_PREFER_WRITER_NONRECURSIVE_NP m" and t: "t < length (sm_threads m)"
    and p: "sm_threads m ! t = DrainWoken"
  shows "sm_ok PTHREAD_RWLOCK_PREFER_WRITER_NONRECURSIVE_NP (DrainLoop t m)"
    and "num m Reading = 0 \<Longrightarrow> sm_threads (DrainLoop t m) ! t = Writing"
proof -
  have c: "counts_ok PTHREAD_RWLOCK_PREFER_WRITER_NONRECURSIVE_NP (num m) (sm_writer_waiting m)" using ok by (simp add: sm_ok_def)
  have here: "0 < num m DrainWoken" using num_here [OF t] p by simp
  have l: "DrainLoop t m = go t (if num m Reading = 0 then Writing else DrainBlocked) m"
    using sm_okD(2,3) [OF ok] of_nat_small [of "num m Reading" 0] by (simp add: DrainLoop_def)
  then show "num m Reading = 0 \<Longrightarrow> sm_threads (DrainLoop t m) ! t = Writing" using t by (simp add: go_def)
  show "sm_ok PTHREAD_RWLOCK_PREFER_WRITER_NONRECURSIVE_NP (DrainLoop t m)"
    unfolding l using c here t p by (intro sm_ok_go_same [OF ok t]) (auto simp: count_steps)
qed

lemma lock_prefer_writer_ok:
  assumes ok: "sm_ok PTHREAD_RWLOCK_PREFER_WRITER_NONRECURSIVE_NP m" and t: "t < length (sm_threads m)"
    and p: "sm_threads m ! t \<in> {Outside, WriteWoken}"
  shows "sm_ok PTHREAD_RWLOCK_PREFER_WRITER_NONRECURSIVE_NP (lock_prefer_writer t m)"
    and "sm_threads (lock_prefer_writer t m) ! t =
      (if claims (num m) = 1 then WriteBlocked else if num m Reading = 0 then Writing else DrainBlocked)"
proof -
  note d = sm_okD [OF ok]
  have c: "counts_ok PTHREAD_RWLOCK_PREFER_WRITER_NONRECURSIVE_NP (num m) (sm_writer_waiting m)" using ok by (simp add: sm_ok_def)
  have r: "num m Reading < 2 ^ 31" using d(3) by simp
  have l: "lock_prefer_writer t m = (if claims (num m) = 1 then go t WriteBlocked m
      else go t (if num m Reading = 0 then Writing else DrainBlocked) (m\<lparr>sm_state := enc True (num m Reading)\<rparr>))"
    using d(1) ok r of_nat_small [of "num m Reading" 0]
    by (simp add: lock_prefer_writer_def DrainLoop_def sm_ok_def enc_or enc_readers)
  show "sm_threads (lock_prefer_writer t m) ! t =
      (if claims (num m) = 1 then WriteBlocked else if num m Reading = 0 then Writing else DrainBlocked)"
    using l t by (simp add: go_def)
  show "sm_ok PTHREAD_RWLOCK_PREFER_WRITER_NONRECURSIVE_NP (lock_prefer_writer t m)"
  proof (cases "claims (num m) = 1")
    case True
    then show ?thesis using l c t p by (auto intro!: sm_ok_go_same [OF ok t] simp: count_steps)
  next
    case False
    then have z: "num m Writing = 0" "num m DrainBlocked = 0" "num m DrainWoken = 0"
      using claims_le [OF ok] by (auto simp: claims_def)
    show ?thesis using l c t p False z by (auto intro!: sm_ok_go [OF ok t] simp: count_steps)
  qed
qed

lemma LockLoop_ok:
  assumes ok: "sm_ok PTHREAD_RWLOCK_PREFER_READER_NP m" and t: "t < length (sm_threads m)" and p: "sm_threads m ! t = WriteWoken"
  shows "sm_ok PTHREAD_RWLOCK_PREFER_READER_NP (LockLoop t m)"
    and "claims (num m) = 0 \<Longrightarrow> num m Reading = 0 \<Longrightarrow> sm_threads (LockLoop t m) ! t = Writing"
proof -
  note d = sm_okD [OF ok]
  have c: "counts_ok PTHREAD_RWLOCK_PREFER_READER_NP (num m) (sm_writer_waiting m)" using ok by (simp add: sm_ok_def)
  have here: "0 < num m WriteWoken" using num_here [OF t] p by simp
  have r: "num m Reading < 2 ^ 31" using d(3) by simp
  have l: "LockLoop t m = (if claims (num m) = 1 \<or> num m Reading \<noteq> 0 then go t WriteBlocked m
      else go t Writing (m\<lparr>sm_state := enc True 0, sm_writer_waiting := sm_writer_waiting m - 1\<rparr>))"
    using d(1,2) ok r of_nat_small [of "num m Reading" 0] by (auto simp: LockLoop_def sm_ok_def enc_or)
  show "claims (num m) = 0 \<Longrightarrow> num m Reading = 0 \<Longrightarrow> sm_threads (LockLoop t m) ! t = Writing" using l t by (simp add: go_def)
  show "sm_ok PTHREAD_RWLOCK_PREFER_READER_NP (LockLoop t m)"
  proof (cases "claims (num m) = 1 \<or> num m Reading \<noteq> 0")
    case True
    then show ?thesis unfolding l using c here t p by (auto intro!: sm_ok_go_same [OF ok t] simp: count_steps)
  next
    case False
    then have z: "num m Writing = 0" "num m DrainBlocked = 0" "num m DrainWoken = 0" "num m Reading = 0"
      using claims_le [OF ok] by (auto simp: claims_def)
    have "sm_writer_waiting m - 1 = of_nat (num m WriteBlocked + (num m WriteWoken - 1))"
      using c here by (cases "num m WriteWoken") (simp_all add: counts_ok_def)
    then show ?thesis unfolding l using False c here t p z
      by (auto intro!: sm_ok_go [OF ok t] simp: count_steps)
  qed
qed

text \<open>A new writer is a waiting one that looks at once.\<close>

lemma lock_prefer_reader_ok:
  assumes ok: "sm_ok PTHREAD_RWLOCK_PREFER_READER_NP m" and t: "t < length (sm_threads m)" and p: "sm_threads m ! t = Outside"
  shows "sm_ok PTHREAD_RWLOCK_PREFER_READER_NP (lock_prefer_reader t m)"
proof -
  let ?m = "go t WriteWoken (m\<lparr>sm_writer_waiting := sm_writer_waiting m + 1\<rparr>)"
  have c: "counts_ok PTHREAD_RWLOCK_PREFER_READER_NP (num m) (sm_writer_waiting m)" using ok by (simp add: sm_ok_def)
  have "sm_ok PTHREAD_RWLOCK_PREFER_READER_NP ?m"
    using ok c t p by (intro sm_ok_go [OF ok t]) (auto simp: count_steps sm_ok_def)
  then have "sm_ok PTHREAD_RWLOCK_PREFER_READER_NP (LockLoop t ?m)"
    using t by (intro LockLoop_ok) (simp_all add: go_def)
  also have "LockLoop t ?m = lock_prefer_reader t m" by (simp add: LockLoop_def lock_prefer_reader_def go_def)
  finally show ?thesis .
qed

lemma unlock_ok:
  assumes ok: "sm_ok ty m" and t: "t < length (sm_threads m)" and p: "sm_threads m ! t = Writing"
  shows "sm_ok ty (unlock t m)"
proof -
  have c: "counts_ok ty (num m) (sm_writer_waiting m)" and len: "length (sm_threads m) < 2 ^ 31 - 1" using ok by (auto simp: sm_ok_def)
  have here: "0 < num m Writing" using num_here [OF t] p by simp
  have z: "num m Writing = 1" "num m DrainBlocked = 0" "num m DrainWoken = 0" "num m Reading = 0"
    using c here by (auto simp: counts_ok_def claims_def)
  let ?m = "go t Outside (m\<lparr>sm_state := 0\<rparr>)"
  have n: "num ?m q = num m q + (if Outside = q then 1 else 0) - (if Writing = q then 1 else 0)" for q
    using num_go [of t "m\<lparr>sm_state := 0\<rparr>" Outside q] t p by simp
  have e: "enc False 0 = 0" by (simp add: enc_def)
  show ?thesis unfolding unlock_def
    using c len z by (auto simp: sm_ok_def counts_ok_def claims_def num_notify_all n e split: shared_mutex_type.splits)
qed

lemma wake_ok:
  assumes ok: "sm_ok ty m" and t: "t < length (sm_threads m)"
  shows "sm_ok ty (go t (wake (sm_threads m ! t)) m)"
proof -
  have c: "counts_ok ty (num m) (sm_writer_waiting m)" using ok by (simp add: sm_ok_def)
  have here: "0 < num m (sm_threads m ! t)" using num_here [OF t] .
  show ?thesis using c here t
    by (intro sm_ok_go_same [OF ok t]; cases "sm_threads m ! t") (auto simp: count_steps split: shared_mutex_type.splits)
qed

lemma notify_fair:
  assumes fair: "fair_choice w gate m" and t: "t < length (sm_threads m)" and p: "sm_threads m ! t = Reading"
    and gate: "gate = on_gate1 \<or> gate = on_gate2" and same: "sm_threads m' = sm_threads m"
  shows "(\<forall>q \<in> set (sm_threads m). \<not> gate q) \<and> notify_one w gate (go t Outside m') = go t Outside m'
    \<or> w < length (sm_threads m) \<and> w \<noteq> t \<and> gate (sm_threads m ! w)
      \<and> notify_one w gate (go t Outside m') = go w (wake (sm_threads m ! w)) (go t Outside m')"
proof -
  have off: "\<not> gate Reading" "\<not> gate Outside" using gate by (auto simp: on_gate1_def on_gate2_def)
  have th: "sm_threads (go t Outside m') = (sm_threads m)[t := Outside]" by (simp add: go_def same)
  show ?thesis
  proof (cases "list_ex gate (sm_threads m)")
    case True
    then have w: "w < length (sm_threads m)" "gate (sm_threads m ! w)" using fair by (auto simp: fair_choice_def)
    then have "w \<noteq> t" using off p by auto
    then show ?thesis using w by (simp add: notify_one_def th)
  next
    case False
    then have none: "\<forall>q \<in> set (sm_threads m). \<not> gate q" by (simp add: list_ex_iff)
    have "\<not> gate ((sm_threads m)[t := Outside] ! w)" if "w < length (sm_threads m)"
      using none that off t by (cases "w = t") auto
    then show ?thesis using none by (auto simp: notify_one_def th)
  qed
qed

lemma not_last_reader:
  assumes "0 < r" and "r < 2 ^ 31 - 1"
  shows "(of_nat r - 1 :: u32) = of_nat (r - 1)" and "of_nat (r - 1) \<noteq> n_readers - 1"
    and "(of_nat (r - 1) :: u32) = 0 \<longleftrightarrow> r = 1"
proof -
  show "(of_nat r - 1 :: u32) = of_nat (r - 1)" using assms(1) by (cases r) simp_all
  have "n_readers - 1 = of_nat (2 ^ 31 - 2)" by (simp add: n_readers_max)
  then show "of_nat (r - 1) \<noteq> n_readers - 1" using of_nat_small [of "r - 1" "2 ^ 31 - 2"] assms by simp
  show "(of_nat (r - 1) :: u32) = 0 \<longleftrightarrow> r = 1" using of_nat_small [of "r - 1" 0] assms by auto
qed

lemma leave_shared:
  assumes ok: "sm_ok ty m" and t: "t < length (sm_threads m)" and p: "sm_threads m ! t = Reading"
  shows "set_readers ((sm_state m AND n_readers) - 1) (sm_state m) = enc (claims (num m) = 1) (num m Reading - 1)"
    and "(sm_state m AND n_readers) - 1 = of_nat (num m Reading - 1)"
    and "0 < num m Reading" and "num m Reading < 2 ^ 31 - 1" and "num m Writing = 0"
proof -
  show here: "0 < num m Reading" using num_here [OF t] p by simp
  show small: "num m Reading < 2 ^ 31 - 1" using sm_okD(3) [OF ok] .
  show eq: "(sm_state m AND n_readers) - 1 = of_nat (num m Reading - 1)"
    using not_last_reader(1) [OF here small] sm_okD(2) [OF ok] by simp
  show "set_readers ((sm_state m AND n_readers) - 1) (sm_state m) = enc (claims (num m) = 1) (num m Reading - 1)"
    unfolding eq by (rule sm_okD(4) [OF ok])
  show "num m Writing = 0" using ok here by (auto simp: sm_ok_def counts_ok_def)
qed

lemma unlock_shared_prefer_writer_ok:
  assumes ok: "sm_ok PTHREAD_RWLOCK_PREFER_WRITER_NONRECURSIVE_NP m" and t: "t < length (sm_threads m)"
    and p: "sm_threads m ! t = Reading"
    and fair: "fair_choice w (if sm_state m AND write_entered \<noteq> 0 then on_gate2 else on_gate1) m"
  shows "sm_ok PTHREAD_RWLOCK_PREFER_WRITER_NONRECURSIVE_NP (unlock_shared_prefer_writer w t m)"
proof -
  let ?r = "num m Reading" and ?ty = PTHREAD_RWLOCK_PREFER_WRITER_NONRECURSIVE_NP
  note l = leave_shared [OF ok t p]
  let ?left = "m\<lparr>sm_state := enc (claims (num m) = 1) (?r - 1)\<rparr>"
  let ?m = "go t Outside ?left"
  have c: "counts_ok ?ty (num m) (sm_writer_waiting m)" and len: "length (sm_threads m) < 2 ^ 31 - 1" using ok by (auto simp: sm_ok_def)
  have n: "num (go t Outside (m\<lparr>sm_state := x\<rparr>)) q = num m q + (if Outside = q then 1 else 0) - (if Reading = q then 1 else 0)" for x q
    using num_go [of t "m\<lparr>sm_state := x\<rparr>" Outside q] t p by simp
  have same: "sm_threads ?left = sm_threads m" by simp
  have flag: "sm_state ?m AND write_entered \<noteq> 0 \<longleftrightarrow> claims (num m) = 1"
    using enc_writer [of "?r - 1" "claims (num m) = 1"] l(4) by simp
  have u: "unlock_shared_prefer_writer w t m = (if claims (num m) = 1 \<and> ?r = 1 then notify_one w on_gate2 ?m else ?m)"
    unfolding unlock_shared_prefer_writer_def Let_def l(1)
    using flag not_last_reader(2,3) [OF l(3,4)] by (simp add: l(2))
  show ?thesis
  proof (cases "claims (num m) = 1 \<and> ?r = 1")
    case False
    have "sm_ok ?ty ?m" using c len l(3,5) False by (auto simp: sm_ok_def counts_ok_def claims_def n)
    then show ?thesis by (simp only: u if_not_P [OF False])
  next
    case True
    have "sm_state m AND write_entered \<noteq> 0" using sm_okD(1) [OF ok] True by simp
    then have fair2: "fair_choice w on_gate2 m" using fair by simp
    from notify_fair [OF fair2 t p disjI2 [OF refl] same] show ?thesis
    proof (elim disjE conjE)
      assume none: "\<forall>q \<in> set (sm_threads m). \<not> on_gate2 q" and eq: "notify_one w on_gate2 ?m = ?m"
      have "num m DrainBlocked = 0" using none num_pos [of m DrainBlocked] by (auto simp: on_gate2_def)
      then have "sm_ok ?ty ?m" using c len l(3,5) True by (auto simp: sm_ok_def counts_ok_def claims_def n)
      then show ?thesis unfolding u using True eq by simp
    next
      assume w: "w < length (sm_threads m)" "w \<noteq> t" "on_gate2 (sm_threads m ! w)"
        and eq: "notify_one w on_gate2 ?m = go w (wake (sm_threads m ! w)) ?m"
      have wd: "sm_threads m ! w = DrainBlocked" using w(3) by (simp add: on_gate2_def)
      have n2: "num (go w DrainWoken (go t Outside (m\<lparr>sm_state := x\<rparr>))) q =
          num (go t Outside (m\<lparr>sm_state := x\<rparr>)) q + (if DrainWoken = q then 1 else 0) - (if DrainBlocked = q then 1 else 0)" for x q
        using num_go [of w "go t Outside (m\<lparr>sm_state := x\<rparr>)" DrainWoken q] w(1,2) wd by (simp add: go_def)
      have "0 < num m DrainBlocked" using num_here [OF w(1)] wd by simp
      then have "sm_ok ?ty (go w DrainWoken ?m)"
        using c len l(3,5) True by (auto simp: sm_ok_def counts_ok_def claims_def n n2)
      then show ?thesis unfolding u using True eq wd by simp
    qed
  qed
qed

lemma two_phases_le: "p \<noteq> q \<Longrightarrow> num m p + num m q \<le> length (sm_threads m)"
proof -
  assume "p \<noteq> q"
  then have "count_list xs p + count_list xs q \<le> length xs" for xs by (induction xs) auto
  then show ?thesis by (simp add: num_def)
qed

lemma no_writer_waits:
  assumes "sm_ok PTHREAD_RWLOCK_PREFER_READER_NP m"
  shows "sm_writer_waiting m = 0 \<longleftrightarrow> num m WriteBlocked + num m WriteWoken = 0"
proof -
  have "num m WriteBlocked + num m WriteWoken < 2 ^ 31"
    using two_phases_le [of WriteBlocked WriteWoken m] assms by (simp add: sm_ok_def)
  then show ?thesis using assms of_nat_small [of "num m WriteBlocked + num m WriteWoken" 0]
    by (simp add: sm_ok_def counts_ok_def del: of_nat_add)
qed

lemma unlock_shared_prefer_reader_ok:
  assumes ok: "sm_ok PTHREAD_RWLOCK_PREFER_READER_NP m" and t: "t < length (sm_threads m)"
    and p: "sm_threads m ! t = Reading"
    and fair: "fair_choice w (if sm_state m AND write_entered \<noteq> 0 then on_gate2 else on_gate1) m"
  shows "sm_ok PTHREAD_RWLOCK_PREFER_READER_NP (unlock_shared_prefer_reader w t m)"
proof -
  let ?r = "num m Reading" and ?ty = PTHREAD_RWLOCK_PREFER_READER_NP
  note l = leave_shared [OF ok t p]
  let ?left = "m\<lparr>sm_state := enc False (?r - 1)\<rparr>"
  let ?m = "go t Outside ?left"
  have c: "counts_ok ?ty (num m) (sm_writer_waiting m)" and len: "length (sm_threads m) < 2 ^ 31 - 1" using ok by (auto simp: sm_ok_def)
  have n: "num (go t Outside (m\<lparr>sm_state := x\<rparr>)) q = num m q + (if Outside = q then 1 else 0) - (if Reading = q then 1 else 0)" for x q
    using num_go [of t "m\<lparr>sm_state := x\<rparr>" Outside q] t p by simp
  have same: "sm_threads ?left = sm_threads m" by simp
  have free: "claims (num m) = 0" "num m ReadBlocked = 0" using c l(5) by (auto simp: counts_ok_def claims_def)
  have u: "unlock_shared_prefer_reader w t m = (if sm_writer_waiting m \<noteq> 0 \<and> ?r = 1 then notify_one w on_gate1 ?m else ?m)"
    unfolding unlock_shared_prefer_reader_def Let_def l(1)
    using not_last_reader(2,3) [OF l(3,4)] free(1) by (simp add: l(2))
  have quiet: "sm_ok ?ty ?m" if "?r \<noteq> 1 \<or> num m WriteBlocked = 0"
    using c len l(3,5) free that by (auto simp: sm_ok_def counts_ok_def claims_def n)
  show ?thesis
  proof (cases "sm_writer_waiting m \<noteq> 0 \<and> ?r = 1")
    case False
    then have "?r \<noteq> 1 \<or> num m WriteBlocked = 0" using no_writer_waits [OF ok] by auto
    then show ?thesis unfolding u using quiet False by auto
  next
    case True
    have "sm_state m AND write_entered = 0" using sm_okD(1) [OF ok] free by simp
    then have fair1: "fair_choice w on_gate1 m" using fair by simp
    from notify_fair [OF fair1 t p disjI1 [OF refl] same] show ?thesis
    proof (elim disjE conjE)
      assume none: "\<forall>q \<in> set (sm_threads m). \<not> on_gate1 q" and eq: "notify_one w on_gate1 ?m = ?m"
      have "num m WriteBlocked = 0" using none num_pos [of m WriteBlocked] by (auto simp: on_gate1_def)
      then show ?thesis unfolding u using quiet True eq by simp
    next
      assume w: "w < length (sm_threads m)" "w \<noteq> t" "on_gate1 (sm_threads m ! w)"
        and eq: "notify_one w on_gate1 ?m = go w (wake (sm_threads m ! w)) ?m"
      have "sm_threads m ! w \<noteq> ReadBlocked" using free(2) num_here [OF w(1)] by auto
      then have wd: "sm_threads m ! w = WriteBlocked" using w(3) by (simp add: on_gate1_def)
      have n2: "num (go w WriteWoken (go t Outside (m\<lparr>sm_state := x\<rparr>))) q =
          num (go t Outside (m\<lparr>sm_state := x\<rparr>)) q + (if WriteWoken = q then 1 else 0) - (if WriteBlocked = q then 1 else 0)" for x q
        using num_go [of w "go t Outside (m\<lparr>sm_state := x\<rparr>)" WriteWoken q] w(1,2) wd by (simp add: go_def)
      have "0 < num m WriteBlocked" using num_here [OF w(1)] wd by simp
      then have "sm_ok ?ty (go w WriteWoken ?m)"
        using c len l(3,5) free True by (auto simp: sm_ok_def counts_ok_def claims_def n n2)
      then show ?thesis unfolding u using True eq wd by simp
    qed
  qed
qed

lemma sm_resume_ok: "sm_resume ty t m m' \<Longrightarrow> sm_ok ty m \<Longrightarrow> sm_ok ty m'"
proof (induction rule: sm_resume.induct)
  case (resume_shared m)
  then show ?case by (intro lock_shared_ok) simp_all
next
  case (resume_lock m)
  then show ?case by (cases ty) (auto intro: LockLoop_ok lock_prefer_writer_ok)
next
  case (resume_drain m)
  then have "0 < num m DrainWoken" using num_here [of t m] by simp
  then have "ty = PTHREAD_RWLOCK_PREFER_WRITER_NONRECURSIVE_NP"
    using resume_drain.prems by (cases ty) (auto simp: sm_ok_def counts_ok_def)
  then show ?case using resume_drain DrainLoop_ok by blast
qed

lemma sm_step_ok: "sm_step ty m m' \<Longrightarrow> sm_ok ty m \<Longrightarrow> sm_ok ty m'"
proof (induction rule: sm_step.induct)
  case (step_resume t m m')
  then show ?case using sm_resume_ok by blast
next
  case (step_spurious t m)
  then show ?case using wake_ok by blast
next
  case (step_lock t m)
  then show ?case by (cases ty) (auto intro: lock_prefer_reader_ok lock_prefer_writer_ok)
next
  case (step_try_lock t m)
  then show ?case by (intro try_lock_ok)
next
  case (step_lock_shared t m)
  then show ?case by (intro lock_shared_ok) simp_all
next
  case (step_try_lock_shared t m)
  then show ?case using lock_shared_ok(1) [of ty m t] by (simp add: try_lock_shared_alt)
next
  case (step_unlock t m)
  then show ?case by (intro unlock_ok)
next
  case (step_unlock_shared t m w)
  then show ?case by (cases ty) (auto intro: unlock_shared_prefer_reader_ok unlock_shared_prefer_writer_ok)
qed

lemma sm_ok_new: "n < 2 ^ 31 - 1 \<Longrightarrow> sm_ok ty (shared_mutex_new n)"
proof -
  assume n: "n < 2 ^ 31 - 1"
  have "num (shared_mutex_new n) p = (if p = Outside then n else 0)" for p
  proof -
    have "count_list (replicate n Outside) p = (if p = Outside then n else 0)" by (induction n) auto
    then show ?thesis by (simp add: num_def shared_mutex_new_def)
  qed
  then show ?thesis using n
    by (simp add: sm_ok_def counts_ok_def claims_def enc_def shared_mutex_new_def split: shared_mutex_type.splits)
qed

lemma sm_reachable_ok: "sm_reachable ty n m \<Longrightarrow> n < 2 ^ 31 - 1 \<Longrightarrow> sm_ok ty m"
  by (induction rule: sm_reachable.induct) (auto intro: sm_ok_new sm_step_ok)

lemma num_witness: "0 < num m p \<Longrightarrow> \<exists>t < length (sm_threads m). sm_threads m ! t = p"
  unfolding num_pos in_set_conv_nth .

text \<open>When nobody holds the lock, a woken thread that is waiting exists and gets it.\<close>

lemma nobody_is_stranded:
  assumes ok: "sm_ok ty m" and free: "num m Reading = 0" "num m Writing = 0"
    and waiting: "p \<in> set (sm_threads m)" "p \<noteq> Outside"
  shows "\<exists>t m'. sm_resume ty t m m' \<and> sm_threads m' ! t \<in> {Reading, Writing}"
proof (cases "claims (num m) = 1")
  case True
  then have "0 < num m DrainWoken" and ty: "ty = PTHREAD_RWLOCK_PREFER_WRITER_NONRECURSIVE_NP"
    using ok free by (cases ty; force simp: sm_ok_def counts_ok_def claims_def)+
  then obtain t where t: "t < length (sm_threads m)" "sm_threads m ! t = DrainWoken" using num_witness by blast
  have "sm_threads (DrainLoop t m) ! t = Writing" using DrainLoop_ok(2) ok t free(1) ty by blast
  then show ?thesis using resume_drain [OF t, of ty] by (intro exI [of _ t] exI [of _ "DrainLoop t m"]) simp
next
  case False
  then have none: "claims (num m) = 0" using claims_le [OF ok] by simp
  then have "num m ReadBlocked = 0" "num m DrainBlocked = 0" "num m DrainWoken = 0"
    using ok by (auto simp: sm_ok_def counts_ok_def claims_def)
  then have "0 < num m ReadWoken \<or> 0 < num m WriteWoken \<or> 0 < num m WriteBlocked"
    using waiting free num_pos [of m p] by (cases p) auto
  then have "0 < num m ReadWoken \<or> 0 < num m WriteWoken"
    using ok none free by (auto simp: sm_ok_def counts_ok_def split: shared_mutex_type.splits)
  then show ?thesis
  proof
    assume "0 < num m ReadWoken"
    then obtain t where t: "t < length (sm_threads m)" "sm_threads m ! t = ReadWoken" using num_witness by blast
    have "sm_threads (lock_shared t m) ! t = Reading" using lock_shared_ok(2) [OF ok t(1)] t(2) none by simp
    then show ?thesis using resume_shared [OF t, of ty] by (intro exI [of _ t] exI [of _ "lock_shared t m"]) simp
  next
    assume "0 < num m WriteWoken"
    then obtain t where t: "t < length (sm_threads m)" "sm_threads m ! t = WriteWoken" using num_witness by blast
    have "sm_threads (sm_lock_again ty t m) ! t = Writing"
      using ok t none free(1) LockLoop_ok(2) [of m t] lock_prefer_writer_ok(2) [of m t] by (cases ty) auto
    then show ?thesis using resume_lock [OF t, of ty] by (intro exI [of _ t] exI [of _ "sm_lock_again ty t m"]) simp
  qed
qed

lemma not_both:
  assumes "i < length (sm_threads m)" "j < length (sm_threads m)" "i \<noteq> j" "sm_threads m ! i = p" "sm_threads m ! j = p"
  shows "2 \<le> num m p"
proof -
  have "num (go i Outside (go j Outside m)) p + 2 = num m p" if "p \<noteq> Outside"
    using count_list_update [of j "sm_threads m" Outside p] count_list_update [of i "(sm_threads m)[j := Outside]" Outside p] assms that
    by (simp add: num_def go_def)
  moreover have "2 \<le> num m p" if "p = Outside"
    using count_list_update [of j "sm_threads m" Reading p] count_list_update [of i "(sm_threads m)[j := Reading]" Reading p] assms that
    by (simp add: num_def)
  ultimately show ?thesis by (cases "p = Outside") auto
qed

subsection \<open>The properties\<close>

text \<open>
  C8. The lock excludes.  With fewer threads than readers it can count, in any reachable state of either kind of lock, a
  writer holds it alone, the state word counts the readers and has its flag set exactly while a writer holds the lock or
  waits for the readers to leave, \<open>try_lock\<close> succeeds exactly on a lock that nobody holds or claims, and
  \<open>try_lock_shared\<close> exactly when no writer holds or claims it.
\<close>

theorem shared_mutex_excludes:
  assumes "sm_reachable ty n m" and "n < 2 ^ 31 - 1"
  shows "(\<forall>i < length (sm_threads m). \<forall>j < length (sm_threads m).
        sm_threads m ! i = Writing \<and> i \<noteq> j \<longrightarrow> sm_threads m ! j \<notin> {Reading, Writing})
    \<and> unat (sm_state m AND n_readers) = num m Reading
    \<and> (sm_state m AND write_entered \<noteq> 0 \<longleftrightarrow> claims (num m) = 1)
    \<and> (\<forall>t. snd (try_lock t m) \<longleftrightarrow> claims (num m) = 0 \<and> num m Reading = 0)
    \<and> (\<forall>t. snd (try_lock_shared t m) \<longleftrightarrow> claims (num m) = 0)"
proof -
  have ok: "sm_ok ty m" using sm_reachable_ok assms .
  note d = sm_okD [OF ok] and c = claims_le [OF ok]
  have "sm_threads m ! j \<notin> {Reading, Writing}"
    if "i < length (sm_threads m)" "j < length (sm_threads m)" "sm_threads m ! i = Writing" "i \<noteq> j" for i j
    using num_here [OF that(1)] num_here [OF that(2)] not_both [OF that(1,2,4)] that(3) ok
    by (auto simp: sm_ok_def counts_ok_def claims_def)
  moreover have "unat (sm_state m AND n_readers) = num m Reading"
    unfolding d(2) using d(3) by (simp add: unsigned_of_nat take_bit_nat_eq_self)
  moreover have "snd (try_lock t m) \<longleftrightarrow> claims (num m) = 0 \<and> num m Reading = 0" for t
    using d(5) c by (auto simp: try_lock_def)
  moreover have "snd (try_lock_shared t m) \<longleftrightarrow> claims (num m) = 0" for t
    using c by (auto simp: try_lock_shared_alt [OF ok])
  moreover have "sm_state m AND write_entered \<noteq> 0 \<longleftrightarrow> claims (num m) = 1" using d(1) by simp
  ultimately show ?thesis by blast
qed

theorem shared_mutex_excludes_witness:
  "\<exists>m. sm_reachable PTHREAD_RWLOCK_PREFER_READER_NP 2 m \<and> sm_threads m = [Reading, Outside]
    \<and> \<not> snd (try_lock 1 m) \<and> snd (try_lock_shared 1 m)"
proof -
  let ?m = "lock_shared 0 (shared_mutex_new 2)"
  have s: "sm_threads ?m = [Reading, Outside]" by code_simp
  have r: "sm_reachable PTHREAD_RWLOCK_PREFER_READER_NP 2 ?m"
    by (intro sm_next [OF sm_start] step_lock_shared) (simp_all add: shared_mutex_new_def)
  show ?thesis using shared_mutex_excludes [OF r] r s by (intro exI [of _ ?m]) (simp add: num_def claims_def)
qed

text \<open>
  C9. No wake-up is lost.  In any reachable state of either kind of lock in which nobody holds it, if some thread is
  inside of \<open>lock\<close> or \<open>lock_shared\<close> then a thread whose wait has ended exists, and looking again gives it
  the lock: no thread has to wake by itself.
\<close>

theorem shared_mutex_never_strands:
  assumes "sm_reachable ty n m" and "n < 2 ^ 31 - 1" and "Reading \<notin> set (sm_threads m)" and "Writing \<notin> set (sm_threads m)"
    and "p \<in> set (sm_threads m)" and "p \<noteq> Outside"
  shows "\<exists>t m'. sm_resume ty t m m' \<and> sm_threads m' ! t \<in> {Reading, Writing}"
  using nobody_is_stranded [OF sm_reachable_ok [OF assms(1,2)] _ _ assms(5,6)] num_pos [of m Reading] num_pos [of m Writing] assms(3,4)
  by blast

theorem shared_mutex_never_strands_witness:
  "\<exists>m t m'. sm_reachable PTHREAD_RWLOCK_PREFER_READER_NP 2 m \<and> sm_threads m = [Outside, WriteWoken]
    \<and> sm_resume PTHREAD_RWLOCK_PREFER_READER_NP t m m' \<and> sm_threads m' ! t \<in> {Reading, Writing}"
proof -
  let ?ty = PTHREAD_RWLOCK_PREFER_READER_NP
  let ?a = "lock_shared 0 (shared_mutex_new 2)"
  let ?b = "sm_lock ?ty 1 ?a"
  let ?c = "sm_unlock_shared ?ty 1 0 ?b"
  have a: "sm_threads ?a = [Reading, Outside]" and b: "sm_threads ?b = [Reading, WriteBlocked]"
    and c: "sm_threads ?c = [Outside, WriteWoken]" by code_simp+
  have "sm_reachable ?ty 2 ?a"
    by (intro sm_next [OF sm_start] step_lock_shared) (simp_all add: shared_mutex_new_def)
  then have rb: "sm_reachable ?ty 2 ?b" by (rule sm_next) (rule step_lock, simp_all only: a, simp_all)
  have t: "0 < length (sm_threads ?b)" "sm_threads ?b ! 0 = Reading" unfolding b by simp_all
  have fair: "fair_choice 1 (if sm_state ?b AND write_entered \<noteq> 0 then on_gate2 else on_gate1) ?b" by code_simp
  have r: "sm_reachable ?ty 2 ?c" using sm_next [OF rb step_unlock_shared [OF t fair]] .
  have "\<exists>t m'. sm_resume ?ty t ?c m' \<and> sm_threads m' ! t \<in> {Reading, Writing}"
    by (rule shared_mutex_never_strands [OF r, of WriteWoken], unfold c) simp_all
  then show ?thesis using r c by blast
qed

text \<open>
  The examples of the file's closing comment: while a writer waits for a reader, that reader can lock again when
  readers are preferred, and waits for the writer, which waits for it, when writers are.
\<close>

lemma reading_again:
  "sm_threads (lock_shared 2 (sm_lock PTHREAD_RWLOCK_PREFER_READER_NP 1 (lock_shared 0 (shared_mutex_new 3))))
     = [Reading, WriteBlocked, Reading]"
  "sm_threads (lock_shared 2 (sm_lock PTHREAD_RWLOCK_PREFER_WRITER_NONRECURSIVE_NP 1 (lock_shared 0 (shared_mutex_new 3))))
     = [Reading, DrainBlocked, ReadBlocked]"
  by code_simp+

subsection \<open>The wrapper that records the owners\<close>

text \<open>Every operation has two critical sections: the one of the lock, then one under the mutex of the wrapper.\<close>

record DebugWrapper =
  dw_mutex :: SharedMutex
  dw_exclusive_owner :: "nat option"
  dw_shared_owners :: "nat \<rightharpoonup> u32"

definition record_exclusive :: "nat \<Rightarrow> DebugWrapper \<Rightarrow> DebugWrapper" where
  "record_exclusive t d = d\<lparr>dw_exclusive_owner := Some t\<rparr>"

definition forget_exclusive :: "DebugWrapper \<Rightarrow> DebugWrapper" where
  "forget_exclusive d = d\<lparr>dw_exclusive_owner := None\<rparr>"

definition record_shared :: "nat \<Rightarrow> DebugWrapper \<Rightarrow> DebugWrapper" where
  "record_shared t d =
     d\<lparr>dw_shared_owners := (dw_shared_owners d)(t \<mapsto> (case dw_shared_owners d t of None \<Rightarrow> 0 | Some n \<Rightarrow> n) + 1)\<rparr>"

definition forget_shared :: "nat \<Rightarrow> DebugWrapper \<Rightarrow> DebugWrapper" where
  "forget_shared t d =
     (case dw_shared_owners d t of
        None \<Rightarrow> d
      | Some n \<Rightarrow> d\<lparr>dw_shared_owners := (dw_shared_owners d)(t := if n - 1 = 0 then None else Some (n - 1))\<rparr>)"

definition debug_try_lock :: "nat \<Rightarrow> DebugWrapper \<Rightarrow> DebugWrapper \<times> bool" where
  "debug_try_lock t d =
     (case try_lock t (dw_mutex d) of (m, res) \<Rightarrow>
        (if res then record_exclusive t (d\<lparr>dw_mutex := m\<rparr>) else d\<lparr>dw_mutex := m\<rparr>, res))"

definition debug_unlock :: "nat \<Rightarrow> DebugWrapper \<Rightarrow> DebugWrapper" where
  "debug_unlock t d = forget_exclusive (d\<lparr>dw_mutex := unlock t (dw_mutex d)\<rparr>)"

definition debug_try_lock_shared :: "nat \<Rightarrow> DebugWrapper \<Rightarrow> DebugWrapper \<times> bool" where
  "debug_try_lock_shared t d =
     (case try_lock_shared t (dw_mutex d) of (m, res) \<Rightarrow>
        (if res then record_shared t (d\<lparr>dw_mutex := m\<rparr>) else d\<lparr>dw_mutex := m\<rparr>, res))"

definition debug_unlock_shared :: "shared_mutex_type \<Rightarrow> nat \<Rightarrow> nat \<Rightarrow> DebugWrapper \<Rightarrow> DebugWrapper" where
  "debug_unlock_shared ty w t d = forget_shared t (d\<lparr>dw_mutex := sm_unlock_shared ty w t (dw_mutex d)\<rparr>)"

lemma unlocked_state: "sm_state (unlock t m) = 0"
  by (simp add: unlock_def)

text \<open>
  Another thread locks between the two sections of \<open>unlock\<close>: the late section erases the new owner.
\<close>

lemma exclusive_owner_is_forgotten:
  assumes "1 < length (sm_threads (dw_mutex d))"
  shows "case debug_try_lock 1 (d\<lparr>dw_mutex := unlock 0 (dw_mutex d)\<rparr>) of (d', res) \<Rightarrow>
    res \<and> dw_exclusive_owner d' = Some 1
    \<and> sm_threads (dw_mutex (forget_exclusive d')) ! 1 = Writing \<and> dw_exclusive_owner (forget_exclusive d') = None"
proof -
  have "length (sm_threads (unlock 0 (dw_mutex d))) = length (sm_threads (dw_mutex d))" by (simp add: unlock_def)
  then show ?thesis using assms
    by (simp add: debug_try_lock_def try_lock_def record_exclusive_def forget_exclusive_def go_def unlocked_state)
qed

end
