(* ===== verification/Rtps_Locator.thy ===== *)
theory Rtps_Locator
  imports Rtps_Guid Resource_Vector
begin

text \<open>
  Locators: \<open>Locator.h\<close>, \<open>LocatorList.hpp\<close>, \<open>LocatorListComparisons.hpp\<close> and \<open>RemoteLocators.hpp\<close> of
  \<open>fastdds/rtps/common\<close>, for a little-endian target.  Text input and output is left out; a vector of locators is a list.
\<close>

definition BOOSTER_FASTDDS_LOCATOR_KIND_INVALID :: i32 where "BOOSTER_FASTDDS_LOCATOR_KIND_INVALID = - 1"
definition BOOSTER_FASTDDS_LOCATOR_PORT_INVALID :: u32 where "BOOSTER_FASTDDS_LOCATOR_PORT_INVALID = 0"
definition BOOSTER_FASTDDS_LOCATOR_KIND_RESERVED :: i32 where "BOOSTER_FASTDDS_LOCATOR_KIND_RESERVED = 0"
definition BOOSTER_FASTDDS_LOCATOR_KIND_UDPv4 :: i32 where "BOOSTER_FASTDDS_LOCATOR_KIND_UDPv4 = 1"
definition BOOSTER_FASTDDS_LOCATOR_KIND_UDPv6 :: i32 where "BOOSTER_FASTDDS_LOCATOR_KIND_UDPv6 = 2"
definition BOOSTER_FASTDDS_LOCATOR_KIND_TCPv4 :: i32 where "BOOSTER_FASTDDS_LOCATOR_KIND_TCPv4 = 4"
definition BOOSTER_FASTDDS_LOCATOR_KIND_TCPv6 :: i32 where "BOOSTER_FASTDDS_LOCATOR_KIND_TCPv6 = 8"
definition BOOSTER_FASTDDS_LOCATOR_KIND_SHM :: i32 where "BOOSTER_FASTDDS_LOCATOR_KIND_SHM = 16"

record Locator_t =
  loc_kind :: i32
  loc_port :: u32
  loc_address :: octets

definition invalid_address :: octets where "invalid_address = replicate 16 0"

definition BOOSTER_FASTDDS_LOCATOR_INVALID :: Locator_t where
  "BOOSTER_FASTDDS_LOCATOR_INVALID =
     \<lparr>loc_kind = BOOSTER_FASTDDS_LOCATOR_KIND_INVALID, loc_port = BOOSTER_FASTDDS_LOCATOR_PORT_INVALID,
      loc_address = invalid_address\<rparr>"

definition Locator_new :: Locator_t where
  "Locator_new = \<lparr>loc_kind = BOOSTER_FASTDDS_LOCATOR_KIND_UDPv4, loc_port = 0, loc_address = invalid_address\<rparr>"

definition Locator_of_port :: "u32 \<Rightarrow> Locator_t" where
  "Locator_of_port portin = \<lparr>loc_kind = BOOSTER_FASTDDS_LOCATOR_KIND_UDPv4, loc_port = portin, loc_address = invalid_address\<rparr>"

definition Locator_of_kind :: "i32 \<Rightarrow> u32 \<Rightarrow> Locator_t" where
  "Locator_of_kind kindin portin = \<lparr>loc_kind = kindin, loc_port = portin, loc_address = invalid_address\<rparr>"

definition set_address :: "Locator_t \<Rightarrow> Locator_t \<Rightarrow> Locator_t \<times> bool" where
  "set_address other l = (l\<lparr>loc_address := loc_address other\<rparr>, True)"

definition get_address :: "Locator_t \<Rightarrow> u16 \<Rightarrow> u8 option" where
  "get_address l field = (if unat field < 16 then Some (loc_address l ! unat field) else None)"

definition set_Invalid_Address :: "Locator_t \<Rightarrow> Locator_t" where
  "set_Invalid_Address l = l\<lparr>loc_address := invalid_address\<rparr>"

definition IsAddressDefined :: "Locator_t \<Rightarrow> bool" where
  "IsAddressDefined loc =
     (if loc_kind loc = BOOSTER_FASTDDS_LOCATOR_KIND_UDPv4 \<or> loc_kind loc = BOOSTER_FASTDDS_LOCATOR_KIND_TCPv4
      then list_ex (\<lambda>i. loc_address loc ! i \<noteq> 0) [12..<16]
      else if loc_kind loc = BOOSTER_FASTDDS_LOCATOR_KIND_UDPv6 \<or> loc_kind loc = BOOSTER_FASTDDS_LOCATOR_KIND_TCPv6
      then list_ex (\<lambda>i. loc_address loc ! i \<noteq> 0) [0..<16]
      else False)"

definition IsLocatorValid :: "Locator_t \<Rightarrow> bool" where
  "IsLocatorValid loc \<longleftrightarrow> 0 \<le> sint (loc_kind loc)"

text \<open>The octets of the object, which \<open>operator <\<close> compares.\<close>

definition locator_bytes :: "Locator_t \<Rightarrow> octets" where
  "locator_bytes loc = le_bytes 4 (loc_kind loc) @ le_bytes 4 (loc_port loc) @ loc_address loc"

definition locator_less :: "Locator_t \<Rightarrow> Locator_t \<Rightarrow> bool" where
  "locator_less loc1 loc2 \<longleftrightarrow> memcmp (locator_bytes loc1) (locator_bytes loc2) < 0"

definition locator_eq :: "Locator_t \<Rightarrow> Locator_t \<Rightarrow> bool" where
  "locator_eq loc1 loc2 =
     (if loc_kind loc1 \<noteq> loc_kind loc2 then False
      else if loc_port loc1 \<noteq> loc_port loc2 then False
      else if loc_address loc1 \<noteq> loc_address loc2 then False else True)"

subsection \<open>Locator lists\<close>

fun ll_found :: "Locator_t \<Rightarrow> Locator_t list \<Rightarrow> bool" where
  "ll_found loc [] = False"
| "ll_found loc (l # ls) = (if locator_eq loc l then True else ll_found loc ls)"

fun ll_all_found :: "Locator_t list \<Rightarrow> Locator_t list \<Rightarrow> bool" where
  "ll_all_found [] m_locators = True"
| "ll_all_found (l # ls) m_locators = (if ll_found l m_locators then ll_all_found ls m_locators else False)"

text \<open>\<open>operator ==\<close> of the list with another one.\<close>

definition ll_eq :: "Locator_t list \<Rightarrow> Locator_t list \<Rightarrow> bool" where
  "ll_eq locator_list m_locators =
     (if length locator_list = length m_locators then ll_all_found locator_list m_locators else False)"

definition ll_assign :: "Locator_t list \<Rightarrow> Locator_t list \<Rightarrow> Locator_t list" where
  "ll_assign list m_locators = (if \<not> ll_eq list m_locators then list else m_locators)"

definition ll_resize :: "nat \<Rightarrow> Locator_t list \<Rightarrow> Locator_t list" where
  "ll_resize num m_locators = take num m_locators @ replicate (num - length m_locators) Locator_new"

definition ll_push_back :: "Locator_t \<Rightarrow> Locator_t list \<Rightarrow> Locator_t list" where
  "ll_push_back loc m_locators = (if \<not> ll_found loc m_locators then m_locators @ [loc] else m_locators)"

fun ll_push_back_list :: "Locator_t list \<Rightarrow> Locator_t list \<Rightarrow> Locator_t list" where
  "ll_push_back_list [] m_locators = m_locators"
| "ll_push_back_list (l # ls) m_locators = ll_push_back_list ls (ll_push_back l m_locators)"

definition ll_erase :: "Locator_t \<Rightarrow> Locator_t list \<Rightarrow> Locator_t list" where
  "ll_erase loc m_locators =
     (case find_if (\<lambda>l. locator_eq l loc) m_locators of
        Some i \<Rightarrow> take i m_locators @ drop (Suc i) m_locators
      | None \<Rightarrow> m_locators)"

fun ll_contains :: "Locator_t \<Rightarrow> Locator_t list \<Rightarrow> bool" where
  "ll_contains loc [] = False"
| "ll_contains loc (l # ls) =
     (if IsAddressDefined l
      then if locator_eq loc l then True else ll_contains loc ls
      else if loc_kind loc = loc_kind l \<and> loc_port loc = loc_port l then True else ll_contains loc ls)"

fun ll_isValid :: "Locator_t list \<Rightarrow> bool" where
  "ll_isValid [] = True"
| "ll_isValid (l # ls) = (if \<not> IsLocatorValid l then False else ll_isValid ls)"

fun ll_has_kind :: "i32 \<Rightarrow> Locator_t list \<Rightarrow> bool" where
  "ll_has_kind kind [] = False"
| "ll_has_kind kind (l # ls) = (if kind = loc_kind l then True else ll_has_kind kind ls)"

subsection \<open>The locators of a remote entity\<close>

record RemoteLocatorList =
  rl_unicast :: "Locator_t ResourceLimitedVector"
  rl_multicast :: "Locator_t ResourceLimitedVector"

definition RemoteLocatorList_new :: "u64 \<Rightarrow> u64 \<Rightarrow> RemoteLocatorList" where
  "RemoteLocatorList_new max_unicast_locators max_multicast_locators =
     \<lparr>rl_unicast = ResourceLimitedVector_new (fixed_size_configuration max_unicast_locators),
      rl_multicast = ResourceLimitedVector_new (fixed_size_configuration max_multicast_locators)\<rparr>"

definition add_locator :: "Locator_t \<Rightarrow> Locator_t ResourceLimitedVector \<Rightarrow> Locator_t ResourceLimitedVector option" where
  "add_locator locator v = (if ll_found locator (rv_collection v) then Some v else map_option fst (rv_push_back locator v))"

definition add_unicast_locator :: "Locator_t \<Rightarrow> RemoteLocatorList \<Rightarrow> RemoteLocatorList option" where
  "add_unicast_locator locator r = map_option (\<lambda>v. r\<lparr>rl_unicast := v\<rparr>) (add_locator locator (rl_unicast r))"

definition add_multicast_locator :: "Locator_t \<Rightarrow> RemoteLocatorList \<Rightarrow> RemoteLocatorList option" where
  "add_multicast_locator locator r = map_option (\<lambda>v. r\<lparr>rl_multicast := v\<rparr>) (add_locator locator (rl_multicast r))"

definition remote_assign :: "RemoteLocatorList \<Rightarrow> RemoteLocatorList \<Rightarrow> RemoteLocatorList option" where
  "remote_assign other r = do {
     u \<leftarrow> rv_assign_from (rl_unicast other) (rl_unicast r);
     v \<leftarrow> rv_assign_from (rl_multicast other) (rl_multicast r);
     Some \<lparr>rl_unicast = u, rl_multicast = v\<rparr> }"

text \<open>\<open>operator ==\<close> of two limited vectors of locators.\<close>

definition lv_eq :: "Locator_t ResourceLimitedVector \<Rightarrow> Locator_t ResourceLimitedVector \<Rightarrow> bool" where
  "lv_eq lhs rhs =
     (if rv_size lhs = rv_size rhs then ll_all_found (rv_collection lhs) (rv_collection rhs) else False)"

subsection \<open>Lemmas\<close>

lemma locator_eq_iff [simp]: "locator_eq l1 l2 \<longleftrightarrow> l1 = l2"
  by (auto simp: locator_eq_def)

lemma ll_found_iff [simp]: "ll_found l ls \<longleftrightarrow> l \<in> set ls"
  by (induction ls) auto

lemma ll_all_found_iff: "ll_all_found xs ys \<longleftrightarrow> set xs \<subseteq> set ys"
  by (induction xs) auto

lemma ll_eq_iff:
  assumes "distinct xs" and "distinct ys"
  shows "ll_eq xs ys \<longleftrightarrow> set xs = set ys"
proof -
  have "length xs = card (set xs)" "length ys = card (set ys)" using assms by (simp_all add: distinct_card)
  then show ?thesis using card_subset_eq [of "set ys" "set xs"] by (auto simp: ll_eq_def ll_all_found_iff)
qed

lemma ll_push_back_list_spec:
  "distinct m \<Longrightarrow> distinct (ll_push_back_list ls m) \<and> set (ll_push_back_list ls m) = set ls \<union> set m"
  by (induction ls arbitrary: m) (auto simp: ll_push_back_def)

lemma ll_erase_spec: "distinct m \<Longrightarrow> distinct (ll_erase l m) \<and> set (ll_erase l m) = set m - {l}"
proof (cases "find_if (\<lambda>x. locator_eq x l) m")
  case None
  assume "distinct m"
  moreover have "\<forall>x \<in> set m. x \<noteq> l" using None by (simp add: find_if_None_iff)
  moreover have "ll_erase l m = m" unfolding ll_erase_def None by simp
  ultimately show ?thesis by auto
next
  case (Some i)
  assume d: "distinct m"
  note i = find_if_SomeD [OF Some]
  have "set (do_remove True i m) = set m - {m ! i}" using i d by (intro set_do_remove_distinct) simp_all
  moreover have "distinct (do_remove True i m)" using i d distinct_mset_diff [OF mset_do_remove [of i m True] d] by simp
  moreover have "ll_erase l m = do_remove True i m" unfolding ll_erase_def Some by (simp add: do_remove_def)
  ultimately show ?thesis using i by simp
qed

lemma add_locator_spec:
  assumes "rv_ok v" and "distinct (rv_collection v)"
  shows "\<exists>v'. add_locator l v = Some v' \<and> rv_ok v' \<and> rv_limit v' = rv_limit v \<and> distinct (rv_collection v')
    \<and> (length (rv_collection v) < rv_limit v \<longrightarrow> set (rv_collection v') = insert l (set (rv_collection v)))
    \<and> (length (rv_collection v) = rv_limit v \<longrightarrow> v' = v)"
proof (cases "l \<in> set (rv_collection v)")
  case True
  then show ?thesis using assms by (auto simp: add_locator_def)
next
  case False
  show ?thesis
  proof (cases "length (rv_collection v) < rv_limit v")
    case True
    then show ?thesis using emplace_back_room [OF assms(1) True, of l] False assms by (auto simp: add_locator_def rv_push_back_def)
  next
    case full: False
    then have "length (rv_collection v) = rv_limit v" using rv_bounded [OF assms(1)] by simp
    then show ?thesis using emplace_back_full [OF assms(1), of l] False full assms by (auto simp: add_locator_def rv_push_back_def)
  qed
qed

definition locator_ok :: "Locator_t \<Rightarrow> bool" where "locator_ok l \<longleftrightarrow> length (loc_address l) = 16"

lemma locator_less_iff: "locator_ok l1 \<Longrightarrow> locator_ok l2 \<Longrightarrow> locator_less l1 l2 \<longleftrightarrow> locator_bytes l1 < locator_bytes l2"
  by (simp add: locator_less_def locator_bytes_def locator_ok_def memcmp_order)

lemma locator_bytes_inj: "locator_ok l1 \<Longrightarrow> locator_ok l2 \<Longrightarrow> locator_bytes l1 = locator_bytes l2 \<longleftrightarrow> l1 = l2"
  by (cases l1; cases l2) (auto simp: locator_bytes_def le_bytes_inj)

text \<open>
  C39. Locator lists are sets.  On lists without duplicates, which every addition and removal keeps, adding one or
  several locators is insertion and union, removal is removal, two lists are equal exactly when they have the same
  locators in whatever order, and an assignment leaves those of the other list; a limited list of a remote entity takes
  a locator exactly when there is room.  The order of locators is a strict linear one.
\<close>

theorem locator_lists_are_sets:
  assumes "distinct xs" and "distinct ys" and "rv_ok v" and "distinct (rv_collection v)" and "locator_ok l" and "locator_ok l'"
  shows "distinct (ll_push_back l xs) \<and> set (ll_push_back l xs) = insert l (set xs)
    \<and> distinct (ll_push_back_list ys xs) \<and> set (ll_push_back_list ys xs) = set xs \<union> set ys
    \<and> distinct (ll_erase l xs) \<and> set (ll_erase l xs) = set xs - {l}
    \<and> (ll_eq ys xs \<longleftrightarrow> set ys = set xs) \<and> set (ll_assign ys xs) = set ys \<and> distinct (ll_assign ys xs)
    \<and> (\<exists>v'. add_locator l v = Some v' \<and> rv_ok v' \<and> distinct (rv_collection v')
        \<and> (length (rv_collection v) < rv_limit v \<longrightarrow> set (rv_collection v') = insert l (set (rv_collection v)))
        \<and> (length (rv_collection v) = rv_limit v \<longrightarrow> v' = v))
    \<and> \<not> locator_less l l \<and> (l \<noteq> l' \<longrightarrow> locator_less l l' \<noteq> locator_less l' l)"
proof -
  have "\<not> locator_less l l \<and> (l \<noteq> l' \<longrightarrow> locator_less l l' \<noteq> locator_less l' l)"
    using locator_bytes_inj [OF assms(5,6)] locator_less_iff [OF assms(5,6)] locator_less_iff [OF assms(6,5)]
      locator_less_iff [OF assms(5,5)] by auto
  moreover have "set (ll_assign ys xs) = set ys \<and> distinct (ll_assign ys xs)"
    using ll_eq_iff [OF assms(2,1)] assms(1,2) by (auto simp: ll_assign_def)
  moreover have "distinct (ll_push_back l xs) \<and> set (ll_push_back l xs) = insert l (set xs)"
    using assms(1) by (auto simp: ll_push_back_def)
  moreover have "distinct (ll_push_back_list ys xs) \<and> set (ll_push_back_list ys xs) = set xs \<union> set ys"
    using ll_push_back_list_spec [OF assms(1), of ys] by auto
  moreover have "\<exists>v'. add_locator l v = Some v' \<and> rv_ok v' \<and> distinct (rv_collection v')
      \<and> (length (rv_collection v) < rv_limit v \<longrightarrow> set (rv_collection v') = insert l (set (rv_collection v)))
      \<and> (length (rv_collection v) = rv_limit v \<longrightarrow> v' = v)"
    using add_locator_spec [OF assms(3,4), of l] by fast
  moreover note ll_erase_spec [OF assms(1), of l] ll_eq_iff [OF assms(2,1)]
  ultimately show ?thesis by (elim conjE, intro conjI) assumption+
qed

theorem locator_lists_are_sets_witness:
  "ll_eq [Locator_of_port 7, Locator_new] [Locator_new, Locator_of_port 7]"
proof -
  let ?v = "ResourceLimitedVector_new ResourceLimitedContainerConfig_new :: Locator_t ResourceLimitedVector"
  have v: "rv_ok ?v" using rv_ok_new [OF rc_ok_examples(1), where 'a = Locator_t] by blast
  have d: "distinct (rv_collection ?v)" by (simp add: ResourceLimitedVector_new_def vec_reserve_def)
  have l: "locator_ok Locator_new" by (simp add: locator_ok_def Locator_new_def invalid_address_def)
  have ne: "Locator_new \<noteq> Locator_of_port 7" by (simp add: Locator_new_def Locator_of_port_def)
  have dx: "distinct [Locator_new, Locator_of_port 7]" "distinct [Locator_of_port 7, Locator_new]" using ne by auto
  from locator_lists_are_sets [OF dx v d l l]
  have "ll_eq [Locator_of_port 7, Locator_new] [Locator_new, Locator_of_port 7]
      \<longleftrightarrow> set [Locator_of_port 7, Locator_new] = set [Locator_new, Locator_of_port 7]" by (elim conjE)
  then show ?thesis by auto
qed

subsection \<open>Lists that have duplicates\<close>

text \<open>\<open>resize\<close> appends equal locators, and equality is then not symmetric.\<close>

lemma resized_list_has_duplicates:
  "\<not> distinct (ll_resize 2 [])"
  "ll_eq (ll_resize 2 []) [Locator_new, Locator_of_port 7]" "\<not> ll_eq [Locator_new, Locator_of_port 7] (ll_resize 2 [])"
  by code_simp+

end
