(* ===== verification/Locator_Selector.thy ===== *)
theory Locator_Selector
  imports Rtps_Locator
begin

text \<open>
  \<open>LocatorSelectorEntry.hpp\<close> and \<open>LocatorSelector.hpp\<close> of \<open>fastdds/rtps/common\<close>: the choice of the locators a message
  is sent to.

  The selector holds pointers to entries that live elsewhere; here it holds the entries, each of which is taken to be in
  the selector once.  \<open>None\<close> is an access outside of a vector (an exception of \<open>at\<close>, or undefined for \<open>[]\<close>) or a failed
  assertion.  A pointer to a locator is the locator, the null pointer \<open>None\<close>.
\<close>

record LocatorSelectorEntry =
  se_remote_guid :: GUID_t
  se_unicast :: "Locator_t ResourceLimitedVector"
  se_multicast :: "Locator_t ResourceLimitedVector"
  se_state_unicast :: "u64 ResourceLimitedVector"
  se_state_multicast :: "u64 ResourceLimitedVector"
  se_enabled :: bool
  se_transport_should_process :: bool

definition LocatorSelectorEntry_new :: "u64 \<Rightarrow> u64 \<Rightarrow> LocatorSelectorEntry" where
  "LocatorSelectorEntry_new max_unicast_locators max_multicast_locators =
     \<lparr>se_remote_guid = c_Guid_Unknown,
      se_unicast = ResourceLimitedVector_new (fixed_size_configuration max_unicast_locators),
      se_multicast = ResourceLimitedVector_new (fixed_size_configuration max_multicast_locators),
      se_state_unicast = ResourceLimitedVector_new (fixed_size_configuration max_unicast_locators),
      se_state_multicast = ResourceLimitedVector_new (fixed_size_configuration max_multicast_locators),
      se_enabled = False, se_transport_should_process = False\<rparr>"

definition se_enable :: "bool \<Rightarrow> LocatorSelectorEntry \<Rightarrow> LocatorSelectorEntry" where
  "se_enable should_enable e = e\<lparr>se_enabled := should_enable \<and> \<not> guid_eq (se_remote_guid e) c_Guid_Unknown\<rparr>"

definition se_reset :: "LocatorSelectorEntry \<Rightarrow> LocatorSelectorEntry" where
  "se_reset e = e\<lparr>se_state_unicast := rv_clear (se_state_unicast e), se_state_multicast := rv_clear (se_state_multicast e)\<rparr>"

record LocatorSelector =
  ls_entries :: "LocatorSelectorEntry ResourceLimitedVector"
  ls_selections :: "u64 ResourceLimitedVector"
  ls_last_state :: "int ResourceLimitedVector"

definition LocatorSelector_new :: "ResourceLimitedContainerConfig \<Rightarrow> LocatorSelector" where
  "LocatorSelector_new entries_allocation =
     \<lparr>ls_entries = ResourceLimitedVector_new entries_allocation,
      ls_selections = ResourceLimitedVector_new entries_allocation,
      ls_last_state = ResourceLimitedVector_new entries_allocation\<rparr>"

definition ls_clear :: "LocatorSelector \<Rightarrow> LocatorSelector" where
  "ls_clear s =
     \<lparr>ls_entries = rv_clear (ls_entries s), ls_selections = rv_clear (ls_selections s),
      ls_last_state = rv_clear (ls_last_state s)\<rparr>"

definition add_entry :: "LocatorSelectorEntry \<Rightarrow> LocatorSelector \<Rightarrow> (LocatorSelector \<times> bool) option" where
  "add_entry e s = map_option (\<lambda>(v, ok). (s\<lparr>ls_entries := v\<rparr>, ok)) (rv_push_back e (ls_entries s))"

definition remove_entry :: "GUID_t \<Rightarrow> LocatorSelector \<Rightarrow> LocatorSelector \<times> bool" where
  "remove_entry guid s =
     (case rv_remove_if False (\<lambda>e. guid_eq (se_remote_guid e) guid) (ls_entries s) of (v, r) \<Rightarrow> (s\<lparr>ls_entries := v\<rparr>, r))"

text \<open>The entries are changed in place: the vector keeps its size.\<close>

definition map_entries :: "(LocatorSelectorEntry \<Rightarrow> LocatorSelectorEntry) \<Rightarrow> LocatorSelector \<Rightarrow> LocatorSelector" where
  "map_entries f s = s\<lparr>ls_entries := (ls_entries s)\<lparr>rv_collection := map f (rv_collection (ls_entries s))\<rparr>\<rparr>"

fun save_states :: "LocatorSelectorEntry list \<Rightarrow> int ResourceLimitedVector \<Rightarrow> int ResourceLimitedVector option" where
  "save_states [] v = Some v"
| "save_states (e # es) v = do { (v1, _) \<leftarrow> rv_push_back (if se_enabled e then 1 else 0) v; save_states es v1 }"

definition ls_reset :: "bool \<Rightarrow> LocatorSelector \<Rightarrow> LocatorSelector option" where
  "ls_reset enable_all s = do {
     last \<leftarrow> save_states (rv_collection (ls_entries s)) (rv_clear (ls_last_state s));
     Some (map_entries (se_enable enable_all) (s\<lparr>ls_last_state := last\<rparr>)) }"

fun enable_first :: "GUID_t \<Rightarrow> LocatorSelectorEntry list \<Rightarrow> LocatorSelectorEntry list" where
  "enable_first guid [] = []"
| "enable_first guid (e # es) =
     (if guid_eq (se_remote_guid e) guid then e\<lparr>se_enabled := True\<rparr> # es else e # enable_first guid es)"

definition ls_enable :: "GUID_t \<Rightarrow> LocatorSelector \<Rightarrow> LocatorSelector" where
  "ls_enable guid s = s\<lparr>ls_entries := (ls_entries s)\<lparr>rv_collection := enable_first guid (rv_collection (ls_entries s))\<rparr>\<rparr>"

fun states_differ :: "LocatorSelectorEntry list \<Rightarrow> int list \<Rightarrow> bool" where
  "states_differ (e # es) (x # xs) = (if x \<noteq> (if se_enabled e then 1 else 0) then True else states_differ es xs)"
| "states_differ _ _ = False"

definition state_has_changed :: "LocatorSelector \<Rightarrow> bool" where
  "state_has_changed s =
     (if rv_size (ls_entries s) \<noteq> rv_size (ls_last_state s) then True
      else states_differ (rv_collection (ls_entries s)) (rv_collection (ls_last_state s)))"

definition selection_start :: "LocatorSelector \<Rightarrow> LocatorSelector" where
  "selection_start s = map_entries se_reset (s\<lparr>ls_selections := rv_clear (ls_selections s)\<rparr>)"

definition transport_starts :: "LocatorSelector \<Rightarrow> LocatorSelector" where
  "transport_starts s = map_entries (\<lambda>e. e\<lparr>se_transport_should_process := se_enabled e\<rparr>) s"

definition ls_select :: "u64 \<Rightarrow> LocatorSelector \<Rightarrow> LocatorSelector option" where
  "ls_select index s =
     (if index < rv_size (ls_entries s) \<and> find_if (\<lambda>i. i = index) (rv_collection (ls_selections s)) = None
      then map_option (\<lambda>(v, _). s\<lparr>ls_selections := v\<rparr>) (rv_push_back index (ls_selections s))
      else Some s)"

subsection \<open>What is selected\<close>

fun sum_selected :: "u64 list \<Rightarrow> LocatorSelector \<Rightarrow> u64 \<Rightarrow> u64 option" where
  "sum_selected [] s result = Some result"
| "sum_selected (index # is) s result = do {
     e \<leftarrow> rv_at index (ls_entries s);
     sum_selected is s (result + rv_size (se_state_multicast e) + rv_size (se_state_unicast e)) }"

definition selected_size :: "LocatorSelector \<Rightarrow> u64 option" where
  "selected_size s = sum_selected (rv_collection (ls_selections s)) s 0"

text \<open>The locators at some indices.\<close>

fun locators_at :: "u64 list \<Rightarrow> Locator_t ResourceLimitedVector \<Rightarrow> Locator_t list option" where
  "locators_at [] v = Some []"
| "locators_at (i # is) v = do { l \<leftarrow> rv_at i v; ls \<leftarrow> locators_at is v; Some (l # ls) }"

definition entry_locators :: "LocatorSelectorEntry \<Rightarrow> Locator_t list option" where
  "entry_locators e = do {
     m \<leftarrow> locators_at (rv_collection (se_state_multicast e)) (se_multicast e);
     u \<leftarrow> locators_at (rv_collection (se_state_unicast e)) (se_unicast e);
     Some (m @ u) }"

text \<open>\<open>for_each\<close>: the locators the action is called with, in their order.\<close>

fun ForEachSelected :: "u64 list \<Rightarrow> LocatorSelector \<Rightarrow> Locator_t list option" where
  "ForEachSelected [] s = Some []"
| "ForEachSelected (index # is) s = do {
     e \<leftarrow> rv_at index (ls_entries s);
     here \<leftarrow> entry_locators e;
     rest \<leftarrow> ForEachSelected is s;
     Some (here @ rest) }"

definition ls_for_each :: "LocatorSelector \<Rightarrow> Locator_t list option" where
  "ls_for_each s = ForEachSelected (rv_collection (ls_selections s)) s"

text \<open>\<open>is_selected\<close> looks at the multicast or at the unicast locators only.\<close>

fun locator_among :: "Locator_t \<Rightarrow> u64 list \<Rightarrow> Locator_t ResourceLimitedVector \<Rightarrow> bool option" where
  "locator_among locator [] v = Some False"
| "locator_among locator (i # is) v = do { l \<leftarrow> rv_at i v; if locator_eq l locator then Some True else locator_among locator is v }"

fun IsSelected :: "bool \<Rightarrow> Locator_t \<Rightarrow> u64 list \<Rightarrow> LocatorSelector \<Rightarrow> bool option" where
  "IsSelected multicast locator [] s = Some False"
| "IsSelected multicast locator (index # is) s = do {
     e \<leftarrow> rv_at index (ls_entries s);
     found \<leftarrow> (if multicast then locator_among locator (rv_collection (se_state_multicast e)) (se_multicast e)
               else locator_among locator (rv_collection (se_state_unicast e)) (se_unicast e));
     if found then Some True else IsSelected multicast locator is s }"

definition is_selected :: "(Locator_t \<Rightarrow> bool) \<Rightarrow> Locator_t \<Rightarrow> LocatorSelector \<Rightarrow> bool option" where
  "is_selected isMulticast locator s = IsSelected (isMulticast locator) locator (rv_collection (ls_selections s)) s"

subsection \<open>The iterator\<close>

record IteratorIndex =
  it_selections_index :: u64
  it_state_index :: u64
  it_state_multicast_done :: bool
  it_locator :: "Locator_t option"

text \<open>The loop of \<open>go_to_next_entry\<close> from the entry it looks at next.\<close>

fun NextEntry :: "u64 list \<Rightarrow> u64 \<Rightarrow> LocatorSelector \<Rightarrow> IteratorIndex \<Rightarrow> IteratorIndex option" where
  "NextEntry [] i s it = Some (it\<lparr>it_selections_index := i, it_locator := None\<rparr>)"
| "NextEntry (index # is) i s it = do {
     e \<leftarrow> rv_at index (ls_entries s);
     if rv_size (se_state_multicast e) = 0
     then if rv_size (se_state_unicast e) > 0
          then do { k \<leftarrow> rv_at 0 (se_state_unicast e); l \<leftarrow> rv_at k (se_unicast e);
                    Some (it\<lparr>it_selections_index := i, it_locator := Some l\<rparr>) }
          else NextEntry is (i + 1) s it
     else do { k \<leftarrow> rv_at 0 (se_state_multicast e); l \<leftarrow> rv_at k (se_multicast e);
               Some (it\<lparr>it_selections_index := i, it_state_multicast_done := False, it_locator := Some l\<rparr>) } }"

definition go_to_next_entry :: "LocatorSelector \<Rightarrow> IteratorIndex \<Rightarrow> IteratorIndex option" where
  "go_to_next_entry s it =
     (let i = it_selections_index it + 1 in NextEntry (drop (unat i) (rv_collection (ls_selections s))) i s it)"

definition it_end :: IteratorIndex where
  "it_end = \<lparr>it_selections_index = size_t_max, it_state_index = 0, it_state_multicast_done = True, it_locator = None\<rparr>"

definition it_begin :: "LocatorSelector \<Rightarrow> IteratorIndex option" where
  "it_begin s = go_to_next_entry s it_end"

definition it_next :: "LocatorSelector \<Rightarrow> IteratorIndex \<Rightarrow> IteratorIndex option" where
  "it_next s it = do {
     index \<leftarrow> rv_at (it_selections_index it) (ls_selections s);
     e \<leftarrow> rv_at index (ls_entries s);
     let n = it_state_index it + 1;
     if it_state_multicast_done it
     then if n \<ge> rv_size (se_state_unicast e) then go_to_next_entry s (it\<lparr>it_state_index := 0\<rparr>)
          else do { k \<leftarrow> rv_at n (se_state_unicast e); l \<leftarrow> rv_at k (se_unicast e);
                    Some (it\<lparr>it_state_index := n, it_locator := Some l\<rparr>) }
     else if n \<ge> rv_size (se_state_multicast e)
     then if 0 \<ge> rv_size (se_state_unicast e)
          then go_to_next_entry s (it\<lparr>it_state_multicast_done := True, it_state_index := 0\<rparr>)
          else do { k \<leftarrow> rv_at 0 (se_state_unicast e); l \<leftarrow> rv_at k (se_unicast e);
                    Some (it\<lparr>it_state_multicast_done := True, it_state_index := 0, it_locator := Some l\<rparr>) }
     else do { k \<leftarrow> rv_at n (se_state_multicast e); l \<leftarrow> rv_at k (se_multicast e);
               Some (it\<lparr>it_state_index := n, it_locator := Some l\<rparr>) } }"

text \<open>
  A loop from \<open>begin\<close> to \<open>end\<close>, with a bound on its rounds.  Iterators are compared by the address of their locator; the loop
  only asks whether it is null, as that of \<open>end\<close> is.
\<close>

fun Iterate :: "nat \<Rightarrow> LocatorSelector \<Rightarrow> IteratorIndex \<Rightarrow> Locator_t list option" where
  "Iterate n s it =
     (case it_locator it of
        None \<Rightarrow> Some []
      | Some l \<Rightarrow> (case n of 0 \<Rightarrow> None
          | Suc m \<Rightarrow> do { it' \<leftarrow> it_next s it; ls \<leftarrow> Iterate m s it'; Some (l # ls) }))"

subsection \<open>The iterator visits what \<open>for_each\<close> does\<close>

text \<open>The vectors of a selector keep their limits.\<close>

definition selector_ok :: "LocatorSelector \<Rightarrow> bool" where
  "selector_ok s \<longleftrightarrow> rv_ok (ls_entries s) \<and> rv_ok (ls_selections s) \<and> rv_ok (ls_last_state s)
     \<and> rv_limit (ls_last_state s) = rv_limit (ls_entries s)
     \<and> (\<forall>e \<in> set (rv_collection (ls_entries s)). rv_ok (se_state_unicast e) \<and> rv_ok (se_state_multicast e))"

lemma rv_at_nth: "rv_ok v \<Longrightarrow> rv_at i v = (if unat i < length (rv_collection v) then Some (rv_collection v ! unat i) else None)"
  by (simp add: rv_at_def vec_size_unat word_less_nat_alt)

lemma rv_size_unat: "rv_ok v \<Longrightarrow> unat (rv_size v) = length (rv_collection v)"
  by (simp add: rv_size_def vec_size_unat)

lemma rv_size_zero: "rv_ok v \<Longrightarrow> rv_size v = 0 \<longleftrightarrow> rv_collection v = []"
  using rv_size_unat [of v] by (metis length_0_conv unat_0 unat_eq_zero)

lemma small_length: "rv_ok v \<Longrightarrow> length (rv_collection v) < 2 ^ 64"
  using rv_size_unat [of v] unsigned_less [of "rv_size v", where 'a = nat] by simp

lemma locators_at_nth:
  "locators_at is v = Some ls \<Longrightarrow> length ls = length is \<and> (\<forall>k < length is. rv_at (is ! k) v = Some (ls ! k))"
  by (induction "is" arbitrary: ls) (auto simp: bind_eq_Some_conv nth_Cons split: nat.split)

lemma rv_at_in: "rv_at i v = Some e \<Longrightarrow> e \<in> set (rv_collection v)"
proof -
  assume a: "rv_at i v = Some e"
  then have "unat i < length (rv_collection v)"
    by (auto simp: rv_at_def vec_size_def word_less_nat_alt unsigned_of_nat split: if_splits)
       (metis take_bit_nat_less_eq_self order_less_le_trans)
  then show ?thesis using a by (auto simp: rv_at_def split: if_splits)
qed

text \<open>The entry at a selection with the locators it contributes, and those of the later selections.\<close>

definition entry_view ::
    "LocatorSelector \<Rightarrow> nat \<Rightarrow> LocatorSelectorEntry \<Rightarrow> Locator_t list \<Rightarrow> Locator_t list \<Rightarrow> Locator_t list \<Rightarrow> bool" where
  "entry_view s j e m u rest \<longleftrightarrow>
     j < length (rv_collection (ls_selections s)) \<and> rv_at (rv_collection (ls_selections s) ! j) (ls_entries s) = Some e
     \<and> locators_at (rv_collection (se_state_multicast e)) (se_multicast e) = Some m
     \<and> locators_at (rv_collection (se_state_unicast e)) (se_unicast e) = Some u
     \<and> ForEachSelected (drop (Suc j) (rv_collection (ls_selections s))) s = Some rest"

definition points :: "LocatorSelector \<Rightarrow> IteratorIndex \<Rightarrow> Locator_t list \<Rightarrow> bool" where
  "points s it ls \<longleftrightarrow> it_locator it = None \<and> ls = []
     \<or> (\<exists>e m u rest. entry_view s (unat (it_selections_index it)) e m u rest
        \<and> (if it_state_multicast_done it
           then unat (it_state_index it) < length u \<and> ls = drop (unat (it_state_index it)) u @ rest
             \<and> it_locator it = Some (u ! unat (it_state_index it))
           else unat (it_state_index it) < length m \<and> ls = drop (unat (it_state_index it)) m @ u @ rest
             \<and> it_locator it = Some (m ! unat (it_state_index it))))"

lemma entry_sizes:
  assumes "selector_ok s" and "entry_view s j e m u rest"
  shows "rv_ok (se_state_multicast e)" and "rv_ok (se_state_unicast e)"
    and "length m = length (rv_collection (se_state_multicast e))" and "length u = length (rv_collection (se_state_unicast e))"
  using assms rv_at_in locators_at_nth by (fastforce simp: selector_ok_def entry_view_def)+

text \<open>The locator at an index of the state.\<close>

lemma state_locator:
  assumes "rv_ok st" and "locators_at (rv_collection st) v = Some ls" and "unat k < length ls"
  shows "do { i \<leftarrow> rv_at k st; rv_at i v } = Some (ls ! unat k)" and "\<exists>i. rv_at k st = Some i \<and> rv_at i v = Some (ls ! unat k)"
  using assms locators_at_nth [OF assms(2)] by (auto simp: rv_at_nth)

lemma NextEntry_spec:
  assumes ok: "selector_ok s"
  shows "ForEachSelected (drop j (rv_collection (ls_selections s))) s = Some ls \<Longrightarrow> unat i = j \<Longrightarrow>
     j \<le> length (rv_collection (ls_selections s)) \<Longrightarrow> it_state_index it = 0 \<Longrightarrow> it_state_multicast_done it \<Longrightarrow>
     \<exists>it'. NextEntry (drop j (rv_collection (ls_selections s))) i s it = Some it' \<and> points s it' ls"
proof (induction "drop j (rv_collection (ls_selections s))" arbitrary: j i ls)
  case Nil
  then have "drop j (rv_collection (ls_selections s)) = []" by simp
  then show ?case using Nil by (simp add: points_def)
next
  case (Cons x xs)
  let ?sel = "rv_collection (ls_selections s)"
  have j: "j < length ?sel" using Cons.hyps(2) by (metis drop_all leI list.distinct(1))
  have dr: "drop j ?sel = ?sel ! j # drop (Suc j) ?sel" using j by (simp add: Cons_nth_drop_Suc)
  then have xs: "xs = drop (Suc j) ?sel" and x: "x = ?sel ! j" using Cons.hyps(2) by simp_all
  obtain e m u rest where v: "entry_view s j e m u rest" and ls: "ls = (m @ u) @ rest"
    using Cons.prems(1) dr j by (auto simp: bind_eq_Some_conv entry_view_def entry_locators_def)
  have e: "rv_at (?sel ! j) (ls_entries s) = Some e"
    and m: "locators_at (rv_collection (se_state_multicast e)) (se_multicast e) = Some m"
    and u: "locators_at (rv_collection (se_state_unicast e)) (se_unicast e) = Some u"
    and rest: "ForEachSelected (drop (Suc j) ?sel) s = Some rest" using v by (auto simp: entry_view_def)
  note sz = entry_sizes [OF ok v]
  consider (multi) "m \<noteq> []" | (uni) "m = []" "u \<noteq> []" | (none) "m = []" "u = []" by blast
  then show ?case
  proof cases
    case multi
    obtain k where k: "rv_at 0 (se_state_multicast e) = Some k" "rv_at k (se_multicast e) = Some (m ! 0)"
      using state_locator(2) [OF sz(1) m, of 0] multi by auto
    have "rv_size (se_state_multicast e) \<noteq> 0" using rv_size_zero [OF sz(1)] sz(3) multi by auto
    then have "NextEntry (drop j ?sel) i s it = Some (it\<lparr>it_selections_index := i, it_state_multicast_done := False, it_locator := Some (m ! 0)\<rparr>)"
      using dr e k by simp
    moreover have "points s (it\<lparr>it_selections_index := i, it_state_multicast_done := False, it_locator := Some (m ! 0)\<rparr>) ls"
      unfolding points_def using v multi ls Cons.prems(2,4) by (intro disjI2 exI [of _ e] exI [of _ m] exI [of _ u] exI [of _ rest]) simp
    ultimately show ?thesis by blast
  next
    case uni
    obtain k where k: "rv_at 0 (se_state_unicast e) = Some k" "rv_at k (se_unicast e) = Some (u ! 0)"
      using state_locator(2) [OF sz(2) u, of 0] uni by auto
    have "rv_size (se_state_multicast e) = 0" "rv_size (se_state_unicast e) \<noteq> 0"
      using rv_size_zero [OF sz(1)] rv_size_zero [OF sz(2)] sz(3,4) uni by auto
    then have "NextEntry (drop j ?sel) i s it = Some (it\<lparr>it_selections_index := i, it_locator := Some (u ! 0)\<rparr>)"
      using dr e k by (simp add: word_neq_0_conv)
    moreover have "points s (it\<lparr>it_selections_index := i, it_locator := Some (u ! 0)\<rparr>) ls"
      unfolding points_def using v uni ls Cons.prems(2,4,5) by (intro disjI2 exI [of _ e] exI [of _ m] exI [of _ u] exI [of _ rest]) simp
    ultimately show ?thesis by blast
  next
    case none
    have "rv_size (se_state_multicast e) = 0" "rv_size (se_state_unicast e) = 0"
      using rv_size_zero [OF sz(1)] rv_size_zero [OF sz(2)] sz(3,4) none by auto
    then have "NextEntry (drop j ?sel) i s it = NextEntry (drop (Suc j) ?sel) (i + 1) s it" using dr e by simp
    moreover have "unat (i + 1) = Suc j"
    proof -
      have "length ?sel < 2 ^ 64" using small_length ok by (auto simp: selector_ok_def)
      then have "i \<noteq> - 1" using Cons.prems(2) j by (auto simp: unsigned_minus_1_eq_mask mask_eq_exp_minus_1)
      then have "1 + i \<noteq> 0" by (metis add.commute add_eq_0_iff)
      then show ?thesis using Cons.prems(2) unatSuc [of i] by (simp add: add.commute)
    qed
    ultimately show ?thesis using Cons.hyps(1) [of "Suc j" rest "i + 1"] xs rest ls none j Cons.prems(4,5) by simp
  qed
qed

lemma go_to_next_spec:
  assumes ok: "selector_ok s" and j: "j < length (rv_collection (ls_selections s))" "unat (it_selections_index it) = j"
    and rest: "ForEachSelected (drop (Suc j) (rv_collection (ls_selections s))) s = Some rest"
    and it: "it_state_index it = 0" "it_state_multicast_done it"
  shows "\<exists>it'. go_to_next_entry s it = Some it' \<and> points s it' rest"
proof -
  have "length (rv_collection (ls_selections s)) < 2 ^ 64" using small_length ok by (auto simp: selector_ok_def)
  then have "it_selections_index it \<noteq> - 1" using j by (auto simp: unsigned_minus_1_eq_mask mask_eq_exp_minus_1)
  then have "1 + it_selections_index it \<noteq> 0" by (metis add.commute add_eq_0_iff)
  then have "unat (it_selections_index it + 1) = Suc j" using j(2) unatSuc [of "it_selections_index it"] by (simp add: add.commute)
  then show ?thesis using NextEntry_spec [OF ok rest _ _ it, of "it_selections_index it + 1"] j(1)
    by (simp add: go_to_next_entry_def Let_def)
qed

lemma it_begin_spec: "selector_ok s \<Longrightarrow> ls_for_each s = Some ls \<Longrightarrow> \<exists>it. it_begin s = Some it \<and> points s it ls"
  using NextEntry_spec [of s 0 ls 0 it_end]
  by (simp add: ls_for_each_def it_begin_def go_to_next_entry_def it_end_def size_t_max_def)

text \<open>The next index within a state.\<close>

lemma next_index:
  assumes "rv_ok st" and "unat k < length (rv_collection st)"
  shows "k + 1 \<ge> rv_size st \<longleftrightarrow> Suc (unat k) = length (rv_collection st)" and "unat (k + 1) = Suc (unat k)"
proof -
  have "k \<noteq> - 1" using assms small_length [OF assms(1)] by (auto simp: unsigned_minus_1_eq_mask mask_eq_exp_minus_1)
  then have "1 + k \<noteq> 0" by (metis add.commute add_eq_0_iff)
  then show n: "unat (k + 1) = Suc (unat k)" using unatSuc [of k] by (simp add: add.commute)
  show "k + 1 \<ge> rv_size st \<longleftrightarrow> Suc (unat k) = length (rv_collection st)"
    using assms(2) by (simp add: word_le_nat_alt n rv_size_unat [OF assms(1)]) linarith
qed

lemma it_next_unicast:
  assumes ok: "selector_ok s" and v: "entry_view s (unat (it_selections_index it)) e m u rest" and d: "it_state_multicast_done it"
    and k: "unat (it_state_index it) < length u"
  shows "\<exists>it'. it_next s it = Some it' \<and> points s it' (drop (Suc (unat (it_state_index it))) u @ rest)"
proof -
  note sz = entry_sizes [OF ok v]
  let ?n = "it_state_index it + 1"
  have at: "rv_at (it_selections_index it) (ls_selections s) = Some (rv_collection (ls_selections s) ! unat (it_selections_index it))"
    using v ok by (simp add: entry_view_def selector_ok_def rv_at_nth)
  have e: "rv_at (rv_collection (ls_selections s) ! unat (it_selections_index it)) (ls_entries s) = Some e"
    and u: "locators_at (rv_collection (se_state_unicast e)) (se_unicast e) = Some u" using v by (auto simp: entry_view_def)
  note n = next_index [OF sz(2) k [unfolded sz(4)]]
  show ?thesis
  proof (cases "Suc (unat (it_state_index it)) = length u")
    case True
    then have "it_next s it = go_to_next_entry s (it\<lparr>it_state_index := 0\<rparr>)"
      using at e d n(1) sz(4) by (simp add: it_next_def Let_def)
    then show ?thesis using go_to_next_spec [OF ok _ _ _ _, of "unat (it_selections_index it)" "it\<lparr>it_state_index := 0\<rparr>" rest] v d True
      by (simp add: entry_view_def)
  next
    case False
    then have less: "unat ?n < length u" using k n(2) by simp
    obtain i where i: "rv_at ?n (se_state_unicast e) = Some i" "rv_at i (se_unicast e) = Some (u ! unat ?n)"
      using state_locator(2) [OF sz(2) u less] by blast
    let ?it = "it\<lparr>it_state_index := ?n, it_locator := Some (u ! unat ?n)\<rparr>"
    have "it_next s it = Some ?it" using at e d n(1) sz(4) False i by (simp add: it_next_def Let_def)
    moreover have "points s ?it (drop (Suc (unat (it_state_index it))) u @ rest)"
      unfolding points_def using v d less n(2) by (intro disjI2 exI [of _ e] exI [of _ m] exI [of _ u] exI [of _ rest]) simp
    ultimately show ?thesis by blast
  qed
qed

lemma it_next_multicast:
  assumes ok: "selector_ok s" and v: "entry_view s (unat (it_selections_index it)) e m u rest" and d: "\<not> it_state_multicast_done it"
    and k: "unat (it_state_index it) < length m"
  shows "\<exists>it'. it_next s it = Some it' \<and> points s it' (drop (Suc (unat (it_state_index it))) m @ u @ rest)"
proof -
  note sz = entry_sizes [OF ok v]
  let ?n = "it_state_index it + 1"
  have at: "rv_at (it_selections_index it) (ls_selections s) = Some (rv_collection (ls_selections s) ! unat (it_selections_index it))"
    using v ok by (simp add: entry_view_def selector_ok_def rv_at_nth)
  have e: "rv_at (rv_collection (ls_selections s) ! unat (it_selections_index it)) (ls_entries s) = Some e"
    and m: "locators_at (rv_collection (se_state_multicast e)) (se_multicast e) = Some m"
    and u: "locators_at (rv_collection (se_state_unicast e)) (se_unicast e) = Some u" using v by (auto simp: entry_view_def)
  note n = next_index [OF sz(1) k [unfolded sz(3)]]
  consider (more) "Suc (unat (it_state_index it)) \<noteq> length m" | (uni) "Suc (unat (it_state_index it)) = length m" "u \<noteq> []"
    | (none) "Suc (unat (it_state_index it)) = length m" "u = []" by blast
  then show ?thesis
  proof cases
    case more
    then have less: "unat ?n < length m" using k n(2) by simp
    obtain i where i: "rv_at ?n (se_state_multicast e) = Some i" "rv_at i (se_multicast e) = Some (m ! unat ?n)"
      using state_locator(2) [OF sz(1) m less] by blast
    let ?it = "it\<lparr>it_state_index := ?n, it_locator := Some (m ! unat ?n)\<rparr>"
    have "it_next s it = Some ?it" using at e d n(1) sz(3) more i by (simp add: it_next_def Let_def)
    moreover have "points s ?it (drop (Suc (unat (it_state_index it))) m @ u @ rest)"
      unfolding points_def using v d less n(2) by (intro disjI2 exI [of _ e] exI [of _ m] exI [of _ u] exI [of _ rest]) simp
    ultimately show ?thesis by blast
  next
    case uni
    then have "0 < length u" by simp
    then obtain i where i: "rv_at 0 (se_state_unicast e) = Some i" "rv_at i (se_unicast e) = Some (u ! 0)"
      using state_locator(2) [OF sz(2) u, of 0] by auto
    let ?it = "it\<lparr>it_state_multicast_done := True, it_state_index := 0, it_locator := Some (u ! 0)\<rparr>"
    have "rv_size (se_state_unicast e) \<noteq> 0" using rv_size_zero [OF sz(2)] sz(4) uni(2) by auto
    then have "it_next s it = Some ?it" using at e d n(1) sz(3) uni(1) i by (simp add: it_next_def Let_def)
    moreover have "points s ?it (drop (Suc (unat (it_state_index it))) m @ u @ rest)"
      unfolding points_def using v d uni by (intro disjI2 exI [of _ e] exI [of _ m] exI [of _ u] exI [of _ rest]) simp
    ultimately show ?thesis by blast
  next
    case none
    have "rv_size (se_state_unicast e) = 0" using rv_size_zero [OF sz(2)] sz(4) none(2) by auto
    then have "it_next s it = go_to_next_entry s (it\<lparr>it_state_multicast_done := True, it_state_index := 0\<rparr>)"
      using at e d n(1) sz(3) none(1) by (simp add: it_next_def Let_def)
    then show ?thesis
      using go_to_next_spec [OF ok, of "unat (it_selections_index it)" "it\<lparr>it_state_multicast_done := True, it_state_index := 0\<rparr>" rest] v none
      by (simp add: entry_view_def)
  qed
qed

lemma it_next_spec:
  assumes ok: "selector_ok s" and p: "points s it (l # ls)"
  shows "it_locator it = Some l" and "\<exists>it'. it_next s it = Some it' \<and> points s it' ls"
proof -
  obtain e m u rest where v: "entry_view s (unat (it_selections_index it)) e m u rest"
    and w: "if it_state_multicast_done it
       then unat (it_state_index it) < length u \<and> l # ls = drop (unat (it_state_index it)) u @ rest
         \<and> it_locator it = Some (u ! unat (it_state_index it))
       else unat (it_state_index it) < length m \<and> l # ls = drop (unat (it_state_index it)) m @ u @ rest
         \<and> it_locator it = Some (m ! unat (it_state_index it))"
    using p by (auto simp: points_def)
  let ?k = "unat (it_state_index it)"
  have "it_locator it = Some l \<and> (\<exists>it'. it_next s it = Some it' \<and> points s it' ls)"
  proof (cases "it_state_multicast_done it")
    case True
    then have k: "?k < length u" and eq: "l # ls = drop ?k u @ rest" "it_locator it = Some (u ! ?k)" using w by auto
    then have "l = u ! ?k \<and> ls = drop (Suc ?k) u @ rest" by (simp add: Cons_nth_drop_Suc [symmetric])
    then show ?thesis using it_next_unicast [OF ok v True k] eq(2) by simp
  next
    case False
    then have k: "?k < length m" and eq: "l # ls = drop ?k m @ u @ rest" "it_locator it = Some (m ! ?k)" using w by auto
    then have "l = m ! ?k \<and> ls = drop (Suc ?k) m @ u @ rest" by (simp add: Cons_nth_drop_Suc [symmetric])
    then show ?thesis using it_next_multicast [OF ok v False k] eq(2) by simp
  qed
  then show "it_locator it = Some l" and "\<exists>it'. it_next s it = Some it' \<and> points s it' ls" by simp_all
qed

lemma Iterate_spec: "selector_ok s \<Longrightarrow> points s it ls \<Longrightarrow> length ls \<le> n \<Longrightarrow> Iterate n s it = Some ls"
proof (induction ls arbitrary: n it)
  case Nil
  then have "it_locator it = None" by (auto simp: points_def split: if_splits)
  then show ?case by simp
next
  case (Cons l ls)
  then obtain k where n: "n = Suc k" by (cases n) simp_all
  obtain it' where "it_next s it = Some it'" "points s it' ls" using it_next_spec(2) [OF Cons.prems(1,2)] by blast
  then show ?case using it_next_spec(1) [OF Cons.prems(1,2)] Cons.IH [of it' k] Cons.prems n by simp
qed

subsection \<open>Size and membership of the selection\<close>

lemma sum_selected_spec:
  assumes ok: "selector_ok s"
  shows "ForEachSelected is s = Some ls \<Longrightarrow> sum_selected is s r = Some (r + of_nat (length ls))"
proof (induction "is" arbitrary: r ls)
  case (Cons i "is")
  obtain e m u rest where e: "rv_at i (ls_entries s) = Some e" and ls: "ls = (m @ u) @ rest"
    and m: "locators_at (rv_collection (se_state_multicast e)) (se_multicast e) = Some m"
    and u: "locators_at (rv_collection (se_state_unicast e)) (se_unicast e) = Some u"
    and rest: "ForEachSelected is s = Some rest" using Cons.prems by (auto simp: bind_eq_Some_conv entry_locators_def)
  have "rv_size (se_state_multicast e) = of_nat (length m)" "rv_size (se_state_unicast e) = of_nat (length u)"
    using locators_at_nth [OF m] locators_at_nth [OF u] by (simp_all add: rv_size_def vec_size_def)
  then show ?case using e Cons.IH [OF rest] ls by (simp add: algebra_simps)
qed simp

lemma locator_among_spec:
  "locators_at is v = Some ls \<Longrightarrow> locator_among l is v = Some (l \<in> set ls)"
  by (induction "is" arbitrary: ls) (auto simp: bind_eq_Some_conv)

text \<open>Each list of locators holds only locators of its kind.\<close>

definition kinds_apart :: "(Locator_t \<Rightarrow> bool) \<Rightarrow> LocatorSelector \<Rightarrow> bool" where
  "kinds_apart isMulticast s \<longleftrightarrow> (\<forall>e \<in> set (rv_collection (ls_entries s)).
     (\<forall>l \<in> set (rv_collection (se_multicast e)). isMulticast l) \<and> (\<forall>l \<in> set (rv_collection (se_unicast e)). \<not> isMulticast l))"

lemma locators_at_in: "locators_at is v = Some ls \<Longrightarrow> set ls \<subseteq> set (rv_collection v)"
  by (induction "is" arbitrary: ls) (auto simp: bind_eq_Some_conv dest: rv_at_in)

lemma IsSelected_spec:
  assumes k: "kinds_apart isMulticast s"
  shows "ForEachSelected is s = Some ls \<Longrightarrow> IsSelected (isMulticast l) l is s = Some (l \<in> set ls)"
proof (induction "is" arbitrary: ls)
  case (Cons i "is")
  obtain e m u rest where e: "rv_at i (ls_entries s) = Some e" and ls: "ls = (m @ u) @ rest"
    and m: "locators_at (rv_collection (se_state_multicast e)) (se_multicast e) = Some m"
    and u: "locators_at (rv_collection (se_state_unicast e)) (se_unicast e) = Some u"
    and rest: "ForEachSelected is s = Some rest" using Cons.prems by (auto simp: bind_eq_Some_conv entry_locators_def)
  have "l \<notin> set u" if "isMulticast l" using that k rv_at_in [OF e] locators_at_in [OF u] by (auto simp: kinds_apart_def)
  moreover have "l \<notin> set m" if "\<not> isMulticast l" using that k rv_at_in [OF e] locators_at_in [OF m] by (auto simp: kinds_apart_def)
  ultimately show ?case using e Cons.IH [OF rest] ls locator_among_spec [OF m, of l] locator_among_spec [OF u, of l] by auto
qed simp

subsection \<open>Changes of the enabled entries\<close>

lemma save_states_spec:
  "rv_ok v \<Longrightarrow> length (rv_collection v) + length es \<le> rv_limit v \<Longrightarrow>
   \<exists>v'. save_states es v = Some v' \<and> rv_ok v' \<and> rv_limit v' = rv_limit v
     \<and> rv_collection v' = rv_collection v @ map (\<lambda>e. if se_enabled e then 1 else 0) es"
proof (induction es arbitrary: v)
  case (Cons e es)
  obtain v1 where v1: "rv_emplace_back (if se_enabled e then 1 else 0) v = Some (v1, True)" "rv_ok v1" "rv_limit v1 = rv_limit v"
      "rv_collection v1 = rv_collection v @ [if se_enabled e then 1 else 0]"
    using emplace_back_room [OF Cons.prems(1), of "if se_enabled e then 1 else 0"] Cons.prems(2) by auto
  then show ?case using Cons.IH [of v1] Cons.prems(2) by (auto simp: rv_push_back_def)
qed simp

lemma states_differ_spec:
  "length es = length xs \<Longrightarrow> states_differ es xs \<longleftrightarrow> map (\<lambda>e. if se_enabled e then 1 else 0) es \<noteq> xs"
  by (induction es xs rule: list_induct2) auto

lemma enable_first_length [simp]: "length (enable_first g es) = length es"
  by (induction es) auto

lemma reset_spec:
  assumes ok: "selector_ok s"
  shows "\<exists>s'. ls_reset enable_all s = Some s' \<and> selector_ok s'
    \<and> rv_collection (ls_entries s') = map (se_enable enable_all) (rv_collection (ls_entries s))
    \<and> rv_collection (ls_last_state s') = map (\<lambda>e. if se_enabled e then 1 else 0) (rv_collection (ls_entries s))"
proof -
  have "rv_ok (rv_clear (ls_last_state s))" "rv_limit (rv_clear (ls_last_state s)) = rv_limit (ls_entries s)"
    "rv_collection (rv_clear (ls_last_state s)) = []"
    using rv_cleared [of "ls_last_state s"] ok by (simp_all add: selector_ok_def)
  moreover have "length (rv_collection (ls_entries s)) \<le> rv_limit (ls_entries s)" using ok rv_bounded by (auto simp: selector_ok_def)
  ultimately obtain v where v: "save_states (rv_collection (ls_entries s)) (rv_clear (ls_last_state s)) = Some v" "rv_ok v"
      "rv_limit v = rv_limit (ls_entries s)" "rv_collection v = map (\<lambda>e. if se_enabled e then 1 else 0) (rv_collection (ls_entries s))"
    using save_states_spec [of "rv_clear (ls_last_state s)" "rv_collection (ls_entries s)"] by auto
  have f: "rv_ok ((ls_entries s)\<lparr>rv_collection := map g (rv_collection (ls_entries s))\<rparr>)
      \<and> rv_limit ((ls_entries s)\<lparr>rv_collection := map g (rv_collection (ls_entries s))\<rparr>) = rv_limit (ls_entries s)" for g
    using rv_ok_same [of "ls_entries s" "(ls_entries s)\<lparr>rv_collection := map g (rv_collection (ls_entries s))\<rparr>"] ok
    by (simp add: selector_ok_def)
  then show ?thesis using v ok by (auto simp: ls_reset_def map_entries_def selector_ok_def se_enable_def)
qed

lemma enable_spec:
  assumes ok: "selector_ok s"
  shows "selector_ok (ls_enable g s)" and "ls_last_state (ls_enable g s) = ls_last_state s"
    and "length (rv_collection (ls_entries (ls_enable g s))) = length (rv_collection (ls_entries s))"
proof -
  have "rv_ok (se_state_unicast e) \<and> rv_ok (se_state_multicast e)"
    if "e \<in> set (enable_first g es)" "\<forall>e \<in> set es. rv_ok (se_state_unicast e) \<and> rv_ok (se_state_multicast e)" for e es
    using that by (induction es) (auto split: if_splits)
  then show "selector_ok (ls_enable g s)"
    using rv_ok_same [of "ls_entries s" "(ls_entries s)\<lparr>rv_collection := enable_first g (rv_collection (ls_entries s))\<rparr>"] ok
    by (simp add: selector_ok_def ls_enable_def)
qed (simp_all add: ls_enable_def)

lemma changed_iff:
  assumes "selector_ok s" and "length (rv_collection (ls_last_state s)) = length (rv_collection (ls_entries s))"
  shows "state_has_changed s \<longleftrightarrow>
    map (\<lambda>e. if se_enabled e then 1 else 0) (rv_collection (ls_entries s)) \<noteq> rv_collection (ls_last_state s)"
  using assms by (simp add: state_has_changed_def states_differ_spec rv_size_def vec_size_def)

lemma map_flag_eq: "map (\<lambda>e. if f e then 1 else (0 :: int)) xs = map (\<lambda>e. if f e then 1 else 0) ys \<longleftrightarrow> map f xs = map f ys"
  by (induction xs ys rule: list_induct2') auto

text \<open>
  After \<open>reset\<close> and any sequence of \<open>enable\<close>, \<open>state_has_changed\<close> tells whether the enabled entries differ from those
  before the reset.
\<close>

lemma enabled_changes_are_seen:
  assumes ok: "selector_ok s" and r: "ls_reset enable_all s = Some s'"
  shows "state_has_changed (fold ls_enable gs s') \<longleftrightarrow>
    map se_enabled (rv_collection (ls_entries (fold ls_enable gs s'))) \<noteq> map se_enabled (rv_collection (ls_entries s))"
proof -
  have s': "selector_ok s'" "length (rv_collection (ls_entries s')) = length (rv_collection (ls_entries s))"
    "rv_collection (ls_last_state s') = map (\<lambda>e. if se_enabled e then 1 else 0) (rv_collection (ls_entries s))"
    using reset_spec [OF ok, of enable_all] r by auto
  have "selector_ok (fold ls_enable gs t) \<and> ls_last_state (fold ls_enable gs t) = ls_last_state t
      \<and> length (rv_collection (ls_entries (fold ls_enable gs t))) = length (rv_collection (ls_entries t))" if "selector_ok t" for t
    using that by (induction gs arbitrary: t) (simp_all add: enable_spec)
  note f = this [OF s'(1)]
  then show ?thesis using changed_iff [of "fold ls_enable gs s'"] s'(2,3) by (simp add: map_flag_eq)
qed

subsection \<open>The property\<close>

text \<open>
  C40. The iterator visits the selection.  Whenever every selected index is within its vector, a loop from \<open>begin\<close> to
  \<open>end\<close> leaves no bound, stops after as many rounds as there are selected locators, and visits exactly those
  \<open>for_each\<close> passes to its action, in the same order; \<open>selected_size\<close> is their number, and \<open>is_selected\<close> is membership
  when each entry keeps its multicast and its unicast locators apart.
\<close>

theorem locator_iterator_visits_the_selection:
  assumes "selector_ok s" and "ls_for_each s = Some ls" and "kinds_apart isMulticast s"
  shows "(\<exists>it. it_begin s = Some it \<and> Iterate (length ls) s it = Some ls)
    \<and> selected_size s = Some (of_nat (length ls)) \<and> is_selected isMulticast l s = Some (l \<in> set ls)"
proof -
  obtain it where "it_begin s = Some it" "points s it ls" using it_begin_spec [OF assms(1,2)] by blast
  then have "\<exists>it. it_begin s = Some it \<and> Iterate (length ls) s it = Some ls" using Iterate_spec [OF assms(1)] by blast
  moreover have "selected_size s = Some (of_nat (length ls))"
    using sum_selected_spec [OF assms(1), of "rv_collection (ls_selections s)" ls 0] assms(2) by (simp add: ls_for_each_def selected_size_def)
  moreover have "is_selected isMulticast l s = Some (l \<in> set ls)"
    using IsSelected_spec [OF assms(3)] assms(2) by (simp add: ls_for_each_def is_selected_def)
  ultimately show ?thesis by blast
qed

definition fixed_vector :: "'a list \<Rightarrow> 'a ResourceLimitedVector" where
  "fixed_vector xs = \<lparr>rv_configuration = fixed_size_configuration 4, rv_collection = xs, rv_capacity = 4\<rparr>"

lemma fixed_vector_ok: "length xs \<le> 4 \<Longrightarrow> rv_ok (fixed_vector xs) \<and> rv_limit (fixed_vector xs) = 4"
  using rc_ok_examples(2) [of 4] by (simp add: fixed_vector_def rv_ok_def rv_limit_def fixed_size_configuration_def)

lemma fixed_vector_items [simp]: "rv_collection (fixed_vector xs) = xs"
  by (simp add: fixed_vector_def)

text \<open>Two remote entities: the first selected with a multicast and a unicast locator, the second with one unicast locator.\<close>

definition TwoRemotes :: LocatorSelector where
  "TwoRemotes =
     \<lparr>ls_entries = fixed_vector
        [\<lparr>se_remote_guid = GUID_of_u32 GuidPrefix_new 1, se_unicast = fixed_vector [Locator_of_port 1, Locator_of_port 2],
          se_multicast = fixed_vector [Locator_of_kind 2 3], se_state_unicast = fixed_vector [1],
          se_state_multicast = fixed_vector [0], se_enabled = True, se_transport_should_process = True\<rparr>,
         \<lparr>se_remote_guid = GUID_of_u32 GuidPrefix_new 2, se_unicast = fixed_vector [Locator_of_port 4],
          se_multicast = fixed_vector [], se_state_unicast = fixed_vector [0],
          se_state_multicast = fixed_vector [], se_enabled = True, se_transport_should_process = True\<rparr>],
      ls_selections = fixed_vector [1, 0], ls_last_state = fixed_vector []\<rparr>"

theorem locator_iterator_visits_the_selection_witness:
  "(\<exists>it. it_begin TwoRemotes = Some it
      \<and> Iterate 3 TwoRemotes it = Some [Locator_of_port 4, Locator_of_kind 2 3, Locator_of_port 2])
    \<and> is_selected (\<lambda>l. loc_kind l = 2) (Locator_of_kind 2 3) TwoRemotes = Some True"
proof -
  have ok: "selector_ok TwoRemotes" by (simp add: TwoRemotes_def selector_ok_def fixed_vector_ok)
  have all: "ls_for_each TwoRemotes = Some [Locator_of_port 4, Locator_of_kind 2 3, Locator_of_port 2]" by code_simp
  have "kinds_apart (\<lambda>l. loc_kind l = 2) TwoRemotes"
    by (simp add: TwoRemotes_def kinds_apart_def Locator_of_port_def Locator_of_kind_def BOOSTER_FASTDDS_LOCATOR_KIND_UDPv4_def)
  from locator_iterator_visits_the_selection [OF ok all this, of "Locator_of_kind 2 3"] show ?thesis
    by (simp del: Iterate.simps add: eval_nat_numeral)
qed

text \<open>An entry that is removed after its selection leaves an index that is out of range, or that is another entry's.\<close>

lemma removed_entry_stays_selected:
  "ls_for_each (fst (remove_entry (GUID_of_u32 GuidPrefix_new 1) TwoRemotes)) = None"
  "ls_for_each (fst (remove_entry (GUID_of_u32 GuidPrefix_new 1) (TwoRemotes\<lparr>ls_selections := fixed_vector [0]\<rparr>)))
     = Some [Locator_of_port 4]"
  by code_simp+

end
