(* ===== verification/Spec2Isabelle.thy ===== *)
theory Spec2Isabelle
  imports Dds_Callbacks Dds_Channel Loco_Client Device_Info Ai_Api Light_Api Vision_Api X5_Camera
    Audio_Types Move_Controller Arm_Controller Rtps_Sets Fragment_Delivery Change_For_Reader Cdr_Roundtrip Rtps_Guid Resource_Vector
    Instance_Ownership Reader_Loans Shared_Mutex Locator_Selector
begin

text \<open>
  A model of the Booster Robotics SDK.

  The SDK is a C++ library by which an application talks to a humanoid robot over DDS.  What its
  headers define is modelled here; what is compiled into its binary library (the RPC client and
  server, the audio manager, the serialisation of messages) is a parameter or is left out.

  \<^bold>\<open>Receiving (\<open>common/dds\<close>)\<close>
  \<^item> \<open>Dds_Executor\<close>: \<open>dds_callback_executor.hpp\<close>, the thread pool and the dedicated thread that run
    callbacks, as a transition system over their task queue, with options, metrics and thread names.
  \<^item> \<open>Dds_Listener\<close>: \<open>DDSCallbackReaderListener\<close>, every operation on the queue of one reader (enqueue of
    a batch under each drop policy, the scheduling flag, popping, closing).
  \<^item> \<open>Dds_Callbacks\<close>: the composition.  DDS threads that deliver samples, executor threads that drain a
    listener and the application that closes it interleave as an inductive step relation.  Shown by rule
    induction: callbacks of a reader never overlap, a task exists exactly while one is scheduled, they run in order, every accepted message is delivered
    or counted as dropped, the queue is bounded, no message is stranded.
  \<^item> \<open>Dds_Channel\<close>: \<open>dds_topic_channel.hpp\<close>, \<open>dds_factory_model.hpp\<close>, \<open>channel_publisher.hpp\<close>,
    \<open>channel_subscriber.hpp\<close>.  The DDS entities live in a participant that answers each creation with a
    fresh handle or null; traces of operations show that no entity leaks.

  \<^bold>\<open>Calling (\<open>robot/rpc\<close>, \<open>robot/b1\<close>, \<open>robot/ai\<close>, \<open>robot/vision\<close>, \<open>robot/device\<close>, \<open>robot/x5_camera\<close>)\<close>
  \<^item> \<open>Json_Value\<close>, \<open>Json_Codec\<close>: the part of \<open>nlohmann::json\<close> the SDK relies on (element access, conversion
    and their exceptions) and the interface \<open>json_codec\<close>, a locale with the laws every pair of \<open>ToJson\<close> and
    \<open>FromJson\<close> keeps.  Every parameter and response class is an interpretation of it.  \<open>jwire\<close> is the effect of
    \<open>dump\<close> followed by \<open>parse\<close>.
  \<^item> \<open>Rpc_Message\<close>, \<open>Rpc_Client\<close>: headers, messages and status codes, and the calls of a client over an
    abstract transport.
  \<^item> \<open>Robot_Types\<close>, \<open>Loco_Api\<close>, \<open>Loco_Client\<close>, \<open>Device_Info\<close>: the locomotion service.  Each method of
    \<open>B1LocoClient\<close> makes one call whose document, read by the parameter class of its identifier, gives the
    arguments back; equal calls mean equal things; answers arrive unchanged; errors leave outputs alone.
  \<^item> \<open>Ai_Api\<close>, \<open>Light_Api\<close>, \<open>Vision_Api\<close>, \<open>X5_Camera\<close>: the other services in the same form, with their text
    helpers (UTF-8 counting, Base64 sizes, colours in hexadecimal).

  \<^bold>\<open>Controlling (\<open>robot/b1\<close>)\<close>
  \<^item> \<open>Ieee_Round\<close>: rounding to IEEE single and double precision, with monotonicity, idempotence and error
    bounds.  Overflow and NaN are outside the model: the controllers are stated for finite values.
  \<^item> \<open>Controller_Common\<close>, \<open>Move_Controller\<close>, \<open>Arm_Controller\<close>: the blocking controllers.  A loop runs over the
    list of what its rounds observe (clock, sensor reading, answer of the send), so that every
    behaviour of the outside world is some list; when the list ends the call is still running.  A send or a read of the
    odometry that throws is one of these observations.  The speed limit of \<open>MoveToTarget\<close> is on the length of the planar
    velocity, for speeds of at least a centimetre per second, coordinates up to \<open>2 ^ 20\<close> and a \<open>hypot\<close> (locale \<open>c_math\<close>)
    that errs by at most one unit in the last place.

  \<^bold>\<open>Data (\<open>booster/idl\<close>, \<open>robot/audio\<close>)\<close>
  \<^item> \<open>Idl_Common\<close>, \<open>Idl_Robot\<close>, \<open>Idl_Media\<close>, \<open>Audio_Types\<close>: the message classes and the public audio types with
    their default objects.

  \<^bold>\<open>RTPS (\<open>booster_fastdds\<close>)\<close>, the protocol core of the bundled Fast DDS headers
  \<^item> \<open>Rtps_Sequence\<close>: \<open>SequenceNumber.h\<close>, 64-bit sequence numbers kept as two halves, shown to be integers: every
    comparison always, every sum and difference in the range where the halves can hold it.
  \<^item> \<open>Bitmap_Range\<close>: \<open>fixed_size_bitmap.hpp\<close>, every operation of \<open>BitmapRange\<close> on its eight words, with the
    effect of each loop on the positions of bits.
  \<^item> \<open>Bitmap_Set\<close>: the contract of the template parameters as the locale \<open>range_item\<close>, and the refinement of
    finite sets of integers proved once inside it.
  \<^item> \<open>Rtps_Sets\<close>: the interpretations for sequence and fragment numbers, and what the operations do outside
    of their contract (sliding or removing from an empty range, \<open>add_range\<close> beyond the allowed maximum).
  \<^item> \<open>Byte_Store\<close>, \<open>Serialized_Payload\<close>: buffers as lists of octets whose accesses outside are \<open>None\<close>, words in both
    byte orders, and \<open>SerializedPayload.h\<close> over them.
  \<^item> \<open>Cache_Change\<close>, \<open>Fragment_Reassembly\<close>, \<open>Fragment_Delivery\<close>: \<open>CacheChange.h\<close>.  The list of missing
    fragments is kept inside of the payload at aligned offsets; it refines the set of missing fragments, and any
    delivery of all fragments gives the message.  The links must not overlap (fragments of at least four octets other
    than five, and a last one that holds its link); the findings show what happens otherwise.
  \<^item> \<open>Change_For_Reader\<close>: \<open>ChangeForReader.h\<close>, the window of 256 unsent fragments and its two stages.
  \<^item> \<open>Cdr_Message\<close>, \<open>Cdr_Roundtrip\<close>: the readers and writers of \<open>CDRMessage.hpp\<close> for a little-endian target, with
    their 32-bit bounds checks; sets written are read back, and reading arbitrary octets stays in the buffer.
  \<^item> \<open>Rtps_Guid\<close>: \<open>EntityId_t.hpp\<close>, \<open>GuidPrefix_t.hpp\<close>, \<open>Guid.h\<close>, \<open>InstanceHandle.h\<close>, shown to be one linear order.

  \<^item> \<open>Rtps_Locator\<close>, \<open>Locator_Selector\<close>: \<open>Locator.h\<close>, \<open>LocatorList.hpp\<close>, \<open>RemoteLocators.hpp\<close>,
    \<open>LocatorSelectorEntry.hpp\<close>, \<open>LocatorSelector.hpp\<close>.  Locator lists are sets, and the iterator over the selected
    locators visits what \<open>for_each\<close> does; its rounds are bounded by the number of selected locators.

  \<^bold>\<open>Readers (\<open>booster_fastdds\<close>)\<close>
  \<^item> \<open>Resource_Vector\<close>: \<open>ResourceLimitedVector.hpp\<close>, a bounded bag for every configuration with an initial size within
    the maximum and a step when it can grow (\<open>rc_usable\<close>), while the capacity does not wrap around; \<open>rc_ok\<close>, which the users of
    a vector assume, bounds the step so that it never does.  \<open>std::vector::reserve\<close> is taken to allocate what it is asked for,
    as the GNU library does.  The locale \<open>limited_collection\<close> is interpreted for both ways of removal.
  \<^item> \<open>Reader_Instance\<close>, \<open>Instance_Ownership\<close>: \<open>DataReaderInstance.hpp\<close> and the state masks.  The counters of the
    history stay exact; under exclusive ownership the strongest live writer owns a live instance, where
    one has a positive strength (writers of strength zero do not inherit it).  A notification is regular when it comes from
    a known writer with a strength below the shared mark and room to be entered, is no weaker sample of the owner than its
    last, and no disposal of an instance without writers.
  \<^item> \<open>Reader_Loans\<close>: \<open>LoanableCollection.hpp\<close>, \<open>DataReaderLoanManager.hpp\<close>, \<open>SampleInfoPool.hpp\<close>.  Every buffer is
    in one item; loans are refused at the limit only and returned exactly when they are out.
  \<^item> \<open>Shared_Mutex\<close>: \<open>shared_mutex.hpp\<close>, both reader-writer locks as step relations over critical sections with
    condition variables.  Writers exclude, and no wake-up is lost, for fewer than \<open>2 ^ 31 - 1\<close> threads.

  An operation whose assertion fails, or that leaves a buffer, gives \<open>None\<close> in these theories; theorems that exclude it
  say so by an equation with \<open>Some\<close>.

  \<^bold>\<open>Not modelled.\<close>  The RPC client, server and operation classes, \<open>LuiClient\<close>, \<open>HandEyeCalibClient\<close>,
  \<open>CameraClient\<close>, the audio classes and the parsers of \<open>DeviceInfo\<close> into messages are only declared in the
  headers.  Of the vendored Fast DDS only the parts above are modelled: left out are timestamps, property sequences and
  security messages of \<open>CDRMessage\<close>, text input and output of identifiers and locators, \<open>SampleLoanManager\<close>,
  \<open>ReadTakeCommand\<close>, QoS policies, dynamic types, Fast CDR, tinyxml2 and the allocators, and whatever is only declared.
  The text level of \<open>nlohmann::json\<close> is represented by what the SDK relies on.
\<close>

end
